(* ===== verification/Prelude.thy ===== *)
theory Prelude
  imports Main "HOL-Library.Word" "HOL-Library.Char_ord" "HOL-Library.List_Lexorder" "HOL-Library.Multiset"
begin

unbundle bit_operations_syntax

text \<open>
  Shared ground of the development: names for the machine types of the Go sources, the
  result type that stands for Go's \<open>(value, error)\<close> returns, and the list, word and
  string functions of the Go language and its standard library that the components use
  (little-endian integers of \<open>encoding/binary\<close>, \<open>encoding/hex\<close>, \<open>encoding/base64\<close>, the
  \<open>strings\<close> functions and \<open>sort.Slice\<close>).

  Strings are Go strings: sequences of bytes, written \<^typ>\<open>string\<close>. The functions that look
  at letters and spaces (\<open>ToLower\<close>, \<open>TrimSpace\<close>, \<open>EqualFold\<close>) act on ASCII, which is what
  the identifiers, hex strings and URLs of this program are made of.
\<close>

section \<open>Machine types\<close>

type_synonym byte = "8 word"
type_synonym u8 = "8 word"
type_synonym u16 = "16 word"
type_synonym u32 = "32 word"
type_synonym u64 = "64 word"

type_synonym bytes = "byte list"
type_synonym hash32 = "byte list"

named_theorems go_simps \<open>evaluation of the modelled operations\<close>

section \<open>Results\<close>

text \<open>\<open>Inl\<close> is a returned error, \<open>Inr\<close> the returned value.\<close>

definition bindE :: "'e + 'a \<Rightarrow> ('a \<Rightarrow> 'e + 'b) \<Rightarrow> 'e + 'b" where
  "bindE m f = (case m of Inl e \<Rightarrow> Inl e | Inr x \<Rightarrow> f x)"

definition mapErr :: "('e \<Rightarrow> 'f) \<Rightarrow> 'e + 'a \<Rightarrow> 'f + 'a" where
  "mapErr g m = (case m of Inl e \<Rightarrow> Inl (g e) | Inr x \<Rightarrow> Inr x)"

definition ofOption :: "'e \<Rightarrow> 'a option \<Rightarrow> 'e + 'a" where
  "ofOption e m = (case m of None \<Rightarrow> Inl e | Some x \<Rightarrow> Inr x)"

definition isOk :: "'e + 'a \<Rightarrow> bool" where
  "isOk m = (case m of Inl _ \<Rightarrow> False | Inr _ \<Rightarrow> True)"

lemma bindE_simps [simp]:
  "bindE (Inl e) f = Inl e"
  "bindE (Inr x) f = f x"
  by (simp_all add: bindE_def)

lemma bindE_eq_Inr [simp]: "bindE m f = Inr y \<longleftrightarrow> (\<exists>x. m = Inr x \<and> f x = Inr y)"
  by (cases m) (auto simp: bindE_def)

lemma bindE_cong [fundef_cong]:
  "m = m' \<Longrightarrow> (\<And>x. m' = Inr x \<Longrightarrow> f x = f' x) \<Longrightarrow> bindE m f = bindE m' f'"
  by (cases m') (auto simp: bindE_def)

lemma mapErr_simps [simp]:
  "mapErr g (Inl e) = Inl (g e)"
  "mapErr g (Inr x) = Inr x"
  by (simp_all add: mapErr_def)

lemma mapErr_eq_Inr [simp]: "mapErr g m = Inr y \<longleftrightarrow> m = Inr y"
  by (cases m) (auto simp: mapErr_def)

lemma ofOption_simps [simp]:
  "ofOption e None = Inl e"
  "ofOption e (Some x) = Inr x"
  by (simp_all add: ofOption_def)

lemma ofOption_eq_Inr [simp]: "ofOption e m = Inr y \<longleftrightarrow> m = Some y"
  by (cases m) auto

lemma isOk_simps [simp]: "isOk (Inl e) = False" "isOk (Inr x) = True"
  by (simp_all add: isOk_def)

lemma isOk_iff: "isOk m \<longleftrightarrow> (\<exists>x. m = Inr x)"
  by (cases m) auto

lemma if_Inl_eq_Inr [simp]:
  "(if b then Inl e else m) = Inr y \<longleftrightarrow> \<not> b \<and> m = Inr y"
  "(if b then m else Inl e) = Inr y \<longleftrightarrow> b \<and> m = Inr y"
  by auto

lemma if_None_eq_Some [simp]:
  "(if b then None else m) = Some y \<longleftrightarrow> \<not> b \<and> m = Some y"
  "(if b then m else None) = Some y \<longleftrightarrow> b \<and> m = Some y"
  by auto

text \<open>A loop that runs a fallible body over a slice and collects the results.\<close>

fun mapE :: "('a \<Rightarrow> 'e + 'b) \<Rightarrow> 'a list \<Rightarrow> 'e + 'b list" where
  "mapE f [] = Inr []"
| "mapE f (x # xs) = bindE (f x) (\<lambda>y. bindE (mapE f xs) (\<lambda>ys. Inr (y # ys)))"

lemma mapE_eq_Inr: "mapE f xs = Inr ys \<longleftrightarrow> list_all2 (\<lambda>x y. f x = Inr y) xs ys"
proof (induction xs arbitrary: ys)
  case (Cons x xs)
  then show ?case by (cases ys) auto
qed auto

lemma mapE_all_ok: "(\<And>x. x \<in> set xs \<Longrightarrow> f x = Inr (g x)) \<Longrightarrow> mapE f xs = Inr (map g xs)"
  by (induction xs) auto

text \<open>A loop that runs a check over a slice and stops at the first error.\<close>

fun forE :: "('a \<Rightarrow> 'e + unit) \<Rightarrow> 'a list \<Rightarrow> 'e + unit" where
  "forE f [] = Inr ()"
| "forE f (x # xs) = bindE (f x) (\<lambda>_. forE f xs)"

lemma forE_eq_Inr [simp]: "forE f xs = Inr u \<longleftrightarrow> (\<forall>x \<in> set xs. f x = Inr ())"
  by (induction xs) auto

section \<open>Fixed-size arrays\<close>

text \<open>\<open>var out [32]byte; copy(out[:], b)\<close>: the first 32 bytes, zero-filled.\<close>

definition copyN :: "nat \<Rightarrow> bytes \<Rightarrow> bytes" where
  "copyN n b = take n (b @ replicate n 0)"

abbreviation copy32 :: "bytes \<Rightarrow> hash32" where
  "copy32 \<equiv> copyN 32"

abbreviation zero32 :: hash32 where
  "zero32 \<equiv> replicate 32 0"

lemma length_copyN [simp]: "length (copyN n b) = n"
  by (simp add: copyN_def)

lemma copyN_id [simp]: "length b = n \<Longrightarrow> copyN n b = b"
  by (simp add: copyN_def)

section \<open>Bytes of strings\<close>

definition bytes_of :: "string \<Rightarrow> bytes" where
  "bytes_of s = map (\<lambda>c. of_char c) s"

lemma unat_of_char_byte [simp]: "unat (of_char c :: byte) = of_char c"
proof -
  have "(of_char c :: byte) = of_nat (of_char c)" by (simp only: of_nat_of_char)
  then have "unat (of_char c :: byte) = of_char c mod 2 ^ LENGTH(8)"
    by (metis unat_of_nat)
  then show ?thesis by simp
qed

lemma of_char_byte_inj: "(of_char c :: byte) = of_char d \<longleftrightarrow> c = d"
  by (metis unat_of_char_byte of_char_eq_iff)

lemma bytes_of_simps [simp]:
  "bytes_of [] = []"
  "bytes_of (c # s) = of_char c # bytes_of s"
  "bytes_of (s @ t) = bytes_of s @ bytes_of t"
  by (simp_all add: bytes_of_def)

lemma length_bytes_of [simp]: "length (bytes_of s) = length s"
  by (simp add: bytes_of_def)

lemma bytes_of_inj [simp]: "bytes_of s = bytes_of t \<longleftrightarrow> s = t"
proof
  show "bytes_of s = bytes_of t \<Longrightarrow> s = t"
  proof (induction s arbitrary: t)
    case Nil
    then show ?case by (cases t) auto
  next
    case (Cons c s)
    then show ?case by (cases t) (auto simp: of_char_byte_inj)
  qed
qed simp

text \<open>Bytes as a string, for the raw messages.\<close>

definition string_of :: "bytes \<Rightarrow> string" where
  "string_of b = map (\<lambda>w. char_of (unat w)) b"

lemma bytes_of_string_of [simp]: "bytes_of (string_of b) = b"
proof (induction b)
  case (Cons w b)
  have "unat w < 256" using unsigned_less[of w] by simp
  then have "unat (of_char (char_of (unat w)) :: byte) = unat w" by simp
  then have "(of_char (char_of (unat w)) :: byte) = w" by (simp only: word_unat_eq_iff)
  then show ?case using Cons by (simp add: string_of_def)
qed (simp add: string_of_def)

end
