(* ===== verification/GoLib.thy ===== *)
theory GoLib
  imports Prelude
begin

unbundle bit_operations_syntax

text \<open>
  The Go standard library functions the sources call, on bytes and strings:
  \<open>binary.LittleEndian\<close>, \<open>hex\<close>, the \<open>strings\<close> helpers, \<open>strconv.FormatUint\<close> and
  \<open>sort.Slice\<close>. Each comes with the laws the components rely on (decoding undoes
  encoding, normal forms are idempotent, sorting is a sorted permutation).
\<close>

section \<open>Little-endian integers\<close>

text \<open>\<open>binary.LittleEndian.PutUint\<close> on \<open>n\<close> bytes.\<close>

definition putLE :: "nat \<Rightarrow> 'a::len word \<Rightarrow> bytes" where
  "putLE n w = map (\<lambda>i. ucast (drop_bit (8 * i) w)) [0..<n]"

text \<open>\<open>binary.LittleEndian.Uint\<close>: the first byte is the least significant one.\<close>

fun getLE :: "bytes \<Rightarrow> 'a::len word" where
  "getLE [] = 0"
| "getLE (b # bs) = ucast b OR push_bit 8 (getLE bs)"

lemma length_putLE [simp]: "length (putLE n w) = n"
  by (simp add: putLE_def)

lemma bit_getLE:
  "bit (getLE bs :: 'a::len word) k \<longleftrightarrow>
     k < LENGTH('a) \<and> k div 8 < length bs \<and> bit (bs ! (k div 8)) (k mod 8)"
proof (induction bs arbitrary: k)
  case (Cons b bs)
  show ?case
  proof (cases "k < 8")
    case True
    then show ?thesis by (auto simp: bit_or_iff bit_push_bit_iff bit_ucast_iff)
  next
    case False
    then have eq: "k div 8 = Suc ((k - 8) div 8)" "k mod 8 = (k - 8) mod 8"
      by (simp_all add: le_div_geq le_mod_geq)
    have "\<not> bit b k" using False bit_imp_le_length[of b k] by auto
    then have "bit (getLE (b # bs) :: 'a word) k \<longleftrightarrow>
      k < LENGTH('a) \<and> bit (getLE bs :: 'a word) (k - 8)"
      using False by (auto simp: bit_or_iff bit_push_bit_iff bit_ucast_iff dest: bit_imp_le_length)
    then show ?thesis using Cons.IH[of "k - 8"] eq by auto
  qed
qed simp

lemma getLE_putLE [simp]:
  fixes w :: "'a::len word"
  assumes "LENGTH('a) = 8 * n"
  shows "getLE (putLE n w) = w"
proof (rule bit_word_eqI)
  fix k assume "k < LENGTH('a)"
  then show "bit (getLE (putLE n w) :: 'a word) k = bit w k"
    using assms by (auto simp: bit_getLE putLE_def bit_ucast_iff bit_drop_bit_eq)
qed

lemma putLE_inj:
  fixes w v :: "'a::len word"
  assumes "LENGTH('a) = 8 * n" "putLE n w = putLE n v"
  shows "w = v"
  using assms getLE_putLE by metis

section \<open>Hexadecimal\<close>

definition hexDigit :: "nat \<Rightarrow> char" where
  "hexDigit n = (if n < 10 then char_of (48 + n) else char_of (87 + n))"

definition hexVal :: "char \<Rightarrow> nat option" where
  "hexVal c = (let n = of_char c :: nat in
     if 48 \<le> n \<and> n \<le> 57 then Some (n - 48)
     else if 97 \<le> n \<and> n \<le> 102 then Some (n - 87)
     else if 65 \<le> n \<and> n \<le> 70 then Some (n - 55)
     else None)"

fun hexEncode :: "bytes \<Rightarrow> string" where
  "hexEncode [] = []"
| "hexEncode (b # bs) = hexDigit (unat b div 16) # hexDigit (unat b mod 16) # hexEncode bs"

text \<open>\<open>hex.DecodeString\<close>; \<open>None\<close> is its error return (odd length or a bad character).\<close>

fun hexDecode :: "string \<Rightarrow> bytes option" where
  "hexDecode [] = Some []"
| "hexDecode [c] = None"
| "hexDecode (c # d # s) =
     (case (hexVal c, hexVal d, hexDecode s) of
        (Some hi, Some lo, Some bs) \<Rightarrow> Some (of_nat (16 * hi + lo) # bs)
      | _ \<Rightarrow> None)"

lemma hexVal_hexDigit [simp]: "n < 16 \<Longrightarrow> hexVal (hexDigit n) = Some n"
  by (auto simp: hexVal_def hexDigit_def Let_def)

lemma byte_hex_split [simp]: "(of_nat (16 * (unat b div 16) + unat b mod 16) :: byte) = b"
  by simp

lemma byte_div16 [simp]: "unat (b :: byte) div 16 < 16"
proof -
  have "unat b < 2 ^ LENGTH(8)" by (rule unsigned_less)
  then show ?thesis by (simp add: less_mult_imp_div_less)
qed

lemma hexDecode_hexEncode [simp]: "hexDecode (hexEncode bs) = Some bs"
proof (induction bs)
  case (Cons b bs)
  then show ?case by (simp add: byte_div16 del: of_nat_add of_nat_mult)
qed simp

lemma length_hexEncode [simp]: "length (hexEncode bs) = 2 * length bs"
  by (induction bs) auto

lemma hexDecode_length: "hexDecode s = Some bs \<Longrightarrow> length s = 2 * length bs"
  by (induction s arbitrary: bs rule: hexDecode.induct) (auto split: option.splits)

lemma hexEncode_inj: "hexEncode a = hexEncode b \<longleftrightarrow> a = b"
  by (metis hexDecode_hexEncode option.inject)

section \<open>The strings package\<close>

definition toLowerC :: "char \<Rightarrow> char" where
  "toLowerC c = (let n = of_char c :: nat in if 65 \<le> n \<and> n \<le> 90 then char_of (n + 32) else c)"

definition ToLower :: "string \<Rightarrow> string" where
  "ToLower s = map toLowerC s"

definition isSpaceC :: "char \<Rightarrow> bool" where
  "isSpaceC c = (let n = of_char c :: nat in n = 32 \<or> (9 \<le> n \<and> n \<le> 13))"

definition TrimSpace :: "string \<Rightarrow> string" where
  "TrimSpace s = rev (dropWhile isSpaceC (rev (dropWhile isSpaceC s)))"

fun HasPrefix :: "string \<Rightarrow> string \<Rightarrow> bool" where
  "HasPrefix s [] = True"
| "HasPrefix [] (p # ps) = False"
| "HasPrefix (c # s) (p # ps) = (c = p \<and> HasPrefix s ps)"

definition TrimPrefix :: "string \<Rightarrow> string \<Rightarrow> string" where
  "TrimPrefix s p = (if HasPrefix s p then drop (length p) s else s)"

definition EqualFold :: "string \<Rightarrow> string \<Rightarrow> bool" where
  "EqualFold s t = (ToLower s = ToLower t)"

lemma of_char_toLowerC:
  "(of_char (toLowerC c) :: nat) =
     (if 65 \<le> (of_char c :: nat) \<and> (of_char c :: nat) \<le> 90 then of_char c + 32 else of_char c)"
  by (auto simp: toLowerC_def Let_def)

lemma toLowerC_idem [simp]: "toLowerC (toLowerC c) = toLowerC c"
  by (auto simp: toLowerC_def Let_def)

lemma ToLower_simps [simp]:
  "ToLower [] = []"
  "ToLower (c # s) = toLowerC c # ToLower s"
  "ToLower (s @ t) = ToLower s @ ToLower t"
  by (simp_all add: ToLower_def)

lemma ToLower_idem [simp]: "ToLower (ToLower s) = ToLower s"
  by (induction s) auto

lemma isSpaceC_toLowerC [simp]: "isSpaceC (toLowerC c) = isSpaceC c"
  by (auto simp: isSpaceC_def toLowerC_def Let_def)

lemma dropWhile_ToLower: "dropWhile isSpaceC (ToLower s) = ToLower (dropWhile isSpaceC s)"
  by (induction s) auto

lemma rev_ToLower: "rev (ToLower s) = ToLower (rev s)"
  by (simp add: ToLower_def rev_map)

lemma TrimSpace_ToLower: "TrimSpace (ToLower s) = ToLower (TrimSpace s)"
  by (simp add: TrimSpace_def dropWhile_ToLower rev_ToLower)

lemma TrimSpace_no_space: "\<forall>c \<in> set s. \<not> isSpaceC c \<Longrightarrow> TrimSpace s = s"
proof -
  have drop_id: "dropWhile isSpaceC t = t" if "\<forall>c \<in> set t. \<not> isSpaceC c" for t
    using that by (cases t) auto
  assume s: "\<forall>c \<in> set s. \<not> isSpaceC c"
  then have "dropWhile isSpaceC s = s" "dropWhile isSpaceC (rev s) = rev s"
    by (auto intro: drop_id)
  then show ?thesis by (simp add: TrimSpace_def)
qed

lemma dropWhile_idem [simp]: "dropWhile P (dropWhile P xs) = dropWhile P xs"
  by (induction xs) auto

lemma dropWhile_fix: "dropWhile P xs = xs \<longleftrightarrow> xs = [] \<or> \<not> P (hd xs)"
proof (cases xs)
  case (Cons x xs')
  have "length (dropWhile P xs') \<le> length xs'" by (rule length_dropWhile_le)
  then have "dropWhile P xs' \<noteq> x # xs'" by auto
  then show ?thesis using Cons by auto
qed simp

lemma dropWhile_full: "length xs \<le> length (dropWhile P xs) \<Longrightarrow> dropWhile P xs = xs"
proof (cases xs)
  case (Cons x xs')
  assume "length xs \<le> length (dropWhile P xs)"
  then show ?thesis using Cons length_dropWhile_le[of P xs'] by (auto split: if_splits)
qed simp

lemma TrimSpace_idem [simp]: "TrimSpace (TrimSpace s) = TrimSpace s"
proof -
  let ?d = "dropWhile isSpaceC"
  let ?a = "?d s"
  let ?b = "?d (rev ?a)"
  have "?d (rev ?b) = rev ?b"
  proof (cases "rev ?b = []")
    case False
    then have "hd (rev ?b) = last ?b" by (simp add: hd_rev)
    also have "last ?b = last (rev ?a)"
      using False by (metis dropWhile_eq_drop drop_eq_Nil last_drop not_le rev.simps(1))
    also have "\<dots> = hd ?a" using False by (metis dropWhile.simps(1) last_rev rev.simps(1))
    finally have "hd (rev ?b) = hd ?a" .
    moreover have "?a \<noteq> []" using False by (metis dropWhile.simps(1) rev.simps(1))
    then have "\<not> isSpaceC (hd ?a)" by (metis hd_dropWhile)
    ultimately show ?thesis by (simp add: dropWhile_fix)
  next
    case True
    show ?thesis by (simp only: True dropWhile.simps)
  qed
  then show ?thesis by (simp add: TrimSpace_def)
qed

lemma TrimSpace_prefix:
  assumes "TrimSpace v = v" "v \<noteq> []" "\<not> isSpaceC c"
  shows "TrimSpace (c # d # v) = c # d # v"
proof -
  have "length v = length (dropWhile isSpaceC (rev (dropWhile isSpaceC v)))"
    using arg_cong[OF assms(1), of length] by (simp add: TrimSpace_def)
  also have "\<dots> \<le> length (dropWhile isSpaceC v)"
    using length_dropWhile_le[of isSpaceC "rev (dropWhile isSpaceC v)"] by simp
  finally have dv: "dropWhile isSpaceC v = v" by (rule dropWhile_full)
  have "dropWhile isSpaceC (rev v) = rev v"
    using assms(1) dv unfolding TrimSpace_def by (metis rev_rev_ident)
  then have "\<not> isSpaceC (hd (rev v))" using assms(2) by (simp add: dropWhile_fix)
  then have "\<not> isSpaceC (hd (rev v @ [d, c]))" using assms(2) by simp
  then have "dropWhile isSpaceC (rev v @ [d, c]) = rev v @ [d, c]" by (simp add: dropWhile_fix)
  then show ?thesis using assms(3) by (simp add: TrimSpace_def)
qed

lemma HasPrefix_append: "HasPrefix s p \<longleftrightarrow> (\<exists>t. s = p @ t)"
  by (induction s p rule: HasPrefix.induct) auto

lemma HasPrefix_self [simp]: "HasPrefix (p @ t) p"
  by (simp add: HasPrefix_append)

lemma TrimPrefix_self [simp]: "TrimPrefix (p @ t) p = t"
  by (simp add: TrimPrefix_def)

lemma HasPrefix_ToLower_hex [simp]:
  "HasPrefix (ToLower s) ''0x'' \<longleftrightarrow> HasPrefix s ''0x'' \<or> HasPrefix s ''0X''"
proof -
  have low: "toLowerC c = CHR ''x'' \<longleftrightarrow> c = CHR ''x'' \<or> c = CHR ''X''"
    "toLowerC c = CHR ''0'' \<longleftrightarrow> c = CHR ''0''" for c
    by (auto simp flip: of_char_eq_iff [where 'a = nat] simp: of_char_toLowerC)
  show ?thesis
  proof (cases s)
    case (Cons c t)
    then show ?thesis by (cases t) (auto simp: low)
  qed simp
qed

section \<open>Decimal numbers\<close>

text \<open>\<open>strconv.FormatUint(n, 10)\<close>, also the way \<open>encoding/json\<close> prints unsigned integers.\<close>

fun decimal :: "nat \<Rightarrow> string" where
  "decimal n = (if n < 10 then [char_of (48 + n)] else decimal (n div 10) @ [char_of (48 + n mod 10)])"

declare decimal.simps [simp del]

definition isDigitC :: "char \<Rightarrow> bool" where
  "isDigitC c = (48 \<le> (of_char c :: nat) \<and> (of_char c :: nat) \<le> 57)"

fun undecimal :: "string \<Rightarrow> nat \<Rightarrow> nat" where
  "undecimal [] acc = acc"
| "undecimal (c # s) acc = undecimal s (10 * acc + (of_char c - 48))"

lemma undecimal_append: "undecimal (s @ t) acc = undecimal t (undecimal s acc)"
  by (induction s arbitrary: acc) auto

lemma decimal_nonempty [simp]: "decimal n \<noteq> []"
  by (subst decimal.simps) simp

lemma decimal_digits: "c \<in> set (decimal n) \<Longrightarrow> isDigitC c"
proof (induction n arbitrary: c rule: decimal.induct)
  case (1 n)
  show ?case
  proof (cases "n < 10")
    case True
    with "1.prems" show ?thesis by (auto simp: decimal.simps[of n] isDigitC_def)
  next
    case False
    then consider "c \<in> set (decimal (n div 10))" | "c = char_of (48 + n mod 10)"
      using "1.prems" by (auto simp: decimal.simps[of n])
    then show ?thesis
    proof cases
      case 2
      have "n mod 10 < 10" by simp
      then show ?thesis using 2 by (simp add: isDigitC_def)
    qed (use False "1.IH" in simp)
  qed
qed

lemma undecimal_decimal: "undecimal (decimal n) 0 = n"
proof (induction n rule: decimal.induct)
  case (1 n)
  show ?case
  proof (cases "n < 10")
    case False
    have "n mod 10 < 10" by simp
    then have "(of_char (char_of (48 + n mod 10) :: char) :: nat) = 48 + n mod 10" by simp
    then show ?thesis using False "1.IH"
      by (simp add: decimal.simps[of n] undecimal_append)
  qed (simp add: decimal.simps[of n])
qed

lemma decimal_inj: "decimal m = decimal n \<longleftrightarrow> m = n"
  by (metis undecimal_decimal)

text \<open>A number followed by a non-digit is read back unambiguously.\<close>

lemma takeWhile_decimal:
  "\<not> isDigitC c \<Longrightarrow> takeWhile isDigitC (decimal n @ c # rest) = decimal n"
  by (simp add: takeWhile_append2 decimal_digits)

lemma decimal_split:
  assumes "\<not> isDigitC c" "\<not> isDigitC d" "decimal m @ c # r = decimal n @ d # s"
  shows "m = n \<and> c # r = d # s"
proof -
  have "decimal m = decimal n" using assms takeWhile_decimal by metis
  then show ?thesis using assms(3) by (simp add: decimal_inj)
qed

section \<open>Counting loops\<close>

lemma unat_suc: "p < (e :: u64) \<Longrightarrow> unat (p + 1) = unat p + 1"
proof -
  assume "p < e"
  then have "unat p + 1 < 2 ^ 64" using unsigned_less[of e, where 'a = nat] by (simp add: word_less_nat_alt)
  then show ?thesis by (simp add: unat_word_ariths)
qed

lemma unat_suc_less: "p < (e :: u64) \<Longrightarrow> unat e - unat (p + 1) < unat e - unat p"
  using unat_suc[of p e] by (simp add: word_less_nat_alt)

section \<open>Sorting\<close>

text \<open>
  \<open>sort.Slice\<close> with a comparison given by a key. The model is the stable sort; Go promises
  stability only through its insertion sort on short slices, so the theorems about sorted
  data use the sorted-permutation laws and not the order of equal keys.
\<close>

definition sortSlice :: "('a \<Rightarrow> 'k::linorder) \<Rightarrow> 'a list \<Rightarrow> 'a list" where
  "sortSlice k xs = sort_key k xs"

lemma sortSlice_laws [simp]:
  "mset (sortSlice k xs) = mset xs"
  "set (sortSlice k xs) = set xs"
  "length (sortSlice k xs) = length xs"
  "sorted (map k (sortSlice k xs))"
  "distinct (sortSlice k xs) = distinct xs"
  by (simp_all add: sortSlice_def)

lemma sortSlice_empty [simp]: "sortSlice k xs = [] \<longleftrightarrow> xs = []" "sortSlice k [] = []"
  by (metis length_0_conv sortSlice_laws(3)) (simp add: sortSlice_def)

lemma sortSlice_perm_unique:
  assumes "mset xs = mset ys" "inj_on k (set xs)" "distinct xs"
  shows "sortSlice k xs = sortSlice k ys"
proof -
  have "distinct ys" "set ys = set xs"
    using assms(1,3) by (metis mset_eq_imp_distinct_iff, metis mset_eq_setD)
  then show ?thesis
    using assms(2,3) by (intro map_sorted_distinct_set_unique[of k]) (simp_all add: distinct_map)
qed

text \<open>\<open>sort.Search\<close>: binary search for the least position below \<open>j\<close> where a test holds.\<close>

function searchIn :: "(nat \<Rightarrow> bool) \<Rightarrow> nat \<Rightarrow> nat \<Rightarrow> nat" where
  "searchIn f i j = (if i < j then
      (let h = (i + j) div 2 in if f h then searchIn f i h else searchIn f (h + 1) j) else i)"
  by pat_completeness auto
termination by (relation "measure (\<lambda>(f, i, j). j - i)") auto

declare searchIn.simps [simp del]

definition sortSearch :: "nat \<Rightarrow> (nat \<Rightarrow> bool) \<Rightarrow> nat" where
  "sortSearch n f = searchIn f 0 n"

lemma searchIn_spec:
  assumes "i \<le> j" "\<And>a b. a \<le> b \<Longrightarrow> b < j \<Longrightarrow> f a \<Longrightarrow> f b"
  shows "i \<le> searchIn f i j \<and> searchIn f i j \<le> j
    \<and> (\<forall>k. i \<le> k \<and> k < searchIn f i j \<longrightarrow> \<not> f k)
    \<and> (searchIn f i j < j \<longrightarrow> f (searchIn f i j))"
  using assms
proof (induction f i j rule: searchIn.induct)
  case (1 f i j)
  show ?case
  proof (cases "i < j")
    case True
    define h where "h = (i + j) div 2"
    have h: "i \<le> h" "h < j" using True by (auto simp: h_def)
    show ?thesis
    proof (cases "f h")
      case True': True
      have eq: "searchIn f i j = searchIn f i h"
        using True True' by (simp add: searchIn.simps[of f i j] h_def)
      have "i \<le> searchIn f i h \<and> searchIn f i h \<le> h
        \<and> (\<forall>k. i \<le> k \<and> k < searchIn f i h \<longrightarrow> \<not> f k) \<and> (searchIn f i h < h \<longrightarrow> f (searchIn f i h))"
        using "1.IH"(1)[OF True h_def True'] h "1.prems"(2) by (meson order.strict_trans)
      then show ?thesis using eq h True' by (metis le_neq_implies_less less_or_eq_imp_le order_trans)
    next
      case False
      have eq: "searchIn f i j = searchIn f (h + 1) j"
        using True False by (simp add: searchIn.simps[of f i j] h_def)
      have below: "\<not> f k" if "k \<le> h" for k
        using "1.prems"(2)[OF that h(2)] False by blast
      have "h + 1 \<le> searchIn f (h + 1) j \<and> searchIn f (h + 1) j \<le> j
        \<and> (\<forall>k. h + 1 \<le> k \<and> k < searchIn f (h + 1) j \<longrightarrow> \<not> f k)
        \<and> (searchIn f (h + 1) j < j \<longrightarrow> f (searchIn f (h + 1) j))"
        using "1.IH"(2)[OF True h_def False] h "1.prems"(2) by simp
      then show ?thesis using eq h below by (metis Suc_eq_plus1 Suc_leD not_less_eq_eq order_trans)
    qed
  next
    case False
    then have "searchIn f i j = i" by (subst searchIn.simps) simp
    then show ?thesis using "1.prems"(1) False by auto
  qed
qed

lemma sortSearch_member:
  fixes xs :: "'a::linorder list"
  assumes "sorted xs"
  shows "(let i = sortSearch (length xs) (\<lambda>i. x \<le> xs ! i) in i < length xs \<and> xs ! i = x) \<longleftrightarrow> x \<in> set xs"
proof -
  define i where "i = sortSearch (length xs) (\<lambda>i. x \<le> xs ! i)"
  have spec: "i \<le> length xs" "\<forall>k < i. \<not> x \<le> xs ! k" "i < length xs \<longrightarrow> x \<le> xs ! i"
  proof -
    have mono: "x \<le> xs ! b" if "a \<le> b" "b < length xs" "x \<le> xs ! a" for a b
      using sorted_nth_mono[OF assms that(1,2)] that(3) by simp
    note searchIn_spec[of 0 "length xs" "\<lambda>i. x \<le> xs ! i", OF _ mono]
    then show "i \<le> length xs" "\<forall>k < i. \<not> x \<le> xs ! k" "i < length xs \<longrightarrow> x \<le> xs ! i"
      unfolding i_def sortSearch_def by auto
  qed
  have "i < length xs \<and> xs ! i = x" if mem: "x \<in> set xs"
  proof -
    obtain k where k: "k < length xs" "xs ! k = x" using mem unfolding in_set_conv_nth by blast
    then have "\<not> k < i" using spec(2) by auto
    then have "i < length xs" "xs ! i \<le> x" using k sorted_nth_mono[OF assms, of i k] by auto
    then show ?thesis using spec(3) by (simp add: order_antisym)
  qed
  moreover have "x \<in> set xs" if "i < length xs" "xs ! i = x" using that nth_mem by blast
  ultimately show ?thesis unfolding Let_def i_def[symmetric] by blast
qed

end
