(* ===== verification/Json.thy ===== *)
theory Json
  imports GoLib
begin

text \<open>
  \<open>encoding/json.Marshal\<close> as the sources use it. A Go struct is marshalled by turning it
  into a \<^emph>\<open>JSON value\<close> whose members follow the order of the struct's fields and its
  \<open>omitempty\<close> tags, and printing that value without white space. String contents are
  escaped as Go does (quote, backslash, control characters, and the three HTML characters);
  bytes above 127 pass through, which is Go's behaviour on valid UTF-8 other than U+2028 and
  U+2029. A \<open>json.RawMessage\<close> is compacted as \<open>Marshal\<close> does: white space between tokens is dropped
  and the HTML characters are escaped. Raw messages reach the program by decoding JSON text, so
  they are syntactically valid; the error of \<open>Marshal\<close> on invalid ones is not modelled.

  The encoder is injective where the consensus relies on it: an escaped string is
  self-delimiting.
\<close>

datatype jval =
    JStr string
  | JNum int
  | JBool bool
  | JNull
  | JArr "jval list"
  | JObj "(string \<times> jval) list"
  | JRaw string

section \<open>Strings\<close>

definition jsonEscC :: "char \<Rightarrow> string" where
  "jsonEscC c =
     (let n = of_char c :: nat in
      if n = 34 \<or> n = 92 then [char_of (92 :: nat), c]
      else if n = 8 then [char_of (92 :: nat), CHR ''b'']
      else if n = 12 then [char_of (92 :: nat), CHR ''f'']
      else if n = 10 then [char_of (92 :: nat), CHR ''n'']
      else if n = 13 then [char_of (92 :: nat), CHR ''r'']
      else if n = 9 then [char_of (92 :: nat), CHR ''t'']
      else if n < 32 \<or> n = 60 \<or> n = 62 \<or> n = 38
        then [char_of (92 :: nat), CHR ''u'', CHR ''0'', CHR ''0'', hexDigit (n div 16), hexDigit (n mod 16)]
      else [c])"

definition quoteC :: char where "quoteC = char_of (34 :: nat)"

definition jsonString :: "string \<Rightarrow> string" where
  "jsonString s = quoteC # concat (map jsonEscC s) @ [quoteC]"

text \<open>Reading one escaped character back.\<close>

definition unescC :: "string \<Rightarrow> (char \<times> string) option" where
  "unescC s = (case s of
     [] \<Rightarrow> None
   | c # r \<Rightarrow>
      if (of_char c :: nat) \<noteq> 92 then Some (c, r)
      else (case r of
         [] \<Rightarrow> None
       | e # r' \<Rightarrow>
          if e = CHR ''b'' then Some (char_of (8 :: nat), r')
          else if e = CHR ''f'' then Some (char_of (12 :: nat), r')
          else if e = CHR ''n'' then Some (char_of (10 :: nat), r')
          else if e = CHR ''r'' then Some (char_of (13 :: nat), r')
          else if e = CHR ''t'' then Some (char_of (9 :: nat), r')
          else if e = CHR ''u'' then
            (case (hexVal (r' ! 2), hexVal (r' ! 3)) of
               (Some hi, Some lo) \<Rightarrow> Some (char_of (16 * hi + lo), drop 4 r')
             | _ \<Rightarrow> None)
          else Some (e, r')))"

lemma char_eq_of_char: "c = d \<longleftrightarrow> (of_char c :: nat) = of_char d"
  by (simp add: of_char_eq_iff)

lemma of_char_lt_256: "(of_char c :: nat) < 256"
  by (metis nat_of_char_less_256)

lemma unescC_jsonEscC: "unescC (jsonEscC c @ r) = Some (c, r)"
proof -
  define n where "n = (of_char c :: nat)"
  have c: "c = char_of n" by (simp add: n_def)
  have n: "n < 256" by (simp add: n_def of_char_lt_256)
  consider "n = 34" | "n = 92" | "n = 8" | "n = 12" | "n = 10" | "n = 13" | "n = 9"
    | (u) "n < 32 \<or> n = 60 \<or> n = 62 \<or> n = 38" "n \<notin> {8, 9, 10, 12, 13, 34, 92}"
    | (plain) "\<not> (n < 32 \<or> n = 60 \<or> n = 62 \<or> n = 38)" "n \<notin> {34, 92}"
    by blast
  then show ?thesis
  proof cases
    case u
    then have e: "jsonEscC c = [char_of (92 :: nat), CHR ''u'', CHR ''0'', CHR ''0'', hexDigit (n div 16), hexDigit (n mod 16)]"
      by (simp add: jsonEscC_def Let_def flip: n_def)
    have "n div 16 < 16" using n by (simp add: less_mult_imp_div_less)
    then have "unescC (jsonEscC c @ r) = Some (char_of (16 * (n div 16) + n mod 16), r)"
      unfolding e by (simp add: unescC_def)
    then show ?thesis using c by simp
  next
    case plain
    then have "jsonEscC c = [c]" by (auto simp: jsonEscC_def Let_def simp flip: n_def)
    then show ?thesis using plain by (simp add: unescC_def flip: n_def)
  qed (simp_all add: c jsonEscC_def unescC_def Let_def char_eq_of_char)
qed

lemma jsonEscC_prefix_free: "jsonEscC c @ r = jsonEscC d @ s \<Longrightarrow> c = d \<and> r = s"
  using unescC_jsonEscC by (metis option.inject prod.inject)

lemma hd_jsonEscC: "jsonEscC c \<noteq> []" "hd (jsonEscC c) \<noteq> quoteC"
  by (auto simp: jsonEscC_def Let_def quoteC_def char_eq_of_char)

lemma jsonBody_split:
  "concat (map jsonEscC s) @ quoteC # r = concat (map jsonEscC t) @ quoteC # q \<Longrightarrow> s = t \<and> r = q"
proof (induction s arbitrary: t)
  case Nil
  then show ?case using hd_jsonEscC by (cases t) (auto simp: Cons_eq_append_conv, metis list.sel(1))
next
  case (Cons c s)
  show ?case
  proof (cases t)
    case Nil
    then show ?thesis using Cons.prems hd_jsonEscC[of c] by (auto simp: append_eq_Cons_conv)
  next
    case (Cons d t')
    have "jsonEscC c @ (concat (map jsonEscC s) @ quoteC # r) = jsonEscC d @ (concat (map jsonEscC t') @ quoteC # q)"
      using Cons.prems Cons by simp
    then show ?thesis using jsonEscC_prefix_free Cons.IH Cons by blast
  qed
qed

lemma jsonString_split: "jsonString s @ r = jsonString t @ q \<Longrightarrow> s = t \<and> r = q"
  by (rule jsonBody_split[of s r t q]) (simp add: jsonString_def)

lemma jsonString_inj [simp]: "jsonString s = jsonString t \<longleftrightarrow> s = t"
  using jsonString_split[of s "[]" t "[]"] by auto

section \<open>Values\<close>

definition jsonInt :: "int \<Rightarrow> string" where
  "jsonInt i = (if i < 0 then CHR ''-'' # decimal (nat (- i)) else decimal (nat i))"

fun intercalate :: "string \<Rightarrow> string list \<Rightarrow> string" where
  "intercalate sep [] = []"
| "intercalate sep [x] = x"
| "intercalate sep (x # xs) = x @ sep @ intercalate sep xs"

text \<open>\<open>json.Compact\<close> with HTML escaping; the flag says whether the reader is inside a string.\<close>

fun compactText :: "bool \<Rightarrow> string \<Rightarrow> string" where
  "compactText inStr [] = []"
| "compactText False (c # r) =
     (if of_char c \<in> {9, 10, 13, 32 :: nat} then compactText False r
      else c # compactText (c = quoteC) r)"
| "compactText True [c] = [c]"
| "compactText True (c # d # r) =
     (if of_char c = (92 :: nat) then c # d # compactText True r
      else if of_char c \<in> {38, 60, 62 :: nat} then jsonEscC c @ compactText True (d # r)
      else c # compactText (c \<noteq> quoteC) (d # r))"

fun jsonText :: "jval \<Rightarrow> string" where
  "jsonText (JStr s) = jsonString s"
| "jsonText (JNum i) = jsonInt i"
| "jsonText (JBool b) = (if b then ''true'' else ''false'')"
| "jsonText JNull = ''null''"
| "jsonText (JArr vs) = ''['' @ intercalate '','' (map jsonText vs) @ '']''"
| "jsonText (JObj ms) =
     ''{'' @ intercalate '','' (map (\<lambda>(k, v). jsonString k @ '':'' @ jsonText v) ms) @ ''}''"
| "jsonText (JRaw s) = (if s = [] then ''null'' else compactText False s)"

definition json_marshal :: "jval \<Rightarrow> bytes" where
  "json_marshal v = bytes_of (jsonText v)"

text \<open>Struct members: \<open>uint64\<close> fields, and the \<open>omitempty\<close> variants.\<close>

definition jU64 :: "'a::len word \<Rightarrow> jval" where
  "jU64 w = JNum (uint w)"

definition omitStr :: "string \<Rightarrow> string \<Rightarrow> (string \<times> jval) list" where
  "omitStr k s = (if s = [] then [] else [(k, JStr s)])"

definition omitU64 :: "string \<Rightarrow> 'a::len word \<Rightarrow> (string \<times> jval) list" where
  "omitU64 k w = (if w = 0 then [] else [(k, jU64 w)])"

lemma intercalate_Cons: "xs \<noteq> [] \<Longrightarrow> intercalate sep (x # xs) = x @ sep @ intercalate sep xs"
  by (cases xs) auto

lemma jsonText_jU64 [simp]: "jsonText (jU64 w) = decimal (unat w)"
  by (simp add: jU64_def jsonInt_def)

section \<open>The encoder is injective\<close>

text \<open>Values without raw parts, and what can follow a value inside another.\<close>

fun noRaw :: "jval \<Rightarrow> bool" where
  "noRaw (JArr vs) = (\<forall>v \<in> set vs. noRaw v)"
| "noRaw (JObj ms) = (\<forall>(k, v) \<in> set ms. noRaw v)"
| "noRaw (JRaw s) = False"
| "noRaw _ = True"

definition delim :: "string \<Rightarrow> bool" where
  "delim r \<longleftrightarrow> r = [] \<or> hd r \<in> {CHR '','', CHR '']'', CHR ''}''}"

lemma delim_simps [simp]:
  "delim []" "delim (c # r) \<longleftrightarrow> c \<in> {CHR '','', CHR '']'', CHR ''}''}"
  by (simp_all add: delim_def)

lemma decimal_split_delim:
  assumes "decimal m @ r = decimal n @ s" "delim r" "delim s"
  shows "m = n \<and> r = s"
proof -
  have tw: "takeWhile isDigitC (decimal k @ t) = decimal k" if t: "delim t" for k t
  proof (cases t)
    case Nil
    then show ?thesis using decimal_digits by (simp add: takeWhile_eq_all_conv)
  next
    case (Cons c t')
    then have "\<not> isDigitC c" using t by (auto simp: isDigitC_def)
    then show ?thesis using Cons takeWhile_decimal by simp
  qed
  have "decimal m = decimal n" using assms tw by metis
  then show ?thesis using assms(1) by (simp add: decimal_inj)
qed

lemma hd_decimal: "isDigitC (hd (decimal n))"
  using decimal_digits[of "hd (decimal n)" n] by simp

lemma hd_decimal_append: "hd (decimal n @ r) = hd (decimal n)"
  by simp

lemma jsonInt_split:
  assumes "jsonInt i @ r = jsonInt j @ s" "delim r" "delim s"
  shows "i = j \<and> r = s"
proof -
  have minus: "hd (decimal n @ t) \<noteq> CHR ''-''" for n t
  proof
    assume "hd (decimal n @ t) = CHR ''-''"
    then show False using hd_decimal[of n] by (simp add: isDigitC_def)
  qed
  have "hd (jsonInt k @ t) = CHR ''-'' \<longleftrightarrow> k < 0" for k t
    using minus[of "nat k" t] by (simp add: jsonInt_def)
  then have neg: "(i < 0) = (j < 0)" using assms(1) by metis
  show ?thesis
  proof (cases "i < 0")
    case True
    then have "decimal (nat (- i)) @ r = decimal (nat (- j)) @ s" using assms(1) neg by (simp add: jsonInt_def)
    from decimal_split_delim[OF this assms(2,3)] show ?thesis using True neg by linarith
  next
    case False
    then have "decimal (nat i) @ r = decimal (nat j) @ s" using assms(1) neg by (simp add: jsonInt_def)
    from decimal_split_delim[OF this assms(2,3)] show ?thesis using False neg by linarith
  qed
qed

text \<open>The first character of a value tells its constructor.\<close>

definition jclass :: "char \<Rightarrow> nat" where
  "jclass c = (if c = quoteC then 0 else if isDigitC c \<or> c = CHR ''-'' then 1
     else if c = CHR ''t'' then 2 else if c = CHR ''f'' then 3 else if c = CHR ''n'' then 4
     else if c = CHR ''['' then 5 else if c = CHR ''{'' then 6 else 7)"

fun jkind :: "jval \<Rightarrow> nat" where
  "jkind (JStr _) = 0" | "jkind (JNum _) = 1" | "jkind (JBool b) = (if b then 2 else 3)"
| "jkind JNull = 4" | "jkind (JArr _) = 5" | "jkind (JObj _) = 6" | "jkind (JRaw _) = 7"

lemma digit_not_quote: "isDigitC c \<Longrightarrow> c \<noteq> quoteC"
  by (auto simp: isDigitC_def quoteC_def)

lemma jclass_quote [simp]: "jclass quoteC = 0"
  by (simp add: jclass_def)

lemma jclass_jsonText: "noRaw v \<Longrightarrow> jsonText v \<noteq> [] \<and> jclass (hd (jsonText v)) = jkind v"
proof (cases v)
  case (JNum i)
  have "jclass (hd (decimal n)) = 1" for n
    using hd_decimal[of n] digit_not_quote by (auto simp: jclass_def)
  moreover have "jclass CHR ''-'' = 1" by (simp add: jclass_def quoteC_def char_eq_of_char)
  ultimately show ?thesis using JNum by (simp add: jsonInt_def)
qed (auto simp: jsonString_def jclass_def isDigitC_def quoteC_def char_eq_of_char)

lemma jkind_noRaw: "noRaw v \<Longrightarrow> jkind v \<noteq> 7"
  by (cases v) auto

lemma jclass_bracket: "jclass CHR '']'' = 7"
  by (simp add: jclass_def isDigitC_def quoteC_def char_eq_of_char)

lemma jkind_eq:
  assumes "noRaw v" "noRaw w" "jsonText v @ r = jsonText w @ s"
  shows "jkind v = jkind w"
  using jclass_jsonText[OF assms(1)] jclass_jsonText[OF assms(2)] assms(3) by (metis hd_append2)

lemma intercalate_split:
  assumes "\<And>x y r s. x \<in> set xs \<Longrightarrow> y \<in> set ys \<Longrightarrow> delim r \<Longrightarrow> delim s \<Longrightarrow> f x @ r = f y @ s \<Longrightarrow> x = y \<and> r = s"
    and "\<And>x. x \<in> set xs \<union> set ys \<Longrightarrow> f x \<noteq> [] \<and> hd (f x) \<noteq> c"
    and c: "c \<in> {CHR '']'', CHR ''}''}"
    and eq: "intercalate '','' (map f xs) @ c # r = intercalate '','' (map f ys) @ c # s"
  shows "xs = ys \<and> r = s"
  using assms(1,2) eq
proof (induction xs arbitrary: ys)
  case Nil
  show ?case
  proof (cases ys)
    case (Cons y ys')
    have "f y \<noteq> [] \<and> hd (f y) \<noteq> c" using Nil.prems(2) Cons by simp
    then show ?thesis using Nil.prems(3) Cons
      by (cases ys') (auto simp: Cons_eq_append_conv, (metis list.sel(1))+)
  qed (use Nil in simp)
next
  case (Cons x xs)
  have fx: "f x \<noteq> [] \<and> hd (f x) \<noteq> c" using Cons.prems(2) by simp
  define tx where "tx = (if xs = [] then c # r else CHR '','' # intercalate '','' (map f xs) @ c # r)"
  have l: "intercalate '','' (map f (x # xs)) @ c # r = f x @ tx"
    by (simp add: tx_def intercalate_Cons)
  show ?case
  proof (cases ys)
    case Nil
    then show ?thesis using Cons.prems(3) fx unfolding l
      by (auto simp: append_eq_Cons_conv)
  next
    case (Cons y ys')
    define ty where "ty = (if ys' = [] then c # s else CHR '','' # intercalate '','' (map f ys') @ c # s)"
    have r: "intercalate '','' (map f ys) @ c # s = f y @ ty"
      by (simp add: ty_def intercalate_Cons Cons)
    have "x = y \<and> tx = ty"
      using Cons.prems(1)[of x y tx ty] Cons.prems(3) Cons c l r by (auto simp: tx_def ty_def)
    moreover have "c \<noteq> CHR '',''" using c by auto
    ultimately have xy: "x = y" "(xs = []) = (ys' = [])" "xs = [] \<longrightarrow> r = s"
      "xs \<noteq> [] \<longrightarrow> intercalate '','' (map f xs) @ c # r = intercalate '','' (map f ys') @ c # s"
      by (auto simp: tx_def ty_def split: if_splits)
    show ?thesis
    proof (cases "xs = []")
      case False
      have "xs = ys' \<and> r = s"
        by (rule Cons.IH) (use Cons.prems(1,2) Cons xy False in auto)
      then show ?thesis using xy Cons by simp
    qed (use xy Cons in simp)
  qed
qed

lemma jsonText_split:
  "noRaw v \<Longrightarrow> noRaw w \<Longrightarrow> delim r \<Longrightarrow> delim s \<Longrightarrow> jsonText v @ r = jsonText w @ s \<Longrightarrow> v = w \<and> r = s"
proof (induction v arbitrary: w r s)
  case (JStr x)
  have "jkind w = 0" using jkind_eq[OF JStr.prems(1,2,5)] by simp
  then obtain y where w: "w = JStr y" by (cases w) (auto split: if_splits)
  show ?case using jsonString_split[of x r y s] JStr.prems(5) w by simp
next
  case (JNum x)
  have "jkind w = 1" using jkind_eq[OF JNum.prems(1,2,5)] by simp
  then obtain y where w: "w = JNum y" by (cases w) (auto split: if_splits)
  show ?case using jsonInt_split[of x r y s] JNum.prems w by simp
next
  case (JBool x)
  then show ?case using jkind_eq[OF JBool.prems(1,2,5)] by (cases w) (auto split: if_splits)
next
  case JNull
  then show ?case using jkind_eq[OF JNull.prems(1,2,5)] by (cases w) (auto split: if_splits)
next
  case (JArr vs)
  then obtain ws where w: "w = JArr ws" using jkind_eq[OF JArr.prems(1,2,5)] by (cases w) (auto split: if_splits)
  have "vs = ws \<and> r = s"
  proof (rule intercalate_split[where f = jsonText and c = "CHR '']''"])
    show "intercalate '','' (map jsonText vs) @ CHR '']'' # r = intercalate '','' (map jsonText ws) @ CHR '']'' # s"
      using JArr.prems(5) w by simp
    show "jsonText x \<noteq> [] \<and> hd (jsonText x) \<noteq> CHR '']''" if "x \<in> set vs \<union> set ws" for x
    proof -
      have "noRaw x" using that JArr.prems(1,2) w by auto
      then have "jsonText x \<noteq> []" "jclass (hd (jsonText x)) \<noteq> 7"
        using jclass_jsonText[of x] by (auto simp: jkind_noRaw)
      then show ?thesis by (auto simp: jclass_bracket)
    qed
  qed (use JArr w in auto)
  then show ?case using w by simp
next
  case (JObj ms)
  then obtain ns where w: "w = JObj ns" using jkind_eq[OF JObj.prems(1,2,5)] by (cases w) (auto split: if_splits)
  let ?f = "\<lambda>(k, v). jsonString k @ '':'' @ jsonText v"
  have "ms = ns \<and> r = s"
  proof (rule intercalate_split[where f = ?f and c = "CHR ''}''"])
    show "intercalate '','' (map ?f ms) @ CHR ''}'' # r = intercalate '','' (map ?f ns) @ CHR ''}'' # s"
      using JObj.prems(5) w by simp
    show "?f x \<noteq> [] \<and> hd (?f x) \<noteq> CHR ''}''" for x
      by (cases x) (simp add: jsonString_def quoteC_def char_eq_of_char)
    show "x = y \<and> r' = s'"
      if m: "x \<in> set ms" "y \<in> set ns" "delim r'" "delim s'" "?f x @ r' = ?f y @ s'" for x y r' s'
    proof -
      obtain k v l u where xy: "x = (k, v)" "y = (l, u)" by fastforce
      have "jsonString k @ (CHR '':'' # jsonText v @ r') = jsonString l @ (CHR '':'' # jsonText u @ s')"
        using m(5) xy by simp
      then have "k = l" "jsonText v @ r' = jsonText u @ s'" using jsonString_split by blast+
      moreover have "v = u \<and> r' = s'"
        by (rule JObj.IH[of x v]) (use m xy JObj.prems(1,2) w \<open>jsonText v @ r' = _\<close> in auto)
      ultimately show ?thesis using xy by simp
    qed
  qed simp
  then show ?case using w by simp
qed simp

lemma json_marshal_inj: "noRaw v \<Longrightarrow> noRaw w \<Longrightarrow> json_marshal v = json_marshal w \<longleftrightarrow> v = w"
  using jsonText_split[of v w "[]" "[]"] by (auto simp: json_marshal_def)

lemma noRaw_members [simp]: "noRaw (jU64 w)" "noRaw (JObj (omitStr k s))" "noRaw (JObj (omitU64 k w))"
  by (simp_all add: jU64_def omitStr_def omitU64_def)

text \<open>Looking members up by key: how a struct is recovered from its JSON value.\<close>

lemma map_of_omit:
  "map_of (omitStr k s @ ms) k' = (if k = k' \<and> s \<noteq> [] then Some (JStr s) else map_of ms k')"
  "map_of (omitU64 k w @ ms) k' = (if k = k' \<and> w \<noteq> 0 then Some (jU64 w) else map_of ms k')"
  by (simp_all add: omitStr_def omitU64_def)

lemma jU64_inj [simp]: "jU64 a = jU64 b \<longleftrightarrow> a = b"
  by (simp add: jU64_def word_uint_eq_iff)

lemma omit_eq:
  "(if s \<noteq> [] then Some (JStr s) else None) = (if t \<noteq> [] then Some (JStr t) else None) \<longleftrightarrow> s = t"
  "(if w \<noteq> 0 then Some (jU64 w) else None) = (if v \<noteq> 0 then Some (jU64 v) else None) \<longleftrightarrow> w = v"
  by auto

lemma noRaw_obj:
  "noRaw (JObj (omitStr k s @ ms)) = noRaw (JObj ms)"
  "noRaw (JObj (omitU64 k w @ ms)) = noRaw (JObj ms)"
  by (auto simp: omitStr_def omitU64_def)

section \<open>Size of the encoding\<close>

lemma length_decimal: "n < 10 ^ Suc k \<Longrightarrow> length (decimal n) \<le> Suc k"
proof (induction k arbitrary: n)
  case 0
  then show ?case by (simp add: decimal.simps[of n])
next
  case (Suc k)
  show ?case
  proof (cases "n < 10")
    case False
    have "n div 10 < 10 ^ Suc k" using Suc.prems by (simp add: less_mult_imp_div_less mult.commute)
    then show ?thesis using Suc.IH[of "n div 10"] False by (simp add: decimal.simps[of n])
  qed (simp add: decimal.simps[of n])
qed

lemma length_jsonEscC: "length (jsonEscC c) \<le> 6"
  by (simp add: jsonEscC_def Let_def)

lemma length_jsonString: "length (jsonString s) \<le> 2 + 6 * length s"
proof -
  have "length (concat (map jsonEscC s)) \<le> 6 * length s"
    using length_jsonEscC by (induction s) (auto intro: order_trans[OF add_mono])
  then show ?thesis by (simp add: jsonString_def)
qed

text \<open>An upper bound on the length of the text of a value whose numbers fit in a \<open>uint64\<close>.\<close>

fun jsmall :: "jval \<Rightarrow> bool" where
  "jsmall (JNum i) = (0 \<le> i \<and> i < 2 ^ 64)"
| "jsmall (JStr s) = True"
| "jsmall _ = False"

fun jbound :: "jval \<Rightarrow> nat" where
  "jbound (JStr s) = 2 + 6 * length s"
| "jbound _ = 20"

lemma length_jsonText_small: "jsmall v \<Longrightarrow> length (jsonText v) \<le> jbound v"
proof (cases v)
  case (JNum i)
  assume "jsmall v"
  then have i: "0 \<le> i" "i < 2 ^ 64" using JNum by simp_all
  then have "nat i < nat (2 ^ 64)" by (simp add: nat_less_eq_zless)
  then have "nat i < 10 ^ Suc 19" by simp
  from length_decimal[OF this] show ?thesis using i JNum by (simp add: jsonInt_def)
qed (use length_jsonString in auto)

lemma length_intercalate: "length (intercalate '','' xs) \<le> sum_list (map (\<lambda>x. length x + 1) xs)"
proof (induction xs)
  case (Cons x xs)
  then show ?case by (cases xs) auto
qed simp

lemma length_jsonText_obj:
  assumes "\<forall>(k, v) \<in> set ms. jsmall v"
  shows "length (jsonText (JObj ms)) \<le> 2 + sum_list (map (\<lambda>(k, v). 4 + 6 * length k + jbound v) ms)"
proof -
  have "sum_list (map (\<lambda>x. length x + 1) (map (\<lambda>(k, v). jsonString k @ '':'' @ jsonText v) ms))
      \<le> sum_list (map (\<lambda>(k, v). 4 + 6 * length k + jbound v) ms)"
    using assms
  proof (induction ms)
    case (Cons a ms)
    obtain k v where a: "a = (k, v)" by fastforce
    have "length (jsonString k) \<le> 2 + 6 * length k" "length (jsonText v) \<le> jbound v"
      using length_jsonString length_jsonText_small Cons.prems a by auto
    then show ?case using Cons a by simp
  qed simp
  then show ?thesis
    using length_intercalate[of "map (\<lambda>(k, v). jsonString k @ '':'' @ jsonText v) ms"] by simp
qed

lemma jsmall_jU64 [simp]: "jsmall (jU64 (w :: u64))" "jbound (jU64 (w :: u64)) = 20"
  using uint_lt2p[of w] by (simp_all add: jU64_def)

end
