(* ===== verification/Wire.thy ===== *)
theory Wire
  imports GoLib
begin

text \<open>
  The wire format of the AI-DAG (\<open>internal/aiseal/hash.go\<close>): the length-prefixed writers,
  the domain-separated BLAKE3 hash \<open>taggedHash\<close>, and the hex helpers. A Go function
  \<open>func(w io.Writer)\<close> that writes to a hash is the list of bytes it writes.

  BLAKE3 is a third-party package: it is the argument \<open>blake3\<close> of every definition that
  hashes, a function from bytes to bytes about which nothing is assumed (the digest is
  copied into a \<open>[32]byte\<close>, so its length is fixed here).
\<close>

section \<open>Constants\<close>

definition UnifiedHeaderSize :: u64 where "UnifiedHeaderSize = 160"
definition FormatVersion :: u16 where "FormatVersion = 2"
definition ManifestVersion :: int where "ManifestVersion = 2"
definition MerkleVersion :: int where "MerkleVersion = 1"
definition SealVersion :: u16 where "SealVersion = 1"
definition ProofVersion :: int where "ProofVersion = 1"
definition HashAlgorithm :: string where "HashAlgorithm = ''BLAKE3-256''"
definition PageTypeIndex :: u16 where "PageTypeIndex = 1"
definition PageTypeModel :: u16 where "PageTypeModel = 2"
definition PageTypeFiller :: u16 where "PageTypeFiller = 3"

definition treeTensor :: string where "treeTensor = ''AIDG_MERKLE_TREE_TENSOR_V1''"
definition treePoW :: string where "treePoW = ''AIDG_MERKLE_TREE_POW_COMMIT_V1''"

definition domainHashBytes :: string where "domainHashBytes = ''AIDG_HASH_BYTES_V1''"
definition domainPageCommit :: string where "domainPageCommit = ''AIDG_PAGE_COMMIT_V1''"
definition domainMerkleLeaf :: string where "domainMerkleLeaf = ''AIDG_MERKLE_LEAF_V1''"
definition domainMerkleNode :: string where "domainMerkleNode = ''AIDG_MERKLE_NODE_V1''"
definition domainManifest :: string where "domainManifest = ''AIDG_MANIFEST_ROOT_V1''"
definition domainSamplePoW :: string where "domainSamplePoW = ''AIDG_SAMPLE_POW_V1''"
definition domainSampleTensor :: string where "domainSampleTensor = ''AIDG_SAMPLE_TENSOR_V1''"
definition domainMixDigest :: string where "domainMixDigest = ''AIDG_MIX_DIGEST_V1''"
definition domainAIDigest :: string where "domainAIDigest = ''AIDG_AI_DIGEST_V1''"
definition domainProofHash :: string where "domainProofHash = ''AIDG_PROOF_HASH_V1''"
definition domainSealWork :: string where "domainSealWork = ''AIDG_SEAL_WORK_HASH_V1''"

definition proofSideLeft :: string where "proofSideLeft = ''left''"
definition proofSideRight :: string where "proofSideRight = ''right''"

section \<open>Writers\<close>

definition writeUint16 :: "u16 \<Rightarrow> bytes" where "writeUint16 v = putLE 2 v"
definition writeUint32 :: "u32 \<Rightarrow> bytes" where "writeUint32 v = putLE 4 v"
definition writeUint64 :: "u64 \<Rightarrow> bytes" where "writeUint64 v = putLE 8 v"
definition writeFixed32 :: "hash32 \<Rightarrow> bytes" where "writeFixed32 h = h"

definition writeBytes :: "bytes \<Rightarrow> bytes" where
  "writeBytes b = writeUint64 (of_nat (length b)) @ b"

definition writeString :: "string \<Rightarrow> bytes" where
  "writeString s = writeBytes (bytes_of s)"

definition taggedHash :: "(bytes \<Rightarrow> bytes) \<Rightarrow> string \<Rightarrow> bytes \<Rightarrow> hash32" where
  "taggedHash blake3 domain body = copy32 (blake3 (writeString domain @ body))"

lemma length_writers [simp]:
  "length (writeUint16 a) = 2" "length (writeUint32 b) = 4" "length (writeUint64 c) = 8"
  "length (writeBytes bs) = 8 + length bs"
  "length (writeString s) = 8 + length s"
  "length (taggedHash blake3 d body) = 32"
  by (simp_all add: writeUint16_def writeUint32_def writeUint64_def writeBytes_def
      writeString_def taggedHash_def)

lemma writeUint64_inj [simp]: "writeUint64 a = writeUint64 b \<longleftrightarrow> a = b"
  using putLE_inj[of 8 a b] by (auto simp: writeUint64_def)

text \<open>The length prefix makes a written byte string self-delimiting.\<close>

lemma writeBytes_split:
  assumes "length a < 2 ^ 64" "length b < 2 ^ 64" "writeBytes a @ r = writeBytes b @ s"
  shows "a = b \<and> r = s"
proof -
  have pre: "writeUint64 (of_nat (length a)) @ (a @ r) = writeUint64 (of_nat (length b)) @ (b @ s)"
    using assms(3) by (simp add: writeBytes_def)
  then have lens: "writeUint64 (of_nat (length a)) = writeUint64 (of_nat (length b))"
    and rest: "a @ r = b @ s"
    by (simp_all add: append_eq_append_conv)
  then have "(of_nat (length a) :: u64) = of_nat (length b)" by simp
  then have "length a = length b"
    using assms(1,2) by (simp add: word_unat_eq_iff unat_of_nat)
  then show ?thesis using rest by simp
qed

section \<open>Hex helpers\<close>

datatype hex_error = EmptyOrOddHex | InvalidHexByte | Not32Bytes nat

definition decodeHexBytes :: "string \<Rightarrow> hex_error + bytes" where
  "decodeHexBytes value =
     (let v = TrimSpace value;
          w = TrimPrefix (TrimPrefix v ''0x'') ''0X''
      in if w = [] \<or> length w mod 2 \<noteq> 0 then Inl EmptyOrOddHex
         else ofOption InvalidHexByte (hexDecode w))"

definition decodeHex32 :: "string \<Rightarrow> hex_error + hash32" where
  "decodeHex32 value =
     bindE (decodeHexBytes value)
       (\<lambda>b. if length b \<noteq> 32 then Inl (Not32Bytes (length b)) else Inr (copy32 b))"

definition formatHash :: "hash32 \<Rightarrow> string" where
  "formatHash h = ''0x'' @ hexEncode h"

definition normalizeHex :: "string \<Rightarrow> string" where
  "normalizeHex value =
     (let v = ToLower (TrimSpace value)
      in if v = [] \<or> HasPrefix v ''0x'' then v else ''0x'' @ v)"

definition normalizeArbitrary :: "string \<Rightarrow> string" where
  "normalizeArbitrary value =
     (let v = ToLower (TrimSpace value)
      in if v = [] then []
         else let raw = TrimPrefix v ''0x''
              in if hexDecode raw \<noteq> None \<and> length raw mod 2 = 0 then ''0x'' @ raw else v)"

definition equalHex :: "string \<Rightarrow> string \<Rightarrow> bool" where
  "equalHex a b = (normalizeHex a = normalizeHex b)"

text \<open>\<open>bytes.Compare\<close> on two 32-byte arrays: lexicographic, most significant byte first.\<close>

fun bytesCompare :: "bytes \<Rightarrow> bytes \<Rightarrow> int" where
  "bytesCompare [] [] = 0"
| "bytesCompare [] (y # ys) = -1"
| "bytesCompare (x # xs) [] = 1"
| "bytesCompare (x # xs) (y # ys) =
     (if x < y then -1 else if y < x then 1 else bytesCompare xs ys)"

definition hashMeetsTarget :: "hash32 \<Rightarrow> hash32 \<Rightarrow> bool" where
  "hashMeetsTarget hash target = (bytesCompare hash target \<le> 0)"

definition WorkMeetsTarget :: "string \<Rightarrow> string \<Rightarrow> hex_error + bool" where
  "WorkMeetsTarget workHash target =
     bindE (decodeHex32 workHash) (\<lambda>work.
     bindE (decodeHex32 target) (\<lambda>targetHash.
     Inr (hashMeetsTarget work targetHash)))"

section \<open>Laws of the hex helpers\<close>

lemma hexDigit_cases:
  assumes "n < 16"
  shows "(48 \<le> (of_char (hexDigit n) :: nat) \<and> (of_char (hexDigit n) :: nat) \<le> 57) \<or>
    (97 \<le> (of_char (hexDigit n) :: nat) \<and> (of_char (hexDigit n) :: nat) \<le> 102)"
  using assms by (auto simp: hexDigit_def)

lemma toLowerC_hexDigit [simp]: "n < 16 \<Longrightarrow> toLowerC (hexDigit n) = hexDigit n"
  using hexDigit_cases[of n] by (auto simp: toLowerC_def Let_def)

lemma isSpaceC_hexDigit [simp]: "n < 16 \<Longrightarrow> \<not> isSpaceC (hexDigit n)"
  using hexDigit_cases[of n] by (auto simp: isSpaceC_def Let_def)

lemma ToLower_hexEncode [simp]: "ToLower (hexEncode bs) = hexEncode bs"
  by (induction bs) auto

lemma no_space_hexEncode: "c \<in> set (hexEncode bs) \<Longrightarrow> \<not> isSpaceC c"
  by (induction bs) auto

lemma TrimSpace_0x_hexEncode [simp]:
  "TrimSpace (CHR ''0'' # CHR ''x'' # hexEncode bs) = CHR ''0'' # CHR ''x'' # hexEncode bs"
proof (rule TrimSpace_no_space)
  show "\<forall>c\<in>set (CHR ''0'' # CHR ''x'' # hexEncode bs). \<not> isSpaceC c"
    using no_space_hexEncode[of _ bs] by (auto simp: isSpaceC_def)
qed

lemma toLowerC_0x [simp]: "toLowerC CHR ''0'' = CHR ''0''" "toLowerC CHR ''x'' = CHR ''x''"
  by (simp_all add: toLowerC_def Let_def)

lemma hexDigit_not_X: "n < 16 \<Longrightarrow> hexDigit n \<noteq> CHR ''X''"
proof
  assume "n < 16" "hexDigit n = CHR ''X''"
  then show False using hexDigit_cases[of n] by simp
qed

lemma TrimPrefix_0X_hexEncode [simp]: "TrimPrefix (hexEncode bs) ''0X'' = hexEncode bs"
  by (cases bs) (auto simp: TrimPrefix_def hexDigit_not_X)

lemma formatHash_eq: "formatHash h = CHR ''0'' # CHR ''x'' # hexEncode h"
  by (simp add: formatHash_def)

lemma formatHash_inj [simp]: "formatHash a = formatHash b \<longleftrightarrow> a = b"
  by (simp add: formatHash_eq hexEncode_inj)

lemma decodeHexBytes_format: "bs \<noteq> [] \<Longrightarrow> decodeHexBytes (''0x'' @ hexEncode bs) = Inr bs"
proof -
  assume "bs \<noteq> []"
  then have "hexEncode bs \<noteq> []" by (cases bs) auto
  moreover have "TrimPrefix (CHR ''0'' # CHR ''x'' # hexEncode bs) ''0x'' = hexEncode bs"
    using TrimPrefix_self[of "''0x''" "hexEncode bs"] by simp
  ultimately show ?thesis by (simp add: decodeHexBytes_def)
qed

lemma decodeHex32_formatHash [simp]: "length h = 32 \<Longrightarrow> decodeHex32 (formatHash h) = Inr h"
proof -
  assume "length h = 32"
  then have "decodeHexBytes (formatHash h) = Inr h"
    unfolding formatHash_def by (intro decodeHexBytes_format) auto
  then show ?thesis using \<open>length h = 32\<close> by (simp add: decodeHex32_def)
qed

lemma decodeHex32_length: "decodeHex32 s = Inr h \<Longrightarrow> length h = 32"
  by (auto simp: decodeHex32_def)

lemma normalizeHex_formatHash [simp]: "normalizeHex (formatHash h) = formatHash h"
  by (simp add: normalizeHex_def formatHash_eq Let_def)

lemma normalizeHex_idem [simp]: "normalizeHex (normalizeHex s) = normalizeHex s"
proof -
  define v where "v = ToLower (TrimSpace s)"
  have v: "TrimSpace v = v" "ToLower v = v" by (simp_all add: v_def TrimSpace_ToLower)
  show ?thesis
  proof (cases "v = [] \<or> HasPrefix v ''0x''")
    case True
    then show ?thesis using v by (simp add: normalizeHex_def Let_def flip: v_def)
  next
    case False
    have "\<not> isSpaceC CHR ''0''" by (simp add: isSpaceC_def)
    then have "TrimSpace (CHR ''0'' # CHR ''x'' # v) = CHR ''0'' # CHR ''x'' # v"
      using False v(1) TrimSpace_prefix[of v "CHR ''0''" "CHR ''x''"] by blast
    then show ?thesis using False v by (simp add: normalizeHex_def Let_def flip: v_def)
  qed
qed

text \<open>Equality up to the hex normal form is an equivalence, and exact on formatted hashes.\<close>

lemma equalHex_equiv: "equalHex a a" "equalHex a b \<Longrightarrow> equalHex b a"
  "equalHex a b \<Longrightarrow> equalHex b c \<Longrightarrow> equalHex a c"
  by (simp_all add: equalHex_def)

lemma equalHex_formatHash [simp]: "equalHex (formatHash a) (formatHash b) \<longleftrightarrow> a = b"
  by (simp add: equalHex_def)

lemma equalHex_normalizeHex [simp]: "equalHex (normalizeHex a) b = equalHex a b"
  by (simp add: equalHex_def)

section \<open>Targets\<close>

text \<open>The 256-bit big-endian number a hash stands for.\<close>

definition beValue :: "bytes \<Rightarrow> nat" where
  "beValue bs = foldl (\<lambda>a b. 256 * a + unat b) 0 bs"

lemma foldl_beValue:
  "foldl (\<lambda>a b. 256 * a + unat b) acc bs = acc * 256 ^ length bs + beValue bs" for bs :: bytes
proof (induction bs arbitrary: acc)
  case (Cons b bs)
  have "beValue (b # bs) = unat b * 256 ^ length bs + beValue bs"
    using Cons.IH[of "unat b"] by (simp add: beValue_def)
  then show ?case using Cons.IH[of "256 * acc + unat b"] by (simp add: algebra_simps)
qed (simp add: beValue_def)

lemma beValue_simps [simp]:
  "beValue [] = 0"
  "beValue (b # bs) = unat b * 256 ^ length bs + beValue bs"
  using foldl_beValue[of "unat b" bs] by (simp_all add: beValue_def)

lemma beValue_bound: "beValue bs < 256 ^ length bs"
proof (induction bs)
  case (Cons b bs)
  have "unat b < 2 ^ LENGTH(8)" by (rule unsigned_less)
  then have "unat b + 1 \<le> 256" by simp
  then have "(unat b + 1) * 256 ^ length bs \<le> 256 * 256 ^ length bs" by (rule mult_le_mono1)
  then have "unat b * 256 ^ length bs + 256 ^ length bs \<le> 256 * 256 ^ length bs" by (simp only: distrib_right mult_1)
  then have "unat b * 256 ^ length bs + beValue bs < 256 * 256 ^ length bs" using Cons by linarith
  then show ?case by (simp only: beValue_simps length_Cons power_Suc)
qed simp

lemma bytesCompare_le:
  "length a = length b \<Longrightarrow> bytesCompare a b \<le> 0 \<longleftrightarrow> beValue a \<le> beValue b"
proof (induction a b rule: list_induct2)
  case (Cons x xs y ys)
  have lt: "beValue us + unat u * 256 ^ length us < beValue vs + unat v * 256 ^ length us"
    if "u < v" "length us = length vs" for u v :: byte and us vs
  proof -
    have "unat u + 1 \<le> unat v" using that by (simp add: word_less_nat_alt)
    then have "(unat u + 1) * 256 ^ length us \<le> unat v * 256 ^ length us" by (rule mult_le_mono1)
    then show ?thesis using beValue_bound[of us] by (simp add: algebra_simps)
  qed
  show ?case
  proof (cases x y rule: linorder_cases)
    case less
    then show ?thesis using lt[of x y xs ys] Cons.hyps by simp
  next
    case equal
    then show ?thesis using Cons by simp
  next
    case greater
    then show ?thesis using lt[of y x ys xs] Cons.hyps by simp
  qed
qed simp

lemma hashMeetsTarget_iff:
  "length h = length t \<Longrightarrow> hashMeetsTarget h t \<longleftrightarrow> beValue h \<le> beValue t"
  by (simp add: hashMeetsTarget_def bytesCompare_le)

end
