(* ===== verification/Base64.thy ===== *)
theory Base64
  imports GoLib
begin

text \<open>
  \<open>encoding/base64.StdEncoding\<close>, in which signatures and zkML proofs travel: the padded
  encoder, and the decoder with Go's tolerance for line breaks and for stray bits in the last
  character before the padding.
\<close>

definition b64Alphabet :: string where
  "b64Alphabet = ''ABCDEFGHIJKLMNOPQRSTUVWXYZabcdefghijklmnopqrstuvwxyz0123456789+/''"

definition b64Char :: "nat \<Rightarrow> char" where
  "b64Char n = b64Alphabet ! n"

fun indexOf :: "'a \<Rightarrow> 'a list \<Rightarrow> nat option" where
  "indexOf x [] = None"
| "indexOf x (y # ys) = (if x = y then Some 0 else map_option Suc (indexOf x ys))"

definition b64Val :: "char \<Rightarrow> nat option" where
  "b64Val c = indexOf c b64Alphabet"

fun EncodeToString :: "bytes \<Rightarrow> string" where
  "EncodeToString [] = []"
| "EncodeToString [a] = [b64Char (unat a div 4), b64Char (unat a mod 4 * 16), CHR ''='', CHR ''='']"
| "EncodeToString [a, b] =
     [b64Char (unat a div 4), b64Char (unat a mod 4 * 16 + unat b div 16), b64Char (unat b mod 16 * 4), CHR ''='']"
| "EncodeToString (a # b # c # rest) =
     [b64Char (unat a div 4), b64Char (unat a mod 4 * 16 + unat b div 16),
      b64Char (unat b mod 16 * 4 + unat c div 64), b64Char (unat c mod 64)] @ EncodeToString rest"

definition byte1 :: "nat \<Rightarrow> nat \<Rightarrow> byte" where "byte1 p q = of_nat (p * 4 + q div 16)"
definition byte2 :: "nat \<Rightarrow> nat \<Rightarrow> byte" where "byte2 q r = of_nat (q mod 16 * 16 + r div 4)"
definition byte3 :: "nat \<Rightarrow> nat \<Rightarrow> byte" where "byte3 r s = of_nat (r mod 4 * 64 + s)"

text \<open>The last group may be padded; \<open>=\<close> is not in the alphabet, so it is refused elsewhere.\<close>

definition b64Last :: "char \<Rightarrow> char \<Rightarrow> char \<Rightarrow> char \<Rightarrow> bytes option" where
  "b64Last p q r s =
     (case (b64Val p, b64Val q) of
        (Some p', Some q') \<Rightarrow>
          if r = CHR ''='' then (if s = CHR ''='' then Some [byte1 p' q'] else None)
          else (case b64Val r of
                  None \<Rightarrow> None
                | Some r' \<Rightarrow>
                    if s = CHR ''='' then Some [byte1 p' q', byte2 q' r']
                    else (case b64Val s of
                            None \<Rightarrow> None
                          | Some s' \<Rightarrow> Some [byte1 p' q', byte2 q' r', byte3 r' s']))
      | _ \<Rightarrow> None)"

definition b64Full :: "char \<Rightarrow> char \<Rightarrow> char \<Rightarrow> char \<Rightarrow> bytes option" where
  "b64Full p q r s =
     (case (b64Val p, b64Val q, b64Val r, b64Val s) of
        (Some p', Some q', Some r', Some s') \<Rightarrow> Some [byte1 p' q', byte2 q' r', byte3 r' s']
      | _ \<Rightarrow> None)"

fun b64Quads :: "string \<Rightarrow> bytes option" where
  "b64Quads [] = Some []"
| "b64Quads [p, q, r, s] = b64Last p q r s"
| "b64Quads (p # q # r # s # t # rest) =
     (case (b64Full p q r s, b64Quads (t # rest)) of
        (Some bs, Some bs') \<Rightarrow> Some (bs @ bs')
      | _ \<Rightarrow> None)"
| "b64Quads _ = None"

definition DecodeString :: "string \<Rightarrow> bytes option" where
  "DecodeString s = b64Quads (filter (\<lambda>c. of_char c \<noteq> (10 :: nat) \<and> of_char c \<noteq> (13 :: nat)) s)"

section \<open>Decoding undoes encoding\<close>

lemma b64Val_b64Char: "n < 64 \<Longrightarrow> b64Val (b64Char n) = Some n"
proof -
  have "\<forall>k \<in> set [0..<64]. b64Val (b64Char k) = Some k" by code_simp
  then show "n < 64 \<Longrightarrow> ?thesis" by simp
qed

lemma b64Char_plain:
  "n < 64 \<Longrightarrow> b64Char n \<noteq> CHR ''='' \<and> of_char (b64Char n) \<noteq> (10 :: nat) \<and> of_char (b64Char n) \<noteq> (13 :: nat)"
proof -
  have "\<forall>k \<in> set [0..<64]. b64Char k \<noteq> CHR ''='' \<and> of_char (b64Char k) \<noteq> (10 :: nat) \<and> of_char (b64Char k) \<noteq> (13 :: nat)"
    by code_simp
  then show "n < 64 \<Longrightarrow> ?thesis" by simp
qed

lemma byte_bound: "unat (a :: byte) < 256"
  using unsigned_less[of a, where 'a = nat] by simp

lemma pack_div: "y < d \<Longrightarrow> (x * d + y) div d = (x :: nat)"
  by simp

lemma pack_mod: "y < d \<Longrightarrow> (x * d + y) mod d = (y :: nat)"
  by simp

lemma pack_less: "x < m \<Longrightarrow> y < d \<Longrightarrow> x * d + y < m * (d :: nat)"
proof -
  assume "x < m" "y < d"
  then have "x * d + y < Suc x * d" by simp
  also have "\<dots> \<le> m * d" using \<open>x < m\<close> by (intro mult_le_mono1) simp
  finally show ?thesis .
qed

lemma byte_parts:
  "unat (a :: byte) div 4 < 64" "unat a div 16 < 16" "unat a div 64 < 4"
  using byte_bound[of a] by (simp_all add: less_mult_imp_div_less)

lemma sextets:
  "unat (a :: byte) mod 4 * 16 < 64" "unat a mod 4 * 16 + unat (b :: byte) div 16 < 64"
  "unat b mod 16 * 4 < 64" "unat b mod 16 * 4 + unat (c :: byte) div 64 < 64" "unat c mod 64 < 64"
  using pack_less[of "unat a mod 4" 4 0 16] pack_less[of "unat a mod 4" 4 "unat b div 16" 16]
    pack_less[of "unat b mod 16" 16 0 4] pack_less[of "unat b mod 16" 16 "unat c div 64" 4]
  by (simp_all add: byte_parts)

lemma byte_joins:
  "byte1 (unat a div 4) (unat a mod 4 * 16) = a"
  "byte1 (unat a div 4) (unat a mod 4 * 16 + unat b div 16) = a"
  "byte2 (unat a mod 4 * 16 + unat b div 16) (unat b mod 16 * 4) = b"
  "byte2 (unat a mod 4 * 16 + unat b div 16) (unat b mod 16 * 4 + unat c div 64) = b"
  "byte3 (unat b mod 16 * 4 + unat c div 64) (unat c mod 64) = c"
proof -
  have j: "unat a div 4 * 4 + unat a mod 4 = unat a" "unat b div 16 * 16 + unat b mod 16 = unat b"
    "unat c div 64 * 64 + unat c mod 64 = unat c"
    by (rule div_mult_mod_eq)+
  show "byte1 (unat a div 4) (unat a mod 4 * 16) = a"
    unfolding byte1_def nonzero_mult_div_cancel_right[OF zero_neq_numeral[symmetric]] j by simp
  show "byte1 (unat a div 4) (unat a mod 4 * 16 + unat b div 16) = a"
    unfolding byte1_def pack_div[OF byte_parts(2)] j by simp
  show "byte2 (unat a mod 4 * 16 + unat b div 16) (unat b mod 16 * 4) = b"
    unfolding byte2_def pack_mod[OF byte_parts(2)] nonzero_mult_div_cancel_right[OF zero_neq_numeral[symmetric]] j by simp
  show "byte2 (unat a mod 4 * 16 + unat b div 16) (unat b mod 16 * 4 + unat c div 64) = b"
    unfolding byte2_def pack_mod[OF byte_parts(2)] pack_div[OF byte_parts(3)] j by simp
  show "byte3 (unat b mod 16 * 4 + unat c div 64) (unat c mod 64) = c"
    unfolding byte3_def pack_mod[OF byte_parts(3)] j by simp
qed

lemmas b64_simps = b64Val_b64Char b64Char_plain byte_parts(1) sextets byte_joins

lemma EncodeToString_chars: "c \<in> set (EncodeToString b) \<Longrightarrow> of_char c \<noteq> (10 :: nat) \<and> of_char c \<noteq> (13 :: nat)"
  by (induction b rule: EncodeToString.induct) (auto simp: b64_simps)

lemma b64Quads_Cons:
  "rest \<noteq> [] \<Longrightarrow> b64Quads (p # q # r # s # rest) =
     (case (b64Full p q r s, b64Quads rest) of (Some bs, Some bs') \<Rightarrow> Some (bs @ bs') | _ \<Rightarrow> None)"
  by (cases rest) auto

lemma EncodeToString_empty: "EncodeToString b = [] \<longleftrightarrow> b = []"
  by (induction b rule: EncodeToString.induct) auto

lemma b64Quads_Encode: "b64Quads (EncodeToString b) = Some b"
proof (induction b rule: EncodeToString.induct)
  case (4 a b c rest)
  then show ?case
  proof (cases "rest = []")
    case False
    then show ?thesis
      using 4 by (simp add: b64Quads_Cons EncodeToString_empty b64Full_def b64_simps)
  qed (simp add: b64Last_def b64_simps)
qed (simp_all add: b64Last_def b64_simps)

lemma DecodeString_Encode [simp]: "DecodeString (EncodeToString b) = Some b"
proof -
  have "filter (\<lambda>c. of_char c \<noteq> (10 :: nat) \<and> of_char c \<noteq> (13 :: nat)) (EncodeToString b) = EncodeToString b"
    by (rule filter_True) (use EncodeToString_chars in blast)
  then show ?thesis by (simp add: DecodeString_def b64Quads_Encode)
qed

end
