(* ===== verification/Protocol.thy ===== *)
theory Protocol
  imports Json Wire Base64 "HOL-Library.Product_Lexorder"
begin

text \<open>
  The messages of the chain (\<open>internal/protocol/types.go\<close>): jobs, results, tickets, proof
  bundles, attestations, blocks, votes and certificates, their JSON form, the hashes over it and
  the byte strings that are signed.

  The cryptographic functions are arguments of the definitions that use them. A slice whose nil value and empty value
  print differently (\<open>null\<close>, \<open>[]\<close>) is an option of a list; a nil \<open>json.RawMessage\<close> is the empty
  string.
\<close>

section \<open>Cryptography\<close>

text \<open>
  SHA-256 and Ed25519 as the program calls them: \<open>sha256.Sum256\<close>, \<open>ed25519.Sign\<close> (key, message),
  \<open>ed25519.Verify\<close> (public key, message, signature), \<open>ed25519.NewKeyFromSeed\<close> and \<open>PrivateKey.Public\<close>.
\<close>

record crypto =
  cr_sha256 :: "bytes \<Rightarrow> bytes"
  cr_sign :: "bytes \<Rightarrow> bytes \<Rightarrow> bytes"
  cr_verify :: "bytes \<Rightarrow> bytes \<Rightarrow> bytes \<Rightarrow> bool"
  cr_keyFromSeed :: "bytes \<Rightarrow> bytes"
  cr_public :: "bytes \<Rightarrow> bytes"

section \<open>Messages\<close>

type_synonym 'a slice = "'a list option"
type_synonym RawMessage = string
type_synonym Phase = string

definition elems :: "'a slice \<Rightarrow> 'a list" where
  "elems xs = (case xs of None \<Rightarrow> [] | Some ys \<Rightarrow> ys)"

lemma elems_simps [simp]: "elems None = []" "elems (Some xs) = xs"
  by (simp_all add: elems_def)

definition ProtocolVersion :: u32 where "ProtocolVersion = 2"
definition GenesisHash :: string where
  "GenesisHash = ''0x4a1ae0a4b9f7a0c663e89b9df38b1bb2148b0977eacff33a4a9a320c4ca63b6a''"

record AIJob =
  aj_ID :: string
  aj_Model :: string
  aj_Prompt :: string
  aj_CreatedAt :: string

record AIResult =
  ar_JobID :: string
  ar_ModelHash :: string
  ar_InputHash :: string
  ar_Output :: string
  ar_OutputHash :: string
  ar_AIDigest :: string
  ar_ProofScheme :: string

record EVMRequest =
  er_Method :: string
  er_Params :: RawMessage

record EVMReceipt =
  ev_Method :: string
  ev_RequestHash :: string
  ev_Response :: RawMessage
  ev_ResponseHash :: string
  ev_StateRoot :: string
  ev_Upstream :: string
  ev_Mock :: bool

record ExecutionPayloadEnvelope =
  ex_Fork :: string
  ex_Payload :: RawMessage
  ex_BlockHash :: string
  ex_ParentHash :: string
  ex_StateRoot :: string
  ex_BlockNumber :: string
  ex_Timestamp :: string
  ex_ParentBeaconBlockRoot :: string
  ex_ExpectedBlobVersionedHashes :: "string slice"
  ex_ExecutionRequests :: "string slice"
  ex_BlockValue :: string

record PoWTicket =
  tk_Height :: u64
  tk_ParentHash :: string
  tk_JobID :: string
  tk_ResultHash :: string
  tk_AIDigest :: string
  tk_MinerID :: string
  tk_Nonce :: u64
  tk_Difficulty :: u8
  tk_WorkHash :: string
  tk_Signature :: string
  tk_ManifestRoot :: string
  tk_AIProofHash :: string
  tk_ZKMLProofHash :: string

record AIProofBundle =
  ab_MinerID :: string
  ab_ProofHash :: string
  ab_ContentHash :: string
  ab_Proof :: RawMessage

record ZKMLProofBundle =
  zb_WorkerID :: string
  zb_Scheme :: string
  zb_CircuitID :: string
  zb_ModelCommitment :: string
  zb_InputCommitment :: string
  zb_Output :: string
  zb_Proof :: "byte slice"
  zb_ProofHash :: string

record InferenceAttestation =
  at_WorkerID :: string
  at_Height :: u64
  at_ParentHash :: string
  at_JobID :: string
  at_ResultHash :: string
  at_ModelHash :: string
  at_InputHash :: string
  at_OutputHash :: string
  at_ZKMLProofHash :: string
  at_Signature :: string

record ResultCertificate =
  rc_ResultHash :: string
  rc_Attestations :: "InferenceAttestation slice"

record BlockHeader =
  bh_Version :: u32
  bh_Height :: u64
  bh_ParentHash :: string
  bh_ProposerID :: string
  bh_Timestamp :: string
  bh_AIReceiptRoot :: string
  bh_EVMStateRoot :: string
  bh_EVMReceiptRoot :: string
  bh_ExecutionHash :: string
  bh_TicketsRoot :: string
  bh_AIProofsRoot :: string
  bh_ResultQCRoot :: string
  bh_ZKMLProofsRoot :: string

record Block =
  bl_Header :: BlockHeader
  bl_Job :: AIJob
  bl_Result :: AIResult
  bl_EVMRequest :: EVMRequest
  bl_EVM :: EVMReceipt
  bl_Execution :: ExecutionPayloadEnvelope
  bl_Winner :: PoWTicket
  bl_Tickets :: "PoWTicket slice"
  bl_AIProofs :: "AIProofBundle list"
  bl_ResultQC :: ResultCertificate
  bl_ZKMLProofs :: "ZKMLProofBundle list"

definition PhasePrepare :: Phase where "PhasePrepare = ''prepare''"
definition PhasePreCommit :: Phase where "PhasePreCommit = ''precommit''"
definition PhaseCommit :: Phase where "PhaseCommit = ''commit''"

record Vote =
  vt_Phase :: Phase
  vt_Height :: u64
  vt_BlockHash :: string
  vt_VoterID :: string
  vt_Signature :: string

record QuorumCertificate =
  qc_Phase :: Phase
  qc_Height :: u64
  qc_BlockHash :: string
  qc_Votes :: "Vote list"

record MiningRequest =
  mq_Height :: u64
  mq_ParentHash :: string
  mq_Job :: AIJob

record MiningResponse =
  mr_Ticket :: PoWTicket
  mr_Result :: AIResult
  mr_Attestation :: InferenceAttestation
  mr_AIProof :: "AIProofBundle option"
  mr_ZKMLProof :: "ZKMLProofBundle option"

record ProposeRequest =
  pq_Job :: AIJob
  pq_Result :: AIResult
  pq_EVM :: EVMRequest
  pq_Tickets :: "PoWTicket slice"
  pq_AIProofs :: "AIProofBundle list"
  pq_ResultQC :: ResultCertificate
  pq_ZKMLProofs :: "ZKMLProofBundle list"

record RoundRequest =
  rq_Job :: AIJob
  rq_EVM :: EVMRequest

record RoundResponse =
  rr_Block :: Block
  rr_BlockHash :: string
  rr_CommitQC :: QuorumCertificate

record Status =
  sts_NodeID :: string
  sts_Height :: u64
  sts_TipHash :: string
  sts_ExecutionHead :: string
  sts_ValidatorNum :: nat
  sts_Quorum :: nat

section \<open>JSON form\<close>

definition jSlice :: "('a \<Rightarrow> jval) \<Rightarrow> 'a slice \<Rightarrow> jval" where
  "jSlice f xs = (case xs of None \<Rightarrow> JNull | Some ys \<Rightarrow> JArr (map f ys))"

definition jBytes :: "byte slice \<Rightarrow> jval" where
  "jBytes b = (case b of None \<Rightarrow> JNull | Some bs \<Rightarrow> JStr (EncodeToString bs))"

definition omitSlice :: "string \<Rightarrow> ('a \<Rightarrow> jval) \<Rightarrow> 'a list \<Rightarrow> (string \<times> jval) list" where
  "omitSlice k f xs = (if xs = [] then [] else [(k, JArr (map f xs))])"

definition job_json :: "AIJob \<Rightarrow> jval" where
  "job_json j = JObj [(''id'', JStr (aj_ID j)), (''model'', JStr (aj_Model j)),
     (''prompt'', JStr (aj_Prompt j)), (''createdAt'', JStr (aj_CreatedAt j))]"

definition result_json :: "AIResult \<Rightarrow> jval" where
  "result_json r = JObj [(''jobId'', JStr (ar_JobID r)), (''modelHash'', JStr (ar_ModelHash r)),
     (''inputHash'', JStr (ar_InputHash r)), (''output'', JStr (ar_Output r)),
     (''outputHash'', JStr (ar_OutputHash r)), (''aiDigest'', JStr (ar_AIDigest r)),
     (''proofScheme'', JStr (ar_ProofScheme r))]"

definition evmRequest_json :: "EVMRequest \<Rightarrow> jval" where
  "evmRequest_json r = JObj [(''method'', JStr (er_Method r)), (''params'', JRaw (er_Params r))]"

definition evmReceipt_json :: "EVMReceipt \<Rightarrow> jval" where
  "evmReceipt_json r = JObj [(''method'', JStr (ev_Method r)), (''requestHash'', JStr (ev_RequestHash r)),
     (''response'', JRaw (ev_Response r)), (''responseHash'', JStr (ev_ResponseHash r)),
     (''stateRoot'', JStr (ev_StateRoot r)), (''upstream'', JStr (ev_Upstream r)), (''mock'', JBool (ev_Mock r))]"

definition execution_json :: "ExecutionPayloadEnvelope \<Rightarrow> jval" where
  "execution_json e = JObj ([(''fork'', JStr (ex_Fork e)), (''executionPayload'', JRaw (ex_Payload e)),
     (''blockHash'', JStr (ex_BlockHash e)), (''parentHash'', JStr (ex_ParentHash e)),
     (''stateRoot'', JStr (ex_StateRoot e)), (''blockNumber'', JStr (ex_BlockNumber e)),
     (''timestamp'', JStr (ex_Timestamp e)), (''parentBeaconBlockRoot'', JStr (ex_ParentBeaconBlockRoot e)),
     (''expectedBlobVersionedHashes'', jSlice JStr (ex_ExpectedBlobVersionedHashes e)),
     (''executionRequests'', jSlice JStr (ex_ExecutionRequests e))]
     @ omitStr ''blockValue'' (ex_BlockValue e))"

definition ticket_json :: "PoWTicket \<Rightarrow> jval" where
  "ticket_json t = JObj ([(''height'', jU64 (tk_Height t)), (''parentHash'', JStr (tk_ParentHash t)),
     (''jobId'', JStr (tk_JobID t)), (''resultHash'', JStr (tk_ResultHash t)), (''aiDigest'', JStr (tk_AIDigest t)),
     (''minerId'', JStr (tk_MinerID t)), (''nonce'', jU64 (tk_Nonce t)), (''difficulty'', jU64 (tk_Difficulty t)),
     (''workHash'', JStr (tk_WorkHash t)), (''signature'', JStr (tk_Signature t))]
     @ omitStr ''manifestRoot'' (tk_ManifestRoot t) @ omitStr ''aiProofHash'' (tk_AIProofHash t)
     @ omitStr ''zkmlProofHash'' (tk_ZKMLProofHash t))"

definition aiProof_json :: "AIProofBundle \<Rightarrow> jval" where
  "aiProof_json b = JObj [(''minerId'', JStr (ab_MinerID b)), (''proofHash'', JStr (ab_ProofHash b)),
     (''contentHash'', JStr (ab_ContentHash b)), (''proof'', JRaw (ab_Proof b))]"

definition zkmlProof_json :: "ZKMLProofBundle \<Rightarrow> jval" where
  "zkmlProof_json b = JObj [(''workerId'', JStr (zb_WorkerID b)), (''scheme'', JStr (zb_Scheme b)),
     (''circuitId'', JStr (zb_CircuitID b)), (''modelCommitment'', JStr (zb_ModelCommitment b)),
     (''inputCommitment'', JStr (zb_InputCommitment b)), (''output'', JStr (zb_Output b)),
     (''proof'', jBytes (zb_Proof b)), (''proofHash'', JStr (zb_ProofHash b))]"

definition attestation_json :: "InferenceAttestation \<Rightarrow> jval" where
  "attestation_json a = JObj ([(''workerId'', JStr (at_WorkerID a)), (''height'', jU64 (at_Height a)),
     (''parentHash'', JStr (at_ParentHash a)), (''jobId'', JStr (at_JobID a)), (''resultHash'', JStr (at_ResultHash a)),
     (''modelHash'', JStr (at_ModelHash a)), (''inputHash'', JStr (at_InputHash a)), (''outputHash'', JStr (at_OutputHash a))]
     @ omitStr ''zkmlProofHash'' (at_ZKMLProofHash a) @ [(''signature'', JStr (at_Signature a))])"

definition certificate_json :: "ResultCertificate \<Rightarrow> jval" where
  "certificate_json c = JObj [(''resultHash'', JStr (rc_ResultHash c)),
     (''attestations'', jSlice attestation_json (rc_Attestations c))]"

definition header_json :: "BlockHeader \<Rightarrow> jval" where
  "header_json h = JObj [(''version'', jU64 (bh_Version h)), (''height'', jU64 (bh_Height h)),
     (''parentHash'', JStr (bh_ParentHash h)), (''proposerId'', JStr (bh_ProposerID h)),
     (''timestamp'', JStr (bh_Timestamp h)), (''aiReceiptRoot'', JStr (bh_AIReceiptRoot h)),
     (''evmStateRoot'', JStr (bh_EVMStateRoot h)), (''evmReceiptRoot'', JStr (bh_EVMReceiptRoot h)),
     (''executionHash'', JStr (bh_ExecutionHash h)), (''ticketsRoot'', JStr (bh_TicketsRoot h)),
     (''aiProofsRoot'', JStr (bh_AIProofsRoot h)), (''resultQcRoot'', JStr (bh_ResultQCRoot h)),
     (''zkmlProofsRoot'', JStr (bh_ZKMLProofsRoot h))]"

definition block_json :: "Block \<Rightarrow> jval" where
  "block_json b = JObj ([(''header'', header_json (bl_Header b)), (''job'', job_json (bl_Job b)),
     (''result'', result_json (bl_Result b)), (''evmRequest'', evmRequest_json (bl_EVMRequest b)),
     (''evm'', evmReceipt_json (bl_EVM b)), (''execution'', execution_json (bl_Execution b)),
     (''winner'', ticket_json (bl_Winner b)), (''tickets'', jSlice ticket_json (bl_Tickets b))]
     @ omitSlice ''aiProofs'' aiProof_json (bl_AIProofs b)
     @ [(''resultQC'', certificate_json (bl_ResultQC b))]
     @ omitSlice ''zkmlProofs'' zkmlProof_json (bl_ZKMLProofs b))"

section \<open>Hashes\<close>

definition HashBytes :: "(bytes \<Rightarrow> bytes) \<Rightarrow> bytes \<Rightarrow> string" where
  "HashBytes sha256 data = ''0x'' @ hexEncode (copy32 (sha256 data))"

definition HashJSON :: "(bytes \<Rightarrow> bytes) \<Rightarrow> jval \<Rightarrow> string" where
  "HashJSON sha256 v = HashBytes sha256 (json_marshal v)"

definition Block_Hash :: "(bytes \<Rightarrow> bytes) \<Rightarrow> Block \<Rightarrow> string" where
  "Block_Hash sha256 b = HashJSON sha256 (block_json b)"

text \<open>\<open>append([]T(nil), xs...)\<close>: a copy of an empty slice is nil.\<close>

definition copySlice :: "'a list \<Rightarrow> 'a slice" where
  "copySlice xs = (if xs = [] then None else Some xs)"

definition TicketsRoot :: "(bytes \<Rightarrow> bytes) \<Rightarrow> PoWTicket list \<Rightarrow> string" where
  "TicketsRoot sha256 tickets =
     HashJSON sha256 (jSlice ticket_json (copySlice (sortSlice (\<lambda>t. (tk_MinerID t, tk_WorkHash t)) tickets)))"

definition AIProofsRoot :: "(bytes \<Rightarrow> bytes) \<Rightarrow> AIProofBundle list \<Rightarrow> string" where
  "AIProofsRoot sha256 proofs =
     HashJSON sha256 (jSlice aiProof_json (copySlice (sortSlice (\<lambda>p. (ab_MinerID p, ab_ContentHash p)) proofs)))"

definition ZKMLProofsRoot :: "(bytes \<Rightarrow> bytes) \<Rightarrow> ZKMLProofBundle list \<Rightarrow> string" where
  "ZKMLProofsRoot sha256 proofs =
     HashJSON sha256 (jSlice zkmlProof_json (copySlice (sortSlice (\<lambda>p. (zb_WorkerID p, zb_ProofHash p)) proofs)))"

definition ResultQCRoot :: "(bytes \<Rightarrow> bytes) \<Rightarrow> ResultCertificate \<Rightarrow> string" where
  "ResultQCRoot sha256 certificate =
     HashJSON sha256 (certificate_json (certificate\<lparr>rc_Attestations :=
       copySlice (sortSlice at_WorkerID (elems (rc_Attestations certificate)))\<rparr>))"

section \<open>Jobs\<close>

definition jobID :: "(bytes \<Rightarrow> bytes) \<Rightarrow> string \<Rightarrow> string \<Rightarrow> string \<Rightarrow> string" where
  "jobID sha256 model prompt created =
     HashJSON sha256 (JObj [(''model'', JStr model), (''prompt'', JStr prompt), (''createdAt'', JStr created)])"

text \<open>The clock reading of \<open>NewAIJob\<close> is the argument \<open>created\<close>.\<close>

definition NewAIJob :: "(bytes \<Rightarrow> bytes) \<Rightarrow> string \<Rightarrow> string \<Rightarrow> string \<Rightarrow> AIJob" where
  "NewAIJob sha256 created model prompt =
     \<lparr>aj_ID = jobID sha256 model prompt created, aj_Model = model, aj_Prompt = prompt, aj_CreatedAt = created\<rparr>"

datatype job_error = JobIDMismatch string string

definition ValidateAIJob :: "(bytes \<Rightarrow> bytes) \<Rightarrow> AIJob \<Rightarrow> job_error + unit" where
  "ValidateAIJob sha256 job =
     (let want = jobID sha256 (aj_Model job) (aj_Prompt job) (aj_CreatedAt job)
      in if aj_ID job \<noteq> want then Inl (JobIDMismatch (aj_ID job) want) else Inr ())"

section \<open>Signed bytes\<close>

definition voteSigning_json :: "Phase \<Rightarrow> u64 \<Rightarrow> string \<Rightarrow> jval" where
  "voteSigning_json phase height blockHash =
     JObj [(''domain'', JStr ''AIDCHAIN_HOTSTUFF_VOTE_V1''), (''phase'', JStr phase), (''height'', jU64 height),
           (''blockHash'', JStr blockHash)]"

definition VoteSigningBytes :: "Phase \<Rightarrow> u64 \<Rightarrow> string \<Rightarrow> bytes" where
  "VoteSigningBytes phase height blockHash = json_marshal (voteSigning_json phase height blockHash)"

definition TicketSigningBytes :: "PoWTicket \<Rightarrow> bytes" where
  "TicketSigningBytes ticket = bytes_of (tk_WorkHash ticket)"

definition inferenceSigning_json :: "InferenceAttestation \<Rightarrow> jval" where
  "inferenceSigning_json a =
     JObj ([(''domain'', JStr ''AIDCHAIN_INFERENCE_ATTESTATION_V1''), (''workerId'', JStr (at_WorkerID a)),
       (''height'', jU64 (at_Height a)), (''parentHash'', JStr (at_ParentHash a)), (''jobId'', JStr (at_JobID a)),
       (''resultHash'', JStr (at_ResultHash a)), (''modelHash'', JStr (at_ModelHash a)),
       (''inputHash'', JStr (at_InputHash a)), (''outputHash'', JStr (at_OutputHash a))]
       @ omitStr ''zkmlProofHash'' (at_ZKMLProofHash a))"

definition InferenceSigningBytes :: "InferenceAttestation \<Rightarrow> bytes" where
  "InferenceSigningBytes a = json_marshal (inferenceSigning_json a)"

end
