(* ===== verification/Zkml.thy ===== *)
theory Zkml
  imports Protocol
begin

text \<open>
  The quantized linear model and its zero-knowledge proof (\<open>internal/zkml/zkml.go\<close>). The gnark
  library is outside the repository: the MiMC hash, the scalar field and the Groth16 prover and
  verifier are arguments. The circuit is the conjunction of the constraints that \<open>circuit.Define\<close>
  adds, over field elements given by their representatives below the field order.
\<close>

definition Dimensions :: nat where "Dimensions = 8"
definition Scheme :: string where "Scheme = ''groth16-bn254-quantized-linear-v1''"
definition inputDomain :: u64 where "inputDomain = 0x4149494e50555431"
definition modelDomain :: u64 where "modelDomain = 0x41494d4f44454c31"
definition maxProofBytes :: nat where "maxProofBytes = 4096"

type_synonym Input = "u64 list"

record Model =
  zm_Weights :: "u64 list"
  zm_Bias :: u64

record ZProof =
  zp_Scheme :: string
  zp_CircuitID :: string
  zp_ModelCommitment :: string
  zp_InputCommitment :: string
  zp_Output :: string
  zp_Proof :: "byte slice"

datatype zkml_error =
    BiasTooLarge
  | ValueTooLarge
  | ProveFailed
  | UnsupportedScheme
  | BadProofSize
  | BadModelCommitment
  | BadInputCommitment
  | BadOutput
  | ProofUnreadable
  | TrailingProofData
  | ProofRejected

section \<open>The model\<close>

definition Evaluate :: "Input \<Rightarrow> Model \<Rightarrow> u64" where
  "Evaluate input model =
     foldl (\<lambda>output i. output + input ! i * zm_Weights model ! i) (zm_Bias model) [0..<Dimensions]"

definition Derive :: "(bytes \<Rightarrow> bytes) \<Rightarrow> string \<Rightarrow> string \<Rightarrow> Input \<times> Model" where
  "Derive sha256 modelName prompt =
     (let inputSeed = copy32 (sha256 (bytes_of (''AIDCHAIN_ZKML_INPUT_V1|'' @ prompt)));
          modelSeed = copy32 (sha256 (bytes_of (''AIDCHAIN_ZKML_MODEL_V1|'' @ modelName)));
          u16at = (\<lambda>seed i. ucast (getLE (take 2 (drop (i * 2) seed)) :: u16) :: u64)
      in (map (u16at inputSeed) [0..<Dimensions],
          \<lparr>zm_Weights = map (u16at modelSeed) [0..<Dimensions],
           zm_Bias = ucast (getLE (take 4 (drop 16 modelSeed)) :: u32)\<rparr>))"

definition validateValues :: "Input \<Rightarrow> Model \<Rightarrow> zkml_error + unit" where
  "validateValues input model =
     (if zm_Bias model \<ge> 2 ^ 32 then Inl BiasTooLarge
      else forE (\<lambda>i. if input ! i \<ge> 2 ^ 16 \<or> zm_Weights model ! i \<ge> 2 ^ 16 then Inl ValueTooLarge else Inr ())
             [0..<Dimensions])"

definition commitment :: "(nat list \<Rightarrow> nat) \<Rightarrow> u64 \<Rightarrow> u64 list \<Rightarrow> nat" where
  "commitment mimc domain values = mimc (map unat (domain # of_nat (length values) # values))"

definition modelCommitmentOf :: "(nat list \<Rightarrow> nat) \<Rightarrow> Model \<Rightarrow> nat" where
  "modelCommitmentOf mimc model = commitment mimc modelDomain (zm_Weights model @ [zm_Bias model])"

definition inputCommitmentOf :: "(nat list \<Rightarrow> nat) \<Rightarrow> Input \<Rightarrow> nat" where
  "inputCommitmentOf mimc input = commitment mimc inputDomain input"

definition StatementFor ::
  "(bytes \<Rightarrow> bytes) \<Rightarrow> (nat list \<Rightarrow> nat) \<Rightarrow> string \<Rightarrow> string \<Rightarrow> string \<times> string \<times> string" where
  "StatementFor sha256 mimc modelName prompt =
     (let (input, model) = Derive sha256 modelName prompt
      in (decimal (modelCommitmentOf mimc model), decimal (inputCommitmentOf mimc input),
          decimal (unat (Evaluate input model))))"

definition zproof_json :: "ZProof \<Rightarrow> jval" where
  "zproof_json p = JObj [(''scheme'', JStr (zp_Scheme p)), (''circuitId'', JStr (zp_CircuitID p)),
     (''modelCommitment'', JStr (zp_ModelCommitment p)), (''inputCommitment'', JStr (zp_InputCommitment p)),
     (''output'', JStr (zp_Output p)), (''proof'', jBytes (zp_Proof p))]"

definition ProofHash :: "(bytes \<Rightarrow> bytes) \<Rightarrow> ZProof \<Rightarrow> string" where
  "ProofHash sha256 p = ''0x'' @ hexEncode (copy32 (sha256 (json_marshal (zproof_json p))))"

section \<open>The circuit\<close>

record circuit =
  ci_Inputs :: "nat list"
  ci_Weights :: "nat list"
  ci_Bias :: nat
  ci_ModelCommitment :: nat
  ci_InputCommitment :: nat
  ci_Output :: nat

text \<open>\<open>api.ToBinary(v, n)\<close> constrains a variable to \<open>n\<close> bits; sums and products are in the field.\<close>

definition circuit_Define :: "nat \<Rightarrow> (nat list \<Rightarrow> nat) \<Rightarrow> circuit \<Rightarrow> bool" where
  "circuit_Define p mimc c \<longleftrightarrow>
     length (ci_Inputs c) = Dimensions \<and> length (ci_Weights c) = Dimensions
     \<and> list_all (\<lambda>v. v < 2 ^ 16) (ci_Inputs c)
     \<and> ci_InputCommitment c = mimc ([unat inputDomain, Dimensions] @ ci_Inputs c)
     \<and> ci_Bias c < 2 ^ 32
     \<and> list_all (\<lambda>v. v < 2 ^ 16) (ci_Weights c)
     \<and> ci_ModelCommitment c = mimc ([unat modelDomain, Dimensions + 1] @ ci_Weights c @ [ci_Bias c])
     \<and> ci_Output c < 2 ^ 64
     \<and> ci_Output c = foldl (\<lambda>output i. (output + (ci_Inputs c ! i * ci_Weights c ! i) mod p) mod p)
                        (ci_Bias c mod p) [0..<Dimensions]"

definition assignmentFor :: "Input \<Rightarrow> Model \<Rightarrow> nat \<Rightarrow> nat \<Rightarrow> u64 \<Rightarrow> circuit" where
  "assignmentFor input model modelCommitment inputCommitment output =
     \<lparr>ci_Inputs = map unat input, ci_Weights = map unat (zm_Weights model), ci_Bias = unat (zm_Bias model),
      ci_ModelCommitment = modelCommitment, ci_InputCommitment = inputCommitment, ci_Output = unat output\<rparr>"

section \<open>Prover and verifier\<close>

text \<open>
  Groth16 as the code calls it, keys included: proving an assignment (serialized), how many bytes
  \<open>ReadFrom\<close> consumes, and verifying against the three public inputs.
\<close>

record groth16 =
  g_Order :: nat
  g_MiMC :: "nat list \<Rightarrow> nat"
  g_Prove :: "circuit \<Rightarrow> bytes option"
  g_Read :: "bytes \<Rightarrow> nat option"
  g_Verify :: "bytes \<Rightarrow> nat \<times> nat \<times> nat \<Rightarrow> bool"

definition zkml_Prove :: "groth16 \<Rightarrow> string \<Rightarrow> Input \<Rightarrow> Model \<Rightarrow> zkml_error + ZProof" where
  "zkml_Prove g circuitID input model =
     bindE (validateValues input model) (\<lambda>_.
     let modelCommitment = modelCommitmentOf (g_MiMC g) model;
         inputCommitment = inputCommitmentOf (g_MiMC g) input;
         output = Evaluate input model
     in bindE (ofOption ProveFailed (g_Prove g (assignmentFor input model modelCommitment inputCommitment output)))
       (\<lambda>encoded. Inr \<lparr>zp_Scheme = Scheme, zp_CircuitID = circuitID, zp_ModelCommitment = decimal modelCommitment,
          zp_InputCommitment = decimal inputCommitment, zp_Output = decimal (unat output), zp_Proof = Some encoded\<rparr>))"

text \<open>\<open>(*big.Int).SetString(s, 10)\<close>: an optional sign and at least one digit.\<close>

definition SetString10 :: "string \<Rightarrow> int option" where
  "SetString10 s =
     (let (neg, ds) = (case s of c # r \<Rightarrow> if c = CHR ''-'' then (True, r) else if c = CHR ''+'' then (False, r) else (False, s)
                               | [] \<Rightarrow> (False, []))
      in if ds \<noteq> [] \<and> list_all isDigitC ds
         then Some (if neg then - int (undecimal ds 0) else int (undecimal ds 0))
         else None)"

text \<open>A public input enters the witness reduced modulo the field order.\<close>

definition fieldElement :: "groth16 \<Rightarrow> int \<Rightarrow> nat" where
  "fieldElement g i = nat (i mod int (g_Order g))"

definition zkml_Verify :: "groth16 \<Rightarrow> string \<Rightarrow> ZProof \<Rightarrow> zkml_error + unit" where
  "zkml_Verify g circuitID p =
     (if zp_Scheme p \<noteq> Scheme \<or> zp_CircuitID p \<noteq> circuitID then Inl UnsupportedScheme
      else if length (elems (zp_Proof p)) = 0 \<or> length (elems (zp_Proof p)) > maxProofBytes then Inl BadProofSize
      else bindE (ofOption BadModelCommitment (SetString10 (zp_ModelCommitment p))) (\<lambda>modelCommitment.
           bindE (ofOption BadInputCommitment (SetString10 (zp_InputCommitment p))) (\<lambda>inputCommitment.
           bindE (ofOption BadOutput (SetString10 (zp_Output p))) (\<lambda>output.
           bindE (ofOption ProofUnreadable (g_Read g (elems (zp_Proof p)))) (\<lambda>read.
             if read \<noteq> length (elems (zp_Proof p)) then Inl TrailingProofData
             else if \<not> g_Verify g (elems (zp_Proof p))
                 (fieldElement g modelCommitment, fieldElement g inputCommitment, fieldElement g output)
               then Inl ProofRejected
             else Inr ())))))"

section \<open>Laws\<close>

text \<open>Eight products of 16-bit numbers and a 32-bit bias stay far below \<open>2^64\<close>.\<close>

lemma products_bound:
  fixes f g :: "nat \<Rightarrow> nat"
  assumes "\<And>i. i \<in> set is \<Longrightarrow> f i < 2 ^ 16 \<and> g i < 2 ^ 16" "b < 2 ^ 32" "length is \<le> 8"
  shows "b + (\<Sum>i\<leftarrow>is. f i * g i) < 2 ^ 36"
proof -
  have "f i * g i \<le> 4294836225" if "i \<in> set is" for i
    using assms(1)[OF that] mult_le_mono[of "f i" 65535 "g i" 65535] by simp
  then have "(\<Sum>i\<leftarrow>is. f i * g i) \<le> (\<Sum>i\<leftarrow>is. 4294836225)" by (rule sum_list_mono)
  then have "(\<Sum>i\<leftarrow>is. f i * g i) \<le> length is * 4294836225" by (simp add: sum_list_triv)
  then show ?thesis using assms(2,3) by simp
qed

lemma field_foldl:
  fixes f g :: "nat \<Rightarrow> nat"
  assumes "\<And>i. i \<in> set is \<Longrightarrow> f i < 2 ^ 16 \<and> g i < 2 ^ 16" "b < 2 ^ 32" "length is \<le> 8" "2 ^ 36 \<le> p"
  shows "foldl (\<lambda>out i. (out + (f i * g i) mod p) mod p) (b mod p) is = b + (\<Sum>i\<leftarrow>is. f i * (g i :: nat))"
  using assms
proof (induction "is" rule: rev_induct)
  case (snoc i "is")
  have "b + (\<Sum>i\<leftarrow>is @ [i]. f i * g i) < 2 ^ 36"
    by (rule products_bound[of "is @ [i]" f g]) (use snoc.prems in auto)
  then have "b + (\<Sum>i\<leftarrow>is. f i * g i) + f i * g i < p" using snoc.prems(4) by simp
  moreover have "foldl (\<lambda>out i. (out + (f i * g i) mod p) mod p) (b mod p) is = b + (\<Sum>i\<leftarrow>is. f i * g i)"
    using snoc by simp
  ultimately show ?case by (simp add: mod_add_right_eq)
qed simp

lemma word_foldl:
  fixes f g :: "nat \<Rightarrow> u64"
  assumes "\<And>i. i \<in> set is \<Longrightarrow> unat (f i) < 2 ^ 16 \<and> unat (g i) < 2 ^ 16" "unat b < 2 ^ 32" "length is \<le> 8"
  shows "unat (foldl (\<lambda>out i. out + f i * g i) b is) = unat b + (\<Sum>i\<leftarrow>is. unat (f i) * unat (g i))"
  using assms
proof (induction "is" rule: rev_induct)
  case (snoc i "is")
  let ?o = "foldl (\<lambda>out i. out + f i * g i) b is"
  have o: "unat ?o = unat b + (\<Sum>i\<leftarrow>is. unat (f i) * unat (g i))" using snoc by simp
  have "unat b + (\<Sum>i\<leftarrow>is @ [i]. unat (f i) * unat (g i)) < 2 ^ 36"
    by (rule products_bound[of "is @ [i]" "\<lambda>i. unat (f i)" "\<lambda>i. unat (g i)"]) (use snoc.prems in auto)
  then have total: "unat b + (\<Sum>i\<leftarrow>is. unat (f i) * unat (g i)) + unat (f i) * unat (g i) < 2 ^ LENGTH(64)" by simp
  have m: "unat (f i * g i) = unat (f i) * unat (g i)"
    unfolding unat_word_ariths(2) by (rule mod_less) (use total in linarith)
  have "unat (?o + f i * g i) = unat ?o + unat (f i) * unat (g i)"
    unfolding unat_word_ariths(1) m by (rule mod_less) (use total o in linarith)
  then show ?case using o by simp
qed simp

text \<open>What \<open>validateValues\<close> accepts, and what \<open>Derive\<close> produces.\<close>

definition smallValues :: "Input \<Rightarrow> Model \<Rightarrow> bool" where
  "smallValues input model \<longleftrightarrow> unat (zm_Bias model) < 2 ^ 32
     \<and> (\<forall>i < Dimensions. unat (input ! i) < 2 ^ 16 \<and> unat (zm_Weights model ! i) < 2 ^ 16)"

lemma validateValues_ok: "validateValues input model = Inr () \<longleftrightarrow> smallValues input model"
  by (auto simp: validateValues_def smallValues_def not_le word_less_nat_alt)

lemma Evaluate_exact:
  assumes "smallValues input model"
  shows "unat (Evaluate input model) = unat (zm_Bias model) + (\<Sum>i\<leftarrow>[0..<Dimensions]. unat (input ! i) * unat (zm_Weights model ! i))"
    "unat (Evaluate input model) < 2 ^ 36"
proof -
  show e: "unat (Evaluate input model) = unat (zm_Bias model) + (\<Sum>i\<leftarrow>[0..<Dimensions]. unat (input ! i) * unat (zm_Weights model ! i))"
    unfolding Evaluate_def using assms by (intro word_foldl) (auto simp: smallValues_def Dimensions_def)
  show "unat (Evaluate input model) < 2 ^ 36"
    unfolding e using assms by (intro products_bound) (auto simp: smallValues_def Dimensions_def)
qed

lemma Derive_ok:
  assumes "Derive sha256 modelName prompt = (input, model)"
  shows "length input = Dimensions" "length (zm_Weights model) = Dimensions" "smallValues input model"
proof -
  have u: "unat (ucast (x :: u16) :: u64) < 2 ^ 16" "unat (ucast (y :: u32) :: u64) < 2 ^ 32" for x y
    using unsigned_less[of x, where 'a = nat] unsigned_less[of y, where 'a = nat]
      le_less_trans[OF take_bit_nat_less_eq_self[of 64 "unat x"]] le_less_trans[OF take_bit_nat_less_eq_self[of 64 "unat y"]]
    by (simp_all add: unsigned_ucast_eq)
  show "length input = Dimensions" "length (zm_Weights model) = Dimensions" "smallValues input model"
    using assms u by (auto simp: Derive_def Let_def smallValues_def)
qed

lemma circuit_output:
  assumes "circuit_Define p mimc c" "2 ^ 36 \<le> p"
  shows "ci_Output c = ci_Bias c + (\<Sum>i\<leftarrow>[0..<Dimensions]. ci_Inputs c ! i * ci_Weights c ! i)"
  using assms field_foldl[of "[0..<Dimensions]" "(!) (ci_Inputs c)" "(!) (ci_Weights c)" "ci_Bias c" p]
  by (simp add: circuit_Define_def Dimensions_def list_all_length)

lemma honest_assignment:
  assumes "smallValues input model" "length input = Dimensions" "length (zm_Weights model) = Dimensions" "2 ^ 64 \<le> p"
  shows "circuit_Define p mimc (assignmentFor input model (modelCommitmentOf mimc model) (inputCommitmentOf mimc input)
     (Evaluate input model))"
proof -
  have s: "(\<Sum>i\<leftarrow>[0..<Dimensions]. map unat input ! i * map unat (zm_Weights model) ! i) =
      (\<Sum>i\<leftarrow>[0..<Dimensions]. unat (input ! i) * unat (zm_Weights model ! i))"
    using assms(2,3) by (intro arg_cong[of _ _ sum_list] map_cong) auto
  have "foldl (\<lambda>out i. (out + (map unat input ! i * map unat (zm_Weights model) ! i) mod p) mod p) (unat (zm_Bias model) mod p) [0..<Dimensions]
      = unat (Evaluate input model)"
    unfolding Evaluate_exact(1)[OF assms(1)] s[symmetric]
    by (rule field_foldl) (use assms in \<open>auto simp: smallValues_def Dimensions_def\<close>)
  moreover have "unat (Evaluate input model) < 2 ^ 64" using Evaluate_exact(2)[OF assms(1)] by simp
  ultimately show ?thesis
    using assms(1-3)
    by (simp add: circuit_Define_def assignmentFor_def list_all_length smallValues_def modelCommitmentOf_def
        inputCommitmentOf_def commitment_def Dimensions_def)
qed

section \<open>Properties\<close>

definition bn254Order :: nat where
  "bn254Order = 21888242871839275222246405745257275088548364400416034343698204186575808495617"

text \<open>
  C19: The circuit computes the model exactly. For every job, the derived input and model satisfy
  the circuit with the output of \<open>Evaluate\<close>; every satisfying assignment for them carries that
  output; and \<open>Evaluate\<close> never wraps around: it is the integer dot product plus the bias.
\<close>

theorem zkml_circuit_exact:
  assumes "Derive sha256 modelName prompt = (input, model)" "2 ^ 64 \<le> p"
  shows "circuit_Define p mimc (assignmentFor input model (modelCommitmentOf mimc model) (inputCommitmentOf mimc input)
       (Evaluate input model))
    \<and> (circuit_Define p mimc c \<and> ci_Inputs c = map unat input \<and> ci_Weights c = map unat (zm_Weights model)
        \<and> ci_Bias c = unat (zm_Bias model) \<longrightarrow> ci_Output c = unat (Evaluate input model))
    \<and> unat (Evaluate input model) = unat (zm_Bias model) + (\<Sum>i\<leftarrow>[0..<8]. unat (input ! i) * unat (zm_Weights model ! i))"
proof (intro conjI impI)
  note d = Derive_ok[OF assms(1)]
  show "circuit_Define p mimc (assignmentFor input model (modelCommitmentOf mimc model) (inputCommitmentOf mimc input)
      (Evaluate input model))"
    by (rule honest_assignment[OF d(3,1,2) assms(2)])
  show "unat (Evaluate input model) = unat (zm_Bias model) + (\<Sum>i\<leftarrow>[0..<8]. unat (input ! i) * unat (zm_Weights model ! i))"
    using Evaluate_exact(1)[OF d(3)] by (simp add: Dimensions_def)
  assume c: "circuit_Define p mimc c \<and> ci_Inputs c = map unat input \<and> ci_Weights c = map unat (zm_Weights model)
      \<and> ci_Bias c = unat (zm_Bias model)"
  have "ci_Output c = unat (zm_Bias model) + (\<Sum>i\<leftarrow>[0..<Dimensions]. map unat input ! i * map unat (zm_Weights model) ! i)"
    using circuit_output[of p mimc c] c assms(2) by simp
  also have "(\<Sum>i\<leftarrow>[0..<Dimensions]. map unat input ! i * map unat (zm_Weights model) ! i)
      = (\<Sum>i\<leftarrow>[0..<Dimensions]. unat (input ! i) * unat (zm_Weights model ! i))"
    using d(1,2) by (intro arg_cong[of _ _ sum_list] map_cong) auto
  finally show "ci_Output c = unat (Evaluate input model)" using Evaluate_exact(1)[OF d(3)] by simp
qed

theorem zkml_circuit_exact_witness:
  "\<exists>input model. Derive (\<lambda>_. replicate 32 1) ''m'' ''x'' = (input, model)
    \<and> circuit_Define bn254Order length (assignmentFor input model (modelCommitmentOf length model) (inputCommitmentOf length input)
        (Evaluate input model))"
proof -
  obtain input model where d: "Derive (\<lambda>_. replicate 32 1) ''m'' ''x'' = (input, model)" by fastforce
  have "2 ^ 64 \<le> bn254Order" by (simp add: bn254Order_def)
  from zkml_circuit_exact[OF d this] d show ?thesis by blast
qed

text \<open>
  The verifier does not insist on the canonical decimal form of the public output: a proof
  that it accepts is still accepted when its output is written with a leading zero or a plus sign,
  although its hash and the output string it commits to are different.
\<close>

theorem zkml_output_not_canonical:
  assumes "zkml_Verify g circuitID p = Inr ()" "list_all isDigitC (zp_Output p)"
  shows "zkml_Verify g circuitID (p\<lparr>zp_Output := CHR ''0'' # zp_Output p\<rparr>) = Inr ()
    \<and> zkml_Verify g circuitID (p\<lparr>zp_Output := CHR ''+'' # zp_Output p\<rparr>) = Inr ()
    \<and> json_marshal (zproof_json (p\<lparr>zp_Output := CHR ''0'' # zp_Output p\<rparr>)) \<noteq> json_marshal (zproof_json p)"
proof -
  have d: "\<not> isDigitC CHR ''-''" "\<not> isDigitC CHR ''+''" "isDigitC CHR ''0''" by (simp_all add: isDigitC_def)
  obtain out where out: "SetString10 (zp_Output p) = Some out"
    using assms(1) by (auto simp: zkml_Verify_def split: if_splits)
  then have ne: "zp_Output p \<noteq> []" by (auto simp: SetString10_def)
  have plain: "SetString10 (zp_Output p) = Some (int (undecimal (zp_Output p) 0))"
    using assms(2) ne d by (cases "zp_Output p") (auto simp: SetString10_def)
  have "SetString10 (CHR ''0'' # zp_Output p) = SetString10 (zp_Output p)"
    "SetString10 (CHR ''+'' # zp_Output p) = SetString10 (zp_Output p)"
    unfolding plain using assms(2) ne d by (simp_all add: SetString10_def)
  moreover have "json_marshal (zproof_json (p\<lparr>zp_Output := CHR ''0'' # zp_Output p\<rparr>)) \<noteq> json_marshal (zproof_json p)"
    by (subst json_marshal_inj) (auto simp: zproof_json_def jBytes_def split: option.split)
  ultimately show ?thesis using assms(1) by (simp add: zkml_Verify_def)
qed

theorem zkml_output_not_canonical_witness:
  "zkml_Verify \<lparr>g_Order = bn254Order, g_MiMC = sum_list, g_Prove = (\<lambda>_. Some [1]), g_Read = (\<lambda>b. Some (length b)),
      g_Verify = (\<lambda>b (m, i, out). out = 7)\<rparr> ''c''
     \<lparr>zp_Scheme = Scheme, zp_CircuitID = ''c'', zp_ModelCommitment = ''1'', zp_InputCommitment = ''2'', zp_Output = ''07'',
      zp_Proof = Some [1]\<rparr> = Inr ()"
proof -
  let ?g = "\<lparr>g_Order = bn254Order, g_MiMC = sum_list, g_Prove = (\<lambda>_. Some [1]), g_Read = (\<lambda>b. Some (length b)),
      g_Verify = (\<lambda>b (m, i, out). out = 7)\<rparr>"
  let ?p = "\<lparr>zp_Scheme = Scheme, zp_CircuitID = ''c'', zp_ModelCommitment = ''1'', zp_InputCommitment = ''2'', zp_Output = ''7'',
      zp_Proof = Some [1]\<rparr>"
  have "zkml_Verify ?g ''c'' ?p = Inr ()"
    by (simp add: zkml_Verify_def SetString10_def isDigitC_def fieldElement_def bn254Order_def maxProofBytes_def)
  moreover have "list_all isDigitC (zp_Output ?p)" by (simp add: isDigitC_def)
  ultimately show ?thesis using zkml_output_not_canonical[of ?g "''c''" ?p] by simp
qed

end
