(* ===== verification/Protocol_Laws.thy ===== *)
theory Protocol_Laws
  imports Protocol
begin

text \<open>
  What the hashes and signed byte strings of the protocol commit to. JSON text is injective on
  values without raw parts, so equal byte strings come from equal messages; a block contains raw
  messages, but its header, job and result stand before the first of them.
\<close>

section \<open>Injectivity of the JSON forms\<close>

lemma noRaw_jSlice [simp]: "(\<And>x. noRaw (f x)) \<Longrightarrow> noRaw (jSlice f xs)"
  by (auto simp: jSlice_def split: option.split)

lemma noRaw_protocol [simp]:
  "noRaw (job_json j)" "noRaw (result_json r)" "noRaw (header_json h)" "noRaw (ticket_json t)"
  "noRaw (attestation_json a)" "noRaw (zkmlProof_json z)" "noRaw (certificate_json c)"
  "noRaw (voteSigning_json p n b)" "noRaw (inferenceSigning_json a)"
  by (auto simp: job_json_def result_json_def header_json_def ticket_json_def attestation_json_def
      zkmlProof_json_def certificate_json_def voteSigning_json_def inferenceSigning_json_def
      omitStr_def jBytes_def split: option.split)

lemma omitStr_split:
  "omitStr k s @ ms = omitStr k t @ ns \<Longrightarrow> k \<notin> fst ` set ms \<union> fst ` set ns \<Longrightarrow> s = t \<and> ms = ns"
  by (cases ms; cases ns) (auto simp: omitStr_def split: if_splits)

lemma omitStr_end: "omitStr k s = omitStr k t \<longleftrightarrow> s = t"
  by (simp add: omitStr_def)

lemma fst_omitStr: "fst ` set (omitStr k s) \<subseteq> {k}"
  by (simp add: omitStr_def)

lemma job_json_inj: "job_json j = job_json j' \<longleftrightarrow> j = j'"
  by (cases j; cases j') (auto simp: job_json_def)

lemma result_json_inj: "result_json r = result_json r' \<longleftrightarrow> r = r'"
  by (cases r; cases r') (auto simp: result_json_def)

lemma header_json_inj: "header_json h = header_json h' \<longleftrightarrow> h = h'"
  by (cases h; cases h') (auto simp: header_json_def)

lemma ticket_json_inj: "ticket_json t = ticket_json t' \<longleftrightarrow> t = t'"
proof
  assume eq: "ticket_json t = ticket_json t'"
  let ?tl = "\<lambda>t. omitStr ''manifestRoot'' (tk_ManifestRoot t) @ omitStr ''aiProofHash'' (tk_AIProofHash t)
     @ omitStr ''zkmlProofHash'' (tk_ZKMLProofHash t)"
  have "?tl t = ?tl t'" using eq by (simp add: ticket_json_def)
  then have "tk_ManifestRoot t = tk_ManifestRoot t'" "tk_AIProofHash t = tk_AIProofHash t'"
    "tk_ZKMLProofHash t = tk_ZKMLProofHash t'"
    by (auto simp: omitStr_def split: if_splits)
  then show "t = t'" using eq by (cases t; cases t') (simp add: ticket_json_def)
qed simp

lemma inferenceSigning_json_inj:
  "inferenceSigning_json a = inferenceSigning_json a' \<longleftrightarrow> a\<lparr>at_Signature := []\<rparr> = a'\<lparr>at_Signature := []\<rparr>"
  by (cases a; cases a') (auto simp: inferenceSigning_json_def omitStr_end)

section \<open>Members before the first raw one\<close>

definition membersText :: "(string \<times> jval) list \<Rightarrow> string" where
  "membersText ms = intercalate '','' (map (\<lambda>(k, v). jsonString k @ '':'' @ jsonText v) ms)"

lemma membersText_Cons:
  "ms \<noteq> [] \<Longrightarrow> membersText ((k, v) # ms) = jsonString k @ '':'' @ jsonText v @ '','' @ membersText ms"
  by (simp add: membersText_def intercalate_Cons)

lemma json_marshal_members: "json_marshal (JObj ms) = json_marshal (JObj ns) \<longleftrightarrow> membersText ms = membersText ns"
  by (simp only: json_marshal_def jsonText.simps bytes_of_inj membersText_def same_append_eq append_same_eq)

lemma member_split:
  assumes "membersText ((k, v) # ms) = membersText ((k, w) # ns)" "noRaw v" "noRaw w" "ms \<noteq> []" "ns \<noteq> []"
  shows "v = w \<and> membersText ms = membersText ns"
proof -
  have "jsonText v @ '','' @ membersText ms = jsonText w @ '','' @ membersText ns"
    using assms(1,4,5) by (simp add: membersText_Cons)
  then have "v = w \<and> '','' @ membersText ms = '','' @ membersText ns"
    using assms(2,3) by (intro jsonText_split) simp_all
  then show ?thesis by simp
qed

lemma block_json_prefix:
  assumes "json_marshal (block_json b) = json_marshal (block_json b')"
  shows "bl_Header b = bl_Header b' \<and> bl_Job b = bl_Job b' \<and> bl_Result b = bl_Result b'"
proof -
  obtain ms ns where m: "block_json b = JObj ((''header'', header_json (bl_Header b)) # (''job'', job_json (bl_Job b))
        # (''result'', result_json (bl_Result b)) # ms)" "ms \<noteq> []"
    and n: "block_json b' = JObj ((''header'', header_json (bl_Header b')) # (''job'', job_json (bl_Job b'))
        # (''result'', result_json (bl_Result b')) # ns)" "ns \<noteq> []"
    by (simp add: block_json_def)
  have "membersText ((''header'', header_json (bl_Header b)) # (''job'', job_json (bl_Job b))
        # (''result'', result_json (bl_Result b)) # ms)
      = membersText ((''header'', header_json (bl_Header b')) # (''job'', job_json (bl_Job b'))
        # (''result'', result_json (bl_Result b')) # ns)"
    using assms unfolding m n json_marshal_members .
  from member_split[OF this] have h: "header_json (bl_Header b) = header_json (bl_Header b')" and
    eq: "membersText ((''job'', job_json (bl_Job b)) # (''result'', result_json (bl_Result b)) # ms)
      = membersText ((''job'', job_json (bl_Job b')) # (''result'', result_json (bl_Result b')) # ns)" by simp_all
  from member_split[OF eq] have j: "job_json (bl_Job b) = job_json (bl_Job b')" and
    eq': "membersText ((''result'', result_json (bl_Result b)) # ms) = membersText ((''result'', result_json (bl_Result b')) # ns)"
    by simp_all
  from member_split[OF eq'] m(2) n(2) have "result_json (bl_Result b) = result_json (bl_Result b')" by simp
  then show ?thesis using h j by (simp add: header_json_inj job_json_inj result_json_inj)
qed

section \<open>Hash strings\<close>

lemma HashBytes_eq_iff:
  "HashBytes sha256 a = HashBytes sha256 b \<longleftrightarrow> copy32 (sha256 a) = copy32 (sha256 b)"
  by (metis HashBytes_def append_same_eq same_append_eq hexDecode_hexEncode option.inject)

lemma HashBytes_nonempty [simp]: "HashBytes sha256 a \<noteq> []" "[] \<noteq> HashBytes sha256 a"
  by (simp_all add: HashBytes_def)

lemma Block_Hash_nonempty [simp]: "Block_Hash sha256 b \<noteq> []" "[] \<noteq> Block_Hash sha256 b"
  by (simp_all add: Block_Hash_def HashJSON_def)

lemma json_marshal_hd: "json_marshal (JObj ms) = of_char CHR ''{'' # tl (json_marshal (JObj ms))"
  by (simp add: json_marshal_def)

lemma HashBytes_hd: "HashBytes sha256 d = CHR ''0'' # tl (HashBytes sha256 d)"
  by (simp add: HashBytes_def)

lemma VoteSigningBytes_inj:
  "VoteSigningBytes p h b = VoteSigningBytes p' h' b' \<longleftrightarrow> p = p' \<and> h = h' \<and> b = b'"
  unfolding VoteSigningBytes_def by (subst json_marshal_inj) (auto simp: voteSigning_json_def)

lemma VoteSigningBytes_not_attestation: "VoteSigningBytes p h b \<noteq> InferenceSigningBytes a"
  unfolding VoteSigningBytes_def InferenceSigningBytes_def json_marshal_inj[OF noRaw_protocol(8,9)]
  by (simp add: voteSigning_json_def inferenceSigning_json_def)

lemma json_object_not_hash: "json_marshal (JObj ms) \<noteq> bytes_of (HashBytes sha256 d)"
  by (subst json_marshal_hd, subst HashBytes_hd) simp

lemma VoteSigningBytes_not_hash: "VoteSigningBytes p h b \<noteq> bytes_of (HashBytes sha256 d)"
  by (simp add: VoteSigningBytes_def voteSigning_json_def json_object_not_hash)

lemma InferenceSigningBytes_not_hash: "InferenceSigningBytes a \<noteq> bytes_of (HashBytes sha256 d)"
  by (simp add: InferenceSigningBytes_def inferenceSigning_json_def json_object_not_hash)

lemma jSlice_map_inj: "jSlice f (copySlice xs) = jSlice f (copySlice ys) \<longleftrightarrow> map f xs = map f ys"
  by (auto simp: jSlice_def copySlice_def)

lemma ticketsInput_inj:
  "json_marshal (jSlice ticket_json (copySlice ts)) = json_marshal (jSlice ticket_json (copySlice ts')) \<longleftrightarrow> ts = ts'"
proof -
  have "inj ticket_json" by (rule injI) (simp add: ticket_json_inj)
  then show ?thesis by (subst json_marshal_inj) (simp_all add: jSlice_map_inj inj_map_eq_map)
qed

section \<open>Concrete messages\<close>

definition blockJob :: AIJob where
  "blockJob = NewAIJob (\<lambda>_. replicate 32 1) ''2026-01-01T00:00:00Z'' ''model'' ''prompt''"

definition sampleTicket :: "string \<Rightarrow> PoWTicket" where
  "sampleTicket miner = \<lparr>tk_Height = 1, tk_ParentHash = GenesisHash, tk_JobID = aj_ID blockJob, tk_ResultHash = ''0x02'',
     tk_AIDigest = ''0x03'', tk_MinerID = miner, tk_Nonce = 7, tk_Difficulty = 4, tk_WorkHash = ''0x04'', tk_Signature = ''AA=='',
     tk_ManifestRoot = [], tk_AIProofHash = ''0x03'', tk_ZKMLProofHash = []\<rparr>"

definition sampleHeader :: "u64 \<Rightarrow> string \<Rightarrow> BlockHeader" where
  "sampleHeader height parent = \<lparr>bh_Version = ProtocolVersion, bh_Height = height, bh_ParentHash = parent, bh_ProposerID = ''a'',
     bh_Timestamp = ''2026-01-01T00:00:00Z'', bh_AIReceiptRoot = [], bh_EVMStateRoot = [], bh_EVMReceiptRoot = [],
     bh_ExecutionHash = [], bh_TicketsRoot = [], bh_AIProofsRoot = [], bh_ResultQCRoot = [], bh_ZKMLProofsRoot = []\<rparr>"

definition sampleBlock :: "u64 \<Rightarrow> string \<Rightarrow> Block" where
  "sampleBlock height parent = \<lparr>bl_Header = sampleHeader height parent, bl_Job = blockJob,
     bl_Result = \<lparr>ar_JobID = aj_ID blockJob, ar_ModelHash = [], ar_InputHash = [], ar_Output = ''x'', ar_OutputHash = [],
       ar_AIDigest = [], ar_ProofScheme = []\<rparr>,
     bl_EVMRequest = \<lparr>er_Method = ''eth_call'', er_Params = ''[ 1 ]''\<rparr>,
     bl_EVM = \<lparr>ev_Method = ''eth_call'', ev_RequestHash = [], ev_Response = [], ev_ResponseHash = [], ev_StateRoot = [],
       ev_Upstream = [], ev_Mock = True\<rparr>,
     bl_Execution = \<lparr>ex_Fork = ''osaka'', ex_Payload = [], ex_BlockHash = [], ex_ParentHash = [], ex_StateRoot = [],
       ex_BlockNumber = [], ex_Timestamp = [], ex_ParentBeaconBlockRoot = [], ex_ExpectedBlobVersionedHashes = None,
       ex_ExecutionRequests = None, ex_BlockValue = []\<rparr>,
     bl_Winner = sampleTicket ''a'', bl_Tickets = Some [], bl_AIProofs = [],
     bl_ResultQC = \<lparr>rc_ResultHash = [], rc_Attestations = None\<rparr>, bl_ZKMLProofs = []\<rparr>"

section \<open>Properties\<close>


lemma block_hash_split:
  assumes "Block_Hash sha256 b = Block_Hash sha256 b'"
  shows "bl_Header b = bl_Header b' \<and> bl_Job b = bl_Job b' \<and> bl_Result b = bl_Result b'
    \<or> json_marshal (block_json b) \<noteq> json_marshal (block_json b')
      \<and> copy32 (sha256 (json_marshal (block_json b))) = copy32 (sha256 (json_marshal (block_json b')))"
  using assms block_json_prefix by (metis Block_Hash_def HashBytes_eq_iff HashJSON_def)



text \<open>
  The tickets root commits to the multiset of tickets and not to their order: with one ticket
  per miner, reordering the tickets does not change the root, and equal roots mean the same tickets
  or a SHA-256 collision between the two canonical texts.
\<close>

theorem tickets_root_commits:
  assumes "distinct (map tk_MinerID ts)" "distinct (map tk_MinerID ts')"
  defines "text \<equiv> \<lambda>ts. json_marshal (jSlice ticket_json (copySlice (sortSlice (\<lambda>t. (tk_MinerID t, tk_WorkHash t)) ts)))"
  shows "(mset ts = mset ts' \<longrightarrow> TicketsRoot sha256 ts = TicketsRoot sha256 ts')
    \<and> (TicketsRoot sha256 ts = TicketsRoot sha256 ts' \<longrightarrow>
        mset ts = mset ts' \<or> text ts \<noteq> text ts' \<and> copy32 (sha256 (text ts)) = copy32 (sha256 (text ts')))"
proof (intro conjI impI)
  let ?k = "\<lambda>t. (tk_MinerID t, tk_WorkHash t)"
  assume "mset ts = mset ts'"
  moreover have "inj_on ?k (set ts)" "distinct ts"
    using assms(1) by (auto simp: distinct_map inj_on_def)
  ultimately show "TicketsRoot sha256 ts = TicketsRoot sha256 ts'"
    using sortSlice_perm_unique[of ts ts' ?k] by (simp add: TicketsRoot_def)
next
  assume "TicketsRoot sha256 ts = TicketsRoot sha256 ts'"
  then have "copy32 (sha256 (text ts)) = copy32 (sha256 (text ts'))"
    by (simp add: TicketsRoot_def HashJSON_def HashBytes_eq_iff text_def)
  moreover have "text ts = text ts' \<Longrightarrow> mset ts = mset ts'"
    unfolding text_def ticketsInput_inj by (metis sortSlice_laws(1))
  ultimately show "mset ts = mset ts' \<or> text ts \<noteq> text ts' \<and> copy32 (sha256 (text ts)) = copy32 (sha256 (text ts'))"
    by blast
qed

theorem tickets_root_commits_witness:
  "TicketsRoot (\<lambda>b. b) [sampleTicket ''a'', sampleTicket ''b''] = TicketsRoot (\<lambda>b. b) [sampleTicket ''b'', sampleTicket ''a'']"
  using tickets_root_commits[of "[sampleTicket ''a'', sampleTicket ''b'']" "[sampleTicket ''b'', sampleTicket ''a'']" "\<lambda>b. b"]
  by (simp add: sampleTicket_def add_mset_commute)

end
