(* ===== verification/AIPoW.thy ===== *)
theory AIPoW
  imports Zkml Protocol_Laws
begin

unbundle bit_operations_syntax

text \<open>
  Mining and inference (\<open>internal/aipow\<close>): the two deterministic runners, the work hash of a ticket,
  the nonce search, ticket verification and the choice of the winner.

  The nonce search runs forever when no nonce works and the bound is the largest \<open>uint64\<close>, because
  the counter wraps around; it is a partial function, and \<^const>\<open>None\<close> stands for a call that does not
  return. Whether the context is cancelled when the loop looks at it is an argument.
\<close>

datatype aipow_error =
    IncompleteJob
  | ResultMismatch
  | IncompleteChallenge
  | MiningCancelled
  | NoNonceFound u64
  | TicketHashMismatch
  | DifficultyNotMet
  | NoTickets
  | InvalidTicket string aipow_error

section \<open>Runners\<close>

definition aiReceipt_json :: "string \<Rightarrow> string \<Rightarrow> string \<Rightarrow> string \<Rightarrow> string \<Rightarrow> jval" where
  "aiReceipt_json jobId modelHash inputHash outputHash manifestRoot =
     JObj [(''domain'', JStr ''AIDCHAIN_AI_RECEIPT_V1''), (''jobId'', JStr jobId), (''modelHash'', JStr modelHash),
       (''inputHash'', JStr inputHash), (''outputHash'', JStr outputHash), (''manifestRoot'', JStr manifestRoot)]"

definition Dummy_Run :: "(bytes \<Rightarrow> bytes) \<Rightarrow> string \<Rightarrow> AIJob \<Rightarrow> aipow_error + AIResult" where
  "Dummy_Run sha256 manifestRoot job =
     (if aj_ID job = [] \<or> aj_Model job = [] \<or> aj_Prompt job = [] then Inl IncompleteJob
      else
        let modelHash = HashBytes sha256 (bytes_of (aj_Model job));
            inputHash = HashBytes sha256 (bytes_of (aj_Prompt job));
            seed = HashJSON sha256 (JObj [(''domain'', JStr ''AIDCHAIN_DUMMY_INFERENCE_V1''),
                     (''modelHash'', JStr modelHash), (''inputHash'', JStr inputHash)]);
            output = ''dummy-ai:'' @ take 32 (drop 2 seed);
            outputHash = HashBytes sha256 (bytes_of output);
            aiDigest = HashJSON sha256 (aiReceipt_json (aj_ID job) modelHash inputHash outputHash manifestRoot)
        in Inr \<lparr>ar_JobID = aj_ID job, ar_ModelHash = modelHash, ar_InputHash = inputHash, ar_Output = output,
                ar_OutputHash = outputHash, ar_AIDigest = aiDigest, ar_ProofScheme = ''dummy-deterministic-v1''\<rparr>)"

definition Dummy_Verify :: "(bytes \<Rightarrow> bytes) \<Rightarrow> string \<Rightarrow> AIJob \<Rightarrow> AIResult \<Rightarrow> aipow_error + unit" where
  "Dummy_Verify sha256 manifestRoot job result =
     bindE (Dummy_Run sha256 manifestRoot job) (\<lambda>want.
       if HashJSON sha256 (result_json (want\<lparr>ar_ProofScheme := []\<rparr>)) \<noteq> HashJSON sha256 (result_json (result\<lparr>ar_ProofScheme := []\<rparr>))
       then Inl ResultMismatch else Inr ())"

definition Quantized_Run :: "(bytes \<Rightarrow> bytes) \<Rightarrow> string \<Rightarrow> AIJob \<Rightarrow> aipow_error + AIResult" where
  "Quantized_Run sha256 manifestRoot job =
     (if aj_ID job = [] \<or> aj_Model job = [] \<or> aj_Prompt job = [] then Inl IncompleteJob
      else
        let (input, model) = Derive sha256 (aj_Model job) (aj_Prompt job);
            output = ''zkml-linear-v1:'' @ decimal (unat (Evaluate input model));
            modelHash = HashBytes sha256 (bytes_of (aj_Model job));
            inputHash = HashBytes sha256 (bytes_of (aj_Prompt job));
            outputHash = HashBytes sha256 (bytes_of output);
            aiDigest = HashJSON sha256 (aiReceipt_json (aj_ID job) modelHash inputHash outputHash manifestRoot)
        in Inr \<lparr>ar_JobID = aj_ID job, ar_ModelHash = modelHash, ar_InputHash = inputHash, ar_Output = output,
                ar_OutputHash = outputHash, ar_AIDigest = aiDigest, ar_ProofScheme = Scheme\<rparr>)"

definition Quantized_Verify :: "(bytes \<Rightarrow> bytes) \<Rightarrow> string \<Rightarrow> AIJob \<Rightarrow> AIResult \<Rightarrow> aipow_error + unit" where
  "Quantized_Verify sha256 manifestRoot job result =
     bindE (Quantized_Run sha256 manifestRoot job) (\<lambda>want.
       if HashJSON sha256 (result_json want) \<noteq> HashJSON sha256 (result_json result) then Inl ResultMismatch else Inr ())"

section \<open>Tickets\<close>

definition CalculateWorkHash :: "(bytes \<Rightarrow> bytes) \<Rightarrow> PoWTicket \<Rightarrow> string" where
  "CalculateWorkHash sha256 ticket =
     HashJSON sha256 (JObj [(''domain'', JStr ''AIDCHAIN_AI_POW_V1''),
       (''ticket'', ticket_json (ticket\<lparr>tk_WorkHash := [], tk_Signature := []\<rparr>))])"

fun meetsLoop :: "bytes \<Rightarrow> nat \<Rightarrow> bool" where
  "meetsLoop [] remaining = (remaining = 0)"
| "meetsLoop (v # b) remaining =
     (if remaining = 0 then True
      else if remaining \<ge> 8 then (if v \<noteq> 0 then False else meetsLoop b (remaining - 8))
      else v AND push_bit (8 - remaining) 0xff = 0)"

definition MeetsDifficulty :: "string \<Rightarrow> u8 \<Rightarrow> bool" where
  "MeetsDifficulty hashHex difficulty =
     (let raw = (if HasPrefix hashHex ''0x'' then drop 2 hashHex else hashHex)
      in case hexDecode raw of
           None \<Rightarrow> False
         | Some b \<Rightarrow> if length b \<noteq> 32 then False else meetsLoop b (unat difficulty))"

partial_function (option) mineLoop ::
  "(bytes \<Rightarrow> bytes) \<Rightarrow> (u64 \<Rightarrow> bool) \<Rightarrow> PoWTicket \<Rightarrow> u64 \<Rightarrow> u64 \<Rightarrow> (aipow_error + PoWTicket) option" where
  "mineLoop sha256 ctxDone ticket maxNonce nonce =
     (if nonce \<le> maxNonce then
        if nonce AND 1023 = 0 \<and> ctxDone nonce then Some (Inl MiningCancelled)
        else
          let ticket = ticket\<lparr>tk_Nonce := nonce\<rparr>;
              ticket = ticket\<lparr>tk_WorkHash := CalculateWorkHash sha256 ticket\<rparr>
          in if MeetsDifficulty (tk_WorkHash ticket) (tk_Difficulty ticket) then Some (Inr ticket)
             else mineLoop sha256 ctxDone ticket maxNonce (nonce + 1)
      else Some (Inl (NoNonceFound (maxNonce + 1))))"

definition Mine :: "(bytes \<Rightarrow> bytes) \<Rightarrow> (u64 \<Rightarrow> bool) \<Rightarrow> PoWTicket \<Rightarrow> u64 \<Rightarrow> (aipow_error + PoWTicket) option" where
  "Mine sha256 ctxDone ticket maxNonce =
     (if tk_Height ticket = 0 \<or> tk_ParentHash ticket = [] \<or> tk_JobID ticket = [] \<or> tk_MinerID ticket = []
      then Some (Inl IncompleteChallenge)
      else mineLoop sha256 ctxDone ticket maxNonce 0)"

definition Ticket_Verify :: "(bytes \<Rightarrow> bytes) \<Rightarrow> PoWTicket \<Rightarrow> aipow_error + unit" where
  "Ticket_Verify sha256 ticket =
     (if CalculateWorkHash sha256 ticket \<noteq> tk_WorkHash ticket then Inl TicketHashMismatch
      else if \<not> MeetsDifficulty (tk_WorkHash ticket) (tk_Difficulty ticket) then Inl DifficultyNotMet
      else Inr ())"

definition SelectWinner :: "(bytes \<Rightarrow> bytes) \<Rightarrow> PoWTicket list \<Rightarrow> aipow_error + PoWTicket" where
  "SelectWinner sha256 tickets =
     (if tickets = [] then Inl NoTickets
      else bindE (forE (\<lambda>ticket. mapErr (InvalidTicket (tk_MinerID ticket)) (Ticket_Verify sha256 ticket)) tickets)
        (\<lambda>_. Inr (hd (sortSlice (\<lambda>t. (tk_WorkHash t, tk_MinerID t)) tickets))))"

end
