(* ===== verification/AIPoW_Laws.thy ===== *)
theory AIPoW_Laws
  imports AIPoW
begin

unbundle bit_operations_syntax

text \<open>
  Laws of mining and inference: the contract of a runner as an interface, met by both runners; the
  difficulty test as a bound on the hash value; the nonce search; the winner.
\<close>

section \<open>Runners\<close>

text \<open>
  A runner is deterministic, and its check accepts exactly the results whose canonical form has the
  same hash as the recomputed one.
\<close>

locale ai_runner =
  fixes sha256 :: "bytes \<Rightarrow> bytes" and run :: "AIJob \<Rightarrow> aipow_error + AIResult"
    and verify :: "AIJob \<Rightarrow> AIResult \<Rightarrow> aipow_error + unit" and canon :: "AIResult \<Rightarrow> AIResult"
  assumes verify_iff: "verify job result = Inr () \<longleftrightarrow>
      (\<exists>want. run job = Inr want \<and> HashJSON sha256 (result_json (canon want)) = HashJSON sha256 (result_json (canon result)))"
    and run_job: "run job = Inr result \<Longrightarrow> ar_JobID result = aj_ID job"
begin

lemma run_verifies: "run job = Inr result \<Longrightarrow> verify job result = Inr ()"
  by (auto simp: verify_iff)

text \<open>Two accepted results for a job agree up to the canonical form, or collide.\<close>

lemma accepted_agree:
  assumes "verify job r = Inr ()" "verify job r' = Inr ()"
  shows "canon r = canon r' \<or> json_marshal (result_json (canon r)) \<noteq> json_marshal (result_json (canon r'))
    \<and> copy32 (sha256 (json_marshal (result_json (canon r)))) = copy32 (sha256 (json_marshal (result_json (canon r'))))"
proof -
  have "HashJSON sha256 (result_json (canon r)) = HashJSON sha256 (result_json (canon r'))"
    using assms by (auto simp: verify_iff)
  then show ?thesis
    by (auto simp: HashJSON_def HashBytes_eq_iff json_marshal_inj result_json_inj)
qed

end

interpretation dummy: ai_runner sha256 "Dummy_Run sha256 root" "Dummy_Verify sha256 root" "\<lambda>r. r\<lparr>ar_ProofScheme := []\<rparr>" for sha256 root
  by unfold_locales (auto simp: Dummy_Verify_def Dummy_Run_def Let_def)

interpretation quantized: ai_runner sha256 "Quantized_Run sha256 root" "Quantized_Verify sha256 root" "\<lambda>r. r" for sha256 root
  by unfold_locales (auto simp: Quantized_Verify_def Quantized_Run_def Let_def split: prod.splits)

section \<open>Difficulty\<close>

lemma and_top_bits: "v AND push_bit k 0xff = 0 \<longleftrightarrow> unat v < 2 ^ k" if "k < 8" for v :: byte
proof -
  have minus1: "(0xff :: byte) = - 1" by code_simp
  have "push_bit k (0xff :: byte) = NOT (mask k)"
    unfolding minus1 by (rule push_bit_minus_one_eq_not_mask)
  then have "v AND push_bit k 0xff = 0 \<longleftrightarrow> take_bit k v = v"
    by (simp add: bit_eq_iff bit_simps) (metis bit_imp_le_length not_le)
  also have "\<dots> \<longleftrightarrow> unat v < 2 ^ k"
    by (simp add: word_unat_eq_iff unsigned_take_bit_eq take_bit_nat_eq_self_iff)
  finally show ?thesis .
qed

lemma meetsLoop_iff: "r \<le> 8 * length b \<Longrightarrow> meetsLoop b r \<longleftrightarrow> beValue b < 2 ^ (8 * length b - r)"
proof (induction b arbitrary: r)
  case (Cons v b)
  have p: "(256 :: nat) ^ length b = 2 ^ (8 * length b)" by (simp add: power_mult)
  have rest: "beValue b < 2 ^ (8 * length b)" using beValue_bound[of b] by (simp add: p)
  consider "r = 0" | "0 < r" "r < 8" | "8 \<le> r" by linarith
  then show ?case
  proof cases
    case 1
    then show ?thesis using beValue_bound[of "v # b"] by (simp add: power_mult power_add)
  next
    case 2
    have e: "(2 :: nat) ^ (8 * length (v # b) - r) = 2 ^ (8 - r) * 2 ^ (8 * length b)"
      using 2 by (simp flip: power_add)
    have "unat v * 2 ^ (8 * length b) + beValue b < 2 ^ (8 - r) * 2 ^ (8 * length b) \<longleftrightarrow> unat v < 2 ^ (8 - r)"
    proof
      assume "unat v * 2 ^ (8 * length b) + beValue b < 2 ^ (8 - r) * 2 ^ (8 * length b)"
      then have "unat v * 2 ^ (8 * length b) < 2 ^ (8 - r) * 2 ^ (8 * length b)" by linarith
      then show "unat v < 2 ^ (8 - r)" by simp
    next
      assume "unat v < 2 ^ (8 - r)"
      then have "Suc (unat v) * 2 ^ (8 * length b) \<le> 2 ^ (8 - r) * 2 ^ (8 * length b)" by (intro mult_le_mono1) simp
      then show "unat v * 2 ^ (8 * length b) + beValue b < 2 ^ (8 - r) * 2 ^ (8 * length b)" using rest by simp
    qed
    then show ?thesis using 2 e p and_top_bits[of "8 - r" v] by simp
  next
    case 3
    have e: "8 * length (v # b) - r = 8 * length b - (r - 8)" using 3 by simp
    show ?thesis
    proof (cases "v = 0")
      case True
      then show ?thesis using 3 Cons.IH[of "r - 8"] Cons.prems e by simp
    next
      case False
      then have "1 \<le> unat v" using unat_gt_0[of v] by simp
      then have "2 ^ (8 * length b) \<le> unat v * 2 ^ (8 * length b)" by simp
      moreover have "(2 :: nat) ^ (8 * length b - (r - 8)) \<le> 2 ^ (8 * length b)" by (rule power_increasing) simp_all
      ultimately have "\<not> unat v * 2 ^ (8 * length b) + beValue b < 2 ^ (8 * length b - (r - 8))" by linarith
      then have "\<not> beValue (v # b) < 2 ^ (8 * length (v # b) - r)" unfolding e using p by simp
      then show ?thesis using 3 False by simp
    qed
  qed
qed simp

lemma MeetsDifficulty_iff:
  assumes "length h = 32"
  shows "MeetsDifficulty (''0x'' @ hexEncode h) d \<longleftrightarrow> beValue h < 2 ^ (256 - unat d)"
proof -
  have "unat d < 256" using unsigned_less[of d, where 'a = nat] by simp
  then show ?thesis using meetsLoop_iff[of "unat d" h] assms by (simp add: MeetsDifficulty_def)
qed

section \<open>Work values\<close>

definition workDigest :: "(bytes \<Rightarrow> bytes) \<Rightarrow> PoWTicket \<Rightarrow> hash32" where
  "workDigest sha256 t = copy32 (sha256 (json_marshal (JObj [(''domain'', JStr ''AIDCHAIN_AI_POW_V1''),
     (''ticket'', ticket_json (t\<lparr>tk_WorkHash := [], tk_Signature := []\<rparr>))])))"

definition workValue :: "(bytes \<Rightarrow> bytes) \<Rightarrow> PoWTicket \<Rightarrow> nat" where
  "workValue sha256 t = beValue (workDigest sha256 t)"

lemma length_workDigest [simp]: "length (workDigest sha256 t) = 32"
  by (simp add: workDigest_def)

lemma beValue_zeros [simp]: "beValue (replicate n 0) = 0"
  by (induction n) simp_all

lemma hexDigit_less: "m < 16 \<Longrightarrow> n < 16 \<Longrightarrow> hexDigit m < hexDigit n \<longleftrightarrow> m < n"
  by (auto simp: hexDigit_def less_char_def)

lemma hexDigit_eq: "m < 16 \<Longrightarrow> n < 16 \<Longrightarrow> hexDigit m = hexDigit n \<longleftrightarrow> m = n"
  by (metis hexVal_hexDigit option.inject)

lemma digit_order:
  "(m :: nat) < n \<longleftrightarrow> m div 16 < n div 16 \<or> m div 16 = n div 16 \<and> m mod 16 < n mod 16"
proof -
  have "16 * a + r < 16 * c + s \<longleftrightarrow> a < c \<or> a = c \<and> r < s" if "r < 16" "s < 16" for a r c s :: nat
    using that by arith
  from this[of "m mod 16" "n mod 16" "m div 16" "n div 16"] show ?thesis by simp
qed

lemma hexEncode_le: "length a = length b \<Longrightarrow> hexEncode a \<le> hexEncode b \<longleftrightarrow> beValue a \<le> beValue b"
proof (induction a b rule: list_induct2)
  case (Cons x xs y ys)
  have d: "unat x div 16 < 16" "unat y div 16 < 16" by simp_all
  have order: "x < y \<longleftrightarrow> unat x div 16 < unat y div 16 \<or> unat x div 16 = unat y div 16 \<and> unat x mod 16 < unat y mod 16"
    unfolding word_less_nat_alt
    by (rule digit_order)
  have eq: "x = y \<longleftrightarrow> unat x div 16 = unat y div 16 \<and> unat x mod 16 = unat y mod 16"
    by (metis div_mult_mod_eq word_unat_eq_iff)
  have le: "hexEncode (x # xs) \<le> hexEncode (y # ys) \<longleftrightarrow> x < y \<or> x = y \<and> hexEncode xs \<le> hexEncode ys"
    using d by (auto simp: order eq hexDigit_less hexDigit_eq)
  have lt: "unat u * 256 ^ length us + beValue us < unat v * 256 ^ length us + beValue vs"
    if "u < v" "length us = length vs" for u v :: byte and us vs
  proof -
    have "(unat u + 1) * 256 ^ length us \<le> unat v * 256 ^ length us"
      using that(1) by (intro mult_le_mono1) (simp add: word_less_nat_alt)
    then show ?thesis using beValue_bound[of us] by (simp add: algebra_simps)
  qed
  show ?case
    unfolding le using Cons.IH Cons.hyps lt[of x y xs ys] lt[of y x ys xs]
    by (cases x y rule: linorder_cases) auto
qed simp

lemma CalculateWorkHash_eq: "CalculateWorkHash sha256 t = ''0x'' @ hexEncode (workDigest sha256 t)"
  by (simp add: CalculateWorkHash_def HashJSON_def HashBytes_def workDigest_def)

lemma Ticket_Verify_ok:
  "Ticket_Verify sha256 t = Inr u \<longleftrightarrow> tk_WorkHash t = CalculateWorkHash sha256 t \<and> workValue sha256 t < 2 ^ (256 - unat (tk_Difficulty t))"
  using MeetsDifficulty_iff[OF length_workDigest, of sha256 t "tk_Difficulty t"]
  by (auto simp: Ticket_Verify_def CalculateWorkHash_eq workValue_def)

lemma WorkHash_le:
  assumes "Ticket_Verify sha256 s = Inr ()" "Ticket_Verify sha256 t = Inr ()"
  shows "tk_WorkHash s \<le> tk_WorkHash t \<longleftrightarrow> workValue sha256 s \<le> workValue sha256 t"
  using assms hexEncode_le by (simp add: Ticket_Verify_ok CalculateWorkHash_eq workValue_def)

section \<open>The nonce search\<close>

text \<open>The ticket with a nonce and the work hash for it.\<close>

definition withNonce :: "(bytes \<Rightarrow> bytes) \<Rightarrow> PoWTicket \<Rightarrow> u64 \<Rightarrow> PoWTicket" where
  "withNonce sha256 t n = (let t = t\<lparr>tk_Nonce := n\<rparr> in t\<lparr>tk_WorkHash := CalculateWorkHash sha256 t\<rparr>)"

definition nonceWorks :: "(bytes \<Rightarrow> bytes) \<Rightarrow> PoWTicket \<Rightarrow> u64 \<Rightarrow> bool" where
  "nonceWorks sha256 t n \<longleftrightarrow> MeetsDifficulty (tk_WorkHash (withNonce sha256 t n)) (tk_Difficulty t)"

lemma CalculateWorkHash_ignores [simp]:
  "CalculateWorkHash sha256 (t\<lparr>tk_WorkHash := w\<rparr>) = CalculateWorkHash sha256 t"
  by (simp add: CalculateWorkHash_def)

lemma withNonce_simps [simp]:
  "withNonce sha256 (t\<lparr>tk_WorkHash := w\<rparr>) n = withNonce sha256 t n" "withNonce sha256 (withNonce sha256 t m) n = withNonce sha256 t n"
  "tk_WorkHash (withNonce sha256 t n) = CalculateWorkHash sha256 (t\<lparr>tk_Nonce := n\<rparr>)"
  "tk_Difficulty (withNonce sha256 t n) = tk_Difficulty t" "tk_Nonce (withNonce sha256 t n) = n"
  by (simp_all add: withNonce_def Let_def CalculateWorkHash_def)

lemma nonceWorks_withNonce [simp]: "nonceWorks sha256 (withNonce sha256 t m) = nonceWorks sha256 t"
  by (simp add: nonceWorks_def fun_eq_iff)

lemma mineLoop_step:
  "mineLoop sha256 ctxDone t maxNonce n =
     (if n \<le> maxNonce then
        if n AND 1023 = 0 \<and> ctxDone n then Some (Inl MiningCancelled)
        else if nonceWorks sha256 t n then Some (Inr (withNonce sha256 t n))
        else mineLoop sha256 ctxDone (withNonce sha256 t n) maxNonce (n + 1)
      else Some (Inl (NoNonceFound (maxNonce + 1))))"
  by (subst mineLoop.simps) (simp add: withNonce_def nonceWorks_def Let_def)

lemma mineLoop_found:
  assumes "mineLoop sha256 ctxDone t maxNonce n = Some (Inr t')"
  shows "\<exists>m \<le> maxNonce. t' = withNonce sha256 t m \<and> nonceWorks sha256 t m"
proof -
  have "Inr t' = (Inr t' :: aipow_error + PoWTicket) \<longrightarrow> (\<exists>m \<le> maxNonce. t' = withNonce sha256 t m \<and> nonceWorks sha256 t m)"
  proof (rule mineLoop.raw_induct[where P = "\<lambda>sha256 ctxDone t maxNonce n r. r = Inr t' \<longrightarrow>
      (\<exists>m \<le> maxNonce. t' = withNonce sha256 t m \<and> nonceWorks sha256 t m)", OF _ assms])
    fix f :: "(bytes \<Rightarrow> bytes) \<Rightarrow> (u64 \<Rightarrow> bool) \<Rightarrow> PoWTicket \<Rightarrow> u64 \<Rightarrow> u64 \<Rightarrow> (aipow_error + PoWTicket) option"
      and sha256 ctxDone t maxNonce n r
    assume IH: "\<And>sha256 ctxDone t maxNonce n r. f sha256 ctxDone t maxNonce n = Some r \<Longrightarrow> r = Inr t' \<longrightarrow>
        (\<exists>m \<le> maxNonce. t' = withNonce sha256 t m \<and> nonceWorks sha256 t m)"
      and eq: "(if n \<le> maxNonce then if n AND 1023 = 0 \<and> ctxDone n then Some (Inl MiningCancelled)
        else let ticket = t\<lparr>tk_Nonce := n\<rparr>; ticket = ticket\<lparr>tk_WorkHash := CalculateWorkHash sha256 ticket\<rparr>
          in if MeetsDifficulty (tk_WorkHash ticket) (tk_Difficulty ticket) then Some (Inr ticket)
             else f sha256 ctxDone ticket maxNonce (n + 1)
        else Some (Inl (NoNonceFound (maxNonce + 1)))) = Some r"
    let ?t = "withNonce sha256 t n"
    have t: "t\<lparr>tk_Nonce := n, tk_WorkHash := CalculateWorkHash sha256 (t\<lparr>tk_Nonce := n\<rparr>)\<rparr> = ?t"
      by (simp add: withNonce_def Let_def)
    have "n \<le> maxNonce" "(if nonceWorks sha256 t n then Some (Inr ?t) else f sha256 ctxDone ?t maxNonce (n + 1)) = Some r" if "r = Inr t'"
      using eq that by (auto simp: Let_def t nonceWorks_def split: if_splits)
    then show "r = Inr t' \<longrightarrow> (\<exists>m \<le> maxNonce. t' = withNonce sha256 t m \<and> nonceWorks sha256 t m)"
      using IH[of sha256 ctxDone ?t maxNonce "n + 1" r] by (auto split: if_splits)
  qed
  then show ?thesis by simp
qed

text \<open>
  The loop returns when the bound is below the largest \<open>uint64\<close>, or when some nonce from here on
  works; the first such nonce is the one it finds, unless the context is cancelled.
\<close>

lemma mineLoop_returns:
  assumes "n \<le> m" "m \<le> maxNonce" "nonceWorks sha256 t m \<or> maxNonce < - 1 \<and> m = maxNonce"
  shows "\<exists>r. mineLoop sha256 ctxDone t maxNonce n = Some r"
  using assms
proof (induction "unat m - unat n" arbitrary: n t)
  case 0
  then have "n = m" by (simp add: word_le_nat_alt word_unat_eq_iff)
  show ?case
  proof (cases "nonceWorks sha256 t m")
    case False
    then have "maxNonce < - 1" "m = maxNonce" using "0.prems"(3) by auto
    then have "\<not> n + 1 \<le> maxNonce" using \<open>n = m\<close> unat_suc[of n "- 1"] by (simp add: word_le_nat_alt)
    then show ?thesis
      by (subst mineLoop_step, subst mineLoop_step) simp
  qed (subst mineLoop_step, use \<open>n = m\<close> "0.prems" in simp)
next
  case (Suc k)
  then have "n < m" by (simp add: word_less_nat_alt)
  then have n1: "unat (n + 1) = unat n + 1" "n + 1 \<le> m"
    using unsigned_less[of m, where 'a = nat] by (auto simp: word_less_nat_alt word_le_nat_alt unat_word_ariths)
  have "\<exists>r. mineLoop sha256 ctxDone (withNonce sha256 t n) maxNonce (n + 1) = Some r"
    by (rule Suc.hyps(1)) (use Suc.hyps(2) Suc.prems n1 in auto)
  then show ?case by (subst mineLoop_step) simp
qed

lemma mineLoop_gives_up:
  assumes "mineLoop sha256 ctxDone t maxNonce n = Some (Inl e)"
  shows "(\<exists>m. ctxDone m) \<or> (\<exists>m. \<not> m \<le> maxNonce)"
proof -
  have "Inl e = (Inl e :: aipow_error + PoWTicket) \<longrightarrow> (\<exists>m. ctxDone m) \<or> (\<exists>m. \<not> m \<le> maxNonce)"
  proof (rule mineLoop.raw_induct[where P = "\<lambda>sha256 ctxDone t maxNonce n r. r = Inl e \<longrightarrow>
      (\<exists>m. ctxDone m) \<or> (\<exists>m. \<not> m \<le> maxNonce)", OF _ assms])
    fix f :: "(bytes \<Rightarrow> bytes) \<Rightarrow> (u64 \<Rightarrow> bool) \<Rightarrow> PoWTicket \<Rightarrow> u64 \<Rightarrow> u64 \<Rightarrow> (aipow_error + PoWTicket) option"
      and sha256 ctxDone t maxNonce n r
    assume IH: "\<And>sha256 ctxDone t maxNonce n r. f sha256 ctxDone t maxNonce n = Some r \<Longrightarrow> r = Inl e \<longrightarrow>
        (\<exists>m. ctxDone m) \<or> (\<exists>m. \<not> m \<le> maxNonce)"
      and eq: "(if n \<le> maxNonce then if n AND 1023 = 0 \<and> ctxDone n then Some (Inl MiningCancelled)
        else let ticket = t\<lparr>tk_Nonce := n\<rparr>; ticket = ticket\<lparr>tk_WorkHash := CalculateWorkHash sha256 ticket\<rparr>
          in if MeetsDifficulty (tk_WorkHash ticket) (tk_Difficulty ticket) then Some (Inr ticket)
             else f sha256 ctxDone ticket maxNonce (n + 1)
        else Some (Inl (NoNonceFound (maxNonce + 1)))) = Some r"
    then show "r = Inl e \<longrightarrow> (\<exists>m. ctxDone m) \<or> (\<exists>m. \<not> m \<le> maxNonce)"
      by (fastforce simp: Let_def split: if_splits)
  qed
  then show ?thesis by simp
qed

section \<open>Properties\<close>

text \<open>
  C16: A mined ticket is valid: the search changes nothing of the challenge but nonce and work hash,
  stays within the nonce bound, and its result passes \<open>Verify\<close>, which means that the work hash read
  as a number is below \<open>2^(256 - difficulty)\<close>.
\<close>

theorem mined_ticket_valid:
  assumes "Mine sha256 ctxDone ticket maxNonce = Some (Inr t)"
  shows "Ticket_Verify sha256 t = Inr () \<and> tk_Nonce t \<le> maxNonce
    \<and> t\<lparr>tk_Nonce := tk_Nonce ticket, tk_WorkHash := tk_WorkHash ticket\<rparr> = ticket
    \<and> workValue sha256 t < 2 ^ (256 - unat (tk_Difficulty ticket))"
proof -
  obtain m where m: "m \<le> maxNonce" "t = withNonce sha256 ticket m" "nonceWorks sha256 ticket m"
    using assms mineLoop_found by (fastforce simp: Mine_def split: if_splits)
  have "tk_WorkHash t = CalculateWorkHash sha256 t" using m(2) by (simp add: withNonce_def Let_def)
  then have "Ticket_Verify sha256 t = Inr ()" using m by (simp add: Ticket_Verify_def nonceWorks_def)
  moreover have "tk_Difficulty t = tk_Difficulty ticket" using m(2) by simp
  moreover have "t\<lparr>tk_Nonce := tk_Nonce ticket, tk_WorkHash := tk_WorkHash ticket\<rparr> = ticket"
    using m(2) by (simp add: withNonce_def Let_def)
  ultimately show ?thesis using m(1,2) Ticket_Verify_ok by auto
qed

theorem mined_ticket_valid_witness:
  "\<exists>t. Mine (\<lambda>_. replicate 32 0) (\<lambda>_. False) (sampleTicket ''a'') 10 = Some (Inr t) \<and> Ticket_Verify (\<lambda>_. replicate 32 0) t = Inr ()"
proof -
  have "nonceWorks (\<lambda>_. replicate 32 0) (sampleTicket ''a'') 0"
    using MeetsDifficulty_iff[of "replicate 32 0" 4]
    by (simp add: nonceWorks_def sampleTicket_def CalculateWorkHash_eq workDigest_def)
  moreover have "tk_JobID (sampleTicket ''a'') \<noteq> []"
    by (simp add: sampleTicket_def blockJob_def NewAIJob_def jobID_def HashJSON_def)
  moreover have "tk_Height (sampleTicket ''a'') \<noteq> 0" "tk_ParentHash (sampleTicket ''a'') \<noteq> []" "tk_MinerID (sampleTicket ''a'') \<noteq> []"
    by (simp_all add: sampleTicket_def GenesisHash_def)
  ultimately have "Mine (\<lambda>_. replicate 32 0) (\<lambda>_. False) (sampleTicket ''a'') 10 =
      Some (Inr (withNonce (\<lambda>_. replicate 32 0) (sampleTicket ''a'') 0))"
    by (simp add: Mine_def mineLoop_step)
  from mined_ticket_valid[OF this] this show ?thesis by blast
qed

text \<open>
  C17: When the nonce search ends. If it is never cancelled, mining returns exactly when the
  challenge is incomplete, the nonce bound is below the largest \<open>uint64\<close>, or some nonce works; with
  the largest bound and no working nonce the counter wraps around and the loop never ends.
\<close>

theorem mining_returns_iff:
  assumes "\<forall>n. \<not> ctxDone n"
  shows "(\<exists>r. Mine sha256 ctxDone ticket maxNonce = Some r) \<longleftrightarrow>
    tk_Height ticket = 0 \<or> tk_ParentHash ticket = [] \<or> tk_JobID ticket = [] \<or> tk_MinerID ticket = []
    \<or> maxNonce \<noteq> - 1 \<or> (\<exists>n. nonceWorks sha256 ticket n)"
proof -
  have "(\<exists>r. mineLoop sha256 ctxDone ticket maxNonce 0 = Some r) \<longleftrightarrow> maxNonce \<noteq> - 1 \<or> (\<exists>n. nonceWorks sha256 ticket n)"
    (is "?L \<longleftrightarrow> ?R")
  proof
    assume ?L
    then obtain r where r: "mineLoop sha256 ctxDone ticket maxNonce 0 = Some r" by blast
    show ?R
    proof (cases r)
      case (Inl e)
      then show ?thesis using mineLoop_gives_up r assms by force
    next
      case (Inr t)
      then show ?thesis using mineLoop_found r by blast
    qed
  next
    assume ?R
    then consider "maxNonce < - 1" | n where "maxNonce = - 1" "nonceWorks sha256 ticket n"
      by (metis word_order.not_eq_extremum)
    then show ?L
    proof cases
      case 1
      then show ?thesis using mineLoop_returns[of 0 maxNonce maxNonce] by simp
    next
      case 2
      then show ?thesis using mineLoop_returns[of 0 n maxNonce] by simp
    qed
  qed
  then show ?thesis by (auto simp: Mine_def)
qed

theorem mining_returns_iff_witness:
  "\<exists>r. Mine (\<lambda>_. replicate 32 255) (\<lambda>_. False) (sampleTicket ''a'') 10 = Some r"
  using mining_returns_iff[of "\<lambda>_. False" "\<lambda>_. replicate 32 255" "sampleTicket ''a''" 10] by simp

text \<open>
  C18: The winner is a submitted, valid ticket with the numerically smallest work, ties broken by
  the miner's name; with one ticket per miner the order of submission does not matter.
\<close>

theorem winner_smallest:
  assumes "SelectWinner sha256 tickets = Inr w"
  shows "w \<in> set tickets \<and> Ticket_Verify sha256 w = Inr ()
    \<and> (\<forall>t \<in> set tickets. workValue sha256 w < workValue sha256 t
         \<or> workValue sha256 w = workValue sha256 t \<and> tk_MinerID w \<le> tk_MinerID t)
    \<and> (distinct (map tk_MinerID tickets) \<and> mset tickets' = mset tickets \<longrightarrow> SelectWinner sha256 tickets' = Inr w)"
proof -
  let ?k = "\<lambda>t. (tk_WorkHash t, tk_MinerID t)"
  have ne: "tickets \<noteq> []" and ok: "\<forall>t \<in> set tickets. Ticket_Verify sha256 t = Inr ()"
    and w: "w = hd (sortSlice ?k tickets)"
    using assms by (auto simp: SelectWinner_def split: if_splits)
  then have ne': "sortSlice ?k tickets \<noteq> []" by (metis length_0_conv sortSlice_laws(3))
  then have mem: "w \<in> set tickets" using w hd_in_set[of "sortSlice ?k tickets"] by simp
  have least: "?k w \<le> ?k t" if "t \<in> set tickets" for t
  proof -
    have "sorted (map ?k (sortSlice ?k tickets))" "t \<in> set (sortSlice ?k tickets)" using that by simp_all
    then show ?thesis using ne' w by (cases "sortSlice ?k tickets") auto
  qed
  have num: "workValue sha256 w < workValue sha256 t \<or> workValue sha256 w = workValue sha256 t \<and> tk_MinerID w \<le> tk_MinerID t"
    if t: "t \<in> set tickets" for t
  proof -
    have "tk_WorkHash w \<le> tk_WorkHash t" using least[OF t] by (auto simp: less_eq_prod_def)
    then have le: "workValue sha256 w \<le> workValue sha256 t" using WorkHash_le ok mem t by blast
    show ?thesis
    proof (cases "workValue sha256 w = workValue sha256 t")
      case True
      then have "tk_WorkHash t \<le> tk_WorkHash w" using WorkHash_le[of sha256 t w] ok mem t by simp
      then show ?thesis using True least[OF t] by (auto simp: less_eq_prod_def)
    qed (use le in simp)
  qed
  have "SelectWinner sha256 tickets' = Inr w" if d: "distinct (map tk_MinerID tickets)" "mset tickets' = mset tickets"
  proof -
    have "inj_on ?k (set tickets)" "distinct tickets" using d(1) by (auto simp: distinct_map inj_on_def)
    then have "sortSlice ?k tickets' = sortSlice ?k tickets" using sortSlice_perm_unique[of tickets tickets' ?k] d(2) by simp
    moreover have "set tickets' = set tickets" using d(2) by (metis set_mset_mset)
    moreover have "tickets' \<noteq> []" using d(2) ne by auto
    ultimately show ?thesis using ok w by (simp add: SelectWinner_def)
  qed
  then show ?thesis using mem ok num by blast
qed

theorem winner_smallest_witness:
  "\<exists>w. SelectWinner (\<lambda>_. replicate 32 0) [withNonce (\<lambda>_. replicate 32 0) (sampleTicket ''a'') 0] = Inr w
    \<and> Ticket_Verify (\<lambda>_. replicate 32 0) w = Inr ()"
proof -
  let ?t = "withNonce (\<lambda>_. replicate 32 0) (sampleTicket ''a'') 0"
  have "Ticket_Verify (\<lambda>_. replicate 32 0) ?t = Inr ()"
    by (simp add: Ticket_Verify_ok workValue_def workDigest_def) (simp add: withNonce_def Let_def)
  then have "SelectWinner (\<lambda>_. replicate 32 0) [?t] = Inr ?t" by (simp add: SelectWinner_def sortSlice_def)
  from winner_smallest[OF this] this show ?thesis by blast
qed

text \<open>
  Inference is reproducible: what a runner returns passes its own check, and two results that
  the check of the dummy runner accepts for one job agree in every field but the proof scheme, or
  their JSON texts are a SHA-256 collision.
\<close>

theorem dummy_results_agree:
  assumes "Dummy_Verify sha256 root job r = Inr ()" "Dummy_Verify sha256 root job r' = Inr ()"
  shows "r\<lparr>ar_ProofScheme := []\<rparr> = r'\<lparr>ar_ProofScheme := []\<rparr>
    \<or> json_marshal (result_json (r\<lparr>ar_ProofScheme := []\<rparr>)) \<noteq> json_marshal (result_json (r'\<lparr>ar_ProofScheme := []\<rparr>))
      \<and> copy32 (sha256 (json_marshal (result_json (r\<lparr>ar_ProofScheme := []\<rparr>))))
        = copy32 (sha256 (json_marshal (result_json (r'\<lparr>ar_ProofScheme := []\<rparr>))))"
  using dummy.accepted_agree[OF assms] .

theorem dummy_results_agree_witness:
  "\<exists>r. Dummy_Run (\<lambda>_. replicate 32 1) [] blockJob = Inr r \<and> Dummy_Verify (\<lambda>_. replicate 32 1) [] blockJob r = Inr ()
    \<and> r\<lparr>ar_ProofScheme := []\<rparr> = r\<lparr>ar_ProofScheme := []\<rparr>"
proof -
  have "aj_ID blockJob \<noteq> []" "aj_Model blockJob \<noteq> []" "aj_Prompt blockJob \<noteq> []"
    by (simp_all add: blockJob_def NewAIJob_def jobID_def HashJSON_def)
  then obtain r where r: "Dummy_Run (\<lambda>_. replicate 32 1) [] blockJob = Inr r" by (simp add: Dummy_Run_def Let_def)
  then have v: "Dummy_Verify (\<lambda>_. replicate 32 1) [] blockJob r = Inr ()" by (rule dummy.run_verifies)
  from dummy_results_agree[OF v v] v r show ?thesis by blast
qed

end
