(* ===== verification/Storage.thy ===== *)
theory Storage
  imports Protocol_Laws
begin

text \<open>
  The content-addressed object store (\<open>internal/storage/store.go\<close>): an in-memory map with an
  optional directory behind it. The directory is the field \<open>st_disk\<close>, a map from file names to
  contents; other processes may change it between calls, so the laws hold for every directory.
  Whether the calls to the operating system that create and write a file succeed is an argument of
  the operations; a file that cannot be read is one that is not in the map.

  The locale \<open>content_store\<close> is the contract the HTTP layer relies on; its client lemma follows an
  object through any further sequence of operations.
\<close>

record Store =
  st_objects :: "string \<rightharpoonup> bytes"
  st_dir :: string
  st_maxBytes :: int
  st_disk :: "string \<rightharpoonup> bytes"

datatype store_error = ObjectSizeInvalid | MkdirFailed | WriteFailed

definition Store_New :: "bool \<Rightarrow> string \<Rightarrow> int \<Rightarrow> (string \<rightharpoonup> bytes) \<Rightarrow> store_error + Store" where
  "Store_New mkdirOK dir maxBytes disk =
     (let maxBytes = (if maxBytes \<le> 0 then 16777216 else maxBytes) in
      if dir \<noteq> [] \<and> \<not> mkdirOK then Inl MkdirFailed
      else Inr \<lparr>st_objects = Map.empty, st_dir = dir, st_maxBytes = maxBytes, st_disk = disk\<rparr>)"

text \<open>An existing file of that name is left as it is.\<close>

definition writeAtomic ::
  "bool \<Rightarrow> (string \<rightharpoonup> bytes) \<Rightarrow> string \<Rightarrow> bytes \<Rightarrow> store_error + (string \<rightharpoonup> bytes)" where
  "writeAtomic osOK disk path data =
     (if \<not> osOK then Inl WriteFailed
      else if disk path \<noteq> None then Inr disk
      else Inr (disk(path \<mapsto> data)))"

definition Put :: "(bytes \<Rightarrow> bytes) \<Rightarrow> bool \<Rightarrow> Store \<Rightarrow> bytes \<Rightarrow> Store \<times> (store_error + string)" where
  "Put sha256 osOK s data =
     (if length data = 0 \<or> int (length data) > st_maxBytes s then (s, Inl ObjectSizeInvalid)
      else
        let ident = ''0x'' @ hexEncode (copy32 (sha256 data));
            s = s\<lparr>st_objects := (st_objects s)(ident \<mapsto> data)\<rparr>
        in if st_dir s \<noteq> [] then
             (case writeAtomic osOK (st_disk s) (drop 2 ident) data of
                Inl e \<Rightarrow> (s, Inl e)
              | Inr disk \<Rightarrow> (s\<lparr>st_disk := disk\<rparr>, Inr ident))
           else (s, Inr ident))"

definition normalizeID :: "string \<Rightarrow> string" where
  "normalizeID ident =
     (let ident = ToLower (TrimSpace ident) in if \<not> HasPrefix ident ''0x'' then ''0x'' @ ident else ident)"

definition validID :: "string \<Rightarrow> bool" where
  "validID ident = (length ident = 66 \<and> HasPrefix ident ''0x'' \<and> hexDecode (drop 2 ident) \<noteq> None)"

definition Get :: "(bytes \<Rightarrow> bytes) \<Rightarrow> Store \<Rightarrow> string \<Rightarrow> Store \<times> bytes option" where
  "Get sha256 s ident =
     (let ident = normalizeID ident in
      case st_objects s ident of
        Some data \<Rightarrow> (s, Some data)
      | None \<Rightarrow>
          if st_dir s = [] \<or> \<not> validID ident then (s, None)
          else case st_disk s (drop 2 ident) of
                 None \<Rightarrow> (s, None)
               | Some data \<Rightarrow>
                   if int (length data) > st_maxBytes s then (s, None)
                   else if ident \<noteq> ''0x'' @ hexEncode (copy32 (sha256 data)) then (s, None)
                   else (s\<lparr>st_objects := (st_objects s)(ident \<mapsto> data)\<rparr>, Some data))"

section \<open>Laws\<close>

lemma normalizeID_hash [simp]: "normalizeID (HashBytes sha256 d) = HashBytes sha256 d"
  using normalizeHex_formatHash by (simp add: normalizeID_def HashBytes_def formatHash_def)

lemma validID_hash [simp]: "validID (HashBytes sha256 d)"
  by (simp add: validID_def HashBytes_def)

text \<open>Every object in memory is stored under its own hash.\<close>

definition addressed :: "(bytes \<Rightarrow> bytes) \<Rightarrow> Store \<Rightarrow> bool" where
  "addressed sha256 s \<longleftrightarrow> (\<forall>ident d. st_objects s ident = Some d \<longrightarrow> ident = HashBytes sha256 d)"

lemma Put_simp:
  "Put sha256 osOK s d =
     (if d = [] \<or> int (length d) > st_maxBytes s then (s, Inl ObjectSizeInvalid)
      else
        let s' = s\<lparr>st_objects := (st_objects s)(HashBytes sha256 d \<mapsto> d)\<rparr>
        in if st_dir s = [] then (s', Inr (HashBytes sha256 d))
           else if \<not> osOK then (s', Inl WriteFailed)
           else (s'\<lparr>st_disk := (if st_disk s (drop 2 (HashBytes sha256 d)) = None
                   then (st_disk s)(drop 2 (HashBytes sha256 d) \<mapsto> d) else st_disk s)\<rparr>, Inr (HashBytes sha256 d)))"
  by (auto simp: Put_def HashBytes_def writeAtomic_def Let_def)

lemma Put_succeeds:
  "osOK \<Longrightarrow> d \<noteq> [] \<Longrightarrow> int (length d) \<le> st_maxBytes s \<Longrightarrow> \<exists>s'. Put sha256 osOK s d = (s', Inr (HashBytes sha256 d))"
  by (simp add: Put_simp Let_def)

lemma Get_simp:
  "Get sha256 s ident =
     (case st_objects s (normalizeID ident) of
        Some d \<Rightarrow> (s, Some d)
      | None \<Rightarrow>
          (case st_disk s (drop 2 (normalizeID ident)) of
             Some d \<Rightarrow>
               if st_dir s \<noteq> [] \<and> validID (normalizeID ident) \<and> int (length d) \<le> st_maxBytes s
                   \<and> normalizeID ident = HashBytes sha256 d
               then (s\<lparr>st_objects := (st_objects s)(normalizeID ident \<mapsto> d)\<rparr>, Some d) else (s, None)
           | None \<Rightarrow> (s, None)))"
  by (auto simp: Get_def HashBytes_def Let_def split: option.splits)

section \<open>The contract\<close>

text \<open>
  What a client sees: \<open>put\<close> and \<open>get\<close> with the state they leave. \<open>foreign\<close> is a change another
  process makes behind the store's back. The objects in memory are \<open>held\<close>.
\<close>

datatype storeOp = OpPut bool bytes | OpGet string | OpForeign "string \<rightharpoonup> bytes"

locale content_store =
  fixes hash :: "bytes \<Rightarrow> string"
    and norm :: "string \<Rightarrow> string"
    and put :: "bool \<Rightarrow> 's \<Rightarrow> bytes \<Rightarrow> 's \<times> (store_error + string)"
    and get :: "'s \<Rightarrow> string \<Rightarrow> 's \<times> bytes option"
    and foreign :: "(string \<rightharpoonup> bytes) \<Rightarrow> 's \<Rightarrow> 's"
    and inv :: "'s \<Rightarrow> bool"
    and held :: "'s \<Rightarrow> string \<Rightarrow> bytes option"
  assumes put_inv: "inv s \<Longrightarrow> inv (fst (put ok s d))"
    and get_inv: "inv s \<Longrightarrow> inv (fst (get s i))"
    and foreign_inv: "inv s \<Longrightarrow> inv (foreign m s)"
    and put_held: "snd (put ok s d) = Inr i \<Longrightarrow> i = hash d \<and> held (fst (put ok s d)) i = Some d"
    and put_other: "held s i = Some d \<Longrightarrow>
      held (fst (put ok s e)) i = Some d \<or> held (fst (put ok s e)) i = Some e \<and> i = hash e"
    and get_held: "held s i = Some d \<Longrightarrow> held (fst (get s j)) i = Some d"
    and foreign_held: "held (foreign m s) = held s"
    and held_get: "held s (norm i) = Some d \<Longrightarrow> snd (get s i) = Some d"
    and held_hash: "inv s \<Longrightarrow> held s i = Some d \<Longrightarrow> i = hash d"
    and get_hash: "inv s \<Longrightarrow> snd (get s i) = Some d \<Longrightarrow> norm i = hash d"
    and norm_hash: "norm (hash d) = hash d"
begin

definition step :: "'s \<Rightarrow> storeOp \<Rightarrow> 's" where
  "step s op = (case op of OpPut ok d \<Rightarrow> fst (put ok s d) | OpGet i \<Rightarrow> fst (get s i) | OpForeign m \<Rightarrow> foreign m s)"

definition run :: "'s \<Rightarrow> storeOp list \<Rightarrow> 's" where
  "run s ops = foldl step s ops"

lemma step_inv: "inv s \<Longrightarrow> inv (step s op)"
  by (cases op) (auto simp: step_def put_inv get_inv foreign_inv)

lemma run_inv: "inv s \<Longrightarrow> inv (run s ops)"
  unfolding run_def by (induction ops arbitrary: s) (auto simp: step_inv)

lemma step_held:
  assumes "held s i = Some d"
  shows "held (step s op) i = Some d
    \<or> (\<exists>ok e. op = OpPut ok e \<and> held (step s op) i = Some e \<and> i = hash e)"
  using assms put_other get_held foreign_held by (cases op) (auto simp: step_def)

lemma run_held:
  assumes "inv s" "held s i = Some d"
  shows "\<exists>e. held (run s ops) i = Some e \<and> hash e = hash d \<and> (e = d \<or> (\<exists>ok. OpPut ok e \<in> set ops))"
  using assms
proof (induction ops arbitrary: s d)
  case (Cons op ops)
  obtain e where e: "held (step s op) i = Some e" "e = d \<or> (\<exists>ok. op = OpPut ok e)"
    using step_held[OF Cons.prems(2), of op] by auto
  have "hash e = hash d"
    using held_hash[OF step_inv[OF Cons.prems(1)] e(1)] held_hash[OF Cons.prems] by metis
  with Cons.IH[OF step_inv[OF Cons.prems(1)] e(1)] e(2) show ?case by (auto simp: run_def)
qed (simp add: run_def)

text \<open>What was put stays retrievable, and only a second preimage that was also put can take its place.\<close>

lemma put_run_get:
  assumes "inv s" "put ok s d = (s', Inr i)"
  shows "i = hash d \<and> (\<exists>e. snd (get (run s' ops) i) = Some e \<and> hash e = hash d
    \<and> (e = d \<or> (\<exists>ok. OpPut ok e \<in> set ops)))"
proof -
  have i: "i = hash d" "held s' i = Some d" using put_held[of ok s d i] assms(2) by auto
  have "inv s'" using put_inv[OF assms(1), of ok d] assms(2) by simp
  then show ?thesis using run_held[OF _ i(2), of ops] held_get i(1) norm_hash by metis
qed

lemma run_get_sound: "inv s \<Longrightarrow> snd (get (run s ops) i) = Some d \<Longrightarrow> norm i = hash d"
  using get_hash run_inv by blast

end

definition foreignWrite :: "(string \<rightharpoonup> bytes) \<Rightarrow> Store \<Rightarrow> Store" where
  "foreignWrite disk s = s\<lparr>st_disk := disk\<rparr>"

interpretation cs: content_store "HashBytes sha256" normalizeID "Put sha256" "Get sha256" foreignWrite
    "addressed sha256" st_objects
  for sha256
proof unfold_locales
  fix s :: Store and ok d
  show "addressed sha256 s \<Longrightarrow> addressed sha256 (fst (Put sha256 ok s d))"
    by (auto simp: addressed_def Put_simp Let_def)
next
  fix s :: Store and i
  show "addressed sha256 s \<Longrightarrow> addressed sha256 (fst (Get sha256 s i))"
    by (auto simp: addressed_def Get_simp split: option.splits)
next
  fix s :: Store and ok d i
  show "snd (Put sha256 ok s d) = Inr i \<Longrightarrow> i = HashBytes sha256 d \<and> st_objects (fst (Put sha256 ok s d)) i = Some d"
    by (auto simp: Put_simp Let_def split: if_splits)
next
  fix s :: Store and i d j
  show "st_objects s i = Some d \<Longrightarrow> st_objects (fst (Get sha256 s j)) i = Some d"
    by (auto simp: Get_simp split: option.splits)
next
  fix s :: Store and i d
  show "addressed sha256 s \<Longrightarrow> snd (Get sha256 s i) = Some d \<Longrightarrow> normalizeID i = HashBytes sha256 d"
    by (auto simp: addressed_def Get_simp split: option.splits if_splits)
qed (auto simp: addressed_def foreignWrite_def Put_simp Get_simp Let_def)

text \<open>A sequence of operations on the store.\<close>

definition storeStep :: "(bytes \<Rightarrow> bytes) \<Rightarrow> Store \<Rightarrow> storeOp \<Rightarrow> Store" where
  "storeStep sha256 s op =
     (case op of OpPut osOK d \<Rightarrow> fst (Put sha256 osOK s d) | OpGet ident \<Rightarrow> fst (Get sha256 s ident)
               | OpForeign disk \<Rightarrow> foreignWrite disk s)"

definition storeRun :: "(bytes \<Rightarrow> bytes) \<Rightarrow> Store \<Rightarrow> storeOp list \<Rightarrow> Store" where
  "storeRun sha256 s ops = foldl (storeStep sha256) s ops"

lemma storeRun_eq: "storeRun sha256 s ops = cs.run sha256 s ops"
proof -
  have "storeStep sha256 = cs.step sha256" by (intro ext) (simp add: storeStep_def cs.step_def)
  then show ?thesis by (simp add: storeRun_def cs.run_def)
qed

lemma New_addressed: "Store_New mkdirOK dir maxBytes disk = Inr s \<Longrightarrow> addressed sha256 s"
  by (auto simp: Store_New_def addressed_def Let_def)

section \<open>Properties\<close>

text \<open>
  C20: Content addressing. A stored object is returned under its identifier, the hash of its
  contents, after any further sequence of puts, gets and changes of the directory by other
  processes; the only other answer possible is a different object with the same hash that was put
  since. And whatever the directory holds, \<open>Get\<close> only returns data whose hash is the identifier
  asked for.
\<close>

theorem store_content_addressed:
  assumes "Store_New mkdirOK dir maxBytes disk = Inr s0"
  shows "(\<forall>osOK d s' ident.
       Put sha256 osOK (storeRun sha256 s0 before) d = (s', Inr ident) \<longrightarrow>
         ident = HashBytes sha256 d \<and>
         (snd (Get sha256 (storeRun sha256 s' after) ident) = Some d
          \<or> (\<exists>e ok. OpPut ok e \<in> set after \<and> e \<noteq> d \<and> HashBytes sha256 e = HashBytes sha256 d)))
    \<and> (\<forall>ident d. snd (Get sha256 (storeRun sha256 s0 before) ident) = Some d \<longrightarrow> normalizeID ident = HashBytes sha256 d)"
  unfolding storeRun_eq
proof (intro conjI allI impI)
  fix osOK d s' ident
  note inv = New_addressed[OF assms, of sha256]
  assume put: "Put sha256 osOK (cs.run sha256 s0 before) d = (s', Inr ident)"
  note stored = cs.put_run_get[OF cs.run_inv[OF inv] put, of after]
  then show "ident = HashBytes sha256 d" by blast
  from stored show "snd (Get sha256 (cs.run sha256 s' after) ident) = Some d
      \<or> (\<exists>e ok. OpPut ok e \<in> set after \<and> e \<noteq> d \<and> HashBytes sha256 e = HashBytes sha256 d)"
    by blast
qed (rule cs.run_get_sound[OF New_addressed[OF assms]])

theorem store_content_addressed_witness:
  "snd (Get (copyN 32) (storeRun (copyN 32)
      (fst (Put (copyN 32) True \<lparr>st_objects = Map.empty, st_dir = ''d'', st_maxBytes = 16777216, st_disk = Map.empty\<rparr> [7]))
      [OpForeign Map.empty]) (HashBytes (copyN 32) [7])) = Some [7]"
proof -
  let ?s = "\<lparr>st_objects = Map.empty, st_dir = ''d'', st_maxBytes = 16777216, st_disk = Map.empty\<rparr> :: Store"
  have new: "Store_New True ''d'' 0 Map.empty = Inr ?s" by (simp add: Store_New_def)
  obtain s' where s': "Put (copyN 32) True ?s [7] = (s', Inr (HashBytes (copyN 32) [7]))"
    by (simp add: Put_simp Let_def)
  have "snd (Get (copyN 32) (storeRun (copyN 32) s' [OpForeign Map.empty]) (HashBytes (copyN 32) [7])) = Some [7]"
    using store_content_addressed[OF new, of "copyN 32" "[]" "[OpForeign Map.empty]", THEN conjunct1, rule_format, of True "[7]" s'] s'
    by (simp add: storeRun_def[of _ _ "[]"])
  then show ?thesis using s' by simp
qed

text \<open>
  C21: Durability, and its limit. After a successful \<open>Put\<close> into a store with a directory, a store
  that is opened on that directory later returns the object, unless a file of that name was there
  before the \<open>Put\<close>: such a file is kept as it is, so that a corrupt or oversized one makes the new
  store answer that the object does not exist, although \<open>Put\<close> reported success.
\<close>

theorem store_durability:
  assumes "Put sha256 osOK s d = (s', Inr ident)" "st_dir s \<noteq> []" "0 < st_maxBytes s"
    and "Store_New True (st_dir s) (st_maxBytes s) (st_disk s') = Inr reopened"
  shows "snd (Get sha256 reopened ident) =
    (case st_disk s (drop 2 ident) of
       None \<Rightarrow> Some d
     | Some old \<Rightarrow>
         if HashBytes sha256 old = ident \<and> int (length old) \<le> st_maxBytes s then Some old else None)"
proof -
  have r: "reopened = \<lparr>st_objects = Map.empty, st_dir = st_dir s, st_maxBytes = st_maxBytes s, st_disk = st_disk s'\<rparr>"
    using assms(3,4) by (auto simp: Store_New_def Let_def)
  have "ident = HashBytes sha256 d" "int (length d) \<le> st_maxBytes s"
    "st_disk s' = (if st_disk s (drop 2 ident) = None then (st_disk s)(drop 2 ident \<mapsto> d) else st_disk s)"
    using assms(1,2) by (auto simp: Put_simp Let_def split: if_splits)
  then show ?thesis using assms(2) by (auto simp: r Get_simp split: option.splits)
qed

theorem store_durability_witness:
  "\<exists>s' ident reopened.
     Put (copyN 32) True \<lparr>st_objects = Map.empty, st_dir = ''d'', st_maxBytes = 100,
         st_disk = [drop 2 (HashBytes (copyN 32) [7]) \<mapsto> [8]]\<rparr> [7] = (s', Inr ident)
     \<and> Store_New True ''d'' 100 (st_disk s') = Inr reopened
     \<and> snd (Get (copyN 32) reopened ident) = None"
proof -
  let ?s = "\<lparr>st_objects = Map.empty, st_dir = ''d'', st_maxBytes = 100,
         st_disk = [drop 2 (HashBytes (copyN 32) [7]) \<mapsto> [8]]\<rparr> :: Store"
  obtain s' where s': "Put (copyN 32) True ?s [7] = (s', Inr (HashBytes (copyN 32) [7]))"
    by (simp add: Put_simp Let_def)
  obtain r where r: "Store_New True ''d'' 100 (st_disk s') = Inr r" by (simp add: Store_New_def)
  have "HashBytes (copyN 32) [8] \<noteq> HashBytes (copyN 32) [7]"
    by (simp add: HashBytes_eq_iff copyN_def)
  then have "snd (Get (copyN 32) r (HashBytes (copyN 32) [7])) = None"
    using store_durability[OF s', of r] r by simp
  with s' r show ?thesis by blast
qed

end
