(* ===== verification/JsonParse.thy ===== *)
theory JsonParse
  imports Json
begin

text \<open>
  \<open>encoding/json.Unmarshal\<close> into untyped values and \<open>json.Valid\<close>: a recursive-descent reader with
  the scanner's rules (white space, the literals, the number grammar, no control characters inside
  strings, the escapes with surrogate pairs, at most 10000 nested arrays and objects). What a number
  literal becomes is an argument, because Go turns it into a \<open>float64\<close>.

  The fuel of the mutually recursive reader is twice the length of the text plus two: every nested
  value and every further element consumes at least one character and two units. That it is enough for
  every text the encoder prints is part of the round trip proved below.
\<close>

section \<open>Tokens\<close>

fun skipWs :: "string \<Rightarrow> string" where
  "skipWs [] = []"
| "skipWs (c # r) = (if of_char c \<in> {9, 10, 13, 32 :: nat} then skipWs r else c # r)"

text \<open>A code point in UTF-8.\<close>

definition utf8 :: "nat \<Rightarrow> string" where
  "utf8 n =
     (if n < 128 then [char_of n]
      else if n < 2048 then map char_of [192 + n div 64, 128 + n mod 64]
      else if n < 65536 then map char_of [224 + n div 4096, 128 + n div 64 mod 64, 128 + n mod 64]
      else map char_of [240 + n div 262144, 128 + n div 4096 mod 64, 128 + n div 64 mod 64, 128 + n mod 64])"

definition hex4 :: "string \<Rightarrow> nat option" where
  "hex4 s =
     (case s of
        a # b # c # d # _ \<Rightarrow>
          (case (hexVal a, hexVal b, hexVal c, hexVal d) of
             (Some a, Some b, Some c, Some d) \<Rightarrow> Some (4096 * a + 256 * b + 16 * c + d)
           | _ \<Rightarrow> None)
      | _ \<Rightarrow> None)"

definition simpleEsc :: "char \<Rightarrow> char option" where
  "simpleEsc e =
     (if of_char e \<in> {34, 92, 47 :: nat} then Some e
      else if e = CHR ''b'' then Some (char_of (8 :: nat))
      else if e = CHR ''f'' then Some (char_of (12 :: nat))
      else if e = CHR ''n'' then Some (char_of (10 :: nat))
      else if e = CHR ''r'' then Some (char_of (13 :: nat))
      else if e = CHR ''t'' then Some (char_of (9 :: nat))
      else None)"

text \<open>
  The code point of a \<open>\u\<close> escape and how many characters behind it belong to it: a high surrogate
  takes the low surrogate that follows, any other surrogate becomes U+FFFD.
\<close>

definition lowSurrogate :: "string \<Rightarrow> nat option" where
  "lowSurrogate r =
     (if length r \<ge> 6 \<and> of_char (r ! 0) = (92 :: nat) \<and> r ! 1 = CHR ''u''
      then case hex4 (drop 2 r) of Some v \<Rightarrow> if 56320 \<le> v \<and> v < 57344 then Some v else None | None \<Rightarrow> None
      else None)"

definition runeOf :: "nat \<Rightarrow> string \<Rightarrow> nat \<times> nat" where
  "runeOf u r =
     (if u < 55296 \<or> 57344 \<le> u then (u, 0)
      else if u < 56320 then
        (case lowSurrogate r of
           Some v \<Rightarrow> (65536 + (u - 55296) * 1024 + (v - 56320), 6)
         | None \<Rightarrow> (65533, 0))
      else (65533, 0))"

text \<open>The contents of a string, after its opening quote.\<close>

function parseStr :: "string \<Rightarrow> (string \<times> string) option" where
  "parseStr s =
     (case s of
        [] \<Rightarrow> None
      | c # r \<Rightarrow>
          if c = quoteC then Some ([], r)
          else if of_char c < (32 :: nat) then None
          else if of_char c = (92 :: nat) then
            (case r of
               [] \<Rightarrow> None
             | e # r' \<Rightarrow>
                 if e = CHR ''u'' then
                   (case hex4 r' of
                      None \<Rightarrow> None
                    | Some u \<Rightarrow>
                        let (rune, more) = runeOf u (drop 4 r')
                        in map_option (\<lambda>(t, q). (utf8 rune @ t, q)) (parseStr (drop (4 + more) r')))
                 else
                   (case simpleEsc e of
                      None \<Rightarrow> None
                    | Some d \<Rightarrow> map_option (\<lambda>(t, q). (d # t, q)) (parseStr r')))
          else map_option (\<lambda>(t, q). (c # t, q)) (parseStr r))"
  by pat_completeness auto
termination by (relation "measure length") auto

declare parseStr.simps [simp del]

text \<open>A number literal and the text behind it.\<close>

definition takeInt :: "string \<Rightarrow> (string \<times> string) option" where
  "takeInt s =
     (case s of
        [] \<Rightarrow> None
      | c # r \<Rightarrow>
          if c = CHR ''0'' then Some ([c], r)
          else if isDigitC c then Some (takeWhile isDigitC s, dropWhile isDigitC s)
          else None)"

definition takeFrac :: "string \<Rightarrow> (string \<times> string) option" where
  "takeFrac s =
     (case s of
        [] \<Rightarrow> Some ([], [])
      | c # r \<Rightarrow>
          if c \<noteq> CHR ''.'' then Some ([], s)
          else if takeWhile isDigitC r = [] then None
          else Some (c # takeWhile isDigitC r, dropWhile isDigitC r))"

definition takeExp :: "string \<Rightarrow> (string \<times> string) option" where
  "takeExp s =
     (case s of
        [] \<Rightarrow> Some ([], [])
      | c # r \<Rightarrow>
          if c \<noteq> CHR ''e'' \<and> c \<noteq> CHR ''E'' then Some ([], s)
          else
            let (sign, r) = (case r of d # r' \<Rightarrow> if d = CHR ''+'' \<or> d = CHR ''-'' then ([d], r') else ([], r) | [] \<Rightarrow> ([], []))
            in if takeWhile isDigitC r = [] then None
               else Some (c # sign @ takeWhile isDigitC r, dropWhile isDigitC r))"

definition takeNum :: "string \<Rightarrow> (string \<times> string) option" where
  "takeNum s =
     (let (sign, r) = (case s of c # r \<Rightarrow> if c = CHR ''-'' then ([c], r) else ([], s) | [] \<Rightarrow> ([], []))
      in case takeInt r of
           None \<Rightarrow> None
         | Some (i, r1) \<Rightarrow>
             (case takeFrac r1 of
                None \<Rightarrow> None
              | Some (f, r2) \<Rightarrow>
                  (case takeExp r2 of
                     None \<Rightarrow> None
                   | Some (e, r3) \<Rightarrow> Some (sign @ i @ f @ e, r3))))"

section \<open>Values\<close>

text \<open>\<open>parseValue\<close> reads a value, \<open>parseElems\<close> and \<open>parseMembers\<close> what follows an opening bracket.\<close>

fun parseValue :: "(string \<Rightarrow> jval) \<Rightarrow> nat \<Rightarrow> string \<Rightarrow> (jval \<times> string) option"
  and parseElems :: "(string \<Rightarrow> jval) \<Rightarrow> nat \<Rightarrow> string \<Rightarrow> (jval list \<times> string) option"
  and parseMembers :: "(string \<Rightarrow> jval) \<Rightarrow> nat \<Rightarrow> string \<Rightarrow> ((string \<times> jval) list \<times> string) option" where
  "parseValue num 0 s = None"
| "parseValue num (Suc n) s =
     (let s = skipWs s in
      case s of
        [] \<Rightarrow> None
      | c # r \<Rightarrow>
          if c = quoteC then map_option (\<lambda>(t, q). (JStr t, q)) (parseStr r)
          else if c = CHR ''['' then
            (if HasPrefix (skipWs r) '']'' then Some (JArr [], tl (skipWs r))
             else map_option (\<lambda>(vs, q). (JArr vs, q)) (parseElems num n r))
          else if c = CHR ''{'' then
            (if HasPrefix (skipWs r) ''}'' then Some (JObj [], tl (skipWs r))
             else map_option (\<lambda>(ms, q). (JObj ms, q)) (parseMembers num n r))
          else if HasPrefix s ''true'' then Some (JBool True, drop 4 s)
          else if HasPrefix s ''false'' then Some (JBool False, drop 5 s)
          else if HasPrefix s ''null'' then Some (JNull, drop 4 s)
          else map_option (\<lambda>(t, q). (num t, q)) (takeNum s))"
| "parseElems num 0 s = None"
| "parseElems num (Suc n) s =
     (case parseValue num n s of
        None \<Rightarrow> None
      | Some (v, q) \<Rightarrow>
          if HasPrefix (skipWs q) '']'' then Some ([v], tl (skipWs q))
          else if HasPrefix (skipWs q) '','' then map_option (\<lambda>(vs, q'). (v # vs, q')) (parseElems num n (tl (skipWs q)))
          else None)"
| "parseMembers num 0 s = None"
| "parseMembers num (Suc n) s =
     (if \<not> HasPrefix (skipWs s) [quoteC] then None
      else case parseStr (tl (skipWs s)) of
        None \<Rightarrow> None
      | Some (k, q) \<Rightarrow>
          if \<not> HasPrefix (skipWs q) '':'' then None
          else case parseValue num n (tl (skipWs q)) of
            None \<Rightarrow> None
          | Some (v, q') \<Rightarrow>
              if HasPrefix (skipWs q') ''}'' then Some ([(k, v)], tl (skipWs q'))
              else if HasPrefix (skipWs q') '','' then
                map_option (\<lambda>(ms, q''). ((k, v) # ms, q'')) (parseMembers num n (tl (skipWs q')))
              else None)"

fun jdepth :: "jval \<Rightarrow> nat" where
  "jdepth (JArr vs) = Suc (Max (insert 0 (set (map jdepth vs))))"
| "jdepth (JObj ms) = Suc (Max (insert 0 (set (map (\<lambda>(k, v). jdepth v) ms))))"
| "jdepth _ = 0"

definition parseJson :: "(string \<Rightarrow> jval) \<Rightarrow> string \<Rightarrow> jval option" where
  "parseJson num s =
     (case parseValue num (2 * length s + 2) s of
        None \<Rightarrow> None
      | Some (v, q) \<Rightarrow> if skipWs q = [] \<and> jdepth v \<le> 10000 then Some v else None)"

section \<open>Reading back what was printed\<close>

lemma parseStr_quote [simp]: "parseStr (quoteC # r) = Some ([], r)"
  by (simp add: parseStr.simps)

lemma parseStr_plain:
  "c \<noteq> quoteC \<Longrightarrow> 32 \<le> (of_char c :: nat) \<Longrightarrow> of_char c \<noteq> (92 :: nat) \<Longrightarrow>
   parseStr (c # r) = map_option (\<lambda>(t, q). (c # t, q)) (parseStr r)"
  by (subst parseStr.simps) simp

lemma parseStr_esc:
  "simpleEsc e = Some d \<Longrightarrow> parseStr (char_of (92 :: nat) # e # r) = map_option (\<lambda>(t, q). (d # t, q)) (parseStr r)"
  by (subst parseStr.simps) (auto simp: simpleEsc_def quoteC_def char_eq_of_char)

lemma parseStr_u:
  assumes "hex4 r = Some u" "u < 128"
  shows "parseStr (char_of (92 :: nat) # CHR ''u'' # r) = map_option (\<lambda>(t, q). (char_of u # t, q)) (parseStr (drop 4 r))"
  by (subst parseStr.simps) (use assms in \<open>simp add: quoteC_def char_eq_of_char runeOf_def utf8_def\<close>)

lemma hexVal_zero: "hexVal CHR ''0'' = Some 0"
  by (simp add: hexVal_def)

lemma decimal_0 [simp]: "decimal 0 = ''0''"
  by (simp add: decimal.simps char_eq_of_char)

lemma parseStr_jsonEscC: "parseStr (jsonEscC c @ r) = map_option (\<lambda>(t, q). (c # t, q)) (parseStr r)"
proof -
  define n where "n = (of_char c :: nat)"
  have c: "c = char_of n" by (simp add: n_def)
  have n: "n < 256" by (simp add: n_def of_char_lt_256)
  consider (simple) "n \<in> {34, 92, 8, 12, 10, 13, 9}"
    | (u) "n < 32 \<or> n = 60 \<or> n = 62 \<or> n = 38" "n \<notin> {8, 9, 10, 12, 13, 34, 92}"
    | (plain) "\<not> (n < 32 \<or> n = 60 \<or> n = 62 \<or> n = 38)" "n \<notin> {34, 92}"
    by blast
  then show ?thesis
  proof cases
    case simple
    then consider "n = 34" | "n = 92" | "n = 8" | "n = 12" | "n = 10" | "n = 13" | "n = 9" by blast
    then show ?thesis
      by cases (simp_all add: c jsonEscC_def Let_def parseStr_esc simpleEsc_def char_eq_of_char)
  next
    case u
    then have e: "jsonEscC c = [char_of (92 :: nat), CHR ''u'', CHR ''0'', CHR ''0'', hexDigit (n div 16), hexDigit (n mod 16)]"
      by (simp add: jsonEscC_def Let_def flip: n_def)
    have "n div 16 < 16" using n by (simp add: less_mult_imp_div_less)
    then have "hex4 (CHR ''0'' # CHR ''0'' # hexDigit (n div 16) # hexDigit (n mod 16) # r) = Some n"
      by (simp add: hex4_def hexVal_hexDigit hexVal_zero)
    moreover have "n < 128" using u by auto
    ultimately show ?thesis unfolding e using c by (simp add: parseStr_u)
  next
    case plain
    then have "jsonEscC c = [c]" by (auto simp: jsonEscC_def Let_def simp flip: n_def)
    then show ?thesis using plain by (simp add: parseStr_plain quoteC_def char_eq_of_char flip: n_def)
  qed
qed

lemma parseStr_jsonString: "parseStr (concat (map jsonEscC s) @ quoteC # r) = Some (s, r)"
  by (induction s) (simp_all add: parseStr_jsonEscC)

lemma decimal_zero: "hd (decimal n) = CHR ''0'' \<Longrightarrow> decimal n = ''0''"
proof (induction n rule: decimal.induct)
  case (1 n)
  show ?case
  proof (cases "n < 10")
    case True
    then have "n = 0" using "1.prems" by (simp add: decimal.simps[of n] char_eq_of_char)
    then show ?thesis by simp
  next
    case False
    then have "decimal (n div 10) = ''0''" using 1 by (simp add: decimal.simps[of n])
    then have "n div 10 = 0" by (metis decimal_0 decimal_inj)
    then show ?thesis using False by linarith
  qed
qed

text \<open>Numbers: the literal ends where a delimiter or a line break follows.\<close>

definition ends :: "string \<Rightarrow> bool" where
  "ends r \<longleftrightarrow> r = [] \<or> hd r \<in> {CHR '','', CHR '']'', CHR ''}'', CHR 0x0A}"

lemma ends_simps [simp]:
  "ends []" "ends (c # r) \<longleftrightarrow> c \<in> {CHR '','', CHR '']'', CHR ''}'', CHR 0x0A}"
  by (simp_all add: ends_def)

lemma delim_ends [simp]: "delim r \<Longrightarrow> ends r"
  by (auto simp: delim_def ends_def)

lemma delim_digits: "ends r \<Longrightarrow> takeWhile isDigitC (decimal n @ r) = decimal n \<and> dropWhile isDigitC (decimal n @ r) = r"
proof -
  assume "ends r"
  then have "takeWhile isDigitC r = [] \<and> dropWhile isDigitC r = r"
    by (cases r) (auto simp: isDigitC_def)
  then show ?thesis using decimal_digits by (simp add: takeWhile_append2 dropWhile_append2)
qed

lemma takeInt_decimal: "ends r \<Longrightarrow> takeInt (decimal n @ r) = Some (decimal n, r)"
proof -
  assume r: "ends r"
  obtain c t where ct: "decimal n = c # t" by (cases "decimal n") auto
  then have "isDigitC c" using hd_decimal[of n] by simp
  show ?thesis
  proof (cases "c = CHR ''0''")
    case True
    then have "t = []" using decimal_zero[of n] ct by simp
    then show ?thesis using True ct by (simp add: takeInt_def)
  next
    case False
    have "takeInt (decimal n @ r) = Some (takeWhile isDigitC (decimal n @ r), dropWhile isDigitC (decimal n @ r))"
      using False \<open>isDigitC c\<close> by (simp add: takeInt_def ct)
    then show ?thesis using delim_digits[OF r, of n] by simp
  qed
qed

lemma delim_no_frac_exp: "ends r \<Longrightarrow> takeFrac r = Some ([], r) \<and> takeExp r = Some ([], r)"
  by (cases r) (auto simp: takeFrac_def takeExp_def)

lemma takeNum_jsonInt: "ends r \<Longrightarrow> takeNum (jsonInt i @ r) = Some (jsonInt i, r)"
proof -
  assume r: "ends r"
  obtain c t where ct: "decimal (nat i) = c # t" by (cases "decimal (nat i)") auto
  then have "c \<noteq> CHR ''-''" using hd_decimal[of "nat i"] by (auto simp: isDigitC_def)
  then have "takeNum (decimal (nat i) @ r) = Some (decimal (nat i), r)"
    using takeInt_decimal[OF r, of "nat i"] delim_no_frac_exp[OF r] ct by (simp add: takeNum_def)
  then show ?thesis using takeInt_decimal[OF r, of "nat (- i)"] delim_no_frac_exp[OF r] by (simp add: jsonInt_def takeNum_def)
qed

section \<open>The round trip\<close>

text \<open>The first character of a printed value is not white space and tells its constructor.\<close>

lemma skipWs_text:
  assumes "noRaw v"
  shows "skipWs (jsonText v @ r) = jsonText v @ r"
proof -
  obtain c t where ct: "jsonText v = c # t" using jclass_jsonText[OF assms] by (cases "jsonText v") auto
  have "jclass c = jkind v" using jclass_jsonText[OF assms] ct by simp
  then have "jclass c < 7" using jkind_noRaw[OF assms] by (cases v) (auto split: if_splits)
  then have "of_char c \<notin> {9, 10, 13, 32 :: nat}"
    by (auto simp: jclass_def isDigitC_def quoteC_def char_eq_of_char split: if_splits)
  then show ?thesis using ct by simp
qed

lemma skipWs_delim [simp]: "delim r \<Longrightarrow> skipWs r = r"
  by (cases r) auto

lemma of_char_quoteC [simp]: "of_char quoteC = (34 :: nat)"
  by (simp add: quoteC_def)

lemma HasPrefix_single [simp]: "HasPrefix s [c] \<longleftrightarrow> (\<exists>t. s = c # t)"
  by (simp add: HasPrefix_append)

lemma parseValue_num:
  assumes "ends r" "num (jsonInt i) = JNum i"
  shows "parseValue num (Suc n) (jsonText (JNum i) @ r) = Some (JNum i, r)"
proof -
  obtain c t where ct: "jsonInt i = c # t" by (cases "jsonInt i") (auto simp: jsonInt_def split: if_splits)
  have "jclass c = 1" using jclass_jsonText[of "JNum i"] ct by simp
  then have "c \<notin> {quoteC, CHR ''['', CHR ''{'', CHR ''t'', CHR ''f'', CHR ''n''}"
    by (auto simp: jclass_def isDigitC_def split: if_splits)
  then show ?thesis
    using skipWs_text[of "JNum i" r] takeNum_jsonInt[OF assms(1), of i] assms(2) ct by simp
qed

text \<open>
  Elements and members: if every value of the list is read back with the fuel its text needs, so is
  the list.
\<close>

lemma parseElems_text:
  assumes "\<And>v r n. v \<in> set vs \<Longrightarrow> delim r \<Longrightarrow> 2 * length (jsonText v) \<le> n \<Longrightarrow>
      parseValue num n (jsonText v @ r) = Some (v, r)"
    and "vs \<noteq> []" "2 * length (intercalate '','' (map jsonText vs)) + 1 \<le> n"
  shows "parseElems num n (intercalate '','' (map jsonText vs) @ CHR '']'' # r) = Some (vs, r)"
  using assms
proof (induction vs arbitrary: n)
  case (Cons v vs)
  obtain m where m: "n = Suc m" using Cons.prems(3) by (cases n) auto
  show ?case
  proof (cases "vs = []")
    case True
    then show ?thesis using Cons.prems(1)[of v "CHR '']'' # r" m] Cons.prems(3) m by simp
  next
    case False
    let ?rest = "intercalate '','' (map jsonText vs) @ CHR '']'' # r"
    have v: "parseValue num m (jsonText v @ CHR '','' # ?rest) = Some (v, CHR '','' # ?rest)"
      using Cons.prems(1)[of v "CHR '','' # ?rest" m] Cons.prems(3) m False by (simp add: intercalate_Cons)
    have "parseElems num m ?rest = Some (vs, r)"
      by (rule Cons.IH) (use Cons.prems m False in \<open>auto simp: intercalate_Cons\<close>)
    with v m False show ?thesis by (simp add: intercalate_Cons)
  qed
qed simp

abbreviation memberText :: "string \<times> jval \<Rightarrow> string" where
  "memberText \<equiv> (\<lambda>(k, v). jsonString k @ '':'' @ jsonText v)"

lemma parseMembers_text:
  assumes "\<And>k v r n. (k, v) \<in> set ms \<Longrightarrow> delim r \<Longrightarrow> 2 * length (jsonText v) \<le> n \<Longrightarrow>
      parseValue num n (jsonText v @ r) = Some (v, r)"
    and "ms \<noteq> []" "2 * length (intercalate '','' (map memberText ms)) + 1 \<le> n"
  shows "parseMembers num n (intercalate '','' (map memberText ms) @ CHR ''}'' # r) = Some (ms, r)"
  using assms
proof (induction ms arbitrary: n)
  case (Cons kv ms)
  obtain k v where kv: "kv = (k, v)" by (cases kv)
  obtain m where m: "n = Suc m" using Cons.prems(3) by (cases n) auto
  have key: "jsonString k @ t = quoteC # concat (map jsonEscC k) @ quoteC # t" for t
    by (simp add: jsonString_def)
  note step = kv m key parseStr_jsonString
  show ?case
  proof (cases "ms = []")
    case True
    then show ?thesis using Cons.prems(1)[of k v "CHR ''}'' # r" m] Cons.prems(3) by (simp add: step)
  next
    case False
    let ?rest = "intercalate '','' (map memberText ms) @ CHR ''}'' # r"
    have v: "parseValue num m (jsonText v @ CHR '','' # ?rest) = Some (v, CHR '','' # ?rest)"
      using Cons.prems(1)[of k v "CHR '','' # ?rest" m] Cons.prems(3) m kv False by (simp add: intercalate_Cons)
    have "parseMembers num m ?rest = Some (ms, r)"
      by (rule Cons.IH) (use Cons.prems m kv False in \<open>auto simp: intercalate_Cons\<close>)
    with v False show ?thesis by (simp add: step intercalate_Cons)
  qed
qed simp

lemma quoteC_neq [simp]: "CHR ''['' \<noteq> quoteC" "CHR ''{'' \<noteq> quoteC" "CHR ''t'' \<noteq> quoteC" "CHR ''f'' \<noteq> quoteC" "CHR ''n'' \<noteq> quoteC"
  "quoteC \<noteq> CHR ''}''" "quoteC \<noteq> CHR '']''"
  by (simp_all add: quoteC_def char_eq_of_char)

text \<open>Nothing that is printed first inside a bracket closes it.\<close>

lemma skipWs_elems:
  assumes "noRaw v"
  shows "\<not> HasPrefix (skipWs (jsonText v @ r)) '']''"
proof -
  obtain c t where ct: "jsonText v = c # t" using jclass_jsonText[OF assms] by (cases "jsonText v") auto
  have "jclass c = jkind v" using jclass_jsonText[OF assms] ct by simp
  then have "c \<noteq> CHR '']''" using jclass_bracket jkind_noRaw[OF assms] by auto
  then show ?thesis using skipWs_text[OF assms, of r] ct by simp
qed

text \<open>The integers of a value.\<close>

fun jnums :: "jval \<Rightarrow> int set" where
  "jnums (JNum i) = {i}"
| "jnums (JArr vs) = (\<Union>v \<in> set vs. jnums v)"
| "jnums (JObj ms) = (\<Union>(k, v) \<in> set ms. jnums v)"
| "jnums _ = {}"

lemma parseValue_text:
  "noRaw v \<Longrightarrow> \<forall>i \<in> jnums v. num (jsonInt i) = JNum i \<Longrightarrow> delim r \<Longrightarrow> 2 * length (jsonText v) \<le> n \<Longrightarrow>
   parseValue num n (jsonText v @ r) = Some (v, r)"
proof (induction v arbitrary: r n)
  case (JStr s)
  then obtain m where "n = Suc m" by (cases n) (auto simp: jsonString_def)
  then show ?case using parseStr_jsonString[of s r] by (simp add: jsonString_def)
next
  case (JNum i)
  then obtain m where "n = Suc m" by (cases n) (auto simp: jsonInt_def split: if_splits)
  then show ?case using parseValue_num[of r num i m] JNum.prems by simp
next
  case (JArr vs)
  then obtain m where m: "n = Suc m" by (cases n) auto
  show ?case
  proof (cases vs)
    case (Cons v vs')
    let ?body = "intercalate '','' (map jsonText vs)"
    have "parseElems num m (?body @ CHR '']'' # r) = Some (vs, r)"
    proof (rule parseElems_text)
      fix v r n assume "v \<in> set vs" "delim r" "2 * length (jsonText v) \<le> n"
      then show "parseValue num n (jsonText v @ r) = Some (v, r)" using JArr.IH[of v r n] JArr.prems(1,2) by auto
    qed (use JArr.prems Cons m in auto)
    moreover have "\<not> HasPrefix (skipWs (?body @ CHR '']'' # r)) '']''"
      using skipWs_elems[of v] JArr.prems(1) Cons by (cases vs') auto
    ultimately show ?thesis using m by simp
  qed (use m in simp)
next
  case (JObj ms)
  then obtain m where m: "n = Suc m" by (cases n) auto
  show ?case
  proof (cases ms)
    case (Cons kv ms')
    let ?body = "intercalate '','' (map memberText ms)"
    have "parseMembers num m (?body @ CHR ''}'' # r) = Some (ms, r)"
    proof (rule parseMembers_text)
      fix k v r n assume "(k, v) \<in> set ms" "delim r" "2 * length (jsonText v) \<le> n"
      then show "parseValue num n (jsonText v @ r) = Some (v, r)" using JObj.IH[of "(k, v)" v r n] JObj.prems(1,2) by auto
    qed (use JObj.prems Cons m in auto)
    moreover obtain t where "?body @ CHR ''}'' # r = quoteC # t"
      using Cons by (cases ms'; cases kv) (auto simp: jsonString_def)
    ultimately show ?thesis using m by simp
  qed (use m in simp)
next
  case (JBool b)
  then obtain m where "n = Suc m" by (cases n) (auto split: if_splits)
  then show ?case by simp
next
  case JNull
  then obtain m where "n = Suc m" by (cases n) auto
  then show ?case by simp
qed simp

lemma parseJson_text:
  assumes "noRaw v" "\<forall>i \<in> jnums v. num (jsonInt i) = JNum i" "jdepth v \<le> 10000"
  shows "parseJson num (jsonText v) = Some v"
  using parseValue_text[OF assms(1,2), of "[]" "2 * length (jsonText v) + 2"] assms(3)
  by (simp add: parseJson_def)

text \<open>The number literals of the encoder, read as the integers they are.\<close>

definition intLiteral :: "string \<Rightarrow> jval" where
  "intLiteral t =
     (case t of
        c # r \<Rightarrow> if c = CHR ''-'' then JNum (- int (undecimal r 0)) else JNum (int (undecimal t 0))
      | [] \<Rightarrow> JNull)"

lemma intLiteral_jsonInt [simp]: "intLiteral (jsonInt i) = JNum i"
proof (cases "i < 0")
  case False
  obtain c t where ct: "decimal (nat i) = c # t" by (cases "decimal (nat i)") auto
  then have "c \<noteq> CHR ''-''" using hd_decimal[of "nat i"] by (auto simp: isDigitC_def)
  then show ?thesis using False undecimal_decimal[of "nat i"] ct by (simp add: jsonInt_def intLiteral_def)
qed (simp add: jsonInt_def intLiteral_def undecimal_decimal)

text \<open>Whether a text is valid does not depend on what its numbers become.\<close>

definition json_Valid :: "string \<Rightarrow> bool" where
  "json_Valid s \<longleftrightarrow> parseJson intLiteral s \<noteq> None"

lemma json_Valid_text: "noRaw v \<Longrightarrow> jdepth v \<le> 10000 \<Longrightarrow> json_Valid (jsonText v)"
  by (simp add: json_Valid_def parseJson_text)

section \<open>Compaction\<close>

text \<open>Compaction of a raw message, on the way to a peer, is idempotent and leaves printed values alone.\<close>

lemma compactText_plain:
  "of_char c \<notin> {38, 60, 62, 92 :: nat} \<Longrightarrow> compactText True (c # r) = c # compactText (c \<noteq> quoteC) r"
  by (cases r) auto

lemma compactText_backslash: "compactText True (char_of (92 :: nat) # d # r) = char_of (92 :: nat) # d # compactText True r"
  by simp

lemma hexDigit_plain:
  assumes "n < 16"
  shows "compactText True (hexDigit n # r) = hexDigit n # compactText True r"
proof -
  have "of_char (hexDigit n) \<notin> {34, 38, 60, 62, 92 :: nat}"
    using assms by (auto simp: hexDigit_def)
  then show ?thesis using compactText_plain[of "hexDigit n" r] by (auto simp: char_eq_of_char)
qed

lemma compactText_jsonEscC [simp]: "compactText True (jsonEscC c @ r) = jsonEscC c @ compactText True r"
proof -
  define n where "n = (of_char c :: nat)"
  have n: "n < 256" by (simp add: n_def of_char_lt_256)
  consider (pair) e where "jsonEscC c = [char_of (92 :: nat), e]"
    | (u) "jsonEscC c = [char_of (92 :: nat), CHR ''u'', CHR ''0'', CHR ''0'', hexDigit (n div 16), hexDigit (n mod 16)]"
    | (plain) "jsonEscC c = [c]" "n \<notin> {34, 38, 60, 62, 92}"
  proof -
    consider "n \<in> {34, 92, 8, 12, 10, 13, 9}" | "n \<notin> {34, 92, 8, 12, 10, 13, 9}" "n < 32 \<or> n = 60 \<or> n = 62 \<or> n = 38"
      | "n \<notin> {34, 92}" "\<not> (n < 32 \<or> n = 60 \<or> n = 62 \<or> n = 38)" by blast
    then show thesis
    proof cases
      case 1
      then show thesis by (elim insertE) (auto simp: jsonEscC_def Let_def simp flip: n_def intro: pair)
    next
      case 2
      then show thesis by (intro u) (auto simp: jsonEscC_def Let_def simp flip: n_def)
    next
      case 3
      then show thesis by (intro plain) (auto simp: jsonEscC_def Let_def simp flip: n_def)
    qed
  qed
  then show ?thesis
  proof cases
    case pair
    then show ?thesis using compactText_backslash by simp
  next
    case u
    have "n div 16 < 16" using n by (simp add: less_mult_imp_div_less)
    then show ?thesis unfolding u using hexDigit_plain compactText_backslash
      by (simp add: compactText_plain quoteC_def char_eq_of_char del: compactText.simps)
  next
    case plain
    then show ?thesis using compactText_plain[of c r] by (auto simp: n_def char_eq_of_char simp del: compactText.simps)
  qed
qed

lemma compactText_idem [simp]: "compactText b (compactText b s) = compactText b s"
proof (induction b s rule: compactText.induct)
  case (4 c d r)
  consider (bs) "of_char c = (92 :: nat)" | (esc) "of_char c \<in> {38, 60, 62 :: nat}" "of_char c \<noteq> (92 :: nat)"
    | (plain) "of_char c \<notin> {38, 60, 62, 92 :: nat}" by blast
  then show ?case
  proof cases
    case esc
    then have "compactText True (c # d # r) = jsonEscC c @ compactText True (d # r)" by simp
    then show ?thesis using 4(2) esc by simp
  next
    case plain
    then have "compactText True (c # d # r) = c # compactText (c \<noteq> quoteC) (d # r)" by (simp add: compactText_plain)
    then show ?thesis using 4(3) plain by (simp add: compactText_plain)
  qed (use 4 in simp)
qed auto

lemma compactText_bare:
  "\<forall>c \<in> set s. of_char c \<notin> {9, 10, 13, 32, 34 :: nat} \<Longrightarrow> compactText False (s @ r) = s @ compactText False r"
proof (induction s)
  case (Cons c s)
  have "c \<noteq> quoteC" using Cons.prems by auto
  then show ?case using Cons by simp
qed simp

lemma quoteC_chars [simp]:
  "CHR '','' \<noteq> quoteC" "CHR '':'' \<noteq> quoteC" "CHR '']'' \<noteq> quoteC" "CHR ''}'' \<noteq> quoteC" "CHR ''r'' \<noteq> quoteC"
  "CHR ''u'' \<noteq> quoteC" "CHR ''e'' \<noteq> quoteC" "CHR ''a'' \<noteq> quoteC" "CHR ''l'' \<noteq> quoteC" "CHR ''s'' \<noteq> quoteC"
  by (simp_all add: quoteC_def char_eq_of_char)

lemma compactText_jsonString: "compactText False (jsonString s @ r) = jsonString s @ compactText False r"
proof -
  have "compactText True (concat (map jsonEscC s) @ quoteC # r) = concat (map jsonEscC s) @ quoteC # compactText False r"
    by (induction s) (simp_all add: compactText_plain del: compactText.simps)
  then show ?thesis by (simp add: jsonString_def)
qed

lemma compactText_intercalate:
  assumes "\<And>x r. x \<in> set xs \<Longrightarrow> compactText False (f x @ r) = f x @ compactText False r"
  shows "compactText False (intercalate '','' (map f xs) @ r) = intercalate '','' (map f xs) @ compactText False r"
  using assms
proof (induction xs)
  case (Cons x xs)
  then show ?case by (cases xs) auto
qed simp

lemma compactText_text: "noRaw v \<Longrightarrow> compactText False (jsonText v @ r) = jsonText v @ compactText False r"
proof (induction v arbitrary: r)
  case (JNum i)
  have "of_char c \<notin> {9, 10, 13, 32, 34 :: nat}" if "c \<in> set (jsonInt i)" for c
    using that decimal_digits by (fastforce simp: jsonInt_def isDigitC_def split: if_splits)
  then show ?case using compactText_bare[of "jsonInt i" r] by simp
next
  case (JArr vs)
  then show ?case using compactText_intercalate[of vs jsonText "'']'' @ r"] by simp
next
  case (JObj ms)
  have "compactText False (memberText kv @ r) = memberText kv @ compactText False r" if "kv \<in> set ms" for kv r
  proof (cases kv)
    case (Pair k v)
    then have "compactText False (jsonText v @ r) = jsonText v @ compactText False r" using JObj that by fastforce
    then show ?thesis using Pair by (simp add: compactText_jsonString)
  qed
  then show ?case using compactText_intercalate[of ms memberText "''}'' @ r"] by simp
qed (simp_all add: compactText_jsonString)

end
