(* ===== verification/JsonIndent.thy ===== *)
theory JsonIndent
  imports JsonParse
begin

text \<open>
  \<open>json.MarshalIndent\<close> with an empty prefix and an indent of two spaces, which is how the manifest and
  the proof files are written, and its round trip through the reader: an indented value is read back as
  the value that was printed. Raw messages do not occur in what is printed this way.
\<close>

definition newline :: "nat \<Rightarrow> string" where
  "newline d = CHR 0x0A # replicate (2 * d) CHR '' ''"

fun indentText :: "nat \<Rightarrow> jval \<Rightarrow> string" where
  "indentText d (JArr vs) =
     (if vs = [] then ''[]''
      else CHR ''['' # newline (Suc d) @ intercalate (CHR '','' # newline (Suc d)) (map (indentText (Suc d)) vs)
             @ newline d @ '']'')"
| "indentText d (JObj ms) =
     (if ms = [] then ''{}''
      else CHR ''{'' # newline (Suc d)
             @ intercalate (CHR '','' # newline (Suc d))
                 (map (\<lambda>(k, v). jsonString k @ '': '' @ indentText (Suc d) v) ms)
             @ newline d @ ''}'')"
| "indentText d v = jsonText v"

definition json_marshalIndent :: "jval \<Rightarrow> bytes" where
  "json_marshalIndent v = bytes_of (indentText 0 v)"

section \<open>Reading an indented value\<close>

lemma skipWs_newline [simp]: "skipWs (newline d @ r) = skipWs r"
proof -
  have "skipWs (replicate n CHR '' '' @ r) = skipWs r" for n by (induction n) simp_all
  then show ?thesis by (simp add: newline_def)
qed

lemma ends_newline [simp]: "ends (newline d @ r)"
  by (simp add: newline_def)

lemma parseValue_newline [simp]: "parseValue num n (newline d @ r) = parseValue num n r"
  by (cases n) simp_all

lemma parseMembers_newline [simp]: "parseMembers num n (newline d @ r) = parseMembers num n r"
  by (cases n) simp_all

lemma parseElems_newline [simp]: "parseElems num n (newline d @ r) = parseElems num n r"
  by (cases n) simp_all

text \<open>The text starts with the character that starts the compact text.\<close>

lemma indentText_start:
  assumes "noRaw v"
  shows "\<exists>c t. indentText d v = c # t \<and> jclass c = jkind v"
proof (cases v)
  case (JArr vs)
  then show ?thesis by (simp add: jclass_def isDigitC_def)
next
  case (JObj ms)
  then show ?thesis by (simp add: jclass_def isDigitC_def)
qed (use jclass_jsonText[OF assms] in \<open>cases "jsonText v"; auto\<close>)+

lemma skipWs_indent:
  assumes "noRaw v"
  shows "skipWs (indentText d v @ r) = indentText d v @ r" "\<not> HasPrefix (indentText d v @ r) '']''"
proof -
  obtain c t where ct: "indentText d v = c # t" "jclass c = jkind v" using indentText_start[OF assms] by blast
  then have "jclass c < 7" using jkind_noRaw[OF assms] by (cases v) (auto split: if_splits)
  then have "of_char c \<notin> {9, 10, 13, 32 :: nat}"
    by (auto simp: jclass_def isDigitC_def quoteC_def char_eq_of_char split: if_splits)
  then show "skipWs (indentText d v @ r) = indentText d v @ r" using ct(1) by simp
  have "c \<noteq> CHR '']''" using \<open>jclass c < 7\<close> jclass_bracket by auto
  then show "\<not> HasPrefix (indentText d v @ r) '']''" using ct(1) by simp
qed

lemma parseElems_indent:
  assumes "\<And>v r n. v \<in> set vs \<Longrightarrow> ends r \<Longrightarrow> 2 * length (f v) \<le> n \<Longrightarrow> parseValue num n (f v @ r) = Some (v, r)"
    and "vs \<noteq> []" "2 * length (intercalate (CHR '','' # newline e) (map f vs)) + 1 \<le> n"
  shows "parseElems num n (intercalate (CHR '','' # newline e) (map f vs) @ newline d @ CHR '']'' # r) = Some (vs, r)"
  using assms
proof (induction vs arbitrary: n)
  case (Cons v vs)
  obtain m where m: "n = Suc m" using Cons.prems(3) by (cases n) auto
  show ?case
  proof (cases "vs = []")
    case True
    then show ?thesis using Cons.prems(1)[of v "newline d @ CHR '']'' # r" m] Cons.prems(3) m by simp
  next
    case False
    let ?rest = "intercalate (CHR '','' # newline e) (map f vs) @ newline d @ CHR '']'' # r"
    have v: "parseValue num m (f v @ CHR '','' # newline e @ ?rest) = Some (v, CHR '','' # newline e @ ?rest)"
      using Cons.prems(1)[of v "CHR '','' # newline e @ ?rest" m] Cons.prems(3) m False by (simp add: intercalate_Cons)
    have "parseElems num m ?rest = Some (vs, r)"
      by (rule Cons.IH) (use Cons.prems m False in \<open>auto simp: intercalate_Cons newline_def\<close>)
    with v m False show ?thesis by (simp add: intercalate_Cons)
  qed
qed simp

lemma parseMembers_indent:
  assumes "\<And>k v r n. (k, v) \<in> set ms \<Longrightarrow> ends r \<Longrightarrow> 2 * length (f v) \<le> n \<Longrightarrow> parseValue num n (f v @ r) = Some (v, r)"
    and "\<And>k v r. (k, v) \<in> set ms \<Longrightarrow> skipWs (f v @ r) = f v @ r"
    and "ms \<noteq> []"
    and "2 * length (intercalate (CHR '','' # newline e) (map (\<lambda>(k, v). jsonString k @ '': '' @ f v) ms)) + 1 \<le> n"
  shows "parseMembers num n (intercalate (CHR '','' # newline e) (map (\<lambda>(k, v). jsonString k @ '': '' @ f v) ms)
           @ newline d @ CHR ''}'' # r) = Some (ms, r)"
  using assms
proof (induction ms arbitrary: n)
  case (Cons kv ms)
  obtain k v where kv: "kv = (k, v)" by (cases kv)
  obtain m where m: "n = Suc m" using Cons.prems(4) by (cases n) auto
  have key: "jsonString k @ t = quoteC # concat (map jsonEscC k) @ quoteC # t" for t
    by (simp add: jsonString_def)
  have sp: "parseValue num j (CHR '' '' # s) = parseValue num j s" for j s by (cases j) simp_all
  note step = kv m key parseStr_jsonString sp
  show ?case
  proof (cases "ms = []")
    case True
    then show ?thesis using Cons.prems(1)[of k v "newline d @ CHR ''}'' # r" m] Cons.prems(4) by (simp add: step)
  next
    case False
    let ?rest = "intercalate (CHR '','' # newline e) (map (\<lambda>(k, v). jsonString k @ '': '' @ f v) ms) @ newline d @ CHR ''}'' # r"
    have v: "parseValue num m (f v @ CHR '','' # newline e @ ?rest) = Some (v, CHR '','' # newline e @ ?rest)"
      using Cons.prems(1)[of k v "CHR '','' # newline e @ ?rest" m] Cons.prems(4) m kv False by (simp add: intercalate_Cons)
    have "parseMembers num m ?rest = Some (ms, r)"
      by (rule Cons.IH)
        (use Cons.prems(1,4) m kv False in \<open>auto simp: intercalate_Cons newline_def intro: Cons.prems(2)\<close>)
    with v False show ?thesis by (simp add: step intercalate_Cons)
  qed
qed simp

lemma parseValue_indent:
  "noRaw v \<Longrightarrow> \<forall>i \<in> jnums v. num (jsonInt i) = JNum i \<Longrightarrow> ends r \<Longrightarrow> 2 * length (indentText d v) \<le> n \<Longrightarrow>
   parseValue num n (indentText d v @ r) = Some (v, r)"
proof (induction v arbitrary: r n d)
  case (JStr s)
  then obtain m where "n = Suc m" by (cases n) (auto simp: jsonString_def)
  then show ?case using parseStr_jsonString[of s r] by (simp add: jsonString_def)
next
  case (JNum i)
  then obtain m where "n = Suc m" by (cases n) (auto simp: jsonInt_def split: if_splits)
  then show ?case using parseValue_num[of r num i m] JNum.prems by simp
next
  case (JArr vs)
  then obtain m where m: "n = Suc m" by (cases n) (auto split: if_splits)
  show ?case
  proof (cases vs)
    case (Cons v vs')
    let ?body = "intercalate (CHR '','' # newline (Suc d)) (map (indentText (Suc d)) vs)"
    have "parseElems num m (?body @ newline d @ CHR '']'' # r) = Some (vs, r)"
    proof (rule parseElems_indent)
      fix v r n assume "v \<in> set vs" "ends r" "2 * length (indentText (Suc d) v) \<le> n"
      then show "parseValue num n (indentText (Suc d) v @ r) = Some (v, r)" using JArr.prems(1,2) by (intro JArr.IH) auto
    qed (use JArr.prems Cons m in auto)
    moreover obtain t where "?body = indentText (Suc d) v @ t"
      using Cons by (cases vs') auto
    then have "\<not> HasPrefix (skipWs (?body @ newline d @ CHR '']'' # r)) '']''"
      using skipWs_indent[of v] JArr.prems(1) Cons by simp
    ultimately show ?thesis using m Cons by simp
  qed (use m in simp)
next
  case (JObj ms)
  then obtain m where m: "n = Suc m" by (cases n) (auto split: if_splits)
  show ?case
  proof (cases ms)
    case (Cons kv ms')
    let ?body = "intercalate (CHR '','' # newline (Suc d)) (map (\<lambda>(k, v). jsonString k @ '': '' @ indentText (Suc d) v) ms)"
    have "parseMembers num m (?body @ newline d @ CHR ''}'' # r) = Some (ms, r)"
    proof (rule parseMembers_indent)
      fix k v r n assume "(k, v) \<in> set ms" "ends r" "2 * length (indentText (Suc d) v) \<le> n"
      then show "parseValue num n (indentText (Suc d) v @ r) = Some (v, r)" using JObj.prems(1,2) by (intro JObj.IH[of "(k, v)"]) auto
    next
      fix k v r assume "(k, v) \<in> set ms"
      then show "skipWs (indentText (Suc d) v @ r) = indentText (Suc d) v @ r" using JObj.prems(1) by (intro skipWs_indent) auto
    qed (use JObj.prems Cons m in auto)
    moreover obtain t where "?body = quoteC # t"
      using Cons by (cases ms'; cases kv) (auto simp: jsonString_def)
    ultimately show ?thesis using m Cons by simp
  qed (use m in simp)
next
  case (JBool b)
  then obtain m where "n = Suc m" by (cases n) (auto split: if_splits)
  then show ?case by simp
next
  case JNull
  then obtain m where "n = Suc m" by (cases n) auto
  then show ?case by simp
qed simp

lemma parseJson_indent:
  assumes "noRaw v" "\<forall>i \<in> jnums v. num (jsonInt i) = JNum i" "jdepth v \<le> 10000"
  shows "parseJson num (indentText 0 v) = Some v"
  using parseValue_indent[OF assms(1,2), of "[]" 0 "2 * length (indentText 0 v) + 2"] assms(3)
  by (simp add: parseJson_def)

end
