(* ===== verification/Decode.thy ===== *)
theory Decode
  imports JsonIndent
begin

text \<open>
  \<open>encoding/json.Unmarshal\<close> into structs, and files read at an offset.

  A struct is a table of its fields: the JSON name and a setter. A member of the object goes to the
  field with exactly its name, else to the first field whose name differs in letter case only, else it
  is ignored; \<open>null\<close> leaves a field as it is (and makes a slice nil). \<^const>\<open>None\<close> is the
  error return. An integer field accepts a literal without fraction and exponent that fits its type.
\<close>

section \<open>Struct decoding\<close>

text \<open>A number literal that is written the way the encoder writes it becomes that number; any other
  one (a fraction, an exponent, minus zero) stays a literal.\<close>

definition goLiteral :: "string \<Rightarrow> jval" where
  "goLiteral t =
     (case intLiteral t of
        JNum i \<Rightarrow> if jsonInt i = t then JNum i else JRaw t
      | _ \<Rightarrow> JRaw t)"

type_synonym 'a setter = "jval \<Rightarrow> 'a \<Rightarrow> 'a option"

definition setStr :: "((string \<Rightarrow> string) \<Rightarrow> 'a \<Rightarrow> 'a) \<Rightarrow> 'a setter" where
  "setStr upd v x =
     (case v of JNull \<Rightarrow> Some x | JStr s \<Rightarrow> Some (upd (\<lambda>_. s) x) | _ \<Rightarrow> None)"

definition setWord :: "(('w::len word \<Rightarrow> 'w word) \<Rightarrow> 'a \<Rightarrow> 'a) \<Rightarrow> 'a setter" where
  "setWord upd v x =
     (case v of
        JNull \<Rightarrow> Some x
      | JNum i \<Rightarrow> if 0 \<le> i \<and> i < 2 ^ LENGTH('w) then Some (upd (\<lambda>_. word_of_int i) x) else None
      | _ \<Rightarrow> None)"

definition fitsInt :: "int \<Rightarrow> bool" where
  "fitsInt i \<longleftrightarrow> - (2 ^ 63) \<le> i \<and> i < 2 ^ 63"

definition setInt :: "((int \<Rightarrow> int) \<Rightarrow> 'a \<Rightarrow> 'a) \<Rightarrow> 'a setter" where
  "setInt upd v x =
     (case v of
        JNull \<Rightarrow> Some x
      | JNum i \<Rightarrow> if fitsInt i then Some (upd (\<lambda>_. i) x) else None
      | JRaw t \<Rightarrow> if t = ''-0'' then Some (upd (\<lambda>_. 0) x) else None
      | _ \<Rightarrow> None)"

definition setSlice :: "(jval \<Rightarrow> 'b option) \<Rightarrow> (('b list \<Rightarrow> 'b list) \<Rightarrow> 'a \<Rightarrow> 'a) \<Rightarrow> 'a setter" where
  "setSlice decode upd v x =
     (case v of
        JNull \<Rightarrow> Some (upd (\<lambda>_. []) x)
      | JArr vs \<Rightarrow> map_option (\<lambda>ys. upd (\<lambda>_. ys) x) (those (map decode vs))
      | _ \<Rightarrow> None)"

definition fieldFor :: "(string \<times> 'a setter) list \<Rightarrow> string \<Rightarrow> 'a setter option" where
  "fieldFor fields k =
     (case map_of fields k of
        Some s \<Rightarrow> Some s
      | None \<Rightarrow> map_of (map (\<lambda>(n, s). (ToLower n, s)) fields) (ToLower k))"

fun decodeMembers :: "(string \<times> 'a setter) list \<Rightarrow> (string \<times> jval) list \<Rightarrow> 'a \<Rightarrow> 'a option" where
  "decodeMembers fields [] x = Some x"
| "decodeMembers fields ((k, v) # ms) x =
     (case fieldFor fields k of
        None \<Rightarrow> decodeMembers fields ms x
      | Some s \<Rightarrow> (case s v x of None \<Rightarrow> None | Some y \<Rightarrow> decodeMembers fields ms y))"

definition decodeStruct :: "(string \<times> 'a setter) list \<Rightarrow> 'a setter" where
  "decodeStruct fields v x =
     (case v of JNull \<Rightarrow> Some x | JObj ms \<Rightarrow> decodeMembers fields ms x | _ \<Rightarrow> None)"

text \<open>A nested struct is decoded into the field's present value.\<close>

definition setStruct :: "(string \<times> 'b setter) list \<Rightarrow> ('a \<Rightarrow> 'b) \<Rightarrow> (('b \<Rightarrow> 'b) \<Rightarrow> 'a \<Rightarrow> 'a) \<Rightarrow> 'a setter" where
  "setStruct fields get upd v x = map_option (\<lambda>y. upd (\<lambda>_. y) x) (decodeStruct fields v (get x))"

definition unmarshal :: "(string \<times> 'a setter) list \<Rightarrow> 'a \<Rightarrow> bytes \<Rightarrow> 'a option" where
  "unmarshal fields zero data =
     (case parseJson goLiteral (string_of data) of
        None \<Rightarrow> None
      | Some v \<Rightarrow> decodeStruct fields v zero)"

section \<open>Reading back what was encoded\<close>

lemma goLiteral_jsonInt [simp]: "goLiteral (jsonInt i) = JNum i"
  by (simp add: goLiteral_def)

lemma string_of_bytes_of [simp]: "string_of (bytes_of s) = s"
  by (simp add: string_of_def bytes_of_def comp_def)

lemma unmarshal_json:
  assumes "noRaw v" "jdepth v \<le> 10000"
  shows "unmarshal fields zero (json_marshal v) = decodeStruct fields v zero"
  using parseJson_text[of v goLiteral] assms by (simp add: unmarshal_def json_marshal_def)

lemma unmarshal_indent:
  assumes "noRaw v" "jdepth v \<le> 10000"
  shows "unmarshal fields zero (json_marshalIndent v) = unmarshal fields zero (json_marshal v)"
  using parseJson_text[of v goLiteral] parseJson_indent[of v goLiteral] assms
  by (simp add: unmarshal_def json_marshal_def json_marshalIndent_def)

named_theorems decode_simps \<open>decoding of encoded members\<close>

lemma setters [decode_simps]:
  "setStr upd (JStr s) x = Some (upd (\<lambda>_. s) x)"
  "setInt iupd (JNum i) x = (if fitsInt i then Some (iupd (\<lambda>_. i) x) else None)"
  "setSlice decode supd (JArr vs) x = map_option (\<lambda>ys. supd (\<lambda>_. ys) x) (those (map decode vs))"
  "setSlice decode supd JNull x = Some (supd (\<lambda>_. []) x)"
  by (simp_all add: setStr_def setInt_def setSlice_def)

lemma decodeStruct_obj [decode_simps]: "decodeStruct fields (JObj ms) x = decodeMembers fields ms x"
  by (simp add: decodeStruct_def)

lemma setWord_jU64 [decode_simps]: "setWord upd (jU64 w) x = Some (upd (\<lambda>_. w) x)"
  using uint_lt2p[of w] by (simp add: setWord_def jU64_def)

lemma fitsInt_small [simp]: "fitsInt (numeral k) \<longleftrightarrow> (numeral k :: int) < 2 ^ 63" "fitsInt 0" "fitsInt 1" "fitsInt (int i) \<longleftrightarrow> i < 2 ^ 63"
  by (simp_all add: fitsInt_def)

lemma decode_omitStr [decode_simps]:
  assumes "fieldFor fields k = Some (setStr upd)" "upd (\<lambda>_. []) x = x"
  shows "decodeMembers fields (omitStr k s @ ms) x = decodeMembers fields ms (upd (\<lambda>_. s) x)"
  using assms by (simp add: omitStr_def decode_simps)

lemma decode_omitU64 [decode_simps]:
  assumes "fieldFor fields k = Some (setWord upd)" "upd (\<lambda>_. 0) x = x"
  shows "decodeMembers fields (omitU64 k w @ ms) x = decodeMembers fields ms (upd (\<lambda>_. w) x)"
  using assms by (auto simp: omitU64_def decode_simps)

lemma decode_append: "decodeMembers fields (ms @ ms') x = Option.bind (decodeMembers fields ms x) (decodeMembers fields ms')"
  by (induction ms arbitrary: x) (auto split: option.splits)

lemma those_Some: "(\<And>x. x \<in> set xs \<Longrightarrow> f x = Some (g x)) \<Longrightarrow> those (map f xs) = Some (map g xs)"
  by (induction xs) auto

section \<open>Files\<close>

text \<open>\<open>os.File.ReadAt(b, off)\<close> of a file with the given contents, \<open>off\<close> being the conversion of a
  \<open>uint64\<close> to \<open>int64\<close>.\<close>

datatype io_error = NoSuchFile | NegativeOffset | EndOfFile

definition readAt :: "bytes \<Rightarrow> nat \<Rightarrow> u64 \<Rightarrow> io_error + bytes" where
  "readAt file n off =
     (if off \<ge> 2 ^ 63 then Inl NegativeOffset
      else let got = take n (drop (unat off) file)
           in if length got < n then Inl EndOfFile else Inr got)"

lemma readAt_eq_Inr:
  "readAt file n off = Inr b \<longleftrightarrow> off < 2 ^ 63 \<and> (n = 0 \<or> unat off + n \<le> length file) \<and> b = take n (drop (unat off) file)"
  by (auto simp: readAt_def Let_def not_le)

lemma length_readAt: "readAt file n off = Inr b \<Longrightarrow> length b = n"
  by (auto simp: readAt_def Let_def)

text \<open>\<open>os.Open\<close> and \<open>os.ReadFile\<close> on a file system that maps paths to contents.\<close>

definition openFile :: "(string \<rightharpoonup> bytes) \<Rightarrow> string \<Rightarrow> io_error + bytes" where
  "openFile fs path = ofOption NoSuchFile (fs path)"

end
