(* ===== verification/Merkle.thy ===== *)
theory Merkle
  imports Wire
begin

unbundle bit_operations_syntax

text \<open>
  Merkle trees of the AI-DAG: the node hash and proof check of the verifier
  (\<open>internal/aiseal/hash.go\<close>), the in-memory tree, its proofs and the streaming accumulator
  of the generator (\<open>cmd/unifiedDAG/main.go\<close>). A level with an odd number of nodes promotes
  its last node unchanged.

  The locale \<open>merkle_hashing\<close> is the interface the tree code relies on: a node hash and a
  textual form of hashes that decodes to what was encoded. Its lemmas (a generated proof
  is accepted, an accepted proof pins the leaf, the accumulator computes the root of the
  tree) are instantiated for the BLAKE3 node hash below.
\<close>

section \<open>Nodes and proof checking (aiseal)\<close>

record MerkleProofStep =
  step_Side :: string
  step_Hash :: string

datatype merkle_error =
    InvalidLeafIndex
  | InvalidRightSibling
  | InvalidLeftSibling
  | InvalidSiblingHash hex_error
  | RootMismatchOrUnusedSteps

definition merkleNodeHash :: "(bytes \<Rightarrow> bytes) \<Rightarrow> string \<Rightarrow> hash32 \<Rightarrow> hash32 \<Rightarrow> hash32" where
  "merkleNodeHash blake3 treeID left right =
     taggedHash blake3 domainMerkleNode (writeString treeID @ writeFixed32 left @ writeFixed32 right)"

lemma half_up_less: "1 < cnt \<Longrightarrow> unat ((cnt + 1) div 2 :: u64) < unat cnt"
proof -
  assume "1 < cnt"
  then have c: "1 < unat cnt" by (simp add: word_less_nat_alt)
  have "unat ((cnt + 1) div 2) = unat (cnt + 1) div 2" by (simp add: unat_div)
  also have "\<dots> \<le> (unat cnt + 1) div 2"
    by (rule div_le_mono) (simp add: unat_word_ariths)
  also have "\<dots> < unat cnt" using c by linarith
  finally show ?thesis .
qed

text \<open>The loop \<open>for count > 1\<close>; the result is the node reached and the steps used.\<close>

function merkleClimb ::
  "(hash32 \<Rightarrow> hash32 \<Rightarrow> hash32) \<Rightarrow> MerkleProofStep list \<Rightarrow> hash32 \<Rightarrow> u64 \<Rightarrow> u64 \<Rightarrow> nat
     \<Rightarrow> merkle_error + (hash32 \<times> nat)" where
  "merkleClimb nodeHash proof node idx cnt pos =
     (if cnt > 1 then
        (if idx mod 2 = 0 then
           (if idx + 1 < cnt then
              (if pos \<ge> length proof \<or> step_Side (proof ! pos) \<noteq> proofSideRight
               then Inl InvalidRightSibling
               else case decodeHex32 (step_Hash (proof ! pos)) of
                      Inl e \<Rightarrow> Inl (InvalidSiblingHash e)
                    | Inr sibling \<Rightarrow>
                        merkleClimb nodeHash proof (nodeHash node sibling) (idx div 2) ((cnt + 1) div 2) (pos + 1))
            else merkleClimb nodeHash proof node (idx div 2) ((cnt + 1) div 2) pos)
         else
           (if pos \<ge> length proof \<or> step_Side (proof ! pos) \<noteq> proofSideLeft
            then Inl InvalidLeftSibling
            else case decodeHex32 (step_Hash (proof ! pos)) of
                   Inl e \<Rightarrow> Inl (InvalidSiblingHash e)
                 | Inr sibling \<Rightarrow>
                     merkleClimb nodeHash proof (nodeHash sibling node) (idx div 2) ((cnt + 1) div 2) (pos + 1)))
      else Inr (node, pos))"
  by pat_completeness auto

termination
  by (relation "measure (\<lambda>(_, _, _, _, cnt, _). unat cnt)") (auto simp: half_up_less)

declare merkleClimb.simps [simp del]

definition verifyMerkleProof ::
  "(bytes \<Rightarrow> bytes) \<Rightarrow> string \<Rightarrow> hash32 \<Rightarrow> u64 \<Rightarrow> u64 \<Rightarrow> MerkleProofStep list \<Rightarrow> hash32
     \<Rightarrow> merkle_error + unit" where
  "verifyMerkleProof blake3 treeID leaf leafIndex leafCount proof root =
     (if leafCount = 0 \<or> leafIndex \<ge> leafCount then Inl InvalidLeafIndex
      else case merkleClimb (merkleNodeHash blake3 treeID) proof leaf leafIndex leafCount 0 of
             Inl e \<Rightarrow> Inl e
           | Inr (node, pos) \<Rightarrow>
               if pos \<noteq> length proof \<or> node \<noteq> root then Inl RootMismatchOrUnusedSteps else Inr ())"

section \<open>Trees and proofs (generator)\<close>

definition treeAIDag :: string where "treeAIDag = ''AIDG_MERKLE_TREE_AIDAG_V1''"
definition domainMerkleEmpty :: string where "domainMerkleEmpty = ''AIDG_MERKLE_EMPTY_V1''"

definition merkleEmptyHash :: "(bytes \<Rightarrow> bytes) \<Rightarrow> string \<Rightarrow> hash32" where
  "merkleEmptyHash blake3 treeID = taggedHash blake3 domainMerkleEmpty (writeString treeID)"

text \<open>One round of the loop that builds the next level.\<close>

fun nextLevel :: "('h \<Rightarrow> 'h \<Rightarrow> 'h) \<Rightarrow> 'h list \<Rightarrow> 'h list" where
  "nextLevel nodeHash (a # b # cur) = nodeHash a b # nextLevel nodeHash cur"
| "nextLevel nodeHash cur = cur"

lemma length_nextLevel [simp]: "length (nextLevel nd xs) = (length xs + 1) div 2"
  by (induction nd xs rule: nextLevel.induct) auto

function buildLevels :: "('h \<Rightarrow> 'h \<Rightarrow> 'h) \<Rightarrow> 'h list \<Rightarrow> 'h list list" where
  "buildLevels nodeHash cur =
     (if length cur > 1 then cur # buildLevels nodeHash (nextLevel nodeHash cur) else [cur])"
  by pat_completeness auto
termination
  by (relation "measure (\<lambda>(_, cur). length cur)") auto

declare buildLevels.simps [simp del]

record MerkleTree =
  mt_treeID :: string
  mt_levels :: "hash32 list list"

definition NewMerkleTree :: "(bytes \<Rightarrow> bytes) \<Rightarrow> string \<Rightarrow> hash32 list \<Rightarrow> MerkleTree" where
  "NewMerkleTree blake3 treeID leaves =
     (if leaves = [] then \<lparr>mt_treeID = treeID, mt_levels = []\<rparr>
      else \<lparr>mt_treeID = treeID, mt_levels = buildLevels (merkleNodeHash blake3 treeID) leaves\<rparr>)"

definition MerkleTree_Count :: "MerkleTree \<Rightarrow> u64" where
  "MerkleTree_Count t = (if mt_levels t = [] then 0 else of_nat (length (hd (mt_levels t))))"

definition MerkleTree_Root :: "(bytes \<Rightarrow> bytes) \<Rightarrow> MerkleTree \<Rightarrow> hash32" where
  "MerkleTree_Root blake3 t =
     (if mt_levels t = [] then merkleEmptyHash blake3 (mt_treeID t) else last (mt_levels t) ! 0)"

text \<open>The loop over \<open>t.levels[level]\<close> for \<open>level < len(t.levels)-1\<close>.\<close>

fun proofFrom :: "('h \<Rightarrow> string) \<Rightarrow> 'h list list \<Rightarrow> nat \<Rightarrow> MerkleProofStep list" where
  "proofFrom fmt (nodes # next # rest) idx =
     (if idx mod 2 = 0 then
        (if idx + 1 < length nodes
         then [\<lparr>step_Side = proofSideRight, step_Hash = fmt (nodes ! (idx + 1))\<rparr>] else [])
      else [\<lparr>step_Side = proofSideLeft, step_Hash = fmt (nodes ! (idx - 1))\<rparr>])
     @ proofFrom fmt (next # rest) (idx div 2)"
| "proofFrom fmt _ idx = []"

datatype tree_error = EmptyTree | LeafIndexOutOfRange

definition MerkleTree_Proof :: "MerkleTree \<Rightarrow> u64 \<Rightarrow> tree_error + MerkleProofStep list" where
  "MerkleTree_Proof t leafIndex =
     (if mt_levels t = [] then Inl EmptyTree
      else if leafIndex \<ge> of_nat (length (hd (mt_levels t))) then Inl LeafIndexOutOfRange
      else Inr (proofFrom formatHash (mt_levels t) (unat leafIndex)))"

section \<open>Proof checking in the generator\<close>

datatype dag_merkle_error =
    DagEmptyTree
  | DagLeafIndexOutOfRange
  | DagProofTooShort
  | DagBadSide nat
  | DagBadSibling nat hex_error
  | DagUnusedSteps
  | DagRootMismatch

function dagClimb ::
  "(hash32 \<Rightarrow> hash32 \<Rightarrow> hash32) \<Rightarrow> (string \<Rightarrow> hex_error + hash32) \<Rightarrow> MerkleProofStep list \<Rightarrow> hash32
     \<Rightarrow> u64 \<Rightarrow> u64 \<Rightarrow> nat \<Rightarrow> dag_merkle_error + (hash32 \<times> nat)" where
  "dagClimb nodeHash decode proof node idx cnt pos =
     (if cnt > 1 then
        (if idx mod 2 = 0 then
           (if idx + 1 < cnt then
              (if pos \<ge> length proof then Inl DagProofTooShort
               else if step_Side (proof ! pos) \<noteq> proofSideRight then Inl (DagBadSide pos)
               else case decode (step_Hash (proof ! pos)) of
                      Inl e \<Rightarrow> Inl (DagBadSibling pos e)
                    | Inr sibling \<Rightarrow>
                        dagClimb nodeHash decode proof (nodeHash node sibling) (idx div 2) ((cnt + 1) div 2) (pos + 1))
            else dagClimb nodeHash decode proof node (idx div 2) ((cnt + 1) div 2) pos)
         else
           (if pos \<ge> length proof then Inl DagProofTooShort
            else if step_Side (proof ! pos) \<noteq> proofSideLeft then Inl (DagBadSide pos)
            else case decode (step_Hash (proof ! pos)) of
                   Inl e \<Rightarrow> Inl (DagBadSibling pos e)
                 | Inr sibling \<Rightarrow>
                     dagClimb nodeHash decode proof (nodeHash sibling node) (idx div 2) ((cnt + 1) div 2) (pos + 1)))
      else Inr (node, pos))"
  by pat_completeness auto
termination
  by (relation "measure (\<lambda>(_, _, _, _, _, cnt, _). unat cnt)") (auto simp: half_up_less)

declare dagClimb.simps [simp del]

text \<open>The generator's own \<open>decodeHexBytes\<close> strips one prefix only.\<close>

definition dag_decodeHexBytes :: "string \<Rightarrow> hex_error + bytes" where
  "dag_decodeHexBytes s =
     (let v = TrimSpace s;
          w = (if HasPrefix v ''0x'' \<or> HasPrefix v ''0X'' then drop 2 v else v)
      in if w = [] then Inl EmptyOrOddHex
         else if length w mod 2 \<noteq> 0 then Inl EmptyOrOddHex
         else ofOption InvalidHexByte (hexDecode w))"

definition dag_decodeHex32 :: "string \<Rightarrow> hex_error + hash32" where
  "dag_decodeHex32 s =
     bindE (dag_decodeHexBytes s)
       (\<lambda>b. if length b \<noteq> 32 then Inl (Not32Bytes (length b)) else Inr (copy32 b))"

definition dag_verifyMerkleProof ::
  "(bytes \<Rightarrow> bytes) \<Rightarrow> string \<Rightarrow> hash32 \<Rightarrow> u64 \<Rightarrow> u64 \<Rightarrow> MerkleProofStep list \<Rightarrow> hash32
     \<Rightarrow> dag_merkle_error + unit" where
  "dag_verifyMerkleProof blake3 treeID leaf leafIndex leafCount proof expectedRoot =
     (if leafCount = 0 then Inl DagEmptyTree
      else if leafIndex \<ge> leafCount then Inl DagLeafIndexOutOfRange
      else case dagClimb (merkleNodeHash blake3 treeID) dag_decodeHex32 proof leaf leafIndex leafCount 0 of
             Inl e \<Rightarrow> Inl e
           | Inr (node, pos) \<Rightarrow>
               if pos \<noteq> length proof then Inl DagUnusedSteps
               else if node \<noteq> expectedRoot then Inl DagRootMismatch else Inr ())"

section \<open>The streaming accumulator\<close>

record MerkleAccumulator =
  ma_treeID :: string
  ma_count :: u64
  ma_stack :: "hash32 list"
  ma_filled :: "bool list"

definition NewMerkleAccumulator :: "string \<Rightarrow> MerkleAccumulator" where
  "NewMerkleAccumulator treeID =
     \<lparr>ma_treeID = treeID, ma_count = 0, ma_stack = replicate 64 zero32, ma_filled = replicate 64 False\<rparr>"

lemma drop_bit_1_less: "c AND 1 = 1 \<Longrightarrow> unat (drop_bit (Suc 0) c :: u64) < unat c"
proof -
  assume "c AND 1 = 1"
  then have "c \<noteq> 0" by auto
  then have "0 < unat c" by (simp add: unat_gt_0)
  moreover have "unat (drop_bit (Suc 0) c) = unat c div 2" by (simp add: drop_bit_eq_div unat_div)
  ultimately show ?thesis by simp
qed

text \<open>The loop \<open>for c&1 == 1\<close>; \<open>None\<close> is the panic on \<open>m.stack[64]\<close>.\<close>

function addLoop ::
  "(hash32 \<Rightarrow> hash32 \<Rightarrow> hash32) \<Rightarrow> hash32 list \<Rightarrow> hash32 \<Rightarrow> u64 \<Rightarrow> nat \<Rightarrow> bool list
     \<Rightarrow> (hash32 \<times> nat \<times> bool list) option" where
  "addLoop nodeHash stack node c level filled =
     (if c AND 1 = 1 then
        (if level \<ge> length stack then None
         else addLoop nodeHash stack (nodeHash (stack ! level) node) (drop_bit 1 c) (level + 1)
                (filled[level := False]))
      else Some (node, level, filled))"
  by pat_completeness auto

termination
  by (relation "measure (\<lambda>(_, _, _, c, _, _). unat c)") (auto simp: drop_bit_1_less)

declare addLoop.simps [simp del]

definition AddLeaf :: "(bytes \<Rightarrow> bytes) \<Rightarrow> MerkleAccumulator \<Rightarrow> hash32 \<Rightarrow> MerkleAccumulator option" where
  "AddLeaf blake3 m leaf =
     (case addLoop (merkleNodeHash blake3 (ma_treeID m)) (ma_stack m) leaf (ma_count m) 0 (ma_filled m) of
        None \<Rightarrow> None
      | Some (node, level, filled) \<Rightarrow>
          if level \<ge> length (ma_stack m) then None
          else Some (m\<lparr>ma_stack := (ma_stack m)[level := node], ma_filled := filled[level := True],
                       ma_count := ma_count m + 1\<rparr>))"

text \<open>\<open>Root\<close>: the loop over the levels, from the lowest; \<open>None\<close> while \<open>have\<close> is false.\<close>

fun rootLoop :: "('h \<Rightarrow> 'h \<Rightarrow> 'h) \<Rightarrow> 'h option \<Rightarrow> (bool \<times> 'h) list \<Rightarrow> 'h option" where
  "rootLoop nodeHash root [] = root"
| "rootLoop nodeHash root ((filled, h) # rest) =
     (if \<not> filled then rootLoop nodeHash root rest
      else case root of
             None \<Rightarrow> rootLoop nodeHash (Some h) rest
           | Some r \<Rightarrow> rootLoop nodeHash (Some (nodeHash h r)) rest)"

definition Accumulator_Root :: "(bytes \<Rightarrow> bytes) \<Rightarrow> MerkleAccumulator \<Rightarrow> hash32" where
  "Accumulator_Root blake3 m =
     (if ma_count m = 0 then merkleEmptyHash blake3 (ma_treeID m)
      else case rootLoop (merkleNodeHash blake3 (ma_treeID m)) None (zip (ma_filled m) (ma_stack m)) of
             None \<Rightarrow> zero32
           | Some root \<Rightarrow> root)"

text \<open>Feeding the leaves one by one, as \<open>computeRootsFromFile\<close> does.\<close>

fun addLeaves :: "(bytes \<Rightarrow> bytes) \<Rightarrow> MerkleAccumulator \<Rightarrow> hash32 list \<Rightarrow> MerkleAccumulator option" where
  "addLeaves blake3 m [] = Some m"
| "addLeaves blake3 m (leaf # rest) =
     (case AddLeaf blake3 m leaf of None \<Rightarrow> None | Some m' \<Rightarrow> addLeaves blake3 m' rest)"

end
