(* ===== verification/Merkle_Laws.thy ===== *)
theory Merkle_Laws
  imports Merkle
begin

unbundle bit_operations_syntax

text \<open>
  What the Merkle code guarantees. The locale \<open>merkle_hashing\<close> fixes a node hash that
  returns 32 bytes; inside it a proof read off a tree is accepted by the checking loop, an
  accepted proof either carries the leaf of the tree or exhibits two different pairs with the
  same node hash, and the streaming accumulator computes the root of the tree. The locale is
  interpreted on the BLAKE3 node hash of the sources.
\<close>

section \<open>Levels\<close>

lemma nth_nextLevel:
  "i < length xs \<Longrightarrow>
     nextLevel nd xs ! (i div 2) =
       (if even i then (if i + 1 < length xs then nd (xs ! i) (xs ! (i + 1)) else xs ! i)
        else nd (xs ! (i - 1)) (xs ! i))"
proof (induction nd xs arbitrary: i rule: nextLevel.induct)
  case (1 nd a b cur)
  show ?case
  proof (cases "i < 2")
    case True
    then have "i = 0 \<or> i = 1" by auto
    then show ?thesis by auto
  next
    case False
    then obtain j where j: "i = j + 2" by (metis add.commute le_iff_add not_less)
    then show ?thesis using "1.IH"[of j] "1.prems" by (auto elim: oddE)
  qed
qed auto

lemma nextLevel_append_even:
  "even (length xs) \<Longrightarrow> nextLevel nd (xs @ ys) = nextLevel nd xs @ nextLevel nd ys"
  by (induction nd xs rule: nextLevel.induct) auto

definition treeRoot :: "('h \<Rightarrow> 'h \<Rightarrow> 'h) \<Rightarrow> 'h list \<Rightarrow> 'h" where
  "treeRoot nd xs = hd (last (buildLevels nd xs))"

lemma buildLevels_ne [simp]: "buildLevels nd xs \<noteq> []"
  by (subst buildLevels.simps) simp

lemma hd_buildLevels [simp]: "hd (buildLevels nd xs) = xs"
  by (subst buildLevels.simps) simp

lemma treeRoot_single [simp]: "treeRoot nd [x] = x"
  by (simp add: treeRoot_def buildLevels.simps)

lemma treeRoot_nextLevel: "treeRoot nd (nextLevel nd xs) = treeRoot nd xs"
proof (cases "1 < length xs")
  case True
  then show ?thesis by (simp add: treeRoot_def buildLevels.simps[of nd xs])
next
  case False
  then have "nextLevel nd xs = xs" by (cases xs rule: remdups_adj.cases) auto
  then show ?thesis by simp
qed

lemma last_buildLevels: "xs \<noteq> [] \<Longrightarrow> last (buildLevels nd xs) = [treeRoot nd xs]"
proof (induction nd xs rule: buildLevels.induct)
  case (1 nd xs)
  show ?case
  proof (cases "1 < length xs")
    case True
    then have "nextLevel nd xs \<noteq> []" by (auto simp flip: length_greater_0_conv)
    then have "last (buildLevels nd (nextLevel nd xs)) = [treeRoot nd (nextLevel nd xs)]"
      using True "1.IH" by blast
    then show ?thesis using True by (simp add: buildLevels.simps[of nd xs] treeRoot_nextLevel)
  next
    case False
    then show ?thesis using "1.prems" by (cases xs) (auto simp: buildLevels.simps treeRoot_def)
  qed
qed

lemma MerkleTree_Root_eq:
  "MerkleTree_Root blake3 (NewMerkleTree blake3 treeID xs) =
     (if xs = [] then merkleEmptyHash blake3 treeID else treeRoot (merkleNodeHash blake3 treeID) xs)"
  by (simp add: MerkleTree_Root_def NewMerkleTree_def last_buildLevels)

lemma proofFrom_step:
  "1 < length xs \<Longrightarrow>
     proofFrom fmt (buildLevels nd xs) i =
       (if even i then (if i + 1 < length xs
          then [\<lparr>step_Side = proofSideRight, step_Hash = fmt (xs ! (i + 1))\<rparr>] else [])
        else [\<lparr>step_Side = proofSideLeft, step_Hash = fmt (xs ! (i - 1))\<rparr>])
       @ proofFrom fmt (buildLevels nd (nextLevel nd xs)) (i div 2)"
proof -
  assume len: "1 < length xs"
  obtain l rest where "buildLevels nd (nextLevel nd xs) = l # rest"
    by (meson buildLevels_ne neq_Nil_conv)
  then show ?thesis using len by (auto simp: buildLevels.simps[of nd xs] even_iff_mod_2_eq_zero)
qed

lemma proofFrom_single [simp]: "length xs \<le> 1 \<Longrightarrow> proofFrom fmt (buildLevels nd xs) i = []"
  by (subst buildLevels.simps) simp

section \<open>The checking loop on natural numbers\<close>

lemma of_nat_u64_less: "a < 2 ^ 64 \<Longrightarrow> b < 2 ^ 64 \<Longrightarrow> (of_nat a :: u64) < of_nat b \<longleftrightarrow> a < b"
  by (simp add: word_less_nat_alt unat_of_nat)

lemma of_nat_u64_eq: "a < 2 ^ 64 \<Longrightarrow> b < 2 ^ 64 \<Longrightarrow> (of_nat a :: u64) = of_nat b \<longleftrightarrow> a = b"
  by (simp add: word_unat_eq_iff unat_of_nat)

lemma of_nat_u64_div2: "a < 2 ^ 64 \<Longrightarrow> (of_nat a :: u64) div 2 = of_nat (a div 2)"
  by (simp add: word_unat_eq_iff unat_div unat_of_nat)

lemma of_nat_u64_mod2: "a < 2 ^ 64 \<Longrightarrow> (of_nat a :: u64) mod 2 = 0 \<longleftrightarrow> even a"
  by (simp add: word_unat_eq_iff unat_mod unat_of_nat even_iff_mod_2_eq_zero)

lemma of_nat_u64_half_up: "a + 1 < 2 ^ 64 \<Longrightarrow> ((of_nat a :: u64) + 1) div 2 = of_nat ((a + 1) div 2)"
  using of_nat_u64_div2[of "a + 1"] by (simp add: add.commute)

lemmas u64_nat = of_nat_u64_less of_nat_u64_eq of_nat_u64_div2 of_nat_u64_mod2 of_nat_u64_half_up

lemma merkleClimb_nat:
  assumes "i < n" "n + 1 < 2 ^ 64"
  shows "merkleClimb nd path node (of_nat i) (of_nat n) pos =
    (if n \<le> 1 then Inr (node, pos)
     else if even i \<and> n \<le> i + 1 then merkleClimb nd path node (of_nat (i div 2)) (of_nat ((n + 1) div 2)) pos
     else if pos \<ge> length path \<or> step_Side (path ! pos) \<noteq> (if even i then proofSideRight else proofSideLeft)
     then Inl (if even i then InvalidRightSibling else InvalidLeftSibling)
     else case decodeHex32 (step_Hash (path ! pos)) of
            Inl e \<Rightarrow> Inl (InvalidSiblingHash e)
          | Inr sibling \<Rightarrow> merkleClimb nd path (if even i then nd node sibling else nd sibling node)
                (of_nat (i div 2)) (of_nat ((n + 1) div 2)) (pos + 1))"
proof -
  have gt: "(1 :: u64) < of_nat n \<longleftrightarrow> 1 < n"
    using of_nat_u64_less[of 1 n] assms by simp
  have lt: "(of_nat i :: u64) + 1 < of_nat n \<longleftrightarrow> i + 1 < n"
    using of_nat_u64_less[of "i + 1" n] assms by (simp add: add.commute)
  note ar = of_nat_u64_mod2[of i] of_nat_u64_div2[of i] of_nat_u64_half_up[of n]
  show ?thesis
    by (subst merkleClimb.simps) (use assms in \<open>simp add: gt lt ar not_le cong: sum.case_cong\<close>)
qed

text \<open>The pairs a run of the checking loop hashes, in order.\<close>

function climbPairs ::
  "(hash32 \<Rightarrow> hash32 \<Rightarrow> hash32) \<Rightarrow> MerkleProofStep list \<Rightarrow> hash32 \<Rightarrow> nat \<Rightarrow> nat \<Rightarrow> nat
     \<Rightarrow> (hash32 \<times> hash32) list" where
  "climbPairs nd path node i n pos =
     (if n \<le> 1 then []
      else if even i \<and> n \<le> i + 1 then climbPairs nd path node (i div 2) ((n + 1) div 2) pos
      else if pos \<ge> length path then []
      else case decodeHex32 (step_Hash (path ! pos)) of
             Inl e \<Rightarrow> []
           | Inr s \<Rightarrow> let p = (if even i then (node, s) else (s, node)) in
               p # climbPairs nd path (nd (fst p) (snd p)) (i div 2) ((n + 1) div 2) (pos + 1))"
  by pat_completeness auto
termination
  by (relation "measure (\<lambda>(_, _, _, _, n, _). n)") auto

declare climbPairs.simps [simp del]

text \<open>The pairs hashed while the levels are built.\<close>

fun levelPairs :: "'h list \<Rightarrow> ('h \<times> 'h) list" where
  "levelPairs (a # b # cur) = (a, b) # levelPairs cur"
| "levelPairs cur = []"

definition treePairs :: "('h \<Rightarrow> 'h \<Rightarrow> 'h) \<Rightarrow> 'h list \<Rightarrow> ('h \<times> 'h) list" where
  "treePairs nd xs = concat (map levelPairs (buildLevels nd xs))"

lemma levelPairs_mem:
  "even i \<Longrightarrow> i + 1 < length xs \<Longrightarrow> (xs ! i, xs ! (i + 1)) \<in> set (levelPairs xs)"
proof (induction xs arbitrary: i rule: levelPairs.induct)
  case (1 a b cur)
  show ?case
  proof (cases "i < 2")
    case True
    then have "i = 0" using "1.prems"(1) by (cases i) auto
    then show ?thesis by simp
  next
    case False
    then obtain j where j: "i = j + 2" by (metis add.commute le_iff_add not_less)
    then show ?thesis using "1.IH"[of j] "1.prems" by simp
  qed
qed auto

lemma treePairs_step:
  "1 < length xs \<Longrightarrow> set (treePairs nd xs) = set (levelPairs xs) \<union> set (treePairs nd (nextLevel nd xs))"
  by (simp add: treePairs_def buildLevels.simps[of nd xs])

section \<open>Completeness and soundness of proofs\<close>

locale merkle_hashing =
  fixes nd :: "hash32 \<Rightarrow> hash32 \<Rightarrow> hash32"
  assumes length_nd [simp]: "length (nd a b) = 32"
begin

lemma nextLevel_lengths:
  "\<forall>x \<in> set xs. length x = 32 \<Longrightarrow> \<forall>x \<in> set (nextLevel nd xs). length x = 32"
  by (induction xs rule: induct_list012) auto

lemma half_bounds:
  fixes i n :: nat
  assumes "i < n" "1 < n" "n + 1 < 2 ^ 64"
  shows "i div 2 < (n + 1) div 2" "(n + 1) div 2 + 1 < 2 ^ 64" "(n + 1) div 2 < n"
  using assms by auto

lemma climb_complete:
  assumes "\<forall>x \<in> set xs. length x = 32" "i < length xs" "length xs + 1 < 2 ^ 64"
  shows "merkleClimb nd (pre @ proofFrom formatHash (buildLevels nd xs) i) (xs ! i)
           (of_nat i) (of_nat (length xs)) (length pre) =
         Inr (treeRoot nd xs, length pre + length (proofFrom formatHash (buildLevels nd xs) i))"
  using assms
proof (induction "length xs" arbitrary: xs i pre rule: less_induct)
  case less
  show ?case
  proof (cases "1 < length xs")
    case False
    then have "xs = [xs ! 0]" "i = 0" using less.prems(2) by (cases xs, auto)
    then have "treeRoot nd xs = xs ! i" by (metis treeRoot_single)
    then show ?thesis
      using False less.prems by (simp add: merkleClimb_nat[of i])
  next
    case True
    define ys j where "ys = nextLevel nd xs" and "j = i div 2"
    note hb = half_bounds[OF less.prems(2) True less.prems(3)]
    have ys: "length ys = (length xs + 1) div 2" by (simp add: ys_def)
    note IH = less.hyps[of ys j, unfolded ys, OF hb(3) nextLevel_lengths[OF less.prems(1), folded ys_def] _ hb(2)]
    have ysj: "ys ! j = (if even i then (if i + 1 < length xs then nd (xs ! i) (xs ! (i + 1)) else xs ! i)
        else nd (xs ! (i - 1)) (xs ! i))"
      unfolding ys_def j_def by (rule nth_nextLevel[OF less.prems(2)])
    have root: "treeRoot nd ys = treeRoot nd xs" by (simp add: ys_def treeRoot_nextLevel)
    have dec: "decodeHex32 (formatHash (xs ! k)) = Inr (xs ! k)" if "k < length xs" for k
      using less.prems(1) that by simp
    have j: "j < (length xs + 1) div 2" using hb(1) by (simp add: j_def)
    note step = merkleClimb_nat[OF less.prems(2,3), where nd = nd] proofFrom_step[OF True, of formatHash nd i]
    show ?thesis
    proof (cases "even i \<and> length xs \<le> i + 1")
      case skip: True
      then show ?thesis using True IH[of pre] j ysj root
        by (simp add: step flip: ys_def j_def)
    next
      case False
      define st where "st = (if even i
        then \<lparr>step_Side = proofSideRight, step_Hash = formatHash (xs ! (i + 1))\<rparr>
        else \<lparr>step_Side = proofSideLeft, step_Hash = formatHash (xs ! (i - 1))\<rparr>)"
      have pf: "proofFrom formatHash (buildLevels nd xs) i = st # proofFrom formatHash (buildLevels nd ys) j"
        using False step(2) by (auto simp: st_def ys_def j_def)
      have "decodeHex32 (step_Hash st) = Inr (if even i then xs ! (i + 1) else xs ! (i - 1))"
        using False dec less.prems(2) by (auto simp: st_def)
      then show ?thesis
        using True False IH[of "pre @ [st]"] j ysj root
        by (auto simp: step(1) pf st_def simp flip: j_def)
    qed
  qed
qed

lemma climb_sound:
  assumes "merkleClimb nd path node (of_nat i) (of_nat (length xs)) pos = Inr (treeRoot nd xs, pos')"
    "i < length xs" "length xs + 1 < 2 ^ 64"
  shows "node = xs ! i \<or>
    (\<exists>p \<in> set (climbPairs nd path node i (length xs) pos). \<exists>q \<in> set (treePairs nd xs).
       p \<noteq> q \<and> nd (fst p) (snd p) = nd (fst q) (snd q))"
  using assms
proof (induction "length xs" arbitrary: xs i node pos rule: less_induct)
  case less
  show ?case
  proof (cases "1 < length xs")
    case False
    then have "xs = [xs ! 0]" "i = 0" using less.prems(2) by (cases xs, auto)
    then have "treeRoot nd xs = xs ! i" by (metis treeRoot_single)
    then show ?thesis using False less.prems by (simp add: merkleClimb_nat[of i])
  next
    case True
    define ys j where "ys = nextLevel nd xs" and "j = i div 2"
    note hb = half_bounds[OF less.prems(2) True less.prems(3)]
    have ys: "length ys = (length xs + 1) div 2" by (simp add: ys_def)
    have j: "j < (length xs + 1) div 2" using hb(1) by (simp add: j_def)
    have root: "treeRoot nd ys = treeRoot nd xs" by (simp add: ys_def treeRoot_nextLevel)
    note IH = less.hyps[of ys, unfolded ys, OF hb(3) _ j hb(2), unfolded root]
    have ysj: "ys ! j = (if even i then (if i + 1 < length xs then nd (xs ! i) (xs ! (i + 1)) else xs ! i)
        else nd (xs ! (i - 1)) (xs ! i))"
      unfolding ys_def j_def by (rule nth_nextLevel[OF less.prems(2)])
    have tp: "set (treePairs nd xs) = set (levelPairs xs) \<union> set (treePairs nd ys)"
      unfolding ys_def by (rule treePairs_step[OF True])
    note climb = less.prems(1)[unfolded merkleClimb_nat[OF less.prems(2,3)], folded j_def]
    note cp = climbPairs.simps[of nd path node i "length xs" pos, folded j_def]
    show ?thesis
    proof (cases "even i \<and> length xs \<le> i + 1")
      case skip: True
      then have "ys ! j = xs ! i" using ysj by auto
      moreover have "merkleClimb nd path node (of_nat j) (of_nat ((length xs + 1) div 2)) pos
          = Inr (treeRoot nd xs, pos')"
        using climb True skip by simp
      moreover have "climbPairs nd path node i (length xs) pos =
          climbPairs nd path node j ((length xs + 1) div 2) pos"
        using True skip by (subst cp) simp
      ultimately show ?thesis using IH[of node pos] tp by (metis UnI2)
    next
      case False
      then obtain s where s: "pos < length path" "decodeHex32 (step_Hash (path ! pos)) = Inr s"
        using climb True by (auto split: if_splits sum.splits)
      define p q where "p = (if even i then (node, s) else (s, node))"
        and "q = (if even i then (xs ! i, xs ! (i + 1)) else (xs ! (i - 1), xs ! i))"
      have q: "q \<in> set (levelPairs xs)" "ys ! j = nd (fst q) (snd q)"
        using False less.prems(2) levelPairs_mem[of i xs] levelPairs_mem[of "i - 1" xs] ysj
        by (auto simp: q_def)
      have pairs: "climbPairs nd path node i (length xs) pos =
          p # climbPairs nd path (nd (fst p) (snd p)) j ((length xs + 1) div 2) (pos + 1)"
        using True False s by (auto simp: cp p_def Let_def)
      have "merkleClimb nd path (nd (fst p) (snd p)) (of_nat j) (of_nat ((length xs + 1) div 2)) (pos + 1)
          = Inr (treeRoot nd xs, pos')"
        using climb True False s by (auto simp: p_def split: if_splits)
      then have "nd (fst p) (snd p) = ys ! j \<or>
        (\<exists>p' \<in> set (climbPairs nd path (nd (fst p) (snd p)) j ((length xs + 1) div 2) (pos + 1)).
         \<exists>q' \<in> set (treePairs nd ys). p' \<noteq> q' \<and> nd (fst p') (snd p') = nd (fst q') (snd q'))"
        by (rule IH)
      moreover have "node = xs ! i" if "p = q" using that by (auto simp: p_def q_def split: if_splits)
      ultimately show ?thesis using q tp pairs by (metis UnI1 UnI2 list.set_intros(1,2))
    qed
  qed
qed

end

interpretation node: merkle_hashing "merkleNodeHash blake3 treeID" for blake3 treeID
  by unfold_locales (simp add: merkleNodeHash_def)

section \<open>The accumulator as a binary counter\<close>

text \<open>The filled levels of the accumulator, lowest first, as an option list.\<close>

fun addBin :: "('h \<Rightarrow> 'h \<Rightarrow> 'h) \<Rightarrow> 'h \<Rightarrow> 'h option list \<Rightarrow> 'h option list" where
  "addBin nd x [] = [Some x]"
| "addBin nd x (None # bs) = Some x # bs"
| "addBin nd x (Some h # bs) = None # addBin nd (nd h x) bs"

fun rootBits :: "('h \<Rightarrow> 'h \<Rightarrow> 'h) \<Rightarrow> 'h option \<Rightarrow> 'h option list \<Rightarrow> 'h option" where
  "rootBits nd r [] = r"
| "rootBits nd r (None # bs) = rootBits nd r bs"
| "rootBits nd None (Some h # bs) = rootBits nd (Some h) bs"
| "rootBits nd (Some r) (Some h # bs) = rootBits nd (Some (nd h r)) bs"

definition bits :: "('h \<Rightarrow> 'h \<Rightarrow> 'h) \<Rightarrow> 'h list \<Rightarrow> 'h option list" where
  "bits nd xs = foldl (\<lambda>bs x. addBin nd x bs) [] xs"

fun pairs :: "('h \<Rightarrow> 'h \<Rightarrow> 'h) \<Rightarrow> 'h list \<Rightarrow> 'h list" where
  "pairs nd (a # b # xs) = nd a b # pairs nd xs"
| "pairs nd xs = []"

lemma bits_Nil [simp]: "bits nd [] = []"
  by (simp add: bits_def)

lemma bits_snoc: "bits nd (xs @ [x]) = addBin nd x (bits nd xs)"
  by (simp add: bits_def)

lemma length_pairs [simp]: "length (pairs nd xs) = length xs div 2"
  by (induction nd xs rule: pairs.induct) auto

lemma pairs_snoc:
  "pairs nd (xs @ [x]) = (if even (length xs) then pairs nd xs else pairs nd xs @ [nd (last xs) x])"
proof (induction nd xs rule: pairs.induct)
  case (1 nd a b xs)
  then show ?case by (cases xs) auto
qed auto

lemma bits_pairs:
  "xs \<noteq> [] \<Longrightarrow> bits nd xs = (if odd (length xs) then Some (last xs) else None) # bits nd (pairs nd xs)"
proof (induction xs rule: rev_induct)
  case (snoc x xs)
  show ?case
  proof (cases "xs = []")
    case False
    then show ?thesis using snoc.IH by (simp add: bits_snoc pairs_snoc)
  qed (simp add: bits_def)
qed simp

lemma length_bits: "length xs < 2 ^ k \<Longrightarrow> length (bits nd xs) \<le> k"
proof (induction k arbitrary: xs)
  case (Suc k)
  show ?case
  proof (cases "xs = []")
    case False
    have "length (pairs nd xs) < 2 ^ k" using Suc.prems by auto
    then show ?thesis using Suc.IH False by (simp add: bits_pairs)
  qed simp
qed simp

lemma bits_filled:
  "l < length (bits nd xs) \<Longrightarrow> bits nd xs ! l \<noteq> None \<longleftrightarrow> bit (length xs) l"
proof (induction l arbitrary: xs)
  case 0
  then have "xs \<noteq> []" by auto
  then show ?case by (simp add: bits_pairs bit_0)
next
  case (Suc l)
  then have "xs \<noteq> []" by auto
  then show ?case using Suc.IH[of "pairs nd xs"] Suc.prems by (simp add: bits_pairs bit_Suc)
qed

lemma not_bit_beyond: "length (bits nd xs) \<le> l \<Longrightarrow> \<not> bit (length xs) l"
proof (induction l arbitrary: xs)
  case 0
  then have "xs = []" using bits_pairs[of xs nd] by fastforce
  then show ?case by simp
next
  case (Suc l)
  show ?case
  proof (cases "xs = []")
    case False
    then show ?thesis using Suc.IH[of "pairs nd xs"] Suc.prems by (simp add: bits_pairs bit_Suc)
  qed simp
qed

fun optList :: "'h option \<Rightarrow> 'h list" where
  "optList None = []"
| "optList (Some r) = [r]"

lemma nextLevel_pairs:
  "nextLevel nd (xs @ optList r) = pairs nd xs @ optList
     (if even (length xs) then r else case r of None \<Rightarrow> Some (last xs) | Some y \<Rightarrow> Some (nd (last xs) y))"
proof (induction nd xs rule: pairs.induct)
  case (1 nd a b xs)
  then show ?case by (cases xs) (auto split: option.splits)
qed (cases r; simp)+

lemma rootBits_bits:
  "xs @ optList r \<noteq> [] \<Longrightarrow> rootBits nd r (bits nd xs) = Some (treeRoot nd (xs @ optList r))"
proof (induction "length xs" arbitrary: xs r rule: less_induct)
  case less
  show ?case
  proof (cases "xs = []")
    case True
    then show ?thesis using less.prems by (cases r) auto
  next
    case False
    define r' where "r' = (if even (length xs) then r
      else case r of None \<Rightarrow> Some (last xs) | Some y \<Rightarrow> Some (nd (last xs) y))"
    have next_eq: "nextLevel nd (xs @ optList r) = pairs nd xs @ optList r'"
      by (simp add: nextLevel_pairs r'_def)
    have "pairs nd xs @ optList r' \<noteq> []"
      using False by (subst next_eq[symmetric]) (auto simp flip: length_greater_0_conv)
    then have "rootBits nd r' (bits nd (pairs nd xs)) = Some (treeRoot nd (pairs nd xs @ optList r'))"
      using less.hyps[of "pairs nd xs" r'] False by simp
    moreover have "rootBits nd r (bits nd xs) = rootBits nd r' (bits nd (pairs nd xs))"
      using False by (cases r) (auto simp: bits_pairs r'_def)
    ultimately show ?thesis by (metis next_eq treeRoot_nextLevel)
  qed
qed

section \<open>The accumulator refines the counter\<close>

definition opts :: "bool list \<Rightarrow> hash32 list \<Rightarrow> hash32 option list" where
  "opts filled stack = map (\<lambda>(f, h). if f then Some h else None) (zip filled stack)"

definition padN :: "nat \<Rightarrow> 'h option list \<Rightarrow> 'h option list" where
  "padN n bs = bs @ replicate (n - length bs) None"

lemma rootLoop_opts: "rootLoop nd r (zip filled stack) = rootBits nd r (opts filled stack)"
proof -
  have "rootLoop nd r zs = rootBits nd r (map (\<lambda>(f, h). if f then Some h else None) zs)" for zs
    by (induction nd r zs rule: rootLoop.induct) (auto split: option.splits)
  then show ?thesis by (simp add: opts_def)
qed

lemma length_opts [simp]: "length (opts filled stack) = min (length filled) (length stack)"
  by (simp add: opts_def)

lemma nth_opts:
  "l < length filled \<Longrightarrow> l < length stack \<Longrightarrow> opts filled stack ! l = (if filled ! l then Some (stack ! l) else None)"
  by (simp add: opts_def)

lemma opts_update:
  assumes "length filled = length stack" "level < length stack"
  shows "opts (filled[level := f]) (stack[level := h]) =
    take level (opts filled stack) @ (if f then Some h else None) # drop (Suc level) (opts filled stack)"
proof -
  have "opts (filled[level := f]) (stack[level := h]) = (opts filled stack)[level := if f then Some h else None]"
    using assms by (intro nth_equalityI) (auto simp: nth_opts nth_list_update)
  then show ?thesis using assms by (simp add: upd_conv_take_nth_drop)
qed

lemma and_1_bit: "c AND 1 = 1 \<longleftrightarrow> bit (c :: u64) 0"
  by (simp add: and_one_eq bit_0 odd_iff_mod_2_eq_one)

lemma addLoop_addBin:
  assumes "length filled = length stack" "level \<le> length stack"
    "\<And>l. level \<le> l \<Longrightarrow> l < length stack \<Longrightarrow> filled ! l = bit c (l - level)"
    "length (addBin nd node (drop level (opts filled stack))) = length stack - level"
  shows "\<exists>node' level' filled'. addLoop nd stack node c level filled = Some (node', level', filled')
    \<and> level' < length stack \<and> length filled' = length stack
    \<and> opts (filled'[level' := True]) (stack[level' := node']) =
        take level (opts filled stack) @ addBin nd node (drop level (opts filled stack))"
  using assms
proof (induction "length stack - level" arbitrary: node c level filled)
  case 0
  then show ?case by simp
next
  case (Suc k)
  then have lt: "level < length stack" by simp
  have lf: "level < length filled" using lt Suc.prems(1) by simp
  have d: "drop level (opts filled stack) = opts filled stack ! level # drop (Suc level) (opts filled stack)"
    using lt lf by (simp add: Cons_nth_drop_Suc)
  have bit0: "c AND 1 = 1 \<longleftrightarrow> filled ! level" using Suc.prems(3)[of level] lt by (simp add: and_1_bit)
  show ?case
  proof (cases "filled ! level")
    case False
    then have "addLoop nd stack node c level filled = Some (node, level, filled)"
      using bit0 by (subst addLoop.simps) simp
    moreover have "drop level (opts filled stack) = None # drop (Suc level) (opts filled stack)"
      using d False lt lf by (simp add: nth_opts)
    ultimately show ?thesis
      using lt Suc.prems(1) opts_update[OF Suc.prems(1) lt, of True node] by simp
  next
    case True
    define filled' where "filled' = filled[level := False]"
    have loop: "addLoop nd stack node c level filled =
      addLoop nd stack (nd (stack ! level) node) (drop_bit 1 c) (Suc level) filled'"
      using bit0 True lt by (subst addLoop.simps) (simp add: filled'_def)
    have head: "drop level (opts filled stack) = Some (stack ! level) # drop (Suc level) (opts filled stack)"
      using d True lt lf by (simp add: nth_opts)
    have opts': "opts filled' stack =
        take level (opts filled stack) @ None # drop (Suc level) (opts filled stack)"
      using opts_update[OF Suc.prems(1) lt, of False "stack ! level"] by (simp add: filled'_def)
    then have dr: "drop (Suc level) (opts filled' stack) = drop (Suc level) (opts filled stack)"
      and tk: "take (Suc level) (opts filled' stack) = take level (opts filled stack) @ [None]"
      using lt Suc.prems(1) by simp_all
    have bits': "filled' ! l = bit (drop_bit 1 c) (l - Suc level)" if "Suc level \<le> l" "l < length stack" for l
      using Suc.prems(3)[of l] that by (simp add: filled'_def bit_drop_bit_eq Suc_diff_Suc)
    have len': "length (addBin nd (nd (stack ! level) node) (drop (Suc level) (opts filled' stack)))
        = length stack - Suc level"
      using Suc.prems(4) by (simp add: head dr)
    have lf': "length filled' = length stack" using Suc.prems(1) by (simp add: filled'_def)
    have k: "k = length stack - Suc level" using Suc.hyps(2) by simp
    note IH = Suc.hyps(1)[OF k lf' Suc_leI[OF lt] bits' len']
    then show ?thesis by (simp add: loop head dr tk)
  qed
qed

lemma addBin_padN:
  "length (addBin nd x bs) \<le> n \<Longrightarrow> addBin nd x (padN n bs) = padN n (addBin nd x bs)"
proof (induction nd x bs arbitrary: n rule: addBin.induct)
  case (1 nd x)
  then show ?case by (cases n) (auto simp: padN_def)
next
  case (3 nd x h bs)
  then show ?case by (cases n) (auto simp: padN_def)
qed (simp add: padN_def)

lemma rootBits_padN [simp]: "rootBits nd r (padN n bs) = rootBits nd r bs"
proof -
  have "rootBits nd r (replicate k None) = r" for k nd and r :: "'a option" by (induction k) auto
  then have "rootBits nd r (bs @ replicate k None) = rootBits nd r bs" for k
    by (induction nd r bs rule: rootBits.induct) auto
  then show ?thesis unfolding padN_def .
qed

text \<open>The accumulator after the leaves \<open>xs\<close>.\<close>

definition acc_of :: "(bytes \<Rightarrow> bytes) \<Rightarrow> string \<Rightarrow> hash32 list \<Rightarrow> MerkleAccumulator \<Rightarrow> bool" where
  "acc_of blake3 treeID xs m \<longleftrightarrow>
     ma_treeID m = treeID \<and> ma_count m = of_nat (length xs)
     \<and> length (ma_stack m) = 64 \<and> length (ma_filled m) = 64
     \<and> opts (ma_filled m) (ma_stack m) = padN 64 (bits (merkleNodeHash blake3 treeID) xs)"

lemma acc_of_New: "acc_of blake3 treeID [] (NewMerkleAccumulator treeID)"
proof -
  have "opts (replicate 64 False) (replicate 64 zero32) = replicate 64 None"
    by (intro nth_equalityI) (auto simp: nth_opts)
  then show ?thesis by (simp add: acc_of_def NewMerkleAccumulator_def padN_def)
qed

lemma acc_of_filled:
  assumes "acc_of blake3 treeID xs m" "length xs < 2 ^ 64" "l < 64"
  shows "ma_filled m ! l = bit (ma_count m) l"
proof -
  let ?b = "bits (merkleNodeHash blake3 treeID) xs"
  have "ma_filled m ! l \<longleftrightarrow> opts (ma_filled m) (ma_stack m) ! l \<noteq> None"
    using assms nth_opts[of l "ma_filled m" "ma_stack m"] unfolding acc_of_def by auto
  also have "\<dots> \<longleftrightarrow> padN 64 ?b ! l \<noteq> None" using assms(1) by (simp add: acc_of_def)
  also have "\<dots> \<longleftrightarrow> bit (length xs) l"
    using bits_filled[of l "merkleNodeHash blake3 treeID" xs] not_bit_beyond[of "merkleNodeHash blake3 treeID" xs l]
      assms(3) by (auto simp: padN_def nth_append)
  also have "\<dots> \<longleftrightarrow> bit (ma_count m) l"
    using assms by (simp add: acc_of_def bit_simps)
  finally show ?thesis .
qed

lemma AddLeaf_acc_of:
  assumes "acc_of blake3 treeID xs m" "length xs + 1 < 2 ^ 64"
  obtains m' where "AddLeaf blake3 m x = Some m'" "acc_of blake3 treeID (xs @ [x]) m'"
proof -
  define nd where "nd = merkleNodeHash blake3 treeID"
  note m = assms(1)[unfolded acc_of_def, folded nd_def]
  have len: "length (bits nd (xs @ [x])) \<le> 64" by (rule length_bits) (use assms(2) in simp)
  then have add: "addBin nd x (opts (ma_filled m) (ma_stack m)) = padN 64 (bits nd (xs @ [x]))"
    using m by (simp add: addBin_padN bits_snoc)
  have filled: "ma_filled m ! l = bit (ma_count m) (l - 0)" if "l < length (ma_stack m)" for l
    using acc_of_filled[OF assms(1)] assms(2) that m by simp
  have "length (padN 64 (bits nd (xs @ [x]))) = 64" using len by (simp add: padN_def)
  then obtain node level filled' where r:
    "addLoop nd (ma_stack m) x (ma_count m) 0 (ma_filled m) = Some (node, level, filled')"
    "level < length (ma_stack m)" "length filled' = length (ma_stack m)"
    "opts (filled'[level := True]) ((ma_stack m)[level := node]) = padN 64 (bits nd (xs @ [x]))"
    using addLoop_addBin[of "ma_filled m" "ma_stack m" 0 "ma_count m" nd x] m filled add by auto
  show thesis
  proof (rule that)
    show "AddLeaf blake3 m x = Some (m\<lparr>ma_stack := (ma_stack m)[level := node],
        ma_filled := filled'[level := True], ma_count := ma_count m + 1\<rparr>)"
      using r m by (simp add: AddLeaf_def nd_def)
    show "acc_of blake3 treeID (xs @ [x]) (m\<lparr>ma_stack := (ma_stack m)[level := node],
        ma_filled := filled'[level := True], ma_count := ma_count m + 1\<rparr>)"
      using r m by (simp add: acc_of_def nd_def)
  qed
qed

lemma addLeaves_acc_of:
  assumes "acc_of blake3 treeID ys m" "length (ys @ xs) < 2 ^ 64"
  shows "\<exists>m'. addLeaves blake3 m xs = Some m' \<and> acc_of blake3 treeID (ys @ xs) m'"
  using assms
proof (induction xs arbitrary: ys m)
  case (Cons x xs)
  obtain m' where m': "AddLeaf blake3 m x = Some m'" "acc_of blake3 treeID (ys @ [x]) m'"
    using AddLeaf_acc_of[OF Cons.prems(1), of x] Cons.prems(2) by auto
  then show ?case using Cons.IH[OF m'(2)] Cons.prems(2) by simp
qed simp

lemma Accumulator_Root_acc_of:
  assumes "acc_of blake3 treeID xs m" "length xs < 2 ^ 64"
  shows "Accumulator_Root blake3 m = MerkleTree_Root blake3 (NewMerkleTree blake3 treeID xs)"
proof (cases "xs = []")
  case True
  then show ?thesis using assms by (simp add: acc_of_def Accumulator_Root_def MerkleTree_Root_eq)
next
  case False
  then have "ma_count m \<noteq> 0"
    using assms of_nat_u64_eq[of "length xs" 0] by (simp add: acc_of_def)
  then show ?thesis
    using assms False rootBits_bits[of xs None "merkleNodeHash blake3 treeID"]
    by (simp add: acc_of_def Accumulator_Root_def MerkleTree_Root_eq rootLoop_opts)
qed

section \<open>Agreement of the two proof checkers\<close>

lemma dag_decodeHexBytes_sound: "dag_decodeHexBytes s = Inr b \<Longrightarrow> decodeHexBytes s = Inr b"
proof -
  assume dag: "dag_decodeHexBytes s = Inr b"
  have noX: "\<not> HasPrefix w ''0X''" if "hexDecode w = Some b" for w
    using that by (cases w rule: hexDecode.cases) (auto simp: hexVal_def)
  define v where "v = TrimSpace s"
  have cut: "TrimPrefix w ''0X'' = w" if "\<not> HasPrefix w ''0X''" for w using that by (simp add: TrimPrefix_def)
  have not0x: "TrimPrefix v ''0x'' = v" if "\<not> HasPrefix v ''0x''" using that by (simp add: TrimPrefix_def)
  consider (x) "HasPrefix v ''0x''" | (X) "\<not> HasPrefix v ''0x''" "HasPrefix v ''0X''"
    | (no) "\<not> HasPrefix v ''0x''" "\<not> HasPrefix v ''0X''" by blast
  then show ?thesis
  proof cases
    case x
    then have "TrimPrefix v ''0x'' = drop 2 v" by (simp add: TrimPrefix_def numeral_2_eq_2)
    then show ?thesis using dag x noX[of "drop 2 v"] cut[of "drop 2 v"]
      by (auto simp: dag_decodeHexBytes_def decodeHexBytes_def Let_def simp flip: v_def)
  next
    case X
    then have "TrimPrefix v ''0X'' = drop 2 v" by (simp add: TrimPrefix_def numeral_2_eq_2)
    then show ?thesis using dag X not0x
      by (auto simp: dag_decodeHexBytes_def decodeHexBytes_def Let_def simp flip: v_def)
  next
    case no
    then show ?thesis using dag not0x cut[of v]
      by (auto simp: dag_decodeHexBytes_def decodeHexBytes_def Let_def simp flip: v_def)
  qed
qed

lemma dag_decodeHex32_sound: "dag_decodeHex32 s = Inr h \<Longrightarrow> decodeHex32 s = Inr h"
  using dag_decodeHexBytes_sound by (auto simp: dag_decodeHex32_def decodeHex32_def)

lemma dag_decodeHex32_formatHash [simp]: "length h = 32 \<Longrightarrow> dag_decodeHex32 (formatHash h) = Inr h"
proof -
  assume h: "length h = 32"
  then have "hexEncode h \<noteq> []" by (cases h) auto
  then show ?thesis using h
    by (simp add: dag_decodeHex32_def dag_decodeHexBytes_def formatHash_eq Let_def)
qed

lemma dagClimb_sound:
  "dagClimb nd dag_decodeHex32 path node idx cnt pos = Inr r \<Longrightarrow> merkleClimb nd path node idx cnt pos = Inr r"
proof (induction nd path node idx cnt pos rule: merkleClimb.induct)
  case (1 nd path node idx cnt pos)
  note dag = "1.prems"[unfolded dagClimb.simps[of nd _ path node idx cnt pos]]
  show ?case
  proof (cases "cnt > 1")
    case cnt: True
    show ?thesis
    proof (cases "idx mod 2 = 0")
      case even: True
      show ?thesis
      proof (cases "idx + 1 < cnt")
        case right: True
        then obtain s where s: "dag_decodeHex32 (step_Hash (path ! pos)) = Inr s" "pos < length path"
          "step_Side (path ! pos) = proofSideRight"
          using dag cnt even by (auto split: sum.splits if_splits)
        then show ?thesis using dag cnt even right dag_decodeHex32_sound[OF s(1)] "1.IH"(1)[of s]
          by (simp add: merkleClimb.simps[of nd path node])
      next
        case False
        then show ?thesis using dag cnt even "1.IH"(2) by (simp add: merkleClimb.simps[of nd path node])
      qed
    next
      case odd: False
      then obtain s where s: "dag_decodeHex32 (step_Hash (path ! pos)) = Inr s" "pos < length path"
        "step_Side (path ! pos) = proofSideLeft"
        using dag cnt by (auto split: sum.splits if_splits)
      then show ?thesis using dag cnt odd dag_decodeHex32_sound[OF s(1)] "1.IH"(3)[of s]
        by (simp add: merkleClimb.simps[of nd path node])
    qed
  next
    case False
    then show ?thesis using dag by (simp add: merkleClimb.simps[of nd path node])
  qed
qed

lemma dagClimb_complete:
  assumes "merkleClimb nd path node idx cnt pos = Inr r"
    "\<And>st. st \<in> set path \<Longrightarrow> dag_decodeHex32 (step_Hash st) = decodeHex32 (step_Hash st)"
  shows "dagClimb nd dag_decodeHex32 path node idx cnt pos = Inr r"
  using assms
proof (induction nd path node idx cnt pos rule: merkleClimb.induct)
  case (1 nd path node idx cnt pos)
  have dec: "dag_decodeHex32 (step_Hash (path ! pos)) = decodeHex32 (step_Hash (path ! pos))"
    if "pos < length path" using "1.prems"(2) that by simp
  note climb = "1.prems"(1)[unfolded merkleClimb.simps[of nd path node idx cnt pos]]
  show ?case
  proof (cases "cnt > 1 \<and> \<not> (idx mod 2 = 0 \<and> \<not> idx + 1 < cnt)")
    case True
    then obtain s where s: "decodeHex32 (step_Hash (path ! pos)) = Inr s" "pos < length path"
      using climb by (auto split: sum.splits if_splits)
    then show ?thesis using climb True dec "1.IH"(1,3)[of s] "1.prems"(2)
      by (subst dagClimb.simps) (auto split: if_splits)
  next
    case False
    then show ?thesis using climb "1.IH"(2) "1.prems"(2)
      by (subst dagClimb.simps) (auto split: if_splits)
  qed
qed

lemma proofFrom_formatted:
  assumes "\<forall>x \<in> set xs. length x = 32" "i < length xs"
    "st \<in> set (proofFrom formatHash (buildLevels (merkleNodeHash blake3 treeID) xs) i)"
  shows "\<exists>h. length h = 32 \<and> step_Hash st = formatHash h"
  using assms
proof (induction "length xs" arbitrary: xs i rule: less_induct)
  case less
  show ?case
  proof (cases "1 < length xs")
    case True
    let ?nd = "merkleNodeHash blake3 treeID"
    have IH: "\<exists>h. length h = 32 \<and> step_Hash st = formatHash h"
      if "st \<in> set (proofFrom formatHash (buildLevels ?nd (nextLevel ?nd xs)) (i div 2))"
      using less.hyps[of "nextLevel ?nd xs" "i div 2"] True less.prems(1,2) that
        node.nextLevel_lengths[of xs blake3 treeID] by auto
    show ?thesis using less.prems True IH
      by (subst (asm) proofFrom_step) (auto split: if_splits)
  qed (use less.prems in simp)
qed

section \<open>Hash inputs\<close>

definition nodeInput :: "string \<Rightarrow> hash32 \<times> hash32 \<Rightarrow> bytes" where
  "nodeInput treeID p = writeString domainMerkleNode @ writeString treeID @ fst p @ snd p"

lemma merkleNodeHash_input: "merkleNodeHash blake3 treeID (fst p) (snd p) = copy32 (blake3 (nodeInput treeID p))"
  by (simp add: merkleNodeHash_def taggedHash_def nodeInput_def writeFixed32_def)

lemma nodeInput_inj:
  "length (fst p) = 32 \<Longrightarrow> length (fst q) = 32 \<Longrightarrow> nodeInput treeID p = nodeInput treeID q \<longleftrightarrow> p = q"
  by (auto simp: nodeInput_def prod_eq_iff)

lemma climbPairs_length:
  "length node = 32 \<Longrightarrow> p \<in> set (climbPairs (merkleNodeHash blake3 treeID) path node i n pos) \<Longrightarrow>
     length (fst p) = 32"
proof (induction "n" arbitrary: node i pos rule: less_induct)
  case (less n)
  note unf = climbPairs.simps[of "merkleNodeHash blake3 treeID" path node i n pos]
  let ?nd = "merkleNodeHash blake3 treeID"
  have n: "1 < n" using less.prems(2) by (cases "n \<le> 1") (simp_all add: unf)
  have IH: "length (fst p) = 32"
    if "length node' = 32" "p \<in> set (climbPairs ?nd path node' (i div 2) ((n + 1) div 2) pos')" for node' pos'
    using less.IH[of "(n + 1) div 2"] n that by simp
  show ?case
  proof (cases "even i \<and> n \<le> i + 1")
    case True
    then show ?thesis using less.prems n by (intro IH[of node pos]) (simp_all add: unf)
  next
    case False
    then have pos: "pos < length path" using less.prems(2) n by (auto simp: unf split: if_splits)
    show ?thesis
    proof (cases "decodeHex32 (step_Hash (path ! pos))")
      case (Inl e)
      then show ?thesis using less.prems(2) n pos False by (simp add: unf split: if_splits)
    next
      case (Inr s)
      define q where "q = (if even i then (node, s) else (s, node))"
      have "p = q \<or> p \<in> set (climbPairs ?nd path (?nd (fst q) (snd q)) (i div 2) ((n + 1) div 2) (pos + 1))"
        using less.prems(2) n pos False Inr by (auto simp: unf q_def Let_def split: if_splits)
      then show ?thesis
        using IH[of "?nd (fst q) (snd q)" "pos + 1"] less.prems(1) decodeHex32_length[OF Inr]
        by (auto simp: q_def)
    qed
  qed
qed

lemma treePairs_length:
  "\<forall>x \<in> set xs. length x = 32 \<Longrightarrow> p \<in> set (treePairs (merkleNodeHash blake3 treeID) xs) \<Longrightarrow> length (fst p) = 32"
proof (induction "length xs" arbitrary: xs rule: less_induct)
  case less
  let ?nd = "merkleNodeHash blake3 treeID"
  have lp: "length (fst p) = 32" if "\<forall>x \<in> set ys. length x = 32" "p \<in> set (levelPairs ys)" for ys p
    using that by (induction ys rule: levelPairs.induct) auto
  show ?case
  proof (cases "1 < length xs")
    case True
    then show ?thesis using less.prems less.hyps[of "nextLevel ?nd xs"] lp[of xs p]
        node.nextLevel_lengths[of xs blake3 treeID] by (auto simp: treePairs_step)
  next
    case False
    then show ?thesis using less.prems lp[of xs p] by (simp add: treePairs_def buildLevels.simps[of ?nd xs])
  qed
qed

lemma merkle_sound_collision:
  assumes "verifyMerkleProof blake3 treeID leaf (of_nat i) (of_nat (length leaves)) path
      (MerkleTree_Root blake3 (NewMerkleTree blake3 treeID leaves)) = Inr ()"
    "i < length leaves" "length leaves + 1 < 2 ^ 64" "length leaf = 32" "\<forall>x \<in> set leaves. length x = 32"
  shows "leaf = leaves ! i \<or>
    (\<exists>p \<in> set (climbPairs (merkleNodeHash blake3 treeID) path leaf i (length leaves) 0).
     \<exists>q \<in> set (treePairs (merkleNodeHash blake3 treeID) leaves).
       nodeInput treeID p \<noteq> nodeInput treeID q
       \<and> copy32 (blake3 (nodeInput treeID p)) = copy32 (blake3 (nodeInput treeID q)))"
proof -
  let ?nd = "merkleNodeHash blake3 treeID"
  have "leaves \<noteq> []" using assms(2) by auto
  then obtain pos where "merkleClimb ?nd path leaf (of_nat i) (of_nat (length leaves)) 0 = Inr (treeRoot ?nd leaves, pos)"
    using assms(1) by (auto simp: verifyMerkleProof_def MerkleTree_Root_eq split: sum.splits)
  from node.climb_sound[OF this assms(2,3)]
  show ?thesis
  proof
    assume "\<exists>p\<in>set (climbPairs ?nd path leaf i (length leaves) 0). \<exists>q\<in>set (treePairs ?nd leaves).
      p \<noteq> q \<and> ?nd (fst p) (snd p) = ?nd (fst q) (snd q)"
    then obtain p q where pq: "p \<in> set (climbPairs ?nd path leaf i (length leaves) 0)"
      "q \<in> set (treePairs ?nd leaves)" "p \<noteq> q" "?nd (fst p) (snd p) = ?nd (fst q) (snd q)" by blast
    then have "nodeInput treeID p \<noteq> nodeInput treeID q"
      using climbPairs_length[OF assms(4) pq(1)] treePairs_length[OF assms(5) pq(2)] by (simp add: nodeInput_inj)
    then show ?thesis using pq by (metis merkleNodeHash_input)
  qed simp
qed

section \<open>Properties\<close>

text \<open>
  C27: For every leaf of a tree the generator builds, \<open>Proof\<close> returns a path, and both proof
  checkers (the verifier's and the generator's) accept it against the root of the tree.
\<close>

theorem merkle_proof_complete:
  assumes "\<forall>x \<in> set leaves. length x = 32" "i < length leaves" "length leaves + 1 < 2 ^ 64"
  shows "\<exists>path. MerkleTree_Proof (NewMerkleTree blake3 treeID leaves) (of_nat i) = Inr path
    \<and> verifyMerkleProof blake3 treeID (leaves ! i) (of_nat i)
        (MerkleTree_Count (NewMerkleTree blake3 treeID leaves)) path
        (MerkleTree_Root blake3 (NewMerkleTree blake3 treeID leaves)) = Inr ()
    \<and> dag_verifyMerkleProof blake3 treeID (leaves ! i) (of_nat i)
        (MerkleTree_Count (NewMerkleTree blake3 treeID leaves)) path
        (MerkleTree_Root blake3 (NewMerkleTree blake3 treeID leaves)) = Inr ()"
proof -
  define path where "path = proofFrom formatHash (buildLevels (merkleNodeHash blake3 treeID) leaves) i"
  have ne: "leaves \<noteq> []" using assms(2) by auto
  have i: "(of_nat i :: u64) < of_nat (length leaves)" "unat (of_nat i :: u64) = i"
    using assms(2,3) by (simp_all add: of_nat_u64_less unat_of_nat)
  have pos: "(of_nat (length leaves) :: u64) \<noteq> 0"
    using of_nat_u64_eq[of "length leaves" 0] assms(3) ne by simp
  have climb: "merkleClimb (merkleNodeHash blake3 treeID) path (leaves ! i) (of_nat i) (of_nat (length leaves)) 0
      = Inr (treeRoot (merkleNodeHash blake3 treeID) leaves, length path)"
    using node.climb_complete[OF assms, of blake3 treeID "[]"] by (simp add: path_def)
  moreover have "dagClimb (merkleNodeHash blake3 treeID) dag_decodeHex32 path (leaves ! i) (of_nat i)
      (of_nat (length leaves)) 0 = Inr (treeRoot (merkleNodeHash blake3 treeID) leaves, length path)"
  proof (rule dagClimb_complete[OF climb])
    show "dag_decodeHex32 (step_Hash st) = decodeHex32 (step_Hash st)" if "st \<in> set path" for st
      using proofFrom_formatted[OF assms(1,2) that[unfolded path_def]] by auto
  qed
  ultimately show ?thesis
    using i pos ne by (intro exI[of _ path])
      (simp add: MerkleTree_Proof_def verifyMerkleProof_def dag_verifyMerkleProof_def MerkleTree_Root_eq,
        simp add: NewMerkleTree_def MerkleTree_Count_def path_def)
qed

theorem merkle_proof_complete_witness:
  "\<exists>path. MerkleTree_Proof (NewMerkleTree (\<lambda>b. b) treePoW [zero32, replicate 32 1, replicate 32 2]) 2 = Inr path
    \<and> verifyMerkleProof (\<lambda>b. b) treePoW (replicate 32 2) 2
        (MerkleTree_Count (NewMerkleTree (\<lambda>b. b) treePoW [zero32, replicate 32 1, replicate 32 2])) path
        (MerkleTree_Root (\<lambda>b. b) (NewMerkleTree (\<lambda>b. b) treePoW [zero32, replicate 32 1, replicate 32 2])) = Inr ()"
  using merkle_proof_complete[of "[zero32, replicate 32 1, replicate 32 2]" 2 "\<lambda>b. b" treePoW]
  by auto

text \<open>
  C28: An accepted Merkle proof for a position of a tree carries the leaf of that position, or
  the run of the checker and the construction of the tree hash two different inputs to the
  same digest: a BLAKE3 collision that the accepted proof exhibits.
\<close>

theorem merkle_proof_sound:
  assumes "verifyMerkleProof blake3 treeID leaf (of_nat i) (of_nat (length leaves)) path
      (MerkleTree_Root blake3 (NewMerkleTree blake3 treeID leaves)) = Inr ()"
    "i < length leaves" "length leaves + 1 < 2 ^ 64" "length leaf = 32" "\<forall>x \<in> set leaves. length x = 32"
  shows "leaf = leaves ! i \<or>
    (\<exists>p \<in> set (climbPairs (merkleNodeHash blake3 treeID) path leaf i (length leaves) 0).
     \<exists>q \<in> set (treePairs (merkleNodeHash blake3 treeID) leaves).
       nodeInput treeID p \<noteq> nodeInput treeID q
       \<and> copy32 (blake3 (nodeInput treeID p)) = copy32 (blake3 (nodeInput treeID q)))"
  by (rule merkle_sound_collision[OF assms])

theorem merkle_proof_sound_witness:
  "zero32 = [zero32, replicate 32 1] ! 0 \<or>
    (\<exists>p \<in> set (climbPairs (merkleNodeHash (\<lambda>b. drop 60 b) treePoW)
        [\<lparr>step_Side = proofSideRight, step_Hash = formatHash (replicate 32 1)\<rparr>] zero32 0 2 0).
     \<exists>q \<in> set (treePairs (merkleNodeHash (\<lambda>b. drop 60 b) treePoW) [zero32, replicate 32 1]).
       nodeInput treePoW p \<noteq> nodeInput treePoW q
       \<and> copy32 (drop 60 (nodeInput treePoW p)) = copy32 (drop 60 (nodeInput treePoW q)))"
proof -
  have "verifyMerkleProof (\<lambda>b. drop 60 b) treePoW zero32 (of_nat 0) (of_nat (length [zero32, replicate 32 1]))
      [\<lparr>step_Side = proofSideRight, step_Hash = formatHash (replicate 32 1)\<rparr>]
      (MerkleTree_Root (\<lambda>b. drop 60 b) (NewMerkleTree (\<lambda>b. drop 60 b) treePoW [zero32, replicate 32 1])) = Inr ()"
    by code_simp
  from merkle_proof_sound[OF this] show ?thesis by simp
qed

text \<open>
  C29: The streaming accumulator never indexes past its 64 levels and returns the root of the
  tree built in memory from the same leaves, for every number of leaves a \<open>uint64\<close> counts.
\<close>

theorem accumulator_root_eq_tree_root:
  assumes "length leaves < 2 ^ 64"
  shows "\<exists>m. addLeaves blake3 (NewMerkleAccumulator treeID) leaves = Some m
    \<and> Accumulator_Root blake3 m = MerkleTree_Root blake3 (NewMerkleTree blake3 treeID leaves)"
  using addLeaves_acc_of[OF acc_of_New, of leaves blake3 treeID] Accumulator_Root_acc_of assms by force

theorem accumulator_root_eq_tree_root_witness:
  "\<exists>m. addLeaves (\<lambda>b. b) (NewMerkleAccumulator treeTensor) [zero32, zero32, replicate 32 7] = Some m
    \<and> Accumulator_Root (\<lambda>b. b) m = MerkleTree_Root (\<lambda>b. b) (NewMerkleTree (\<lambda>b. b) treeTensor [zero32, zero32, replicate 32 7])"
  using accumulator_root_eq_tree_root[of "[zero32, zero32, replicate 32 7]" "\<lambda>b. b" treeTensor] by simp

text \<open>
  A proof the generator's checker accepts is accepted by the verifier's checker: their hash
  decoders and loops differ only in what they reject.
\<close>

theorem dag_proof_check_sound:
  "dag_verifyMerkleProof blake3 treeID leaf idx cnt path root = Inr () \<Longrightarrow>
     verifyMerkleProof blake3 treeID leaf idx cnt path root = Inr ()"
  by (auto simp: dag_verifyMerkleProof_def verifyMerkleProof_def split: sum.splits if_splits
      dest: dagClimb_sound)

theorem dag_proof_check_sound_witness:
  "verifyMerkleProof (\<lambda>b. drop 60 b) treePoW zero32 0 2
      [\<lparr>step_Side = proofSideRight, step_Hash = formatHash (replicate 32 1)\<rparr>]
      (merkleNodeHash (\<lambda>b. drop 60 b) treePoW zero32 (replicate 32 1)) = Inr ()"
  by (rule dag_proof_check_sound) code_simp

end
