(* ===== verification/Manifest.thy ===== *)
theory Manifest
  imports Wire Json Merkle_Laws
begin

text \<open>
  The DAG manifest (\<open>internal/aiseal/types.go\<close>, \<open>hash.go\<close>, \<open>verify.go\<close>, and the
  generator's checks of \<open>cmd/unifiedDAG/main.go\<close>): its canonical form, the root that
  commits to it, and the two validations. \<open>json.Unmarshal\<close> is the argument \<open>unmarshal\<close>.

  The validation loops over a Go map of named roots; the model visits them in the order the
  source lists them. Acceptance does not depend on the order, only which error is reported
  first.
\<close>

record Manifest =
  man_Version :: int
  man_Name :: string
  man_HashAlgorithm :: string
  man_MerkleVersion :: int
  man_PageCommit :: string
  man_PageSize :: u64
  man_HeaderSize :: u64
  man_PayloadSize :: u64
  man_SizeGB :: u64
  man_TotalBytes :: u64
  man_TotalPages :: u64
  man_Seed :: string
  man_AIDagRoot :: string
  man_TensorRoot :: string
  man_PoWCommitRoot :: string
  man_ManifestRoot :: string
  man_GenerationTime :: string
  man_AIDagLeafCount :: u64
  man_TensorLeafCount :: u64
  man_PoWCommitLeafCount :: u64
  man_MerkleSidecar :: string
  man_SidecarVersion :: int
  man_ModelName :: string
  man_ModelFormat :: string
  man_ModelSize :: u64
  man_ModelHash :: string
  man_ModelStartPage :: u64
  man_ModelPageCount :: u64
  man_ModelEndPage :: u64
  man_IndexPage :: u64
  man_FillerStart :: u64
  man_FillerEnd :: u64
  man_UnifiedLayout :: string

text \<open>The JSON value of a manifest: field order and \<open>omitempty\<close> as in the struct tags.\<close>

definition manifest_members :: "Manifest \<Rightarrow> (string \<times> jval) list" where
  "manifest_members m =
     [(''version'', JNum (man_Version m)),
      (''name'', JStr (man_Name m)),
      (''hashAlgorithm'', JStr (man_HashAlgorithm m)),
      (''merkleVersion'', JNum (man_MerkleVersion m)),
      (''pageCommit'', JStr (man_PageCommit m)),
      (''pageSize'', jU64 (man_PageSize m)),
      (''headerSize'', jU64 (man_HeaderSize m)),
      (''payloadSize'', jU64 (man_PayloadSize m)),
      (''sizeGB'', jU64 (man_SizeGB m)),
      (''totalBytes'', jU64 (man_TotalBytes m)),
      (''totalPages'', jU64 (man_TotalPages m)),
      (''seed'', JStr (man_Seed m)),
      (''aidagRoot'', JStr (man_AIDagRoot m)),
      (''tensorRoot'', JStr (man_TensorRoot m)),
      (''powCommitRoot'', JStr (man_PoWCommitRoot m)),
      (''manifestRoot'', JStr (man_ManifestRoot m)),
      (''generationTime'', JStr (man_GenerationTime m)),
      (''aidagLeafCount'', jU64 (man_AIDagLeafCount m)),
      (''tensorLeafCount'', jU64 (man_TensorLeafCount m)),
      (''powCommitLeafCount'', jU64 (man_PoWCommitLeafCount m)),
      (''merkleSidecar'', JStr (man_MerkleSidecar m)),
      (''sidecarVersion'', JNum (man_SidecarVersion m))]"

definition manifest_model_members :: "Manifest \<Rightarrow> (string \<times> jval) list" where
  "manifest_model_members m =
     omitStr ''modelName'' (man_ModelName m)
     @ omitStr ''modelFormat'' (man_ModelFormat m)
     @ omitU64 ''modelSize'' (man_ModelSize m)
     @ omitStr ''modelHash'' (man_ModelHash m)
     @ omitU64 ''modelStartPage'' (man_ModelStartPage m)
     @ omitU64 ''modelPageCount'' (man_ModelPageCount m)
     @ omitU64 ''modelEndPage'' (man_ModelEndPage m)
     @ [(''indexPage'', jU64 (man_IndexPage m))]
     @ omitU64 ''fillerStart'' (man_FillerStart m)
     @ omitU64 ''fillerEnd'' (man_FillerEnd m)
     @ [(''unifiedLayout'', JStr (man_UnifiedLayout m))]"

definition manifest_json :: "Manifest \<Rightarrow> jval" where
  "manifest_json m = JObj (manifest_members m @ manifest_model_members m)"

definition canonicalManifestForRoot :: "Manifest \<Rightarrow> Manifest" where
  "canonicalManifestForRoot m =
     m\<lparr>man_ManifestRoot := [], man_GenerationTime := [], man_ModelName := [], man_ModelFormat := [],
       man_UnifiedLayout := []\<rparr>"

definition ManifestHash :: "(bytes \<Rightarrow> bytes) \<Rightarrow> Manifest \<Rightarrow> hash32" where
  "ManifestHash blake3 m =
     (let b = json_marshal (manifest_json (canonicalManifestForRoot m))
      in taggedHash blake3 domainManifest (writeBytes b))"

section \<open>The verifier's validation\<close>

datatype manifest_error =
    UnsupportedManifestVersion int
  | UnsupportedHashOrMerkle
  | InvalidPageLayout
  | InvalidTotals
  | InvalidModelRange
  | LeafCountMismatch
  | InvalidRoot string hex_error
  | ZeroRoot string
  | ManifestRootMismatch
  | ManifestNotJSON

definition rootCheck :: "(string \<Rightarrow> hex_error + hash32) \<Rightarrow> string \<times> string \<Rightarrow> manifest_error + unit" where
  "rootCheck decode nv = (case nv of (name, val) \<Rightarrow>
     bindE (mapErr (InvalidRoot name) (decode val))
       (\<lambda>h. if h = zero32 then Inl (ZeroRoot name) else Inr ()))"

definition manifestRoots :: "Manifest \<Rightarrow> (string \<times> string) list" where
  "manifestRoots m =
     [(''AIDagRoot'', man_AIDagRoot m), (''TensorRoot'', man_TensorRoot m),
      (''PoWCommitRoot'', man_PoWCommitRoot m), (''ManifestRoot'', man_ManifestRoot m),
      (''ModelHash'', man_ModelHash m)]"

definition ValidateManifest :: "(bytes \<Rightarrow> bytes) \<Rightarrow> Manifest \<Rightarrow> manifest_error + unit" where
  "ValidateManifest blake3 m =
     (if man_Version m \<noteq> 0 \<and> man_Version m \<noteq> ManifestVersion
        then Inl (UnsupportedManifestVersion (man_Version m))
      else if man_HashAlgorithm m \<noteq> HashAlgorithm \<or> man_MerkleVersion m \<noteq> MerkleVersion
        then Inl UnsupportedHashOrMerkle
      else if man_HeaderSize m \<noteq> UnifiedHeaderSize \<or> man_PageSize m \<le> man_HeaderSize m
          \<or> man_PayloadSize m \<noteq> man_PageSize m - man_HeaderSize m
        then Inl InvalidPageLayout
      else if man_TotalPages m = 0 \<or> man_TotalBytes m \<noteq> man_TotalPages m * man_PageSize m
        then Inl InvalidTotals
      else if man_ModelStartPage m = 0 \<or> man_ModelPageCount m = 0
          \<or> man_ModelEndPage m \<noteq> man_ModelStartPage m + man_ModelPageCount m
          \<or> man_ModelEndPage m > man_TotalPages m
        then Inl InvalidModelRange
      else if man_AIDagLeafCount m \<noteq> man_TotalPages m \<or> man_PoWCommitLeafCount m \<noteq> man_TotalPages m
          \<or> man_TensorLeafCount m \<noteq> man_ModelPageCount m
        then Inl LeafCountMismatch
      else bindE (forE (rootCheck decodeHex32) (manifestRoots m)) (\<lambda>_.
        if \<not> equalHex (man_ManifestRoot m) (formatHash (ManifestHash blake3 m))
          then Inl ManifestRootMismatch
        else Inr ()))"

definition LoadManifestBytes ::
  "(bytes \<Rightarrow> bytes) \<Rightarrow> (bytes \<Rightarrow> Manifest option) \<Rightarrow> bytes \<Rightarrow> manifest_error + Manifest" where
  "LoadManifestBytes blake3 unmarshal data =
     bindE (ofOption ManifestNotJSON (unmarshal data)) (\<lambda>manifest.
     bindE (ValidateManifest blake3 manifest) (\<lambda>_. Inr manifest))"

section \<open>The generator's validation\<close>

definition isZeroHash :: "hash32 \<Rightarrow> bool" where
  "isZeroHash h = (h = zero32)"

definition validateManifestBasics :: "Manifest \<Rightarrow> manifest_error + unit" where
  "validateManifestBasics m =
     (if man_Version m \<noteq> 0 \<and> man_Version m \<noteq> ManifestVersion
        then Inl (UnsupportedManifestVersion (man_Version m))
      else if man_HashAlgorithm m \<noteq> HashAlgorithm then Inl UnsupportedHashOrMerkle
      else if man_MerkleVersion m \<noteq> MerkleVersion then Inl UnsupportedHashOrMerkle
      else if man_HeaderSize m \<noteq> UnifiedHeaderSize then Inl InvalidPageLayout
      else if man_PageSize m \<le> man_HeaderSize m then Inl InvalidPageLayout
      else if man_PayloadSize m \<noteq> man_PageSize m - man_HeaderSize m then Inl InvalidPageLayout
      else if man_TotalPages m = 0 then Inl InvalidTotals
      else if man_TotalBytes m \<noteq> man_TotalPages m * man_PageSize m then Inl InvalidTotals
      else if man_ModelPageCount m = 0 \<or> man_ModelEndPage m \<le> man_ModelStartPage m then Inl InvalidModelRange
      else if man_ModelStartPage m = 0 then Inl InvalidModelRange
      else if man_ModelEndPage m > man_TotalPages m then Inl InvalidModelRange
      else if man_ModelPageCount m \<noteq> man_ModelEndPage m - man_ModelStartPage m then Inl InvalidModelRange
      else if man_AIDagLeafCount m \<noteq> man_TotalPages m then Inl LeafCountMismatch
      else if man_PoWCommitLeafCount m \<noteq> man_TotalPages m then Inl LeafCountMismatch
      else if man_TensorLeafCount m \<noteq> man_ModelPageCount m then Inl LeafCountMismatch
      else forE (\<lambda>nv. case nv of (name, val) \<Rightarrow>
             bindE (mapErr (InvalidRoot name) (dag_decodeHex32 val))
               (\<lambda>h. if isZeroHash h then Inl (ZeroRoot name) else Inr ())) (manifestRoots m))"

definition dag_canonicalManifestForRoot :: "Manifest \<Rightarrow> Manifest" where
  "dag_canonicalManifestForRoot m =
     m\<lparr>man_ManifestRoot := [], man_GenerationTime := [], man_ModelName := [], man_ModelFormat := [],
       man_UnifiedLayout := []\<rparr>"

definition canonicalManifestForIndex :: "Manifest \<Rightarrow> Manifest" where
  "canonicalManifestForIndex m =
     m\<lparr>man_AIDagRoot := [], man_TensorRoot := [], man_PoWCommitRoot := [], man_ManifestRoot := [],
       man_GenerationTime := [], man_ModelName := [], man_ModelFormat := [], man_UnifiedLayout := [],
       man_MerkleSidecar := [], man_SidecarVersion := 0\<rparr>"

definition hashManifestRoot :: "(bytes \<Rightarrow> bytes) \<Rightarrow> Manifest \<Rightarrow> hash32" where
  "hashManifestRoot blake3 m =
     taggedHash blake3 domainManifest (writeBytes (json_marshal (manifest_json (dag_canonicalManifestForRoot m))))"

section \<open>Laws\<close>

lemma length_ManifestHash [simp]: "length (ManifestHash blake3 m) = 32"
  by (simp add: ManifestHash_def Let_def)

lemma hashManifestRoot_eq: "hashManifestRoot blake3 m = ManifestHash blake3 m"
  by (simp add: hashManifestRoot_def ManifestHash_def dag_canonicalManifestForRoot_def
      canonicalManifestForRoot_def Let_def)

lemma canonical_idem [simp]:
  "canonicalManifestForRoot (canonicalManifestForRoot m) = canonicalManifestForRoot m"
  "canonicalManifestForIndex (canonicalManifestForIndex m) = canonicalManifestForIndex m"
  by (simp_all add: canonicalManifestForRoot_def canonicalManifestForIndex_def)

lemma ManifestHash_cong:
  "canonicalManifestForRoot m = canonicalManifestForRoot m' \<Longrightarrow> ManifestHash blake3 m = ManifestHash blake3 m'"
  by (simp add: ManifestHash_def)

text \<open>What a manifest the verifier accepted satisfies.\<close>

definition good_root :: "string \<Rightarrow> bool" where
  "good_root s \<longleftrightarrow> (\<exists>h. decodeHex32 s = Inr h \<and> h \<noteq> zero32)"

lemma rootCheck_ok [simp]: "rootCheck decodeHex32 (n, s) = Inr () \<longleftrightarrow> good_root s"
  by (auto simp: rootCheck_def good_root_def)

lemma ValidateManifest_iff:
  "ValidateManifest blake3 m = Inr () \<longleftrightarrow>
     man_Version m \<in> {0, ManifestVersion} \<and> man_HashAlgorithm m = HashAlgorithm
     \<and> man_MerkleVersion m = MerkleVersion
     \<and> man_HeaderSize m = UnifiedHeaderSize \<and> man_PageSize m > UnifiedHeaderSize
     \<and> man_PayloadSize m = man_PageSize m - UnifiedHeaderSize
     \<and> man_TotalPages m \<noteq> 0 \<and> man_TotalBytes m = man_TotalPages m * man_PageSize m
     \<and> man_ModelStartPage m \<noteq> 0 \<and> man_ModelPageCount m \<noteq> 0
     \<and> man_ModelEndPage m = man_ModelStartPage m + man_ModelPageCount m \<and> man_ModelEndPage m \<le> man_TotalPages m
     \<and> man_AIDagLeafCount m = man_TotalPages m \<and> man_PoWCommitLeafCount m = man_TotalPages m
     \<and> man_TensorLeafCount m = man_ModelPageCount m
     \<and> (\<forall>s \<in> {man_AIDagRoot m, man_TensorRoot m, man_PoWCommitRoot m, man_ManifestRoot m, man_ModelHash m}. good_root s)
     \<and> equalHex (man_ManifestRoot m) (formatHash (ManifestHash blake3 m))"
  by (auto simp: ValidateManifest_def manifestRoots_def not_less)

section \<open>The manifest root is a commitment\<close>

lemma noRaw_manifest [simp]: "noRaw (manifest_json m)"
  by (auto simp: manifest_json_def manifest_members_def manifest_model_members_def omitStr_def omitU64_def)

lemma manifest_model_members_inj:
  assumes "manifest_model_members m = manifest_model_members m'"
  shows "man_ModelName m = man_ModelName m'" "man_ModelFormat m = man_ModelFormat m'"
    "man_ModelSize m = man_ModelSize m'" "man_ModelHash m = man_ModelHash m'"
    "man_ModelStartPage m = man_ModelStartPage m'" "man_ModelPageCount m = man_ModelPageCount m'"
    "man_ModelEndPage m = man_ModelEndPage m'" "man_IndexPage m = man_IndexPage m'"
    "man_FillerStart m = man_FillerStart m'" "man_FillerEnd m = man_FillerEnd m'"
    "man_UnifiedLayout m = man_UnifiedLayout m'"
proof -
  have eq: "map_of (manifest_model_members m) k = map_of (manifest_model_members m') k" for k
    using assms by simp
  note unf = manifest_model_members_def map_of_omit omit_eq
  show "man_ModelName m = man_ModelName m'" using eq[of "''modelName''"] by (simp add: unf del: map_of_append split: if_splits)
  show "man_ModelFormat m = man_ModelFormat m'" using eq[of "''modelFormat''"] by (simp add: unf del: map_of_append split: if_splits)
  show "man_ModelSize m = man_ModelSize m'" using eq[of "''modelSize''"] by (simp add: unf del: map_of_append split: if_splits)
  show "man_ModelHash m = man_ModelHash m'" using eq[of "''modelHash''"] by (simp add: unf del: map_of_append split: if_splits)
  show "man_ModelStartPage m = man_ModelStartPage m'" using eq[of "''modelStartPage''"] by (simp add: unf del: map_of_append split: if_splits)
  show "man_ModelPageCount m = man_ModelPageCount m'" using eq[of "''modelPageCount''"] by (simp add: unf del: map_of_append split: if_splits)
  show "man_ModelEndPage m = man_ModelEndPage m'" using eq[of "''modelEndPage''"] by (simp add: unf del: map_of_append split: if_splits)
  show "man_IndexPage m = man_IndexPage m'" using eq[of "''indexPage''"] by (simp add: unf del: map_of_append split: if_splits)
  show "man_FillerStart m = man_FillerStart m'" using eq[of "''fillerStart''"] by (simp add: unf del: map_of_append split: if_splits)
  show "man_FillerEnd m = man_FillerEnd m'" using eq[of "''fillerEnd''"] by (simp add: unf del: map_of_append split: if_splits)
  show "man_UnifiedLayout m = man_UnifiedLayout m'" using eq[of "''unifiedLayout''"] by (simp add: unf del: map_of_append split: if_splits)
qed

lemma manifest_json_inj: "manifest_json m = manifest_json m' \<Longrightarrow> m = m'"
proof -
  assume "manifest_json m = manifest_json m'"
  then have m: "manifest_members m = manifest_members m'" "manifest_model_members m = manifest_model_members m'"
    by (simp_all add: manifest_json_def append_eq_append_conv manifest_members_def)
  show ?thesis
    using m(1) manifest_model_members_inj[OF m(2)]
    by (intro Manifest.equality) (simp_all add: manifest_members_def)
qed

definition manifestInput :: "Manifest \<Rightarrow> bytes" where
  "manifestInput m = writeString domainManifest @ writeBytes (json_marshal (manifest_json (canonicalManifestForRoot m)))"

text \<open>
  The manifest root commits to the canonical manifest: it is the BLAKE3 hash of an input that
  is equal for two manifests exactly when they agree on every field outside the local metadata
  (root, generation time, model name and format, layout text), and the generator's root is the
  verifier's.
\<close>

theorem manifest_root_commits:
  "ManifestHash blake3 m = copy32 (blake3 (manifestInput m))
   \<and> hashManifestRoot blake3 m = ManifestHash blake3 m
   \<and> (manifestInput m = manifestInput m' \<longleftrightarrow> canonicalManifestForRoot m = canonicalManifestForRoot m')"
proof -
  have "canonicalManifestForRoot m = canonicalManifestForRoot m'" if "manifestInput m = manifestInput m'"
  proof -
    have "writeBytes (json_marshal (manifest_json (canonicalManifestForRoot m))) =
        writeBytes (json_marshal (manifest_json (canonicalManifestForRoot m')))"
      using that by (simp add: manifestInput_def)
    then have "json_marshal (manifest_json (canonicalManifestForRoot m)) =
        json_marshal (manifest_json (canonicalManifestForRoot m'))"
      by (simp add: writeBytes_def append_eq_append_conv)
    then show ?thesis using json_marshal_inj manifest_json_inj by simp
  qed
  then show ?thesis
    by (auto simp: hashManifestRoot_eq ManifestHash_def taggedHash_def manifestInput_def Let_def)
qed

text \<open>
  Validation ignores the local metadata that the generator adds after the root is computed:
  the verdict on a manifest, error included, is the same for every generation time, model name,
  model format and layout text.
\<close>

theorem manifest_validation_ignores_local_metadata:
  "ValidateManifest blake3 (m\<lparr>man_GenerationTime := t, man_ModelName := n, man_ModelFormat := f, man_UnifiedLayout := l\<rparr>)
     = ValidateManifest blake3 m"
proof -
  let ?m = "m\<lparr>man_GenerationTime := t, man_ModelName := n, man_ModelFormat := f, man_UnifiedLayout := l\<rparr>"
  have "ManifestHash blake3 ?m = ManifestHash blake3 m"
    by (rule ManifestHash_cong) (simp add: canonicalManifestForRoot_def)
  then show ?thesis by (simp add: ValidateManifest_def manifestRoots_def cong: if_cong)
qed

lemma validateManifestBasics_iff:
  "validateManifestBasics m = Inr () \<longleftrightarrow>
     man_Version m \<in> {0, ManifestVersion} \<and> man_HashAlgorithm m = HashAlgorithm
     \<and> man_MerkleVersion m = MerkleVersion
     \<and> man_HeaderSize m = UnifiedHeaderSize \<and> man_PageSize m > UnifiedHeaderSize
     \<and> man_PayloadSize m = man_PageSize m - UnifiedHeaderSize
     \<and> man_TotalPages m \<noteq> 0 \<and> man_TotalBytes m = man_TotalPages m * man_PageSize m
     \<and> man_ModelPageCount m \<noteq> 0 \<and> man_ModelStartPage m < man_ModelEndPage m \<and> man_ModelStartPage m \<noteq> 0
     \<and> man_ModelEndPage m \<le> man_TotalPages m
     \<and> man_ModelPageCount m = man_ModelEndPage m - man_ModelStartPage m
     \<and> man_AIDagLeafCount m = man_TotalPages m \<and> man_PoWCommitLeafCount m = man_TotalPages m
     \<and> man_TensorLeafCount m = man_ModelPageCount m
     \<and> (\<forall>s \<in> {man_AIDagRoot m, man_TensorRoot m, man_PoWCommitRoot m, man_ManifestRoot m, man_ModelHash m}.
          \<exists>h. dag_decodeHex32 s = Inr h \<and> h \<noteq> zero32)"
  by (simp add: validateManifestBasics_def manifestRoots_def not_less not_le isZeroHash_def)
    (safe; simp)

text \<open>
  A manifest that passes the generator's checks (\<open>validateManifestBasics\<close> and the root
  comparison of \<open>verifyDagAgainstManifest\<close>) is accepted by the proof verifier.
\<close>

theorem generator_manifest_accepted:
  assumes "validateManifestBasics m = Inr ()"
    "equalHex (man_ManifestRoot m) (formatHash (hashManifestRoot blake3 m))"
  shows "ValidateManifest blake3 m = Inr ()"
proof -
  have good: "good_root s" if "\<exists>h. dag_decodeHex32 s = Inr h \<and> h \<noteq> zero32" for s
    using that dag_decodeHex32_sound by (auto simp: good_root_def)
  have "man_ModelEndPage m \<noteq> man_ModelStartPage m" using assms(1) unfolding validateManifestBasics_iff by auto
  then show ?thesis
    using assms good unfolding ValidateManifest_iff validateManifestBasics_iff hashManifestRoot_eq
    by simp
qed

definition sampleManifest :: Manifest where
  "sampleManifest = \<lparr>
     man_Version = 2, man_Name = ''dag'', man_HashAlgorithm = HashAlgorithm, man_MerkleVersion = 1,
     man_PageCommit = [], man_PageSize = 164, man_HeaderSize = 160, man_PayloadSize = 4, man_SizeGB = 1,
     man_TotalBytes = 492, man_TotalPages = 3, man_Seed = ''seed'',
     man_AIDagRoot = formatHash (replicate 32 1), man_TensorRoot = formatHash (replicate 32 1),
     man_PoWCommitRoot = formatHash (replicate 32 1), man_ManifestRoot = formatHash (replicate 32 1),
     man_GenerationTime = [], man_AIDagLeafCount = 3, man_TensorLeafCount = 1, man_PoWCommitLeafCount = 3,
     man_MerkleSidecar = ''s'', man_SidecarVersion = 1, man_ModelName = [], man_ModelFormat = [],
     man_ModelSize = 4, man_ModelHash = formatHash (replicate 32 1), man_ModelStartPage = 1,
     man_ModelPageCount = 1, man_ModelEndPage = 2, man_IndexPage = 0, man_FillerStart = 2,
     man_FillerEnd = 3, man_UnifiedLayout = [] \<rparr>"

lemma replicate_1_not_zero: "replicate 32 (1 :: byte) \<noteq> zero32"
  by (simp add: replicate_eq_replicate)

lemma ManifestHash_const [simp]: "ManifestHash (\<lambda>_. replicate 32 1) m = replicate 32 1"
  by (simp add: ManifestHash_def taggedHash_def)

theorem generator_manifest_accepted_witness:
  "ValidateManifest (\<lambda>_. replicate 32 1) sampleManifest = Inr ()"
proof (rule generator_manifest_accepted)
  show "validateManifestBasics sampleManifest = Inr ()"
    using replicate_1_not_zero
    by (simp add: validateManifestBasics_iff sampleManifest_def UnifiedHeaderSize_def ManifestVersion_def MerkleVersion_def)
  show "equalHex (man_ManifestRoot sampleManifest) (formatHash (hashManifestRoot (\<lambda>_. replicate 32 1) sampleManifest))"
    by (simp add: hashManifestRoot_eq sampleManifest_def)
qed

text \<open>
  The converse fails: the proof verifier checks the model range by a wrapping addition only, so
  a manifest whose range runs over the end of \<open>uint64\<close> passes it and is rejected by the
  generator's check.
\<close>

theorem wrapped_model_range_accepted:
  "\<exists>m. ValidateManifest (\<lambda>_. replicate 32 1) m = Inr () \<and> man_ModelEndPage m < man_ModelStartPage m
     \<and> validateManifestBasics m = Inl InvalidModelRange"
proof -
  let ?m = "sampleManifest\<lparr>man_ModelStartPage := 18446744073709551615, man_ModelPageCount := 2, man_ModelEndPage := 1,
      man_TensorLeafCount := 2\<rparr>"
  have "ValidateManifest (\<lambda>_. replicate 32 1) ?m = Inr ()"
    using replicate_1_not_zero
    by (simp add: ValidateManifest_iff sampleManifest_def UnifiedHeaderSize_def ManifestVersion_def MerkleVersion_def
        good_root_def)
  moreover have "validateManifestBasics ?m = Inl InvalidModelRange"
    by (simp add: validateManifestBasics_def sampleManifest_def UnifiedHeaderSize_def ManifestVersion_def MerkleVersion_def)
  ultimately show ?thesis by (intro exI[of _ ?m]) (simp add: sampleManifest_def)
qed

end
