(* ===== verification/Page.thy ===== *)
theory Page
  imports Wire
begin

unbundle bit_operations_syntax

text \<open>
  The 160-byte page header of the unified AI-DAG and the page checks of the verifier
  (\<open>internal/aiseal/types.go\<close>, \<open>internal/aiseal/hash.go\<close>): reading a header, validating
  it against the expected index and page size, recomputing the payload hash and the page
  commitment, and the Merkle leaf of a page.
\<close>

record PageHeader =
  hdr_Magic :: bytes
  hdr_Version :: u16
  hdr_PageType :: u16
  hdr_HeaderSize :: u32
  hdr_PageSize :: u32
  hdr_PayloadSize :: u32
  hdr_Flags :: u32
  hdr_PageIndex :: u64
  hdr_ModelOffset :: u64
  hdr_ModelSize :: u64
  hdr_ShardID :: u64
  hdr_ShardCount :: u64
  hdr_TensorID :: u32
  hdr_LayerID :: u32
  hdr_ShardID2 :: u32
  hdr_QuantID :: u32
  hdr_PayloadHash :: hash32
  hdr_PageHash :: hash32
  hdr_Reserved :: bytes

datatype page_error =
    PageTooSmall
  | BadPageMagic
  | UnsupportedPageVersion u16
  | PageHeaderSizeMismatch
  | PayloadSizeOrIndexMismatch
  | UnknownPageType u16
  | BadPageSize u64
  | PayloadHashMismatch u64
  | PageCommitMismatch u64

text \<open>The Go slice \<open>src[a:b]\<close> of a sufficiently long buffer.\<close>

definition sub :: "bytes \<Rightarrow> nat \<Rightarrow> nat \<Rightarrow> bytes" where
  "sub src a b = take (b - a) (drop a src)"

lemma length_sub [simp]: "b \<le> length src \<Longrightarrow> length (sub src a b) = b - a"
  by (simp add: sub_def)

definition magicAIDG :: string where "magicAIDG = ''AIDG''"
definition pageHashOffset :: nat where "pageHashOffset = 112"
definition pageHashEnd :: nat where "pageHashEnd = 144"

definition readHeader :: "bytes \<Rightarrow> page_error + PageHeader" where
  "readHeader src =
     (if length src < unat UnifiedHeaderSize then Inl PageTooSmall
      else if sub src 0 4 \<noteq> bytes_of magicAIDG then Inl BadPageMagic
      else Inr \<lparr>
        hdr_Magic = sub src 0 4,
        hdr_Version = getLE (sub src 4 6),
        hdr_PageType = getLE (sub src 6 8),
        hdr_HeaderSize = getLE (sub src 8 12),
        hdr_PageSize = getLE (sub src 12 16),
        hdr_PayloadSize = getLE (sub src 16 20),
        hdr_Flags = getLE (sub src 20 24),
        hdr_PageIndex = getLE (sub src 24 32),
        hdr_ModelOffset = getLE (sub src 32 40),
        hdr_ModelSize = getLE (sub src 40 48),
        hdr_ShardID = getLE (sub src 48 56),
        hdr_ShardCount = getLE (sub src 56 64),
        hdr_TensorID = getLE (sub src 64 68),
        hdr_LayerID = getLE (sub src 68 72),
        hdr_ShardID2 = getLE (sub src 72 76),
        hdr_QuantID = getLE (sub src 76 80),
        hdr_PayloadHash = sub src 80 112,
        hdr_PageHash = sub src 112 144,
        hdr_Reserved = sub src 144 160 \<rparr>)"

definition validateHeader :: "PageHeader \<Rightarrow> u64 \<Rightarrow> u64 \<Rightarrow> page_error + unit" where
  "validateHeader h pageIndex pageSize =
     (if hdr_Version h \<noteq> FormatVersion then Inl (UnsupportedPageVersion (hdr_Version h))
      else if ucast (hdr_HeaderSize h) \<noteq> UnifiedHeaderSize \<or> ucast (hdr_PageSize h) \<noteq> pageSize
        then Inl PageHeaderSizeMismatch
      else if ucast (hdr_PayloadSize h) \<noteq> pageSize - UnifiedHeaderSize \<or> hdr_PageIndex h \<noteq> pageIndex
        then Inl PayloadSizeOrIndexMismatch
      else if hdr_PageType h \<in> {PageTypeIndex, PageTypeModel, PageTypeFiller} then Inr ()
      else Inl (UnknownPageType (hdr_PageType h)))"

definition verifyPage ::
  "(bytes \<Rightarrow> bytes) \<Rightarrow> bytes \<Rightarrow> u64 \<Rightarrow> u64 \<Rightarrow> page_error + (PageHeader \<times> hash32 \<times> hash32)" where
  "verifyPage blake3 page pageIndex pageSize =
     (if of_nat (length page) \<noteq> pageSize \<or> pageSize < UnifiedHeaderSize then Inl (BadPageSize pageIndex)
      else bindE (readHeader (take (unat UnifiedHeaderSize) page)) (\<lambda>h.
           bindE (validateHeader h pageIndex pageSize) (\<lambda>_.
           let payloadHash = taggedHash blake3 domainHashBytes (writeBytes (drop (unat UnifiedHeaderSize) page))
           in if payloadHash \<noteq> hdr_PayloadHash h then Inl (PayloadHashMismatch pageIndex)
              else let pageCommit = taggedHash blake3 domainPageCommit
                         (writeBytes (take pageHashOffset page) @ writeFixed32 zero32
                            @ writeBytes (drop pageHashEnd page))
                   in if pageCommit \<noteq> hdr_PageHash h then Inl (PageCommitMismatch pageIndex)
                      else Inr (h, payloadHash, pageCommit))))"

definition merkleLeafHash :: "(bytes \<Rightarrow> bytes) \<Rightarrow> string \<Rightarrow> PageHeader \<Rightarrow> hash32 \<Rightarrow> hash32 \<Rightarrow> hash32" where
  "merkleLeafHash blake3 treeID h payloadHash pageCommit =
     taggedHash blake3 domainMerkleLeaf
       (writeString treeID
        @ writeUint16 (hdr_Version h)
        @ writeUint16 (hdr_PageType h)
        @ writeUint32 (hdr_HeaderSize h)
        @ writeUint32 (hdr_PageSize h)
        @ writeUint32 (hdr_PayloadSize h)
        @ writeUint32 (hdr_Flags h)
        @ writeUint64 (hdr_PageIndex h)
        @ writeUint64 (hdr_ModelOffset h)
        @ writeUint64 (hdr_ModelSize h)
        @ writeUint64 (hdr_ShardID h)
        @ writeUint64 (hdr_ShardCount h)
        @ writeUint32 (hdr_TensorID h)
        @ writeUint32 (hdr_LayerID h)
        @ writeUint32 (hdr_ShardID2 h)
        @ writeUint32 (hdr_QuantID h)
        @ writeFixed32 payloadHash
        @ writeFixed32 pageCommit)"

section \<open>Laws\<close>

lemma unat_UnifiedHeaderSize [simp]: "unat UnifiedHeaderSize = 160"
  by (simp add: UnifiedHeaderSize_def)

lemma length_merkleLeafHash [simp]: "length (merkleLeafHash blake3 t h p c) = 32"
  by (simp add: merkleLeafHash_def)

text \<open>The fixed-size arrays of a Go \<open>PageHeader\<close> have their declared lengths.\<close>

definition wf_header :: "PageHeader \<Rightarrow> bool" where
  "wf_header h \<longleftrightarrow> length (hdr_Magic h) = 4 \<and> length (hdr_PayloadHash h) = 32
     \<and> length (hdr_PageHash h) = 32 \<and> length (hdr_Reserved h) = 16"

lemma readHeader_wf: "readHeader src = Inr h \<Longrightarrow> wf_header h"
  by (auto simp: readHeader_def wf_header_def magicAIDG_def)

lemma readHeader_magic: "readHeader src = Inr h \<Longrightarrow> hdr_Magic h = bytes_of magicAIDG"
  by (auto simp: readHeader_def)

text \<open>What an accepted page satisfies: the fields the verifier relies on later.\<close>

lemma verifyPage_accepts:
  assumes "verifyPage blake3 page i sz = Inr (h, ph, pc)"
  shows "of_nat (length page) = sz" "sz \<ge> 160" "wf_header h"
    "readHeader (take 160 page) = Inr h"
    "hdr_PageIndex h = i" "hdr_Version h = FormatVersion"
    "hdr_PageType h \<in> {PageTypeIndex, PageTypeModel, PageTypeFiller}"
    "ph = taggedHash blake3 domainHashBytes (writeBytes (drop 160 page))" "ph = hdr_PayloadHash h"
    "pc = hdr_PageHash h" "length ph = 32" "length pc = 32"
proof -
  from assms show h: "wf_header h"
    and "of_nat (length page) = sz" "sz \<ge> 160" "readHeader (take 160 page) = Inr h"
    and "hdr_PageIndex h = i" "hdr_Version h = FormatVersion"
    and "hdr_PageType h \<in> {PageTypeIndex, PageTypeModel, PageTypeFiller}"
    and "ph = taggedHash blake3 domainHashBytes (writeBytes (drop 160 page))"
    and ph: "ph = hdr_PayloadHash h" and pc: "pc = hdr_PageHash h"
    by (auto simp: verifyPage_def validateHeader_def Let_def UnifiedHeaderSize_def not_less
        dest: readHeader_wf)
  show "length ph = 32" "length pc = 32" using h ph pc by (auto simp: wf_header_def)
qed

end
