(* ===== verification/Seal.thy ===== *)
theory Seal
  imports Manifest Page
begin

unbundle bit_operations_syntax

text \<open>
  The AISeal verifier (\<open>internal/aiseal/types.go\<close>, \<open>verify.go\<close>): the seal, the proof pages,
  the deterministic sampling of pages, the mix, AI, work and proof digests, and \<open>Verify\<close>.

  Sampling draws indices until enough different ones are found; a hash that repeats itself
  forever keeps the Go loop running, so the sampling loop is a partial function and
  \<^const>\<open>None\<close> stands for a call that does not return: sampling that never ends, or the
  run-time panic of \<open>tensorChallenge\<close> on a payload of fewer than 32 bytes. Everything else
  returns an error or a value.
\<close>

section \<open>Data\<close>

record PageProof =
  pp_PageIndex :: u64
  pp_Page :: string
  pp_PoWPath :: "MerkleProofStep list"
  pp_TensorPath :: "MerkleProofStep list"

record Seal =
  seal_Version :: u16
  seal_Epoch :: u64
  seal_BlockHash :: string
  seal_Miner :: string
  seal_Nonce :: u64
  seal_PoWSampleCount :: int
  seal_TensorSampleCount :: int
  seal_ManifestRoot :: string
  seal_AIDagRoot :: string
  seal_TensorRoot :: string
  seal_PoWRoot :: string
  seal_ModelHash :: string
  seal_MixDigest :: string
  seal_AIDigest :: string
  seal_ProofHash :: string
  seal_WorkHash :: string

record Proof =
  prf_Version :: int
  prf_Seal :: Seal
  prf_Pages :: "PageProof list"

record VerificationResult =
  vr_WorkHash :: string
  vr_ProofHash :: string
  vr_AIDigest :: string
  vr_MixDigest :: string
  vr_PageCount :: int

record Limits =
  lim_MaxProofBytes :: int
  lim_MaxPages :: int
  lim_MaxPageSize :: u64

definition DefaultLimits :: Limits where
  "DefaultLimits = \<lparr>lim_MaxProofBytes = 8388608, lim_MaxPages = 256, lim_MaxPageSize = 1048576\<rparr>"

record pageMaterial =
  mat_PageIndex :: u64
  mat_Header :: PageHeader
  mat_Page :: bytes
  mat_Payload :: bytes
  mat_PayloadHash :: hash32
  mat_PageCommit :: hash32
  mat_PoWLeaf :: hash32
  mat_TensorLeaf :: hash32

record ExpectedChallenge =
  exp_BlockHash :: string
  exp_Miner :: string
  exp_Epoch :: u64
  exp_ManifestRoot :: string
  exp_MinPoWSamples :: int
  exp_MinTensorSamples :: int

datatype seal_error =
    BadManifest manifest_error
  | ResourceLimits
  | UnsupportedVersion
  | InvalidSampleCounts
  | SealManifestMismatch
  | BadHex hex_error
  | SampleCountExceedsManifest
  | PageCountMismatch nat nat
  | DuplicateProofPage u64
  | MissingProofPage u64
  | BadProofPageSize u64
  | BadPage page_error
  | PoWProofInvalid u64 merkle_error
  | TensorNotModelPage u64
  | ModelShardMismatch u64
  | TensorProofInvalid u64 merkle_error
  | UnexpectedTensorPath u64
  | MixDigestMismatch
  | AIDigestMismatch
  | WorkHashMismatch
  | ProofHashMismatch
  | InvalidTarget hex_error
  | TargetNotMet
  | ProofTooLarge nat
  | ProofNotJSON
  | BlockChallengeMismatch
  | MinerMismatch
  | EpochMismatch
  | ExpectedManifestMismatch
  | InsufficientSamples
  | ResultBindingMismatch

section \<open>Sampling\<close>

text \<open>
  \<open>for counter := 0; len(out) < count; counter++\<close>: the index drawn for a counter is \<open>draw\<close>;
  \<open>seen\<close> holds exactly the indices of \<open>out\<close>.
\<close>

partial_function (option) sampleLoop :: "(u64 \<Rightarrow> u64) \<Rightarrow> u64 \<Rightarrow> u64 \<Rightarrow> u64 list \<Rightarrow> u64 list option" where
  "sampleLoop draw cnt counter out =
     (if of_nat (length out) < cnt then
        (if draw counter \<in> set out then sampleLoop draw cnt (counter + 1) out
         else sampleLoop draw cnt (counter + 1) (out @ [draw counter]))
      else Some out)"

definition sampleSeed ::
  "(bytes \<Rightarrow> bytes) \<Rightarrow> string \<Rightarrow> Manifest \<Rightarrow> Seal \<Rightarrow> u64 \<Rightarrow> u64 \<Rightarrow> u64 \<Rightarrow> hash32" where
  "sampleSeed blake3 domain manifest seal cnt start span =
     taggedHash blake3 domain
       (writeString (normalizeArbitrary (seal_BlockHash seal))
        @ writeString (ToLower (TrimSpace (seal_Miner seal)))
        @ writeUint64 (seal_Epoch seal)
        @ writeUint64 (seal_Nonce seal)
        @ writeString (normalizeHex (man_ManifestRoot manifest))
        @ writeString (normalizeHex (man_PoWCommitRoot manifest))
        @ writeString (normalizeHex (man_TensorRoot manifest))
        @ writeUint64 (man_TotalPages manifest)
        @ writeUint64 (man_ModelStartPage manifest)
        @ writeUint64 (man_ModelPageCount manifest)
        @ writeUint64 cnt
        @ writeUint64 start
        @ writeUint64 span)"

definition sampleIndex :: "(bytes \<Rightarrow> bytes) \<Rightarrow> string \<Rightarrow> hash32 \<Rightarrow> u64 \<Rightarrow> u64 \<Rightarrow> u64 \<Rightarrow> u64" where
  "sampleIndex blake3 domain seed start span counter =
     start + getLE (take 8 (taggedHash blake3 domain (writeFixed32 seed @ writeUint64 counter))) mod span"

definition sampleUnique ::
  "(bytes \<Rightarrow> bytes) \<Rightarrow> string \<Rightarrow> Manifest \<Rightarrow> Seal \<Rightarrow> u64 \<Rightarrow> u64 \<Rightarrow> u64 \<Rightarrow> u64 list option" where
  "sampleUnique blake3 domain manifest seal cnt start span =
     (if cnt = 0 \<or> span = 0 then Some []
      else let seed = sampleSeed blake3 domain manifest seal cnt start span
           in map_option (sortSlice (\<lambda>i. i)) (sampleLoop (sampleIndex blake3 domain seed start span) cnt 0 []))"

definition deriveRequiredPages ::
  "(bytes \<Rightarrow> bytes) \<Rightarrow> Manifest \<Rightarrow> Seal \<Rightarrow> (seal_error + (u64 list \<times> u64 list \<times> u64 list)) option" where
  "deriveRequiredPages blake3 manifest seal =
     (if of_int (seal_PoWSampleCount seal) > man_TotalPages manifest
         \<or> of_int (seal_TensorSampleCount seal) > man_ModelPageCount manifest
      then Some (Inl SampleCountExceedsManifest)
      else case sampleUnique blake3 domainSamplePoW manifest seal (of_int (seal_PoWSampleCount seal))
                  0 (man_TotalPages manifest) of
             None \<Rightarrow> None
           | Some pow \<Rightarrow>
               (case sampleUnique blake3 domainSampleTensor manifest seal (of_int (seal_TensorSampleCount seal))
                       (man_ModelStartPage manifest) (man_ModelPageCount manifest) of
                  None \<Rightarrow> None
                | Some tensor \<Rightarrow>
                    Some (Inr (pow, tensor, sortSlice (\<lambda>i. i) (remdups (pow @ tensor))))))"

definition containsSorted :: "u64 list \<Rightarrow> u64 \<Rightarrow> bool" where
  "containsSorted values target =
     (let i = sortSearch (length values) (\<lambda>i. values ! i \<ge> target)
      in i < length values \<and> values ! i = target)"

section \<open>Digests\<close>

definition writeSealFields :: "Seal \<Rightarrow> bytes" where
  "writeSealFields seal =
     writeUint16 (seal_Version seal)
     @ writeUint64 (seal_Epoch seal)
     @ writeString (normalizeArbitrary (seal_BlockHash seal))
     @ writeString (ToLower (TrimSpace (seal_Miner seal)))
     @ writeUint64 (seal_Nonce seal)
     @ writeUint64 (of_int (seal_PoWSampleCount seal))
     @ writeUint64 (of_int (seal_TensorSampleCount seal))
     @ writeString (normalizeHex (seal_ManifestRoot seal))
     @ writeString (normalizeHex (seal_AIDagRoot seal))
     @ writeString (normalizeHex (seal_TensorRoot seal))
     @ writeString (normalizeHex (seal_PoWRoot seal))
     @ writeString (normalizeHex (seal_ModelHash seal))"

text \<open>\<open>byIndex[material.PageIndex] = material\<close>: a later material replaces an earlier one; a
  missing index reads the zero value of the struct.\<close>

definition zeroHeader :: PageHeader where
  "zeroHeader = \<lparr>hdr_Magic = replicate 4 0, hdr_Version = 0, hdr_PageType = 0, hdr_HeaderSize = 0, hdr_PageSize = 0,
     hdr_PayloadSize = 0, hdr_Flags = 0, hdr_PageIndex = 0, hdr_ModelOffset = 0, hdr_ModelSize = 0, hdr_ShardID = 0,
     hdr_ShardCount = 0, hdr_TensorID = 0, hdr_LayerID = 0, hdr_ShardID2 = 0, hdr_QuantID = 0,
     hdr_PayloadHash = zero32, hdr_PageHash = zero32, hdr_Reserved = replicate 16 0\<rparr>"

definition zeroMaterial :: pageMaterial where
  "zeroMaterial = \<lparr>mat_PageIndex = 0, mat_Header = zeroHeader, mat_Page = [], mat_Payload = [],
     mat_PayloadHash = zero32, mat_PageCommit = zero32, mat_PoWLeaf = zero32, mat_TensorLeaf = zero32\<rparr>"

definition materialByIndex :: "pageMaterial list \<Rightarrow> u64 \<Rightarrow> pageMaterial" where
  "materialByIndex materials index =
     (case map_of (rev (map (\<lambda>m. (mat_PageIndex m, m)) materials)) index of
        None \<Rightarrow> zeroMaterial
      | Some m \<Rightarrow> m)"

definition computeMixDigest ::
  "(bytes \<Rightarrow> bytes) \<Rightarrow> Seal \<Rightarrow> Manifest \<Rightarrow> u64 list \<Rightarrow> u64 list \<Rightarrow> pageMaterial list \<Rightarrow> hash32" where
  "computeMixDigest blake3 seal manifest powSamples tensorSamples materials =
     (let byIndex = materialByIndex materials in
      taggedHash blake3 domainMixDigest
       (writeSealFields seal
        @ writeString (normalizeHex (man_ManifestRoot manifest))
        @ writeUint64 (man_TotalPages manifest)
        @ writeUint64 (man_ModelStartPage manifest)
        @ writeUint64 (man_ModelPageCount manifest)
        @ writeUint64 (of_nat (length powSamples))
        @ concat (map (\<lambda>index. let material = byIndex index in
            writeUint64 index
            @ writeUint16 (hdr_PageType (mat_Header material))
            @ writeFixed32 (mat_PayloadHash material)
            @ writeFixed32 (mat_PageCommit material)
            @ writeFixed32 (mat_PoWLeaf material)) powSamples)
        @ writeUint64 (of_nat (length tensorSamples))
        @ concat (map (\<lambda>index. let material = byIndex index in
            writeUint64 index
            @ writeUint64 (hdr_ShardID (mat_Header material))
            @ writeUint64 (hdr_ModelOffset (mat_Header material))
            @ writeUint64 (hdr_ModelSize (mat_Header material))
            @ writeFixed32 (mat_PayloadHash material)
            @ writeFixed32 (mat_PageCommit material)
            @ writeFixed32 (mat_TensorLeaf material)) tensorSamples)))"

text \<open>
  The 32 windows of 32 payload bytes that a tensor page is challenged on. A window that runs over
  the end of the payload continues at its start; \<^const>\<open>None\<close> is the slice expression
  \<open>payload[:end-len(payload)]\<close> reaching past the payload, which happens for payloads of fewer
  than 32 bytes only (Go panics there once the slice's capacity is exceeded too).
\<close>

definition challengeWindow :: "bytes \<Rightarrow> nat \<Rightarrow> bytes option" where
  "challengeWindow payload offset =
     (let endOff = offset + 32 in
      if endOff \<le> length payload then Some (take 32 (drop offset payload))
      else if endOff - length payload > length payload then None
      else Some (drop offset payload @ take (endOff - length payload) payload))"

definition challengeOffset :: "(bytes \<Rightarrow> bytes) \<Rightarrow> hash32 \<Rightarrow> nat \<Rightarrow> nat \<Rightarrow> nat" where
  "challengeOffset blake3 seed len i =
     (let h = taggedHash blake3 domainAIDigest (writeFixed32 seed @ writeUint64 (of_nat i))
      in unat ((getLE (take 8 h) :: u64) mod of_nat len))"

definition tensorChallenge :: "(bytes \<Rightarrow> bytes) \<Rightarrow> Seal \<Rightarrow> u64 \<Rightarrow> bytes \<Rightarrow> hash32 option" where
  "tensorChallenge blake3 seal index payload =
     (let seed = taggedHash blake3 domainAIDigest (writeSealFields seal @ writeUint64 index);
          windows = (if length payload = 0 then Some []
                     else those (map (\<lambda>i. challengeWindow payload (challengeOffset blake3 seed (length payload) i)) [0..<32]))
      in map_option (\<lambda>ws.
           taggedHash blake3 domainAIDigest
             (writeSealFields seal
              @ writeUint64 index
              @ writeUint64 (of_nat (length payload))
              @ concat (map writeBytes ws))) windows)"

definition computeAIDigest ::
  "(bytes \<Rightarrow> bytes) \<Rightarrow> Seal \<Rightarrow> Manifest \<Rightarrow> u64 list \<Rightarrow> pageMaterial list \<Rightarrow> hash32 option" where
  "computeAIDigest blake3 seal manifest tensorSamples materials =
     (let byIndex = materialByIndex materials in
      map_option (\<lambda>parts.
        taggedHash blake3 domainAIDigest
         (writeSealFields seal
          @ writeString (normalizeHex (man_ModelHash manifest))
          @ writeUint64 (man_ModelSize manifest)
          @ writeUint64 (man_ModelPageCount manifest)
          @ writeUint64 (of_nat (length tensorSamples))
          @ concat parts))
       (those (map (\<lambda>index. let material = byIndex index in
          map_option (\<lambda>challenge.
            writeUint64 index
            @ writeUint64 (hdr_ShardID (mat_Header material))
            @ writeUint64 (hdr_ModelOffset (mat_Header material))
            @ writeUint64 (hdr_ModelSize (mat_Header material))
            @ writeFixed32 (mat_PayloadHash material)
            @ writeFixed32 (mat_PageCommit material)
            @ writeFixed32 challenge)
           (tensorChallenge blake3 seal index (mat_Payload material))) tensorSamples)))"

definition computeWorkHash :: "(bytes \<Rightarrow> bytes) \<Rightarrow> Seal \<Rightarrow> hash32" where
  "computeWorkHash blake3 seal =
     taggedHash blake3 domainSealWork
       (writeSealFields seal
        @ writeString (normalizeHex (seal_MixDigest seal))
        @ writeString (normalizeHex (seal_AIDigest seal)))"

definition writeProofPath :: "MerkleProofStep list \<Rightarrow> bytes" where
  "writeProofPath path =
     writeUint64 (of_nat (length path))
     @ concat (map (\<lambda>step. writeString (step_Side step) @ writeString (normalizeHex (step_Hash step))) path)"

definition computeProofHash :: "(bytes \<Rightarrow> bytes) \<Rightarrow> Proof \<Rightarrow> hash32" where
  "computeProofHash blake3 proof =
     (let seal = (prf_Seal proof)\<lparr>seal_ProofHash := []\<rparr>;
          pages = sortSlice pp_PageIndex (prf_Pages proof)
      in taggedHash blake3 domainProofHash
       (writeUint64 (of_int (prf_Version proof))
        @ writeSealFields seal
        @ writeString (normalizeHex (seal_MixDigest seal))
        @ writeString (normalizeHex (seal_AIDigest seal))
        @ writeString (normalizeHex (seal_WorkHash seal))
        @ writeUint64 (of_nat (length pages))
        @ concat (map (\<lambda>page.
            writeUint64 (pp_PageIndex page)
            @ writeString (normalizeHex (pp_Page page))
            @ writeProofPath (pp_PoWPath page)
            @ writeProofPath (pp_TensorPath page)) pages)))"

section \<open>Verification\<close>

definition verifySealMatchesManifest :: "Seal \<Rightarrow> Manifest \<Rightarrow> seal_error + unit" where
  "verifySealMatchesManifest seal manifest =
     forE (\<lambda>(a, b). if \<not> equalHex a b then Inl SealManifestMismatch else Inr ())
       [(seal_ManifestRoot seal, man_ManifestRoot manifest), (seal_AIDagRoot seal, man_AIDagRoot manifest),
        (seal_TensorRoot seal, man_TensorRoot manifest), (seal_PoWRoot seal, man_PoWCommitRoot manifest),
        (seal_ModelHash seal, man_ModelHash manifest)]"

text \<open>The page material built from a checked page (the common tail of \<open>materialFromProof\<close> and of
  the prover's \<open>readMaterialAt\<close>).\<close>

definition materialOf ::
  "(bytes \<Rightarrow> bytes) \<Rightarrow> Manifest \<Rightarrow> u64 \<Rightarrow> bytes \<Rightarrow> PageHeader \<Rightarrow> hash32 \<Rightarrow> hash32 \<Rightarrow> pageMaterial" where
  "materialOf blake3 manifest index page header payloadHash pageCommit = \<lparr>
     mat_PageIndex = index, mat_Header = header, mat_Page = page,
     mat_Payload = drop (unat (man_HeaderSize manifest)) page,
     mat_PayloadHash = payloadHash, mat_PageCommit = pageCommit,
     mat_PoWLeaf = merkleLeafHash blake3 treePoW header payloadHash pageCommit,
     mat_TensorLeaf = (if hdr_PageType header = PageTypeModel
                       then merkleLeafHash blake3 treeTensor header payloadHash pageCommit else zero32)\<rparr>"

definition materialFromProof ::
  "(bytes \<Rightarrow> bytes) \<Rightarrow> PageProof \<Rightarrow> Manifest \<Rightarrow> seal_error + pageMaterial" where
  "materialFromProof blake3 pageProof manifest =
     bindE (mapErr BadHex (decodeHexBytes (pp_Page pageProof))) (\<lambda>page.
     if of_nat (length page) \<noteq> man_PageSize manifest then Inl (BadProofPageSize (pp_PageIndex pageProof))
     else bindE (mapErr BadPage (verifyPage blake3 page (pp_PageIndex pageProof) (man_PageSize manifest)))
       (\<lambda>(header, payloadHash, pageCommit).
          Inr (materialOf blake3 manifest (pp_PageIndex pageProof) page header payloadHash pageCommit)))"

text \<open>The checks of \<open>Verify\<close> before the samples are drawn.\<close>

definition verifyPreamble ::
  "(bytes \<Rightarrow> bytes) \<Rightarrow> Manifest \<Rightarrow> Proof \<Rightarrow> Limits \<Rightarrow> seal_error + (hash32 \<times> hash32)" where
  "verifyPreamble blake3 manifest proof limits =
     bindE (mapErr BadManifest (ValidateManifest blake3 manifest)) (\<lambda>_.
     let limits = (if lim_MaxPages limits \<le> 0 then DefaultLimits else limits) in
     if man_PageSize manifest > lim_MaxPageSize limits \<or> int (length (prf_Pages proof)) > lim_MaxPages limits
       then Inl ResourceLimits
     else if prf_Version proof \<noteq> ProofVersion \<or> seal_Version (prf_Seal proof) \<noteq> SealVersion
       then Inl UnsupportedVersion
     else if seal_PoWSampleCount (prf_Seal proof) \<le> 0 \<or> seal_TensorSampleCount (prf_Seal proof) < 0
       then Inl InvalidSampleCounts
     else bindE (verifySealMatchesManifest (prf_Seal proof) manifest) (\<lambda>_.
       bindE (mapErr BadHex (decodeHex32 (man_PoWCommitRoot manifest))) (\<lambda>powRoot.
       bindE (mapErr BadHex (decodeHex32 (man_TensorRoot manifest))) (\<lambda>tensorRoot.
       Inr (powRoot, tensorRoot)))))"

text \<open>The map \<open>byIndex\<close> of the proof's pages; a repeated index is an error.\<close>

fun indexPages :: "PageProof list \<Rightarrow> (u64 \<rightharpoonup> PageProof) \<Rightarrow> seal_error + (u64 \<rightharpoonup> PageProof)" where
  "indexPages [] byIndex = Inr byIndex"
| "indexPages (page # pages) byIndex =
     (if byIndex (pp_PageIndex page) \<noteq> None then Inl (DuplicateProofPage (pp_PageIndex page))
      else indexPages pages (byIndex(pp_PageIndex page \<mapsto> page)))"

text \<open>The body of the loop over the required pages.\<close>

definition verifyRequired ::
  "(bytes \<Rightarrow> bytes) \<Rightarrow> Manifest \<Rightarrow> hash32 \<Rightarrow> hash32 \<Rightarrow> u64 list \<Rightarrow> (u64 \<rightharpoonup> PageProof) \<Rightarrow> u64
     \<Rightarrow> seal_error + pageMaterial" where
  "verifyRequired blake3 manifest powRoot tensorRoot tensorSamples byIndex index =
     (case byIndex index of
        None \<Rightarrow> Inl (MissingProofPage index)
      | Some page \<Rightarrow>
          bindE (materialFromProof blake3 page manifest) (\<lambda>material.
          bindE (mapErr (PoWProofInvalid index)
                   (verifyMerkleProof blake3 treePoW (mat_PoWLeaf material) index
                      (man_PoWCommitLeafCount manifest) (pp_PoWPath page) powRoot)) (\<lambda>_.
          if containsSorted tensorSamples index then
            (if hdr_PageType (mat_Header material) \<noteq> PageTypeModel then Inl (TensorNotModelPage index)
             else
               let tensorIndex = index - man_ModelStartPage manifest in
               if hdr_ShardID (mat_Header material) \<noteq> tensorIndex then Inl (ModelShardMismatch index)
               else bindE (mapErr (TensorProofInvalid index)
                      (verifyMerkleProof blake3 treeTensor (mat_TensorLeaf material) tensorIndex
                         (man_TensorLeafCount manifest) (pp_TensorPath page) tensorRoot)) (\<lambda>_. Inr material))
          else if pp_TensorPath page \<noteq> [] then Inl (UnexpectedTensorPath index)
          else Inr material)))"

text \<open>The digest checks and the target at the end of \<open>Verify\<close>.\<close>

definition verifyDigests ::
  "(bytes \<Rightarrow> bytes) \<Rightarrow> Manifest \<Rightarrow> Proof \<Rightarrow> string \<Rightarrow> u64 list \<Rightarrow> u64 list \<Rightarrow> pageMaterial list
     \<Rightarrow> (seal_error + VerificationResult) option" where
  "verifyDigests blake3 manifest proof target powSamples tensorSamples materials =
     (let seal = prf_Seal proof;
          mixDigest = computeMixDigest blake3 seal manifest powSamples tensorSamples materials
      in if \<not> equalHex (seal_MixDigest seal) (formatHash mixDigest) then Some (Inl MixDigestMismatch)
         else case computeAIDigest blake3 seal manifest tensorSamples materials of
                None \<Rightarrow> None
              | Some aiDigest \<Rightarrow> Some (
         let workHash = computeWorkHash blake3 seal;
             proofHash = computeProofHash blake3 proof
         in if \<not> equalHex (seal_AIDigest seal) (formatHash aiDigest) then Inl AIDigestMismatch
         else if seal_WorkHash seal \<noteq> [] \<and> \<not> equalHex (seal_WorkHash seal) (formatHash workHash)
           then Inl WorkHashMismatch
         else if \<not> equalHex (seal_ProofHash seal) (formatHash proofHash) then Inl ProofHashMismatch
         else bindE (if target \<noteq> [] then
                       bindE (mapErr InvalidTarget (decodeHex32 target)) (\<lambda>targetHash.
                         if \<not> hashMeetsTarget workHash targetHash then Inl TargetNotMet else Inr ())
                     else Inr ()) (\<lambda>_.
           Inr \<lparr>vr_WorkHash = formatHash workHash, vr_ProofHash = formatHash proofHash,
                vr_AIDigest = formatHash aiDigest, vr_MixDigest = formatHash mixDigest,
                vr_PageCount = int (length (prf_Pages proof))\<rparr>)))"

definition verifyPages ::
  "(bytes \<Rightarrow> bytes) \<Rightarrow> Manifest \<Rightarrow> Proof \<Rightarrow> hash32 \<times> hash32 \<Rightarrow> u64 list \<times> u64 list \<times> u64 list
     \<Rightarrow> seal_error + pageMaterial list" where
  "verifyPages blake3 manifest proof roots samples = (case samples of (powSamples, tensorSamples, required) \<Rightarrow>
     if length (prf_Pages proof) \<noteq> length required
     then Inl (PageCountMismatch (length (prf_Pages proof)) (length required))
     else bindE (indexPages (prf_Pages proof) Map.empty) (\<lambda>byIndex.
          mapE (verifyRequired blake3 manifest (fst roots) (snd roots) tensorSamples byIndex) required))"

definition Verify ::
  "(bytes \<Rightarrow> bytes) \<Rightarrow> Manifest \<Rightarrow> Proof \<Rightarrow> string \<Rightarrow> Limits \<Rightarrow> (seal_error + VerificationResult) option" where
  "Verify blake3 manifest proof target limits =
     (case verifyPreamble blake3 manifest proof limits of
        Inl e \<Rightarrow> Some (Inl e)
      | Inr roots \<Rightarrow>
          (case deriveRequiredPages blake3 manifest (prf_Seal proof) of
             None \<Rightarrow> None
           | Some (Inl e) \<Rightarrow> Some (Inl e)
           | Some (Inr samples) \<Rightarrow>
               (case verifyPages blake3 manifest proof roots samples of
                  Inl e \<Rightarrow> Some (Inl e)
                | Inr materials \<Rightarrow>
                    verifyDigests blake3 manifest proof target (fst samples) (fst (snd samples)) materials)))"

text \<open>\<open>VerifyBytes\<close>; \<open>unmarshal\<close> is \<open>json.Unmarshal\<close> into a \<open>Proof\<close>.\<close>

definition VerifyBytes ::
  "(bytes \<Rightarrow> bytes) \<Rightarrow> (bytes \<Rightarrow> Proof option) \<Rightarrow> Manifest \<Rightarrow> bytes \<Rightarrow> string \<Rightarrow> Limits
     \<Rightarrow> (seal_error + (VerificationResult \<times> Proof)) option" where
  "VerifyBytes blake3 unmarshal manifest proofBytes target limits =
     (let limits = (if lim_MaxProofBytes limits \<le> 0 then DefaultLimits else limits) in
      if int (length proofBytes) > lim_MaxProofBytes limits then Some (Inl (ProofTooLarge (length proofBytes)))
      else case unmarshal proofBytes of
             None \<Rightarrow> Some (Inl ProofNotJSON)
           | Some proof \<Rightarrow>
               map_option (\<lambda>r. bindE r (\<lambda>result. Inr (result, proof))) (Verify blake3 manifest proof target limits))"

definition VerifyExpected :: "Proof \<Rightarrow> VerificationResult \<Rightarrow> ExpectedChallenge \<Rightarrow> seal_error + unit" where
  "VerifyExpected proof result expected =
     (let seal = prf_Seal proof in
      if exp_BlockHash expected \<noteq> []
          \<and> normalizeArbitrary (seal_BlockHash seal) \<noteq> normalizeArbitrary (exp_BlockHash expected)
        then Inl BlockChallengeMismatch
      else if exp_Miner expected \<noteq> []
          \<and> ToLower (TrimSpace (seal_Miner seal)) \<noteq> ToLower (TrimSpace (exp_Miner expected))
        then Inl MinerMismatch
      else if exp_Epoch expected \<noteq> 0 \<and> seal_Epoch seal \<noteq> exp_Epoch expected then Inl EpochMismatch
      else if exp_ManifestRoot expected \<noteq> [] \<and> \<not> equalHex (seal_ManifestRoot seal) (exp_ManifestRoot expected)
        then Inl ExpectedManifestMismatch
      else if seal_PoWSampleCount seal < exp_MinPoWSamples expected
          \<or> seal_TensorSampleCount seal < exp_MinTensorSamples expected
        then Inl InsufficientSamples
      else if \<not> equalHex (seal_ProofHash seal) (vr_ProofHash result)
          \<or> \<not> equalHex (seal_AIDigest seal) (vr_AIDigest result)
        then Inl ResultBindingMismatch
      else Inr ())"

end
