(* ===== verification/Codec.thy ===== *)
theory Codec
  imports Decode Seal
begin

text \<open>
  The JSON forms of the manifest and of the AISeal proof (the struct tags of
  \<open>internal/aiseal/types.go\<close>) and their decoders, the functions that
  \<open>LoadManifestBytes\<close> and \<open>VerifyBytes\<close> take as the argument \<open>unmarshal\<close>.

  The lists of a proof are never nil where the prover makes them, so an empty list is printed as
  an empty array.
\<close>

section \<open>Manifests\<close>

definition manifestFields :: "(string \<times> Manifest setter) list" where
  "manifestFields = [
     (''version'', setInt man_Version_update),
     (''name'', setStr man_Name_update),
     (''hashAlgorithm'', setStr man_HashAlgorithm_update),
     (''merkleVersion'', setInt man_MerkleVersion_update),
     (''pageCommit'', setStr man_PageCommit_update),
     (''pageSize'', setWord man_PageSize_update),
     (''headerSize'', setWord man_HeaderSize_update),
     (''payloadSize'', setWord man_PayloadSize_update),
     (''sizeGB'', setWord man_SizeGB_update),
     (''totalBytes'', setWord man_TotalBytes_update),
     (''totalPages'', setWord man_TotalPages_update),
     (''seed'', setStr man_Seed_update),
     (''aidagRoot'', setStr man_AIDagRoot_update),
     (''tensorRoot'', setStr man_TensorRoot_update),
     (''powCommitRoot'', setStr man_PoWCommitRoot_update),
     (''manifestRoot'', setStr man_ManifestRoot_update),
     (''generationTime'', setStr man_GenerationTime_update),
     (''aidagLeafCount'', setWord man_AIDagLeafCount_update),
     (''tensorLeafCount'', setWord man_TensorLeafCount_update),
     (''powCommitLeafCount'', setWord man_PoWCommitLeafCount_update),
     (''merkleSidecar'', setStr man_MerkleSidecar_update),
     (''sidecarVersion'', setInt man_SidecarVersion_update),
     (''modelName'', setStr man_ModelName_update),
     (''modelFormat'', setStr man_ModelFormat_update),
     (''modelSize'', setWord man_ModelSize_update),
     (''modelHash'', setStr man_ModelHash_update),
     (''modelStartPage'', setWord man_ModelStartPage_update),
     (''modelPageCount'', setWord man_ModelPageCount_update),
     (''modelEndPage'', setWord man_ModelEndPage_update),
     (''indexPage'', setWord man_IndexPage_update),
     (''fillerStart'', setWord man_FillerStart_update),
     (''fillerEnd'', setWord man_FillerEnd_update),
     (''unifiedLayout'', setStr man_UnifiedLayout_update)]"

definition zeroManifest :: Manifest where
  "zeroManifest = \<lparr>
     man_Version = 0,
     man_Name = [],
     man_HashAlgorithm = [],
     man_MerkleVersion = 0,
     man_PageCommit = [],
     man_PageSize = 0,
     man_HeaderSize = 0,
     man_PayloadSize = 0,
     man_SizeGB = 0,
     man_TotalBytes = 0,
     man_TotalPages = 0,
     man_Seed = [],
     man_AIDagRoot = [],
     man_TensorRoot = [],
     man_PoWCommitRoot = [],
     man_ManifestRoot = [],
     man_GenerationTime = [],
     man_AIDagLeafCount = 0,
     man_TensorLeafCount = 0,
     man_PoWCommitLeafCount = 0,
     man_MerkleSidecar = [],
     man_SidecarVersion = 0,
     man_ModelName = [],
     man_ModelFormat = [],
     man_ModelSize = 0,
     man_ModelHash = [],
     man_ModelStartPage = 0,
     man_ModelPageCount = 0,
     man_ModelEndPage = 0,
     man_IndexPage = 0,
     man_FillerStart = 0,
     man_FillerEnd = 0,
     man_UnifiedLayout = [] \<rparr>"

definition unmarshalManifest :: "bytes \<Rightarrow> Manifest option" where
  "unmarshalManifest = unmarshal manifestFields zeroManifest"

section \<open>Proofs\<close>

definition step_json :: "MerkleProofStep \<Rightarrow> jval" where
  "step_json s = JObj [(''side'', JStr (step_Side s)), (''hash'', JStr (step_Hash s))]"

definition path_json :: "MerkleProofStep list \<Rightarrow> jval" where
  "path_json p = JArr (map step_json p)"

definition pageProof_json :: "PageProof \<Rightarrow> jval" where
  "pageProof_json p = JObj ([
     (''pageIndex'', jU64 (pp_PageIndex p)),
     (''page'', JStr (pp_Page p)),
     (''powPath'', path_json (pp_PoWPath p))]
     @ (if pp_TensorPath p = [] then [] else [(''tensorPath'', path_json (pp_TensorPath p))]))"

definition seal_json :: "Seal \<Rightarrow> jval" where
  "seal_json s = JObj [
     (''version'', jU64 (seal_Version s)),
     (''epoch'', jU64 (seal_Epoch s)),
     (''blockHash'', JStr (seal_BlockHash s)),
     (''miner'', JStr (seal_Miner s)),
     (''nonce'', jU64 (seal_Nonce s)),
     (''powSampleCount'', JNum (seal_PoWSampleCount s)),
     (''tensorSampleCount'', JNum (seal_TensorSampleCount s)),
     (''manifestRoot'', JStr (seal_ManifestRoot s)),
     (''aidagRoot'', JStr (seal_AIDagRoot s)),
     (''tensorRoot'', JStr (seal_TensorRoot s)),
     (''powCommitRoot'', JStr (seal_PoWRoot s)),
     (''modelHash'', JStr (seal_ModelHash s)),
     (''mixDigest'', JStr (seal_MixDigest s)),
     (''aiDigest'', JStr (seal_AIDigest s)),
     (''proofHash'', JStr (seal_ProofHash s)),
     (''workHash'', JStr (seal_WorkHash s))]"

definition proof_json :: "Proof \<Rightarrow> jval" where
  "proof_json p = JObj [
     (''version'', JNum (prf_Version p)),
     (''seal'', seal_json (prf_Seal p)),
     (''pages'', JArr (map pageProof_json (prf_Pages p)))]"

definition zeroStep :: MerkleProofStep where
  "zeroStep = \<lparr>step_Side = [], step_Hash = []\<rparr>"

definition decodeStep :: "jval \<Rightarrow> MerkleProofStep option" where
  "decodeStep v = decodeStruct [(''side'', setStr step_Side_update), (''hash'', setStr step_Hash_update)] v zeroStep"

definition zeroPage :: PageProof where
  "zeroPage = \<lparr>pp_PageIndex = 0, pp_Page = [], pp_PoWPath = [], pp_TensorPath = []\<rparr>"

definition pageFields :: "(string \<times> PageProof setter) list" where
  "pageFields = [
     (''pageIndex'', setWord pp_PageIndex_update),
     (''page'', setStr pp_Page_update),
     (''powPath'', setSlice decodeStep pp_PoWPath_update),
     (''tensorPath'', setSlice decodeStep pp_TensorPath_update)]"

definition decodePage :: "jval \<Rightarrow> PageProof option" where
  "decodePage v = decodeStruct pageFields v zeroPage"

definition sealFields :: "(string \<times> Seal setter) list" where
  "sealFields = [
     (''version'', setWord seal_Version_update),
     (''epoch'', setWord seal_Epoch_update),
     (''blockHash'', setStr seal_BlockHash_update),
     (''miner'', setStr seal_Miner_update),
     (''nonce'', setWord seal_Nonce_update),
     (''powSampleCount'', setInt seal_PoWSampleCount_update),
     (''tensorSampleCount'', setInt seal_TensorSampleCount_update),
     (''manifestRoot'', setStr seal_ManifestRoot_update),
     (''aidagRoot'', setStr seal_AIDagRoot_update),
     (''tensorRoot'', setStr seal_TensorRoot_update),
     (''powCommitRoot'', setStr seal_PoWRoot_update),
     (''modelHash'', setStr seal_ModelHash_update),
     (''mixDigest'', setStr seal_MixDigest_update),
     (''aiDigest'', setStr seal_AIDigest_update),
     (''proofHash'', setStr seal_ProofHash_update),
     (''workHash'', setStr seal_WorkHash_update)]"

definition zeroSeal :: Seal where
  "zeroSeal = \<lparr>
     seal_Version = 0,
     seal_Epoch = 0,
     seal_BlockHash = [],
     seal_Miner = [],
     seal_Nonce = 0,
     seal_PoWSampleCount = 0,
     seal_TensorSampleCount = 0,
     seal_ManifestRoot = [],
     seal_AIDagRoot = [],
     seal_TensorRoot = [],
     seal_PoWRoot = [],
     seal_ModelHash = [],
     seal_MixDigest = [],
     seal_AIDigest = [],
     seal_ProofHash = [],
     seal_WorkHash = []\<rparr>"

definition proofFields :: "(string \<times> Proof setter) list" where
  "proofFields = [
     (''version'', setInt prf_Version_update),
     (''seal'', setStruct sealFields prf_Seal prf_Seal_update),
     (''pages'', setSlice decodePage prf_Pages_update)]"

definition zeroProof :: Proof where
  "zeroProof = \<lparr>prf_Version = 0, prf_Seal = zeroSeal, prf_Pages = []\<rparr>"

definition unmarshalProof :: "bytes \<Rightarrow> Proof option" where
  "unmarshalProof = unmarshal proofFields zeroProof"

section \<open>Round trips\<close>

lemma noRaw_path [simp]: "noRaw (path_json p)"
  by (auto simp: path_json_def step_json_def)

lemma noRaw_proof [simp]: "noRaw (proof_json p)"
  by (auto simp: proof_json_def pageProof_json_def seal_json_def)

lemma jdepth_path: "jdepth (path_json p) \<le> 2"
  by (auto simp: path_json_def step_json_def)

lemma jdepth_page: "jdepth (pageProof_json p) \<le> 3"
  using jdepth_path[of "pp_PoWPath p"] jdepth_path[of "pp_TensorPath p"]
  by (auto simp: pageProof_json_def jU64_def)

lemma jdepth_proof: "jdepth (proof_json p) \<le> 10000"
proof -
  have "jdepth (seal_json s) \<le> 1" for s by (simp add: seal_json_def jU64_def)
  moreover have "jdepth (JArr (map pageProof_json ps)) \<le> 4" for ps
    using jdepth_page by (auto intro!: Max.boundedI)
  ultimately show ?thesis by (fastforce simp: proof_json_def intro: order_trans)
qed

lemma decodeStep_json: "decodeStep (step_json s) = Some s"
  by (simp add: decodeStep_def step_json_def decodeStruct_def fieldFor_def zeroStep_def decode_simps)

lemma setSlice_path [decode_simps]: "setSlice decodeStep upd (path_json p) x = Some (upd (\<lambda>_. p) x)"
proof -
  have "those (map (decodeStep \<circ> step_json) p) = Some (map id p)"
    by (intro those_Some) (simp add: decodeStep_json)
  then show ?thesis by (simp add: path_json_def decode_simps)
qed

lemma decodePage_json: "decodePage (pageProof_json p) = Some p"
  by (cases "pp_TensorPath p = []")
    (simp_all add: decodePage_def pageProof_json_def decodeStruct_def pageFields_def fieldFor_def zeroPage_def decode_simps)

lemma those_pages: "those (map (decodePage \<circ> pageProof_json) ps) = Some ps"
  using those_Some[of ps "decodePage \<circ> pageProof_json" id] by (simp add: decodePage_json)

lemma decode_seal_json:
  "fitsInt (seal_PoWSampleCount s) \<Longrightarrow> fitsInt (seal_TensorSampleCount s) \<Longrightarrow>
     decodeStruct sealFields (seal_json s) zeroSeal = Some s"
  by (simp add: seal_json_def decodeStruct_def sealFields_def fieldFor_def zeroSeal_def decode_simps)

lemma unmarshalProof_json:
  assumes "fitsInt (prf_Version p)" "fitsInt (seal_PoWSampleCount (prf_Seal p))" "fitsInt (seal_TensorSampleCount (prf_Seal p))"
  shows "unmarshalProof (json_marshal (proof_json p)) = Some p"
proof -
  have "decodeStruct proofFields (proof_json p) zeroProof = Some p"
    using assms
    by (simp add: proof_json_def proofFields_def fieldFor_def zeroProof_def decode_simps
        those_pages setStruct_def decode_seal_json)
  then show ?thesis by (simp add: unmarshalProof_def unmarshal_json jdepth_proof)
qed

lemma flat_omit [simp]:
  "(\<forall>(k, v) \<in> set (omitStr k' s). jdepth v = 0)" "(\<forall>(k, v) \<in> set (omitU64 k' w). jdepth v = 0)"
  by (simp_all add: omitStr_def omitU64_def jU64_def)

lemma jdepth_manifest: "jdepth (manifest_json m) \<le> 10000"
proof -
  have "\<forall>(k, v) \<in> set (manifest_members m). jdepth v = 0" by (simp add: manifest_members_def jU64_def)
  moreover have "\<forall>(k, v) \<in> set (manifest_model_members m). jdepth v = 0"
    unfolding manifest_model_members_def set_append ball_Un by (intro conjI flat_omit) (simp_all add: jU64_def)
  ultimately show ?thesis by (fastforce simp: manifest_json_def intro!: Max.boundedI)
qed

lemma decode_manifest_members:
  assumes "fitsInt (man_Version m)" "fitsInt (man_MerkleVersion m)" "fitsInt (man_SidecarVersion m)"
  shows "decodeMembers manifestFields (manifest_members m @ manifest_model_members m) zeroManifest = Some m"
  using assms
  by (simp add: manifest_members_def manifest_model_members_def manifestFields_def fieldFor_def zeroManifest_def decode_simps)

lemma unmarshalManifest_json:
  assumes "fitsInt (man_Version m)" "fitsInt (man_MerkleVersion m)" "fitsInt (man_SidecarVersion m)"
  shows "unmarshalManifest (json_marshal (manifest_json m)) = Some m"
proof -
  have "decodeStruct manifestFields (manifest_json m) zeroManifest = Some m"
    using decode_manifest_members[OF assms] by (simp add: manifest_json_def decodeStruct_obj)
  then show ?thesis by (simp add: unmarshalManifest_def unmarshal_json jdepth_manifest)
qed

end
