(* ===== verification/Sidecar.thy ===== *)
theory Sidecar
  imports Decode Manifest Page
begin

text \<open>
  The Merkle sidecar of a DAG: a file with a reserved header of 2^20 bytes (magic, header length, a
  JSON \<open>SidecarManifest\<close>) and behind it every level of the two Merkle trees. This theory holds the two
  readers of the format, the prover's (\<open>internal/aiseal/prover.go\<close>) and the generator's
  (\<open>cmd/unifiedDAG/main.go\<close>).

  \<open>validateSelf\<close> visits a Go map of the two trees; the model visits the PoW tree first. Acceptance does
  not depend on the order, only which error is reported first.
\<close>

record SidecarLevel =
  lvl_Level :: int
  lvl_Count :: u64
  lvl_Offset :: u64
  lvl_Bytes :: u64

record SidecarManifest =
  sm_Version :: int
  sm_HashAlgorithm :: string
  sm_MerkleVersion :: int
  sm_CreatedAt :: string
  sm_PageSize :: u64
  sm_HeaderSize :: u64
  sm_PayloadSize :: u64
  sm_TotalPages :: u64
  sm_ModelStartPage :: u64
  sm_ModelPageCount :: u64
  sm_ManifestRoot :: string
  sm_AIDagRoot :: string
  sm_TensorRoot :: string
  sm_PoWCommitRoot :: string
  sm_PoWLevels :: "SidecarLevel list"
  sm_TensorLevels :: "SidecarLevel list"

text \<open>The JSON form, by the struct tags; a nil slice is \<open>null\<close>.\<close>

definition level_json :: "SidecarLevel \<Rightarrow> jval" where
  "level_json l = JObj [(''level'', JNum (lvl_Level l)), (''count'', jU64 (lvl_Count l)),
     (''offset'', jU64 (lvl_Offset l)), (''bytes'', jU64 (lvl_Bytes l))]"

definition levels_json :: "SidecarLevel list \<Rightarrow> jval" where
  "levels_json ls = (if ls = [] then JNull else JArr (map level_json ls))"

definition sidecar_json :: "SidecarManifest \<Rightarrow> jval" where
  "sidecar_json s = JObj [
     (''version'', JNum (sm_Version s)),
     (''hashAlgorithm'', JStr (sm_HashAlgorithm s)),
     (''merkleVersion'', JNum (sm_MerkleVersion s)),
     (''createdAt'', JStr (sm_CreatedAt s)),
     (''pageSize'', jU64 (sm_PageSize s)),
     (''headerSize'', jU64 (sm_HeaderSize s)),
     (''payloadSize'', jU64 (sm_PayloadSize s)),
     (''totalPages'', jU64 (sm_TotalPages s)),
     (''modelStartPage'', jU64 (sm_ModelStartPage s)),
     (''modelPageCount'', jU64 (sm_ModelPageCount s)),
     (''manifestRoot'', JStr (sm_ManifestRoot s)),
     (''aidagRoot'', JStr (sm_AIDagRoot s)),
     (''tensorRoot'', JStr (sm_TensorRoot s)),
     (''powCommitRoot'', JStr (sm_PoWCommitRoot s)),
     (''powLevels'', levels_json (sm_PoWLevels s)),
     (''tensorLevels'', levels_json (sm_TensorLevels s))]"

definition zeroLevel :: SidecarLevel where
  "zeroLevel = \<lparr>lvl_Level = 0, lvl_Count = 0, lvl_Offset = 0, lvl_Bytes = 0\<rparr>"

definition levelFields :: "(string \<times> SidecarLevel setter) list" where
  "levelFields = [(''level'', setInt lvl_Level_update), (''count'', setWord lvl_Count_update),
     (''offset'', setWord lvl_Offset_update), (''bytes'', setWord lvl_Bytes_update)]"

definition decodeLevel :: "jval \<Rightarrow> SidecarLevel option" where
  "decodeLevel v = decodeStruct levelFields v zeroLevel"

definition sidecarFields :: "(string \<times> SidecarManifest setter) list" where
  "sidecarFields = [
     (''version'', setInt sm_Version_update),
     (''hashAlgorithm'', setStr sm_HashAlgorithm_update),
     (''merkleVersion'', setInt sm_MerkleVersion_update),
     (''createdAt'', setStr sm_CreatedAt_update),
     (''pageSize'', setWord sm_PageSize_update),
     (''headerSize'', setWord sm_HeaderSize_update),
     (''payloadSize'', setWord sm_PayloadSize_update),
     (''totalPages'', setWord sm_TotalPages_update),
     (''modelStartPage'', setWord sm_ModelStartPage_update),
     (''modelPageCount'', setWord sm_ModelPageCount_update),
     (''manifestRoot'', setStr sm_ManifestRoot_update),
     (''aidagRoot'', setStr sm_AIDagRoot_update),
     (''tensorRoot'', setStr sm_TensorRoot_update),
     (''powCommitRoot'', setStr sm_PoWCommitRoot_update),
     (''powLevels'', setSlice decodeLevel sm_PoWLevels_update),
     (''tensorLevels'', setSlice decodeLevel sm_TensorLevels_update)]"

definition zeroSidecar :: SidecarManifest where
  "zeroSidecar = \<lparr>sm_Version = 0, sm_HashAlgorithm = [], sm_MerkleVersion = 0, sm_CreatedAt = [], sm_PageSize = 0,
     sm_HeaderSize = 0, sm_PayloadSize = 0, sm_TotalPages = 0, sm_ModelStartPage = 0, sm_ModelPageCount = 0,
     sm_ManifestRoot = [], sm_AIDagRoot = [], sm_TensorRoot = [], sm_PoWCommitRoot = [], sm_PoWLevels = [],
     sm_TensorLevels = []\<rparr>"

definition unmarshalSidecar :: "bytes \<Rightarrow> SidecarManifest option" where
  "unmarshalSidecar = unmarshal sidecarFields zeroSidecar"

section \<open>The prover's reader\<close>

definition sidecarMagic :: string where "sidecarMagic = ''AIDGSC1!''"
definition sidecarVersion :: int where "sidecarVersion = 1"
definition sidecarHeaderReserved :: u64 where "sidecarHeaderReserved = 2 ^ 20"
definition sidecarHashSize :: u64 where "sidecarHashSize = 32"

datatype sidecar_error =
    SidecarIO io_error
  | BadSidecarMagic
  | BadSidecarHeaderLength u64
  | SidecarNotJSON
  | UnsupportedSidecar
  | SidecarNoLevels string
  | InvalidSidecarLevel string int
  | InvalidSidecarLevelCount string
  | SidecarNoRoot string
  | SidecarLayoutMismatch
  | SidecarManifestRootMismatch
  | SidecarLeafCountMismatch
  | UnknownSidecarTree
  | SidecarLeafOutOfRange
  | SidecarHashOutOfRange

record sidecarReader =
  sr_file :: bytes
  sr_meta :: SidecarManifest

text \<open>The loop over the levels of one tree; \<open>prev\<close> is the level before, when there is one.\<close>

fun checkLevels :: "string \<Rightarrow> SidecarLevel option \<Rightarrow> int \<Rightarrow> SidecarLevel list \<Rightarrow> sidecar_error + unit" where
  "checkLevels name prev index [] = Inr ()"
| "checkLevels name prev index (level # levels) =
     (if lvl_Level level \<noteq> index \<or> lvl_Count level = 0 \<or> lvl_Bytes level \<noteq> lvl_Count level * sidecarHashSize
        then Inl (InvalidSidecarLevel name index)
      else if (case prev of None \<Rightarrow> False | Some p \<Rightarrow> lvl_Count level \<noteq> (lvl_Count p + 1) div 2)
        then Inl (InvalidSidecarLevelCount name)
      else checkLevels name (Some level) (index + 1) levels)"

definition validateSelf :: "SidecarManifest \<Rightarrow> sidecar_error + unit" where
  "validateSelf meta =
     (if sm_Version meta \<noteq> sidecarVersion \<or> sm_HashAlgorithm meta \<noteq> HashAlgorithm
         \<or> sm_MerkleVersion meta \<noteq> MerkleVersion
      then Inl UnsupportedSidecar
      else forE (\<lambda>(name, levels).
             if levels = [] then Inl (SidecarNoLevels name)
             else bindE (checkLevels name None 0 levels) (\<lambda>_.
               if lvl_Count (last levels) \<noteq> 1 then Inl (SidecarNoRoot name) else Inr ()))
           [(treePoW, sm_PoWLevels meta), (treeTensor, sm_TensorLevels meta)])"

definition openSidecar :: "(string \<rightharpoonup> bytes) \<Rightarrow> string \<Rightarrow> sidecar_error + sidecarReader" where
  "openSidecar fs path =
     bindE (mapErr SidecarIO (openFile fs path)) (\<lambda>file.
     bindE (mapErr SidecarIO (readAt file 16 0)) (\<lambda>prefix.
     if take 8 prefix \<noteq> bytes_of sidecarMagic then Inl BadSidecarMagic
     else let headerLength = getLE (drop 8 prefix) in
       if headerLength = 0 \<or> headerLength + 16 > sidecarHeaderReserved then Inl (BadSidecarHeaderLength headerLength)
       else bindE (mapErr SidecarIO (readAt file (unat headerLength) 16)) (\<lambda>header.
            bindE (ofOption SidecarNotJSON (unmarshalSidecar header)) (\<lambda>meta.
            bindE (validateSelf meta) (\<lambda>_.
            Inr \<lparr>sr_file = file, sr_meta = meta\<rparr>)))))"

text \<open>\<open>validateManifest\<close> reads level 0 of both trees: \<open>openSidecar\<close> only returns readers that have it.\<close>

definition validateManifest :: "sidecarReader \<Rightarrow> Manifest \<Rightarrow> sidecar_error + unit" where
  "validateManifest r m =
     (let meta = sr_meta r in
      if sm_PageSize meta \<noteq> man_PageSize m \<or> sm_HeaderSize meta \<noteq> man_HeaderSize m
          \<or> sm_PayloadSize meta \<noteq> man_PayloadSize m \<or> sm_TotalPages meta \<noteq> man_TotalPages m
          \<or> sm_ModelStartPage meta \<noteq> man_ModelStartPage m \<or> sm_ModelPageCount meta \<noteq> man_ModelPageCount m
        then Inl SidecarLayoutMismatch
      else bindE (forE (\<lambda>(a, b). if \<not> equalHex a b then Inl SidecarManifestRootMismatch else Inr ())
             [(sm_ManifestRoot meta, man_ManifestRoot m), (sm_AIDagRoot meta, man_AIDagRoot m),
              (sm_TensorRoot meta, man_TensorRoot m), (sm_PoWCommitRoot meta, man_PoWCommitRoot m)]) (\<lambda>_.
        if lvl_Count (sm_PoWLevels meta ! 0) \<noteq> man_PoWCommitLeafCount m
            \<or> lvl_Count (sm_TensorLevels meta ! 0) \<noteq> man_TensorLeafCount m
          then Inl SidecarLeafCountMismatch
        else Inr ()))"

definition readHash :: "bytes \<Rightarrow> SidecarLevel \<Rightarrow> u64 \<Rightarrow> sidecar_error + hash32" where
  "readHash file level index =
     (if index \<ge> lvl_Count level then Inl SidecarHashOutOfRange
      else mapErr SidecarIO (readAt file 32 (lvl_Offset level + index * sidecarHashSize)))"

text \<open>The loop over all levels but the last.\<close>

fun sidecarSteps :: "bytes \<Rightarrow> SidecarLevel list \<Rightarrow> u64 \<Rightarrow> sidecar_error + MerkleProofStep list" where
  "sidecarSteps file (level # l # levels) index =
     bindE (if index mod 2 = 0 \<and> index + 1 < lvl_Count level
            then bindE (readHash file level (index + 1)) (\<lambda>sibling.
                 Inr [\<lparr>step_Side = proofSideRight, step_Hash = formatHash sibling\<rparr>])
            else if index mod 2 = 1
            then bindE (readHash file level (index - 1)) (\<lambda>sibling.
                 Inr [\<lparr>step_Side = proofSideLeft, step_Hash = formatHash sibling\<rparr>])
            else Inr []) (\<lambda>steps.
     bindE (sidecarSteps file (l # levels) (index div 2)) (\<lambda>rest. Inr (steps @ rest)))"
| "sidecarSteps file _ index = Inr []"

definition sidecarReader_Proof :: "sidecarReader \<Rightarrow> string \<Rightarrow> u64 \<Rightarrow> sidecar_error + MerkleProofStep list" where
  "sidecarReader_Proof r treeID leafIndex =
     bindE (if treeID = treePoW then Inr (sm_PoWLevels (sr_meta r))
            else if treeID = treeTensor then Inr (sm_TensorLevels (sr_meta r))
            else Inl UnknownSidecarTree) (\<lambda>levels.
     if leafIndex \<ge> lvl_Count (levels ! 0) then Inl SidecarLeafOutOfRange
     else sidecarSteps (sr_file r) levels leafIndex)"

section \<open>The generator's reader\<close>

datatype dag_sidecar_error =
    DagSidecarOpen io_error
  | DagSidecarIO io_error
  | DagBadSidecarMagic
  | DagBadSidecarHeaderLength u64
  | DagSidecarNotJSON
  | DagSidecarVersion int
  | DagSidecarHashAlgorithm string
  | DagSidecarMerkleVersion int
  | DagSidecarPageSize u64
  | DagSidecarNoLevels string
  | DagSidecarLevelIndex string int
  | DagSidecarLevelZero string int
  | DagSidecarLevelBytes string int
  | DagSidecarLevelCount string int
  | DagSidecarNoRoot string
  | DagSidecarLayout
  | DagSidecarRoot string
  | DagSidecarPoWLeaves
  | DagSidecarTensorLeaves
  | DagUnknownSidecarTree string
  | DagEmptySidecarTree
  | DagSidecarLeafOutOfRange
  | DagSidecarHashOutOfRange int

fun validateLevelsFrom :: "string \<Rightarrow> SidecarLevel option \<Rightarrow> int \<Rightarrow> SidecarLevel list \<Rightarrow> dag_sidecar_error + unit" where
  "validateLevelsFrom treeID prev i [] = Inr ()"
| "validateLevelsFrom treeID prev i (level # levels) =
     (if lvl_Level level \<noteq> i then Inl (DagSidecarLevelIndex treeID (lvl_Level level))
      else if lvl_Count level = 0 then Inl (DagSidecarLevelZero treeID i)
      else if lvl_Bytes level \<noteq> lvl_Count level * sidecarHashSize then Inl (DagSidecarLevelBytes treeID i)
      else if (case prev of None \<Rightarrow> False | Some p \<Rightarrow> lvl_Count level \<noteq> (lvl_Count p + 1) div 2)
        then Inl (DagSidecarLevelCount treeID i)
      else validateLevelsFrom treeID (Some level) (i + 1) levels)"

definition validateSidecarLevels :: "string \<Rightarrow> SidecarLevel list \<Rightarrow> dag_sidecar_error + unit" where
  "validateSidecarLevels treeID levels =
     (if levels = [] then Inl (DagSidecarNoLevels treeID)
      else bindE (validateLevelsFrom treeID None 0 levels) (\<lambda>_.
        if lvl_Count (last levels) \<noteq> 1 then Inl (DagSidecarNoRoot treeID) else Inr ()))"

definition dag_validateSelf :: "SidecarManifest \<Rightarrow> dag_sidecar_error + unit" where
  "dag_validateSelf meta =
     (if sm_Version meta \<noteq> sidecarVersion then Inl (DagSidecarVersion (sm_Version meta))
      else if sm_HashAlgorithm meta \<noteq> HashAlgorithm then Inl (DagSidecarHashAlgorithm (sm_HashAlgorithm meta))
      else if sm_MerkleVersion meta \<noteq> MerkleVersion then Inl (DagSidecarMerkleVersion (sm_MerkleVersion meta))
      else if sm_PageSize meta \<le> UnifiedHeaderSize then Inl (DagSidecarPageSize (sm_PageSize meta))
      else forE (\<lambda>(name, levels). validateSidecarLevels name levels)
             [(treePoW, sm_PoWLevels meta), (treeTensor, sm_TensorLevels meta)])"

definition openMerkleSidecar :: "(string \<rightharpoonup> bytes) \<Rightarrow> string \<Rightarrow> dag_sidecar_error + sidecarReader" where
  "openMerkleSidecar fs path =
     bindE (mapErr DagSidecarOpen (openFile fs path)) (\<lambda>file.
     bindE (mapErr DagSidecarIO (readAt file 16 0)) (\<lambda>prefix.
     if take 8 prefix \<noteq> bytes_of sidecarMagic then Inl DagBadSidecarMagic
     else let headerLen = getLE (drop 8 prefix) in
       if headerLen = 0 \<or> headerLen + 16 > sidecarHeaderReserved then Inl (DagBadSidecarHeaderLength headerLen)
       else bindE (mapErr DagSidecarIO (readAt file (unat headerLen) 16)) (\<lambda>header.
            bindE (ofOption DagSidecarNotJSON (unmarshalSidecar header)) (\<lambda>sm.
            bindE (dag_validateSelf sm) (\<lambda>_.
            Inr \<lparr>sr_file = file, sr_meta = sm\<rparr>)))))"

definition validateAgainstManifest :: "sidecarReader \<Rightarrow> Manifest \<Rightarrow> dag_sidecar_error + unit" where
  "validateAgainstManifest r m =
     (let meta = sr_meta r in
      if sm_PageSize meta \<noteq> man_PageSize m then Inl DagSidecarLayout
      else if sm_HeaderSize meta \<noteq> man_HeaderSize m then Inl DagSidecarLayout
      else if sm_PayloadSize meta \<noteq> man_PayloadSize m then Inl DagSidecarLayout
      else if sm_TotalPages meta \<noteq> man_TotalPages m then Inl DagSidecarLayout
      else if sm_ModelStartPage meta \<noteq> man_ModelStartPage m \<or> sm_ModelPageCount meta \<noteq> man_ModelPageCount m
        then Inl DagSidecarLayout
      else bindE (forE (\<lambda>(name, got, want). if \<not> equalHex got want then Inl (DagSidecarRoot name) else Inr ())
             [(''ManifestRoot'', sm_ManifestRoot meta, man_ManifestRoot m),
              (''AIDagRoot'', sm_AIDagRoot meta, man_AIDagRoot m),
              (''TensorRoot'', sm_TensorRoot meta, man_TensorRoot m),
              (''PoWCommitRoot'', sm_PoWCommitRoot meta, man_PoWCommitRoot m)]) (\<lambda>_.
        if sm_PoWLevels meta = [] \<or> lvl_Count (sm_PoWLevels meta ! 0) \<noteq> man_PoWCommitLeafCount m
          then Inl DagSidecarPoWLeaves
        else if sm_TensorLevels meta = [] \<or> lvl_Count (sm_TensorLevels meta ! 0) \<noteq> man_TensorLeafCount m
          then Inl DagSidecarTensorLeaves
        else Inr ()))"

definition readLevelHash :: "bytes \<Rightarrow> SidecarLevel \<Rightarrow> u64 \<Rightarrow> dag_sidecar_error + hash32" where
  "readLevelHash file level index =
     (if index \<ge> lvl_Count level then Inl (DagSidecarHashOutOfRange (lvl_Level level))
      else mapErr DagSidecarIO (readAt file 32 (lvl_Offset level + index * sidecarHashSize)))"

fun dag_sidecarSteps :: "bytes \<Rightarrow> SidecarLevel list \<Rightarrow> u64 \<Rightarrow> dag_sidecar_error + MerkleProofStep list" where
  "dag_sidecarSteps file (level # l # levels) idx =
     bindE (if idx mod 2 = 0
            then (if idx + 1 < lvl_Count level
                  then bindE (readLevelHash file level (idx + 1)) (\<lambda>sibling.
                       Inr [\<lparr>step_Side = proofSideRight, step_Hash = ''0x'' @ hexEncode sibling\<rparr>])
                  else Inr [])
            else bindE (readLevelHash file level (idx - 1)) (\<lambda>sibling.
                 Inr [\<lparr>step_Side = proofSideLeft, step_Hash = ''0x'' @ hexEncode sibling\<rparr>])) (\<lambda>steps.
     bindE (dag_sidecarSteps file (l # levels) (idx div 2)) (\<lambda>rest. Inr (steps @ rest)))"
| "dag_sidecarSteps file _ idx = Inr []"

definition sidecarLevels :: "sidecarReader \<Rightarrow> string \<Rightarrow> dag_sidecar_error + SidecarLevel list" where
  "sidecarLevels r treeID =
     (if treeID = treePoW then Inr (sm_PoWLevels (sr_meta r))
      else if treeID = treeTensor then Inr (sm_TensorLevels (sr_meta r))
      else Inl (DagUnknownSidecarTree treeID))"

definition MerkleSidecarReader_Proof :: "sidecarReader \<Rightarrow> string \<Rightarrow> u64 \<Rightarrow> dag_sidecar_error + MerkleProofStep list" where
  "MerkleSidecarReader_Proof r treeID leafIndex =
     bindE (sidecarLevels r treeID) (\<lambda>levels.
     if levels = [] then Inl DagEmptySidecarTree
     else if leafIndex \<ge> lvl_Count (levels ! 0) then Inl DagSidecarLeafOutOfRange
     else dag_sidecarSteps (sr_file r) levels leafIndex)"

end
