(* ===== verification/Prover.thy ===== *)
theory Prover
  imports Codec Sidecar
begin

text \<open>
  The AISeal prover (\<open>internal/aiseal/prover.go\<close>): it opens the sidecar and the DAG, draws the pages a
  challenge asks for, reads them with their Merkle paths and assembles the proof and its digests.

  The file system maps paths to contents. \<open>ctxDone\<close> says, for a required page, whether the context is
  found cancelled before that page is read. \<^const>\<open>None\<close> is a call that does not return: sampling that
  never ends, a page size no slice can have, or the panic of \<open>tensorChallenge\<close>.
\<close>

record ProveConfig =
  pc_DAGPath :: string
  pc_SidecarPath :: string
  pc_Manifest :: Manifest
  pc_BlockHash :: string
  pc_Miner :: string
  pc_Epoch :: u64
  pc_Nonce :: u64
  pc_PoWSamples :: int
  pc_TensorSamples :: int
  pc_Target :: string

datatype prove_error =
    ProveInputsRequired
  | ProveSampleCounts
  | ProveManifest manifest_error
  | ProveSidecar sidecar_error
  | ProveIO io_error
  | ProveDAGSize
  | ProveSamples seal_error
  | ProveCancelled
  | PageOutsideDAG
  | ProvePage page_error
  | ProveTargetNotMet

definition LoadManifestFile ::
  "(bytes \<Rightarrow> bytes) \<Rightarrow> (string \<rightharpoonup> bytes) \<Rightarrow> string \<Rightarrow> prove_error + Manifest" where
  "LoadManifestFile blake3 fs path =
     bindE (mapErr ProveIO (openFile fs path)) (\<lambda>data.
     mapErr ProveManifest (LoadManifestBytes blake3 unmarshalManifest data))"

definition readMaterialAt ::
  "(bytes \<Rightarrow> bytes) \<Rightarrow> bytes \<Rightarrow> Manifest \<Rightarrow> u64 \<Rightarrow> (prove_error + pageMaterial) option" where
  "readMaterialAt blake3 dag manifest index =
     (if index \<ge> man_TotalPages manifest then Some (Inl PageOutsideDAG)
      else if man_PageSize manifest \<ge> 2 ^ 63 then None
      else Some (
        bindE (mapErr ProveIO (readAt dag (unat (man_PageSize manifest)) (index * man_PageSize manifest))) (\<lambda>page.
        bindE (mapErr ProvePage (verifyPage blake3 page index (man_PageSize manifest))) (\<lambda>(header, payloadHash, pageCommit).
        Inr (materialOf blake3 manifest index page header payloadHash pageCommit)))))"

text \<open>The paths of a page and the entry of the proof.\<close>

definition provePage ::
  "sidecarReader \<Rightarrow> Manifest \<Rightarrow> u64 list \<Rightarrow> u64 \<Rightarrow> pageMaterial \<Rightarrow> prove_error + PageProof" where
  "provePage sidecar manifest tensorSamples index material =
     bindE (mapErr ProveSidecar (sidecarReader_Proof sidecar treePoW index)) (\<lambda>powPath.
     bindE (if containsSorted tensorSamples index
            then mapErr ProveSidecar (sidecarReader_Proof sidecar treeTensor (index - man_ModelStartPage manifest))
            else Inr []) (\<lambda>tensorPath.
     Inr \<lparr>pp_PageIndex = index, pp_Page = ''0x'' @ hexEncode (mat_Page material), pp_PoWPath = powPath,
          pp_TensorPath = tensorPath\<rparr>))"

fun provePages ::
  "(bytes \<Rightarrow> bytes) \<Rightarrow> (u64 \<Rightarrow> bool) \<Rightarrow> bytes \<Rightarrow> sidecarReader \<Rightarrow> Manifest \<Rightarrow> u64 list \<Rightarrow> u64 list
     \<Rightarrow> (prove_error + (PageProof \<times> pageMaterial) list) option" where
  "provePages blake3 ctxDone dag sidecar manifest tensorSamples [] = Some (Inr [])"
| "provePages blake3 ctxDone dag sidecar manifest tensorSamples (index # required) =
     (if ctxDone index then Some (Inl ProveCancelled)
      else case readMaterialAt blake3 dag manifest index of
             None \<Rightarrow> None
           | Some (Inl e) \<Rightarrow> Some (Inl e)
           | Some (Inr material) \<Rightarrow>
               (case provePage sidecar manifest tensorSamples index material of
                  Inl e \<Rightarrow> Some (Inl e)
                | Inr page \<Rightarrow>
                    map_option (\<lambda>r. bindE r (\<lambda>rest. Inr ((page, material) # rest)))
                      (provePages blake3 ctxDone dag sidecar manifest tensorSamples required)))"

text \<open>The seal before its digests are known.\<close>

definition challengeSeal :: "ProveConfig \<Rightarrow> Seal" where
  "challengeSeal cfg =
     (let manifest = pc_Manifest cfg in
      \<lparr>seal_Version = SealVersion, seal_Epoch = pc_Epoch cfg, seal_BlockHash = normalizeArbitrary (pc_BlockHash cfg),
       seal_Miner = ToLower (TrimSpace (pc_Miner cfg)), seal_Nonce = pc_Nonce cfg,
       seal_PoWSampleCount = pc_PoWSamples cfg, seal_TensorSampleCount = pc_TensorSamples cfg,
       seal_ManifestRoot = normalizeHex (man_ManifestRoot manifest), seal_AIDagRoot = normalizeHex (man_AIDagRoot manifest),
       seal_TensorRoot = normalizeHex (man_TensorRoot manifest), seal_PoWRoot = normalizeHex (man_PoWCommitRoot manifest),
       seal_ModelHash = normalizeHex (man_ModelHash manifest),
       seal_MixDigest = [], seal_AIDigest = [], seal_ProofHash = [], seal_WorkHash = []\<rparr>)"

text \<open>The digests, the target and the encoded proof.\<close>

definition sealProof ::
  "(bytes \<Rightarrow> bytes) \<Rightarrow> ProveConfig \<Rightarrow> Seal \<Rightarrow> u64 list \<Rightarrow> u64 list \<Rightarrow> PageProof list \<Rightarrow> pageMaterial list
     \<Rightarrow> (prove_error + (Proof \<times> bytes)) option" where
  "sealProof blake3 cfg seal powSamples tensorSamples pages materials =
     (let manifest = pc_Manifest cfg;
          seal = seal\<lparr>seal_MixDigest := formatHash (computeMixDigest blake3 seal manifest powSamples tensorSamples materials)\<rparr>
      in case computeAIDigest blake3 seal manifest tensorSamples materials of
           None \<Rightarrow> None
         | Some aiDigest \<Rightarrow>
             let seal = seal\<lparr>seal_AIDigest := formatHash aiDigest\<rparr>;
                 workHash = computeWorkHash blake3 seal;
                 seal = seal\<lparr>seal_WorkHash := formatHash workHash\<rparr>
             in Some (if pc_Target cfg \<noteq> []
                         \<and> (case decodeHex32 (pc_Target cfg) of
                              Inl _ \<Rightarrow> True | Inr target \<Rightarrow> \<not> hashMeetsTarget workHash target)
                      then Inl ProveTargetNotMet
                      else
                        let proof = \<lparr>prf_Version = ProofVersion, prf_Seal = seal, prf_Pages = pages\<rparr>;
                            proof = proof\<lparr>prf_Seal := seal\<lparr>seal_ProofHash := formatHash (computeProofHash blake3 proof)\<rparr>\<rparr>
                        in Inr (proof, json_marshal (proof_json proof))))"

text \<open>The sidecar and the DAG, opened and checked against the manifest.\<close>

definition openInputs :: "(string \<rightharpoonup> bytes) \<Rightarrow> ProveConfig \<Rightarrow> prove_error + (sidecarReader \<times> bytes)" where
  "openInputs fs cfg =
     (let sidecarPath = (if pc_SidecarPath cfg = [] then pc_DAGPath cfg @ ''.sidecar'' else pc_SidecarPath cfg) in
      bindE (mapErr ProveSidecar (openSidecar fs sidecarPath)) (\<lambda>sidecar.
      bindE (mapErr ProveSidecar (validateManifest sidecar (pc_Manifest cfg))) (\<lambda>_.
      bindE (mapErr ProveIO (openFile fs (pc_DAGPath cfg))) (\<lambda>dag.
      if of_nat (length dag) \<noteq> man_TotalBytes (pc_Manifest cfg) then Inl ProveDAGSize
      else Inr (sidecar, dag)))))"

definition ProveFiles ::
  "(bytes \<Rightarrow> bytes) \<Rightarrow> (u64 \<Rightarrow> bool) \<Rightarrow> (string \<rightharpoonup> bytes) \<Rightarrow> ProveConfig \<Rightarrow> (prove_error + (Proof \<times> bytes)) option" where
  "ProveFiles blake3 ctxDone fs cfg =
     (if pc_DAGPath cfg = [] \<or> pc_BlockHash cfg = [] \<or> pc_Miner cfg = [] then Some (Inl ProveInputsRequired)
      else if pc_PoWSamples cfg \<le> 0 \<or> pc_TensorSamples cfg < 0 then Some (Inl ProveSampleCounts)
      else case bindE (mapErr ProveManifest (ValidateManifest blake3 (pc_Manifest cfg))) (\<lambda>_. openInputs fs cfg) of
             Inl e \<Rightarrow> Some (Inl e)
           | Inr (sidecar, dag) \<Rightarrow>
               (case deriveRequiredPages blake3 (pc_Manifest cfg) (challengeSeal cfg) of
                  None \<Rightarrow> None
                | Some (Inl e) \<Rightarrow> Some (Inl (ProveSamples e))
                | Some (Inr (powSamples, tensorSamples, required)) \<Rightarrow>
                    (case provePages blake3 ctxDone dag sidecar (pc_Manifest cfg) tensorSamples required of
                       None \<Rightarrow> None
                     | Some (Inl e) \<Rightarrow> Some (Inl e)
                     | Some (Inr ps) \<Rightarrow>
                         sealProof blake3 cfg (challengeSeal cfg) powSamples tensorSamples (map fst ps) (map snd ps))))"

definition sortedUnique :: "u64 list \<Rightarrow> u64 list" where
  "sortedUnique values = sortSlice (\<lambda>i. i) (remdups values)"

end
