(* ===== verification/Miner.thy ===== *)
theory Miner
  imports AIPoW_Laws Storage Prover
begin

text \<open>
  The miner sidecar (\<open>internal/miner/miner.go\<close>): it runs the job, proves possession of the DAG pages
  and the inference where it is configured to, mines the ticket and signs ticket and attestation.

  The AISeal proof provider is the interface \<open>ProofProvider\<close> of the code: a function on a provider
  state \<open>'p\<close>. Its implementation \<open>FileProofProvider\<close> searches a nonce whose proof meets the target with the prover
  of the package; its state is the nonce counter. A call that does not return is \<^const>\<open>None\<close>.
\<close>

text \<open>The two implementations of the \<open>Runner\<close> interface.\<close>

datatype Runner = DummyRunner string | QuantizedRunner string

definition Runner_Run :: "(bytes \<Rightarrow> bytes) \<Rightarrow> Runner \<Rightarrow> AIJob \<Rightarrow> aipow_error + AIResult" where
  "Runner_Run sha256 r job =
     (case r of DummyRunner root \<Rightarrow> Dummy_Run sha256 root job | QuantizedRunner root \<Rightarrow> Quantized_Run sha256 root job)"

definition Runner_Verify :: "(bytes \<Rightarrow> bytes) \<Rightarrow> Runner \<Rightarrow> AIJob \<Rightarrow> AIResult \<Rightarrow> aipow_error + unit" where
  "Runner_Verify sha256 r job result =
     (case r of DummyRunner root \<Rightarrow> Dummy_Verify sha256 root job result
              | QuantizedRunner root \<Rightarrow> Quantized_Verify sha256 root job result)"

datatype provider_error =
    ProviderProve prove_error
  | ProviderHash hex_error
  | ProviderNoNonce u64

datatype miner_error =
    MinerIdentityRequired
  | ChallengeRequired
  | MinerJob job_error
  | MinerRun aipow_error
  | CreateProof provider_error
  | StoreProof store_error
  | CreateZKML zkml_error
  | OutputNotBound
  | MinerMine aipow_error

type_synonym 'p ProofProvider = "'p \<Rightarrow> MiningRequest \<Rightarrow> string \<Rightarrow> 'p \<times> (provider_error + (Proof \<times> bytes)) option"

section \<open>The proof provider on files\<close>

record FileProofProvider =
  fp_DAGPath :: string
  fp_SidecarPath :: string
  fp_Manifest :: Manifest
  fp_PoWSamples :: int
  fp_TensorSamples :: int
  fp_Target :: string
  fp_MaxSealAttempts :: u64

definition attemptConfig :: "FileProofProvider \<Rightarrow> MiningRequest \<Rightarrow> string \<Rightarrow> u64 \<Rightarrow> ProveConfig" where
  "attemptConfig p request minerID nonce =
     \<lparr>pc_DAGPath = fp_DAGPath p, pc_SidecarPath = fp_SidecarPath p, pc_Manifest = fp_Manifest p,
      pc_BlockHash = mq_ParentHash request, pc_Miner = minerID, pc_Epoch = mq_Height request, pc_Nonce = nonce,
      pc_PoWSamples = fp_PoWSamples p, pc_TensorSamples = fp_TensorSamples p, pc_Target = []\<rparr>"

text \<open>
  The loop over the attempts that are left. The counter is shared by concurrent requests: what it holds before the
  attempts of this call is the argument \<open>others\<close>, how far other calls moved it before each attempt.
\<close>

fun createLoop ::
  "(bytes \<Rightarrow> bytes) \<Rightarrow> (u64 \<Rightarrow> bool) \<Rightarrow> (string \<rightharpoonup> bytes) \<Rightarrow> FileProofProvider \<Rightarrow> (nat \<Rightarrow> u64) \<Rightarrow> nat \<Rightarrow> u64
     \<Rightarrow> MiningRequest \<Rightarrow> string \<Rightarrow> u64 \<times> (provider_error + (Proof \<times> bytes)) option" where
  "createLoop blake3 ctxDone fs p others 0 nonce request minerID =
     (nonce, Some (Inl (ProviderNoNonce (if fp_MaxSealAttempts p = 0 then 1024 else fp_MaxSealAttempts p))))"
| "createLoop blake3 ctxDone fs p others (Suc k) nonce request minerID =
     (let nonce = nonce + others k + 1 in
      case ProveFiles blake3 ctxDone fs (attemptConfig p request minerID (nonce - 1)) of
        None \<Rightarrow> (nonce, None)
      | Some (Inl e) \<Rightarrow> (nonce, Some (Inl (ProviderProve e)))
      | Some (Inr (proof, data)) \<Rightarrow>
          if fp_Target p = [] then (nonce, Some (Inr (proof, data)))
          else case WorkMeetsTarget (seal_WorkHash (prf_Seal proof)) (fp_Target p) of
                 Inl e \<Rightarrow> (nonce, Some (Inl (ProviderHash e)))
               | Inr meets \<Rightarrow>
                   if meets then (nonce, Some (Inr (proof, data)))
                   else createLoop blake3 ctxDone fs p others k nonce request minerID)"

definition FileProofProvider_Create ::
  "(bytes \<Rightarrow> bytes) \<Rightarrow> (u64 \<Rightarrow> bool) \<Rightarrow> (string \<rightharpoonup> bytes) \<Rightarrow> FileProofProvider \<Rightarrow> (nat \<Rightarrow> u64) \<Rightarrow> u64 ProofProvider" where
  "FileProofProvider_Create blake3 ctxDone fs p others nonce request minerID =
     (let attempts = (if fp_MaxSealAttempts p = 0 then 1024 else fp_MaxSealAttempts p)
      in createLoop blake3 ctxDone fs p others (unat attempts) nonce request minerID)"

section \<open>The service\<close>

record 'p Service =
  sv_ID :: string
  sv_PrivateKey :: bytes
  sv_Difficulty :: u8
  sv_MaxNonce :: u64
  sv_ManifestRoot :: string
  sv_Runner :: Runner
  sv_ZKMLProver :: "string option"
  sv_ProofProvider :: "'p ProofProvider option"
  sv_providerState :: 'p
  sv_proofStore :: Store

definition Service_New ::
  "'p \<Rightarrow> string \<Rightarrow> bytes \<Rightarrow> u8 \<Rightarrow> u64 \<Rightarrow> string \<Rightarrow> miner_error + 'p Service" where
  "Service_New p nodeID privateKey difficulty maxNonce manifestRoot =
     (if nodeID = [] \<or> length privateKey \<noteq> 64 then Inl MinerIdentityRequired
      else
        let maxNonce = (if maxNonce = 0 then 5000000 else maxNonce)
        in bindE (mapErr StoreProof (Store_New True [] 16777216 Map.empty)) (\<lambda>proofStore.
             Inr \<lparr>sv_ID = nodeID, sv_PrivateKey = privateKey, sv_Difficulty = difficulty, sv_MaxNonce = maxNonce,
                  sv_ManifestRoot = manifestRoot, sv_Runner = DummyRunner manifestRoot, sv_ZKMLProver = None,
                  sv_ProofProvider = None, sv_providerState = p, sv_proofStore = proofStore\<rparr>))"

text \<open>The setters; the code ignores a runner or a store that is nil.\<close>

definition SetProofProvider :: "'p Service \<Rightarrow> 'p ProofProvider option \<Rightarrow> 'p \<Rightarrow> 'p Service" where
  "SetProofProvider s provider p = s\<lparr>sv_ProofProvider := provider, sv_providerState := p\<rparr>"

definition SetRunner :: "'p Service \<Rightarrow> Runner option \<Rightarrow> 'p Service" where
  "SetRunner s runner = (case runner of None \<Rightarrow> s | Some r \<Rightarrow> s\<lparr>sv_Runner := r\<rparr>)"

definition SetZKMLProver :: "'p Service \<Rightarrow> string option \<Rightarrow> 'p Service" where
  "SetZKMLProver s prover = s\<lparr>sv_ZKMLProver := prover\<rparr>"

definition SetProofStore :: "'p Service \<Rightarrow> Store option \<Rightarrow> 'p Service" where
  "SetProofStore s store = (case store of None \<Rightarrow> s | Some st \<Rightarrow> s\<lparr>sv_proofStore := st\<rparr>)"

text \<open>The AISeal part of \<open>Mine\<close>: the digest and the proof hash of the ticket, and the bundle.\<close>

definition mineSeal ::
  "crypto \<Rightarrow> bool \<Rightarrow> 'p Service \<Rightarrow> MiningRequest \<Rightarrow> AIResult
     \<Rightarrow> 'p Service \<times> (miner_error + (string \<times> string \<times> AIProofBundle option)) option" where
  "mineSeal cr osOK s request result =
     (case sv_ProofProvider s of
        None \<Rightarrow> (s, Some (Inr (ar_AIDigest result, ar_AIDigest result, None)))
      | Some create \<Rightarrow>
          (case create (sv_providerState s) request (sv_ID s) of
             (p, None) \<Rightarrow> (s\<lparr>sv_providerState := p\<rparr>, None)
           | (p, Some (Inl e)) \<Rightarrow> (s\<lparr>sv_providerState := p\<rparr>, Some (Inl (CreateProof e)))
           | (p, Some (Inr (proof, proofBytes))) \<Rightarrow>
               let s = s\<lparr>sv_providerState := p\<rparr>;
                   aiDigest = seal_AIDigest (prf_Seal proof);
                   aiProofHash = seal_ProofHash (prf_Seal proof)
               in (case Put (cr_sha256 cr) osOK (sv_proofStore s) proofBytes of
                    (store, Inl e) \<Rightarrow> (s\<lparr>sv_proofStore := store\<rparr>, Some (Inl (StoreProof e)))
                  | (store, Inr contentHash) \<Rightarrow>
                      (s\<lparr>sv_proofStore := store\<rparr>,
                       Some (Inr (aiDigest, aiProofHash,
                         Some \<lparr>ab_MinerID = sv_ID s, ab_ProofHash = aiProofHash, ab_ContentHash = contentHash,
                               ab_Proof = string_of proofBytes\<rparr>))))))"

definition bundleOf :: "string \<Rightarrow> ZProof \<Rightarrow> string \<Rightarrow> ZKMLProofBundle" where
  "bundleOf worker p proofHash =
     \<lparr>zb_WorkerID = worker, zb_Scheme = zp_Scheme p, zb_CircuitID = zp_CircuitID p,
      zb_ModelCommitment = zp_ModelCommitment p, zb_InputCommitment = zp_InputCommitment p, zb_Output = zp_Output p,
      zb_Proof = copySlice (elems (zp_Proof p)), zb_ProofHash = proofHash\<rparr>"

text \<open>The zkML part of \<open>Mine\<close>.\<close>

definition mineZKML ::
  "crypto \<Rightarrow> groth16 \<Rightarrow> 'p Service \<Rightarrow> MiningRequest \<Rightarrow> AIResult \<Rightarrow> miner_error + (string \<times> ZKMLProofBundle option)" where
  "mineZKML cr g s request result =
     (case sv_ZKMLProver s of
        None \<Rightarrow> Inr ([], None)
      | Some circuitID \<Rightarrow>
          let (input, model) = Derive (cr_sha256 cr) (aj_Model (mq_Job request)) (aj_Prompt (mq_Job request))
          in bindE (mapErr CreateZKML (zkml_Prove g circuitID input model)) (\<lambda>proof.
               if ar_Output result \<noteq> ''zkml-linear-v1:'' @ zp_Output proof then Inl OutputNotBound
               else
                 let zkProofHash = ProofHash (cr_sha256 cr) proof
                 in Inr (zkProofHash, Some (bundleOf (sv_ID s) proof zkProofHash))))"

definition challengeTicket ::
  "(bytes \<Rightarrow> bytes) \<Rightarrow> 'p Service \<Rightarrow> MiningRequest \<Rightarrow> AIResult \<Rightarrow> string \<Rightarrow> string \<Rightarrow> string \<Rightarrow> PoWTicket" where
  "challengeTicket sha256 s request result aiDigest aiProofHash zkProofHash =
     \<lparr>tk_Height = mq_Height request, tk_ParentHash = mq_ParentHash request, tk_JobID = aj_ID (mq_Job request),
      tk_ResultHash = HashJSON sha256 (result_json result), tk_AIDigest = aiDigest, tk_MinerID = sv_ID s,
      tk_Nonce = 0, tk_Difficulty = sv_Difficulty s, tk_WorkHash = [], tk_Signature = [],
      tk_ManifestRoot = sv_ManifestRoot s, tk_AIProofHash = aiProofHash, tk_ZKMLProofHash = zkProofHash\<rparr>"

definition attest ::
  "crypto \<Rightarrow> 'p Service \<Rightarrow> MiningRequest \<Rightarrow> AIResult \<Rightarrow> string \<Rightarrow> InferenceAttestation" where
  "attest cr s request result zkProofHash =
     (let attestation =
        \<lparr>at_WorkerID = sv_ID s, at_Height = mq_Height request, at_ParentHash = mq_ParentHash request,
         at_JobID = aj_ID (mq_Job request), at_ResultHash = HashJSON (cr_sha256 cr) (result_json result),
         at_ModelHash = ar_ModelHash result, at_InputHash = ar_InputHash result, at_OutputHash = ar_OutputHash result,
         at_ZKMLProofHash = zkProofHash, at_Signature = []\<rparr>
      in attestation\<lparr>at_Signature :=
           EncodeToString (cr_sign cr (sv_PrivateKey s) (InferenceSigningBytes attestation))\<rparr>)"

definition Service_Mine ::
  "crypto \<Rightarrow> groth16 \<Rightarrow> bool \<Rightarrow> (u64 \<Rightarrow> bool) \<Rightarrow> 'p Service \<Rightarrow> MiningRequest
     \<Rightarrow> 'p Service \<times> (miner_error + MiningResponse) option" where
  "Service_Mine cr g osOK ctxDone s request =
     (let sha256 = cr_sha256 cr in
      if mq_Height request = 0 \<or> mq_ParentHash request = [] then (s, Some (Inl ChallengeRequired))
      else case bindE (mapErr MinerJob (ValidateAIJob sha256 (mq_Job request)))
                  (\<lambda>_. mapErr MinerRun (Runner_Run sha256 (sv_Runner s) (mq_Job request))) of
        Inl e \<Rightarrow> (s, Some (Inl e))
      | Inr result \<Rightarrow>
          (case mineSeal cr osOK s request result of
             (s, None) \<Rightarrow> (s, None)
           | (s, Some (Inl e)) \<Rightarrow> (s, Some (Inl e))
           | (s, Some (Inr (aiDigest, aiProofHash, bundle))) \<Rightarrow>
               (case mineZKML cr g s request result of
                  Inl e \<Rightarrow> (s, Some (Inl e))
                | Inr (zkProofHash, zkBundle) \<Rightarrow>
                    (s, map_option (\<lambda>mined. bindE (mapErr MinerMine mined) (\<lambda>ticket.
                       let ticket = ticket\<lparr>tk_Signature :=
                             EncodeToString (cr_sign cr (sv_PrivateKey s) (TicketSigningBytes ticket))\<rparr>
                       in Inr \<lparr>mr_Ticket = ticket, mr_Result = result, mr_Attestation = attest cr s request result zkProofHash,
                               mr_AIProof = bundle, mr_ZKMLProof = zkBundle\<rparr>))
                       (Mine sha256 ctxDone (challengeTicket sha256 s request result aiDigest aiProofHash zkProofHash)
                         (sv_MaxNonce s))))))"

end
