(* ===== verification/Engine.thy ===== *)
theory Engine
  imports JsonParse Protocol_Laws "HOL-Library.AList"
begin

text \<open>
  The execution engine (\<open>internal/engine/engine.go\<close>, \<open>internal/engine/mock.go\<close>): the envelope check
  that every node applies, the hexadecimal quantities of the Engine API, and the deterministic mock
  engine, whose state is its head and height.

  The interface \<open>Engine\<close> is the record \<open>'x engine\<close> of operations on an engine state \<open>'x\<close>; the locale
  \<open>execution_engine\<close> states what the node expects of it, and the mock is an interpretation. A JSON
  object that the mock decodes into a Go map is an association list; what a JSON number becomes when it
  is decoded to a \<open>float64\<close> and printed again is the argument \<open>floatText\<close>.
\<close>

text \<open>How a call of an external engine fails.\<close>

datatype call_error = CallMarshal | CallHTTP | CallStatus nat | CallNotJSON | CallRPC int string | CallNoResult | CallBadResult

datatype engine_error =
    UnsupportedFork string
  | IncompleteEnvelope
  | InvalidBeaconRoot
  | InvalidBlobHash
  | InvalidBlockNumber
  | InvalidTimestamp
  | TimestampRequired
  | NotExtendingHead
  | PayloadUndecodable
  | NilMapPanic
  | BlockHashMismatch string string
  | StateRootMismatch
  | EngineCall call_error
  | StatusNotValid string
  | NoPayloadID
  | BlobsUnsupported

definition ForkOsaka :: string where "ForkOsaka = ''osaka''"
definition ForkAmsterdam :: string where "ForkAmsterdam = ''amsterdam''"

record BuildInput =
  bi_Timestamp :: u64
  bi_PrevRandao :: string
  bi_SuggestedFeeRecipient :: string
  bi_ParentBeaconBlockRoot :: string
  bi_SlotNumber :: u64
  bi_TargetGasLimit :: u64

record 'x engine =
  en_Build :: "'x \<Rightarrow> BuildInput \<Rightarrow> 'x \<times> (engine_error + ExecutionPayloadEnvelope)"
  en_Validate :: "'x \<Rightarrow> ExecutionPayloadEnvelope \<Rightarrow> 'x \<times> (engine_error + unit)"
  en_Finalize :: "'x \<Rightarrow> ExecutionPayloadEnvelope \<Rightarrow> 'x \<times> (engine_error + unit)"
  en_Head :: "'x \<Rightarrow> string"

section \<open>Hashes and quantities\<close>

fun hexNum :: "string \<Rightarrow> nat \<Rightarrow> nat option" where
  "hexNum [] acc = Some acc"
| "hexNum (c # s) acc = (case hexVal c of None \<Rightarrow> None | Some d \<Rightarrow> hexNum s (16 * acc + d))"

text \<open>\<open>strconv.ParseUint(s, 16, 64)\<close>.\<close>

definition ParseUint16 :: "string \<Rightarrow> u64 option" where
  "ParseUint16 s =
     (if s = [] then None
      else case hexNum s 0 of
             None \<Rightarrow> None
           | Some n \<Rightarrow> if n < 2 ^ 64 then Some (of_nat n) else None)"

definition isHash32 :: "string \<Rightarrow> bool" where
  "isHash32 v =
     (let v = TrimPrefix v ''0x'' in
      length v = 64 \<and> ParseUint16 (take 16 v) \<noteq> None \<and> list_all (\<lambda>c. hexVal c \<noteq> None) (drop 16 v))"

text \<open>\<open>fmt.Sprintf("%x", v)\<close>: lower-case digits without leading zeros.\<close>

fun hexNat :: "nat \<Rightarrow> string" where
  "hexNat n = (if n < 16 then [hexDigit n] else hexNat (n div 16) @ [hexDigit (n mod 16)])"

declare hexNat.simps [simp del]

definition quantity :: "u64 \<Rightarrow> string" where
  "quantity v = ''0x'' @ hexNat (unat v)"

definition parseQuantity :: "string \<Rightarrow> u64 option" where
  "parseQuantity v = (let v = TrimPrefix v ''0x'' in if v = [] then None else ParseUint16 v)"

definition zeroHash :: string where "zeroHash = ''0x'' @ replicate 64 CHR ''0''"
definition zeroAddress :: string where "zeroAddress = ''0x'' @ replicate 40 CHR ''0''"

definition normalizeHash :: "string \<Rightarrow> string" where
  "normalizeHash v =
     (if v = [] then zeroHash else if \<not> HasPrefix v ''0x'' then ''0x'' @ v else ToLower v)"

definition ValidateEnvelope :: "ExecutionPayloadEnvelope \<Rightarrow> engine_error + unit" where
  "ValidateEnvelope e =
     (if ex_Fork e \<noteq> ForkOsaka \<and> ex_Fork e \<noteq> ForkAmsterdam then Inl (UnsupportedFork (ex_Fork e))
      else if length (ex_Payload e) = 0 \<or> \<not> isHash32 (ex_BlockHash e) \<or> \<not> isHash32 (ex_ParentHash e)
          \<or> \<not> isHash32 (ex_StateRoot e) then Inl IncompleteEnvelope
      else if \<not> isHash32 (ex_ParentBeaconBlockRoot e) then Inl InvalidBeaconRoot
      else bindE (forE (\<lambda>h. if \<not> isHash32 h then Inl InvalidBlobHash else Inr ()) (elems (ex_ExpectedBlobVersionedHashes e)))
        (\<lambda>_. bindE (ofOption InvalidBlockNumber (parseQuantity (ex_BlockNumber e)))
        (\<lambda>_. bindE (ofOption InvalidTimestamp (parseQuantity (ex_Timestamp e)))
        (\<lambda>_. Inr ()))))"

section \<open>The mock engine\<close>

record Mock =
  mk_fork :: string
  mk_head :: string
  mk_height :: u64

definition NewMock :: "string \<Rightarrow> string \<Rightarrow> Mock" where
  "NewMock fork genesisHash =
     \<lparr>mk_fork = (if fork = [] then ForkOsaka else fork), mk_head = normalizeHash genesisHash, mk_height = 0\<rparr>"

text \<open>A Go map of JSON values is printed with its keys in order; decoding a JSON object keeps the last value of a key.\<close>

definition mapJson :: "(string \<times> jval) list \<Rightarrow> jval" where
  "mapJson ms = JObj (sortSlice fst ms)"

definition lastWins :: "(string \<times> jval) list \<Rightarrow> (string \<times> jval) list" where
  "lastWins ms = foldl (\<lambda>acc (k, v). AList.update k v acc) [] ms"

fun anyJson :: "jval \<Rightarrow> jval" where
  "anyJson (JArr vs) = JArr (map anyJson vs)"
| "anyJson (JObj ms) = mapJson (lastWins (map (\<lambda>(k, v). (k, anyJson v)) ms))"
| "anyJson v = v"

text \<open>\<open>json.Unmarshal(data, &m)\<close> for a nil map \<open>m\<close>: \<open>null\<close> leaves it nil, the inner option.\<close>

definition unmarshalMap :: "(string \<Rightarrow> string) \<Rightarrow> string \<Rightarrow> (string \<times> jval) list option option" where
  "unmarshalMap floatText s =
     (case parseJson (\<lambda>t. JRaw (floatText t)) s of
        Some (JObj ms) \<Rightarrow> Some (Some (lastWins (map (\<lambda>(k, v). (k, anyJson v)) ms)))
      | Some JNull \<Rightarrow> Some None
      | _ \<Rightarrow> None)"

definition stringAt :: "(string \<times> jval) list \<Rightarrow> string \<Rightarrow> string" where
  "stringAt ms k = (case map_of ms k of Some (JStr s) \<Rightarrow> s | _ \<Rightarrow> [])"

definition mockState_json :: "string \<Rightarrow> u64 \<Rightarrow> u64 \<Rightarrow> jval" where
  "mockState_json parent timestamp height =
     JObj [(''domain'', JStr ''AIDCHAIN_MOCK_EXECUTION_STATE_V1''), (''parent'', JStr parent),
       (''timestamp'', jU64 timestamp), (''height'', jU64 height)]"

definition mockPayload :: "(bytes \<Rightarrow> bytes) \<Rightarrow> Mock \<Rightarrow> BuildInput \<Rightarrow> string \<Rightarrow> (string \<times> jval) list" where
  "mockPayload sha256 m input stateRoot =
     (let feeRecipient = (if bi_SuggestedFeeRecipient input = [] then zeroAddress else bi_SuggestedFeeRecipient input);
          base =
            [(''parentHash'', JStr (mk_head m)), (''feeRecipient'', JStr feeRecipient), (''stateRoot'', JStr stateRoot),
             (''receiptsRoot'', JStr (HashBytes sha256 (bytes_of (''mock-receipts'' @ stateRoot)))),
             (''logsBloom'', JStr (''0x'' @ replicate 512 CHR ''0'')),
             (''prevRandao'', JStr (normalizeHash (bi_PrevRandao input))), (''blockNumber'', JStr (quantity (mk_height m + 1))),
             (''gasLimit'', JStr (quantity (max (bi_TargetGasLimit input) 30000000))),
             (''gasUsed'', JStr ''0x0''), (''timestamp'', JStr (quantity (bi_Timestamp input))), (''extraData'', JStr ''0x''),
             (''baseFeePerGas'', JStr ''0x1''), (''blockHash'', JStr zeroHash), (''transactions'', JArr []),
             (''withdrawals'', JArr []), (''blobGasUsed'', JStr ''0x0''), (''excessBlobGas'', JStr ''0x0'')]
      in if mk_fork m = ForkAmsterdam
         then base @ [(''blockAccessList'', JStr ''0xc0''), (''slotNumber'', JStr (quantity (bi_SlotNumber input)))]
         else base)"

definition Mock_Build :: "(bytes \<Rightarrow> bytes) \<Rightarrow> Mock \<Rightarrow> BuildInput \<Rightarrow> engine_error + ExecutionPayloadEnvelope" where
  "Mock_Build sha256 m input =
     (if bi_Timestamp input = 0 then Inl TimestampRequired
      else
        let beaconRoot = normalizeHash (bi_ParentBeaconBlockRoot input);
            stateRoot = HashJSON sha256 (mockState_json (mk_head m) (bi_Timestamp input) (mk_height m + 1));
            payload = mockPayload sha256 m input stateRoot;
            blockHash = HashJSON sha256 (mapJson payload);
            payload = AList.update ''blockHash'' (JStr blockHash) payload;
            raw = jsonText (mapJson payload)
        in Inr \<lparr>ex_Fork = mk_fork m, ex_Payload = raw, ex_BlockHash = blockHash, ex_ParentHash = mk_head m,
             ex_StateRoot = stateRoot, ex_BlockNumber = quantity (mk_height m + 1), ex_Timestamp = quantity (bi_Timestamp input),
             ex_ParentBeaconBlockRoot = beaconRoot, ex_ExpectedBlobVersionedHashes = Some [],
             ex_ExecutionRequests = Some [], ex_BlockValue = ''0x0''\<rparr>)"

definition validateLocked ::
  "(bytes \<Rightarrow> bytes) \<Rightarrow> (string \<Rightarrow> string) \<Rightarrow> Mock \<Rightarrow> ExecutionPayloadEnvelope \<Rightarrow> engine_error + unit" where
  "validateLocked sha256 floatText m envelope =
     bindE (ValidateEnvelope envelope) (\<lambda>_.
       if ex_Fork envelope \<noteq> mk_fork m \<or> \<not> EqualFold (ex_ParentHash envelope) (mk_head m) then Inl NotExtendingHead
       else bindE (ofOption PayloadUndecodable (unmarshalMap floatText (ex_Payload envelope))) (\<lambda>decoded.
         case decoded of
           None \<Rightarrow> Inl NilMapPanic
         | Some payload \<Rightarrow>
             let got = stringAt payload ''blockHash'';
                 payload = AList.update ''blockHash'' (JStr zeroHash) payload;
                 want = HashJSON sha256 (mapJson payload)
             in if \<not> EqualFold got want \<or> \<not> EqualFold got (ex_BlockHash envelope) then Inl (BlockHashMismatch got want)
                else if \<not> EqualFold (stringAt payload ''stateRoot'') (ex_StateRoot envelope) then Inl StateRootMismatch
                else Inr ()))"

definition Mock_Finalize ::
  "(bytes \<Rightarrow> bytes) \<Rightarrow> (string \<Rightarrow> string) \<Rightarrow> Mock \<Rightarrow> ExecutionPayloadEnvelope \<Rightarrow> Mock \<times> (engine_error + unit)" where
  "Mock_Finalize sha256 floatText m envelope =
     (if EqualFold (ex_BlockHash envelope) (mk_head m) then (m, Inr ())
      else case validateLocked sha256 floatText m envelope of
             Inl e \<Rightarrow> (m, Inl e)
           | Inr _ \<Rightarrow>
               (case parseQuantity (ex_BlockNumber envelope) of
                  None \<Rightarrow> (m, Inl InvalidBlockNumber)
                | Some number \<Rightarrow> (m\<lparr>mk_head := ex_BlockHash envelope, mk_height := number\<rparr>, Inr ())))"

text \<open>The mock as an engine.\<close>

definition mockEngine :: "(bytes \<Rightarrow> bytes) \<Rightarrow> (string \<Rightarrow> string) \<Rightarrow> Mock engine" where
  "mockEngine sha256 floatText =
     \<lparr>en_Build = (\<lambda>m input. (m, Mock_Build sha256 m input)),
      en_Validate = (\<lambda>m envelope. (m, validateLocked sha256 floatText m envelope)),
      en_Finalize = Mock_Finalize sha256 floatText,
      en_Head = mk_head\<rparr>"

end
