(* ===== verification/Engine_Laws.thy ===== *)
theory Engine_Laws
  imports Engine
begin

text \<open>
  Laws of the execution engine: quantities and hashes are read back, Go maps are printed
  independently of the order of their entries, what the mock builds it accepts and finalizes. The
  locale \<open>execution_engine\<close> is the contract of the \<open>Engine\<close> interface; the mock interprets it.
\<close>

section \<open>Quantities and hashes\<close>

lemma hexNum_append: "hexNum (s @ t) acc = (case hexNum s acc of None \<Rightarrow> None | Some n \<Rightarrow> hexNum t n)"
  by (induction s arbitrary: acc) (auto split: option.splits)

lemma hexNum_hexNat: "hexNum (hexNat n) 0 = Some n"
proof (induction n rule: hexNat.induct)
  case (1 n)
  then show ?case by (subst hexNat.simps) (auto simp: hexNum_append)
qed

lemma hexNat_nonempty [simp]: "hexNat n \<noteq> []"
  by (subst hexNat.simps) simp

lemma TrimPrefix_0x [simp]: "TrimPrefix (CHR ''0'' # CHR ''x'' # s) ''0x'' = s"
  by (simp add: TrimPrefix_def)

lemma parseQuantity_quantity [simp]: "parseQuantity (quantity v) = Some v"
proof -
  have "unat v < 2 ^ 64" using unsigned_less[of v] by simp
  then show ?thesis
    by (simp add: parseQuantity_def quantity_def ParseUint16_def hexNum_hexNat)
qed

lemma hexVal_bound: "hexVal c = Some d \<Longrightarrow> d < 16"
  by (auto simp: hexVal_def Let_def split: if_splits)

lemma hexNum_bound: "hexNum s acc = Some n \<Longrightarrow> n < (acc + 1) * 16 ^ length s"
proof (induction s arbitrary: acc)
  case (Cons c s)
  then obtain d where d: "hexVal c = Some d" "hexNum s (16 * acc + d) = Some n" by (auto split: option.splits)
  have "n < (16 * acc + d + 1) * 16 ^ length s" using Cons.IH[OF d(2)] .
  also have "\<dots> \<le> (16 * acc + 16) * 16 ^ length s"
    using hexVal_bound[OF d(1)] by (intro mult_le_mono1) simp
  finally show ?case by (simp add: algebra_simps)
qed simp

lemma hexNum_ok: "hexNum s acc \<noteq> None \<longleftrightarrow> list_all (\<lambda>c. hexVal c \<noteq> None) s"
  by (induction s arbitrary: acc) (auto split: option.splits)

text \<open>The two tests on the parts of a hash amount to one test on all of its digits.\<close>

lemma isHash32_iff:
  "isHash32 v \<longleftrightarrow> length (TrimPrefix v ''0x'') = 64 \<and> list_all (\<lambda>c. hexVal c \<noteq> None) (TrimPrefix v ''0x'')"
proof -
  have "ParseUint16 (take 16 w) \<noteq> None \<longleftrightarrow> list_all (\<lambda>c. hexVal c \<noteq> None) (take 16 w)" if "length w = 64" for w
    using that hexNum_ok[of "take 16 w" 0] hexNum_bound[of "take 16 w" 0]
    by (auto simp: ParseUint16_def split: option.splits)
  moreover have "list_all P w \<longleftrightarrow> list_all P (take 16 w) \<and> list_all P (drop 16 w)" for P and w :: string
    by (metis append_take_drop_id list_all_append)
  ultimately show ?thesis unfolding isHash32_def Let_def by metis
qed

lemma hexVal_hexEncode: "list_all (\<lambda>c. hexVal c \<noteq> None) (hexEncode bs)"
  by (induction bs) auto

lemma isHash32_HashBytes [simp]: "isHash32 (HashBytes sha256 d)"
  using hexVal_hexEncode[of "copy32 (sha256 d)"] by (simp add: isHash32_iff HashBytes_def)

lemma isHash32_HashJSON [simp]: "isHash32 (HashJSON sha256 v)"
  by (simp add: HashJSON_def)

lemma isHash32_zeroHash [simp]: "isHash32 zeroHash"
  by (simp add: isHash32_iff zeroHash_def list_all_iff hexVal_def)

lemma normalizeHash_HashBytes [simp]: "normalizeHash (HashBytes sha256 d) = HashBytes sha256 d"
  by (simp add: normalizeHash_def HashBytes_def toLowerC_def)

lemma normalizeHash_HashJSON [simp]: "normalizeHash (HashJSON sha256 v) = HashJSON sha256 v"
  by (simp add: HashJSON_def)

lemma EqualFold_refl [simp]: "EqualFold s s"
  by (simp add: EqualFold_def)

section \<open>Maps\<close>

lemma update_new: "k \<notin> set (map fst ms) \<Longrightarrow> AList.update k v ms = ms @ [(k, v)]"
  by (induction ms) auto

lemma lastWins_distinct: "distinct (map fst ms) \<Longrightarrow> lastWins ms = ms"
proof (induction ms rule: rev_induct)
  case (snoc kv ms)
  then show ?case by (cases kv) (simp add: lastWins_def update_new)
qed (simp add: lastWins_def)

text \<open>The printed map depends on the entries only.\<close>

lemma mapJson_eq:
  assumes "distinct (map fst xs)" "distinct (map fst ys)" "map_of xs = map_of ys"
  shows "mapJson xs = mapJson ys"
proof -
  have "set xs = set ys" using map_of_inject_set[OF assms(1,2)] assms(3) by blast
  then have "mset xs = mset ys"
    using assms(1,2) by (simp add: set_eq_iff_mset_eq_distinct distinct_map)
  moreover have "inj_on fst (set xs)" "distinct xs" using assms(1) by (simp_all add: distinct_map)
  ultimately show ?thesis using sortSlice_perm_unique[of xs ys fst] by (simp add: mapJson_def)
qed

lemma sortSlice_keys:
  assumes "distinct (map fst xs)"
  shows "distinct (map fst (sortSlice fst xs))" "map_of (sortSlice fst xs) = map_of xs"
proof -
  have "mset (map fst (sortSlice fst xs)) = mset (map fst xs)" by simp
  then show d: "distinct (map fst (sortSlice fst xs))" using assms by (metis mset_eq_imp_distinct_iff)
  show "map_of (sortSlice fst xs) = map_of xs" using map_of_inject_set[OF d assms] by simp
qed

lemma map_of_stringAt: "map_of xs = map_of ys \<Longrightarrow> stringAt xs = stringAt ys"
  by (intro ext) (simp add: stringAt_def)

section \<open>Building and validating\<close>

text \<open>The state of the mock: its head is a hash and its fork is known.\<close>

definition mockOK :: "Mock \<Rightarrow> bool" where
  "mockOK m \<longleftrightarrow> isHash32 (mk_head m) \<and> mk_fork m \<in> {ForkOsaka, ForkAmsterdam}"

definition inputOK :: "BuildInput \<Rightarrow> bool" where
  "inputOK input \<longleftrightarrow> bi_Timestamp input \<noteq> 0 \<and> isHash32 (normalizeHash (bi_ParentBeaconBlockRoot input))"

lemma mockPayload_keys: "distinct (map fst (mockPayload sha256 m input stateRoot))"
  by (simp add: mockPayload_def Let_def)

lemma mockPayload_at:
  "map_of (mockPayload sha256 m input stateRoot) ''blockHash'' = Some (JStr zeroHash)"
  "map_of (mockPayload sha256 m input stateRoot) ''stateRoot'' = Some (JStr stateRoot)"
  by (simp_all add: mockPayload_def Let_def)

text \<open>Values the decoder returns as they are.\<close>

definition flat :: "jval \<Rightarrow> bool" where
  "flat v \<longleftrightarrow> (\<exists>s. v = JStr s) \<or> v = JArr []"

lemma flat_simps: "flat v \<Longrightarrow> anyJson v = v \<and> noRaw v \<and> jnums v = {} \<and> jdepth v \<le> 1"
  by (auto simp: flat_def)

lemma mockPayload_flat: "(k, v) \<in> set (mockPayload sha256 m input stateRoot) \<Longrightarrow> flat v"
  by (auto simp: mockPayload_def Let_def flat_def split: if_splits)

lemma update_flat:
  "\<forall>(k, v) \<in> set ms. flat v \<Longrightarrow> flat w \<Longrightarrow> \<forall>(k, v) \<in> set (AList.update j w ms). flat v"
  by (induction ms) auto

text \<open>A flat map that was printed is decoded to its entries in the order of the keys.\<close>

lemma unmarshalMap_mapJson:
  assumes "\<forall>(k, v) \<in> set ms. flat v" "distinct (map fst ms)"
  shows "unmarshalMap floatText (jsonText (mapJson ms)) = Some (Some (sortSlice fst ms))"
proof -
  let ?s = "sortSlice fst ms"
  have flat: "flat v" if "(k, v) \<in> set ?s" for k v using assms(1) that by auto
  have "jdepth (JObj ?s) \<le> 2" using flat flat_simps by (auto simp: Max_le_iff)
  then have "parseJson (\<lambda>t. JRaw (floatText t)) (jsonText (JObj ?s)) = Some (JObj ?s)"
    using flat flat_simps by (intro parseJson_text) (auto, fastforce+)
  moreover have "map (\<lambda>(k, v). (k, anyJson v)) ?s = ?s" using flat flat_simps by (intro map_idI) auto
  ultimately show ?thesis
    using lastWins_distinct[OF sortSlice_keys(1)[OF assms(2)]] by (simp add: unmarshalMap_def mapJson_def)
qed

lemma jsonText_mapJson [simp]: "jsonText (mapJson ms) \<noteq> []"
  by (simp add: mapJson_def)

lemma Mock_Build_validates:
  assumes "mockOK m" "inputOK input" "Mock_Build sha256 m input = Inr envelope"
  shows "validateLocked sha256 floatText m envelope = Inr ()"
proof -
  let ?root = "HashJSON sha256 (mockState_json (mk_head m) (bi_Timestamp input) (mk_height m + 1))"
  let ?p = "mockPayload sha256 m input ?root"
  let ?h = "HashJSON sha256 (mapJson ?p)"
  let ?p' = "AList.update ''blockHash'' (JStr ?h) ?p"
  have d: "distinct (map fst ?p')" by (rule AList.distinct_update) (rule mockPayload_keys)
  note keys = sortSlice_keys[OF d]
  have "flat (JStr ?h)" by (simp add: flat_def)
  then have decoded: "unmarshalMap floatText (jsonText (mapJson ?p')) = Some (Some (sortSlice fst ?p'))"
    using mockPayload_flat by (intro unmarshalMap_mapJson[OF _ d] update_flat) auto
  have at: "stringAt (sortSlice fst ?p') ''blockHash'' = ?h" "stringAt (AList.update ''blockHash'' z (sortSlice fst ?p')) ''stateRoot'' = ?root" for z
    using keys(2) mockPayload_at by (simp_all add: stringAt_def AList.update_conv')
  have "mapJson (AList.update ''blockHash'' (JStr zeroHash) (sortSlice fst ?p')) = mapJson ?p"
    by (rule mapJson_eq) (use keys mockPayload_keys mockPayload_at(1)
      in \<open>auto simp: AList.distinct_update AList.update_conv' fun_upd_triv\<close>)
  then show ?thesis
    using assms decoded at
    by (auto simp: Mock_Build_def validateLocked_def ValidateEnvelope_def mockOK_def inputOK_def Let_def)
qed

section \<open>The contract\<close>

text \<open>
  What the node expects of an execution engine: a payload that the engine builds it also accepts, and
  after finalizing a payload the head is that payload's hash, up to the case of its digits; the
  invariant covers the engine's own state.
\<close>

text \<open>What may be done with an engine, and the envelopes that were finalized on the way.\<close>

datatype engine_op = DoBuild BuildInput | DoValidate ExecutionPayloadEnvelope | DoFinalize ExecutionPayloadEnvelope

fun engine_step :: "'x engine \<Rightarrow> engine_op \<Rightarrow> 'x \<Rightarrow> 'x \<times> ExecutionPayloadEnvelope list" where
  "engine_step E (DoBuild input) x = (fst (en_Build E x input), [])"
| "engine_step E (DoValidate env) x = (fst (en_Validate E x env), [])"
| "engine_step E (DoFinalize env) x = (case en_Finalize E x env of (x', Inr _) \<Rightarrow> (x', [env]) | (x', Inl _) \<Rightarrow> (x', []))"

fun engine_trace :: "'x engine \<Rightarrow> engine_op list \<Rightarrow> 'x \<Rightarrow> 'x \<times> ExecutionPayloadEnvelope list" where
  "engine_trace E [] x = (x, [])"
| "engine_trace E (c # ops) x =
     (let (x', done1) = engine_step E c x; (x'', done2) = engine_trace E ops x' in (x'', done1 @ done2))"

text \<open>Every engine moves its head by finalizing, and in no other way.\<close>

locale engine_head =
  fixes E :: "'x engine"
  assumes build_head: "en_Head E (fst (en_Build E x input)) = en_Head E x"
    and validate_head: "en_Head E (fst (en_Validate E x env)) = en_Head E x"
    and finalize_head: "en_Finalize E x env = (x', Inr ()) \<Longrightarrow> EqualFold (en_Head E x') (ex_BlockHash env)"
    and finalize_error: "en_Finalize E x env = (x', Inl e) \<Longrightarrow> en_Head E x' = en_Head E x"
begin

lemma step_head:
  "engine_step E c x = (x', fs) \<Longrightarrow>
     EqualFold (en_Head E x') (if fs = [] then en_Head E x else ex_BlockHash (last fs))"
  using build_head validate_head finalize_head finalize_error
  by (cases c) (auto simp: EqualFold_def split: prod.splits sum.splits)

lemma trace_head:
  "engine_trace E ops x = (x', fs) \<Longrightarrow>
     EqualFold (en_Head E x') (if fs = [] then en_Head E x else ex_BlockHash (last fs))"
proof (induction ops arbitrary: x fs)
  case (Cons c ops)
  obtain x1 f1 x2 f2 where s: "engine_step E c x = (x1, f1)" "engine_trace E ops x1 = (x2, f2)" "x' = x2" "fs = f1 @ f2"
    using Cons.prems by (auto simp: Let_def split: prod.splits)
  from Cons.IH[of x1 f2] s(2,3) step_head[OF s(1)] show ?case by (auto simp: s(4) EqualFold_def split: if_splits)
qed (simp add: EqualFold_def)

end

locale execution_engine = engine_head E for E :: "'x engine" +
  fixes inv :: "'x \<Rightarrow> bool"
  assumes build_keeps: "en_Build E x input = (x', b) \<Longrightarrow> inv x \<Longrightarrow> inv x'"
    and build_ok: "inv x \<Longrightarrow> inputOK input \<Longrightarrow> \<exists>x' env. en_Build E x input = (x', Inr env)"
    and build_valid: "inv x \<Longrightarrow> inputOK input \<Longrightarrow> en_Build E x input = (x', Inr env) \<Longrightarrow>
      \<exists>x''. en_Finalize E x' env = (x'', Inr ())"
    and finalize_inv: "inv x \<Longrightarrow> en_Finalize E x env = (x', r) \<Longrightarrow> inv x'"
begin

text \<open>One round of the chain: build a payload on the head and finalize it.\<close>

definition advance :: "'x \<Rightarrow> BuildInput \<Rightarrow> 'x \<times> (engine_error + ExecutionPayloadEnvelope)" where
  "advance x input =
     (case en_Build E x input of
        (x, Inl e) \<Rightarrow> (x, Inl e)
      | (x, Inr env) \<Rightarrow> (case en_Finalize E x env of (x, Inl e) \<Rightarrow> (x, Inl e) | (x, Inr _) \<Rightarrow> (x, Inr env)))"

lemma advance_ok:
  assumes "inv x" "inputOK input"
  shows "\<exists>x' env. advance x input = (x', Inr env) \<and> inv x' \<and> EqualFold (en_Head E x') (ex_BlockHash env)"
proof -
  obtain x1 env where b: "en_Build E x input = (x1, Inr env)" using build_ok[OF assms] by blast
  obtain x2 where f: "en_Finalize E x1 env = (x2, Inr ())" using build_valid[OF assms b] by blast
  have "inv x2" using finalize_inv[OF _ f] build_keeps[OF b assms(1)] by blast
  then show ?thesis using b f finalize_head[OF f] by (simp add: advance_def)
qed

text \<open>Any number of rounds goes through.\<close>

lemma advances_ok:
  assumes "inv x" "\<forall>input \<in> set inputs. inputOK input"
  shows "\<exists>x' envs. fold (\<lambda>input (x, envs). case advance x input of (x', Inr env) \<Rightarrow> (x', envs @ [env]) | (x', Inl e) \<Rightarrow> (x', envs))
      inputs (x, es) = (x', envs) \<and> length envs = length es + length inputs \<and> inv x'"
  using assms
proof (induction inputs arbitrary: x es)
  case (Cons input inputs)
  obtain x' env where a: "advance x input = (x', Inr env)" "inv x'" using advance_ok[of x input] Cons.prems by auto
  then show ?case using Cons.IH[OF a(2), of "es @ [env]"] Cons.prems by auto
qed simp

end

lemma Mock_Build_ok: "inputOK input \<Longrightarrow> \<exists>env. Mock_Build sha256 m input = Inr env"
  by (simp add: Mock_Build_def inputOK_def Let_def)

lemma validateLocked_envelope: "validateLocked sha256 floatText m env = Inr () \<Longrightarrow> ValidateEnvelope env = Inr () \<and> ex_Fork env = mk_fork m"
  by (auto simp: validateLocked_def)

lemma ValidateEnvelope_number: "ValidateEnvelope env = Inr () \<Longrightarrow> \<exists>n. parseQuantity (ex_BlockNumber env) = Some n"
  by (auto simp: ValidateEnvelope_def)

interpretation mock: execution_engine "mockEngine sha256 floatText" mockOK
  for sha256 floatText
proof unfold_locales
  fix x :: Mock and input x' env
  assume ok: "mockOK x" "inputOK input" and "en_Build (mockEngine sha256 floatText) x input = (x', Inr env)"
  then have b: "x' = x" "Mock_Build sha256 x input = Inr env" by (auto simp: mockEngine_def)
  have v: "validateLocked sha256 floatText x env = Inr ()" by (rule Mock_Build_validates[OF ok b(2)])
  then obtain n where "parseQuantity (ex_BlockNumber env) = Some n"
    using validateLocked_envelope ValidateEnvelope_number by blast
  then show "\<exists>x''. en_Finalize (mockEngine sha256 floatText) x' env = (x'', Inr ())"
    using v b by (auto simp: mockEngine_def Mock_Finalize_def)
next
  fix x :: Mock and env x' r
  assume "mockOK x" "en_Finalize (mockEngine sha256 floatText) x env = (x', r)"
  moreover have "isHash32 (ex_BlockHash env)" if "validateLocked sha256 floatText x env = Inr u" for u
    using that validateLocked_envelope[of sha256 floatText x env] by (auto simp: ValidateEnvelope_def)
  ultimately show "mockOK x'"
    by (cases "validateLocked sha256 floatText x env")
      (auto simp: mockEngine_def Mock_Finalize_def mockOK_def split: if_splits option.splits)
next
  fix x :: Mock and input
  assume "inputOK input"
  then show "\<exists>x' env. en_Build (mockEngine sha256 floatText) x input = (x', Inr env)"
    using Mock_Build_ok by (simp add: mockEngine_def)
qed (auto simp: mockEngine_def Mock_Finalize_def EqualFold_def split: if_splits sum.splits option.splits)

section \<open>Properties\<close>

text \<open>
  C24: The mock engine accepts what it builds. On a mock whose head is a hash and whose fork is known,
  and for a build request with a timestamp and a usable beacon root, \<open>Build\<close> returns an envelope;
  the same mock (and any other with the same head and fork) validates it, whatever numbers decode
  to; finalizing it succeeds and makes its block hash the head and its number the height.
\<close>

theorem mock_build_finalize:
  assumes "mockOK m" "inputOK input"
  shows "\<exists>env. Mock_Build sha256 m input = Inr env
    \<and> validateLocked sha256 floatText m env = Inr ()
    \<and> (\<exists>m'. Mock_Finalize sha256 floatText m env = (m', Inr ()) \<and> mockOK m'
        \<and> (m' = m\<lparr>mk_head := ex_BlockHash env, mk_height := mk_height m + 1\<rparr>
           \<or> EqualFold (ex_BlockHash env) (mk_head m) \<and> m' = m))"
proof -
  obtain env where b: "Mock_Build sha256 m input = Inr env" using Mock_Build_ok[OF assms(2)] by blast
  have v: "validateLocked sha256 floatText m env = Inr ()" by (rule Mock_Build_validates[OF assms b])
  have n: "ex_BlockNumber env = quantity (mk_height m + 1)" using b by (auto simp: Mock_Build_def Let_def)
  obtain m' where f: "Mock_Finalize sha256 floatText m env = (m', Inr ())"
    "m' = m\<lparr>mk_head := ex_BlockHash env, mk_height := mk_height m + 1\<rparr> \<or> EqualFold (ex_BlockHash env) (mk_head m) \<and> m' = m"
    using v n by (cases "EqualFold (ex_BlockHash env) (mk_head m)") (auto simp: Mock_Finalize_def)
  moreover have "mockOK m'"
    using mock.finalize_inv[OF assms(1), of sha256 floatText env m' "Inr ()"] f(1) by (simp add: mockEngine_def)
  ultimately show ?thesis using b v by blast
qed

theorem mock_build_finalize_witness:
  "\<exists>env. Mock_Build (\<lambda>_. replicate 32 3) (NewMock ForkOsaka GenesisHash)
      \<lparr>bi_Timestamp = 1700000000, bi_PrevRandao = [], bi_SuggestedFeeRecipient = [], bi_ParentBeaconBlockRoot = [],
       bi_SlotNumber = 1, bi_TargetGasLimit = 30000000\<rparr> = Inr env"
proof -
  have "mockOK (NewMock ForkOsaka GenesisHash)"
    by (simp add: mockOK_def NewMock_def ForkOsaka_def isHash32_iff GenesisHash_def normalizeHash_def TrimPrefix_def hexVal_def
        toLowerC_def)
  moreover have "inputOK \<lparr>bi_Timestamp = 1700000000, bi_PrevRandao = [], bi_SuggestedFeeRecipient = [],
      bi_ParentBeaconBlockRoot = [], bi_SlotNumber = 1, bi_TargetGasLimit = 30000000\<rparr>"
    by (simp add: inputOK_def normalizeHash_def)
  ultimately show ?thesis using mock_build_finalize by blast
qed

text \<open>
  The Engine API's quantities and the envelope's hash test: writing a 64-bit number as a quantity
  and reading it back gives the number; the test \<open>isHash32\<close>, which parses the first sixteen digits as
  a number and looks at the others one by one, accepts exactly the strings of 64 hexadecimal digits
  with or without the prefix \<open>0x\<close>.
\<close>

theorem quantity_roundtrip:
  "parseQuantity (quantity v) = Some v
   \<and> (isHash32 s \<longleftrightarrow> length (TrimPrefix s ''0x'') = 64 \<and> list_all (\<lambda>c. hexVal c \<noteq> None) (TrimPrefix s ''0x''))"
  using parseQuantity_quantity isHash32_iff by blast

text \<open>
  A payload that is the JSON literal \<open>null\<close> passes the envelope check, and the mock then writes
  into a nil map: validation stops with a run-time panic instead of an error, for every state of the
  mock and every envelope that extends its head.
\<close>

theorem null_payload_panics:
  assumes "ValidateEnvelope env = Inr ()" "ex_Payload env = ''null''" "ex_Fork env = mk_fork m"
    and "EqualFold (ex_ParentHash env) (mk_head m)"
  shows "validateLocked sha256 floatText m env = Inl NilMapPanic"
proof -
  have "parseJson (\<lambda>t. JRaw (floatText t)) ''null'' = Some JNull"
    using parseJson_text[of JNull "\<lambda>t. JRaw (floatText t)"] by simp
  then show ?thesis using assms by (simp add: validateLocked_def unmarshalMap_def)
qed

theorem null_payload_panics_witness:
  "validateLocked (\<lambda>_. replicate 32 3) (\<lambda>t. t) \<lparr>mk_fork = ForkOsaka, mk_head = zeroHash, mk_height = 0\<rparr>
     \<lparr>ex_Fork = ForkOsaka, ex_Payload = ''null'', ex_BlockHash = zeroHash, ex_ParentHash = zeroHash, ex_StateRoot = zeroHash,
      ex_BlockNumber = quantity 1, ex_Timestamp = quantity 1, ex_ParentBeaconBlockRoot = zeroHash,
      ex_ExpectedBlobVersionedHashes = None, ex_ExecutionRequests = None, ex_BlockValue = []\<rparr> = Inl NilMapPanic"
  by (rule null_payload_panics) (simp_all add: ValidateEnvelope_def)

end
