(* ===== verification/Evm.thy ===== *)
theory Evm
  imports JsonParse Protocol_Laws
begin

text \<open>
  The EVM forwarder (\<open>internal/evm/forwarder.go\<close>): a request goes to a JSON-RPC endpoint, or to a
  deterministic mock when none is configured, and the answer becomes a receipt that commits to the
  parent block, the request and the response.

  The endpoint is outside the program: \<open>post\<close> stands for the HTTP exchange (status and body,
  \<^const>\<open>None\<close> when it fails) and \<open>decodeRPC\<close> for unmarshalling the body (\<^const>\<open>None\<close> when that fails).
\<close>

datatype evm_error =
    ParamsInvalid
  | UpstreamRequest
  | UpstreamStatus nat
  | DecodeResponse
  | RPCError int string
  | NoResult
  | ReceiptMethodMismatch
  | ReceiptCommitmentMismatch

definition TrimRightSlash :: "string \<Rightarrow> string" where
  "TrimRightSlash s = rev (dropWhile (\<lambda>c. c = CHR ''/'') (rev s))"

definition NewClient :: "string \<Rightarrow> string" where
  "NewClient url = TrimRightSlash (TrimSpace url)"

definition normalizeRequest :: "EVMRequest \<Rightarrow> evm_error + EVMRequest" where
  "normalizeRequest request =
     (let request = request\<lparr>er_Method := TrimSpace (er_Method request)\<rparr>;
          request = (if er_Method request = [] then request\<lparr>er_Method := ''eth_chainId''\<rparr> else request);
          request = (if er_Params request = [] then request\<lparr>er_Params := ''[]''\<rparr> else request)
      in if \<not> json_Valid (er_Params request) then Inl ParamsInvalid else Inr request)"

definition evmState_json :: "string \<Rightarrow> string \<Rightarrow> string \<Rightarrow> jval" where
  "evmState_json parentHash requestHash responseHash =
     JObj [(''domain'', JStr ''AIDCHAIN_EVM_RECEIPT_V1''), (''parentHash'', JStr parentHash),
       (''requestHash'', JStr requestHash), (''responseHash'', JStr responseHash)]"

definition makeReceipt ::
  "(bytes \<Rightarrow> bytes) \<Rightarrow> string \<Rightarrow> EVMRequest \<Rightarrow> RawMessage \<Rightarrow> string \<Rightarrow> bool \<Rightarrow> EVMReceipt" where
  "makeReceipt sha256 parentHash request response upstream mock =
     (let requestHash = HashJSON sha256 (evmRequest_json request);
          responseHash = HashBytes sha256 (bytes_of response);
          stateRoot = HashJSON sha256 (evmState_json parentHash requestHash responseHash)
      in \<lparr>ev_Method = er_Method request, ev_RequestHash = requestHash, ev_Response = response,
          ev_ResponseHash = responseHash, ev_StateRoot = stateRoot, ev_Upstream = upstream, ev_Mock = mock\<rparr>)"

definition executeMock :: "(bytes \<Rightarrow> bytes) \<Rightarrow> string \<Rightarrow> EVMRequest \<Rightarrow> EVMReceipt" where
  "executeMock sha256 parentHash request =
     (let result = jsonText (JObj [(''accepted'', JBool True), (''chainId'', JStr ''0x7a69''), (''method'', JStr (er_Method request))])
      in makeReceipt sha256 parentHash request result ''mock://deterministic-evm'' True)"

definition rpcRequest_json :: "EVMRequest \<Rightarrow> jval" where
  "rpcRequest_json request =
     JObj [(''jsonrpc'', JStr ''2.0''), (''id'', jU64 (1 :: u64)), (''method'', JStr (er_Method request)),
       (''params'', JRaw (er_Params request))]"

type_synonym rpcResponse = "RawMessage \<times> (int \<times> string) option"

definition Execute ::
  "(bytes \<Rightarrow> bytes) \<Rightarrow> (string \<Rightarrow> bytes \<Rightarrow> (nat \<times> bytes) option) \<Rightarrow> (bytes \<Rightarrow> rpcResponse option) \<Rightarrow> string
     \<Rightarrow> string \<Rightarrow> EVMRequest \<Rightarrow> evm_error + EVMReceipt" where
  "Execute sha256 post decodeRPC url parentHash request =
     bindE (normalizeRequest request) (\<lambda>request.
       if url = [] then Inr (executeMock sha256 parentHash request)
       else bindE (ofOption UpstreamRequest (post url (json_marshal (rpcRequest_json request)))) (\<lambda>(status, body).
         let body = take 4194304 body in
         if status < 200 \<or> status \<ge> 300 then Inl (UpstreamStatus status)
         else bindE (ofOption DecodeResponse (decodeRPC body)) (\<lambda>(result, rpcErr).
           case rpcErr of
             Some (code, message) \<Rightarrow> Inl (RPCError code message)
           | None \<Rightarrow>
               if result = [] then Inl NoResult
               else Inr (makeReceipt sha256 parentHash request result url False))))"

definition VerifyReceipt :: "(bytes \<Rightarrow> bytes) \<Rightarrow> string \<Rightarrow> EVMRequest \<Rightarrow> EVMReceipt \<Rightarrow> evm_error + unit" where
  "VerifyReceipt sha256 parentHash request receipt =
     bindE (normalizeRequest request) (\<lambda>request.
       if ev_Method receipt \<noteq> er_Method request then Inl ReceiptMethodMismatch
       else
         let want = makeReceipt sha256 parentHash request (ev_Response receipt) (ev_Upstream receipt) (ev_Mock receipt)
         in if ev_RequestHash want \<noteq> ev_RequestHash receipt \<or> ev_ResponseHash want \<noteq> ev_ResponseHash receipt
               \<or> ev_StateRoot want \<noteq> ev_StateRoot receipt
            then Inl ReceiptCommitmentMismatch else Inr ())"

section \<open>Laws\<close>

text \<open>What a raw message is after the JSON encoder printed it and a peer decoded it again.\<close>

definition wireRaw :: "RawMessage \<Rightarrow> RawMessage" where
  "wireRaw s = jsonText (JRaw s)"

definition wireRequest :: "EVMRequest \<Rightarrow> EVMRequest" where
  "wireRequest r = r\<lparr>er_Params := wireRaw (er_Params r)\<rparr>"

definition wireReceipt :: "EVMReceipt \<Rightarrow> EVMReceipt" where
  "wireReceipt r = r\<lparr>ev_Response := wireRaw (ev_Response r)\<rparr>"

lemma makeReceipt_sel [simp]:
  "ev_Method (makeReceipt sha256 p q r u k) = er_Method q"
  "ev_Response (makeReceipt sha256 p q r u k) = r"
  "ev_Upstream (makeReceipt sha256 p q r u k) = u"
  "ev_Mock (makeReceipt sha256 p q r u k) = k"
  "ev_RequestHash (makeReceipt sha256 p q r u k) = HashJSON sha256 (evmRequest_json q)"
  "ev_ResponseHash (makeReceipt sha256 p q r u k) = HashBytes sha256 (bytes_of r)"
  "ev_StateRoot (makeReceipt sha256 p q r u k) = HashJSON sha256 (evmState_json p
      (HashJSON sha256 (evmRequest_json q)) (HashBytes sha256 (bytes_of r)))"
  by (simp_all add: makeReceipt_def Let_def)

lemma VerifyReceipt_ok:
  "VerifyReceipt sha256 p request receipt = Inr () \<longleftrightarrow>
     (\<exists>q. normalizeRequest request = Inr q \<and> ev_Method receipt = er_Method q
        \<and> ev_RequestHash receipt = HashJSON sha256 (evmRequest_json q)
        \<and> ev_ResponseHash receipt = HashBytes sha256 (bytes_of (ev_Response receipt))
        \<and> ev_StateRoot receipt = HashJSON sha256 (evmState_json p (ev_RequestHash receipt) (ev_ResponseHash receipt)))"
  by (auto simp: VerifyReceipt_def Let_def)

lemma Execute_makes:
  assumes "Execute sha256 post decodeRPC url p request = Inr receipt"
  shows "\<exists>q response upstream mock. normalizeRequest request = Inr q
    \<and> receipt = makeReceipt sha256 p q response upstream mock"
  using assms by (auto simp: Execute_def executeMock_def Let_def split: prod.splits option.splits if_splits)

lemma noRaw_evmState [simp]: "noRaw (evmState_json p q r)"
  by (simp add: evmState_json_def)

lemma evmState_json_inj [simp]: "evmState_json p q r = evmState_json p' q' r' \<longleftrightarrow> p = p' \<and> q = q' \<and> r = r'"
  by (auto simp: evmState_json_def)



section \<open>Transport\<close>

lemma wireRaw_simps:
  "wireRaw [] = ''null''" "s \<noteq> [] \<Longrightarrow> wireRaw s = compactText False s"
  by (simp_all add: wireRaw_def)

lemma wireRaw_text [simp]: "noRaw v \<Longrightarrow> wireRaw (jsonText v) = jsonText v"
  using compactText_text[of v "[]"] jclass_jsonText[of v] by (simp add: wireRaw_def)

lemma normalizeRequest_params:
  assumes "er_Params request \<noteq> []"
  shows "normalizeRequest request =
    (if json_Valid (er_Params request)
     then Inr (request\<lparr>er_Method := (if TrimSpace (er_Method request) = [] then ''eth_chainId'' else TrimSpace (er_Method request))\<rparr>)
     else Inl ParamsInvalid)"
  using assms by (simp add: normalizeRequest_def Let_def)

lemma json_Valid_nonempty: "json_Valid s \<Longrightarrow> skipWs s \<noteq> []"
  by (auto simp: json_Valid_def parseJson_def Let_def split: option.splits list.splits if_splits)

lemma compactText_nonempty: "skipWs s \<noteq> [] \<Longrightarrow> compactText False s \<noteq> []"
  by (induction s) auto

text \<open>The request hash is taken over the printed request, so compaction does not change it.\<close>

lemma request_json_wire:
  assumes "er_Params q = compactText False s" "s \<noteq> []" "compactText False s \<noteq> []"
  shows "jsonText (evmRequest_json q) = jsonText (evmRequest_json (q\<lparr>er_Params := s\<rparr>))"
  using assms by (simp add: evmRequest_json_def)

text \<open>
  C23: A receipt and its transport. Blocks travel as JSON, which compacts raw messages, but the
  response hash of a receipt is taken over the bytes the endpoint sent. A peer that receives the
  request and the receipt accepts the receipt exactly when the compacted response hashes to the same
  value as the original one. Receipts of the mock always survive; a response with white space between
  its tokens, or with one of the characters that the encoder escapes, is rejected by every peer
  unless SHA-256 collides.
\<close>

theorem evm_receipt_transport:
  assumes "Execute sha256 post decodeRPC url p request = Inr receipt"
    and "er_Params request \<noteq> []" "json_Valid (wireRaw (er_Params request))"
  shows "(VerifyReceipt sha256 p (wireRequest request) (wireReceipt receipt) = Inr () \<longleftrightarrow>
      HashBytes sha256 (bytes_of (wireRaw (ev_Response receipt))) = HashBytes sha256 (bytes_of (ev_Response receipt)))
    \<and> (url = [] \<longrightarrow> VerifyReceipt sha256 p (wireRequest request) (wireReceipt receipt) = Inr ())"
proof -
  obtain q response upstream mock where q: "normalizeRequest request = Inr q"
      and receipt: "receipt = makeReceipt sha256 p q response upstream mock"
    using Execute_makes[OF assms(1)] by blast
  let ?s = "er_Params request"
  have valid: "json_Valid ?s" and qs: "er_Params q = ?s" using q assms(2) by (auto simp: normalizeRequest_params split: if_splits)
  have ne: "compactText False ?s \<noteq> []" using json_Valid_nonempty[OF valid] compactText_nonempty by blast
  have wire: "er_Params (wireRequest request) = compactText False ?s" "er_Params (wireRequest request) \<noteq> []"
    using assms(2) ne by (simp_all add: wireRequest_def wireRaw_simps)
  have q': "normalizeRequest (wireRequest request) = Inr (q\<lparr>er_Params := compactText False ?s\<rparr>)"
    using q wire assms(2,3) valid by (auto simp: normalizeRequest_params wireRequest_def wireRaw_simps)
  have "q\<lparr>er_Params := ?s\<rparr> = q" using qs by (cases q) simp
  then have "HashJSON sha256 (evmRequest_json (q\<lparr>er_Params := compactText False ?s\<rparr>)) = HashJSON sha256 (evmRequest_json q)"
    using request_json_wire[of "q\<lparr>er_Params := compactText False ?s\<rparr>" ?s, OF _ assms(2) ne]
    unfolding HashJSON_def json_marshal_def by (metis EVMRequest.select_convs(2) EVMRequest.update_convs(2) EVMRequest.surjective)
  then have iff: "VerifyReceipt sha256 p (wireRequest request) (wireReceipt receipt) = Inr () \<longleftrightarrow>
      HashBytes sha256 (bytes_of (wireRaw (ev_Response receipt))) = HashBytes sha256 (bytes_of (ev_Response receipt))"
    by (auto simp: VerifyReceipt_ok q' receipt wireReceipt_def)
  have "url = [] \<Longrightarrow> wireRaw (ev_Response receipt) = ev_Response receipt"
    using assms(1) q by (auto simp: Execute_def executeMock_def Let_def simp del: jsonText.simps)
  with iff show ?thesis by simp
qed

theorem evm_receipt_transport_witness:
  "VerifyReceipt (copyN 32) GenesisHash (wireRequest \<lparr>er_Method = ''eth_call'', er_Params = ''[]''\<rparr>)
     (wireReceipt (makeReceipt (copyN 32) GenesisHash \<lparr>er_Method = ''eth_call'', er_Params = ''[]''\<rparr> ''[ ]'' ''http://x'' False))
   \<noteq> Inr ()"
proof -
  have valid: "json_Valid ''[]''" using json_Valid_text[of "JArr []"] by simp
  let ?q = "\<lparr>er_Method = ''eth_call'', er_Params = ''[]''\<rparr>"
  let ?r = "makeReceipt (copyN 32) GenesisHash ?q ''[ ]'' ''http://x'' False"
  have "Execute (copyN 32) (\<lambda>_ _. Some (200, [])) (\<lambda>_. Some (''[ ]'', None)) ''http://x'' GenesisHash ?q = Inr ?r"
    using valid by (simp add: Execute_def normalizeRequest_def TrimSpace_def isSpaceC_def Let_def)
  from evm_receipt_transport[OF this] valid
  have "VerifyReceipt (copyN 32) GenesisHash (wireRequest ?q) (wireReceipt ?r) = Inr () \<longleftrightarrow>
      HashBytes (copyN 32) (bytes_of ''[]'') = HashBytes (copyN 32) (bytes_of ''[ ]'')"
    by (simp add: wireRaw_def char_eq_of_char)
  then show ?thesis by (simp add: HashBytes_eq_iff copyN_def)
qed

end
