(* ===== verification/HotStuff.thy ===== *)
theory HotStuff
  imports Protocol
begin

text \<open>
  The consensus core (\<open>internal/hotstuff/hotstuff.go\<close>): validator sets, vote verification, quorum
  certificates and the replica's two handlers. A replica is protected by one mutex, so a handler
  is one step that returns the new replica with its result; the state it reaches before an error
  is kept, as in the code.

  The block validator is a callback into the node that owns the replica. It is threaded as a
  function on the node's state \<open>'n\<close>; a nil callback is \<^const>\<open>None\<close>.
\<close>

datatype 'e hs_error =
    TooFewValidators
  | InvalidValidator string
  | UnknownVoter string
  | BadSignatureEncoding
  | InvalidVoteSignature
  | VoteSubjectMismatch
  | VoteFrom string "'e hs_error"
  | DuplicateVote string
  | NotEnoughVotes nat nat
  | NotInValidatorSet string
  | InvalidPrivateKey
  | ConflictsWithLock
  | InvalidQC "'e hs_error"
  | QCNotForBlock
  | CommitNotExtending
  | UnsupportedQCPhase string
  | UnexpectedHeight u64 u64
  | ParentMismatch string string
  | BlockInvalid 'e
  | DoubleVote u64 string

section \<open>Validator sets and certificates\<close>

record ValidatorSet =
  vs_keys :: "string \<rightharpoonup> bytes"
  vs_ids :: "string list"

text \<open>The argument lists the entries of the Go map in the order of its iteration.\<close>

definition NewValidatorSet :: "(string \<times> bytes) list \<Rightarrow> 'e hs_error + ValidatorSet" where
  "NewValidatorSet keys =
     (if length keys < 4 then Inl TooFewValidators
      else bindE (forE (\<lambda>(nodeID, key). if nodeID = [] \<or> length key \<noteq> 32 then Inl (InvalidValidator nodeID) else Inr ()) keys)
        (\<lambda>_. Inr \<lparr>vs_keys = map_of keys, vs_ids = sort (map fst keys)\<rparr>))"

definition VS_Len :: "ValidatorSet \<Rightarrow> nat" where
  "VS_Len s = length (vs_ids s)"

definition Quorum :: "ValidatorSet \<Rightarrow> nat" where
  "Quorum s = (2 * VS_Len s) div 3 + 1"

definition PublicKey :: "ValidatorSet \<Rightarrow> string \<Rightarrow> bytes option" where
  "PublicKey s voterID = vs_keys s voterID"

definition VerifyVote :: "crypto \<Rightarrow> ValidatorSet \<Rightarrow> Vote \<Rightarrow> 'e hs_error + unit" where
  "VerifyVote cr s vote =
     (case vs_keys s (vt_VoterID vote) of
        None \<Rightarrow> Inl (UnknownVoter (vt_VoterID vote))
      | Some key \<Rightarrow>
          (case DecodeString (vt_Signature vote) of
             None \<Rightarrow> Inl BadSignatureEncoding
           | Some sig \<Rightarrow>
               if \<not> cr_verify cr key (VoteSigningBytes (vt_Phase vote) (vt_Height vote) (vt_BlockHash vote)) sig
               then Inl InvalidVoteSignature
               else Inr ()))"

text \<open>
  The loop of \<open>MakeQC\<close>. The Go map \<open>unique\<close> is the list of its values; its iteration order does
  not matter because the votes are sorted by voter afterwards and no voter occurs twice.
\<close>

fun uniqueVotes ::
  "crypto \<Rightarrow> ValidatorSet \<Rightarrow> Phase \<Rightarrow> u64 \<Rightarrow> string \<Rightarrow> Vote list \<Rightarrow> Vote list \<Rightarrow> 'e hs_error + Vote list" where
  "uniqueVotes cr s phase height blockHash [] unique = Inr unique"
| "uniqueVotes cr s phase height blockHash (vote # votes) unique =
     (if vt_Phase vote \<noteq> phase \<or> vt_Height vote \<noteq> height \<or> vt_BlockHash vote \<noteq> blockHash then Inl VoteSubjectMismatch
      else bindE (mapErr (VoteFrom (vt_VoterID vote)) (VerifyVote cr s vote)) (\<lambda>_.
        if vt_VoterID vote \<in> vt_VoterID ` set unique then Inl (DuplicateVote (vt_VoterID vote))
        else uniqueVotes cr s phase height blockHash votes (unique @ [vote])))"

definition MakeQC ::
  "crypto \<Rightarrow> ValidatorSet \<Rightarrow> Phase \<Rightarrow> u64 \<Rightarrow> string \<Rightarrow> Vote list \<Rightarrow> 'e hs_error + QuorumCertificate" where
  "MakeQC cr s phase height blockHash votes =
     bindE (uniqueVotes cr s phase height blockHash votes []) (\<lambda>unique.
       if length unique < Quorum s then Inl (NotEnoughVotes (length unique) (Quorum s))
       else Inr \<lparr>qc_Phase = phase, qc_Height = height, qc_BlockHash = blockHash,
                 qc_Votes = sortSlice vt_VoterID unique\<rparr>)"

definition VerifyQC :: "crypto \<Rightarrow> ValidatorSet \<Rightarrow> QuorumCertificate \<Rightarrow> 'e hs_error + unit" where
  "VerifyQC cr s qc =
     bindE (MakeQC cr s (qc_Phase qc) (qc_Height qc) (qc_BlockHash qc) (qc_Votes qc)) (\<lambda>_. Inr ())"

section \<open>The replica\<close>

record Replica =
  rp_id :: string
  rp_privateKey :: bytes
  rp_validators :: ValidatorSet
  rp_height :: u64
  rp_tipHash :: string
  rp_blocks :: "Block list"
  rp_pending :: "string \<rightharpoonup> Block"
  rp_voted :: "u64 \<rightharpoonup> Phase \<rightharpoonup> string"
  rp_lockedHeight :: u64
  rp_lockedHash :: string

type_synonym ('n, 'e) BlockValidator = "('n \<Rightarrow> Block \<Rightarrow> 'n \<times> ('e + unit)) option"

definition NewReplica :: "string \<Rightarrow> bytes \<Rightarrow> ValidatorSet \<Rightarrow> 'e hs_error + Replica" where
  "NewReplica nodeID privateKey validators =
     (if vs_keys validators nodeID = None then Inl (NotInValidatorSet nodeID)
      else if length privateKey \<noteq> 64 then Inl InvalidPrivateKey
      else Inr \<lparr>rp_id = nodeID, rp_privateKey = privateKey, rp_validators = validators, rp_height = 0,
                rp_tipHash = GenesisHash, rp_blocks = [], rp_pending = Map.empty, rp_voted = Map.empty,
                rp_lockedHeight = 0, rp_lockedHash = []\<rparr>)"

definition HeightAndTip :: "Replica \<Rightarrow> u64 \<times> string" where
  "HeightAndTip r = (rp_height r, rp_tipHash r)"

definition validateBlockLocked ::
  "crypto \<Rightarrow> ('n, 'e) BlockValidator \<Rightarrow> 'n \<Rightarrow> Replica \<Rightarrow> Block \<Rightarrow> 'n \<times> ('e hs_error + unit)" where
  "validateBlockLocked cr validate n r block =
     (let hash = Block_Hash (cr_sha256 cr) block; header = bl_Header block in
      if bh_Height header = rp_height r \<and> hash = rp_tipHash r then (n, Inr ())
      else if bh_Height header \<noteq> rp_height r + 1 then (n, Inl (UnexpectedHeight (bh_Height header) (rp_height r + 1)))
      else if bh_ParentHash header \<noteq> rp_tipHash r then (n, Inl (ParentMismatch (bh_ParentHash header) (rp_tipHash r)))
      else case validate of
             None \<Rightarrow> (n, Inr ())
           | Some v \<Rightarrow> (case v n block of (n', verdict) \<Rightarrow> (n', mapErr BlockInvalid verdict)))"

definition voteLocked :: "crypto \<Rightarrow> Replica \<Rightarrow> Phase \<Rightarrow> u64 \<Rightarrow> string \<Rightarrow> Replica \<times> ('e hs_error + Vote)" where
  "voteLocked cr r phase height blockHash =
     (let inner = (case rp_voted r height of None \<Rightarrow> Map.empty | Some m \<Rightarrow> m);
          r = r\<lparr>rp_voted := (rp_voted r)(height \<mapsto> inner)\<rparr>;
          previous = (case inner phase of None \<Rightarrow> [] | Some h \<Rightarrow> h)
      in if previous \<noteq> [] \<and> previous \<noteq> blockHash then (r, Inl (DoubleVote height phase))
         else
           let sig = cr_sign cr (rp_privateKey r) (VoteSigningBytes phase height blockHash)
           in (r\<lparr>rp_voted := (rp_voted r)(height \<mapsto> inner(phase \<mapsto> blockHash))\<rparr>,
               Inr \<lparr>vt_Phase = phase, vt_Height = height, vt_BlockHash = blockHash, vt_VoterID = rp_id r,
                    vt_Signature = EncodeToString sig\<rparr>))"

definition OnProposal ::
  "crypto \<Rightarrow> ('n, 'e) BlockValidator \<Rightarrow> 'n \<Rightarrow> Replica \<Rightarrow> Block \<Rightarrow> 'n \<times> Replica \<times> ('e hs_error + Vote)" where
  "OnProposal cr validate n r block =
     (case validateBlockLocked cr validate n r block of
        (n', Inl e) \<Rightarrow> (n', r, Inl e)
      | (n', Inr _) \<Rightarrow>
          let hash = Block_Hash (cr_sha256 cr) block; height = bh_Height (bl_Header block) in
          if rp_lockedHeight r = height \<and> rp_lockedHash r \<noteq> [] \<and> rp_lockedHash r \<noteq> hash
          then (n', r, Inl ConflictsWithLock)
          else (n', voteLocked cr (r\<lparr>rp_pending := (rp_pending r)(hash \<mapsto> block)\<rparr>) PhasePrepare height hash))"

text \<open>The case distinction on the certificate's phase at the end of \<open>OnQC\<close>.\<close>

definition onPhase ::
  "crypto \<Rightarrow> Replica \<Rightarrow> Block \<Rightarrow> QuorumCertificate \<Rightarrow> string \<Rightarrow> Replica \<times> ('e hs_error + (Vote option \<times> bool))" where
  "onPhase cr r block qc hash =
     (let withVote = (\<lambda>(r', v). (r', bindE v (\<lambda>vote. Inr (Some vote, False)))) in
      if qc_Phase qc = PhasePrepare then withVote (voteLocked cr r PhasePreCommit (qc_Height qc) hash)
      else if qc_Phase qc = PhasePreCommit then
        withVote (voteLocked cr (r\<lparr>rp_lockedHeight := qc_Height qc, rp_lockedHash := hash\<rparr>) PhaseCommit (qc_Height qc) hash)
      else if qc_Phase qc = PhaseCommit then
        (if rp_height r = bh_Height (bl_Header block) \<and> rp_tipHash r = hash then (r, Inr (None, True))
         else if bh_Height (bl_Header block) \<noteq> rp_height r + 1 \<or> bh_ParentHash (bl_Header block) \<noteq> rp_tipHash r
           then (r, Inl CommitNotExtending)
         else (r\<lparr>rp_blocks := rp_blocks r @ [block], rp_height := bh_Height (bl_Header block), rp_tipHash := hash,
                 rp_pending := (rp_pending r)(hash := None)\<rparr>, Inr (None, True)))
      else (r, Inl (UnsupportedQCPhase (qc_Phase qc))))"

definition OnQC ::
  "crypto \<Rightarrow> ('n, 'e) BlockValidator \<Rightarrow> 'n \<Rightarrow> Replica \<Rightarrow> Block \<Rightarrow> QuorumCertificate
     \<Rightarrow> 'n \<times> Replica \<times> ('e hs_error + (Vote option \<times> bool))" where
  "OnQC cr validate n r block qc =
     (case VerifyQC cr (rp_validators r) qc of
        Inl e \<Rightarrow> (n, r, Inl (InvalidQC e))
      | Inr _ \<Rightarrow>
          let hash = Block_Hash (cr_sha256 cr) block in
          if qc_BlockHash qc \<noteq> hash \<or> qc_Height qc \<noteq> bh_Height (bl_Header block) then (n, r, Inl QCNotForBlock)
          else
            (case validateBlockLocked cr validate n r block of
               (n', Inl e) \<Rightarrow> (n', r, Inl e)
             | (n', Inr _) \<Rightarrow> (n', onPhase cr (r\<lparr>rp_pending := (rp_pending r)(hash \<mapsto> block)\<rparr>) block qc hash)))"

end
