(* ===== verification/Node.thy ===== *)
theory Node
  imports Miner Engine_Laws Evm HotStuff
begin

text \<open>
  The validator node (\<open>internal/node/node.go\<close>): its configuration, the validation of blocks with its
  caches, and the two consensus handlers, which call the replica of \<open>internal/hotstuff\<close> with the
  node's validation as callback.

  What the node takes from outside is the record \<open>env\<close>: the cryptographic functions, the decoder of
  AISeal proofs, the Groth16 verifier, the execution engine, the parser of time stamps (in nanoseconds
  since 1970) and whether the file system accepts writes. The clock is an argument. A validation that
  does not return, because sampling never ends, or that panics is the error value \<open>ValidationStuck\<close>;
  the locks make the handlers of one node run one after the other.
\<close>

section \<open>State\<close>

record 'x env =
  nv_crypto :: crypto
  nv_blake3 :: "bytes \<Rightarrow> bytes"
  nv_unmarshalProof :: "bytes \<Rightarrow> Proof option"
  nv_groth16 :: groth16
  nv_engine :: "'x engine"
  nv_parseTime :: "string \<Rightarrow> int option"
  nv_osOK :: bool

abbreviation nv_sha256 :: "'x env \<Rightarrow> bytes \<Rightarrow> bytes" where
  "nv_sha256 v \<equiv> cr_sha256 (nv_crypto v)"

record 'x Config =
  cf_ID :: string
  cf_PrivateKey :: bytes
  cf_Validators :: "ValidatorSet option"
  cf_Peers :: "(string \<times> string) list"
  cf_Miners :: "(string \<times> string) list"
  cf_Difficulty :: u8
  cf_ManifestRoot :: string
  cf_AISealManifest :: "Manifest option"
  cf_AISealTarget :: string
  cf_MinPoWSamples :: int
  cf_MinTensorSamples :: int
  cf_EVMURL :: string
  cf_ExecutionEngine :: 'x
  cf_ObjectStore :: "Store option"
  cf_AIRunner :: "Runner option"
  cf_ZKMLVerifier :: "string option"
  cf_MinZKMLProofs :: int

record 'x Node =
  nd_id :: string
  nd_privateKey :: bytes
  nd_validators :: ValidatorSet
  nd_difficulty :: u8
  nd_manifestRoot :: string
  nd_aiSealManifest :: "Manifest option"
  nd_aiSealTarget :: string
  nd_minPoWSamples :: int
  nd_minTensorSamples :: int
  nd_runner :: Runner
  nd_zkmlVerifier :: "string option"
  nd_minZKMLProofs :: int
  nd_evm :: string
  nd_execution :: 'x
  nd_objectStore :: Store
  nd_replica :: Replica
  nd_peers :: "(string \<times> string) list"
  nd_miners :: "(string \<times> string) list"
  nd_validatedExecution :: "string set"
  nd_validatedBlocks :: "string set"
  nd_validatedZKML :: "string set"

text \<open>Errors, by the function that returns them.\<close>

datatype competition_error =
    DuplicateSeal string
  | SealCountMismatch
  | UnexpectedSeals
  | DuplicateTicket string
  | TicketNotValidator string
  | TicketChallengeMismatch string
  | TicketResultMismatch string
  | TicketPolicyMismatch string
  | MissingSeal string
  | SealContentMismatch string
  | SealInvalid string seal_error
  | ValidationStuck string
  | SealUnexpected seal_error
  | SealTicketMismatch string
  | DummyProofMismatch string
  | TicketInvalid aipow_error
  | TicketSignature string

datatype certificate_error =
    CertificateHashMismatch
  | AttestationQuorum nat nat
  | AttestationCount
  | DuplicateZKML string
  | UnexpectedZKML
  | ZKMLQuorum nat int
  | ZKMLCount
  | DuplicateAttestation string
  | AttestationNotValidator string
  | AttestationNoTicket string
  | AttestationBinding string
  | AttestationSignature string
  | AttestationZKMLBinding string
  | UnexpectedZKMLCommitment string
  | MissingZKML string
  | ZKMLHashMismatch string
  | ZKMLStatementMismatch string
  | ZKMLInvalid string zkml_error

datatype result_error =
    ResultJob job_error
  | ResultRun aipow_error
  | InputCommitmentMismatch
  | OutputCommitmentMismatch
  | DigestMismatch
  | SchemeMissing

datatype node_error =
    NodeConfigRequired
  | NodeManifest manifest_error
  | BadMinZKML
  | NodeReplica
  | BlockVersion u32
  | BlockResult result_error
  | AIReceiptRootMismatch
  | BadBlockTime
  | BlockTimeInFuture
  | BlockEvm evm_error
  | EVMReceiptRootMismatch
  | ExecutionCommitmentMismatch
  | BlockEnvelope engine_error
  | ExecutionTimeMismatch
  | PayloadRejected engine_error
  | RootMismatch string
  | NotEnoughTickets nat nat
  | BlockCompetition competition_error
  | BlockCertificate certificate_error
  | WinnerMismatch
  | ProposerNotWinner

definition require :: "bool \<Rightarrow> 'e \<Rightarrow> 'e + unit" where
  "require b e = (if b then Inr () else Inl e)"

lemma require_eq_Inr [simp]: "require b e = Inr u \<longleftrightarrow> b"
  by (simp add: require_def)

definition equalHash :: "string \<Rightarrow> string \<Rightarrow> bool" where
  "equalHash a b = EqualFold (TrimPrefix a ''0x'') (TrimPrefix b ''0x'')"

section \<open>Construction\<close>

definition Node_New :: "'x env \<Rightarrow> 'x Config \<Rightarrow> node_error + 'x Node" where
  "Node_New v cfg =
     (if cf_ID cfg = [] \<or> cf_Validators cfg = None then Inl NodeConfigRequired
      else
        let validators = the (cf_Validators cfg) in
        bindE (case cf_AISealManifest cfg of
                 None \<Rightarrow> Inr (cf_ManifestRoot cfg)
               | Some m \<Rightarrow> bindE (mapErr NodeManifest (ValidateManifest (nv_blake3 v) m)) (\<lambda>_. Inr (man_ManifestRoot m)))
        (\<lambda>manifestRoot.
        let objectStore = (case cf_ObjectStore cfg of
              Some s \<Rightarrow> s
            | None \<Rightarrow> \<lparr>st_objects = Map.empty, st_dir = [], st_maxBytes = 33554432, st_disk = Map.empty\<rparr>);
            runner = (case cf_AIRunner cfg of Some r \<Rightarrow> r | None \<Rightarrow> DummyRunner manifestRoot);
            minZKML = (if cf_ZKMLVerifier cfg \<noteq> None \<and> cf_MinZKMLProofs cfg = 0 then int (Quorum validators)
                       else cf_MinZKMLProofs cfg)
        in if minZKML < 0 \<or> minZKML > int (VS_Len validators) then Inl BadMinZKML
           else bindE (mapErr (\<lambda>_ :: unit hs_error. NodeReplica) (NewReplica (cf_ID cfg) (cf_PrivateKey cfg) validators))
             (\<lambda>replica. Inr
               \<lparr>nd_id = cf_ID cfg, nd_privateKey = cf_PrivateKey cfg, nd_validators = validators,
                nd_difficulty = cf_Difficulty cfg, nd_manifestRoot = manifestRoot, nd_aiSealManifest = cf_AISealManifest cfg,
                nd_aiSealTarget = cf_AISealTarget cfg, nd_minPoWSamples = cf_MinPoWSamples cfg,
                nd_minTensorSamples = cf_MinTensorSamples cfg, nd_runner = runner, nd_zkmlVerifier = cf_ZKMLVerifier cfg,
                nd_minZKMLProofs = minZKML, nd_evm = NewClient (cf_EVMURL cfg), nd_execution = cf_ExecutionEngine cfg,
                nd_objectStore = objectStore, nd_replica = replica, nd_peers = cf_Peers cfg, nd_miners = cf_Miners cfg,
                nd_validatedExecution = {}, nd_validatedBlocks = {}, nd_validatedZKML = {}\<rparr>)))"

definition DevnetPrivateKey :: "crypto \<Rightarrow> string \<Rightarrow> bytes" where
  "DevnetPrivateKey cr nodeID =
     cr_keyFromSeed cr (copy32 (cr_sha256 cr (bytes_of (''AIDCHAIN_INSECURE_DEVNET_KEY_V1|'' @ nodeID))))"

text \<open>The Go maps of keys are association lists; an identifier that is listed twice has the same key both times.\<close>

definition DevnetValidatorSet ::
  "crypto \<Rightarrow> string list \<Rightarrow> (unit hs_error + ValidatorSet) \<times> (string \<times> bytes) list" where
  "DevnetValidatorSet cr ids =
     (let keys = map (\<lambda>nodeID. (nodeID, DevnetPrivateKey cr nodeID)) (remdups ids);
          pubs = map (\<lambda>(nodeID, private). (nodeID, cr_public cr private)) keys
      in (NewValidatorSet pubs, keys))"

definition SetPeers :: "'x Node \<Rightarrow> (string \<times> string) list \<Rightarrow> 'x Node" where
  "SetPeers n peers = n\<lparr>nd_peers := peers\<rparr>"

definition SetMiners :: "'x Node \<Rightarrow> (string \<times> string) list \<Rightarrow> 'x Node" where
  "SetMiners n miners = n\<lparr>nd_miners := miners\<rparr>"

definition Node_Status :: "'x env \<Rightarrow> 'x Node \<Rightarrow> Status" where
  "Node_Status v n =
     (let (height, tip) = HeightAndTip (nd_replica n) in
      \<lparr>sts_NodeID = nd_id n, sts_Height = height, sts_TipHash = tip,
       sts_ExecutionHead = en_Head (nv_engine v) (nd_execution n),
       sts_ValidatorNum = VS_Len (nd_validators n), sts_Quorum = Quorum (nd_validators n)\<rparr>)"

section \<open>Results\<close>

definition validateResultCommitment :: "'x env \<Rightarrow> 'x Node \<Rightarrow> AIJob \<Rightarrow> AIResult \<Rightarrow> result_error + unit" where
  "validateResultCommitment v n job result =
     (let sha256 = nv_sha256 v;
          wantDigest = HashJSON sha256 (aiReceipt_json (aj_ID job) (ar_ModelHash result) (ar_InputHash result)
            (ar_OutputHash result) (nd_manifestRoot n))
      in if ar_JobID result \<noteq> aj_ID job \<or> ar_ModelHash result \<noteq> HashBytes sha256 (bytes_of (aj_Model job))
            \<or> ar_InputHash result \<noteq> HashBytes sha256 (bytes_of (aj_Prompt job)) then Inl InputCommitmentMismatch
         else if ar_Output result = [] \<or> ar_OutputHash result \<noteq> HashBytes sha256 (bytes_of (ar_Output result))
           then Inl OutputCommitmentMismatch
         else if ar_AIDigest result \<noteq> wantDigest then Inl DigestMismatch
         else if nd_zkmlVerifier n \<noteq> None \<and> ar_ProofScheme result \<noteq> Scheme then Inl SchemeMissing
         else Inr ())"

text \<open>Re-execution without a zkML verifier, the commitments with one; \<open>validateBlock\<close>, \<open>Propose\<close> and \<open>RunRound\<close> share this test.\<close>

definition validateResult :: "'x env \<Rightarrow> 'x Node \<Rightarrow> AIJob \<Rightarrow> AIResult \<Rightarrow> result_error + unit" where
  "validateResult v n job result =
     (if nd_zkmlVerifier n = None then mapErr ResultRun (Runner_Verify (nv_sha256 v) (nd_runner n) job result)
      else validateResultCommitment v n job result)"

section \<open>The competition\<close>

text \<open>A slice indexed by a key; a later entry replaces an earlier one.\<close>

definition byKey :: "('a \<Rightarrow> string) \<Rightarrow> 'a list \<Rightarrow> (string \<rightharpoonup> 'a)" where
  "byKey k xs = map_of (rev (map (\<lambda>x. (k x, x)) xs))"

text \<open>The first entry whose key was seen before.\<close>

fun firstDuplicate :: "('a \<Rightarrow> string) \<Rightarrow> string set \<Rightarrow> 'a list \<Rightarrow> 'a option" where
  "firstDuplicate k seen [] = None"
| "firstDuplicate k seen (x # xs) = (if k x \<in> seen then Some x else firstDuplicate k (insert (k x) seen) xs)"

definition verifySeal ::
  "'x env \<Rightarrow> 'x Node \<Rightarrow> Manifest \<Rightarrow> u64 \<Rightarrow> string \<Rightarrow> (string \<rightharpoonup> AIProofBundle) \<Rightarrow> PoWTicket \<Rightarrow> competition_error + unit" where
  "verifySeal v n manifest height parentHash proofByMiner ticket =
     (case proofByMiner (tk_MinerID ticket) of
        None \<Rightarrow> Inl (MissingSeal (tk_MinerID ticket))
      | Some bundle \<Rightarrow>
          if ab_ContentHash bundle \<noteq> HashBytes (nv_sha256 v) (bytes_of (ab_Proof bundle))
              \<or> \<not> equalHash (ab_ProofHash bundle) (tk_AIProofHash ticket)
          then Inl (SealContentMismatch (tk_MinerID ticket))
          else
            (case VerifyBytes (nv_blake3 v) (nv_unmarshalProof v) manifest (bytes_of (ab_Proof bundle)) (nd_aiSealTarget n) DefaultLimits of
               None \<Rightarrow> Inl (ValidationStuck (tk_MinerID ticket))
             | Some (Inl e) \<Rightarrow> Inl (SealInvalid (tk_MinerID ticket) e)
             | Some (Inr (verification, proof)) \<Rightarrow>
                 bindE (mapErr SealUnexpected (VerifyExpected proof verification
                     \<lparr>exp_BlockHash = parentHash, exp_Miner = tk_MinerID ticket, exp_Epoch = height,
                      exp_ManifestRoot = nd_manifestRoot n, exp_MinPoWSamples = nd_minPoWSamples n,
                      exp_MinTensorSamples = nd_minTensorSamples n\<rparr>)) (\<lambda>_.
                   require (equalHash (vr_ProofHash verification) (tk_AIProofHash ticket)
                       \<and> equalHash (vr_AIDigest verification) (tk_AIDigest ticket))
                     (SealTicketMismatch (tk_MinerID ticket)))))"

text \<open>The body of the loop over the tickets, after the duplicate test.\<close>

definition checkTicket ::
  "'x env \<Rightarrow> 'x Node \<Rightarrow> u64 \<Rightarrow> string \<Rightarrow> AIJob \<Rightarrow> AIResult \<Rightarrow> (string \<rightharpoonup> AIProofBundle) \<Rightarrow> PoWTicket \<Rightarrow> competition_error + unit" where
  "checkTicket v n height parentHash job result proofByMiner ticket =
     (let sha256 = nv_sha256 v; miner = tk_MinerID ticket in
      case PublicKey (nd_validators n) miner of
        None \<Rightarrow> Inl (TicketNotValidator miner)
      | Some publicKey \<Rightarrow>
          if tk_Height ticket \<noteq> height \<or> tk_ParentHash ticket \<noteq> parentHash \<or> tk_JobID ticket \<noteq> aj_ID job
            then Inl (TicketChallengeMismatch miner)
          else if tk_ResultHash ticket \<noteq> HashJSON sha256 (result_json result) then Inl (TicketResultMismatch miner)
          else if tk_Difficulty ticket \<noteq> nd_difficulty n \<or> tk_ManifestRoot ticket \<noteq> nd_manifestRoot n
            then Inl (TicketPolicyMismatch miner)
          else
            bindE (case nd_aiSealManifest n of
                     Some manifest \<Rightarrow> verifySeal v n manifest height parentHash proofByMiner ticket
                   | None \<Rightarrow> require (tk_AIDigest ticket = ar_AIDigest result \<and> tk_AIProofHash ticket = ar_AIDigest result)
                       (DummyProofMismatch miner)) (\<lambda>_.
            bindE (mapErr TicketInvalid (Ticket_Verify sha256 ticket)) (\<lambda>_.
              case DecodeString (tk_Signature ticket) of
                None \<Rightarrow> Inl (TicketSignature miner)
              | Some signature \<Rightarrow>
                  require (cr_verify (nv_crypto v) publicKey (TicketSigningBytes ticket) signature) (TicketSignature miner))))"

fun checkTickets ::
  "(PoWTicket \<Rightarrow> competition_error + unit) \<Rightarrow> string set \<Rightarrow> PoWTicket list \<Rightarrow> competition_error + unit" where
  "checkTickets check seen [] = Inr ()"
| "checkTickets check seen (ticket # tickets) =
     (if tk_MinerID ticket \<in> seen then Inl (DuplicateTicket (tk_MinerID ticket))
      else bindE (check ticket) (\<lambda>_. checkTickets check (insert (tk_MinerID ticket) seen) tickets))"

definition validateCompetition ::
  "'x env \<Rightarrow> 'x Node \<Rightarrow> u64 \<Rightarrow> string \<Rightarrow> AIJob \<Rightarrow> AIResult \<Rightarrow> PoWTicket list \<Rightarrow> AIProofBundle list
     \<Rightarrow> competition_error + PoWTicket" where
  "validateCompetition v n height parentHash job result tickets proofs =
     (case firstDuplicate ab_MinerID {} proofs of
        Some proof \<Rightarrow> Inl (DuplicateSeal (ab_MinerID proof))
      | None \<Rightarrow>
          if nd_aiSealManifest n \<noteq> None \<and> length proofs \<noteq> length tickets then Inl SealCountMismatch
          else if nd_aiSealManifest n = None \<and> length proofs \<noteq> 0 then Inl UnexpectedSeals
          else
            bindE (checkTickets (checkTicket v n height parentHash job result (byKey ab_MinerID proofs)) {} tickets) (\<lambda>_.
              mapErr TicketInvalid (SelectWinner (nv_sha256 v) tickets)))"

section \<open>The result certificate\<close>

definition proofOf :: "ZKMLProofBundle \<Rightarrow> ZProof" where
  "proofOf bundle =
     \<lparr>zp_Scheme = zb_Scheme bundle, zp_CircuitID = zb_CircuitID bundle, zp_ModelCommitment = zb_ModelCommitment bundle,
      zp_InputCommitment = zb_InputCommitment bundle, zp_Output = zb_Output bundle, zp_Proof = zb_Proof bundle\<rparr>"

text \<open>The zkML part of the loop body; an accepted proof is remembered by its hash.\<close>

definition checkZKML ::
  "'x env \<Rightarrow> 'x Node \<Rightarrow> string \<Rightarrow> AIJob \<Rightarrow> AIResult \<Rightarrow> (string \<rightharpoonup> ZKMLProofBundle) \<Rightarrow> InferenceAttestation
     \<Rightarrow> 'x Node \<times> (certificate_error + unit)" where
  "checkZKML v n circuitID job result proofByWorker attestation =
     (let worker = at_WorkerID attestation;
          (wantModel, wantInput, _) = StatementFor (nv_sha256 v) (g_MiMC (nv_groth16 v)) (aj_Model job) (aj_Prompt job)
      in case proofByWorker worker of
           None \<Rightarrow> (n, Inl (MissingZKML worker))
         | Some bundle \<Rightarrow>
             let proof = proofOf bundle in
             if zb_ProofHash bundle \<noteq> ProofHash (nv_sha256 v) proof \<or> zb_ProofHash bundle \<noteq> at_ZKMLProofHash attestation
               then (n, Inl (ZKMLHashMismatch worker))
             else if zp_ModelCommitment proof \<noteq> wantModel \<or> zp_InputCommitment proof \<noteq> wantInput
                 \<or> ar_Output result \<noteq> ''zkml-linear-v1:'' @ zp_Output proof then (n, Inl (ZKMLStatementMismatch worker))
             else if zb_ProofHash bundle \<in> nd_validatedZKML n then (n, Inr ())
             else
               (case zkml_Verify (nv_groth16 v) circuitID proof of
                  Inl e \<Rightarrow> (n, Inl (ZKMLInvalid worker e))
                | Inr _ \<Rightarrow> (n\<lparr>nd_validatedZKML := insert (zb_ProofHash bundle) (nd_validatedZKML n)\<rparr>, Inr ())))"

text \<open>The tests on an attestation before its zkML proof.\<close>

definition checkAttestation ::
  "'x env \<Rightarrow> 'x Node \<Rightarrow> u64 \<Rightarrow> string \<Rightarrow> AIJob \<Rightarrow> AIResult \<Rightarrow> (string \<rightharpoonup> PoWTicket) \<Rightarrow> InferenceAttestation
     \<Rightarrow> certificate_error + unit" where
  "checkAttestation v n height parentHash job result ticketByWorker attestation =
     (let worker = at_WorkerID attestation in
      case PublicKey (nd_validators n) worker of
        None \<Rightarrow> Inl (AttestationNotValidator worker)
      | Some publicKey \<Rightarrow>
          (case ticketByWorker worker of
             None \<Rightarrow> Inl (AttestationNoTicket worker)
           | Some ticket \<Rightarrow>
               if at_Height attestation \<noteq> height \<or> at_ParentHash attestation \<noteq> parentHash \<or> at_JobID attestation \<noteq> aj_ID job
                   \<or> at_ResultHash attestation \<noteq> HashJSON (nv_sha256 v) (result_json result)
                   \<or> at_ModelHash attestation \<noteq> ar_ModelHash result \<or> at_InputHash attestation \<noteq> ar_InputHash result
                   \<or> at_OutputHash attestation \<noteq> ar_OutputHash result then Inl (AttestationBinding worker)
               else
                 (case DecodeString (at_Signature attestation) of
                    None \<Rightarrow> Inl (AttestationSignature worker)
                  | Some signature \<Rightarrow>
                      if \<not> cr_verify (nv_crypto v) publicKey (InferenceSigningBytes attestation) signature
                        then Inl (AttestationSignature worker)
                      else if tk_ZKMLProofHash ticket \<noteq> at_ZKMLProofHash attestation then Inl (AttestationZKMLBinding worker)
                      else Inr ())))"

fun checkAttestations ::
  "'x env \<Rightarrow> 'x Node \<Rightarrow> u64 \<Rightarrow> string \<Rightarrow> AIJob \<Rightarrow> AIResult \<Rightarrow> (string \<rightharpoonup> PoWTicket) \<Rightarrow> (string \<rightharpoonup> ZKMLProofBundle)
     \<Rightarrow> string set \<Rightarrow> InferenceAttestation list \<Rightarrow> 'x Node \<times> (certificate_error + unit)" where
  "checkAttestations v n height parentHash job result ticketByWorker proofByWorker seen [] = (n, Inr ())"
| "checkAttestations v n height parentHash job result ticketByWorker proofByWorker seen (attestation # rest) =
     (let worker = at_WorkerID attestation in
      if worker \<in> seen then (n, Inl (DuplicateAttestation worker))
      else
        (case checkAttestation v n height parentHash job result ticketByWorker attestation of
           Inl e \<Rightarrow> (n, Inl e)
         | Inr _ \<Rightarrow>
             (case nd_zkmlVerifier n of
                None \<Rightarrow>
                  if at_ZKMLProofHash attestation \<noteq> [] then (n, Inl (UnexpectedZKMLCommitment worker))
                  else checkAttestations v n height parentHash job result ticketByWorker proofByWorker (insert worker seen) rest
              | Some circuitID \<Rightarrow>
                  (case checkZKML v n circuitID job result proofByWorker attestation of
                     (n', Inl e) \<Rightarrow> (n', Inl e)
                   | (n', Inr _) \<Rightarrow>
                       checkAttestations v n' height parentHash job result ticketByWorker proofByWorker (insert worker seen) rest))))"

definition validateResultCertificate ::
  "'x env \<Rightarrow> 'x Node \<Rightarrow> u64 \<Rightarrow> string \<Rightarrow> AIJob \<Rightarrow> AIResult \<Rightarrow> PoWTicket list \<Rightarrow> ResultCertificate \<Rightarrow> ZKMLProofBundle list
     \<Rightarrow> 'x Node \<times> (certificate_error + unit)" where
  "validateResultCertificate v n height parentHash job result tickets certificate proofs =
     (let attestations = elems (rc_Attestations certificate); quorum = Quorum (nd_validators n) in
      if rc_ResultHash certificate \<noteq> HashJSON (nv_sha256 v) (result_json result) then (n, Inl CertificateHashMismatch)
      else if length attestations < quorum then (n, Inl (AttestationQuorum (length attestations) quorum))
      else if length attestations \<noteq> length tickets then (n, Inl AttestationCount)
      else case firstDuplicate zb_WorkerID {} proofs of
        Some proof \<Rightarrow> (n, Inl (DuplicateZKML (zb_WorkerID proof)))
      | None \<Rightarrow>
          if nd_zkmlVerifier n = None \<and> length proofs \<noteq> 0 then (n, Inl UnexpectedZKML)
          else if nd_zkmlVerifier n \<noteq> None \<and> int (length proofs) < nd_minZKMLProofs n
            then (n, Inl (ZKMLQuorum (length proofs) (nd_minZKMLProofs n)))
          else if nd_zkmlVerifier n \<noteq> None \<and> length proofs \<noteq> length attestations then (n, Inl ZKMLCount)
          else checkAttestations v n height parentHash job result (byKey tk_MinerID tickets) (byKey zb_WorkerID proofs) {} attestations)"

section \<open>Blocks\<close>

definition hexInt :: "int \<Rightarrow> string" where
  "hexInt i = (if i < 0 then CHR ''-'' # hexNat (nat (- i)) else hexNat (nat i))"

text \<open>Seconds of a time stamp in nanoseconds, and the two minutes of tolerance.\<close>

definition unixSeconds :: "int \<Rightarrow> int" where "unixSeconds t = t div 1000000000"
definition timeTolerance :: int where "timeTolerance = 120000000000"

text \<open>\<open>validateBlock\<close> up to the execution payload.\<close>

definition checkContents :: "'x env \<Rightarrow> int \<Rightarrow> 'x Node \<Rightarrow> Block \<Rightarrow> node_error + unit" where
  "checkContents v now n block =
     (let header = bl_Header block; sha256 = nv_sha256 v in
      bindE (require (bh_Version header = ProtocolVersion) (BlockVersion (bh_Version header))) (\<lambda>_.
      bindE (mapErr (\<lambda>e. BlockResult (ResultJob e)) (ValidateAIJob sha256 (bl_Job block))) (\<lambda>_.
      bindE (mapErr BlockResult (validateResult v n (bl_Job block) (bl_Result block))) (\<lambda>_.
      bindE (require (bh_AIReceiptRoot header = ar_AIDigest (bl_Result block)) AIReceiptRootMismatch) (\<lambda>_.
      bindE (ofOption BadBlockTime (nv_parseTime v (bh_Timestamp header))) (\<lambda>timestamp.
      bindE (require (timestamp \<le> now + timeTolerance) BlockTimeInFuture) (\<lambda>_.
      bindE (mapErr BlockEvm (VerifyReceipt sha256 (bh_ParentHash header) (bl_EVMRequest block) (bl_EVM block))) (\<lambda>_.
      bindE (require (bh_EVMReceiptRoot header = ev_StateRoot (bl_EVM block)) EVMReceiptRootMismatch) (\<lambda>_.
      bindE (require (bh_EVMStateRoot header = ex_StateRoot (bl_Execution block)
               \<and> bh_ExecutionHash header = HashJSON sha256 (execution_json (bl_Execution block))) ExecutionCommitmentMismatch) (\<lambda>_.
      bindE (mapErr BlockEnvelope (ValidateEnvelope (bl_Execution block))) (\<lambda>_.
      require (ex_Timestamp (bl_Execution block) = ''0x'' @ hexInt (unixSeconds timestamp)) ExecutionTimeMismatch)))))))))))"

text \<open>The payload goes to the engine unless its block hash was accepted before.\<close>

definition checkExecution :: "'x env \<Rightarrow> 'x Node \<Rightarrow> Block \<Rightarrow> 'x Node \<times> (node_error + unit)" where
  "checkExecution v n block =
     (if ex_BlockHash (bl_Execution block) \<in> nd_validatedExecution n then (n, Inr ())
      else
        (case en_Validate (nv_engine v) (nd_execution n) (bl_Execution block) of
           (x, Inl e) \<Rightarrow> (n\<lparr>nd_execution := x\<rparr>, Inl (PayloadRejected e))
         | (x, Inr _) \<Rightarrow>
             (n\<lparr>nd_execution := x,
                nd_validatedExecution := insert (ex_BlockHash (bl_Execution block)) (nd_validatedExecution n)\<rparr>, Inr ())))"

definition checkRoots :: "'x env \<Rightarrow> 'x Node \<Rightarrow> Block \<Rightarrow> node_error + unit" where
  "checkRoots v n block =
     (let header = bl_Header block; sha256 = nv_sha256 v; quorum = Quorum (nd_validators n);
          tickets = elems (bl_Tickets block) in
      bindE (require (bh_TicketsRoot header = TicketsRoot sha256 tickets) (RootMismatch ''tickets'')) (\<lambda>_.
      bindE (require (bh_AIProofsRoot header = AIProofsRoot sha256 (bl_AIProofs block)) (RootMismatch ''aiProofs'')) (\<lambda>_.
      bindE (require (bh_ResultQCRoot header = ResultQCRoot sha256 (bl_ResultQC block)) (RootMismatch ''resultQC'')) (\<lambda>_.
      bindE (require (bh_ZKMLProofsRoot header = ZKMLProofsRoot sha256 (bl_ZKMLProofs block)) (RootMismatch ''zkmlProofs'')) (\<lambda>_.
      require (length tickets \<ge> quorum) (NotEnoughTickets (length tickets) quorum))))))"

text \<open>The competition, the certificate and the winner.\<close>

definition checkRound :: "'x env \<Rightarrow> 'x Node \<Rightarrow> Block \<Rightarrow> 'x Node \<times> (node_error + unit)" where
  "checkRound v n block =
     (let header = bl_Header block; sha256 = nv_sha256 v; tickets = elems (bl_Tickets block) in
      case validateCompetition v n (bh_Height header) (bh_ParentHash header) (bl_Job block) (bl_Result block) tickets (bl_AIProofs block) of
        Inl e \<Rightarrow> (n, Inl (BlockCompetition e))
      | Inr winner \<Rightarrow>
          (case validateResultCertificate v n (bh_Height header) (bh_ParentHash header) (bl_Job block) (bl_Result block) tickets
                  (bl_ResultQC block) (bl_ZKMLProofs block) of
             (n, Inl e) \<Rightarrow> (n, Inl (BlockCertificate e))
           | (n, Inr _) \<Rightarrow>
               if HashJSON sha256 (ticket_json winner) \<noteq> HashJSON sha256 (ticket_json (bl_Winner block)) then (n, Inl WinnerMismatch)
               else if tk_MinerID winner \<noteq> bh_ProposerID header then (n, Inl ProposerNotWinner)
               else (n, Inr ())))"

definition validateBlock :: "'x env \<Rightarrow> int \<Rightarrow> 'x Node \<Rightarrow> Block \<Rightarrow> 'x Node \<times> (node_error + unit)" where
  "validateBlock v now n block =
     (let blockHash = Block_Hash (nv_sha256 v) block in
      if blockHash \<in> nd_validatedBlocks n then (n, Inr ())
      else
        (case checkContents v now n block of
           Inl e \<Rightarrow> (n, Inl e)
         | Inr _ \<Rightarrow>
             (case checkExecution v n block of
                (n, Inl e) \<Rightarrow> (n, Inl e)
              | (n, Inr _) \<Rightarrow>
                  (case checkRoots v n block of
                     Inl e \<Rightarrow> (n, Inl e)
                   | Inr _ \<Rightarrow>
                       (case checkRound v n block of
                          (n, Inl e) \<Rightarrow> (n, Inl e)
                        | (n, Inr _) \<Rightarrow> (n\<lparr>nd_validatedBlocks := insert blockHash (nd_validatedBlocks n)\<rparr>, Inr ()))))))"

section \<open>Handlers\<close>

datatype handler_error =
    HandlerConsensus "node_error hs_error"
  | HandlerBlock node_error
  | HandlerFinalize engine_error
  | HandlerPersist store_error

definition Node_OnProposal :: "'x env \<Rightarrow> int \<Rightarrow> 'x Node \<Rightarrow> Block \<Rightarrow> 'x Node \<times> (handler_error + Vote)" where
  "Node_OnProposal v now n block =
     (case OnProposal (nv_crypto v) (Some (validateBlock v now)) n (nd_replica n) block of
        (n', r', res) \<Rightarrow> (n'\<lparr>nd_replica := r'\<rparr>, mapErr HandlerConsensus res))"

text \<open>The call of the replica at the end of \<open>OnQC\<close>.\<close>

definition replicaQC ::
  "'x env \<Rightarrow> int \<Rightarrow> 'x Node \<Rightarrow> Block \<Rightarrow> QuorumCertificate \<Rightarrow> 'x Node \<times> (handler_error + (Vote option \<times> bool))" where
  "replicaQC v now n block qc =
     (case OnQC (nv_crypto v) (Some (validateBlock v now)) n (nd_replica n) block qc of
        (n', r', res) \<Rightarrow> (n'\<lparr>nd_replica := r'\<rparr>, mapErr HandlerConsensus res))"

text \<open>
  On a commit certificate the node first finalizes the execution payload and stores the block, then
  tells the replica.
\<close>

definition Node_OnQC ::
  "'x env \<Rightarrow> int \<Rightarrow> 'x Node \<Rightarrow> Block \<Rightarrow> QuorumCertificate \<Rightarrow> 'x Node \<times> (handler_error + (Vote option \<times> bool))" where
  "Node_OnQC v now n block qc =
     (if qc_Phase qc = PhaseCommit \<and> \<not> equalHash (en_Head (nv_engine v) (nd_execution n)) (ex_BlockHash (bl_Execution block)) then
        (case VerifyQC (nv_crypto v) (nd_validators n) qc of
           Inl e \<Rightarrow> (n, Inl (HandlerConsensus e))
         | Inr _ \<Rightarrow>
             (case validateBlock v now n block of
                (n, Inl e) \<Rightarrow> (n, Inl (HandlerBlock e))
              | (n, Inr _) \<Rightarrow>
                  (case en_Finalize (nv_engine v) (nd_execution n) (bl_Execution block) of
                     (x, Inl e) \<Rightarrow> (n\<lparr>nd_execution := x\<rparr>, Inl (HandlerFinalize e))
                   | (x, Inr _) \<Rightarrow>
                       let n = n\<lparr>nd_execution := x\<rparr> in
                       (case Put (nv_sha256 v) (nv_osOK v) (nd_objectStore n) (json_marshal (block_json block)) of
                          (store, Inl e) \<Rightarrow> (n\<lparr>nd_objectStore := store\<rparr>, Inl (HandlerPersist e))
                        | (store, Inr _) \<Rightarrow> replicaQC v now (n\<lparr>nd_objectStore := store\<rparr>) block qc))))
      else replicaQC v now n block qc)"

definition Node_Object :: "'x env \<Rightarrow> 'x Node \<Rightarrow> string \<Rightarrow> 'x Node \<times> bytes option" where
  "Node_Object v n ident =
     (case Get (nv_sha256 v) (nd_objectStore n) ident of (store, r) \<Rightarrow> (n\<lparr>nd_objectStore := store\<rparr>, r))"

end
