(* ===== verification/Network.thy ===== *)
theory Network
  imports Node
begin

text \<open>
  A round of the chain as one node drives it (\<open>internal/node/network.go\<close>): the coordinator collects
  mining responses and hands them to the winner, the winner builds the block and collects the votes of
  the three phases.

  The HTTP exchanges are the record \<open>network\<close>: each broadcast returns the answers in the order in
  which they arrive, \<^const>\<open>None\<close> for a peer that failed. The order in which Go iterates over the map
  of results is the argument \<open>order\<close>. The handlers that run on the peers, the proposer's own among
  them, are those of the theory \<open>Node\<close>; here only what they answer matters.
\<close>

record network =
  nw_mine :: "(string \<times> string) list \<Rightarrow> MiningRequest \<Rightarrow> (string \<times> MiningResponse option) list"
  nw_propose :: "string \<Rightarrow> ProposeRequest \<Rightarrow> RoundResponse option"
  nw_proposal :: "string list \<Rightarrow> Block \<Rightarrow> Vote option list"
  nw_qc :: "string list \<Rightarrow> Block \<Rightarrow> QuorumCertificate \<Rightarrow> (Vote option \<times> bool) option list"
  nw_evmPost :: "string \<Rightarrow> bytes \<Rightarrow> (nat \<times> bytes) option"
  nw_evmDecode :: "bytes \<Rightarrow> rpcResponse option"
  nw_formatTime :: "int \<Rightarrow> string"

datatype round_error =
    RoundJob job_error
  | NotEnoughPeers nat nat
  | NotEnoughMiners nat nat
  | MiningQuorum nat nat
  | RoundResult result_error
  | RoundCompetition competition_error
  | RoundCertificate certificate_error
  | NoPeerURL string
  | WinningProposer string
  | NotSelectedProposer string string
  | RoundEvm evm_error
  | BuildPayload engine_error
  | PhaseQC Phase "unit hs_error"
  | FinalizationQuorum nat nat

section \<open>Collecting\<close>

definition zeroResult :: AIResult where
  "zeroResult = \<lparr>ar_JobID = [], ar_ModelHash = [], ar_InputHash = [], ar_Output = [], ar_OutputHash = [], ar_AIDigest = [],
     ar_ProofScheme = []\<rparr>"

definition resultHashOf :: "(bytes \<Rightarrow> bytes) \<Rightarrow> MiningResponse \<Rightarrow> string" where
  "resultHashOf sha256 r = HashJSON sha256 (result_json (mr_Result r))"

text \<open>One step of the loop that picks the largest group, the smaller hash among groups of equal size.\<close>

definition selectStep ::
  "(string \<Rightarrow> MiningResponse list) \<Rightarrow> string \<times> MiningResponse list \<Rightarrow> string \<Rightarrow> string \<times> MiningResponse list" where
  "selectStep members acc hash =
     (let (selectedHash, selected) = acc in
      if length (members hash) > length selected
          \<or> length (members hash) = length selected \<and> (selectedHash = [] \<or> hash < selectedHash)
      then (hash, members hash) else acc)"

definition selectGroup ::
  "(bytes \<Rightarrow> bytes) \<Rightarrow> (string list \<Rightarrow> string list) \<Rightarrow> MiningResponse list \<Rightarrow> string \<times> MiningResponse list" where
  "selectGroup sha256 order responses =
     (let members = (\<lambda>hash. filter (\<lambda>r. resultHashOf sha256 r = hash) responses)
      in foldl (selectStep members) ([], []) (order (remdups (map (resultHashOf sha256) responses))))"

definition collectTickets ::
  "(bytes \<Rightarrow> bytes) \<Rightarrow> network \<Rightarrow> (string list \<Rightarrow> string list) \<Rightarrow> (string \<times> string) list \<Rightarrow> MiningRequest
     \<Rightarrow> PoWTicket list \<times> AIResult \<times> AIProofBundle list \<times> ResultCertificate \<times> ZKMLProofBundle list" where
  "collectTickets sha256 nw order miners request =
     (let answers = nw_mine nw miners request;
          responses = concat (map (\<lambda>(minerID, answer). case answer of
            Some r \<Rightarrow> if tk_MinerID (mr_Ticket r) = minerID then [r] else [] | None \<Rightarrow> []) answers);
          (selectedHash, selected) = selectGroup sha256 order responses
      in if selected = [] then ([], zeroResult, [], \<lparr>rc_ResultHash = [], rc_Attestations = None\<rparr>, [])
         else (map mr_Ticket selected, mr_Result (hd selected), List.map_filter mr_AIProof selected,
               \<lparr>rc_ResultHash = selectedHash, rc_Attestations = Some (map mr_Attestation selected)\<rparr>,
               List.map_filter mr_ZKMLProof selected))"

section \<open>Broadcasting\<close>

definition broadcastProposal :: "network \<Rightarrow> (string \<times> string) list \<Rightarrow> Block \<Rightarrow> Vote list" where
  "broadcastProposal nw peers block =
     filter (\<lambda>vote. vt_Phase vote = PhasePrepare) (List.map_filter id (nw_proposal nw (map snd peers) block))"

definition broadcastQC :: "network \<Rightarrow> (string \<times> string) list \<Rightarrow> Block \<Rightarrow> QuorumCertificate \<Rightarrow> Phase \<Rightarrow> Vote list \<times> nat" where
  "broadcastQC nw peers block qc expected =
     (let answers = List.map_filter id (nw_qc nw (map snd peers) block qc)
      in (filter (\<lambda>vote. vt_Phase vote = expected) (List.map_filter fst answers), length (filter snd answers)))"

section \<open>Proposing\<close>

text \<open>What \<open>Propose\<close> and \<open>RunRound\<close> check before they go on: the result, the tickets and the certificate.\<close>

definition checkSubmission ::
  "'x env \<Rightarrow> 'x Node \<Rightarrow> u64 \<Rightarrow> string \<Rightarrow> AIJob \<Rightarrow> AIResult \<Rightarrow> PoWTicket list \<Rightarrow> AIProofBundle list \<Rightarrow> ResultCertificate
     \<Rightarrow> ZKMLProofBundle list \<Rightarrow> 'x Node \<times> (round_error + PoWTicket)" where
  "checkSubmission v n height parentHash job result tickets proofs resultQC zkmlProofs =
     (case validateResult v n job result of
        Inl e \<Rightarrow> (n, Inl (RoundResult e))
      | Inr _ \<Rightarrow>
          (case validateCompetition v n height parentHash job result tickets proofs of
             Inl e \<Rightarrow> (n, Inl (RoundCompetition e))
           | Inr winner \<Rightarrow>
               (case validateResultCertificate v n height parentHash job result tickets resultQC zkmlProofs of
                  (n, Inl e) \<Rightarrow> (n, Inl (RoundCertificate e))
                | (n, Inr _) \<Rightarrow> (n, Inr winner))))"

definition buildInputFor :: "(bytes \<Rightarrow> bytes) \<Rightarrow> string \<Rightarrow> string \<Rightarrow> string \<Rightarrow> u64 \<Rightarrow> int \<Rightarrow> BuildInput" where
  "buildInputFor sha256 nodeID tip jobId height seconds =
     (let prevRandao = HashJSON sha256 (JObj [(''parent'', JStr tip), (''jobId'', JStr jobId), (''height'', jU64 height)]);
          beaconRoot = HashJSON sha256 (JObj [(''domain'', JStr ''AIDCHAIN_PARENT_BEACON_ROOT_V1''), (''parent'', JStr tip),
            (''height'', jU64 height)]);
          identityHash = HashBytes sha256 (bytes_of nodeID);
          feeRecipient = ''0x'' @ drop (length identityHash - 40) identityHash
      in \<lparr>bi_Timestamp = of_int seconds, bi_PrevRandao = prevRandao, bi_SuggestedFeeRecipient = feeRecipient,
          bi_ParentBeaconBlockRoot = beaconRoot, bi_SlotNumber = height, bi_TargetGasLimit = 30000000\<rparr>)"

definition assembleBlock ::
  "(bytes \<Rightarrow> bytes) \<Rightarrow> string \<Rightarrow> u64 \<Rightarrow> string \<Rightarrow> string \<Rightarrow> ProposeRequest \<Rightarrow> EVMReceipt \<Rightarrow> ExecutionPayloadEnvelope \<Rightarrow> PoWTicket
     \<Rightarrow> Block" where
  "assembleBlock sha256 nodeID height tip timestamp request receipt payload winner =
     (let tickets = sortSlice tk_MinerID (elems (pq_Tickets request));
          proofs = sortSlice ab_MinerID (pq_AIProofs request);
          resultQC = (pq_ResultQC request)\<lparr>rc_Attestations :=
            copySlice (sortSlice at_WorkerID (elems (rc_Attestations (pq_ResultQC request))))\<rparr>;
          zkmlProofs = sortSlice zb_WorkerID (pq_ZKMLProofs request)
      in \<lparr>bl_Header =
            \<lparr>bh_Version = ProtocolVersion, bh_Height = height, bh_ParentHash = tip, bh_ProposerID = nodeID,
             bh_Timestamp = timestamp, bh_AIReceiptRoot = ar_AIDigest (pq_Result request),
             bh_EVMStateRoot = ex_StateRoot payload, bh_EVMReceiptRoot = ev_StateRoot receipt,
             bh_ExecutionHash = HashJSON sha256 (execution_json payload), bh_TicketsRoot = TicketsRoot sha256 tickets,
             bh_AIProofsRoot = AIProofsRoot sha256 proofs, bh_ResultQCRoot = ResultQCRoot sha256 resultQC,
             bh_ZKMLProofsRoot = ZKMLProofsRoot sha256 zkmlProofs\<rparr>,
          bl_Job = pq_Job request, bl_Result = pq_Result request, bl_EVMRequest = pq_EVM request, bl_EVM = receipt,
          bl_Execution = payload, bl_Winner = winner, bl_Tickets = copySlice tickets, bl_AIProofs = proofs,
          bl_ResultQC = resultQC, bl_ZKMLProofs = zkmlProofs\<rparr>)"

text \<open>The three phases: collect votes, make the certificate, send it on.\<close>

definition runPhases ::
  "crypto \<Rightarrow> network \<Rightarrow> ValidatorSet \<Rightarrow> (string \<times> string) list \<Rightarrow> Block \<Rightarrow> round_error + RoundResponse" where
  "runPhases cr nw validators peers block =
     (let blockHash = Block_Hash (cr_sha256 cr) block; height = bh_Height (bl_Header block) in
      bindE (mapErr (PhaseQC PhasePrepare) (MakeQC cr validators PhasePrepare height blockHash (broadcastProposal nw peers block)))
        (\<lambda>prepareQC.
      bindE (mapErr (PhaseQC PhasePreCommit) (MakeQC cr validators PhasePreCommit height blockHash
          (fst (broadcastQC nw peers block prepareQC PhasePreCommit)))) (\<lambda>preCommitQC.
      bindE (mapErr (PhaseQC PhaseCommit) (MakeQC cr validators PhaseCommit height blockHash
          (fst (broadcastQC nw peers block preCommitQC PhaseCommit)))) (\<lambda>commitQC.
        let finalized = snd (broadcastQC nw peers block commitQC []) in
        if finalized < Quorum validators then Inl (FinalizationQuorum finalized (Quorum validators))
        else Inr \<lparr>rr_Block = block, rr_BlockHash = blockHash, rr_CommitQC = commitQC\<rparr>))))"

text \<open>\<open>Propose\<close> up to the finished block.\<close>

definition proposeBlock ::
  "'x env \<Rightarrow> network \<Rightarrow> int \<Rightarrow> 'x Node \<Rightarrow> ProposeRequest \<Rightarrow> 'x Node \<times> (round_error + Block)" where
  "proposeBlock v nw now n request =
     (let sha256 = nv_sha256 v; job = pq_Job request; (height, tip) = HeightAndTip (nd_replica n) in
      case ValidateAIJob sha256 job of
        Inl e \<Rightarrow> (n, Inl (RoundJob e))
      | Inr _ \<Rightarrow>
          (case checkSubmission v n (height + 1) tip job (pq_Result request) (elems (pq_Tickets request)) (pq_AIProofs request)
                  (pq_ResultQC request) (pq_ZKMLProofs request) of
             (n, Inl e) \<Rightarrow> (n, Inl e)
           | (n, Inr winner) \<Rightarrow>
               if tk_MinerID winner \<noteq> nd_id n then (n, Inl (NotSelectedProposer (nd_id n) (tk_MinerID winner)))
               else
                 (case Execute sha256 (nw_evmPost nw) (nw_evmDecode nw) (nd_evm n) tip (pq_EVM request) of
                    Inl e \<Rightarrow> (n, Inl (RoundEvm e))
                  | Inr receipt \<Rightarrow>
                      let seconds = unixSeconds now in
                      (case en_Build (nv_engine v) (nd_execution n) (buildInputFor sha256 (nd_id n) tip (aj_ID job) (height + 1) seconds) of
                         (x, Inl e) \<Rightarrow> (n\<lparr>nd_execution := x\<rparr>, Inl (BuildPayload e))
                       | (x, Inr payload) \<Rightarrow>
                           (n\<lparr>nd_execution := x\<rparr>,
                            Inr (assembleBlock sha256 (nd_id n) (height + 1) tip (nw_formatTime nw (seconds * 1000000000))
                              request receipt payload winner))))))"

definition Propose ::
  "'x env \<Rightarrow> network \<Rightarrow> int \<Rightarrow> 'x Node \<Rightarrow> ProposeRequest \<Rightarrow> 'x Node \<times> (round_error + RoundResponse)" where
  "Propose v nw now n request =
     (case proposeBlock v nw now n request of
        (n, Inl e) \<Rightarrow> (n, Inl e)
      | (n, Inr block) \<Rightarrow> (n, runPhases (nv_crypto v) nw (nd_validators n) (nd_peers n) block))"

section \<open>The coordinator\<close>

definition RunRound ::
  "'x env \<Rightarrow> network \<Rightarrow> (string list \<Rightarrow> string list) \<Rightarrow> int \<Rightarrow> 'x Node \<Rightarrow> RoundRequest \<Rightarrow> 'x Node \<times> (round_error + RoundResponse)" where
  "RunRound v nw order now n request =
     (let sha256 = nv_sha256 v;
          job = (if aj_ID (rq_Job request) = []
                 then NewAIJob sha256 (nw_formatTime nw now) (aj_Model (rq_Job request)) (aj_Prompt (rq_Job request))
                 else rq_Job request);
          (height, tip) = HeightAndTip (nd_replica n); quorum = Quorum (nd_validators n)
      in case ValidateAIJob sha256 job of
           Inl e \<Rightarrow> (n, Inl (RoundJob e))
         | Inr _ \<Rightarrow>
             if length (nd_peers n) < quorum then (n, Inl (NotEnoughPeers (length (nd_peers n)) quorum))
             else if length (nd_miners n) < quorum then (n, Inl (NotEnoughMiners (length (nd_miners n)) quorum))
             else
               (case collectTickets sha256 nw order (nd_miners n) \<lparr>mq_Height = height + 1, mq_ParentHash = tip, mq_Job = job\<rparr> of
                  (tickets, result, proofs, resultQC, zkmlProofs) \<Rightarrow>
                    if length tickets < quorum then (n, Inl (MiningQuorum (length tickets) quorum))
                    else
                      (case checkSubmission v n (height + 1) tip job result tickets proofs resultQC zkmlProofs of
                         (n, Inl e) \<Rightarrow> (n, Inl e)
                       | (n, Inr winner) \<Rightarrow>
                           (case map_of (nd_peers n) (tk_MinerID winner) of
                              None \<Rightarrow> (n, Inl (NoPeerURL (tk_MinerID winner)))
                            | Some url \<Rightarrow>
                                (n, ofOption (WinningProposer (tk_MinerID winner))
                                  (nw_propose nw url \<lparr>pq_Job = job, pq_Result = result, pq_EVM = rq_EVM request,
                                     pq_Tickets = Some tickets, pq_AIProofs = proofs, pq_ResultQC = resultQC,
                                     pq_ZKMLProofs = zkmlProofs\<rparr>))))))"

end
