(* ===== verification/Node_Laws.thy ===== *)
theory Node_Laws
  imports Network
begin

text \<open>
  Laws of block validation: what it changes in a node (the engine state and the three caches), and
  what an accepted block is guaranteed to contain. The caches satisfy an invariant that says why a
  remembered hash may be trusted.
\<close>

section \<open>What validation changes\<close>

definition core :: "'x Node \<Rightarrow> 'x Node" where
  "core n = n\<lparr>nd_execution := undefined, nd_validatedExecution := {}, nd_validatedBlocks := {}, nd_validatedZKML := {}\<rparr>"

definition keeps :: "'x Node \<Rightarrow> 'x Node \<Rightarrow> bool" where
  "keeps n n' \<longleftrightarrow> core n' = core n"

lemma keeps_refl [simp]: "keeps n n"
  by (simp add: keeps_def)

lemma keeps_fields:
  "keeps n n' \<Longrightarrow> nd_id n' = nd_id n \<and> nd_validators n' = nd_validators n \<and> nd_difficulty n' = nd_difficulty n
    \<and> nd_manifestRoot n' = nd_manifestRoot n \<and> nd_aiSealManifest n' = nd_aiSealManifest n \<and> nd_aiSealTarget n' = nd_aiSealTarget n
    \<and> nd_minPoWSamples n' = nd_minPoWSamples n \<and> nd_minTensorSamples n' = nd_minTensorSamples n \<and> nd_runner n' = nd_runner n
    \<and> nd_zkmlVerifier n' = nd_zkmlVerifier n \<and> nd_minZKMLProofs n' = nd_minZKMLProofs n \<and> nd_replica n' = nd_replica n
    \<and> nd_objectStore n' = nd_objectStore n \<and> nd_privateKey n' = nd_privateKey n \<and> nd_peers n' = nd_peers n"
  by (cases n; cases n') (simp add: keeps_def core_def)

lemma keeps_trans: "keeps a b \<Longrightarrow> keeps b c \<Longrightarrow> keeps a c"
  by (simp add: keeps_def)

lemma keeps_updates [simp]:
  "keeps n (n'\<lparr>nd_validatedBlocks := B\<rparr>) = keeps n n'" "keeps n (n'\<lparr>nd_validatedZKML := Z\<rparr>) = keeps n n'"
  "keeps n (n'\<lparr>nd_execution := x\<rparr>) = keeps n n'" "keeps n (n'\<lparr>nd_validatedExecution := E\<rparr>) = keeps n n'"
  by (simp_all add: keeps_def core_def)

section \<open>The competition\<close>

lemma firstDuplicate_None:
  "firstDuplicate k seen xs = None \<longleftrightarrow> distinct (map k xs) \<and> k ` set xs \<inter> seen = {}"
  by (induction xs arbitrary: seen) auto

lemma checkTickets_ok:
  "checkTickets check seen ts = Inr () \<longleftrightarrow>
     distinct (map tk_MinerID ts) \<and> tk_MinerID ` set ts \<inter> seen = {} \<and> (\<forall>t \<in> set ts. check t = Inr ())"
  by (induction ts arbitrary: seen) auto

lemma byKey_distinct: "distinct (map k xs) \<Longrightarrow> x \<in> set xs \<Longrightarrow> byKey k xs (k x) = Some x"
proof -
  assume "distinct (map k xs)" "x \<in> set xs"
  then have "distinct (map fst (rev (map (\<lambda>x. (k x, x)) xs)))" by (simp add: comp_def flip: rev_map)
  moreover have "(k x, x) \<in> set (rev (map (\<lambda>x. (k x, x)) xs))" using \<open>x \<in> set xs\<close> by simp
  ultimately show ?thesis unfolding byKey_def by (rule map_of_is_SomeI)
qed

lemma byKey_Some: "byKey k xs j = Some x \<Longrightarrow> x \<in> set xs \<and> k x = j"
  unfolding byKey_def by (auto dest!: map_of_SomeD)

text \<open>A ticket of the competition: from a validator, for this challenge and result, with work and signature.\<close>

definition ticketOK :: "'x env \<Rightarrow> 'x Node \<Rightarrow> u64 \<Rightarrow> string \<Rightarrow> AIJob \<Rightarrow> AIResult \<Rightarrow> PoWTicket \<Rightarrow> bool" where
  "ticketOK v n height parentHash job result t \<longleftrightarrow>
     (\<exists>key sig. PublicKey (nd_validators n) (tk_MinerID t) = Some key \<and> DecodeString (tk_Signature t) = Some sig
        \<and> cr_verify (nv_crypto v) key (TicketSigningBytes t) sig)
     \<and> tk_Height t = height \<and> tk_ParentHash t = parentHash \<and> tk_JobID t = aj_ID job
     \<and> tk_ResultHash t = HashJSON (nv_sha256 v) (result_json result)
     \<and> tk_Difficulty t = nd_difficulty n \<and> tk_ManifestRoot t = nd_manifestRoot n
     \<and> Ticket_Verify (nv_sha256 v) t = Inr ()"

lemma checkTicket_ok:
  "checkTicket v n height parentHash job result pm t = Inr () \<longleftrightarrow>
     ticketOK v n height parentHash job result t
     \<and> (case nd_aiSealManifest n of
          None \<Rightarrow> tk_AIDigest t = ar_AIDigest result \<and> tk_AIProofHash t = ar_AIDigest result
        | Some m \<Rightarrow> verifySeal v n m height parentHash pm t = Inr ())"
  by (auto simp: checkTicket_def ticketOK_def Let_def split: option.splits)

lemma validateCompetition_ok:
  "validateCompetition v n height parentHash job result ts ps = Inr w \<longleftrightarrow>
     distinct (map ab_MinerID ps) \<and> (if nd_aiSealManifest n = None then ps = [] else length ps = length ts)
     \<and> distinct (map tk_MinerID ts) \<and> (\<forall>t \<in> set ts. checkTicket v n height parentHash job result (byKey ab_MinerID ps) t = Inr ())
     \<and> SelectWinner (nv_sha256 v) ts = Inr w"
  using firstDuplicate_None[of ab_MinerID "{}" ps]
  by (auto simp: validateCompetition_def checkTickets_ok split: option.splits)

section \<open>The certificate\<close>

definition attestationOK :: "'x env \<Rightarrow> 'x Node \<Rightarrow> u64 \<Rightarrow> string \<Rightarrow> AIJob \<Rightarrow> AIResult \<Rightarrow> PoWTicket list \<Rightarrow> InferenceAttestation \<Rightarrow> bool" where
  "attestationOK v n height parentHash job result ts a \<longleftrightarrow>
     (\<exists>key sig. PublicKey (nd_validators n) (at_WorkerID a) = Some key \<and> DecodeString (at_Signature a) = Some sig
        \<and> cr_verify (nv_crypto v) key (InferenceSigningBytes a) sig)
     \<and> at_Height a = height \<and> at_ParentHash a = parentHash \<and> at_JobID a = aj_ID job
     \<and> at_ResultHash a = HashJSON (nv_sha256 v) (result_json result)
     \<and> at_ModelHash a = ar_ModelHash result \<and> at_InputHash a = ar_InputHash result \<and> at_OutputHash a = ar_OutputHash result
     \<and> (\<exists>t \<in> set ts. tk_MinerID t = at_WorkerID a \<and> tk_ZKMLProofHash t = at_ZKMLProofHash a)"

lemma checkAttestation_ok:
  "checkAttestation v n height parentHash job result (byKey tk_MinerID ts) a = Inr () \<Longrightarrow>
   attestationOK v n height parentHash job result ts a"
  by (auto simp: checkAttestation_def attestationOK_def Let_def split: option.splits if_splits dest!: byKey_Some)

text \<open>The zkML proofs remembered by a node were verified by it.\<close>

definition zkmlInv :: "'x env \<Rightarrow> 'x Node \<Rightarrow> bool" where
  "zkmlInv v n \<longleftrightarrow> (\<forall>h \<in> nd_validatedZKML n. \<exists>p circuitID. nd_zkmlVerifier n = Some circuitID
     \<and> ProofHash (nv_sha256 v) p = h \<and> zkml_Verify (nv_groth16 v) circuitID p = Inr ())"

lemma checkZKML_keeps: "checkZKML v n c job result pw a = (n', r) \<Longrightarrow> keeps n n' \<and> nd_validatedBlocks n' = nd_validatedBlocks n
    \<and> nd_validatedExecution n' = nd_validatedExecution n \<and> nd_execution n' = nd_execution n"
  by (auto simp: checkZKML_def Let_def split: prod.splits option.splits if_splits sum.splits)

lemma checkZKML_ok:
  assumes "checkZKML v n c job result pw a = (n', Inr u)" "zkmlInv v n" "nd_zkmlVerifier n = Some c"
  shows "zkmlInv v n' \<and> (\<exists>p. ProofHash (nv_sha256 v) p = at_ZKMLProofHash a \<and> zkml_Verify (nv_groth16 v) c p = Inr ())"
  using assms by (auto simp: checkZKML_def zkmlInv_def Let_def split: prod.splits option.splits if_splits sum.splits)

lemma checkZKML_inv:
  assumes "checkZKML v n c job result pw a = (n', r)" "zkmlInv v n" "nd_zkmlVerifier n = Some c"
  shows "zkmlInv v n'"
  using assms by (auto simp: checkZKML_def zkmlInv_def Let_def split: prod.splits option.splits if_splits sum.splits)

lemma checkZKML_zk: "checkZKML v n c job result pw a = (n', r) \<Longrightarrow> nd_zkmlVerifier n' = nd_zkmlVerifier n"
  using checkZKML_keeps keeps_fields by blast

text \<open>The loop over the attestations, by computation induction: what it keeps, and what success means.\<close>

lemma checkAttestations_keeps:
  "checkAttestations v n height parentHash job result tw pw seen as = (n', r) \<Longrightarrow> zkmlInv v n \<Longrightarrow>
   keeps n n' \<and> nd_validatedBlocks n' = nd_validatedBlocks n \<and> nd_validatedExecution n' = nd_validatedExecution n
   \<and> nd_execution n' = nd_execution n \<and> zkmlInv v n'"
proof (induction as arbitrary: n seen)
  case (Cons a as)
  show ?case
  proof (cases "nd_zkmlVerifier n")
    case None
    then show ?thesis using Cons by (auto simp: Let_def split: if_splits sum.splits)
  next
    case (Some c)
    obtain n1 r1 where z: "checkZKML v n c job result pw a = (n1, r1)" by fastforce
    note facts = checkZKML_keeps[OF z] checkZKML_inv[OF z Cons.prems(2) Some]
    show ?thesis
      using Cons.prems(1) Cons.IH[of n1] facts Cons.prems(2) Some z
      by (auto simp: Let_def split: if_splits sum.splits intro: keeps_trans)
  qed
qed simp

lemma attestationOK_keeps: "keeps n n' \<Longrightarrow> attestationOK v n' h p job result ts a = attestationOK v n h p job result ts a"
  using keeps_fields[of n n'] by (simp add: attestationOK_def)

definition provedBy :: "'x env \<Rightarrow> 'x Node \<Rightarrow> string \<Rightarrow> bool" where
  "provedBy v n h \<longleftrightarrow> (case nd_zkmlVerifier n of
     None \<Rightarrow> h = []
   | Some c \<Rightarrow> \<exists>p. ProofHash (nv_sha256 v) p = h \<and> zkml_Verify (nv_groth16 v) c p = Inr ())"

lemma provedBy_keeps: "keeps n n' \<Longrightarrow> provedBy v n' h = provedBy v n h"
  using keeps_fields[of n n'] by (simp add: provedBy_def)

lemma checkAttestations_ok:
  "checkAttestations v n height parentHash job result (byKey tk_MinerID ts) pw seen as = (n', Inr u) \<Longrightarrow> zkmlInv v n \<Longrightarrow>
   distinct (map at_WorkerID as) \<and> at_WorkerID ` set as \<inter> seen = {}
   \<and> (\<forall>a \<in> set as. attestationOK v n height parentHash job result ts a \<and> provedBy v n (at_ZKMLProofHash a))"
proof (induction as arbitrary: n seen)
  case (Cons a as)
  have new: "at_WorkerID a \<notin> seen" and ok: "attestationOK v n height parentHash job result ts a"
    using Cons.prems(1) checkAttestation_ok[of v n height parentHash job result ts a]
    by (auto simp: Let_def split: if_splits sum.splits)
  obtain m where m: "checkAttestations v m height parentHash job result (byKey tk_MinerID ts) pw (insert (at_WorkerID a) seen) as = (n', Inr u)"
      "keeps n m" "zkmlInv v m" "provedBy v n (at_ZKMLProofHash a)"
  proof (cases "nd_zkmlVerifier n")
    case None
    then show thesis using Cons.prems that[of n] by (auto simp: Let_def provedBy_def split: if_splits sum.splits)
  next
    case (Some c)
    then obtain n1 u1 where z: "checkZKML v n c job result pw a = (n1, Inr u1)"
      and rest: "checkAttestations v n1 height parentHash job result (byKey tk_MinerID ts) pw (insert (at_WorkerID a) seen) as = (n', Inr u)"
      using Cons.prems(1) by (auto simp: Let_def split: if_splits sum.splits prod.splits)
    show thesis
      using checkZKML_keeps[OF z] checkZKML_ok[OF z Cons.prems(2) Some] Some by (intro that[OF rest]) (auto simp: provedBy_def)
  qed
  with Cons.IH[OF m(1,3)] new ok show ?case
    by (auto simp: attestationOK_keeps[OF m(2)] provedBy_keeps[OF m(2)])
qed simp

text \<open>A result certificate that was accepted.\<close>

definition certificateOK ::
  "'x env \<Rightarrow> 'x Node \<Rightarrow> u64 \<Rightarrow> string \<Rightarrow> AIJob \<Rightarrow> AIResult \<Rightarrow> PoWTicket list \<Rightarrow> ResultCertificate \<Rightarrow> bool" where
  "certificateOK v n height parentHash job result ts c \<longleftrightarrow>
     (let as = elems (rc_Attestations c) in
      rc_ResultHash c = HashJSON (nv_sha256 v) (result_json result) \<and> Quorum (nd_validators n) \<le> length as
      \<and> length as = length ts \<and> distinct (map at_WorkerID as)
      \<and> (\<forall>a \<in> set as. attestationOK v n height parentHash job result ts a \<and> provedBy v n (at_ZKMLProofHash a)))"

lemma validateResultCertificate_keeps:
  assumes "validateResultCertificate v n height parentHash job result ts c ps = (n', r)" "zkmlInv v n"
  shows "keeps n n' \<and> nd_validatedBlocks n' = nd_validatedBlocks n \<and> nd_validatedExecution n' = nd_validatedExecution n
   \<and> nd_execution n' = nd_execution n \<and> zkmlInv v n'"
  using assms checkAttestations_keeps[OF _ assms(2), of height parentHash job result "byKey tk_MinerID ts" "byKey zb_WorkerID ps" "{}" _ n' r]
  by (auto simp: validateResultCertificate_def Let_def split: if_splits option.splits)

lemma validateResultCertificate_ok:
  assumes "validateResultCertificate v n height parentHash job result ts c ps = (n', Inr u)" "zkmlInv v n"
  shows "certificateOK v n height parentHash job result ts c"
  using assms checkAttestations_ok[OF _ assms(2), of height parentHash job result ts "byKey zb_WorkerID ps" "{}" _ n' u]
  by (auto simp: validateResultCertificate_def certificateOK_def Let_def split: if_splits option.splits)

section \<open>Blocks\<close>

text \<open>
  What an accepted block is guaranteed to be, whatever the caches held: the job and the result are
  right, the receipt and the payload are committed to, every root is the root of what the block carries,
  a quorum of distinct validators mined tickets for this parent and result, a quorum attests the
  result, and the proposer is the miner of the least ticket.
\<close>

definition blockOK :: "'x env \<Rightarrow> 'x Node \<Rightarrow> Block \<Rightarrow> bool" where
  "blockOK v n block \<longleftrightarrow>
     (let header = bl_Header block; ts = elems (bl_Tickets block); sha256 = nv_sha256 v in
      bh_Version header = ProtocolVersion \<and> ValidateAIJob sha256 (bl_Job block) = Inr ()
      \<and> validateResult v n (bl_Job block) (bl_Result block) = Inr ()
      \<and> bh_AIReceiptRoot header = ar_AIDigest (bl_Result block)
      \<and> VerifyReceipt sha256 (bh_ParentHash header) (bl_EVMRequest block) (bl_EVM block) = Inr ()
      \<and> bh_EVMReceiptRoot header = ev_StateRoot (bl_EVM block)
      \<and> bh_EVMStateRoot header = ex_StateRoot (bl_Execution block)
      \<and> bh_ExecutionHash header = HashJSON sha256 (execution_json (bl_Execution block))
      \<and> ValidateEnvelope (bl_Execution block) = Inr ()
      \<and> bh_TicketsRoot header = TicketsRoot sha256 ts \<and> bh_AIProofsRoot header = AIProofsRoot sha256 (bl_AIProofs block)
      \<and> bh_ResultQCRoot header = ResultQCRoot sha256 (bl_ResultQC block)
      \<and> bh_ZKMLProofsRoot header = ZKMLProofsRoot sha256 (bl_ZKMLProofs block)
      \<and> Quorum (nd_validators n) \<le> length ts \<and> distinct (map tk_MinerID ts)
      \<and> (\<forall>t \<in> set ts. ticketOK v n (bh_Height header) (bh_ParentHash header) (bl_Job block) (bl_Result block) t)
      \<and> certificateOK v n (bh_Height header) (bh_ParentHash header) (bl_Job block) (bl_Result block) ts (bl_ResultQC block)
      \<and> (\<exists>winner. SelectWinner sha256 ts = Inr winner \<and> tk_MinerID winner = bh_ProposerID header
           \<and> HashJSON sha256 (ticket_json winner) = HashJSON sha256 (ticket_json (bl_Winner block))))"

lemma checkExecution_keeps:
  "checkExecution v n block = (n', r) \<Longrightarrow> keeps n n' \<and> nd_validatedBlocks n' = nd_validatedBlocks n \<and> nd_validatedZKML n' = nd_validatedZKML n"
  by (auto simp: checkExecution_def split: if_splits prod.splits sum.splits)

lemma validateResult_keeps: "keeps n n' \<Longrightarrow> validateResult v n' job result = validateResult v n job result"
  using keeps_fields[of n n'] by (simp add: validateResult_def validateResultCommitment_def)

lemma checkRoots_keeps: "keeps n n' \<Longrightarrow> checkRoots v n' block = checkRoots v n block"
  using keeps_fields[of n n'] by (simp add: checkRoots_def)

lemma ticketOK_keeps: "keeps n n' \<Longrightarrow> ticketOK v n' h p job result t = ticketOK v n h p job result t"
  using keeps_fields[of n n'] by (simp add: ticketOK_def)

lemma certificateOK_keeps: "keeps n n' \<Longrightarrow> certificateOK v n' h p job result ts c = certificateOK v n h p job result ts c"
  using keeps_fields[of n n'] by (simp add: certificateOK_def attestationOK_keeps provedBy_keeps)

lemma blockOK_keeps: "keeps n n' \<Longrightarrow> blockOK v n' block = blockOK v n block"
  using keeps_fields[of n n'] by (simp add: blockOK_def validateResult_keeps ticketOK_keeps certificateOK_keeps)

lemma zkmlInv_cong:
  "nd_validatedZKML n' = nd_validatedZKML n \<Longrightarrow> nd_zkmlVerifier n' = nd_zkmlVerifier n \<Longrightarrow> zkmlInv v n' = zkmlInv v n"
  by (simp add: zkmlInv_def)

lemma checkRound_keeps:
  assumes "checkRound v n block = (n', r)" "zkmlInv v n"
  shows "keeps n n' \<and> nd_validatedBlocks n' = nd_validatedBlocks n \<and> zkmlInv v n'"
proof -
  let ?h = "bl_Header block"
  obtain m w where m: "validateResultCertificate v n (bh_Height ?h) (bh_ParentHash ?h) (bl_Job block) (bl_Result block)
      (elems (bl_Tickets block)) (bl_ResultQC block) (bl_ZKMLProofs block) = (m, w)" by fastforce
  have "n' = m \<or> n' = n"
    using assms(1) m by (auto simp: checkRound_def Let_def split: sum.splits if_splits)
  then show ?thesis using validateResultCertificate_keeps[OF m assms(2)] assms(2) by auto
qed

lemma checkRound_ok:
  assumes "checkRound v n block = (n', Inr u)" "zkmlInv v n"
  shows "\<exists>winner. validateCompetition v n (bh_Height (bl_Header block)) (bh_ParentHash (bl_Header block)) (bl_Job block)
      (bl_Result block) (elems (bl_Tickets block)) (bl_AIProofs block) = Inr winner
    \<and> tk_MinerID winner = bh_ProposerID (bl_Header block)
    \<and> HashJSON (nv_sha256 v) (ticket_json winner) = HashJSON (nv_sha256 v) (ticket_json (bl_Winner block))
    \<and> certificateOK v n (bh_Height (bl_Header block)) (bh_ParentHash (bl_Header block)) (bl_Job block) (bl_Result block)
        (elems (bl_Tickets block)) (bl_ResultQC block)"
  using assms validateResultCertificate_ok
  by (auto simp: checkRound_def Let_def split: sum.splits if_splits prod.splits) blast?

text \<open>Every remembered block hash belongs to a block that passed.\<close>

definition cacheInv :: "'x env \<Rightarrow> 'x Node \<Rightarrow> bool" where
  "cacheInv v n \<longleftrightarrow> zkmlInv v n \<and> (\<forall>h \<in> nd_validatedBlocks n. \<exists>block. Block_Hash (nv_sha256 v) block = h \<and> blockOK v n block)"

lemma checkContents_ok:
  assumes "checkContents v now n block = Inr u"
  shows "bh_Version (bl_Header block) = ProtocolVersion \<and> ValidateAIJob (nv_sha256 v) (bl_Job block) = Inr ()
      \<and> validateResult v n (bl_Job block) (bl_Result block) = Inr ()
      \<and> bh_AIReceiptRoot (bl_Header block) = ar_AIDigest (bl_Result block)
      \<and> VerifyReceipt (nv_sha256 v) (bh_ParentHash (bl_Header block)) (bl_EVMRequest block) (bl_EVM block) = Inr ()
      \<and> bh_EVMReceiptRoot (bl_Header block) = ev_StateRoot (bl_EVM block)
      \<and> bh_EVMStateRoot (bl_Header block) = ex_StateRoot (bl_Execution block)
      \<and> bh_ExecutionHash (bl_Header block) = HashJSON (nv_sha256 v) (execution_json (bl_Execution block))
      \<and> ValidateEnvelope (bl_Execution block) = Inr ()"
  using assms by (auto simp: checkContents_def Let_def)

lemma validateBlock_steps:
  assumes "validateBlock v now n block = (n', r)" "Block_Hash (nv_sha256 v) block \<notin> nd_validatedBlocks n"
  obtains (early) e where "r = Inl e" "n' = n"
    | (execution) e where "checkExecution v n block = (n', Inl e)" "r = Inl e"
    | (roots) n1 e where "checkExecution v n block = (n1, Inr ())" "n' = n1" "r = Inl e"
    | (round) n1 e where "checkExecution v n block = (n1, Inr ())" "checkRound v n1 block = (n', Inl e)" "r = Inl e"
    | (accepted) n1 n2 where "checkContents v now n block = Inr ()" "checkExecution v n block = (n1, Inr ())"
        "checkRoots v n1 block = Inr ()" "checkRound v n1 block = (n2, Inr ())"
        "n' = n2\<lparr>nd_validatedBlocks := insert (Block_Hash (nv_sha256 v) block) (nd_validatedBlocks n2)\<rparr>" "r = Inr ()"
proof (cases "checkContents v now n block")
  case (Inl e)
  then show thesis using assms by (intro early[of e]) (auto simp: validateBlock_def)
next
  case contents: (Inr u)
  obtain n1 r1 where ex: "checkExecution v n block = (n1, r1)" by fastforce
  show thesis
  proof (cases r1)
    case (Inl e)
    then show thesis using assms contents ex by (intro execution[of e]) (simp_all add: validateBlock_def)
  next
    case r1: (Inr u1)
    show thesis
    proof (cases "checkRoots v n1 block")
      case (Inl e)
      then show thesis using assms contents ex r1 by (intro roots[of n1 e]) (simp_all add: validateBlock_def)
    next
      case rt: (Inr u2)
      obtain n2 r2 where rd: "checkRound v n1 block = (n2, r2)" by fastforce
      show thesis
      proof (cases r2)
        case (Inl e)
        then show thesis using assms contents ex r1 rt rd by (intro round[of n1 e]) (simp_all add: validateBlock_def)
      next
        case (Inr u3)
        then show thesis using assms contents ex r1 rt rd by (intro accepted[of n1 n2]) (simp_all add: validateBlock_def)
      qed
    qed
  qed
qed

lemma validateBlock_cached:
  "Block_Hash (nv_sha256 v) block \<in> nd_validatedBlocks n \<Longrightarrow> validateBlock v now n block = (n, Inr ())"
  by (simp add: validateBlock_def)

lemma validateBlock_keeps:
  assumes "validateBlock v now n block = (n', r)" "zkmlInv v n"
  shows "keeps n n' \<and> zkmlInv v n' \<and> nd_validatedBlocks n \<subseteq> nd_validatedBlocks n'"
proof (cases "Block_Hash (nv_sha256 v) block \<in> nd_validatedBlocks n")
  case True
  then show ?thesis using assms by (simp add: validateBlock_cached)
next
  case False
  have ex: "keeps n n1 \<and> nd_validatedBlocks n1 = nd_validatedBlocks n \<and> zkmlInv v n1"
    if "checkExecution v n block = (n1, r1)" for n1 r1
    using checkExecution_keeps[OF that] keeps_fields[of n n1] zkmlInv_cong[of n1 n] assms(2) by simp
  from assms(1) False show ?thesis
  proof (cases rule: validateBlock_steps)
    case (round n1 e)
    note a = ex[OF round(1)]
    show ?thesis using a checkRound_keeps[OF round(2)] keeps_trans[of n n1 n'] by simp
  next
    case (accepted n1 n2)
    note a = ex[OF accepted(2)]
    have "keeps n n2 \<and> nd_validatedBlocks n2 = nd_validatedBlocks n \<and> zkmlInv v n2"
      using a checkRound_keeps[OF accepted(4)] keeps_trans[of n n1 n2] by simp
    then show ?thesis using accepted(5) zkmlInv_cong[of n' n2] by auto
  qed (use assms(2) in \<open>auto dest: ex\<close>)
qed

lemma validateBlock_ok:
  assumes "validateBlock v now n block = (n', Inr u)" "zkmlInv v n" "Block_Hash (nv_sha256 v) block \<notin> nd_validatedBlocks n"
  shows "blockOK v n block \<and> nd_validatedBlocks n' = insert (Block_Hash (nv_sha256 v) block) (nd_validatedBlocks n)"
  using assms(1,3)
proof (cases rule: validateBlock_steps)
  case (accepted n1 n2)
  have k: "keeps n n1" using checkExecution_keeps accepted(2) by blast
  have z: "zkmlInv v n1" using checkExecution_keeps[OF accepted(2)] keeps_fields[OF k] zkmlInv_cong[of n1 n] assms(2) by simp
  have b: "nd_validatedBlocks n2 = nd_validatedBlocks n"
    using checkRound_keeps[OF accepted(4) z] checkExecution_keeps[OF accepted(2)] by simp
  obtain winner where w: "validateCompetition v n1 (bh_Height (bl_Header block)) (bh_ParentHash (bl_Header block)) (bl_Job block)
      (bl_Result block) (elems (bl_Tickets block)) (bl_AIProofs block) = Inr winner"
    "tk_MinerID winner = bh_ProposerID (bl_Header block)"
    "HashJSON (nv_sha256 v) (ticket_json winner) = HashJSON (nv_sha256 v) (ticket_json (bl_Winner block))"
    "certificateOK v n1 (bh_Height (bl_Header block)) (bh_ParentHash (bl_Header block)) (bl_Job block) (bl_Result block)
        (elems (bl_Tickets block)) (bl_ResultQC block)"
    using checkRound_ok[OF accepted(4) z] by blast
  have "checkRoots v n block = Inr ()" using accepted(3) checkRoots_keeps[OF k] by simp
  then have "blockOK v n block"
    using checkContents_ok[OF accepted(1)] w
    by (auto simp: blockOK_def Let_def checkRoots_def validateCompetition_ok checkTicket_ok
        ticketOK_keeps[OF k] certificateOK_keeps[OF k])
  then show ?thesis using accepted(5) b by simp
qed auto

lemma validateBlock_inv:
  assumes "validateBlock v now n block = (n', r)" "cacheInv v n"
  shows "cacheInv v n' \<and> (r = Inr () \<longrightarrow> Block_Hash (nv_sha256 v) block \<in> nd_validatedBlocks n')"
proof -
  have z: "zkmlInv v n" using assms(2) by (simp add: cacheInv_def)
  note k = validateBlock_keeps[OF assms(1) z]
  show ?thesis
  proof (cases "Block_Hash (nv_sha256 v) block \<in> nd_validatedBlocks n")
    case True
    then show ?thesis using assms by (simp add: validateBlock_cached)
  next
    case False
    show ?thesis
    proof (cases r)
      case (Inr u)
      then show ?thesis using validateBlock_ok[OF _ z False, of now n' u] assms k blockOK_keeps[of n n' v] by (auto simp: cacheInv_def)
    next
      case (Inl e)
      have "nd_validatedBlocks n' = nd_validatedBlocks n"
        using assms(1) False
      proof (cases rule: validateBlock_steps)
        case (round n1 e')
        have "zkmlInv v n1"
          using checkExecution_keeps[OF round(1)] keeps_fields[of n n1] zkmlInv_cong[of n1 n] z by simp
        then show ?thesis using checkRound_keeps[OF round(2)] checkExecution_keeps[OF round(1)] by simp
      qed (auto simp: Inl dest: checkExecution_keeps)
      then show ?thesis using Inl k assms(2) blockOK_keeps[of n n' v] by (auto simp: cacheInv_def)
    qed
  qed
qed

end
