(* ===== verification/Miner_Laws.thy ===== *)
theory Miner_Laws
  imports Miner Node_Laws
begin

text \<open>
  What an honest miner sends is what a validator accepts: the signed ticket passes the competition,
  the signed attestation the certificate, and the zkML bundle the verifier. Signatures and Groth16
  proofs are complete by hypothesis (\<open>keysWork\<close>, \<open>groth16Complete\<close>), which is what these libraries document.
\<close>

section \<open>Hypotheses on the libraries\<close>

definition keysWork :: "crypto \<Rightarrow> bool" where
  "keysWork cr \<longleftrightarrow> (\<forall>key m. cr_verify cr (cr_public cr key) m (cr_sign cr key m))"

text \<open>
  Groth16: a proof is not empty, fits the limit and is read back in full; a proof for an assignment that
  satisfies the circuit verifies against its public inputs. The field has more than \<open>2^64\<close> elements
  and MiMC returns reduced elements.
\<close>

definition groth16Complete :: "groth16 \<Rightarrow> bool" where
  "groth16Complete g \<longleftrightarrow> 2 ^ 64 \<le> g_Order g \<and> (\<forall>xs. g_MiMC g xs < g_Order g)
     \<and> (\<forall>c b. g_Prove g c = Some b \<longrightarrow> b \<noteq> [] \<and> length b \<le> maxProofBytes \<and> g_Read g b = Some (length b)
          \<and> (circuit_Define (g_Order g) (g_MiMC g) c \<longrightarrow> g_Verify g b (ci_ModelCommitment c, ci_InputCommitment c, ci_Output c)))"

section \<open>zkML proofs\<close>

lemma SetString10_decimal [simp]: "SetString10 (decimal n) = Some (int n)"
proof -
  obtain c t where ct: "decimal n = c # t" by (cases "decimal n") auto
  have "isDigitC c" using hd_decimal[of n] ct by simp
  then have "c \<noteq> CHR ''-''" "c \<noteq> CHR ''+''" by (auto simp: isDigitC_def)
  moreover have "list_all isDigitC (decimal n)" using decimal_digits by (simp add: list_all_iff)
  ultimately show ?thesis using undecimal_decimal[of n] ct by (simp add: SetString10_def)
qed

lemma fieldElement_small: "n < g_Order g \<Longrightarrow> fieldElement g (int n) = n"
  by (simp add: fieldElement_def)

lemma zkml_prove_verify:
  assumes "groth16Complete g" "Derive sha256 modelName prompt = (input, model)" "zkml_Prove g circuitID input model = Inr p"
  shows "zkml_Verify g circuitID p = Inr ()"
    and "(zp_ModelCommitment p, zp_InputCommitment p, zp_Output p) = StatementFor sha256 (g_MiMC g) modelName prompt"
    and "elems (zp_Proof p) \<noteq> []" "\<exists>b. zp_Proof p = Some b"
proof -
  note d = Derive_ok[OF assms(2)]
  let ?mc = "modelCommitmentOf (g_MiMC g) model" and ?ic = "inputCommitmentOf (g_MiMC g) input" and ?out = "Evaluate input model"
  let ?c = "assignmentFor input model ?mc ?ic ?out"
  obtain b where b: "g_Prove g ?c = Some b" and p: "p = \<lparr>zp_Scheme = Scheme, zp_CircuitID = circuitID, zp_ModelCommitment = decimal ?mc,
      zp_InputCommitment = decimal ?ic, zp_Output = decimal (unat ?out), zp_Proof = Some b\<rparr>"
    using assms(3) by (auto simp: zkml_Prove_def Let_def)
  have g: "2 ^ 64 \<le> g_Order g" "\<And>xs. g_MiMC g xs < g_Order g" using assms(1) by (auto simp: groth16Complete_def)
  have "circuit_Define (g_Order g) (g_MiMC g) ?c" by (rule honest_assignment[OF d(3,1,2) g(1)])
  then have "b \<noteq> [] \<and> length b \<le> maxProofBytes \<and> g_Read g b = Some (length b)
      \<and> g_Verify g b (ci_ModelCommitment ?c, ci_InputCommitment ?c, ci_Output ?c)"
    using assms(1) b unfolding groth16Complete_def by blast
  then have ok: "b \<noteq> []" "length b \<le> maxProofBytes" "g_Read g b = Some (length b)" "g_Verify g b (?mc, ?ic, unat ?out)"
    by (simp_all add: assignmentFor_def)
  have "unat ?out < g_Order g" using Evaluate_exact(2)[OF d(3)] g(1) by simp
  then have "fieldElement g (int (unat ?out)) = unat ?out" by (rule fieldElement_small)
  moreover have "fieldElement g (int ?mc) = ?mc" "fieldElement g (int ?ic) = ?ic"
    using g(2) by (simp_all add: fieldElement_small modelCommitmentOf_def inputCommitmentOf_def commitment_def)
  ultimately show "zkml_Verify g circuitID p = Inr ()" using ok by (simp add: zkml_Verify_def p)
  show "(zp_ModelCommitment p, zp_InputCommitment p, zp_Output p) = StatementFor sha256 (g_MiMC g) modelName prompt"
    by (simp add: StatementFor_def assms(2) p)
  show "elems (zp_Proof p) \<noteq> []" "\<exists>b. zp_Proof p = Some b" using ok(1) by (simp_all add: p)
qed

section \<open>The response of a miner\<close>

lemma Mine_found:
  assumes "Mine sha256 ctxDone t maxNonce = Some (Inr t')"
  shows "Ticket_Verify sha256 t' = Inr () \<and> t'\<lparr>tk_Nonce := tk_Nonce t, tk_WorkHash := tk_WorkHash t\<rparr> = t"
proof -
  obtain m where m: "t' = withNonce sha256 t m" "nonceWorks sha256 t m"
    using assms mineLoop_found by (fastforce simp: Mine_def split: if_splits)
  have "tk_WorkHash t' = CalculateWorkHash sha256 t'" using m(1) by (simp add: withNonce_def Let_def)
  then have "Ticket_Verify sha256 t' = Inr ()" using m by (simp add: Ticket_Verify_def nonceWorks_def)
  then show ?thesis using m(1) by (simp add: withNonce_def Let_def)
qed

lemma Ticket_Verify_signature [simp]: "Ticket_Verify sha256 (t\<lparr>tk_Signature := s\<rparr>) = Ticket_Verify sha256 t"
  by (simp add: Ticket_Verify_def CalculateWorkHash_def)

lemma TicketSigningBytes_signature [simp]: "TicketSigningBytes (t\<lparr>tk_Signature := s\<rparr>) = TicketSigningBytes t"
  by (simp add: TicketSigningBytes_def)

lemma InferenceSigningBytes_signature [simp]: "InferenceSigningBytes (a\<lparr>at_Signature := s\<rparr>) = InferenceSigningBytes a"
  by (simp add: InferenceSigningBytes_def inferenceSigning_json_def)

text \<open>The response of a miner without an AISeal provider, field by field.\<close>

lemma Service_Mine_spec:
  assumes "Service_Mine cr g osOK ctxDone s request = (s', Some (Inr r))" "sv_ProofProvider s = None"
  shows "\<exists>zh t. s' = s \<and> mq_Height request \<noteq> 0 \<and> ValidateAIJob (cr_sha256 cr) (mq_Job request) = Inr ()
    \<and> Runner_Run (cr_sha256 cr) (sv_Runner s) (mq_Job request) = Inr (mr_Result r)
    \<and> mineZKML cr g s request (mr_Result r) = Inr (zh, mr_ZKMLProof r) \<and> mr_AIProof r = None
    \<and> mr_Attestation r = attest cr s request (mr_Result r) zh
    \<and> mr_Ticket r = t\<lparr>tk_Signature := EncodeToString (cr_sign cr (sv_PrivateKey s) (TicketSigningBytes t))\<rparr>
    \<and> Ticket_Verify (cr_sha256 cr) t = Inr ()
    \<and> t\<lparr>tk_Nonce := 0, tk_WorkHash := []\<rparr> =
        challengeTicket (cr_sha256 cr) s request (mr_Result r) (ar_AIDigest (mr_Result r)) (ar_AIDigest (mr_Result r)) zh"
proof -
  let ?sha = "cr_sha256 cr" and ?job = "mq_Job request"
  have guard: "mq_Height request \<noteq> 0" "mq_ParentHash request \<noteq> []"
    using assms(1) by (auto simp: Service_Mine_def split: if_splits)
  obtain result where res: "ValidateAIJob ?sha ?job = Inr ()" "Runner_Run ?sha (sv_Runner s) ?job = Inr result"
    using assms(1) guard by (cases "ValidateAIJob ?sha ?job"; cases "Runner_Run ?sha (sv_Runner s) ?job") (auto simp: Service_Mine_def Let_def)
  obtain zh zb where z: "mineZKML cr g s request result = Inr (zh, zb)"
    using assms guard res by (cases "mineZKML cr g s request result") (auto simp: Service_Mine_def mineSeal_def)
  let ?c = "challengeTicket ?sha s request result (ar_AIDigest result) (ar_AIDigest result) zh"
  have "s' = s \<and> map_option (\<lambda>mined. bindE (mapErr MinerMine mined) (\<lambda>ticket.
      let ticket = ticket\<lparr>tk_Signature := EncodeToString (cr_sign cr (sv_PrivateKey s) (TicketSigningBytes ticket))\<rparr>
      in Inr \<lparr>mr_Ticket = ticket, mr_Result = result, mr_Attestation = attest cr s request result zh, mr_AIProof = None, mr_ZKMLProof = zb\<rparr>))
      (Mine ?sha ctxDone ?c (sv_MaxNonce s)) = Some (Inr r)"
    using assms guard res z by (auto simp: Service_Mine_def mineSeal_def Let_def)
  then obtain t where t: "Mine ?sha ctxDone ?c (sv_MaxNonce s) = Some (Inr t)"
      "r = \<lparr>mr_Ticket = t\<lparr>tk_Signature := EncodeToString (cr_sign cr (sv_PrivateKey s) (TicketSigningBytes t))\<rparr>, mr_Result = result,
        mr_Attestation = attest cr s request result zh, mr_AIProof = None, mr_ZKMLProof = zb\<rparr>" "s' = s"
    by (auto simp: Let_def)
  have "tk_Nonce ?c = 0" "tk_WorkHash ?c = []" by (simp_all add: challengeTicket_def)
  then show ?thesis using guard res z t Mine_found[OF t(1)] by auto
qed

section \<open>Acceptance\<close>

text \<open>A miner that follows the node's configuration, and its response to a request.\<close>

definition configured :: "'x env \<Rightarrow> 'x Node \<Rightarrow> 'p Service \<Rightarrow> bool" where
  "configured v n s \<longleftrightarrow> sv_ProofProvider s = None \<and> sv_Difficulty s = nd_difficulty n \<and> sv_ManifestRoot s = nd_manifestRoot n
     \<and> sv_Runner s = nd_runner n \<and> sv_ZKMLProver s = nd_zkmlVerifier n
     \<and> PublicKey (nd_validators n) (sv_ID s) = Some (cr_public (nv_crypto v) (sv_PrivateKey s))"

definition honestResponse :: "'x env \<Rightarrow> 'x Node \<Rightarrow> MiningRequest \<Rightarrow> 'p Service \<times> MiningResponse \<Rightarrow> bool" where
  "honestResponse v n request sr \<longleftrightarrow> configured v n (fst sr)
     \<and> (\<exists>osOK ctxDone s'. Service_Mine (nv_crypto v) (nv_groth16 v) osOK ctxDone (fst sr) request = (s', Some (Inr (snd sr))))"

text \<open>The modes a node runs in: without AISeal proofs, and with the quantized runner where zkML is on.\<close>

definition modeOK :: "'x Node \<Rightarrow> bool" where
  "modeOK n \<longleftrightarrow> nd_aiSealManifest n = None
     \<and> (nd_zkmlVerifier n \<noteq> None \<longrightarrow> nd_runner n = QuantizedRunner (nd_manifestRoot n))"

lemma honestResponse_result:
  "honestResponse v n request (s, r) \<Longrightarrow> Runner_Run (nv_sha256 v) (nd_runner n) (mq_Job request) = Inr (mr_Result r)
    \<and> ValidateAIJob (nv_sha256 v) (mq_Job request) = Inr ()"
  using Service_Mine_spec by (fastforce simp: honestResponse_def configured_def)

lemma Runner_Verify_run: "Runner_Run sha256 rn job = Inr result \<Longrightarrow> Runner_Verify sha256 rn job result = Inr ()"
  using dummy.run_verifies quantized.run_verifies by (cases rn) (auto simp: Runner_Run_def Runner_Verify_def)

lemma validateResult_run:
  assumes "modeOK n" "Runner_Run (nv_sha256 v) (nd_runner n) job = Inr result"
  shows "validateResult v n job result = Inr ()"
proof (cases "nd_zkmlVerifier n")
  case None
  then show ?thesis using Runner_Verify_run[OF assms(2)] by (simp add: validateResult_def)
next
  case (Some c)
  then have "Quantized_Run (nv_sha256 v) (nd_manifestRoot n) job = Inr result"
    using assms by (simp add: modeOK_def Runner_Run_def)
  then show ?thesis using Some
    by (auto simp: validateResult_def validateResultCommitment_def Quantized_Run_def Let_def split: if_splits prod.splits)
qed

lemma checkTicket_honest:
  assumes "honestResponse v n request (s, r)" "modeOK n" "keysWork (nv_crypto v)"
  shows "checkTicket v n (mq_Height request) (mq_ParentHash request) (mq_Job request) (mr_Result r) pm (mr_Ticket r) = Inr ()"
    and "tk_MinerID (mr_Ticket r) = sv_ID s" "Ticket_Verify (nv_sha256 v) (mr_Ticket r) = Inr ()"
proof -
  obtain osOK ctxDone s' where m: "Service_Mine (nv_crypto v) (nv_groth16 v) osOK ctxDone s request = (s', Some (Inr r))"
    using assms(1) by (auto simp: honestResponse_def)
  have c: "configured v n s" using assms(1) by (simp add: honestResponse_def)
  obtain zh t where t: "mr_Ticket r = t\<lparr>tk_Signature := EncodeToString (cr_sign (nv_crypto v) (sv_PrivateKey s) (TicketSigningBytes t))\<rparr>"
      "Ticket_Verify (nv_sha256 v) t = Inr ()"
      "t\<lparr>tk_Nonce := 0, tk_WorkHash := []\<rparr> = challengeTicket (nv_sha256 v) s request (mr_Result r)
         (ar_AIDigest (mr_Result r)) (ar_AIDigest (mr_Result r)) zh"
    using Service_Mine_spec[OF m] c by (auto simp: configured_def)
  have fields: "tk_Height t = mq_Height request" "tk_ParentHash t = mq_ParentHash request" "tk_JobID t = aj_ID (mq_Job request)"
    "tk_ResultHash t = HashJSON (nv_sha256 v) (result_json (mr_Result r))" "tk_AIDigest t = ar_AIDigest (mr_Result r)"
    "tk_MinerID t = sv_ID s" "tk_Difficulty t = sv_Difficulty s" "tk_ManifestRoot t = sv_ManifestRoot s"
    "tk_AIProofHash t = ar_AIDigest (mr_Result r)"
    using t(3) by (cases t; simp add: challengeTicket_def)+
  show "tk_MinerID (mr_Ticket r) = sv_ID s" "Ticket_Verify (nv_sha256 v) (mr_Ticket r) = Inr ()"
    using t fields by simp_all
  show "checkTicket v n (mq_Height request) (mq_ParentHash request) (mq_Job request) (mr_Result r) pm (mr_Ticket r) = Inr ()"
    using t(1,2) fields c assms(2,3) unfolding checkTicket_ok ticketOK_def
    by (auto simp: configured_def modeOK_def keysWork_def)
qed

lemma ticket_zkml_hash:
  assumes "honestResponse v n request (s, r)"
  shows "\<exists>zh. mineZKML (nv_crypto v) (nv_groth16 v) s request (mr_Result r) = Inr (zh, mr_ZKMLProof r)
    \<and> mr_Attestation r = attest (nv_crypto v) s request (mr_Result r) zh \<and> tk_ZKMLProofHash (mr_Ticket r) = zh"
proof -
  obtain osOK ctxDone s' where m: "Service_Mine (nv_crypto v) (nv_groth16 v) osOK ctxDone s request = (s', Some (Inr r))"
    using assms(1) by (auto simp: honestResponse_def)
  have "sv_ProofProvider s = None" using assms(1) by (simp add: honestResponse_def configured_def)
  then obtain zh t where t: "mineZKML (nv_crypto v) (nv_groth16 v) s request (mr_Result r) = Inr (zh, mr_ZKMLProof r)"
      "mr_Attestation r = attest (nv_crypto v) s request (mr_Result r) zh"
      "mr_Ticket r = t\<lparr>tk_Signature := EncodeToString (cr_sign (nv_crypto v) (sv_PrivateKey s) (TicketSigningBytes t))\<rparr>"
      "t\<lparr>tk_Nonce := 0, tk_WorkHash := []\<rparr> = challengeTicket (nv_sha256 v) s request (mr_Result r)
         (ar_AIDigest (mr_Result r)) (ar_AIDigest (mr_Result r)) zh"
    using Service_Mine_spec[OF m] by blast
  have "tk_ZKMLProofHash t = zh" using t(4) by (cases t) (simp add: challengeTicket_def)
  then show ?thesis using t by auto
qed

lemma attest_simps [simp]:
  "at_WorkerID (attest cr s request result zh) = sv_ID s" "at_ZKMLProofHash (attest cr s request result zh) = zh"
  by (simp_all add: attest_def Let_def)

lemma checkAttestation_honest:
  assumes "honestResponse v n request (s, r)" "keysWork (nv_crypto v)" "tw (sv_ID s) = Some (mr_Ticket r)"
  shows "checkAttestation v n (mq_Height request) (mq_ParentHash request) (mq_Job request) (mr_Result r) tw (mr_Attestation r) = Inr ()"
proof -
  obtain zh where z: "mr_Attestation r = attest (nv_crypto v) s request (mr_Result r) zh" "tk_ZKMLProofHash (mr_Ticket r) = zh"
    using ticket_zkml_hash[OF assms(1)] by blast
  have "PublicKey (nd_validators n) (sv_ID s) = Some (cr_public (nv_crypto v) (sv_PrivateKey s))"
    using assms(1) by (simp add: honestResponse_def configured_def)
  then show ?thesis using z assms(2,3) by (simp add: checkAttestation_def attest_def Let_def keysWork_def
      InferenceSigningBytes_def inferenceSigning_json_def)
qed

text \<open>The zkML side of a response, in the two modes.\<close>

lemma zkml_off:
  assumes "honestResponse v n request (s, r)" "nd_zkmlVerifier n = None"
  shows "at_ZKMLProofHash (mr_Attestation r) = [] \<and> mr_ZKMLProof r = None"
proof -
  have "sv_ZKMLProver s = None" using assms by (simp add: honestResponse_def configured_def)
  then show ?thesis using ticket_zkml_hash[OF assms(1)] by (auto simp: mineZKML_def)
qed

lemma zkml_on:
  assumes "honestResponse v n request (s, r)" "nd_zkmlVerifier n = Some c" "groth16Complete (nv_groth16 v)"
  shows "\<exists>b. mr_ZKMLProof r = Some b \<and> zb_WorkerID b = sv_ID s \<and> zb_ProofHash b = ProofHash (nv_sha256 v) (proofOf b)
    \<and> zb_ProofHash b = at_ZKMLProofHash (mr_Attestation r) \<and> ar_Output (mr_Result r) = ''zkml-linear-v1:'' @ zb_Output b
    \<and> (zb_ModelCommitment b, zb_InputCommitment b, zb_Output b)
        = StatementFor (nv_sha256 v) (g_MiMC (nv_groth16 v)) (aj_Model (mq_Job request)) (aj_Prompt (mq_Job request))
    \<and> zkml_Verify (nv_groth16 v) c (proofOf b) = Inr ()"
proof -
  let ?g = "nv_groth16 v" and ?job = "mq_Job request"
  have p: "sv_ZKMLProver s = Some c" using assms(1,2) by (simp add: honestResponse_def configured_def)
  obtain input model where d: "Derive (nv_sha256 v) (aj_Model ?job) (aj_Prompt ?job) = (input, model)" by fastforce
  obtain zh where z: "mineZKML (nv_crypto v) ?g s request (mr_Result r) = Inr (zh, mr_ZKMLProof r)"
      "mr_Attestation r = attest (nv_crypto v) s request (mr_Result r) zh"
    using ticket_zkml_hash[OF assms(1)] by blast
  then obtain q where q: "zkml_Prove ?g c input model = Inr q" "ar_Output (mr_Result r) = ''zkml-linear-v1:'' @ zp_Output q"
      "zh = ProofHash (nv_sha256 v) q" "mr_ZKMLProof r = Some (bundleOf (sv_ID s) q zh)"
    using p d by (auto simp: mineZKML_def Let_def)
  note ok = zkml_prove_verify[OF assms(3) d q(1)]
  have "proofOf (bundleOf (sv_ID s) q zh) = q"
    using ok(3,4) by (cases q) (auto simp: proofOf_def bundleOf_def copySlice_def)
  then show ?thesis using q z(2) ok(1,2) by (simp add: bundleOf_def)
qed

text \<open>When every attestation passes, so does the loop over them, whatever was remembered before.\<close>

definition zkmlPasses :: "'x env \<Rightarrow> 'x Node \<Rightarrow> AIJob \<Rightarrow> AIResult \<Rightarrow> (string \<rightharpoonup> ZKMLProofBundle) \<Rightarrow> InferenceAttestation \<Rightarrow> bool" where
  "zkmlPasses v n job result pw a \<longleftrightarrow>
     (case nd_zkmlVerifier n of
        None \<Rightarrow> at_ZKMLProofHash a = []
      | Some c \<Rightarrow> \<exists>b. pw (at_WorkerID a) = Some b \<and> zb_ProofHash b = ProofHash (nv_sha256 v) (proofOf b)
          \<and> zb_ProofHash b = at_ZKMLProofHash a \<and> ar_Output result = ''zkml-linear-v1:'' @ zb_Output b
          \<and> (zb_ModelCommitment b, zb_InputCommitment b) =
              (fst (StatementFor (nv_sha256 v) (g_MiMC (nv_groth16 v)) (aj_Model job) (aj_Prompt job)),
               fst (snd (StatementFor (nv_sha256 v) (g_MiMC (nv_groth16 v)) (aj_Model job) (aj_Prompt job))))
          \<and> zkml_Verify (nv_groth16 v) c (proofOf b) = Inr ())"

lemma checkZKML_passes:
  assumes "nd_zkmlVerifier n = Some c" "zkmlPasses v n job result pw a"
  shows "\<exists>n'. checkZKML v n c job result pw a = (n', Inr ())"
  using assms by (auto simp: checkZKML_def zkmlPasses_def proofOf_def Let_def split: prod.splits)

lemma checkAttestations_complete:
  "distinct (map at_WorkerID as) \<Longrightarrow> at_WorkerID ` set as \<inter> seen = {} \<Longrightarrow>
   \<forall>a \<in> set as. checkAttestation v n h p job result tw a = Inr () \<and> zkmlPasses v n job result pw a \<Longrightarrow>
   \<exists>n'. checkAttestations v n h p job result tw pw seen as = (n', Inr ())"
proof (induction as arbitrary: n seen)
  case (Cons a as)
  have step: "\<exists>n'. checkAttestations v m h p job result tw pw (insert (at_WorkerID a) seen) as = (n', Inr ())" if "keeps n m" for m
  proof (rule Cons.IH)
    show "\<forall>a \<in> set as. checkAttestation v m h p job result tw a = Inr () \<and> zkmlPasses v m job result pw a"
      using Cons.prems(3) keeps_fields[OF that] by (simp add: checkAttestation_def zkmlPasses_def)
  qed (use Cons.prems in auto)
  show ?case
  proof (cases "nd_zkmlVerifier n")
    case None
    then show ?thesis using Cons.prems step[of n] by (auto simp: zkmlPasses_def Let_def)
  next
    case (Some c)
    then obtain m where m: "checkZKML v n c job result pw a = (m, Inr ())" using checkZKML_passes Cons.prems(3) by fastforce
    then have "keeps n m" using checkZKML_keeps by blast
    then show ?thesis using Cons.prems step[of m] m Some by (auto simp: Let_def)
  qed
qed simp

section \<open>A round of honest miners\<close>

text \<open>
  The responses of honest miners with different identifiers, in the orders in which tickets,
  attestations and bundles were collected.
\<close>

definition honestRound ::
  "'x env \<Rightarrow> 'x Node \<Rightarrow> MiningRequest \<Rightarrow> ('p Service \<times> MiningResponse) list \<Rightarrow> PoWTicket list \<Rightarrow> InferenceAttestation list
     \<Rightarrow> ZKMLProofBundle list \<Rightarrow> bool" where
  "honestRound v n request xs ts as zs \<longleftrightarrow>
     (\<forall>x \<in> set xs. honestResponse v n request x) \<and> distinct (map (sv_ID \<circ> fst) xs) \<and> Quorum (nd_validators n) \<le> length xs
     \<and> mset ts = mset (map (mr_Ticket \<circ> snd) xs) \<and> mset as = mset (map (mr_Attestation \<circ> snd) xs)
     \<and> mset zs = mset (List.map_filter (mr_ZKMLProof \<circ> snd) xs)"

lemma mset_map_cong: "mset xs = mset ys \<Longrightarrow> mset (map f xs) = mset (map f ys)"
  by simp

lemma honestRound_results:
  "honestRound v n request xs ts as zs \<Longrightarrow> (s, r) \<in> set xs \<Longrightarrow> (s', r') \<in> set xs \<Longrightarrow> mr_Result r = mr_Result r'"
  unfolding honestRound_def using honestResponse_result by (metis sum.inject(2))

lemma round_competition:
  assumes "honestRound v n request xs ts as zs" "modeOK n" "keysWork (nv_crypto v)" "(s, r) \<in> set xs"
  shows "\<exists>winner. validateCompetition v n (mq_Height request) (mq_ParentHash request) (mq_Job request) (mr_Result r) ts [] = Inr winner"
    and "distinct (map tk_MinerID ts)"
proof -
  have set: "set ts = (mr_Ticket \<circ> snd) ` set xs" using assms(1) by (metis honestRound_def mset_eq_setD set_map)
  have honest: "honestResponse v n request x" if "x \<in> set xs" for x using assms(1) that by (simp add: honestRound_def)
  have ids: "map tk_MinerID (map (mr_Ticket \<circ> snd) xs) = map (sv_ID \<circ> fst) xs"
    using checkTicket_honest(2)[OF honest] assms(2,3) by auto
  have "mset (map tk_MinerID ts) = mset (map tk_MinerID (map (mr_Ticket \<circ> snd) xs))"
    by (rule mset_map_cong) (use assms(1) in \<open>simp add: honestRound_def\<close>)
  then have "mset (map tk_MinerID ts) = mset (map (sv_ID \<circ> fst) xs)" by (simp only: ids)
  then have "distinct (map tk_MinerID ts) = distinct (map (sv_ID \<circ> fst) xs)" by (rule mset_eq_imp_distinct_iff)
  then show d: "distinct (map tk_MinerID ts)" using assms(1) by (simp add: honestRound_def)
  have tick: "checkTicket v n (mq_Height request) (mq_ParentHash request) (mq_Job request) (mr_Result r) pm t = Inr ()
      \<and> Ticket_Verify (nv_sha256 v) t = Inr ()" if member: "t \<in> set ts" for t pm
  proof -
    obtain s' r' where x: "(s', r') \<in> set xs" "t = mr_Ticket r'" using member set by auto
    then have "mr_Result r' = mr_Result r" using honestRound_results[OF assms(1)] assms(4) by metis
    then show ?thesis using checkTicket_honest[OF honest[OF x(1)] assms(2,3)] x(2) by metis
  qed
  have "ts \<noteq> []" using set assms(4) by auto
  then have "SelectWinner (nv_sha256 v) ts = Inr (hd (sortSlice (\<lambda>t. (tk_WorkHash t, tk_MinerID t)) ts))"
    using tick by (simp add: SelectWinner_def)
  then show "\<exists>winner. validateCompetition v n (mq_Height request) (mq_ParentHash request) (mq_Job request) (mr_Result r) ts [] = Inr winner"
    using tick d assms(2) by (auto simp: validateCompetition_ok modeOK_def)
qed

text \<open>Every honest attestation has its ticket and its bundle.\<close>

lemma round_lookup:
  assumes "honestRound v n request xs ts as zs" "modeOK n" "keysWork (nv_crypto v)" "(s, r) \<in> set xs"
  shows "byKey tk_MinerID ts (sv_ID s) = Some (mr_Ticket r)"
proof -
  have "set ts = (mr_Ticket \<circ> snd) ` set xs" using assms(1) by (metis honestRound_def mset_eq_setD set_map)
  then have "mr_Ticket r \<in> set ts" using assms(4) by force
  moreover have "tk_MinerID (mr_Ticket r) = sv_ID s"
    using checkTicket_honest(2)[of v n request s r] assms by (simp add: honestRound_def)
  ultimately show ?thesis using byKey_distinct[OF round_competition(2)[OF assms]] by metis
qed

lemma map_filter_all:
  "(\<And>x. x \<in> set xs \<Longrightarrow> \<exists>y. f x = Some y) \<Longrightarrow> List.map_filter f xs = map (\<lambda>x. the (f x)) xs"
  by (induction xs) (auto simp: List.map_filter_def)

lemma map_filter_none: "(\<And>x. x \<in> set xs \<Longrightarrow> f x = None) \<Longrightarrow> List.map_filter f xs = []"
  by (induction xs) (auto simp: List.map_filter_def)

lemma round_bundles:
  assumes "honestRound v n request xs ts as zs" "groth16Complete (nv_groth16 v)"
  shows "nd_zkmlVerifier n = None \<Longrightarrow> zs = []"
    and "nd_zkmlVerifier n = Some c \<Longrightarrow> mset (map zb_WorkerID zs) = mset (map (sv_ID \<circ> fst) xs)"
    and "nd_zkmlVerifier n = Some c \<Longrightarrow> (s, r) \<in> set xs \<Longrightarrow> \<exists>b. mr_ZKMLProof r = Some b \<and> byKey zb_WorkerID zs (sv_ID s) = Some b"
proof -
  have honest: "honestResponse v n request x" if "x \<in> set xs" for x using assms(1) that by (simp add: honestRound_def)
  have zs: "mset zs = mset (List.map_filter (mr_ZKMLProof \<circ> snd) xs)" using assms(1) by (simp add: honestRound_def)
  show "zs = []" if "nd_zkmlVerifier n = None"
  proof -
    have "List.map_filter (mr_ZKMLProof \<circ> snd) xs = []" by (rule map_filter_none) (use zkml_off[OF honest that] in auto)
    then show ?thesis using zs by simp
  qed
  assume c: "nd_zkmlVerifier n = Some c"
  note on = zkml_on[OF honest c assms(2)]
  have bs: "List.map_filter (mr_ZKMLProof \<circ> snd) xs = map (\<lambda>x. the (mr_ZKMLProof (snd x))) xs"
    using map_filter_all[of xs "mr_ZKMLProof \<circ> snd"] on by fastforce
  have "mset (map zb_WorkerID zs) = mset (map zb_WorkerID (map (\<lambda>x. the (mr_ZKMLProof (snd x))) xs))"
    by (rule mset_map_cong) (simp add: zs bs)
  also have "map zb_WorkerID (map (\<lambda>x. the (mr_ZKMLProof (snd x))) xs) = map (sv_ID \<circ> fst) xs" using on by fastforce
  finally show ids: "mset (map zb_WorkerID zs) = mset (map (sv_ID \<circ> fst) xs)" .
  assume x: "(s, r) \<in> set xs"
  obtain b where b: "mr_ZKMLProof r = Some b" "zb_WorkerID b = sv_ID s" using on[OF x] by auto
  have "set zs = (\<lambda>x. the (mr_ZKMLProof (snd x))) ` set xs" using zs bs by (metis mset_eq_setD set_map)
  then have "b \<in> set zs" using x b(1) by force
  moreover have "distinct (map zb_WorkerID zs)"
    using mset_eq_imp_distinct_iff[OF ids] assms(1) by (simp add: honestRound_def)
  ultimately show "\<exists>b. mr_ZKMLProof r = Some b \<and> byKey zb_WorkerID zs (sv_ID s) = Some b"
    using byKey_distinct[of zb_WorkerID zs b] b by simp
qed

lemma round_certificate:
  assumes "honestRound v n request xs ts as zs" "modeOK n" "keysWork (nv_crypto v)" "groth16Complete (nv_groth16 v)"
    and "(s, r) \<in> set xs" "nd_minZKMLProofs n \<le> int (length xs)"
  shows "\<exists>n'. validateResultCertificate v n (mq_Height request) (mq_ParentHash request) (mq_Job request) (mr_Result r) ts
      \<lparr>rc_ResultHash = HashJSON (nv_sha256 v) (result_json (mr_Result r)), rc_Attestations = Some as\<rparr> zs = (n', Inr ())"
proof -
  have honest: "honestResponse v n request x" if "x \<in> set xs" for x using assms(1) that by (simp add: honestRound_def)
  have worker: "at_WorkerID (mr_Attestation r') = sv_ID s'" if "(s', r') \<in> set xs" for s' r'
    using ticket_zkml_hash[OF honest[OF that]] by auto
  have len: "length as = length xs" "length ts = length xs"
    using assms(1) by (metis honestRound_def mset_eq_length length_map)+
  have "mset (map at_WorkerID as) = mset (map at_WorkerID (map (mr_Attestation \<circ> snd) xs))"
    by (rule mset_map_cong) (use assms(1) in \<open>simp add: honestRound_def\<close>)
  also have "map at_WorkerID (map (mr_Attestation \<circ> snd) xs) = map (sv_ID \<circ> fst) xs" using worker by auto
  finally have "distinct (map at_WorkerID as) = distinct (map (sv_ID \<circ> fst) xs)" by (rule mset_eq_imp_distinct_iff)
  then have d: "distinct (map at_WorkerID as)" using assms(1) by (simp add: honestRound_def)
  have each: "checkAttestation v n (mq_Height request) (mq_ParentHash request) (mq_Job request) (mr_Result r) (byKey tk_MinerID ts) a = Inr ()
      \<and> zkmlPasses v n (mq_Job request) (mr_Result r) (byKey zb_WorkerID zs) a" if member: "a \<in> set as" for a
  proof -
    have "set as = (mr_Attestation \<circ> snd) ` set xs" using assms(1) by (metis honestRound_def mset_eq_setD set_map)
    then obtain s' r' where x: "(s', r') \<in> set xs" "a = mr_Attestation r'" using member by auto
    have same: "mr_Result r' = mr_Result r" using honestRound_results[OF assms(1) x(1) assms(5)] .
    have "checkAttestation v n (mq_Height request) (mq_ParentHash request) (mq_Job request) (mr_Result r) (byKey tk_MinerID ts) a = Inr ()"
      using checkAttestation_honest[OF honest[OF x(1)] assms(3), of "byKey tk_MinerID ts"] round_lookup[OF assms(1-3) x(1)] same x(2) by simp
    moreover have "zkmlPasses v n (mq_Job request) (mr_Result r) (byKey zb_WorkerID zs) a"
    proof (cases "nd_zkmlVerifier n")
      case None
      then show ?thesis using zkml_off[OF honest[OF x(1)]] x(2) by (simp add: zkmlPasses_def)
    next
      case (Some c)
      obtain b where b: "mr_ZKMLProof r' = Some b" "byKey zb_WorkerID zs (sv_ID s') = Some b"
        using round_bundles(3)[OF assms(1,4) Some x(1)] by blast
      have "StatementFor (nv_sha256 v) (g_MiMC (nv_groth16 v)) (aj_Model (mq_Job request)) (aj_Prompt (mq_Job request)) =
          (zb_ModelCommitment b, zb_InputCommitment b, zb_Output b)"
        using zkml_on[OF honest[OF x(1)] Some assms(4)] b(1) by auto
      then show ?thesis using zkml_on[OF honest[OF x(1)] Some assms(4)] b worker[OF x(1)] Some same x(2)
        by (auto simp: zkmlPasses_def)
    qed
    ultimately show ?thesis by simp
  qed
  obtain n' where n': "checkAttestations v n (mq_Height request) (mq_ParentHash request) (mq_Job request) (mr_Result r)
      (byKey tk_MinerID ts) (byKey zb_WorkerID zs) {} as = (n', Inr ())"
    using checkAttestations_complete[OF d, of "{}"] each by fastforce
  have zk: "distinct (map zb_WorkerID zs) \<and> (nd_zkmlVerifier n = None \<longrightarrow> zs = []) \<and> (nd_zkmlVerifier n \<noteq> None \<longrightarrow> length zs = length xs)"
  proof (cases "nd_zkmlVerifier n")
    case None
    then show ?thesis using round_bundles(1)[OF assms(1,4)] by simp
  next
    case (Some c)
    note ids = round_bundles(2)[OF assms(1,4) Some]
    have "length zs = length xs" using mset_eq_length[OF ids] by simp
    moreover have "distinct (map zb_WorkerID zs)" using mset_eq_imp_distinct_iff[OF ids] assms(1) by (simp add: honestRound_def)
    ultimately show ?thesis using Some by simp
  qed
  have "firstDuplicate zb_WorkerID {} zs = None" using zk by (simp add: firstDuplicate_None)
  then show ?thesis
    using n' zk len assms(1,6) by (auto simp: validateResultCertificate_def honestRound_def Let_def)
qed

end
