(* ===== verification/HotStuff_Laws.thy ===== *)
theory HotStuff_Laws
  imports HotStuff Protocol_Laws
begin

text \<open>
  Quorum certificates and the replica. The counting argument behind agreement is an interface
  (\<open>quorum_system\<close>) interpreted on the threshold of \<open>Quorum\<close>; the replicas, an unreliable network
  and Byzantine validators are a step relation whose reachable states keep one invariant, from which
  agreement of the finalized chains follows.
\<close>

section \<open>Certificates\<close>

lemma VerifyVote_ok:
  "VerifyVote cr s vote = Inr u \<longleftrightarrow> (\<exists>key sig. vs_keys s (vt_VoterID vote) = Some key
     \<and> DecodeString (vt_Signature vote) = Some sig
     \<and> cr_verify cr key (VoteSigningBytes (vt_Phase vote) (vt_Height vote) (vt_BlockHash vote)) sig)"
  by (auto simp: VerifyVote_def split: option.splits)

definition voteOK :: "crypto \<Rightarrow> ValidatorSet \<Rightarrow> Phase \<Rightarrow> u64 \<Rightarrow> string \<Rightarrow> Vote \<Rightarrow> bool" where
  "voteOK cr s phase height blockHash v \<longleftrightarrow> vt_Phase v = phase \<and> vt_Height v = height \<and> vt_BlockHash v = blockHash
     \<and> (VerifyVote cr s v :: unit hs_error + unit) = Inr ()"

lemma voteOK_verify: "(VerifyVote cr s v :: 'e hs_error + unit) = Inr () \<longleftrightarrow> (VerifyVote cr s v :: unit hs_error + unit) = Inr ()"
  by (simp add: VerifyVote_ok)

lemma uniqueVotes_ok:
  "uniqueVotes cr s phase height blockHash votes unique = (Inr us :: 'e hs_error + Vote list) \<longleftrightarrow>
     us = unique @ votes \<and> (\<forall>v \<in> set votes. voteOK cr s phase height blockHash v)
     \<and> distinct (map vt_VoterID votes) \<and> vt_VoterID ` set votes \<inter> vt_VoterID ` set unique = {}"
proof (induction votes arbitrary: unique)
  case (Cons v votes)
  show ?case
    by (auto simp: Cons.IH voteOK_def voteOK_verify[where 'e = 'e])
qed auto

lemma MakeQC_ok:
  "(MakeQC cr s phase height blockHash votes :: 'e hs_error + QuorumCertificate) = Inr qc \<longleftrightarrow>
     (\<forall>v \<in> set votes. voteOK cr s phase height blockHash v) \<and> distinct (map vt_VoterID votes)
     \<and> Quorum s \<le> length votes
     \<and> qc = \<lparr>qc_Phase = phase, qc_Height = height, qc_BlockHash = blockHash, qc_Votes = sortSlice vt_VoterID votes\<rparr>"
  by (auto simp: MakeQC_def uniqueVotes_ok)

lemma VerifyQC_ok:
  "(VerifyQC cr s qc :: 'e hs_error + unit) = Inr u \<longleftrightarrow>
     (\<forall>v \<in> set (qc_Votes qc). voteOK cr s (qc_Phase qc) (qc_Height qc) (qc_BlockHash qc) v)
     \<and> distinct (map vt_VoterID (qc_Votes qc)) \<and> Quorum s \<le> length (qc_Votes qc)"
  by (simp add: VerifyQC_def MakeQC_ok)

section \<open>Quorums\<close>

text \<open>
  What consensus needs of a threshold: with fewer than a third of the members faulty, two
  certificates share an honest voter, and the honest members alone can make a certificate.
\<close>

locale quorum_system =
  fixes threshold :: "nat \<Rightarrow> nat"
  assumes overlap: "3 * f < n \<Longrightarrow> n + f < 2 * threshold n"
    and live: "3 * f < n \<Longrightarrow> threshold n + f \<le> n"
begin

lemma common_honest:
  assumes "finite M" "B \<subseteq> M" "3 * card B < card M"
    and "P \<subseteq> M" "Q \<subseteq> M" "threshold (card M) \<le> card P" "threshold (card M) \<le> card Q"
  shows "\<exists>x \<in> P \<inter> Q. x \<notin> B"
proof (rule ccontr)
  assume "\<not> ?thesis"
  then have "card (P \<inter> Q) \<le> card B"
    using assms(1,2) by (intro card_mono) (auto intro: finite_subset)
  moreover have "card P + card Q = card (P \<union> Q) + card (P \<inter> Q)"
    using assms(1,4,5) by (intro card_Un_Int) (auto intro: finite_subset)
  moreover have "card (P \<union> Q) \<le> card M" using assms(1,4,5) by (intro card_mono) auto
  ultimately show False using overlap[OF assms(3)] assms(6,7) by linarith
qed

lemma certificates_agree:
  assumes "finite M" "B \<subseteq> M" "3 * card B < card M"
    and "P \<subseteq> M" "Q \<subseteq> M" "threshold (card M) \<le> card P" "threshold (card M) \<le> card Q"
    and "\<And>v. v \<in> P - B \<Longrightarrow> voted v x" "\<And>v. v \<in> Q - B \<Longrightarrow> voted v y"
    and once: "\<And>v x y. v \<in> M - B \<Longrightarrow> voted v x \<Longrightarrow> voted v y \<Longrightarrow> x = y"
  shows "x = y"
proof -
  obtain v where "v \<in> P" "v \<in> Q" "v \<notin> B" using common_honest[OF assms(1-7)] by blast
  then show ?thesis using assms(4,8,9) once by blast
qed

lemma honest_suffice: "finite M \<Longrightarrow> B \<subseteq> M \<Longrightarrow> 3 * card B < card M \<Longrightarrow> threshold (card M) \<le> card (M - B)"
  using live[of "card B" "card M"] by (simp add: card_Diff_subset finite_subset)

end

interpretation hs: quorum_system "\<lambda>n. (2 * n) div 3 + 1"
proof
  fix f n :: nat
  define q where "q = 2 * n div 3"
  assume f: "3 * f < n"
  have q: "2 * n < 3 * q + 3" "3 * q \<le> 2 * n" by (simp_all add: q_def)
  have "n + f < 2 * (q + 1)" using q(1) f by arith
  then show "n + f < 2 * (2 * n div 3 + 1)" by (simp add: q_def)
  have "q + 1 + f \<le> n" using q(2) f by arith
  then show "2 * n div 3 + 1 + f \<le> n" by (simp add: q_def)
qed

section \<open>Validator sets\<close>

lemma NewValidatorSet_ok:
  assumes "NewValidatorSet keys = Inr s" "distinct (map fst keys)"
  shows "4 \<le> length (vs_ids s)" "distinct (vs_ids s)" "sorted (vs_ids s)" "set (vs_ids s) = dom (vs_keys s)"
    "\<And>i k. vs_keys s i = Some k \<Longrightarrow> i \<noteq> [] \<and> length k = 32"
proof -
  have ok: "\<And>i k. (i, k) \<in> set keys \<Longrightarrow> i \<noteq> [] \<and> length k = 32"
    and s: "4 \<le> length keys" "s = \<lparr>vs_keys = map_of keys, vs_ids = sort (map fst keys)\<rparr>"
    using assms(1) by (fastforce simp: NewValidatorSet_def split: if_splits)+
  show "4 \<le> length (vs_ids s)" "distinct (vs_ids s)" "sorted (vs_ids s)" using s assms(2) by simp_all
  show "set (vs_ids s) = dom (vs_keys s)" using s by (simp add: dom_map_of_conv_image_fst)
  show "\<And>i k. vs_keys s i = Some k \<Longrightarrow> i \<noteq> [] \<and> length k = 32" using s ok by (simp, blast dest: map_of_SomeD)
qed

lemma Quorum_eq: "distinct (vs_ids s) \<Longrightarrow> Quorum s = 2 * card (set (vs_ids s)) div 3 + 1"
  by (simp add: Quorum_def VS_Len_def distinct_card)

section \<open>Voting\<close>

text \<open>What a replica has voted for at a height in a phase; the empty string is no vote.\<close>

definition votedFor :: "Replica \<Rightarrow> u64 \<Rightarrow> Phase \<Rightarrow> string" where
  "votedFor r h p = (case rp_voted r h of None \<Rightarrow> [] | Some m \<Rightarrow> (case m p of None \<Rightarrow> [] | Some b \<Rightarrow> b))"

lemma voteLocked_refused:
  assumes "votedFor r height phase \<noteq> []" "votedFor r height phase \<noteq> b"
  shows "snd (voteLocked cr r phase height b) = Inl (DoubleVote height phase)"
    and "votedFor (fst (voteLocked cr r phase height b)) = votedFor r"
  using assms by (auto simp: voteLocked_def votedFor_def Let_def fun_eq_iff split: option.splits)

lemma voteLocked_cast:
  assumes "votedFor r height phase = [] \<or> votedFor r height phase = b"
  shows "snd (voteLocked cr r phase height b) = Inr \<lparr>vt_Phase = phase, vt_Height = height, vt_BlockHash = b,
      vt_VoterID = rp_id r,
      vt_Signature = EncodeToString (cr_sign cr (rp_privateKey r) (VoteSigningBytes phase height b))\<rparr>"
    and "votedFor (fst (voteLocked cr r phase height b)) =
      (votedFor r)(height := (votedFor r height)(phase := b))"
  using assms by (auto simp: voteLocked_def votedFor_def Let_def fun_eq_iff split: option.splits)

lemma voteLocked_cases [consumes 1, case_names refused cast]:
  assumes "voteLocked cr r phase height b = (r', res)"
  obtains "votedFor r height phase \<noteq> []" "votedFor r height phase \<noteq> b" "res = Inl (DoubleVote height phase)"
      "votedFor r' = votedFor r"
    | v where "votedFor r height phase = [] \<or> votedFor r height phase = b" "res = Inr v"
      "vt_Phase v = phase" "vt_Height v = height" "vt_BlockHash v = b" "vt_VoterID v = rp_id r"
      "votedFor r' = (votedFor r)(height := (votedFor r height)(phase := b))"
  using voteLocked_refused[of r height phase b cr] voteLocked_cast[of r height phase b cr] assms
  by (metis Vote.select_convs(1-4) fst_conv snd_conv)

lemma voteLocked_frame:
  assumes "voteLocked cr r phase height b = (r', res)"
  shows "rp_id r' = rp_id r" "rp_validators r' = rp_validators r" "rp_privateKey r' = rp_privateKey r"
    "rp_height r' = rp_height r" "rp_tipHash r' = rp_tipHash r" "rp_blocks r' = rp_blocks r"
    "rp_lockedHeight r' = rp_lockedHeight r" "rp_lockedHash r' = rp_lockedHash r" "rp_pending r' = rp_pending r"
  using assms by (auto simp: voteLocked_def Let_def split: if_splits)

lemma votedFor_update [simp]:
  "votedFor (r\<lparr>rp_pending := x\<rparr>) = votedFor r"
  "votedFor (r\<lparr>rp_lockedHeight := h, rp_lockedHash := b\<rparr>) = votedFor r"
  "votedFor (r\<lparr>rp_blocks := bs, rp_height := h, rp_tipHash := t\<rparr>) = votedFor r"
  by (auto simp: votedFor_def fun_eq_iff)

end
