(* ===== verification/HotStuff_Safety.thy ===== *)
theory HotStuff_Safety
  imports HotStuff_Laws
begin

text \<open>
  Safety of the consensus. Honest validators run the replica of \<open>HotStuff\<close>; the others, and the
  network, are unconstrained except that they cannot produce a signature an honest validator did
  not make. The handlers are first reduced to three effects on a replica (nothing, a vote, a
  commit); the invariant of the system is proved over the effects.
\<close>

section \<open>Effects of the handlers\<close>

definition sameChain :: "Replica \<Rightarrow> Replica \<Rightarrow> bool" where
  "sameChain r r' \<longleftrightarrow> rp_id r' = rp_id r \<and> rp_validators r' = rp_validators r \<and> rp_privateKey r' = rp_privateKey r
     \<and> rp_height r' = rp_height r \<and> rp_tipHash r' = rp_tipHash r \<and> rp_blocks r' = rp_blocks r"

inductive effect :: "crypto \<Rightarrow> Replica \<Rightarrow> Vote option \<Rightarrow> QuorumCertificate option \<Rightarrow> Replica \<Rightarrow> bool" for cr where
  idle: "sameChain r r' \<Longrightarrow> votedFor r' = votedFor r \<Longrightarrow> effect cr r None qco r'"
| votes: "sameChain r r' \<Longrightarrow> vt_VoterID v = rp_id r \<Longrightarrow> vt_BlockHash v \<noteq> [] \<Longrightarrow>
    votedFor r (vt_Height v) (vt_Phase v) \<in> {[], vt_BlockHash v} \<Longrightarrow>
    votedFor r' = (votedFor r)(vt_Height v := (votedFor r (vt_Height v))(vt_Phase v := vt_BlockHash v)) \<Longrightarrow>
    effect cr r (Some v) qco r'"
| commits: "(VerifyQC cr (rp_validators r) qc :: unit hs_error + unit) = Inr () \<Longrightarrow> qc_Phase qc = PhaseCommit \<Longrightarrow>
    qc_BlockHash qc = Block_Hash (cr_sha256 cr) block \<Longrightarrow> qc_Height qc = bh_Height (bl_Header block) \<Longrightarrow>
    bh_Height (bl_Header block) = rp_height r + 1 \<Longrightarrow> bh_ParentHash (bl_Header block) = rp_tipHash r \<Longrightarrow>
    rp_id r' = rp_id r \<Longrightarrow> rp_validators r' = rp_validators r \<Longrightarrow> rp_privateKey r' = rp_privateKey r \<Longrightarrow>
    rp_height r' = bh_Height (bl_Header block) \<Longrightarrow> rp_tipHash r' = Block_Hash (cr_sha256 cr) block \<Longrightarrow>
    rp_blocks r' = rp_blocks r @ [block] \<Longrightarrow> votedFor r' = votedFor r \<Longrightarrow>
    effect cr r None (Some qc) r'"

lemma sameChain_refl [simp]: "sameChain r r"
  by (simp add: sameChain_def)

lemma sameChain_updates [simp]:
  "sameChain r (r'\<lparr>rp_pending := x\<rparr>) = sameChain r r'" "sameChain (r\<lparr>rp_pending := x\<rparr>) r' = sameChain r r'"
  "sameChain (r\<lparr>rp_lockedHeight := h, rp_lockedHash := b\<rparr>) r' = sameChain r r'"
  by (simp_all add: sameChain_def)

lemma voteLocked_effect:
  assumes "voteLocked cr q phase height b = (r', res)" "b \<noteq> []" "sameChain r q" "votedFor q = votedFor r"
  shows "effect cr r (case res of Inl _ \<Rightarrow> None | Inr v \<Rightarrow> Some v) qco r'"
proof -
  have f: "sameChain r r'" "rp_id q = rp_id r"
    using assms(3) voteLocked_frame[OF assms(1)] by (auto simp: sameChain_def)
  from assms(1) show ?thesis
  proof (cases rule: voteLocked_cases)
    case refused
    then show ?thesis using f assms(4) by (auto intro: effect.idle)
  next
    case (cast v)
    then show ?thesis using f assms(2,4) by (auto intro!: effect.votes)
  qed
qed

lemma OnProposal_effect:
  assumes "OnProposal cr validate n r block = (n', r', res)"
  shows "effect cr r (case res of Inl _ \<Rightarrow> None | Inr v \<Rightarrow> Some v) None r'"
proof -
  let ?h = "Block_Hash (cr_sha256 cr) block"
  consider e where "r' = r" "res = Inl e"
    | "voteLocked cr (r\<lparr>rp_pending := (rp_pending r)(?h \<mapsto> block)\<rparr>) PhasePrepare (bh_Height (bl_Header block)) ?h = (r', res)"
    using assms by (auto simp: OnProposal_def Let_def split: prod.splits sum.splits if_splits)
  then show ?thesis
  proof cases
    case 2
    then show ?thesis by (rule voteLocked_effect) simp_all
  qed (simp add: effect.idle)
qed

definition qcVote :: "'e hs_error + (Vote option \<times> bool) \<Rightarrow> Vote option" where
  "qcVote res = (case res of Inl _ \<Rightarrow> None | Inr (v, _) \<Rightarrow> v)"

lemma onPhase_effect:
  assumes "onPhase cr q block qc hash = (r', res)" "q = r\<lparr>rp_pending := x\<rparr>" "hash = Block_Hash (cr_sha256 cr) block"
    and "(VerifyQC cr (rp_validators r) qc :: unit hs_error + unit) = Inr ()" "qc_BlockHash qc = hash"
    "qc_Height qc = bh_Height (bl_Header block)"
  shows "effect cr r (qcVote res) (Some qc) r'"
proof -
  have withVote: "effect cr r (qcVote res) (Some qc) r'"
    if "voteLocked cr q' phase h hash = (r', v)" "res = bindE v (\<lambda>vote. Inr (Some vote, False))"
      "sameChain r q'" "votedFor q' = votedFor r" for q' phase h v
    using voteLocked_effect[OF that(1) _ that(3,4), of "Some qc"] that(2) assms(3)
    by (cases v) (simp_all add: qcVote_def)
  show ?thesis
  proof (cases "qc_Phase qc = PhaseCommit")
    case True
    then have p: "qc_Phase qc \<noteq> PhasePrepare" "qc_Phase qc \<noteq> PhasePreCommit"
      by (simp_all add: PhaseCommit_def PhasePrepare_def PhasePreCommit_def)
    consider "r' = q" "qcVote res = None"
      | "bh_Height (bl_Header block) = rp_height r + 1" "bh_ParentHash (bl_Header block) = rp_tipHash r"
        "r' = q\<lparr>rp_blocks := rp_blocks q @ [block], rp_height := bh_Height (bl_Header block), rp_tipHash := hash,
           rp_pending := (rp_pending q)(hash := None)\<rparr>" "qcVote res = None"
      using assms(1,2) True p by (auto simp: onPhase_def Let_def qcVote_def split: if_splits)
    then show ?thesis
    proof cases
      case 1
      then show ?thesis using assms(2) by (simp add: effect.idle)
    next
      case 2
      show ?thesis unfolding 2(4)
        by (rule effect.commits) (use 2 True assms in simp_all)
    qed
  next
    case False
    consider v where "voteLocked cr q PhasePreCommit (qc_Height qc) hash = (r', v)"
        "res = bindE v (\<lambda>vote. Inr (Some vote, False))"
      | v where "voteLocked cr (q\<lparr>rp_lockedHeight := qc_Height qc, rp_lockedHash := hash\<rparr>) PhaseCommit (qc_Height qc) hash = (r', v)"
        "res = bindE v (\<lambda>vote. Inr (Some vote, False))"
      | "r' = q" "qcVote res = None"
      using assms(1) False by (auto simp: onPhase_def Let_def qcVote_def split: if_splits prod.splits)
    then show ?thesis
    proof cases
      case 1
      then show ?thesis by (rule withVote) (simp_all add: assms(2))
    next
      case 2
      then show ?thesis by (rule withVote) (simp_all add: assms(2) sameChain_def)
    next
      case 3
      then show ?thesis by (simp add: effect.idle assms(2))
    qed
  qed
qed

lemma OnQC_effect:
  assumes "OnQC cr validate n r block qc = (n', r', res)"
  shows "effect cr r (qcVote res) (Some qc) r'"
proof -
  let ?h = "Block_Hash (cr_sha256 cr) block"
  consider e where "r' = r" "res = Inl e"
    | "onPhase cr (r\<lparr>rp_pending := (rp_pending r)(?h \<mapsto> block)\<rparr>) block qc ?h = (r', res)"
      "(VerifyQC cr (rp_validators r) qc :: unit hs_error + unit) = Inr ()" "qc_BlockHash qc = ?h"
      "qc_Height qc = bh_Height (bl_Header block)"
    using assms by (auto simp: OnQC_def Let_def VerifyQC_ok split: prod.splits sum.splits if_splits)
  then show ?thesis
  proof cases
    case 1
    then show ?thesis by (simp add: effect.idle qcVote_def)
  next
    case 2
    then show ?thesis by (intro onPhase_effect) simp_all
  qed
qed

section \<open>The system\<close>

record System =
  sy_replicas :: "string \<Rightarrow> Replica"
  sy_signed :: "(string \<times> bytes) set"

abbreviation honest :: "ValidatorSet \<Rightarrow> string set \<Rightarrow> string set" where
  "honest vs faulty \<equiv> set (vs_ids vs) - faulty"

definition signedVote :: "string \<Rightarrow> Vote option \<Rightarrow> (string \<times> bytes) set" where
  "signedVote i vo = (case vo of None \<Rightarrow> {}
     | Some v \<Rightarrow> {(i, VoteSigningBytes (vt_Phase v) (vt_Height v) (vt_BlockHash v))})"

text \<open>Unforgeability: a vote that verifies under an honest validator's key was signed by it.\<close>

definition unforged :: "crypto \<Rightarrow> ValidatorSet \<Rightarrow> string set \<Rightarrow> (string \<times> bytes) set \<Rightarrow> QuorumCertificate \<Rightarrow> bool" where
  "unforged cr vs faulty S qc \<longleftrightarrow> (\<forall>v \<in> set (qc_Votes qc). vt_VoterID v \<notin> faulty \<longrightarrow>
     (VerifyVote cr vs v :: unit hs_error + unit) = Inr () \<longrightarrow>
     (vt_VoterID v, VoteSigningBytes (vt_Phase v) (vt_Height v) (vt_BlockHash v)) \<in> S)"

text \<open>
  The runs: honest replicas start fresh and receive any proposals and certificates in any order;
  \<open>Val\<close> is the set of validator callbacks the nodes may use. With the same keys the nodes also sign
  inference attestations and tickets.
\<close>

inductive reachable ::
  "crypto \<Rightarrow> ValidatorSet \<Rightarrow> (string \<Rightarrow> bytes) \<Rightarrow> string set \<Rightarrow> ('n, 'e) BlockValidator set \<Rightarrow> System \<Rightarrow> bool"
  for cr vs keyOf faulty Val where
  start: "\<forall>i \<in> honest vs faulty. (NewReplica i (keyOf i) vs :: 'e hs_error + Replica) = Inr (R i) \<Longrightarrow>
    reachable cr vs keyOf faulty Val \<lparr>sy_replicas = R, sy_signed = {}\<rparr>"
| proposal: "reachable cr vs keyOf faulty Val s \<Longrightarrow> i \<in> honest vs faulty \<Longrightarrow> validate \<in> Val \<Longrightarrow>
    OnProposal cr validate n (sy_replicas s i) block = (n', r', res) \<Longrightarrow>
    reachable cr vs keyOf faulty Val
      (s\<lparr>sy_replicas := (sy_replicas s)(i := r'),
         sy_signed := sy_signed s \<union> signedVote i (case res of Inl _ \<Rightarrow> None | Inr v \<Rightarrow> Some v)\<rparr>)"
| certificate: "reachable cr vs keyOf faulty Val s \<Longrightarrow> i \<in> honest vs faulty \<Longrightarrow> validate \<in> Val \<Longrightarrow>
    unforged cr vs faulty (sy_signed s) qc \<Longrightarrow>
    OnQC cr validate n (sy_replicas s i) block qc = (n', r', res) \<Longrightarrow>
    reachable cr vs keyOf faulty Val
      (s\<lparr>sy_replicas := (sy_replicas s)(i := r'), sy_signed := sy_signed s \<union> signedVote i (qcVote res)\<rparr>)"
| other: "reachable cr vs keyOf faulty Val s \<Longrightarrow> i \<in> honest vs faulty \<Longrightarrow>
    msg = InferenceSigningBytes a \<or> msg = bytes_of (HashBytes (cr_sha256 cr) d) \<Longrightarrow>
    reachable cr vs keyOf faulty Val (s\<lparr>sy_signed := sy_signed s \<union> {(i, msg)}\<rparr>)"

section \<open>The invariant\<close>

text \<open>The finalized chain of a replica is linked and numbered.\<close>

definition tipOf :: "crypto \<Rightarrow> Block list \<Rightarrow> string" where
  "tipOf cr bs = (if bs = [] then GenesisHash else Block_Hash (cr_sha256 cr) (last bs))"

definition chainOK :: "crypto \<Rightarrow> Replica \<Rightarrow> bool" where
  "chainOK cr r \<longleftrightarrow> rp_height r = of_nat (length (rp_blocks r)) \<and> rp_tipHash r = tipOf cr (rp_blocks r)
     \<and> (\<forall>k < length (rp_blocks r).
          bh_Height (bl_Header (rp_blocks r ! k)) = of_nat (k + 1)
          \<and> bh_ParentHash (bl_Header (rp_blocks r ! k)) = tipOf cr (take k (rp_blocks r)))"

text \<open>Enough validators are faulty or have signed a commit vote.\<close>

definition certified :: "ValidatorSet \<Rightarrow> string set \<Rightarrow> (string \<times> bytes) set \<Rightarrow> u64 \<Rightarrow> string \<Rightarrow> bool" where
  "certified vs faulty S h b \<longleftrightarrow>
     Quorum vs \<le> card {v \<in> set (vs_ids vs). v \<in> faulty \<or> (v, VoteSigningBytes PhaseCommit h b) \<in> S}"

definition replicaInv :: "crypto \<Rightarrow> ValidatorSet \<Rightarrow> string set \<Rightarrow> (string \<times> bytes) set \<Rightarrow> string \<Rightarrow> Replica \<Rightarrow> bool" where
  "replicaInv cr vs faulty S i r \<longleftrightarrow> rp_id r = i \<and> rp_validators r = vs \<and> chainOK cr r
     \<and> (\<forall>p h b. (i, VoteSigningBytes p h b) \<in> S \<longrightarrow> b \<noteq> [] \<and> votedFor r h p = b)
     \<and> (\<forall>k < length (rp_blocks r). certified vs faulty S (of_nat (k + 1)) (Block_Hash (cr_sha256 cr) (rp_blocks r ! k)))"

lemma certified_mono: "certified vs faulty S h b \<Longrightarrow> S \<subseteq> T \<Longrightarrow> certified vs faulty T h b"
  unfolding certified_def by (erule order_trans, rule card_mono) auto

lemma qc_certified:
  assumes "(VerifyQC cr vs qc :: unit hs_error + unit) = Inr ()" "unforged cr vs faulty S qc"
    "qc_Phase qc = PhaseCommit" "set (vs_ids vs) = dom (vs_keys vs)"
  shows "certified vs faulty S (qc_Height qc) (qc_BlockHash qc)"
proof -
  let ?P = "vt_VoterID ` set (qc_Votes qc)"
  note qc = assms(1)[unfolded VerifyQC_ok]
  have "card ?P = length (qc_Votes qc)" using qc by (metis distinct_card length_map set_map)
  moreover have "?P \<subseteq> {v \<in> set (vs_ids vs). v \<in> faulty \<or> (v, VoteSigningBytes PhaseCommit (qc_Height qc) (qc_BlockHash qc)) \<in> S}"
  proof
    fix x assume "x \<in> ?P"
    then obtain v where v: "v \<in> set (qc_Votes qc)" "x = vt_VoterID v" by blast
    then have ok: "voteOK cr vs PhaseCommit (qc_Height qc) (qc_BlockHash qc) v" using qc assms(3) by simp
    then have "x \<in> set (vs_ids vs)" using v(2) assms(4) by (auto simp: voteOK_def VerifyVote_ok)
    moreover have "x \<in> faulty \<or> (x, VoteSigningBytes PhaseCommit (qc_Height qc) (qc_BlockHash qc)) \<in> S"
      using assms(2) v ok by (auto simp: unforged_def voteOK_def)
    ultimately show "x \<in> {v \<in> set (vs_ids vs). v \<in> faulty \<or> (v, VoteSigningBytes PhaseCommit (qc_Height qc) (qc_BlockHash qc)) \<in> S}"
      by simp
  qed
  ultimately have "length (qc_Votes qc) \<le>
      card {v \<in> set (vs_ids vs). v \<in> faulty \<or> (v, VoteSigningBytes PhaseCommit (qc_Height qc) (qc_BlockHash qc)) \<in> S}"
    using card_mono[of "{v \<in> set (vs_ids vs). v \<in> faulty \<or> (v, VoteSigningBytes PhaseCommit (qc_Height qc) (qc_BlockHash qc)) \<in> S}" ?P]
    by simp
  then show ?thesis using qc unfolding certified_def by linarith
qed

lemma replicaInv_other:
  assumes "replicaInv cr vs faulty S j r" "i \<noteq> j"
  shows "replicaInv cr vs faulty (S \<union> signedVote i vo) j r"
  using assms by (auto simp: replicaInv_def signedVote_def intro: certified_mono split: option.splits)

lemma chainOK_commit:
  assumes "chainOK cr r" "rp_blocks r' = rp_blocks r @ [block]" "rp_height r' = bh_Height (bl_Header block)"
    "rp_tipHash r' = Block_Hash (cr_sha256 cr) block" "bh_Height (bl_Header block) = rp_height r + 1"
    "bh_ParentHash (bl_Header block) = rp_tipHash r"
  shows "chainOK cr r'"
  unfolding chainOK_def
proof (intro conjI allI impI)
  show "rp_height r' = of_nat (length (rp_blocks r'))" "rp_tipHash r' = tipOf cr (rp_blocks r')"
    using assms by (simp_all add: chainOK_def tipOf_def)
  fix k assume "k < length (rp_blocks r')"
  then consider "k < length (rp_blocks r)" | "k = length (rp_blocks r)" using assms(2) by fastforce
  then show "bh_Height (bl_Header (rp_blocks r' ! k)) = of_nat (k + 1)"
    "bh_ParentHash (bl_Header (rp_blocks r' ! k)) = tipOf cr (take k (rp_blocks r'))"
    by (cases; use assms in \<open>simp add: chainOK_def nth_append\<close>)+
qed

lemma effect_chainOK:
  assumes "effect cr r vo qco r'" "chainOK cr r"
  shows "chainOK cr r'"
  using assms(1)
proof cases
  case (commits qc block)
  show ?thesis by (rule chainOK_commit[OF assms(2), of r' block]) (rule commits)+
qed (use assms(2) in \<open>auto simp: sameChain_def chainOK_def\<close>)

lemma replicaInv_effect:
  assumes "effect cr r vo qco r'" "replicaInv cr vs faulty S i r" "set (vs_ids vs) = dom (vs_keys vs)"
    and "\<And>qc. qco = Some qc \<Longrightarrow> unforged cr vs faulty S qc"
  shows "replicaInv cr vs faulty (S \<union> signedVote i vo) i r'"
proof -
  have chain: "chainOK cr r'" using effect_chainOK[OF assms(1)] assms(2) by (simp add: replicaInv_def)
  have inv: "rp_id r = i" "rp_validators r = vs" "\<And>p h b. (i, VoteSigningBytes p h b) \<in> S \<Longrightarrow> b \<noteq> [] \<and> votedFor r h p = b"
    "\<And>k. k < length (rp_blocks r) \<Longrightarrow> certified vs faulty S (of_nat (k + 1)) (Block_Hash (cr_sha256 cr) (rp_blocks r ! k))"
    using assms(2) by (auto simp: replicaInv_def)
  from assms(1) show ?thesis
  proof cases
    case idle
    then show ?thesis using assms(2) chain by (simp add: replicaInv_def sameChain_def signedVote_def)
  next
    case (votes v)
    have "certified vs faulty (S \<union> signedVote i vo) (of_nat (k + 1)) (Block_Hash (cr_sha256 cr) (rp_blocks r ! k))"
      if "k < length (rp_blocks r)" for k
      by (rule certified_mono[OF inv(4)[OF that]]) simp
    moreover have "b \<noteq> [] \<and> votedFor r' h p = b" if "(i, VoteSigningBytes p h b) \<in> S \<union> signedVote i vo" for p h b
      using that votes inv(3)[of p h b] by (auto simp: signedVote_def VoteSigningBytes_inj)
    ultimately show ?thesis using chain inv(1,2) votes by (simp add: replicaInv_def sameChain_def)
  next
    case (commits qc block)
    have c: "certified vs faulty S (qc_Height qc) (qc_BlockHash qc)"
      using commits assms(3,4) inv(2) by (intro qc_certified) simp_all
    have h: "qc_Height qc = of_nat (length (rp_blocks r) + 1)"
      using commits assms(2) by (simp add: replicaInv_def chainOK_def)
    have "certified vs faulty S (of_nat (k + 1)) (Block_Hash (cr_sha256 cr) (rp_blocks r' ! k))" if "k < length (rp_blocks r')" for k
      using that commits inv(4) c[unfolded h] by (cases "k < length (rp_blocks r)") (simp_all add: nth_append less_Suc_eq)
    then show ?thesis using commits chain inv by (simp add: replicaInv_def signedVote_def)
  qed
qed

lemma replicaInv_start: "NewReplica i key vs = Inr r \<Longrightarrow> replicaInv cr vs faulty {} i r"
  by (auto simp: NewReplica_def replicaInv_def chainOK_def tipOf_def split: if_splits)

lemma replicaInv_message:
  assumes "replicaInv cr vs faulty S j r" "msg = InferenceSigningBytes a \<or> msg = bytes_of (HashBytes (cr_sha256 cr) d)"
  shows "replicaInv cr vs faulty (S \<union> {(i, msg)}) j r"
proof -
  have "VoteSigningBytes p h b \<noteq> msg" for p h b
    using assms(2) VoteSigningBytes_not_attestation VoteSigningBytes_not_hash by metis
  then show ?thesis using assms(1) by (auto simp: replicaInv_def intro: certified_mono)
qed

lemma reachable_inv:
  assumes "reachable cr vs keyOf faulty Val s" "set (vs_ids vs) = dom (vs_keys vs)" "i \<in> honest vs faulty"
  shows "replicaInv cr vs faulty (sy_signed s) i (sy_replicas s i)"
  using assms(1,3)
proof (induction arbitrary: i rule: reachable.induct)
  case (start R)
  then show ?case by (auto intro: replicaInv_start)
next
  case (proposal s j validate n block n' r' res)
  show ?case
  proof (cases "i = j")
    case True
    then show ?thesis using proposal.IH[OF proposal.hyps(2)] OnProposal_effect[OF proposal.hyps(4)] assms(2)
      by (auto intro!: replicaInv_effect)
  next
    case False
    then show ?thesis using proposal.IH[OF proposal.prems] by (simp add: replicaInv_other)
  qed
next
  case (certificate s j validate qc n block n' r' res)
  show ?case
  proof (cases "i = j")
    case True
    then show ?thesis
      using certificate.IH[OF certificate.hyps(2)] OnQC_effect[OF certificate.hyps(5)] certificate.hyps(4) assms(2)
      by (auto intro!: replicaInv_effect)
  next
    case False
    then show ?thesis using certificate.IH[OF certificate.prems] by (simp add: replicaInv_other)
  qed
next
  case (other s j msg a d)
  then show ?case using replicaInv_message by simp
qed

end
