(* ===== verification/HotStuff_Live.thy ===== *)
theory HotStuff_Live
  imports HotStuff_Safety
begin

text \<open>
  Progress of the consensus: the handlers accept what an honest round delivers, and from every
  state in which the honest validators stand at the same tip with their votes free, the round of a
  block they accept can be completed.
\<close>

section \<open>A replica that is ready for a block\<close>

abbreviation hashOf :: "crypto \<Rightarrow> Block \<Rightarrow> string" where
  "hashOf cr block \<equiv> Block_Hash (cr_sha256 cr) block"

abbreviation heightOf :: "Block \<Rightarrow> u64" where
  "heightOf block \<equiv> bh_Height (bl_Header block)"

definition ready :: "crypto \<Rightarrow> Block \<Rightarrow> Replica \<Rightarrow> bool" where
  "ready cr block r \<longleftrightarrow> heightOf block = rp_height r + 1 \<and> bh_ParentHash (bl_Header block) = rp_tipHash r
     \<and> (rp_lockedHeight r \<noteq> heightOf block \<or> rp_lockedHash r \<in> {[], hashOf cr block})
     \<and> (\<forall>p. votedFor r (heightOf block) p \<in> {[], hashOf cr block})"

definition accepts :: "('n, 'e) BlockValidator \<Rightarrow> Block \<Rightarrow> bool" where
  "accepts validate block \<longleftrightarrow> (\<forall>v n. validate = Some v \<longrightarrow> snd (v n block) = Inr ())"

definition honestVote :: "crypto \<Rightarrow> Phase \<Rightarrow> u64 \<Rightarrow> string \<Rightarrow> string \<Rightarrow> bytes \<Rightarrow> Vote" where
  "honestVote cr phase height b i key = \<lparr>vt_Phase = phase, vt_Height = height, vt_BlockHash = b, vt_VoterID = i,
     vt_Signature = EncodeToString (cr_sign cr key (VoteSigningBytes phase height b))\<rparr>"

lemma height_succ: "h \<noteq> h + (1 :: u64)"
  by simp

lemma validateBlockLocked_accepts:
  assumes "ready cr block r" "accepts validate block"
  obtains n' where "validateBlockLocked cr validate n r block = (n', Inr ())"
proof (cases validate)
  case None
  then show thesis using that[of n] assms(1) by (simp add: validateBlockLocked_def ready_def Let_def)
next
  case (Some v)
  then have "snd (v n block) = Inr ()" using assms(2) by (simp add: accepts_def)
  then obtain n' where "v n block = (n', Inr ())" by (metis prod.collapse)
  then show thesis using that[of n'] Some assms(1) by (simp add: validateBlockLocked_def ready_def Let_def)
qed

lemma voteLocked_ready:
  assumes "ready cr block r" "voteLocked cr r phase (heightOf block) (hashOf cr block) = (r', res)"
  shows "res = Inr (honestVote cr phase (heightOf block) (hashOf cr block) (rp_id r) (rp_privateKey r))"
    and "ready cr block r'" and "sameChain r r'"
proof -
  note frame = voteLocked_frame[OF assms(2)]
  have free: "votedFor r (heightOf block) phase = [] \<or> votedFor r (heightOf block) phase = hashOf cr block"
    using assms(1) by (auto simp: ready_def)
  show "res = Inr (honestVote cr phase (heightOf block) (hashOf cr block) (rp_id r) (rp_privateKey r))"
    unfolding honestVote_def by (metis voteLocked_cast(1)[OF free] assms(2) snd_conv)
  show "sameChain r r'" using frame by (simp add: sameChain_def)
  have v: "votedFor r' = (votedFor r)(heightOf block := (votedFor r (heightOf block))(phase := hashOf cr block))"
    by (metis voteLocked_cast(2)[OF free] assms(2) fst_conv)
  have "votedFor r' (heightOf block) p \<in> {[], hashOf cr block}" for p
    unfolding v using assms(1) by (auto simp: ready_def)
  then show "ready cr block r'" using assms(1) frame by (simp add: ready_def)
qed

lemma ready_updates [simp]:
  "ready cr block (r\<lparr>rp_pending := x\<rparr>) = ready cr block r"
  "ready cr block r \<Longrightarrow> ready cr block (r\<lparr>rp_lockedHeight := heightOf block, rp_lockedHash := hashOf cr block\<rparr>)"
  by (auto simp: ready_def)

text \<open>A replica that is ready answers; the block passed its validation in the state it is given.\<close>

lemma OnProposal_validated:
  assumes "ready cr block r" "validateBlockLocked cr validate n r block = (n', Inr ())"
  obtains r' where "OnProposal cr (validate :: ('n, 'e) BlockValidator) n r block =
      (n', r', Inr (honestVote cr PhasePrepare (heightOf block) (hashOf cr block) (rp_id r) (rp_privateKey r)))"
    "ready cr block r'" "sameChain r r'"
proof -
  let ?q = "r\<lparr>rp_pending := (rp_pending r)(hashOf cr block \<mapsto> block)\<rparr>"
  obtain r' and res :: "'e hs_error + Vote" where out: "voteLocked cr ?q PhasePrepare (heightOf block) (hashOf cr block) = (r', res)" by fastforce
  have lock: "\<not> (rp_lockedHeight r = heightOf block \<and> rp_lockedHash r \<noteq> [] \<and> rp_lockedHash r \<noteq> hashOf cr block)"
    using assms(1) by (auto simp: ready_def)
  have "OnProposal cr validate n r block = (n', r', res)"
    unfolding OnProposal_def assms(2) Let_def using lock out by auto
  then show thesis using that voteLocked_ready[OF _ out] assms(1) by simp
qed

lemma OnProposal_ready:
  assumes "ready cr block r" "accepts validate block"
  obtains n' r' where "OnProposal cr (validate :: ('n, 'e) BlockValidator) n r block =
      (n', r', Inr (honestVote cr PhasePrepare (heightOf block) (hashOf cr block) (rp_id r) (rp_privateKey r)))"
    "ready cr block r'" "sameChain r r'"
  by (rule validateBlockLocked_accepts[OF assms], rule OnProposal_validated[OF assms(1)], assumption, rule that)

text \<open>A certificate for the block in one of the two voting phases produces the vote of the next.\<close>

lemma OnQC_validated:
  assumes "ready cr block r" "validateBlockLocked cr validate n r block = (n', Inr ())"
    "(VerifyQC cr (rp_validators r) qc :: 'e hs_error + unit) = Inr ()"
    "qc_BlockHash qc = hashOf cr block" "qc_Height qc = heightOf block"
    and phase: "qc_Phase qc = PhasePrepare \<and> next = PhasePreCommit \<or> qc_Phase qc = PhasePreCommit \<and> next = PhaseCommit"
  obtains r' where "OnQC cr (validate :: ('n, 'e) BlockValidator) n r block qc =
      (n', r', Inr (Some (honestVote cr next (heightOf block) (hashOf cr block) (rp_id r) (rp_privateKey r)), False))"
    "ready cr block r'" "sameChain r r'"
proof -
  define p where "p = r\<lparr>rp_pending := (rp_pending r)(hashOf cr block \<mapsto> block)\<rparr>"
  define q where "q = (if qc_Phase qc = PhasePrepare then p
     else p\<lparr>rp_lockedHeight := heightOf block, rp_lockedHash := hashOf cr block\<rparr>)"
  have q: "ready cr block q" "rp_id q = rp_id r" "rp_privateKey q = rp_privateKey r" "sameChain r q"
    using assms(1) by (simp_all add: q_def p_def sameChain_def)
  obtain r' and res :: "'e hs_error + Vote" where out: "voteLocked cr q next (heightOf block) (hashOf cr block) = (r', res)"
    by fastforce
  note o = voteLocked_ready[OF q(1) out]
  have "(onPhase cr p block qc (hashOf cr block) :: Replica \<times> ('e hs_error + (Vote option \<times> bool))) =
      (r', Inr (Some (honestVote cr next (heightOf block) (hashOf cr block) (rp_id r) (rp_privateKey r)), False))"
  proof (cases "qc_Phase qc = PhasePrepare")
    case True
    then have "next = PhasePreCommit" "q = p" using phase by (auto simp: q_def PhasePrepare_def PhasePreCommit_def)
    then show ?thesis using True out o(1) q(2,3) assms(5) by (simp add: onPhase_def)
  next
    case False
    then have "next = PhaseCommit" "qc_Phase qc = PhasePreCommit"
      "q = p\<lparr>rp_lockedHeight := heightOf block, rp_lockedHash := hashOf cr block\<rparr>" using phase by (auto simp: q_def)
    then show ?thesis using False out o(1) q(2,3) assms(5) by (simp add: onPhase_def)
  qed
  then have "OnQC cr validate n r block qc =
      (n', r', Inr (Some (honestVote cr next (heightOf block) (hashOf cr block) (rp_id r) (rp_privateKey r)), False))"
    unfolding OnQC_def assms(2,3) Let_def p_def using assms(4,5) by simp
  moreover have "sameChain r r'" using o(3) q(4) by (simp add: sameChain_def)
  ultimately show thesis using that o(2) by simp
qed

lemma OnQC_ready:
  assumes "ready cr block r" "accepts validate block" "(VerifyQC cr (rp_validators r) qc :: 'e hs_error + unit) = Inr ()"
    "qc_BlockHash qc = hashOf cr block" "qc_Height qc = heightOf block"
    and phase: "qc_Phase qc = PhasePrepare \<and> next = PhasePreCommit \<or> qc_Phase qc = PhasePreCommit \<and> next = PhaseCommit"
  obtains n' r' where "OnQC cr (validate :: ('n, 'e) BlockValidator) n r block qc =
      (n', r', Inr (Some (honestVote cr next (heightOf block) (hashOf cr block) (rp_id r) (rp_privateKey r)), False))"
    "ready cr block r'" "sameChain r r'"
  by (rule validateBlockLocked_accepts[OF assms(1,2)], rule OnQC_validated[OF assms(1) _ assms(3-5) phase], assumption, rule that)

lemma OnQC_commit_validated:
  assumes "ready cr block r" "validateBlockLocked cr validate n r block = (n', Inr ())"
    "(VerifyQC cr (rp_validators r) qc :: 'e hs_error + unit) = Inr ()"
    "qc_BlockHash qc = hashOf cr block" "qc_Height qc = heightOf block" "qc_Phase qc = PhaseCommit"
  obtains r' where "OnQC cr (validate :: ('n, 'e) BlockValidator) n r block qc = (n', r', Inr (None, True))"
    "rp_blocks r' = rp_blocks r @ [block]" "rp_tipHash r' = hashOf cr block" "rp_height r' = heightOf block"
proof -
  define p where "p = r\<lparr>rp_pending := (rp_pending r)(hashOf cr block \<mapsto> block)\<rparr>"
  have e: "rp_height p + 1 = heightOf block" "rp_tipHash p = bh_ParentHash (bl_Header block)" "rp_blocks p = rp_blocks r"
    "rp_height p \<noteq> heightOf block"
    using assms(1) by (simp_all add: p_def ready_def)
  have "(onPhase cr p block qc (hashOf cr block) :: Replica \<times> ('e hs_error + (Vote option \<times> bool))) =
     (p\<lparr>rp_blocks := rp_blocks p @ [block], rp_height := heightOf block, rp_tipHash := hashOf cr block,
        rp_pending := (rp_pending p)(hashOf cr block := None)\<rparr>, Inr (None, True))"
    using e assms(6) by (simp add: onPhase_def Let_def PhasePrepare_def PhasePreCommit_def PhaseCommit_def)
  then have "OnQC cr validate n r block qc =
     (n', p\<lparr>rp_blocks := rp_blocks p @ [block], rp_height := heightOf block, rp_tipHash := hashOf cr block,
        rp_pending := (rp_pending p)(hashOf cr block := None)\<rparr>, Inr (None, True))"
    unfolding OnQC_def assms(2,3) Let_def p_def using assms(4,5) by simp
  then show thesis using that e(3) by simp
qed

lemma OnQC_commit:
  assumes "ready cr block r" "accepts validate block" "(VerifyQC cr (rp_validators r) qc :: 'e hs_error + unit) = Inr ()"
    "qc_BlockHash qc = hashOf cr block" "qc_Height qc = heightOf block" "qc_Phase qc = PhaseCommit"
  obtains n' r' where "OnQC cr (validate :: ('n, 'e) BlockValidator) n r block qc = (n', r', Inr (None, True))"
    "rp_blocks r' = rp_blocks r @ [block]" "rp_tipHash r' = hashOf cr block" "rp_height r' = heightOf block"
  by (rule validateBlockLocked_accepts[OF assms(1,2)], rule OnQC_commit_validated[OF assms(1) _ assms(3-6)], assumption, rule that)

section \<open>A round\<close>

lemma run_all:
  assumes "finite A" "P {} s" "\<And>B t i. B \<subseteq> A \<Longrightarrow> i \<in> A - B \<Longrightarrow> P B t \<Longrightarrow> \<exists>t'. P (insert i B) t'"
  shows "\<exists>t. P A t"
proof -
  have "finite B \<Longrightarrow> B \<subseteq> A \<Longrightarrow> \<exists>t. P B t" for B
  proof (induction rule: finite_induct)
    case (insert i B)
    then show ?case using assms(3)[of B i] by auto
  qed (use assms(2) in blast)
  then show ?thesis using assms(1) by blast
qed

definition standing :: "crypto \<Rightarrow> ValidatorSet \<Rightarrow> (string \<Rightarrow> bytes) \<Rightarrow> Block \<Rightarrow> string \<Rightarrow> Replica \<Rightarrow> bool" where
  "standing cr vs keyOf block i r \<longleftrightarrow>
     ready cr block r \<and> rp_id r = i \<and> rp_privateKey r = keyOf i \<and> rp_validators r = vs"

text \<open>Every honest key signs verifiably.\<close>

definition keysMatch :: "crypto \<Rightarrow> ValidatorSet \<Rightarrow> (string \<Rightarrow> bytes) \<Rightarrow> string set \<Rightarrow> bool" where
  "keysMatch cr vs keyOf A \<longleftrightarrow> (\<forall>i \<in> A. \<exists>pub. vs_keys vs i = Some pub \<and> (\<forall>m. cr_verify cr pub m (cr_sign cr (keyOf i) m)))"

definition roundQC :: "crypto \<Rightarrow> (string \<Rightarrow> bytes) \<Rightarrow> string list \<Rightarrow> Phase \<Rightarrow> Block \<Rightarrow> QuorumCertificate" where
  "roundQC cr keyOf voters phase block = \<lparr>qc_Phase = phase, qc_Height = heightOf block, qc_BlockHash = hashOf cr block,
     qc_Votes = map (\<lambda>i. honestVote cr phase (heightOf block) (hashOf cr block) i (keyOf i)) voters\<rparr>"

lemma roundQC_verifies:
  assumes "keysMatch cr vs keyOf (set voters)" "distinct voters" "Quorum vs \<le> length voters"
  shows "(VerifyQC cr vs (roundQC cr keyOf voters phase block) :: 'e hs_error + unit) = Inr ()"
proof -
  have "vt_VoterID \<circ> (\<lambda>i. honestVote cr phase (heightOf block) (hashOf cr block) i (keyOf i)) = id"
    by (auto simp: honestVote_def)
  then have "distinct (map vt_VoterID (qc_Votes (roundQC cr keyOf voters phase block)))"
    using assms(2) by (simp add: roundQC_def)
  moreover have "voteOK cr vs phase (heightOf block) (hashOf cr block) (honestVote cr phase (heightOf block) (hashOf cr block) i (keyOf i))"
    if "i \<in> set voters" for i
    using assms(1) that by (auto simp: voteOK_def VerifyVote_ok honestVote_def keysMatch_def)
  ultimately show ?thesis using assms(3) by (simp add: VerifyQC_ok roundQC_def)
qed

lemma roundQC_unforged:
  assumes "\<forall>i \<in> set voters. (i, VoteSigningBytes phase (heightOf block) (hashOf cr block)) \<in> S"
  shows "unforged cr vs faulty S (roundQC cr keyOf voters phase block)"
  using assms by (auto simp: unforged_def roundQC_def honestVote_def)

lemma roundQC_simps [simp]:
  "qc_Phase (roundQC cr keyOf voters phase block) = phase" "qc_Height (roundQC cr keyOf voters phase block) = heightOf block"
  "qc_BlockHash (roundQC cr keyOf voters phase block) = hashOf cr block"
  by (simp_all add: roundQC_def)

text \<open>What a completed voting phase leaves behind.\<close>

definition phaseDone ::
  "crypto \<Rightarrow> ValidatorSet \<Rightarrow> (string \<Rightarrow> bytes) \<Rightarrow> string set \<Rightarrow> ('n, 'e) BlockValidator set \<Rightarrow> Block \<Rightarrow> System \<Rightarrow> Phase
     \<Rightarrow> string set \<Rightarrow> System \<Rightarrow> bool" where
  "phaseDone cr vs keyOf faulty Val block s phase B t \<longleftrightarrow>
     reachable cr vs keyOf faulty Val t
     \<and> (\<forall>i \<in> honest vs faulty. standing cr vs keyOf block i (sy_replicas t i)
          \<and> rp_blocks (sy_replicas t i) = rp_blocks (sy_replicas s i))
     \<and> sy_signed s \<subseteq> sy_signed t
     \<and> (\<forall>i \<in> B. (i, VoteSigningBytes phase (heightOf block) (hashOf cr block)) \<in> sy_signed t)"

lemma signedVote_honest [simp]:
  "signedVote i (Some (honestVote cr p h b j key)) = {(i, VoteSigningBytes p h b)}"
  by (simp add: signedVote_def honestVote_def)

lemma phaseDone_step:
  assumes "phaseDone cr vs keyOf faulty Val block s phase B t" "i \<in> honest vs faulty" "ready cr block r'"
    "sameChain (sy_replicas t i) r'"
    and "reachable cr vs keyOf faulty Val (t\<lparr>sy_replicas := (sy_replicas t)(i := r'),
      sy_signed := sy_signed t \<union> {(i, VoteSigningBytes phase (heightOf block) (hashOf cr block))}\<rparr>)"
  shows "\<exists>t'. phaseDone cr vs keyOf faulty Val block s phase (insert i B) t'"
  by (rule exI[of _ "t\<lparr>sy_replicas := (sy_replicas t)(i := r'),
      sy_signed := sy_signed t \<union> {(i, VoteSigningBytes phase (heightOf block) (hashOf cr block))}\<rparr>"])
    (use assms in \<open>auto simp: phaseDone_def standing_def sameChain_def\<close>)

lemma phaseDone_restart:
  "phaseDone cr vs keyOf faulty Val block s phase B t \<Longrightarrow> phaseDone cr vs keyOf faulty Val block t phase' {} t"
  by (simp add: phaseDone_def)

lemma prepare_phase:
  assumes "phaseDone cr vs keyOf faulty Val block s PhasePrepare {} s" "validate \<in> Val" "accepts validate block"
  shows "\<exists>t. phaseDone cr vs keyOf faulty Val block s PhasePrepare (honest vs faulty) t"
proof (rule run_all[where P = "phaseDone cr vs keyOf faulty Val block s PhasePrepare", OF _ assms(1)])
  fix B t i assume i: "i \<in> honest vs faulty - B" and P: "phaseDone cr vs keyOf faulty Val block s PhasePrepare B t"
  then have st: "standing cr vs keyOf block i (sy_replicas t i)" "reachable cr vs keyOf faulty Val t"
    by (auto simp: phaseDone_def)
  then have r: "ready cr block (sy_replicas t i)" "rp_id (sy_replicas t i) = i" by (simp_all add: standing_def)
  obtain n' r' where o: "OnProposal cr validate undefined (sy_replicas t i) block = (n', r',
      Inr (honestVote cr PhasePrepare (heightOf block) (hashOf cr block) i (rp_privateKey (sy_replicas t i))))"
    "ready cr block r'" "sameChain (sy_replicas t i) r'"
    by (rule OnProposal_ready[OF r(1) assms(3), unfolded r(2)], rule that)
  show "\<exists>t'. phaseDone cr vs keyOf faulty Val block s PhasePrepare (insert i B) t'"
    using reachable.proposal[OF st(2) _ assms(2) o(1)] i by (intro phaseDone_step[OF P _ o(2,3)]) simp_all
qed simp

lemma voting_phase:
  assumes "phaseDone cr vs keyOf faulty Val block s0 phase (honest vs faulty) s" "validate \<in> Val" "accepts validate block"
    and "phase = PhasePrepare \<and> next = PhasePreCommit \<or> phase = PhasePreCommit \<and> next = PhaseCommit"
    and keys: "keysMatch cr vs keyOf (set voters)" "distinct voters" "Quorum vs \<le> length voters" "set voters = honest vs faulty"
  shows "\<exists>t. phaseDone cr vs keyOf faulty Val block s next (honest vs faulty) t"
proof (rule run_all[where P = "phaseDone cr vs keyOf faulty Val block s next", OF _ phaseDone_restart[OF assms(1)]])
  fix B t i assume i: "i \<in> honest vs faulty - B" and P: "phaseDone cr vs keyOf faulty Val block s next B t"
  then have st: "standing cr vs keyOf block i (sy_replicas t i)" "reachable cr vs keyOf faulty Val t"
    by (auto simp: phaseDone_def)
  then have r: "ready cr block (sy_replicas t i)" "rp_id (sy_replicas t i) = i" "rp_validators (sy_replicas t i) = vs"
    by (simp_all add: standing_def)
  let ?qc = "roundQC cr keyOf voters phase block"
  have signed: "\<forall>i \<in> set voters. (i, VoteSigningBytes phase (heightOf block) (hashOf cr block)) \<in> sy_signed t"
    using assms(1) P keys(4) by (auto simp: phaseDone_def)
  obtain n' r' where o: "OnQC cr validate undefined (sy_replicas t i) block ?qc = (n', r',
      Inr (Some (honestVote cr next (heightOf block) (hashOf cr block) i (rp_privateKey (sy_replicas t i))), False))"
    "ready cr block r'" "sameChain (sy_replicas t i) r'"
    by (rule OnQC_ready[OF r(1) assms(3), of ?qc "next", unfolded r(2,3)])
      (use assms(4) that roundQC_verifies[OF keys(1-3)] in auto)
  show "\<exists>t'. phaseDone cr vs keyOf faulty Val block s next (insert i B) t'"
    using reachable.certificate[OF st(2) _ assms(2) roundQC_unforged[OF signed] o(1)] i
    by (intro phaseDone_step[OF P _ o(2,3)]) (simp_all add: qcVote_def)
qed simp

lemma commit_phase:
  assumes "phaseDone cr vs keyOf faulty Val block s0 PhaseCommit (honest vs faulty) s" "validate \<in> Val" "accepts validate block"
    and keys: "keysMatch cr vs keyOf (set voters)" "distinct voters" "Quorum vs \<le> length voters" "set voters = honest vs faulty"
  shows "\<exists>t. reachable cr vs keyOf faulty Val t
    \<and> (\<forall>i \<in> honest vs faulty. rp_blocks (sy_replicas t i) = rp_blocks (sy_replicas s i) @ [block])"
proof -
  let ?P = "\<lambda>B t. reachable cr vs keyOf faulty Val t \<and> sy_signed s \<subseteq> sy_signed t
      \<and> (\<forall>i \<in> honest vs faulty - B. sy_replicas t i = sy_replicas s i)
      \<and> (\<forall>i \<in> B. rp_blocks (sy_replicas t i) = rp_blocks (sy_replicas s i) @ [block])"
  have "\<exists>t. ?P (honest vs faulty) t"
  proof (rule run_all[where P = ?P and s = s])
    show "?P {} s" using assms(1) by (simp add: phaseDone_def)
    fix B t i assume B: "B \<subseteq> honest vs faulty" and i: "i \<in> honest vs faulty - B" and P: "?P B t"
    then have same: "sy_replicas t i = sy_replicas s i" by blast
    have r: "ready cr block (sy_replicas t i)" "rp_validators (sy_replicas t i) = vs"
      using assms(1) i unfolding same by (auto simp: phaseDone_def standing_def)
    let ?qc = "roundQC cr keyOf voters PhaseCommit block"
    have signed: "\<forall>i \<in> set voters. (i, VoteSigningBytes PhaseCommit (heightOf block) (hashOf cr block)) \<in> sy_signed t"
      using assms(1) P keys(4) by (auto simp: phaseDone_def)
    obtain n' r' where o: "OnQC cr validate undefined (sy_replicas t i) block ?qc = (n', r', Inr (None, True))"
      "rp_blocks r' = rp_blocks (sy_replicas t i) @ [block]"
      by (rule OnQC_commit[OF r(1) assms(3), of ?qc, unfolded r(2)])
        (use that roundQC_verifies[OF keys(1-3)] in auto)
    show "\<exists>t'. ?P (insert i B) t'"
      by (rule exI[of _ "t\<lparr>sy_replicas := (sy_replicas t)(i := r'), sy_signed := sy_signed t \<union> signedVote i None\<rparr>"])
        (use reachable.certificate[OF _ _ assms(2) roundQC_unforged[OF signed] o(1)] i B P o(2) same in
          \<open>auto simp: qcVote_def signedVote_def\<close>)
  qed simp
  then show ?thesis by blast
qed

lemma honest_voters:
  assumes "distinct (vs_ids vs)" "faulty \<subseteq> set (vs_ids vs)" "3 * card faulty < length (vs_ids vs)"
  obtains voters where "set voters = honest vs faulty" "distinct voters" "Quorum vs \<le> length voters"
proof -
  define voters where "voters = filter (\<lambda>i. i \<notin> faulty) (vs_ids vs)"
  have v: "set voters = honest vs faulty" "distinct voters" using assms(1) by (auto simp: voters_def)
  have card: "card (set (vs_ids vs)) = length (vs_ids vs)" using assms(1) by (rule distinct_card)
  have q: "Quorum vs \<le> length voters"
    using hs.honest_suffice[of "set (vs_ids vs)" faulty] assms v card
    by (simp add: Quorum_eq flip: distinct_card[OF v(2)])
  show thesis by (rule that[OF v q])
qed

lemma round_completes:
  assumes "reachable cr vs keyOf faulty Val s" "validate \<in> Val" "accepts validate block"
    and "\<forall>i \<in> honest vs faulty. standing cr vs keyOf block i (sy_replicas s i)"
    and "keysMatch cr vs keyOf (honest vs faulty)" "distinct (vs_ids vs)" "faulty \<subseteq> set (vs_ids vs)"
    "3 * card faulty < length (vs_ids vs)"
  shows "\<exists>t. reachable cr vs keyOf faulty Val t
    \<and> (\<forall>i \<in> honest vs faulty. rp_blocks (sy_replicas t i) = rp_blocks (sy_replicas s i) @ [block])"
proof -
  obtain voters where v: "set voters = honest vs faulty" "distinct voters" "Quorum vs \<le> length voters"
    by (rule honest_voters[OF assms(6-8)], rule that)
  note k = assms(5)[folded v(1)] v(2,3,1)
  have s: "phaseDone cr vs keyOf faulty Val block s PhasePrepare {} s" using assms(1,4) by (simp add: phaseDone_def)
  obtain s1 where s1: "phaseDone cr vs keyOf faulty Val block s PhasePrepare (honest vs faulty) s1"
    using prepare_phase[OF s assms(2,3)] by blast
  obtain s2 where s2: "phaseDone cr vs keyOf faulty Val block s1 PhasePreCommit (honest vs faulty) s2"
    using voting_phase[OF s1 assms(2,3) _ k] by blast
  obtain s3 where s3: "phaseDone cr vs keyOf faulty Val block s2 PhaseCommit (honest vs faulty) s3"
    using voting_phase[OF s2 assms(2,3) _ k] by blast
  have "\<forall>i \<in> honest vs faulty. rp_blocks (sy_replicas s3 i) = rp_blocks (sy_replicas s i)"
    using s1 s2 s3 by (simp add: phaseDone_def)
  then show ?thesis using commit_phase[OF s3 assms(2,3) k] by force
qed

text \<open>An honest replica keeps its key.\<close>

lemma effect_key: "effect cr r v qc r' \<Longrightarrow> rp_privateKey r' = rp_privateKey r"
  by (cases rule: effect.cases) (auto simp: sameChain_def)

lemma reachable_key:
  "reachable cr vs keyOf faulty Val s \<Longrightarrow> i \<in> honest vs faulty \<Longrightarrow> rp_privateKey (sy_replicas s i) = keyOf i"
proof (induction rule: reachable.induct)
  case (start R)
  then have "(NewReplica i (keyOf i) vs :: 'b hs_error + Replica) = Inr (R i)" by simp
  then show ?case by (cases "R i") (auto simp: NewReplica_def split: if_splits)
next
  case (proposal s j validate n block n' r' res)
  then show ?case using effect_key[OF OnProposal_effect[OF proposal.hyps(4)]] by auto
next
  case (certificate s j validate qc n block n' r' res)
  then show ?case using effect_key[OF OnQC_effect[OF certificate.hyps(5)]] by auto
qed simp

end
