(* ===== verification/HotStuff_Props.thy ===== *)
theory HotStuff_Props
  imports HotStuff_Live
begin

text \<open>The properties of the consensus, with a small concrete network of four validators.\<close>

section \<open>Four validators\<close>

definition toyCrypto :: crypto where
  "toyCrypto = \<lparr>cr_sha256 = (\<lambda>b. b), cr_sign = (\<lambda>key m. m), cr_verify = (\<lambda>pub m sig. sig = m),
     cr_keyFromSeed = (\<lambda>s. s), cr_public = (\<lambda>k. take 32 k)\<rparr>"

definition fourKeys :: "(string \<times> bytes) list" where
  "fourKeys = [(''b'', replicate 32 0), (''a'', replicate 32 0), (''d'', replicate 32 0), (''c'', replicate 32 0)]"

definition fourValidators :: ValidatorSet where
  "fourValidators = \<lparr>vs_keys = map_of fourKeys, vs_ids = [''a'', ''b'', ''c'', ''d'']\<rparr>"

definition fourReplica :: "string \<Rightarrow> Replica" where
  "fourReplica i = \<lparr>rp_id = i, rp_privateKey = replicate 64 0, rp_validators = fourValidators, rp_height = 0,
     rp_tipHash = GenesisHash, rp_blocks = [], rp_pending = Map.empty, rp_voted = Map.empty, rp_lockedHeight = 0, rp_lockedHash = []\<rparr>"

lemma four_set: "NewValidatorSet fourKeys = Inr fourValidators"
proof -
  have "sort (map fst fourKeys) = [''a'', ''b'', ''c'', ''d'']" by code_simp
  then show ?thesis by (simp add: NewValidatorSet_def fourValidators_def) (simp add: fourKeys_def)
qed

lemma four_distinct: "distinct (map fst fourKeys)" by (simp add: fourKeys_def)

lemma four_start:
  "reachable toyCrypto fourValidators (\<lambda>_. replicate 64 0) {''d''} {None :: (unit, unit) BlockValidator}
     \<lparr>sy_replicas = fourReplica, sy_signed = {}\<rparr>"
  by (rule reachable.start) (auto simp: NewReplica_def fourValidators_def fourKeys_def fourReplica_def)

lemma four_round:
  obtains t where "reachable toyCrypto fourValidators (\<lambda>_. replicate 64 0) {''d''} {None :: (unit, unit) BlockValidator} t"
    "\<forall>i \<in> {''a'', ''b'', ''c''}. rp_blocks (sy_replicas t i) = [sampleBlock 1 GenesisHash]"
proof -
  have ids: "vs_ids fourValidators = [''a'', ''b'', ''c'', ''d'']" by (simp add: fourValidators_def)
  have "\<exists>t. reachable toyCrypto fourValidators (\<lambda>_. replicate 64 0) {''d''} {None :: (unit, unit) BlockValidator} t
    \<and> (\<forall>i \<in> honest fourValidators {''d''}. rp_blocks (sy_replicas t i) =
        rp_blocks (sy_replicas \<lparr>sy_replicas = fourReplica, sy_signed = {}\<rparr> i) @ [sampleBlock 1 GenesisHash])"
  proof (rule round_completes[OF four_start, of None])
    show "\<forall>i \<in> honest fourValidators {''d''}. standing toyCrypto fourValidators (\<lambda>_. replicate 64 0) (sampleBlock 1 GenesisHash) i
        (sy_replicas \<lparr>sy_replicas = fourReplica, sy_signed = {}\<rparr> i)"
      by (simp add: standing_def ready_def fourReplica_def sampleBlock_def sampleHeader_def votedFor_def)
    show "keysMatch toyCrypto fourValidators (\<lambda>_. replicate 64 0) (honest fourValidators {''d''})"
      by (auto simp: keysMatch_def fourValidators_def fourKeys_def toyCrypto_def)
  qed (simp_all add: ids accepts_def)
  then show thesis using that by (auto simp: ids fourReplica_def)
qed

text \<open>Two certificates for one height share an honest signer, who votes once.\<close>

lemma chains_agree:
  assumes "NewValidatorSet keys = Inr vs" "distinct (map fst keys)"
    and "faulty \<subseteq> set (vs_ids vs)" "3 * card faulty < length (vs_ids vs)"
    and "reachable cr vs keyOf faulty Val s" "i \<in> set (vs_ids vs) - faulty" "j \<in> set (vs_ids vs) - faulty"
    and "k < length (rp_blocks (sy_replicas s i))" "k < length (rp_blocks (sy_replicas s j))"
  shows "Block_Hash (cr_sha256 cr) (rp_blocks (sy_replicas s i) ! k) = Block_Hash (cr_sha256 cr) (rp_blocks (sy_replicas s j) ! k)"
proof -
  note vs = NewValidatorSet_ok[OF assms(1,2)]
  let ?M = "set (vs_ids vs)" and ?S = "sy_signed s" and ?h = "of_nat (k + 1) :: u64"
  let ?voters = "\<lambda>b. {v \<in> ?M. v \<in> faulty \<or> (v, VoteSigningBytes PhaseCommit ?h b) \<in> ?S}"
  have card: "card ?M = length (vs_ids vs)" using vs(2) by (rule distinct_card)
  have cert: "Quorum vs \<le> card (?voters (Block_Hash (cr_sha256 cr) (rp_blocks (sy_replicas s l) ! k)))"
    if "l \<in> honest vs faulty" "k < length (rp_blocks (sy_replicas s l))" for l
    using reachable_inv[OF assms(5) vs(4) that(1)] that(2) unfolding replicaInv_def certified_def by blast
  have once: "b = b'" if "v \<in> ?M - faulty" "(v, VoteSigningBytes PhaseCommit ?h b) \<in> ?S"
    "(v, VoteSigningBytes PhaseCommit ?h b') \<in> ?S" for v b b'
    using reachable_inv[OF assms(5) vs(4) that(1)] that(2,3) unfolding replicaInv_def by metis
  show ?thesis
    by (rule hs.certificates_agree[where M = ?M and B = faulty
          and P = "?voters (Block_Hash (cr_sha256 cr) (rp_blocks (sy_replicas s i) ! k))"
          and Q = "?voters (Block_Hash (cr_sha256 cr) (rp_blocks (sy_replicas s j) ! k))"
          and voted = "\<lambda>v b. (v, VoteSigningBytes PhaseCommit ?h b) \<in> ?S"])
      (use assms(3,4,6-9) cert Quorum_eq[OF vs(2)] card once in auto)
qed

section \<open>Properties\<close>

text \<open>
  C6: Agreement. As long as fewer than a third of the validators are faulty, no two honest
  validators finalize different blocks at the same height: in every reachable state the shorter of
  two finalized chains is a prefix of the longer one, block hash by block hash.
\<close>

theorem finalized_chains_agree:
  assumes "NewValidatorSet keys = Inr vs" "distinct (map fst keys)"
    and "faulty \<subseteq> set (vs_ids vs)" "3 * card faulty < length (vs_ids vs)"
    and "reachable cr vs keyOf faulty Val s" "i \<in> set (vs_ids vs) - faulty" "j \<in> set (vs_ids vs) - faulty"
    and "k < length (rp_blocks (sy_replicas s i))" "k < length (rp_blocks (sy_replicas s j))"
  shows "Block_Hash (cr_sha256 cr) (rp_blocks (sy_replicas s i) ! k) = Block_Hash (cr_sha256 cr) (rp_blocks (sy_replicas s j) ! k)"
  by (rule chains_agree[OF assms])

theorem finalized_chains_agree_witness:
  "\<exists>t :: System. rp_blocks (sy_replicas t ''a'') = [sampleBlock 1 GenesisHash]
    \<and> Block_Hash (cr_sha256 toyCrypto) (rp_blocks (sy_replicas t ''a'') ! 0)
      = Block_Hash (cr_sha256 toyCrypto) (rp_blocks (sy_replicas t ''b'') ! 0)"
proof -
  obtain t where t: "reachable toyCrypto fourValidators (\<lambda>_. replicate 64 0) {''d''} {None :: (unit, unit) BlockValidator} t"
    "\<forall>i \<in> {''a'', ''b'', ''c''}. rp_blocks (sy_replicas t i) = [sampleBlock 1 GenesisHash]"
    by (rule four_round, rule that)
  have ids: "vs_ids fourValidators = [''a'', ''b'', ''c'', ''d'']" by (simp add: fourValidators_def)
  have "Block_Hash (cr_sha256 toyCrypto) (rp_blocks (sy_replicas t ''a'') ! 0)
      = Block_Hash (cr_sha256 toyCrypto) (rp_blocks (sy_replicas t ''b'') ! 0)"
    by (rule finalized_chains_agree[OF four_set four_distinct _ _ t(1)]) (simp_all add: ids t(2))
  then show ?thesis using t(2) by (intro exI[of _ t]) simp
qed

text \<open>
  C7: No double vote. An honest validator never signs votes for two different blocks at the same
  height in the same phase, and every vote it signed names a block.
\<close>

theorem no_double_vote:
  assumes "NewValidatorSet keys = Inr vs" "distinct (map fst keys)" "reachable cr vs keyOf faulty Val s"
    and "i \<in> set (vs_ids vs) - faulty"
    and "(i, VoteSigningBytes p h b) \<in> sy_signed s" "(i, VoteSigningBytes p h b') \<in> sy_signed s"
  shows "b = b' \<and> b \<noteq> []"
  using reachable_inv[OF assms(3) NewValidatorSet_ok(4)[OF assms(1,2)] assms(4)] assms(5,6) unfolding replicaInv_def by metis

theorem no_double_vote_witness:
  "\<exists>s :: System. (''a'', VoteSigningBytes PhasePrepare 1 (Block_Hash (cr_sha256 toyCrypto) (sampleBlock 1 GenesisHash))) \<in> sy_signed s
    \<and> Block_Hash (cr_sha256 toyCrypto) (sampleBlock 1 GenesisHash) \<noteq> []"
proof -
  let ?h = "Block_Hash (cr_sha256 toyCrypto) (sampleBlock 1 GenesisHash)"
  have ids: "''a'' \<in> honest fourValidators {''d''}" by (simp add: fourValidators_def)
  have "phaseDone toyCrypto fourValidators (\<lambda>_. replicate 64 0) {''d''} {None :: (unit, unit) BlockValidator} (sampleBlock 1 GenesisHash)
      \<lparr>sy_replicas = fourReplica, sy_signed = {}\<rparr> PhasePrepare {} \<lparr>sy_replicas = fourReplica, sy_signed = {}\<rparr>"
    using four_start
    by (simp add: phaseDone_def standing_def ready_def fourReplica_def sampleBlock_def sampleHeader_def votedFor_def)
  from prepare_phase[OF this] obtain t where
    t: "reachable toyCrypto fourValidators (\<lambda>_. replicate 64 0) {''d''} {None :: (unit, unit) BlockValidator} t"
    "(''a'', VoteSigningBytes PhasePrepare 1 ?h) \<in> sy_signed t"
    using ids by (auto simp: phaseDone_def accepts_def sampleBlock_def sampleHeader_def)
  have "?h = ?h \<and> ?h \<noteq> []" by (rule no_double_vote[OF four_set four_distinct t(1) ids t(2) t(2)])
  then show ?thesis using t(2) by (intro exI[of _ t] conjI) simp_all
qed

text \<open>
  C8: A round can always be completed. From every reachable state in which the honest validators
  stand at the same tip with their votes for the next height free, there is a continuation in which
  all of them finalize a given block that extends the tip and that their validators accept; the
  faulty validators need not take part.
\<close>

theorem round_can_finalize:
  assumes "NewValidatorSet keys = Inr vs" "distinct (map fst keys)"
    and "faulty \<subseteq> set (vs_ids vs)" "3 * card faulty < length (vs_ids vs)"
    and "keysMatch cr vs keyOf (set (vs_ids vs) - faulty)"
    and "reachable cr vs keyOf faulty Val s" "validate \<in> Val" "accepts validate block"
    and "\<forall>i \<in> set (vs_ids vs) - faulty. standing cr vs keyOf block i (sy_replicas s i)"
  shows "\<exists>t. reachable cr vs keyOf faulty Val t
    \<and> (\<forall>i \<in> set (vs_ids vs) - faulty. rp_blocks (sy_replicas t i) = rp_blocks (sy_replicas s i) @ [block])"
  by (rule round_completes[OF assms(6,7,8,9,5) NewValidatorSet_ok(2)[OF assms(1,2)] assms(3,4)])

theorem round_can_finalize_witness:
  "\<exists>t. reachable toyCrypto fourValidators (\<lambda>_. replicate 64 0) {} {None :: (unit, unit) BlockValidator} t
    \<and> rp_blocks (sy_replicas t ''d'') = [sampleBlock 1 GenesisHash]"
proof -
  have start: "reachable toyCrypto fourValidators (\<lambda>_. replicate 64 0) {} {None :: (unit, unit) BlockValidator}
     \<lparr>sy_replicas = fourReplica, sy_signed = {}\<rparr>"
    by (rule reachable.start) (auto simp: NewReplica_def fourValidators_def fourKeys_def fourReplica_def)
  have k: "keysMatch toyCrypto fourValidators (\<lambda>_. replicate 64 0) (set (vs_ids fourValidators) - {})"
    by (auto simp: keysMatch_def fourValidators_def fourKeys_def toyCrypto_def)
  have st: "\<forall>i \<in> set (vs_ids fourValidators) - {}. standing toyCrypto fourValidators (\<lambda>_. replicate 64 0)
      (sampleBlock 1 GenesisHash) i (sy_replicas \<lparr>sy_replicas = fourReplica, sy_signed = {}\<rparr> i)"
    by (simp add: standing_def ready_def fourReplica_def sampleBlock_def sampleHeader_def votedFor_def)
  have "{} \<subseteq> set (vs_ids fourValidators)" "3 * card ({} :: string set) < length (vs_ids fourValidators)"
    "accepts (None :: (unit, unit) BlockValidator) (sampleBlock 1 GenesisHash)"
    by (simp_all add: accepts_def fourValidators_def)
  from round_can_finalize[OF four_set four_distinct this(1,2) k start singletonI this(3) st]
  show ?thesis by (auto simp: fourValidators_def fourReplica_def)
qed

text \<open>
  The finalized chain of a replica stays linked and numbered whatever the handlers are given:
  block \<open>k\<close> has height \<open>k + 1\<close> and names the hash of its predecessor, and the replica's height and
  tip are those of the last block.
\<close>

theorem handlers_keep_chain:
  assumes "chainOK cr r" "OnProposal cr validate n r block = (n', r', res)" "OnQC cr validate n r block qc = (n'', r'', res')"
  shows "chainOK cr r' \<and> chainOK cr r''"
  using effect_chainOK[OF OnProposal_effect[OF assms(2)] assms(1)] effect_chainOK[OF OnQC_effect[OF assms(3)] assms(1)] by simp

theorem handlers_keep_chain_witness:
  "\<exists>n r v. OnProposal toyCrypto (None :: (unit, unit) BlockValidator) () (fourReplica ''a'') (sampleBlock 1 GenesisHash) = (n, r, Inr v)
    \<and> chainOK toyCrypto r"
proof -
  let ?q = "fourReplica ''a''" and ?b = "sampleBlock 1 GenesisHash"
  have c: "chainOK toyCrypto ?q" by (simp add: chainOK_def tipOf_def fourReplica_def)
  have r: "ready toyCrypto ?b ?q" "accepts (None :: (unit, unit) BlockValidator) ?b"
    by (simp_all add: ready_def accepts_def fourReplica_def sampleBlock_def sampleHeader_def votedFor_def)
  obtain n' r' v where p: "OnProposal toyCrypto (None :: (unit, unit) BlockValidator) () ?q ?b = (n', r', Inr v)"
    by (rule OnProposal_ready[OF r], rule that)
  obtain n'' r'' res where "OnQC toyCrypto (None :: (unit, unit) BlockValidator) () ?q ?b undefined = (n'', r'', res)"
    by (metis prod_cases3)
  from handlers_keep_chain[OF c p this] p show ?thesis by blast
qed

text \<open>
  C9: Certificates are what they claim: \<open>MakeQC\<close> succeeds exactly on votes for the subject, each
  verified under its voter's key, from pairwise different voters and at least a quorum of them; its
  result holds the same votes sorted by voter, whatever their order was, and passes \<open>VerifyQC\<close>.
\<close>

theorem certificates_characterized:
  "((MakeQC cr s phase height b votes :: 'e hs_error + QuorumCertificate) = Inr qc \<longleftrightarrow>
     mset votes = mset (qc_Votes qc) \<and> sorted (map vt_VoterID (qc_Votes qc))
     \<and> qc_Phase qc = phase \<and> qc_Height qc = height \<and> qc_BlockHash qc = b
     \<and> (VerifyQC cr s qc :: 'e hs_error + unit) = Inr ())
   \<and> ((VerifyQC cr s qc :: 'e hs_error + unit) = Inr () \<longleftrightarrow>
       list_all (\<lambda>v. vt_Phase v = qc_Phase qc \<and> vt_Height v = qc_Height qc \<and> vt_BlockHash v = qc_BlockHash qc
          \<and> (VerifyVote cr s v :: 'e hs_error + unit) = Inr ()) (qc_Votes qc)
       \<and> distinct (map vt_VoterID (qc_Votes qc)) \<and> 2 * length (vs_ids s) div 3 < length (qc_Votes qc))"
proof
  show "(MakeQC cr s phase height b votes :: 'e hs_error + QuorumCertificate) = Inr qc \<longleftrightarrow>
     mset votes = mset (qc_Votes qc) \<and> sorted (map vt_VoterID (qc_Votes qc))
     \<and> qc_Phase qc = phase \<and> qc_Height qc = height \<and> qc_BlockHash qc = b
     \<and> (VerifyQC cr s qc :: 'e hs_error + unit) = Inr ()" (is "?L = ?R")
  proof
    assume ?L
    then have m: "\<forall>v \<in> set votes. voteOK cr s phase height b v" "distinct (map vt_VoterID votes)" "Quorum s \<le> length votes"
      "qc = \<lparr>qc_Phase = phase, qc_Height = height, qc_BlockHash = b, qc_Votes = sortSlice vt_VoterID votes\<rparr>"
      unfolding MakeQC_ok by simp_all
    have "distinct (map vt_VoterID (sortSlice vt_VoterID votes))"
      using m(2) by (simp add: distinct_map)
    then show ?R using m by (simp add: VerifyQC_ok)
  next
    assume R: ?R
    then have v: "\<forall>v \<in> set votes. voteOK cr s phase height b v" "distinct (map vt_VoterID (qc_Votes qc))"
      "Quorum s \<le> length votes"
      unfolding VerifyQC_ok using mset_eq_setD mset_eq_length by (metis)+
    have d: "distinct (map vt_VoterID votes)"
      using v(2) R by (metis mset_eq_imp_distinct_iff mset_map)
    have "sortSlice vt_VoterID votes = sortSlice vt_VoterID (qc_Votes qc)"
      using R d by (intro sortSlice_perm_unique) (simp_all add: distinct_map)
    also have "\<dots> = qc_Votes qc" using R by (simp add: sortSlice_def sort_key_id_if_sorted)
    finally show ?L using R v d unfolding MakeQC_ok by (cases qc) simp
  qed
qed (auto simp: VerifyQC_ok list_all_iff voteOK_def voteOK_verify[where 'e = 'e] Quorum_def VS_Len_def)

text \<open>
  C10: A split height stays split. There is no view change: once a replica has voted for a block at
  the next height, it refuses every proposal of another block at that height, with no change to
  what it has voted for.
\<close>

theorem other_block_refused:
  assumes "votedFor r (rp_height r + 1) PhasePrepare \<notin> {[], Block_Hash (cr_sha256 cr) block}"
    and "bh_Height (bl_Header block) = rp_height r + 1"
    and "OnProposal cr validate n r block = (n', r', res)"
  shows "(\<exists>e. res = Inl e) \<and> votedFor r' = votedFor r \<and> rp_blocks r' = rp_blocks r"
  using OnProposal_effect[OF assms(3)]
proof cases
  case idle
  moreover have "\<exists>e. res = Inl e" using idle by (cases res) simp_all
  ultimately show ?thesis by (simp add: sameChain_def)
next
  case (votes v)
  have res: "\<exists>v. res = Inr v" using votes(1) by (cases res) simp_all
  have "voteLocked cr (r\<lparr>rp_pending := (rp_pending r)(Block_Hash (cr_sha256 cr) block \<mapsto> block)\<rparr>) PhasePrepare
      (rp_height r + 1) (Block_Hash (cr_sha256 cr) block) = (r', res)"
    using assms(2,3) res by (auto simp: OnProposal_def Let_def split: prod.splits sum.splits if_splits)
  then have False
  proof (cases rule: voteLocked_cases)
    case refused
    then show ?thesis using res by simp
  next
    case (cast w)
    then show ?thesis using assms(1) by simp
  qed
  then show ?thesis ..
qed

theorem other_block_refused_witness:
  "\<exists>(r :: Replica) n r' res. votedFor r 1 PhasePrepare = ''0x00''
    \<and> OnProposal toyCrypto (None :: (unit, unit) BlockValidator) () r (sampleBlock 1 GenesisHash) = (n, r', Inl res)"
proof -
  let ?r = "(fourReplica ''a'')\<lparr>rp_voted := [1 \<mapsto> [PhasePrepare \<mapsto> ''0x00'']]\<rparr>"
  have v: "votedFor ?r 1 PhasePrepare = ''0x00''" "rp_height ?r = 0" by (simp_all add: votedFor_def fourReplica_def)
  have "Block_Hash (cr_sha256 toyCrypto) (sampleBlock 1 GenesisHash) \<noteq> ''0x00''"
    by (auto simp: Block_Hash_def HashJSON_def HashBytes_def dest: arg_cong[where f = length])
  moreover obtain n r' res where "OnProposal toyCrypto (None :: (unit, unit) BlockValidator) () ?r (sampleBlock 1 GenesisHash) = (n, r', res)"
    by (metis prod_cases3)
  moreover have "bh_Height (bl_Header (sampleBlock 1 GenesisHash)) = rp_height ?r + 1"
    unfolding v by (simp add: sampleBlock_def sampleHeader_def)
  ultimately have "\<exists>e. res = Inl e" "OnProposal toyCrypto (None :: (unit, unit) BlockValidator) () ?r (sampleBlock 1 GenesisHash) = (n, r', res)"
    using other_block_refused[of ?r toyCrypto "sampleBlock 1 GenesisHash" None "()" n r' res] v by simp_all
  then show ?thesis using v(1) by blast
qed

end
