(* ===== verification/Node_Safety.thy ===== *)
theory Node_Safety
  imports Node_Laws HotStuff_Props
begin

text \<open>
  A network of validator nodes: every operation of an honest node, in any order and on any input, as
  an inductive step relation. The network refines the replica network of \<open>HotStuff_Safety\<close>, so its
  finalized chains agree; and every block an honest node finalizes passed that node's validation.
\<close>

section \<open>The replica inside a node\<close>

lemma validateBlockLocked_node:
  assumes "validateBlockLocked cr (Some f) n r block = (n', res)"
  shows "n' = n \<or> (\<exists>w. f n block = (n', w))"
  using assms by (auto simp: validateBlockLocked_def Let_def split: if_splits prod.splits)

lemma OnProposal_node:
  assumes "OnProposal cr (Some f) n r block = (n', r', res)"
  shows "(n' = n \<or> (\<exists>w. f n block = (n', w))) \<and> rp_blocks r' = rp_blocks r"
proof -
  obtain m w where m: "validateBlockLocked cr (Some f) n r block = (m, w)" by fastforce
  then have "n' = m" using assms by (auto simp: OnProposal_def Let_def split: sum.splits if_splits)
  moreover have "rp_blocks r' = rp_blocks r"
    using assms m by (auto simp: OnProposal_def voteLocked_def Let_def split: sum.splits if_splits)
  ultimately show ?thesis using validateBlockLocked_node[OF m] by simp
qed

lemma onPhase_blocks:
  assumes "onPhase cr r block qc hash = (r', res)"
  shows "rp_blocks r' = rp_blocks r \<or> (rp_blocks r' = rp_blocks r @ [block] \<and> bh_Height (bl_Header block) = rp_height r + 1
      \<and> \<not> (rp_height r = bh_Height (bl_Header block) \<and> rp_tipHash r = hash))"
  using assms by (auto simp: onPhase_def voteLocked_def Let_def split: if_splits prod.splits)

text \<open>A replica appends a block only after its validation callback accepted it.\<close>

lemma OnQC_node:
  assumes "OnQC cr (Some f) n r block qc = (n', r', res)"
  shows "(n' = n \<or> (\<exists>w. f n block = (n', w)))
    \<and> (rp_blocks r' = rp_blocks r \<or> rp_blocks r' = rp_blocks r @ [block] \<and> (\<exists>u. f n block = (n', Inr u)))"
proof -
  obtain m w where m: "validateBlockLocked cr (Some f) n r block = (m, w)" by fastforce
  let ?hash = "Block_Hash (cr_sha256 cr) block"
  consider "n' = n" "r' = r" | "n' = m" "r' = r"
    | u where "n' = m" "w = Inr u" "onPhase cr (r\<lparr>rp_pending := (rp_pending r)(?hash \<mapsto> block)\<rparr>) block qc ?hash = (r', res)"
    using assms m by (auto simp: OnQC_def Let_def split: sum.splits if_splits)
  then show ?thesis
  proof cases
    case 3
    have "\<exists>u. f n block = (n', Inr u)" if "bh_Height (bl_Header block) = rp_height r + 1"
        "\<not> (rp_height r = bh_Height (bl_Header block) \<and> rp_tipHash r = ?hash)"
      using that m 3(1,2) by (auto simp: validateBlockLocked_def Let_def split: if_splits prod.splits)
    then show ?thesis using onPhase_blocks[OF 3(3)] validateBlockLocked_node[OF m] 3(1) by auto
  qed (use validateBlockLocked_node[OF m] in auto)
qed

section \<open>The invariant of a node\<close>

definition nodeInv :: "'x env \<Rightarrow> ValidatorSet \<Rightarrow> 'x Node \<Rightarrow> bool" where
  "nodeInv v vs n \<longleftrightarrow> nd_validators n = vs \<and> cacheInv v n
     \<and> Block_Hash (nv_sha256 v) ` set (rp_blocks (nd_replica n)) \<subseteq> nd_validatedBlocks n"

text \<open>Fields that validation does not read.\<close>

lemma blockOK_other [simp]:
  "blockOK v (n\<lparr>nd_replica := r\<rparr>) block = blockOK v n block" "blockOK v (n\<lparr>nd_objectStore := s\<rparr>) block = blockOK v n block"
  "blockOK v (n\<lparr>nd_peers := p\<rparr>) block = blockOK v n block" "blockOK v (n\<lparr>nd_miners := q\<rparr>) block = blockOK v n block"
  "blockOK v (n\<lparr>nd_execution := x\<rparr>) block = blockOK v n block"
  by (simp_all add: blockOK_def validateResult_def validateResultCommitment_def ticketOK_def certificateOK_def
      attestationOK_def provedBy_def)

lemma cacheInv_other [simp]:
  "cacheInv v (n\<lparr>nd_replica := r\<rparr>) = cacheInv v n" "cacheInv v (n\<lparr>nd_objectStore := s\<rparr>) = cacheInv v n"
  "cacheInv v (n\<lparr>nd_peers := p\<rparr>) = cacheInv v n" "cacheInv v (n\<lparr>nd_miners := q\<rparr>) = cacheInv v n"
  "cacheInv v (n\<lparr>nd_execution := x\<rparr>) = cacheInv v n"
  by (simp_all add: cacheInv_def zkmlInv_def)

lemma nodeInv_other [simp]:
  "nodeInv v vs (n\<lparr>nd_objectStore := s\<rparr>) = nodeInv v vs n" "nodeInv v vs (n\<lparr>nd_peers := p\<rparr>) = nodeInv v vs n"
  "nodeInv v vs (n\<lparr>nd_miners := q\<rparr>) = nodeInv v vs n" "nodeInv v vs (n\<lparr>nd_execution := x\<rparr>) = nodeInv v vs n"
  by (simp_all add: nodeInv_def)

lemma validateBlock_node:
  assumes "validateBlock v now n block = (n', r)" "nodeInv v vs n"
  shows "nodeInv v vs n' \<and> nd_replica n' = nd_replica n \<and> nd_objectStore n' = nd_objectStore n
    \<and> (r = Inr () \<longrightarrow> Block_Hash (nv_sha256 v) block \<in> nd_validatedBlocks n')"
proof -
  have c: "cacheInv v n" "zkmlInv v n" using assms(2) by (simp_all add: nodeInv_def cacheInv_def)
  note k = validateBlock_keeps[OF assms(1) c(2)]
  note f = keeps_fields[OF conjunct1[OF k]]
  show ?thesis using k f validateBlock_inv[OF assms(1) c(1)] assms(2) by (auto simp: nodeInv_def)
qed

lemma Node_OnProposal_inv:
  assumes "Node_OnProposal v now n block = (n', res)" "nodeInv v vs n"
  shows "nodeInv v vs n' \<and> (\<exists>m r' w. OnProposal (nv_crypto v) (Some (validateBlock v now)) n (nd_replica n) block = (m, r', w)
    \<and> nd_replica n' = r' \<and> res = mapErr HandlerConsensus w)"
proof -
  obtain m r' w where o: "OnProposal (nv_crypto v) (Some (validateBlock v now)) n (nd_replica n) block = (m, r', w)"
    by (metis prod_cases3)
  have n': "n' = m\<lparr>nd_replica := r'\<rparr>" "res = mapErr HandlerConsensus w" using assms(1) o by (simp_all add: Node_OnProposal_def)
  have "nodeInv v vs m \<and> nd_replica m = nd_replica n"
    using OnProposal_node[OF o] validateBlock_node[OF _ assms(2)] assms(2) by auto
  then have "nodeInv v vs n'" using OnProposal_node[OF o] n' by (auto simp: nodeInv_def)
  then show ?thesis using o n' by simp
qed

lemma replicaQC_inv:
  assumes "replicaQC v now n block qc = (n', res)" "nodeInv v vs n"
  shows "nodeInv v vs n' \<and> (\<exists>m r' w. OnQC (nv_crypto v) (Some (validateBlock v now)) n (nd_replica n) block qc = (m, r', w)
    \<and> nd_replica n' = r' \<and> res = mapErr HandlerConsensus w)"
proof -
  obtain m r' w where o: "OnQC (nv_crypto v) (Some (validateBlock v now)) n (nd_replica n) block qc = (m, r', w)"
    by (metis prod_cases3)
  have n': "n' = m\<lparr>nd_replica := r'\<rparr>" "res = mapErr HandlerConsensus w" using assms(1) o by (simp_all add: replicaQC_def)
  have m: "nodeInv v vs m \<and> nd_replica m = nd_replica n"
    using OnQC_node[OF o] validateBlock_node[OF _ assms(2)] assms(2) by auto
  have "Block_Hash (nv_sha256 v) block \<in> nd_validatedBlocks m" if changed: "rp_blocks r' \<noteq> rp_blocks (nd_replica n)"
  proof -
    obtain u where "validateBlock v now n block = (m, Inr u)" using OnQC_node[OF o] changed by blast
    from validateBlock_node[OF this assms(2)] show ?thesis by simp
  qed
  then have "nodeInv v vs n'" using OnQC_node[OF o] n' m by (auto simp: nodeInv_def image_subset_iff)
  then show ?thesis using o n' by simp
qed

text \<open>On a commit certificate the node may stop before it reaches its replica.\<close>

lemma Node_OnQC_inv:
  assumes "Node_OnQC v now n block qc = (n', res)" "nodeInv v vs n"
  shows "nodeInv v vs n' \<and> (nd_replica n' = nd_replica n \<and> (\<exists>e. res = Inl e)
    \<or> (\<exists>n1 m r' w. OnQC (nv_crypto v) (Some (validateBlock v now)) n1 (nd_replica n) block qc = (m, r', w)
       \<and> nd_replica n' = r' \<and> res = mapErr HandlerConsensus w))"
proof -
  obtain m w where b: "validateBlock v now n block = (m, w)" by fastforce
  note vb = validateBlock_node[OF b assms(2)]
  obtain x fr where f: "en_Finalize (nv_engine v) (nd_execution m) (bl_Execution block) = (x, fr)" by fastforce
  obtain st pr where p: "Put (nv_sha256 v) (nv_osOK v) (nd_objectStore m) (json_marshal (block_json block)) = (st, pr)" by fastforce
  consider (replica) "replicaQC v now n block qc = (n', res)"
    | (stop) e where "res = Inl e" "n' = n \<or> n' = m \<or> n' = m\<lparr>nd_execution := x\<rparr> \<or> n' = m\<lparr>nd_execution := x, nd_objectStore := st\<rparr>"
    | (through) "replicaQC v now (m\<lparr>nd_execution := x, nd_objectStore := st\<rparr>) block qc = (n', res)"
    using assms(1) b f p by (auto simp: Node_OnQC_def Let_def split: if_splits sum.splits)
  then show ?thesis
  proof cases
    case replica
    then show ?thesis using replicaQC_inv[OF _ assms(2)] by blast
  next
    case stop
    then show ?thesis using vb assms(2) by auto
  next
    case through
    then show ?thesis using replicaQC_inv[OF through, of vs] vb by auto
  qed
qed

lemma Node_New_inv:
  assumes "Node_New v cfg = Inr n" "cf_Validators cfg = Some vs"
  shows "nodeInv v vs n \<and> nd_id n = cf_ID cfg
    \<and> (NewReplica (cf_ID cfg) (cf_PrivateKey cfg) vs :: node_error hs_error + Replica) = Inr (nd_replica n)"
  using assms
  by (auto simp: Node_New_def NewReplica_def nodeInv_def cacheInv_def zkmlInv_def Let_def split: if_splits)

lemma checkSubmission_inv:
  assumes "checkSubmission v n h p job result ts ps c zs = (n', r)" "nodeInv v vs n"
  shows "nodeInv v vs n' \<and> nd_replica n' = nd_replica n"
proof -
  have z: "zkmlInv v n" using assms(2) by (simp add: nodeInv_def cacheInv_def)
  obtain m w where m: "validateResultCertificate v n h p job result ts c zs = (m, w)" by fastforce
  note k = validateResultCertificate_keeps[OF m z]
  have "nodeInv v vs m" using k keeps_fields[of n m] blockOK_keeps[of n m v] assms(2) by (auto simp: nodeInv_def cacheInv_def)
  moreover have "n' = n \<or> n' = m" using assms(1) m by (auto simp: checkSubmission_def split: sum.splits)
  ultimately show ?thesis using assms(2) k keeps_fields[of n m] by auto
qed

lemma proposeBlock_inv:
  assumes "proposeBlock v nw now n request = (n', r)" "nodeInv v vs n"
  shows "nodeInv v vs n' \<and> nd_replica n' = nd_replica n"
proof -
  obtain h tip where ht: "HeightAndTip (nd_replica n) = (h, tip)" by fastforce
  obtain m w where m: "checkSubmission v n (h + 1) tip (pq_Job request) (pq_Result request) (elems (pq_Tickets request))
      (pq_AIProofs request) (pq_ResultQC request) (pq_ZKMLProofs request) = (m, w)" by fastforce
  have "n' = n \<or> n' = m \<or> (\<exists>x. n' = m\<lparr>nd_execution := x\<rparr>)"
    using assms(1) m ht by (auto simp: proposeBlock_def Let_def split: sum.splits prod.splits if_splits)
  then show ?thesis using checkSubmission_inv[OF m assms(2)] assms(2) by auto
qed

lemma Propose_inv:
  assumes "Propose v nw now n request = (n', r)" "nodeInv v vs n"
  shows "nodeInv v vs n' \<and> nd_replica n' = nd_replica n"
  using assms(1) proposeBlock_inv[OF _ assms(2)] by (auto simp: Propose_def split: prod.splits sum.splits)

lemma RunRound_inv:
  assumes "RunRound v nw order now n request = (n', r)" "nodeInv v vs n"
  shows "nodeInv v vs n' \<and> nd_replica n' = nd_replica n"
proof -
  have "n' = n \<or> (\<exists>h tip job result ts ps c zs w. checkSubmission v n h tip job result ts ps c zs = (n', w))"
    using assms(1) by (auto simp: RunRound_def Let_def split: sum.splits prod.splits if_splits option.splits)
  then show ?thesis using checkSubmission_inv[OF _ assms(2)] assms(2) by metis
qed

section \<open>The network\<close>

record 'x NodeSystem =
  ns_nodes :: "string \<Rightarrow> 'x Node"
  ns_signed :: "(string \<times> bytes) set"

text \<open>
  Honest nodes start from a configuration with the common validator set and their own key; then they
  handle proposals, certificates, proposal and round requests and object lookups, in any order. A
  certificate that a node receives contains only signatures of honest nodes that these made.
\<close>

inductive nodeReachable ::
  "'x env \<Rightarrow> ValidatorSet \<Rightarrow> (string \<Rightarrow> bytes) \<Rightarrow> string set \<Rightarrow> 'x NodeSystem \<Rightarrow> bool" for v vs keyOf faulty where
  start: "\<forall>i \<in> honest vs faulty. cf_ID (cfg i) = i \<and> cf_Validators (cfg i) = Some vs \<and> cf_PrivateKey (cfg i) = keyOf i
      \<and> Node_New v (cfg i) = Inr (N i) \<Longrightarrow> nodeReachable v vs keyOf faulty \<lparr>ns_nodes = N, ns_signed = {}\<rparr>"
| proposal: "nodeReachable v vs keyOf faulty s \<Longrightarrow> i \<in> honest vs faulty \<Longrightarrow> Node_OnProposal v now (ns_nodes s i) block = (n', res) \<Longrightarrow>
    nodeReachable v vs keyOf faulty (s\<lparr>ns_nodes := (ns_nodes s)(i := n'),
      ns_signed := ns_signed s \<union> signedVote i (case res of Inl _ \<Rightarrow> None | Inr vote \<Rightarrow> Some vote)\<rparr>)"
| certificate: "nodeReachable v vs keyOf faulty s \<Longrightarrow> i \<in> honest vs faulty \<Longrightarrow> unforged (nv_crypto v) vs faulty (ns_signed s) qc \<Longrightarrow>
    Node_OnQC v now (ns_nodes s i) block qc = (n', res) \<Longrightarrow>
    nodeReachable v vs keyOf faulty (s\<lparr>ns_nodes := (ns_nodes s)(i := n'),
      ns_signed := ns_signed s \<union> signedVote i (case res of Inl _ \<Rightarrow> None | Inr (vote, _) \<Rightarrow> vote)\<rparr>)"
| propose: "nodeReachable v vs keyOf faulty s \<Longrightarrow> i \<in> honest vs faulty \<Longrightarrow> Propose v nw now (ns_nodes s i) req = (n', res) \<Longrightarrow>
    nodeReachable v vs keyOf faulty (s\<lparr>ns_nodes := (ns_nodes s)(i := n')\<rparr>)"
| round: "nodeReachable v vs keyOf faulty s \<Longrightarrow> i \<in> honest vs faulty \<Longrightarrow> RunRound v nw order now (ns_nodes s i) rreq = (n', res) \<Longrightarrow>
    nodeReachable v vs keyOf faulty (s\<lparr>ns_nodes := (ns_nodes s)(i := n')\<rparr>)"
| object: "nodeReachable v vs keyOf faulty s \<Longrightarrow> i \<in> honest vs faulty \<Longrightarrow> Node_Object v (ns_nodes s i) ident = (n', data) \<Longrightarrow>
    nodeReachable v vs keyOf faulty (s\<lparr>ns_nodes := (ns_nodes s)(i := n')\<rparr>)"
| configure: "nodeReachable v vs keyOf faulty s \<Longrightarrow> i \<in> honest vs faulty \<Longrightarrow>
    nodeReachable v vs keyOf faulty (s\<lparr>ns_nodes := (ns_nodes s)(i := SetMiners (SetPeers (ns_nodes s i) peers) miners)\<rparr>)"
| other: "nodeReachable v vs keyOf faulty s \<Longrightarrow> i \<in> honest vs faulty \<Longrightarrow>
    msg = InferenceSigningBytes a \<or> msg = bytes_of (HashBytes (nv_sha256 v) d) \<Longrightarrow>
    nodeReachable v vs keyOf faulty (s\<lparr>ns_signed := ns_signed s \<union> {(i, msg)}\<rparr>)"

text \<open>The replicas of the nodes.\<close>

definition replicasOf :: "'x NodeSystem \<Rightarrow> System" where
  "replicasOf s = \<lparr>sy_replicas = (\<lambda>i. nd_replica (ns_nodes s i)), sy_signed = ns_signed s\<rparr>"

definition nodeValidators :: "'x env \<Rightarrow> ('x Node, node_error) BlockValidator set" where
  "nodeValidators v = range (\<lambda>now. Some (validateBlock v now))"

lemma nodeReachable_inv:
  "nodeReachable v vs keyOf faulty s \<Longrightarrow> i \<in> honest vs faulty \<Longrightarrow> nodeInv v vs (ns_nodes s i)"
proof (induction rule: nodeReachable.induct)
  case (start cfg N)
  then show ?case using Node_New_inv[of v "cfg i" "N i" vs] by simp
next
  case (proposal s j now block n' res)
  then show ?case using Node_OnProposal_inv[OF proposal(3), of vs] by auto
next
  case (certificate s j qc now block n' res)
  then show ?case using Node_OnQC_inv[OF certificate(4), of vs] by auto
next
  case (propose s j nw now req n' res)
  then show ?case using Propose_inv[OF propose(3), of vs] by auto
next
  case (round s j nw order now rreq n' res)
  then show ?case using RunRound_inv[OF round(3), of vs] by auto
next
  case (object s j ident n' data)
  then show ?case by (auto simp: Node_Object_def split: prod.splits)
next
  case (configure s j peers miners)
  then show ?case by (auto simp: SetMiners_def SetPeers_def)
qed simp

section \<open>Refinement\<close>

lemma replicasOf_update [simp]:
  "replicasOf (s\<lparr>ns_nodes := (ns_nodes s)(i := n'), ns_signed := S\<rparr>) =
     (replicasOf s)\<lparr>sy_replicas := (sy_replicas (replicasOf s))(i := nd_replica n'), sy_signed := S\<rparr>"
  "replicasOf (s\<lparr>ns_nodes := (ns_nodes s)(i := n')\<rparr>) =
     (replicasOf s)\<lparr>sy_replicas := (sy_replicas (replicasOf s))(i := nd_replica n')\<rparr>"
  "replicasOf (s\<lparr>ns_signed := S\<rparr>) = (replicasOf s)\<lparr>sy_signed := S\<rparr>"
  "sy_replicas (replicasOf s) i = nd_replica (ns_nodes s i)" "sy_signed (replicasOf s) = ns_signed s"
  by (auto simp: replicasOf_def)

lemma replicasOf_same: "nd_replica n' = nd_replica (ns_nodes s i) \<Longrightarrow> replicasOf (s\<lparr>ns_nodes := (ns_nodes s)(i := n')\<rparr>) = replicasOf s"
  by (auto simp: replicasOf_def)

lemma signedVote_None [simp]: "signedVote i None = {}"
  by (simp add: signedVote_def)

lemma nodes_refine_replicas:
  assumes "nodeReachable v vs keyOf faulty s"
  shows "reachable (nv_crypto v) vs keyOf faulty (nodeValidators v) (replicasOf s)"
  using assms
proof (induction rule: nodeReachable.induct)
  case (start cfg N)
  have "\<forall>i \<in> honest vs faulty. (NewReplica i (keyOf i) vs :: node_error hs_error + Replica) = Inr (nd_replica (N i))"
    using start Node_New_inv by fastforce
  then show ?case unfolding replicasOf_def using reachable.start[of vs faulty keyOf "\<lambda>i. nd_replica (N i)"] by simp
next
  case (proposal s i now block n' res)
  obtain m r' w where o: "OnProposal (nv_crypto v) (Some (validateBlock v now)) (ns_nodes s i) (nd_replica (ns_nodes s i)) block = (m, r', w)"
      "nd_replica n' = r'" "res = mapErr HandlerConsensus w"
    using Node_OnProposal_inv[OF proposal(3) nodeReachable_inv[OF proposal(1,2)]] by blast
  have "(case res of Inl _ \<Rightarrow> None | Inr vote \<Rightarrow> Some vote) = (case w of Inl _ \<Rightarrow> None | Inr vote \<Rightarrow> Some vote)"
    using o(3) by (cases w) simp_all
  then show ?case
    using reachable.proposal[OF proposal.IH proposal(2), of "Some (validateBlock v now)"] o by (simp add: nodeValidators_def)
next
  case (certificate s i qc now block n' res)
  note inv = Node_OnQC_inv[OF certificate(4) nodeReachable_inv[OF certificate(1,2)]]
  show ?case
  proof (cases "nd_replica n' = nd_replica (ns_nodes s i) \<and> (\<exists>e. res = Inl e)")
    case True
    then have "replicasOf (s\<lparr>ns_nodes := (ns_nodes s)(i := n'), ns_signed := ns_signed s \<union>
        signedVote i (case res of Inl _ \<Rightarrow> None | Inr (vote, _) \<Rightarrow> vote)\<rparr>) = replicasOf s"
      by (auto simp: replicasOf_def)
    then show ?thesis using certificate.IH by simp
  next
    case False
    then obtain n1 m r' w where o: "OnQC (nv_crypto v) (Some (validateBlock v now)) n1 (nd_replica (ns_nodes s i)) block qc = (m, r', w)"
        "nd_replica n' = r'" "res = mapErr HandlerConsensus w" using inv by blast
    have "(case res of Inl _ \<Rightarrow> None | Inr (vote, _) \<Rightarrow> vote) = qcVote w"
      using o(3) by (cases w) (simp_all add: qcVote_def)
    then show ?thesis
      using reachable.certificate[OF certificate.IH certificate(2), of "Some (validateBlock v now)" qc n1 block m r' w] o certificate(3)
      by (simp add: nodeValidators_def)
  qed
next
  case (propose s i nw now req n' res)
  then show ?case using Propose_inv[OF propose(3) nodeReachable_inv[OF propose(1,2)]] replicasOf_same by metis
next
  case (round s i nw order now rreq n' res)
  then show ?case using RunRound_inv[OF round(3) nodeReachable_inv[OF round(1,2)]] replicasOf_same by metis
next
  case (object s i ident n' data)
  then have "nd_replica n' = nd_replica (ns_nodes s i)" by (auto simp: Node_Object_def split: prod.splits)
  then show ?case using object replicasOf_same by metis
next
  case (configure s i peers miners)
  have "nd_replica (SetMiners (SetPeers (ns_nodes s i) peers) miners) = nd_replica (ns_nodes s i)"
    by (simp add: SetMiners_def SetPeers_def)
  then show ?case using configure.IH replicasOf_same by metis
next
  case (other s i msg a d)
  then show ?case using reachable.other[OF other.IH other(2,3)] by simp
qed

end
