(* ===== verification/Node_Live.thy ===== *)
theory Node_Live
  imports Miner_Laws Node_Safety
begin

text \<open>
  A round of honest parties goes through: from the responses of honest miners the proposer builds a
  block, and every node with the same policy, on the same tip and execution head, accepts it. This
  composes the miner, the runners, the zkML prover, the EVM forwarder, the mock engine and the
  validation of blocks.
\<close>

section \<open>Permutations\<close>

lemma SelectWinner_ok:
  "SelectWinner sha256 ts = Inr w \<longleftrightarrow>
     ts \<noteq> [] \<and> (\<forall>t \<in> set ts. Ticket_Verify sha256 t = Inr ()) \<and> w = hd (sortSlice (\<lambda>t. (tk_WorkHash t, tk_MinerID t)) ts)"
  by (auto simp: SelectWinner_def)

lemma SelectWinner_perm:
  assumes "SelectWinner sha256 ts = Inr w" "mset ts = mset ts'" "distinct (map tk_MinerID ts)"
  shows "SelectWinner sha256 ts' = Inr w"
proof -
  have "inj_on (\<lambda>t. (tk_WorkHash t, tk_MinerID t)) (set ts)" "distinct ts"
    using assms(3) by (auto simp: distinct_map inj_on_def)
  then have "sortSlice (\<lambda>t. (tk_WorkHash t, tk_MinerID t)) ts = sortSlice (\<lambda>t. (tk_WorkHash t, tk_MinerID t)) ts'"
    using sortSlice_perm_unique[OF assms(2)] by simp
  moreover have "set ts' = set ts" using assms(2) by (metis mset_eq_setD)
  moreover have "ts' \<noteq> [] \<longleftrightarrow> ts \<noteq> []" using assms(2) by (metis mset_zero_iff)
  ultimately show ?thesis using assms(1) unfolding SelectWinner_ok by metis
qed

section \<open>The payload\<close>

text \<open>Time stamps: the number of seconds fits a \<open>uint64\<close> and is not zero.\<close>

definition goodTime :: "int \<Rightarrow> bool" where
  "goodTime now \<longleftrightarrow> 0 < unixSeconds now \<and> unixSeconds now < 2 ^ 63"

lemma goodTime_quantity: "goodTime now \<Longrightarrow> quantity (of_int (unixSeconds now)) = ''0x'' @ hexInt (unixSeconds now)"
proof -
  assume "goodTime now"
  then have s: "0 < unixSeconds now" "unixSeconds now < 2 ^ 64" by (simp_all add: goodTime_def)
  then have "uint (of_int (unixSeconds now) :: u64) = unixSeconds now" by (simp add: word_of_int_inverse)
  then have "unat (of_int (unixSeconds now) :: u64) = nat (unixSeconds now)" by (simp add: unat_eq_nat_uint)
  then show ?thesis using s(1) by (simp add: quantity_def hexInt_def)
qed

lemma goodTime_input:
  assumes "goodTime now"
  shows "inputOK (buildInputFor sha256 nodeID tip job height (unixSeconds now))"
proof -
  have s: "0 < unixSeconds now" "unixSeconds now < 2 ^ 64" using assms by (simp_all add: goodTime_def)
  then have "uint (of_int (unixSeconds now) :: u64) = unixSeconds now" by (simp add: word_of_int_inverse)
  then have "(of_int (unixSeconds now) :: u64) \<noteq> 0" using s(1) by (metis less_irrefl unsigned_0)
  then show ?thesis by (simp add: inputOK_def buildInputFor_def Let_def)
qed

lemma seconds_idem: "unixSeconds (unixSeconds now * 1000000000) = unixSeconds now"
  by (simp add: unixSeconds_def)

lemma Execute_verifies: "Execute sha256 post decodeRPC url p request = Inr receipt \<Longrightarrow> VerifyReceipt sha256 p request receipt = Inr ()"
  by (auto simp: VerifyReceipt_ok dest!: Execute_makes)

lemma Build_payload:
  assumes "Mock_Build sha256 m input = Inr payload"
  shows "ex_Timestamp payload = quantity (bi_Timestamp input)"
  using assms by (auto simp: Mock_Build_def Let_def)

section \<open>The same policy\<close>

definition samePolicy :: "'x Node \<Rightarrow> 'x Node \<Rightarrow> bool" where
  "samePolicy n p \<longleftrightarrow> nd_validators p = nd_validators n \<and> nd_difficulty p = nd_difficulty n \<and> nd_manifestRoot p = nd_manifestRoot n
     \<and> nd_aiSealManifest p = nd_aiSealManifest n \<and> nd_runner p = nd_runner n \<and> nd_zkmlVerifier p = nd_zkmlVerifier n
     \<and> nd_minZKMLProofs p = nd_minZKMLProofs n"

lemma samePolicy_configured: "samePolicy n p \<Longrightarrow> configured v p s = configured v n s"
  by (simp add: samePolicy_def configured_def)

lemma samePolicy_round: "samePolicy n p \<Longrightarrow> honestRound v p request xs ts as zs = honestRound v n request xs ts as zs"
  using samePolicy_def[of n p] by (simp add: honestRound_def honestResponse_def samePolicy_configured)

lemma samePolicy_mode: "samePolicy n p \<Longrightarrow> modeOK p = modeOK n"
  by (simp add: samePolicy_def modeOK_def)

text \<open>The submission of an honest round, as it reaches the proposer.\<close>

definition submission :: "'x env \<Rightarrow> AIJob \<Rightarrow> AIResult \<Rightarrow> EVMRequest \<Rightarrow> PoWTicket list \<Rightarrow> InferenceAttestation list \<Rightarrow> ZKMLProofBundle list \<Rightarrow> ProposeRequest" where
  "submission v job result evm ts as zs = \<lparr>pq_Job = job, pq_Result = result, pq_EVM = evm, pq_Tickets = Some ts, pq_AIProofs = [],
     pq_ResultQC = \<lparr>rc_ResultHash = HashJSON (nv_sha256 v) (result_json result), rc_Attestations = Some as\<rparr>, pq_ZKMLProofs = zs\<rparr>"

lemma honest_submission:
  assumes "honestRound v n request xs ts as zs" "modeOK n" "keysWork (nv_crypto v)" "groth16Complete (nv_groth16 v)"
    and "(s, r) \<in> set xs" "nd_minZKMLProofs n \<le> int (length xs)" "zkmlInv v n"
  shows "\<exists>n' winner. checkSubmission v n (mq_Height request) (mq_ParentHash request) (mq_Job request) (mr_Result r) ts []
      \<lparr>rc_ResultHash = HashJSON (nv_sha256 v) (result_json (mr_Result r)), rc_Attestations = Some as\<rparr> zs = (n', Inr winner)
    \<and> keeps n n' \<and> nd_execution n' = nd_execution n \<and> zkmlInv v n' \<and> SelectWinner (nv_sha256 v) ts = Inr winner"
proof -
  have "honestResponse v n request (s, r)" using assms(1,5) by (simp add: honestRound_def)
  then have res: "validateResult v n (mq_Job request) (mr_Result r) = Inr ()"
    using validateResult_run[OF assms(2)] honestResponse_result by blast
  obtain winner where w: "validateCompetition v n (mq_Height request) (mq_ParentHash request) (mq_Job request) (mr_Result r) ts [] = Inr winner"
    using round_competition(1)[OF assms(1-3,5)] by blast
  obtain n' where c: "validateResultCertificate v n (mq_Height request) (mq_ParentHash request) (mq_Job request) (mr_Result r) ts
      \<lparr>rc_ResultHash = HashJSON (nv_sha256 v) (result_json (mr_Result r)), rc_Attestations = Some as\<rparr> zs = (n', Inr ())"
    using round_certificate[OF assms(1-6)] by blast
  have "checkSubmission v n (mq_Height request) (mq_ParentHash request) (mq_Job request) (mr_Result r) ts []
      \<lparr>rc_ResultHash = HashJSON (nv_sha256 v) (result_json (mr_Result r)), rc_Attestations = Some as\<rparr> zs = (n', Inr winner)"
    using res w c by (simp add: checkSubmission_def)
  moreover have "SelectWinner (nv_sha256 v) ts = Inr winner" using w by (simp add: validateCompetition_ok)
  ultimately show ?thesis using validateResultCertificate_keeps[OF c assms(7)] by blast
qed

lemma keeps_policy: "keeps n p \<Longrightarrow> samePolicy n p"
  using keeps_fields[of n p] by (simp add: samePolicy_def)

text \<open>The fields of the assembled block.\<close>

lemma assembled_fields:
  fixes v nodeID h tip timestamp job result evm ts as zs receipt payload winner
  defines "b \<equiv> assembleBlock (nv_sha256 v) nodeID h tip timestamp (submission v job result evm ts as zs) receipt payload winner"
  shows "bh_Version (bl_Header b) = ProtocolVersion" "bh_Height (bl_Header b) = h" "bh_ParentHash (bl_Header b) = tip"
    "bh_ProposerID (bl_Header b) = nodeID" "bh_Timestamp (bl_Header b) = timestamp"
    "bl_Job b = job" "bl_Result b = result" "bl_EVMRequest b = evm" "bl_EVM b = receipt" "bl_Execution b = payload"
    "bl_Winner b = winner" "elems (bl_Tickets b) = sortSlice tk_MinerID ts" "bl_AIProofs b = []"
    "bl_ZKMLProofs b = sortSlice zb_WorkerID zs" "as \<noteq> [] \<Longrightarrow> bl_ResultQC b =
       \<lparr>rc_ResultHash = HashJSON (nv_sha256 v) (result_json result), rc_Attestations = Some (sortSlice at_WorkerID as)\<rparr>"
  unfolding b_def by (auto simp: assembleBlock_def submission_def copySlice_def Let_def)

text \<open>The block that the proposer assembles is accepted by every node with its policy.\<close>

lemma assembled_block_accepted:
  fixes m :: Mock
  assumes round: "honestRound v p request xs ts as zs" "modeOK p" "keysWork (nv_crypto v)" "groth16Complete (nv_groth16 v)"
    and "(s, r) \<in> set xs" "nd_minZKMLProofs p \<le> int (length xs)" "zkmlInv v p"
    and engine: "nv_engine v = mockEngine (nv_sha256 v) floatText" "nd_execution p = m" "mockOK m"
    and winner: "SelectWinner (nv_sha256 v) ts = Inr winner" "tk_MinerID winner = nodeID"
    and receipt: "Execute (nv_sha256 v) post decodeRPC url (mq_ParentHash request) evm = Inr receipt"
    and payload: "Mock_Build (nv_sha256 v) m (buildInputFor (nv_sha256 v) nodeID (mq_ParentHash request) (aj_ID (mq_Job request))
        (mq_Height request) (unixSeconds now)) = Inr payload"
    and time: "goodTime now" "nv_parseTime v timestamp = Some (unixSeconds now * 1000000000)"
      "unixSeconds now * 1000000000 \<le> later + timeTolerance"
  shows "\<exists>p'. validateBlock v later p (assembleBlock (nv_sha256 v) nodeID (mq_Height request) (mq_ParentHash request) timestamp
      (submission v (mq_Job request) (mr_Result r) evm ts as zs) receipt payload winner) = (p', Inr ())"
proof -
  let ?sha = "nv_sha256 v" and ?job = "mq_Job request" and ?result = "mr_Result r"
  let ?ts = "sortSlice tk_MinerID ts" and ?as = "sortSlice at_WorkerID as" and ?zs = "sortSlice zb_WorkerID zs"
  let ?b = "assembleBlock ?sha nodeID (mq_Height request) (mq_ParentHash request) timestamp
      (submission v ?job ?result evm ts as zs) receipt payload winner"
  have sorted: "honestRound v p request xs ?ts ?as ?zs" using round(1) by (simp add: honestRound_def)
  have hr: "honestResponse v p request (s, r)" using round(1) assms(5) by (simp add: honestRound_def)
  have res: "validateResult v p ?job ?result = Inr ()" "ValidateAIJob ?sha ?job = Inr ()"
    using validateResult_run[OF round(2)] honestResponse_result[OF hr] by blast+
  have dist: "distinct (map tk_MinerID ts)" by (rule round_competition(2)[OF round(1-3) assms(5)])
  have win: "SelectWinner ?sha ?ts = Inr winner" by (rule SelectWinner_perm[OF winner(1) _ dist]) simp
  have len: "length ts = length xs" "length as = length xs" "Quorum (nd_validators p) \<le> length xs"
    using round(1) by (metis honestRound_def mset_eq_length length_map)+
  have "ts \<noteq> []" "as \<noteq> []" using assms(5) len(1,2) by auto
  then have ne: "?ts \<noteq> []" "?as \<noteq> []" "Quorum (nd_validators p) \<le> length ts"
    using len by simp_all
  have val: "validateLocked ?sha floatText m payload = Inr ()"
    by (rule Mock_Build_validates[OF engine(3) goodTime_input[OF time(1)] payload])
  have stamp: "ex_Timestamp payload = ''0x'' @ hexInt (unixSeconds now)"
    using Build_payload[OF payload] goodTime_quantity[OF time(1)] by (simp add: buildInputFor_def Let_def)
  have contents: "checkContents v later p ?b = Inr ()"
    using res Execute_verifies[OF receipt] validateLocked_envelope[OF val] stamp time(2,3)
    by (simp add: checkContents_def assembleBlock_def submission_def Let_def seconds_idem)
  obtain p1 where ex: "checkExecution v p ?b = (p1, Inr ())"
    using val engine(1,2) by (cases "ex_BlockHash payload \<in> nd_validatedExecution p")
      (auto simp: checkExecution_def mockEngine_def assembleBlock_def Let_def)
  have k: "keeps p p1" using checkExecution_keeps[OF ex] by blast
  note pol = keeps_policy[OF k]
  note kf = keeps_fields[OF k]
  have at1: "honestRound v p1 request xs ?ts ?as ?zs" unfolding samePolicy_round[OF pol] by (rule sorted)
  have at2: "modeOK p1" unfolding samePolicy_mode[OF pol] by (rule round(2))
  have at3: "nd_minZKMLProofs p1 \<le> int (length xs)" using kf assms(6) by simp
  have roots: "checkRoots v p1 ?b = Inr ()"
    using ne(1,3) kf by (simp add: checkRoots_def assembleBlock_def submission_def copySlice_def Let_def)
  have comp: "validateCompetition v p1 (mq_Height request) (mq_ParentHash request) ?job ?result ?ts [] = Inr winner"
    using round_competition(1)[OF at1 at2 round(3) assms(5)] win by (auto simp: validateCompetition_ok)
  obtain p2 where cert: "validateResultCertificate v p1 (mq_Height request) (mq_ParentHash request) ?job ?result ?ts
      \<lparr>rc_ResultHash = HashJSON ?sha (result_json ?result), rc_Attestations = Some ?as\<rparr> ?zs = (p2, Inr ())"
    using round_certificate[OF at1 at2 round(3,4) assms(5) at3] by blast
  have rd: "checkRound v p1 ?b = (p2, Inr ())"
    using comp cert winner(2) \<open>as \<noteq> []\<close> by (simp add: checkRound_def assembled_fields Let_def)
  show ?thesis
    using contents ex roots rd by (cases "Block_Hash ?sha ?b \<in> nd_validatedBlocks p") (simp_all add: validateBlock_def)
qed

end
