(* ===== verification/Node_Rounds.thy ===== *)
theory Node_Rounds
  imports Node_Live
begin

text \<open>
  Progress of the network of nodes: from a reachable state in which every honest node accepts a block
  that extends its tip, the three phases can be run until all of them have finalized it, with its
  execution payload and its stored object.
\<close>

section \<open>A node that has accepted a block\<close>

text \<open>The engine is at the payload already or finalizes it, and the object store takes the block.\<close>

definition canFinalize :: "'x env \<Rightarrow> Block \<Rightarrow> 'x Node \<Rightarrow> bool" where
  "canFinalize v block n \<longleftrightarrow>
     (equalHash (en_Head (nv_engine v) (nd_execution n)) (ex_BlockHash (bl_Execution block))
       \<or> (\<exists>x. en_Finalize (nv_engine v) (nd_execution n) (bl_Execution block) = (x, Inr ())))
     \<and> (\<exists>st h. Put (nv_sha256 v) (nv_osOK v) (nd_objectStore n) (json_marshal (block_json block)) = (st, Inr h))"

definition prepared :: "'x env \<Rightarrow> ValidatorSet \<Rightarrow> (string \<Rightarrow> bytes) \<Rightarrow> Block \<Rightarrow> Block list \<Rightarrow> string \<Rightarrow> 'x Node \<Rightarrow> bool" where
  "prepared v vs keyOf block chain i n \<longleftrightarrow> standing (nv_crypto v) vs keyOf block i (nd_replica n)
     \<and> rp_blocks (nd_replica n) = chain \<and> nd_validators n = vs
     \<and> hashOf (nv_crypto v) block \<in> nd_validatedBlocks n \<and> canFinalize v block n"

lemma canFinalize_replica [simp]: "canFinalize v block (n\<lparr>nd_replica := r\<rparr>) = canFinalize v block n"
  by (simp add: canFinalize_def)

lemma validateBlockLocked_accepted:
  assumes "ready (nv_crypto v) block r" "validateBlock v now n block = (n', Inr ())"
  shows "validateBlockLocked (nv_crypto v) (Some (validateBlock v now)) n r block = (n', Inr ())"
  using assms by (simp add: validateBlockLocked_def ready_def Let_def)

lemma standing_same:
  "standing cr vs keyOf block i r \<Longrightarrow> ready cr block r' \<Longrightarrow> sameChain r r' \<Longrightarrow>
     standing cr vs keyOf block i r' \<and> rp_blocks r' = rp_blocks r"
  by (simp add: standing_def sameChain_def)

text \<open>The votes of a node that stands at the tip.\<close>

lemma Node_OnProposal_accepts:
  assumes "standing (nv_crypto v) vs keyOf block i (nd_replica n)" "nodeInv v vs n"
    and "validateBlock v now n block = (n', Inr ())" "canFinalize v block n'"
  obtains m where "Node_OnProposal v now n block =
      (m, Inr (honestVote (nv_crypto v) PhasePrepare (heightOf block) (hashOf (nv_crypto v) block) i (keyOf i)))"
    "prepared v vs keyOf block (rp_blocks (nd_replica n)) i m"
proof -
  have r: "ready (nv_crypto v) block (nd_replica n)" "rp_id (nd_replica n) = i" "rp_privateKey (nd_replica n) = keyOf i"
    using assms(1) by (simp_all add: standing_def)
  obtain r' where o: "OnProposal (nv_crypto v) (Some (validateBlock v now)) n (nd_replica n) block = (n', r',
      Inr (honestVote (nv_crypto v) PhasePrepare (heightOf block) (hashOf (nv_crypto v) block) i (keyOf i)))"
    "ready (nv_crypto v) block r'" "sameChain (nd_replica n) r'"
    by (rule OnProposal_validated[OF r(1) validateBlockLocked_accepted[OF r(1) assms(3)], unfolded r(2,3)], rule that)
  have "Node_OnProposal v now n block = (n'\<lparr>nd_replica := r'\<rparr>,
      Inr (honestVote (nv_crypto v) PhasePrepare (heightOf block) (hashOf (nv_crypto v) block) i (keyOf i)))"
    using o(1) by (simp add: Node_OnProposal_def)
  moreover have "prepared v vs keyOf block (rp_blocks (nd_replica n)) i (n'\<lparr>nd_replica := r'\<rparr>)"
    using validateBlock_node[OF assms(3,2)] standing_same[OF assms(1) o(2,3)] assms(4)
    by (simp add: prepared_def nodeInv_def)
  ultimately show thesis by (rule that)
qed

lemma Node_OnQC_votes:
  assumes "prepared v vs keyOf block chain i n"
    and "(VerifyQC (nv_crypto v) vs qc :: node_error hs_error + unit) = Inr ()"
    and "qc_BlockHash qc = hashOf (nv_crypto v) block" "qc_Height qc = heightOf block"
    and phase: "qc_Phase qc = PhasePrepare \<and> phase' = PhasePreCommit \<or> qc_Phase qc = PhasePreCommit \<and> phase' = PhaseCommit"
  obtains m where "Node_OnQC v now n block qc =
      (m, Inr (Some (honestVote (nv_crypto v) phase' (heightOf block) (hashOf (nv_crypto v) block) i (keyOf i)), False))"
    "prepared v vs keyOf block chain i m"
proof -
  have st: "standing (nv_crypto v) vs keyOf block i (nd_replica n)" using assms(1) by (simp add: prepared_def)
  then have r: "ready (nv_crypto v) block (nd_replica n)" "rp_id (nd_replica n) = i" "rp_privateKey (nd_replica n) = keyOf i"
    "rp_validators (nd_replica n) = vs" by (simp_all add: standing_def)
  have c: "validateBlock v now n block = (n, Inr ())" using assms(1) by (simp add: prepared_def validateBlock_cached)
  obtain r' where o: "OnQC (nv_crypto v) (Some (validateBlock v now)) n (nd_replica n) block qc = (n, r',
      Inr (Some (honestVote (nv_crypto v) phase' (heightOf block) (hashOf (nv_crypto v) block) i (keyOf i)), False))"
    "ready (nv_crypto v) block r'" "sameChain (nd_replica n) r'"
    by (rule OnQC_validated[OF r(1) validateBlockLocked_accepted[OF r(1) c], of qc phase', unfolded r(2-4)])
      (use that assms(2-5) in auto)
  have "qc_Phase qc \<noteq> PhaseCommit" using phase by (auto simp: PhasePrepare_def PhasePreCommit_def PhaseCommit_def)
  then have "Node_OnQC v now n block qc = (n\<lparr>nd_replica := r'\<rparr>,
      Inr (Some (honestVote (nv_crypto v) phase' (heightOf block) (hashOf (nv_crypto v) block) i (keyOf i)), False))"
    using o(1) by (simp add: Node_OnQC_def replicaQC_def)
  moreover have "prepared v vs keyOf block chain i (n\<lparr>nd_replica := r'\<rparr>)"
    using assms(1) standing_same[OF st o(2,3)] by (simp add: prepared_def)
  ultimately show thesis by (rule that)
qed

lemma Node_OnQC_finalizes:
  assumes "prepared v vs keyOf block chain i n"
    and "(VerifyQC (nv_crypto v) vs qc :: node_error hs_error + unit) = Inr ()"
    and "qc_BlockHash qc = hashOf (nv_crypto v) block" "qc_Height qc = heightOf block" "qc_Phase qc = PhaseCommit"
  obtains m where "Node_OnQC v now n block qc = (m, Inr (None, True))"
    "rp_blocks (nd_replica m) = chain @ [block]" "rp_tipHash (nd_replica m) = hashOf (nv_crypto v) block"
proof -
  have st: "standing (nv_crypto v) vs keyOf block i (nd_replica n)" "nd_validators n = vs" using assms(1) by (simp_all add: prepared_def)
  then have r: "ready (nv_crypto v) block (nd_replica n)" "rp_validators (nd_replica n) = vs" by (simp_all add: standing_def)
  have step: "\<exists>m. replicaQC v now n' block qc = (m, Inr (None, True)) \<and> rp_blocks (nd_replica m) = chain @ [block]
      \<and> rp_tipHash (nd_replica m) = hashOf (nv_crypto v) block"
    if n': "nd_replica n' = nd_replica n" "nd_validatedBlocks n' = nd_validatedBlocks n" for n'
  proof -
    have c: "validateBlock v now n' block = (n', Inr ())" using assms(1) n'(2) by (simp add: prepared_def validateBlock_cached)
    obtain r' where o: "OnQC (nv_crypto v) (Some (validateBlock v now)) n' (nd_replica n) block qc = (n', r', Inr (None, True))"
      "rp_blocks r' = rp_blocks (nd_replica n) @ [block]" "rp_tipHash r' = hashOf (nv_crypto v) block"
      by (rule OnQC_commit_validated[OF r(1) validateBlockLocked_accepted[OF r(1) c], of qc, unfolded r(2)])
        (use that assms(2-5) in auto)
    then show ?thesis using assms(1) n'(1) by (simp add: replicaQC_def prepared_def)
  qed
  have c: "validateBlock v now n block = (n, Inr ())" using assms(1) by (simp add: prepared_def validateBlock_cached)
  show thesis
  proof (cases "equalHash (en_Head (nv_engine v) (nd_execution n)) (ex_BlockHash (bl_Execution block))")
    case True
    then have "Node_OnQC v now n block qc = replicaQC v now n block qc" by (simp add: Node_OnQC_def)
    then show thesis using step[of n] that by metis
  next
    case False
    then obtain x st' h where x: "en_Finalize (nv_engine v) (nd_execution n) (bl_Execution block) = (x, Inr ())"
      "Put (nv_sha256 v) (nv_osOK v) (nd_objectStore n) (json_marshal (block_json block)) = (st', Inr h)"
      using assms(1) by (auto simp: prepared_def canFinalize_def)
    have "Node_OnQC v now n block qc = replicaQC v now (n\<lparr>nd_execution := x, nd_objectStore := st'\<rparr>) block qc"
      using False x c st(2) assms(2,5) by (simp add: Node_OnQC_def Let_def)
    then show thesis using step[of "n\<lparr>nd_execution := x, nd_objectStore := st'\<rparr>"] that by auto
  qed
qed

section \<open>The phases\<close>

text \<open>Every honest node takes one step; the steps do not get in each other's way.\<close>

lemma all_step:
  assumes "nodeReachable v vs keyOf faulty s"
    and "\<And>t i. i \<in> honest vs faulty \<Longrightarrow> nodeReachable v vs keyOf faulty t \<Longrightarrow> ns_nodes t i = ns_nodes s i \<Longrightarrow>
       ns_signed s \<subseteq> ns_signed t \<Longrightarrow> \<exists>n'. Q i n' \<and>
         nodeReachable v vs keyOf faulty (t\<lparr>ns_nodes := (ns_nodes t)(i := n'), ns_signed := ns_signed t \<union> W i\<rparr>)"
  shows "\<exists>t. nodeReachable v vs keyOf faulty t \<and> ns_signed s \<subseteq> ns_signed t
    \<and> (\<forall>i \<in> honest vs faulty. Q i (ns_nodes t i) \<and> W i \<subseteq> ns_signed t)"
proof -
  let ?P = "\<lambda>B t. nodeReachable v vs keyOf faulty t \<and> ns_signed s \<subseteq> ns_signed t
      \<and> (\<forall>i \<in> honest vs faulty - B. ns_nodes t i = ns_nodes s i) \<and> (\<forall>i \<in> B. Q i (ns_nodes t i) \<and> W i \<subseteq> ns_signed t)"
  have "\<exists>t. ?P (honest vs faulty) t"
  proof (rule run_all[where P = ?P and s = s])
    fix B t i assume B: "B \<subseteq> honest vs faulty" and i: "i \<in> honest vs faulty - B" and P: "?P B t"
    obtain n' where n': "Q i n'"
      "nodeReachable v vs keyOf faulty (t\<lparr>ns_nodes := (ns_nodes t)(i := n'), ns_signed := ns_signed t \<union> W i\<rparr>)"
      using assms(2)[of i t] i P by blast
    show "\<exists>t'. ?P (insert i B) t'"
      by (rule exI[of _ "t\<lparr>ns_nodes := (ns_nodes t)(i := n'), ns_signed := ns_signed t \<union> W i\<rparr>"]) (use n' i P in auto)
  qed (use assms(1) in auto)
  then show ?thesis by blast
qed

text \<open>One round, phase by phase.\<close>

abbreviation signedIn :: "'x env \<Rightarrow> Phase \<Rightarrow> Block \<Rightarrow> string \<Rightarrow> (string \<times> bytes) set" where
  "signedIn v phase block i \<equiv> {(i, VoteSigningBytes phase (heightOf block) (hashOf (nv_crypto v) block))}"

definition phaseOver ::
  "'x env \<Rightarrow> ValidatorSet \<Rightarrow> (string \<Rightarrow> bytes) \<Rightarrow> string set \<Rightarrow> Block \<Rightarrow> (string \<Rightarrow> Block list) \<Rightarrow> Phase \<Rightarrow> 'x NodeSystem \<Rightarrow> bool" where
  "phaseOver v vs keyOf faulty block chain phase s \<longleftrightarrow> nodeReachable v vs keyOf faulty s
     \<and> (\<forall>i \<in> honest vs faulty. prepared v vs keyOf block (chain i) i (ns_nodes s i) \<and> signedIn v phase block i \<subseteq> ns_signed s)"

lemma nodes_prepare:
  assumes "nodeReachable v vs keyOf faulty s"
    and "\<forall>i \<in> honest vs faulty. standing (nv_crypto v) vs keyOf block i (nd_replica (ns_nodes s i))
       \<and> (\<exists>n'. validateBlock v now (ns_nodes s i) block = (n', Inr ()) \<and> canFinalize v block n')"
  shows "\<exists>t. phaseOver v vs keyOf faulty block (\<lambda>i. rp_blocks (nd_replica (ns_nodes s i))) PhasePrepare t"
proof -
  have "\<exists>t. nodeReachable v vs keyOf faulty t \<and> ns_signed s \<subseteq> ns_signed t \<and> (\<forall>i \<in> honest vs faulty.
      prepared v vs keyOf block (rp_blocks (nd_replica (ns_nodes s i))) i (ns_nodes t i) \<and> signedIn v PhasePrepare block i \<subseteq> ns_signed t)"
  proof (rule all_step[OF assms(1)])
    fix t i assume i: "i \<in> honest vs faulty" and t: "nodeReachable v vs keyOf faulty t" "ns_nodes t i = ns_nodes s i"
    obtain n' where n': "validateBlock v now (ns_nodes t i) block = (n', Inr ())" "canFinalize v block n'"
      using assms(2) i t(2) by auto
    have st: "standing (nv_crypto v) vs keyOf block i (nd_replica (ns_nodes t i))" using assms(2) i t(2) by simp
    obtain m where m: "Node_OnProposal v now (ns_nodes t i) block =
        (m, Inr (honestVote (nv_crypto v) PhasePrepare (heightOf block) (hashOf (nv_crypto v) block) i (keyOf i)))"
      "prepared v vs keyOf block (rp_blocks (nd_replica (ns_nodes t i))) i m"
      by (rule Node_OnProposal_accepts[OF st nodeReachable_inv[OF t(1) i] n'], rule that)
    show "\<exists>n'. prepared v vs keyOf block (rp_blocks (nd_replica (ns_nodes s i))) i n' \<and>
        nodeReachable v vs keyOf faulty (t\<lparr>ns_nodes := (ns_nodes t)(i := n'), ns_signed := ns_signed t \<union> signedIn v PhasePrepare block i\<rparr>)"
      using nodeReachable.proposal[OF t(1) i m(1)] m(2) t(2) by auto
  qed
  then show ?thesis by (auto simp: phaseOver_def)
qed

lemma nodes_vote:
  assumes "phaseOver v vs keyOf faulty block chain phase s"
    and phase: "phase = PhasePrepare \<and> phase' = PhasePreCommit \<or> phase = PhasePreCommit \<and> phase' = PhaseCommit"
    and keys: "keysMatch (nv_crypto v) vs keyOf (set voters)" "distinct voters" "Quorum vs \<le> length voters" "set voters = honest vs faulty"
  shows "\<exists>t. phaseOver v vs keyOf faulty block chain phase' t"
proof -
  let ?qc = "roundQC (nv_crypto v) keyOf voters phase block"
  have "\<exists>t. nodeReachable v vs keyOf faulty t \<and> ns_signed s \<subseteq> ns_signed t \<and> (\<forall>i \<in> honest vs faulty.
      prepared v vs keyOf block (chain i) i (ns_nodes t i) \<and> signedIn v phase' block i \<subseteq> ns_signed t)"
  proof (rule all_step)
    show "nodeReachable v vs keyOf faulty s" using assms(1) by (simp add: phaseOver_def)
    fix t i assume i: "i \<in> honest vs faulty" and t: "nodeReachable v vs keyOf faulty t" "ns_nodes t i = ns_nodes s i"
      "ns_signed s \<subseteq> ns_signed t"
    have p: "prepared v vs keyOf block (chain i) i (ns_nodes t i)" using assms(1) i t(2) by (simp add: phaseOver_def)
    have u: "unforged (nv_crypto v) vs faulty (ns_signed t) ?qc"
      by (rule roundQC_unforged) (use assms(1) keys(4) t(3) in \<open>auto simp: phaseOver_def\<close>)
    obtain m where m: "Node_OnQC v now (ns_nodes t i) block ?qc =
        (m, Inr (Some (honestVote (nv_crypto v) phase' (heightOf block) (hashOf (nv_crypto v) block) i (keyOf i)), False))"
      "prepared v vs keyOf block (chain i) i m"
      by (rule Node_OnQC_votes[OF p roundQC_verifies[OF keys(1-3)], where phase' = phase' and now = now]) (use phase that in auto)
    show "\<exists>n'. prepared v vs keyOf block (chain i) i n' \<and>
        nodeReachable v vs keyOf faulty (t\<lparr>ns_nodes := (ns_nodes t)(i := n'), ns_signed := ns_signed t \<union> signedIn v phase' block i\<rparr>)"
      using nodeReachable.certificate[OF t(1) i u m(1)] m(2) by auto
  qed
  then show ?thesis by (auto simp: phaseOver_def)
qed

lemma nodes_commit:
  assumes "phaseOver v vs keyOf faulty block chain PhaseCommit s"
    and keys: "keysMatch (nv_crypto v) vs keyOf (set voters)" "distinct voters" "Quorum vs \<le> length voters" "set voters = honest vs faulty"
  shows "\<exists>t. nodeReachable v vs keyOf faulty t \<and> (\<forall>i \<in> honest vs faulty. rp_blocks (nd_replica (ns_nodes t i)) = chain i @ [block]
      \<and> rp_tipHash (nd_replica (ns_nodes t i)) = hashOf (nv_crypto v) block)"
proof -
  let ?qc = "roundQC (nv_crypto v) keyOf voters PhaseCommit block"
  have "\<exists>t. nodeReachable v vs keyOf faulty t \<and> ns_signed s \<subseteq> ns_signed t \<and> (\<forall>i \<in> honest vs faulty.
      (rp_blocks (nd_replica (ns_nodes t i)) = chain i @ [block]
       \<and> rp_tipHash (nd_replica (ns_nodes t i)) = hashOf (nv_crypto v) block) \<and> {} \<subseteq> ns_signed t)"
  proof (rule all_step)
    show "nodeReachable v vs keyOf faulty s" using assms(1) by (simp add: phaseOver_def)
    fix t i assume i: "i \<in> honest vs faulty" and t: "nodeReachable v vs keyOf faulty t" "ns_nodes t i = ns_nodes s i"
      "ns_signed s \<subseteq> ns_signed t"
    have p: "prepared v vs keyOf block (chain i) i (ns_nodes t i)" using assms(1) i t(2) by (simp add: phaseOver_def)
    have u: "unforged (nv_crypto v) vs faulty (ns_signed t) ?qc"
      by (rule roundQC_unforged) (use assms(1) keys(4) t(3) in \<open>auto simp: phaseOver_def\<close>)
    obtain m where m: "Node_OnQC v now (ns_nodes t i) block ?qc = (m, Inr (None, True))"
      "rp_blocks (nd_replica m) = chain i @ [block]" "rp_tipHash (nd_replica m) = hashOf (nv_crypto v) block"
      by (rule Node_OnQC_finalizes[OF p roundQC_verifies[OF keys(1-3)], where now = now]) (use that in auto)
    show "\<exists>n'. (rp_blocks (nd_replica n') = chain i @ [block] \<and> rp_tipHash (nd_replica n') = hashOf (nv_crypto v) block) \<and>
        nodeReachable v vs keyOf faulty (t\<lparr>ns_nodes := (ns_nodes t)(i := n'), ns_signed := ns_signed t \<union> {}\<rparr>)"
      using nodeReachable.certificate[OF t(1) i u m(1)] m(2,3) by auto
  qed
  then show ?thesis by blast
qed

lemma nodes_finalize:
  assumes "nodeReachable v vs keyOf faulty s"
    and "\<forall>i \<in> honest vs faulty. standing (nv_crypto v) vs keyOf block i (nd_replica (ns_nodes s i))
       \<and> (\<exists>n'. validateBlock v now (ns_nodes s i) block = (n', Inr ()) \<and> canFinalize v block n')"
    and "keysMatch (nv_crypto v) vs keyOf (honest vs faulty)" "distinct (vs_ids vs)" "faulty \<subseteq> set (vs_ids vs)"
      "3 * card faulty < length (vs_ids vs)"
  shows "\<exists>t. nodeReachable v vs keyOf faulty t \<and> (\<forall>i \<in> honest vs faulty.
      rp_blocks (nd_replica (ns_nodes t i)) = rp_blocks (nd_replica (ns_nodes s i)) @ [block]
      \<and> rp_tipHash (nd_replica (ns_nodes t i)) = hashOf (nv_crypto v) block)"
proof -
  obtain voters where v: "set voters = honest vs faulty" "distinct voters" "Quorum vs \<le> length voters"
    using honest_voters[OF assms(4-6)] by metis
  note k = assms(3)[folded v(1)] v(2,3,1)
  obtain s1 where s1: "phaseOver v vs keyOf faulty block (\<lambda>i. rp_blocks (nd_replica (ns_nodes s i))) PhasePrepare s1"
    using nodes_prepare[OF assms(1,2)] by blast
  obtain s2 where s2: "phaseOver v vs keyOf faulty block (\<lambda>i. rp_blocks (nd_replica (ns_nodes s i))) PhasePreCommit s2"
    using nodes_vote[OF s1 _ k, of PhasePreCommit] by blast
  obtain s3 where s3: "phaseOver v vs keyOf faulty block (\<lambda>i. rp_blocks (nd_replica (ns_nodes s i))) PhaseCommit s3"
    using nodes_vote[OF s2 _ k, of PhaseCommit] by blast
  show ?thesis by (rule nodes_commit[OF s3 k])
qed

section \<open>From the miners to the finalized block\<close>

text \<open>The mock engine and the documented behaviour of the signature scheme and of Groth16.\<close>

definition mockSetting :: "Mock env \<Rightarrow> (string \<Rightarrow> string) \<Rightarrow> Mock \<Rightarrow> bool" where
  "mockSetting v floatText m \<longleftrightarrow> nv_engine v = mockEngine (nv_sha256 v) floatText \<and> mockOK m
     \<and> keysWork (nv_crypto v) \<and> groth16Complete (nv_groth16 v)"

text \<open>A peer of the proposer: the same policy, the same execution head, proofs remembered only if verified.\<close>

definition peerOf :: "Mock env \<Rightarrow> Mock \<Rightarrow> Mock Node \<Rightarrow> Mock Node \<Rightarrow> bool" where
  "peerOf v m p q \<longleftrightarrow> samePolicy p q \<and> nd_execution q = m \<and> zkmlInv v q"

text \<open>The clocks: \<open>now\<close> at the proposer, \<open>later\<close> at the peer; time stamps are parsed as they are written.\<close>

definition clockOK :: "Mock env \<Rightarrow> network \<Rightarrow> int \<Rightarrow> int \<Rightarrow> bool" where
  "clockOK v nw now later \<longleftrightarrow> goodTime now
     \<and> nv_parseTime v (nw_formatTime nw (unixSeconds now * 1000000000)) = Some (unixSeconds now * 1000000000)
     \<and> unixSeconds now * 1000000000 \<le> later + timeTolerance"

lemma validateBlock_mock_state:
  assumes "validateBlock v now n block = (n', r)" "zkmlInv v n" "nv_engine v = mockEngine sha floatText"
  shows "nd_execution n' = nd_execution n"
proof (cases "hashOf (nv_crypto v) block \<in> nd_validatedBlocks n")
  case True
  then show ?thesis using assms(1) by (simp add: validateBlock_cached)
next
  case False
  have ex: "nd_execution n1 = nd_execution n \<and> zkmlInv v n1" if "checkExecution v n block = (n1, r1)" for n1 r1
    using that checkExecution_keeps[OF that] keeps_fields[of n n1] zkmlInv_cong[of n1 n] assms(2,3)
    by (auto simp: checkExecution_def mockEngine_def split: if_splits sum.splits)
  have rd: "nd_execution n2 = nd_execution n1" if "checkRound v n1 block = (n2, r2)" "zkmlInv v n1" for n1 n2 r2
  proof -
    obtain k w where k: "validateResultCertificate v n1 (heightOf block) (bh_ParentHash (bl_Header block)) (bl_Job block)
        (bl_Result block) (elems (bl_Tickets block)) (bl_ResultQC block) (bl_ZKMLProofs block) = (k, w)" by fastforce
    have "n2 = k \<or> n2 = n1" using that(1) k by (auto simp: checkRound_def Let_def split: sum.splits if_splits)
    then show ?thesis using validateResultCertificate_keeps[OF k that(2)] by auto
  qed
  from assms(1) False show ?thesis
  proof (cases rule: validateBlock_steps)
    case (round n1 e)
    then show ?thesis using ex[OF round(1)] rd[OF round(2)] by simp
  next
    case (accepted n1 n2)
    then show ?thesis using ex[OF accepted(2)] rd[OF accepted(4)] by simp
  qed (auto dest: ex)
qed

text \<open>The block of a round, from its request, the collected responses, the receipt and the payload.\<close>

definition roundBlock ::
  "Mock env \<Rightarrow> network \<Rightarrow> int \<Rightarrow> string \<Rightarrow> MiningRequest \<Rightarrow> ProposeRequest \<Rightarrow> EVMReceipt \<Rightarrow> ExecutionPayloadEnvelope \<Rightarrow> PoWTicket \<Rightarrow> Block" where
  "roundBlock v nw now nodeID request = assembleBlock (nv_sha256 v) nodeID (mq_Height request) (mq_ParentHash request)
     (nw_formatTime nw (unixSeconds now * 1000000000))"

text \<open>The payload that the mock builds for the round.\<close>

definition roundPayload :: "Mock env \<Rightarrow> Mock \<Rightarrow> int \<Rightarrow> string \<Rightarrow> MiningRequest \<Rightarrow> engine_error + ExecutionPayloadEnvelope" where
  "roundPayload v m now nodeID request = Mock_Build (nv_sha256 v) m (buildInputFor (nv_sha256 v) nodeID (mq_ParentHash request)
     (aj_ID (mq_Job request)) (mq_Height request) (unixSeconds now))"

lemma roundPayload_ok: "goodTime now \<Longrightarrow> \<exists>payload. roundPayload v m now nodeID request = Inr payload"
  unfolding roundPayload_def by (rule Mock_Build_ok, rule goodTime_input)

lemma honest_proposal:
  fixes v :: "Mock env" and nw now evm ts as zs receipt payload winner request r p
  defines "submitted \<equiv> submission v (mq_Job request) (mr_Result r) evm ts as zs"
  defines "block \<equiv> roundBlock v nw now (nd_id p) request submitted receipt payload winner"
  assumes round: "honestRound v p request xs ts as zs" "modeOK p" "(s, r) \<in> set xs" "nd_minZKMLProofs p \<le> int (length xs)"
    and challenge: "mq_Height request = rp_height (nd_replica p) + 1" "mq_ParentHash request = rp_tipHash (nd_replica p)"
    and setting: "mockSetting v floatText m" "nd_execution p = m" "zkmlInv v p" "clockOK v nw now later"
    and winner: "SelectWinner (nv_sha256 v) ts = Inr winner" "tk_MinerID winner = nd_id p"
    and receipt: "Execute (nv_sha256 v) (nw_evmPost nw) (nw_evmDecode nw) (nd_evm p) (mq_ParentHash request) evm = Inr receipt"
    and payload: "roundPayload v m now (nd_id p) request = Inr payload"
  shows "\<exists>p'. proposeBlock v nw now p submitted = (p', Inr block) \<and> keeps p p' \<and> nd_execution p' = m \<and> zkmlInv v p'"
    and "heightOf block = mq_Height request" "bh_ParentHash (bl_Header block) = mq_ParentHash request"
    and "validateLocked (nv_sha256 v) floatText m (bl_Execution block) = Inr ()"
    and "peerOf v m p q \<Longrightarrow> \<exists>q'. validateBlock v later q block = (q', Inr ())"
proof -
  let ?sha = "nv_sha256 v" and ?job = "mq_Job request" and ?result = "mr_Result r"
  have set: "nv_engine v = mockEngine ?sha floatText" "mockOK m" "keysWork (nv_crypto v)" "groth16Complete (nv_groth16 v)"
    and clock: "goodTime now" "nv_parseTime v (nw_formatTime nw (unixSeconds now * 1000000000)) = Some (unixSeconds now * 1000000000)"
      "unixSeconds now * 1000000000 \<le> later + timeTolerance"
    using setting(1,4) by (simp_all add: mockSetting_def clockOK_def)
  note payload = payload[unfolded roundPayload_def]
  obtain p1 where p1: "checkSubmission v p (mq_Height request) (mq_ParentHash request) ?job ?result ts []
      \<lparr>rc_ResultHash = HashJSON ?sha (result_json ?result), rc_Attestations = Some as\<rparr> zs = (p1, Inr winner)"
    "keeps p p1" "nd_execution p1 = nd_execution p" "zkmlInv v p1"
    using honest_submission[OF round(1,2) set(3,4) round(3,4) setting(3)] winner(1) by auto
  have hr: "honestResponse v p request (s, r)" using round(1,3) by (simp add: honestRound_def)
  have job: "ValidateAIJob ?sha ?job = Inr ()" using honestResponse_result[OF hr] by blast
  have f: "nd_id p1 = nd_id p" using keeps_fields[OF p1(2)] by simp
  have evm: "nd_evm p1 = nd_evm p" using p1(2) by (cases p; cases p1) (simp add: keeps_def core_def)
  have built: "proposeBlock v nw now p submitted = (p1\<lparr>nd_execution := m\<rparr>, Inr block)"
    unfolding block_def submitted_def roundBlock_def
    using job p1(1,3) f evm winner(2) receipt payload set(1) setting(2) challenge
    by (simp add: proposeBlock_def HeightAndTip_def submission_def Let_def mockEngine_def)
  then show "\<exists>p'. proposeBlock v nw now p submitted = (p', Inr block) \<and> keeps p p' \<and> nd_execution p' = m \<and> zkmlInv v p'"
    using p1(2,4) zkmlInv_cong[of "p1\<lparr>nd_execution := m\<rparr>" p1 v] by simp
  show "heightOf block = mq_Height request" "bh_ParentHash (bl_Header block) = mq_ParentHash request"
    "validateLocked (nv_sha256 v) floatText m (bl_Execution block) = Inr ()"
    using Mock_Build_validates[OF set(2) goodTime_input[OF clock(1)] payload]
    by (simp_all add: block_def submitted_def roundBlock_def assembled_fields)
  show "\<exists>q'. validateBlock v later q block = (q', Inr ())" if q: "peerOf v m p q"
  proof -
    have pol: "samePolicy p q" "nd_execution q = m" "zkmlInv v q" using q by (simp_all add: peerOf_def)
    have "honestRound v q request xs ts as zs" unfolding samePolicy_round[OF pol(1)] by (rule round(1))
    moreover have "modeOK q" unfolding samePolicy_mode[OF pol(1)] by (rule round(2))
    moreover have "nd_minZKMLProofs q \<le> int (length xs)" using pol(1) round(4) by (simp add: samePolicy_def)
    ultimately show ?thesis unfolding block_def submitted_def roundBlock_def
      by (rule assembled_block_accepted[OF _ _ set(3,4) round(3) _ pol(3) set(1) pol(2) set(2) winner receipt payload clock])
  qed
qed

text \<open>A replica at the given tip, with nothing voted or locked for the next height.\<close>

definition atTip :: "u64 \<Rightarrow> string \<Rightarrow> Replica \<Rightarrow> bool" where
  "atTip h tip r \<longleftrightarrow> rp_height r = h \<and> rp_tipHash r = tip \<and> rp_lockedHeight r \<noteq> h + 1 \<and> (\<forall>p. votedFor r (h + 1) p = [])"

lemma atTip_standing:
  assumes "nodeReachable v vs keyOf faulty s" "i \<in> honest vs faulty" "set (vs_ids vs) = dom (vs_keys vs)"
    and "atTip h tip (nd_replica (ns_nodes s i))" "heightOf block = h + 1" "bh_ParentHash (bl_Header block) = tip"
  shows "standing (nv_crypto v) vs keyOf block i (nd_replica (ns_nodes s i))"
proof -
  note r = nodes_refine_replicas[OF assms(1)]
  have "replicaInv (nv_crypto v) vs faulty (ns_signed s) i (nd_replica (ns_nodes s i))"
    using reachable_inv[OF r assms(3,2)] by simp
  moreover have "rp_privateKey (nd_replica (ns_nodes s i)) = keyOf i" using reachable_key[OF r assms(2)] by simp
  ultimately show ?thesis using assms(4-6) by (simp add: standing_def ready_def replicaInv_def atTip_def)
qed

lemma block_text_nonempty: "json_marshal (block_json block) \<noteq> []"
  by (simp add: json_marshal_def block_json_def bytes_of_def)

lemma honest_round_reaches:
  fixes P :: string and s :: "Mock NodeSystem" and v :: "Mock env" and nw now h tip job evm ts as zs receipt payload winner r
  defines "p \<equiv> ns_nodes s P" and "request \<equiv> \<lparr>mq_Height = h + 1, mq_ParentHash = tip, mq_Job = job\<rparr>"
    and "submitted \<equiv> submission v job (mr_Result r) evm ts as zs"
  defines "block \<equiv> roundBlock v nw now P request submitted receipt payload winner"
  assumes vs: "NewValidatorSet keys = Inr vs" "distinct (map fst keys)" "faulty \<subseteq> set (vs_ids vs)" "3 * card faulty < length (vs_ids vs)"
    and keys: "keysMatch (nv_crypto v) vs keyOf (set (vs_ids vs) - faulty)"
    and s: "nodeReachable v vs keyOf faulty s" "P \<in> set (vs_ids vs) - faulty" "nd_id p = P"
    and peers: "\<forall>i \<in> set (vs_ids vs) - faulty. peerOf v m p (ns_nodes s i) \<and> atTip h tip (nd_replica (ns_nodes s i))
        \<and> int (length (json_marshal (block_json block))) \<le> st_maxBytes (nd_objectStore (ns_nodes s i))"
    and round: "honestRound v p request xs ts as zs" "modeOK p" "(sv, r) \<in> set xs" "nd_minZKMLProofs p \<le> int (length xs)"
    and setting: "mockSetting v floatText m" "clockOK v nw now later" "nv_osOK v"
    and winner: "SelectWinner (nv_sha256 v) ts = Inr winner" "tk_MinerID winner = P"
    and receipt: "Execute (nv_sha256 v) (nw_evmPost nw) (nw_evmDecode nw) (nd_evm p) tip evm = Inr receipt"
    and payload: "roundPayload v m now P request = Inr payload"
  shows "(\<exists>p'. proposeBlock v nw now p submitted = (p', Inr block))
    \<and> (\<exists>t. nodeReachable v vs keyOf faulty t \<and> (\<forall>i \<in> set (vs_ids vs) - faulty.
      rp_blocks (nd_replica (ns_nodes t i)) = rp_blocks (nd_replica (ns_nodes s i)) @ [block]
      \<and> rp_tipHash (nd_replica (ns_nodes t i)) = hashOf (nv_crypto v) block))"
proof -
  note V = NewValidatorSet_ok[OF vs(1,2)]
  have "peerOf v m p p" "atTip h tip (nd_replica p)" using peers s(2) by (auto simp: p_def)
  then have p: "nd_execution p = m" "zkmlInv v p" "rp_height (nd_replica p) = h" "rp_tipHash (nd_replica p) = tip"
    by (simp_all add: peerOf_def atTip_def)
  have rq: "mq_Height request = rp_height (nd_replica p) + 1" "mq_ParentHash request = rp_tipHash (nd_replica p)"
    "mq_Job request = job" "mq_ParentHash request = tip" using p by (simp_all add: request_def)
  have set: "nv_engine v = mockEngine (nv_sha256 v) floatText" using setting(1) by (simp add: mockSetting_def)
  note H = honest_proposal[OF round rq(1,2) setting(1) p(1,2) setting(2) winner(1), unfolded s(3) rq(3,4), OF winner(2) receipt payload,
      folded submitted_def, folded block_def]
  have ready: "standing (nv_crypto v) vs keyOf block i (nd_replica (ns_nodes s i))
      \<and> (\<exists>n'. validateBlock v later (ns_nodes s i) block = (n', Inr ()) \<and> canFinalize v block n')" if i: "i \<in> set (vs_ids vs) - faulty" for i
  proof -
    have q: "peerOf v m p (ns_nodes s i)" "atTip h tip (nd_replica (ns_nodes s i))" using peers i by simp_all
    obtain n' where n': "validateBlock v later (ns_nodes s i) block = (n', Inr ())" using H(5)[OF q(1)] by blast
    have z: "zkmlInv v (ns_nodes s i)" "nd_execution (ns_nodes s i) = m" using q(1) by (simp_all add: peerOf_def)
    have e: "nd_execution n' = m" using validateBlock_mock_state[OF n' z(1) set] z(2) by simp
    obtain num where num: "parseQuantity (ex_BlockNumber (bl_Execution block)) = Some num"
      using ValidateEnvelope_number validateLocked_envelope[OF H(4)] by blast
    have "\<exists>x. en_Finalize (nv_engine v) (nd_execution n') (bl_Execution block) = (x, Inr ())"
      using e H(4) num set by (simp add: mockEngine_def Mock_Finalize_def)
    moreover have "nd_objectStore n' = nd_objectStore (ns_nodes s i)"
      using validateBlock_keeps[OF n' z(1)] keeps_fields by blast
    then have "\<exists>st x. Put (nv_sha256 v) (nv_osOK v) (nd_objectStore n') (json_marshal (block_json block)) = (st, Inr x)"
      using Put_succeeds[OF setting(3) block_text_nonempty] peers i by fastforce
    ultimately have "canFinalize v block n'" by (simp add: canFinalize_def)
    moreover have "heightOf block = h + 1" using H(2) by (simp add: request_def)
    ultimately show ?thesis using atTip_standing[OF s(1) i V(4) q(2) _ H(3)] n' by blast
  qed
  have "\<exists>t. nodeReachable v vs keyOf faulty t \<and> (\<forall>i \<in> set (vs_ids vs) - faulty.
      rp_blocks (nd_replica (ns_nodes t i)) = rp_blocks (nd_replica (ns_nodes s i)) @ [block]
      \<and> rp_tipHash (nd_replica (ns_nodes t i)) = hashOf (nv_crypto v) block)"
    by (rule nodes_finalize[OF s(1) _ keys V(2) vs(3,4)]) (use ready in blast)
  then show ?thesis using H(1) by blast
qed

end
