(* ===== verification/Example_Network.thy ===== *)
theory Example_Network
  imports Node_Rounds
begin

text \<open>
  A small concrete network at which the theorems about nodes are applied: four validators that are
  miners as well, difficulty zero, the dummy runner, the mock engine and the mock EVM.
\<close>

definition exampleGroth :: groth16 where
  "exampleGroth = \<lparr>g_Order = 2 ^ 64, g_MiMC = (\<lambda>_. 0), g_Prove = (\<lambda>_. None), g_Read = (\<lambda>_. None), g_Verify = (\<lambda>_ _. False)\<rparr>"

definition exampleEnv :: "Mock env" where
  "exampleEnv = \<lparr>nv_crypto = toyCrypto, nv_blake3 = (\<lambda>b. b), nv_unmarshalProof = (\<lambda>_. None), nv_groth16 = exampleGroth,
     nv_engine = mockEngine (\<lambda>b. b) (\<lambda>s. s), nv_parseTime = (\<lambda>_. Some 1700000000000000000), nv_osOK = True\<rparr>"

text \<open>The votes of all four; as peers they vote in each phase and report the finalized block.\<close>

definition exampleVotes :: "Phase \<Rightarrow> Block \<Rightarrow> Vote list" where
  "exampleVotes phase block =
     map (\<lambda>i. honestVote toyCrypto phase (heightOf block) (hashOf toyCrypto block) i (replicate 64 0)) (vs_ids fourValidators)"

definition exampleNetwork :: network where
  "exampleNetwork = \<lparr>nw_mine = (\<lambda>_ _. []), nw_propose = (\<lambda>_ _. None),
     nw_proposal = (\<lambda>_ block. map Some (exampleVotes PhasePrepare block)),
     nw_qc = (\<lambda>_ block qc.
       if qc_Phase qc = PhasePrepare then map (\<lambda>v. Some (Some v, False)) (exampleVotes PhasePreCommit block)
       else if qc_Phase qc = PhasePreCommit then map (\<lambda>v. Some (Some v, False)) (exampleVotes PhaseCommit block)
       else map (\<lambda>_. Some (None, True)) (vs_ids fourValidators)),
     nw_evmPost = (\<lambda>_ _. None), nw_evmDecode = (\<lambda>_. None), nw_formatTime = (\<lambda>_. ''2023-11-14T22:13:20Z'')\<rparr>"

definition exampleNow :: int where "exampleNow = 1700000000000000000"

definition exampleMock :: Mock where "exampleMock = NewMock ForkOsaka GenesisHash"

definition exampleJob :: AIJob where "exampleJob = NewAIJob (\<lambda>b. b) ''t'' ''m'' ''x''"

definition exampleRequest :: MiningRequest where
  "exampleRequest = \<lparr>mq_Height = 0 + 1, mq_ParentHash = GenesisHash, mq_Job = exampleJob\<rparr>"

definition exampleStore :: "int \<Rightarrow> Store" where
  "exampleStore cap = \<lparr>st_objects = Map.empty, st_dir = [], st_maxBytes = cap, st_disk = Map.empty\<rparr>"

definition exampleService :: "string \<Rightarrow> unit Service" where
  "exampleService i = \<lparr>sv_ID = i, sv_PrivateKey = replicate 64 0, sv_Difficulty = 0, sv_MaxNonce = 10, sv_ManifestRoot = [],
     sv_Runner = DummyRunner [], sv_ZKMLProver = None, sv_ProofProvider = None, sv_providerState = (), sv_proofStore = exampleStore 1\<rparr>"

definition exampleConfig :: "int \<Rightarrow> string \<Rightarrow> Mock Config" where
  "exampleConfig cap i = \<lparr>cf_ID = i, cf_PrivateKey = replicate 64 0, cf_Validators = Some fourValidators, cf_Peers = [], cf_Miners = [],
     cf_Difficulty = 0, cf_ManifestRoot = [], cf_AISealManifest = None, cf_AISealTarget = [], cf_MinPoWSamples = 0,
     cf_MinTensorSamples = 0, cf_EVMURL = [], cf_ExecutionEngine = exampleMock, cf_ObjectStore = Some (exampleStore cap),
     cf_AIRunner = None, cf_ZKMLVerifier = None, cf_MinZKMLProofs = 0\<rparr>"

definition exampleNode :: "int \<Rightarrow> string \<Rightarrow> Mock Node" where
  "exampleNode cap i = \<lparr>nd_id = i, nd_privateKey = replicate 64 0, nd_validators = fourValidators, nd_difficulty = 0, nd_manifestRoot = [],
     nd_aiSealManifest = None, nd_aiSealTarget = [], nd_minPoWSamples = 0, nd_minTensorSamples = 0, nd_runner = DummyRunner [],
     nd_zkmlVerifier = None, nd_minZKMLProofs = 0, nd_evm = [], nd_execution = exampleMock, nd_objectStore = exampleStore cap,
     nd_replica = fourReplica i, nd_peers = [], nd_miners = [], nd_validatedExecution = {}, nd_validatedBlocks = {}, nd_validatedZKML = {}\<rparr>"

definition exampleSystem :: "int \<Rightarrow> Mock NodeSystem" where
  "exampleSystem cap = \<lparr>ns_nodes = exampleNode cap, ns_signed = {}\<rparr>"

definition exampleEVM :: EVMRequest where "exampleEVM = \<lparr>er_Method = [], er_Params = []\<rparr>"

section \<open>The nodes\<close>

lemma four_ids: "set (vs_ids fourValidators) = {''a'', ''b'', ''c'', ''d''}"
  by (simp add: fourValidators_def)

lemma example_New:
  assumes "i \<in> set (vs_ids fourValidators)"
  shows "Node_New exampleEnv (exampleConfig cap i) = Inr (exampleNode cap i)"
proof -
  have "vs_keys fourValidators i = Some (replicate 32 0)" "i \<noteq> []"
    using assms by (auto simp: four_ids PublicKey_def fourValidators_def fourKeys_def)
  then show ?thesis
    by (simp add: Node_New_def exampleConfig_def exampleNode_def NewReplica_def fourReplica_def NewClient_def TrimSpace_def
        TrimRightSlash_def VS_Len_def)
qed

lemma example_start:
  "nodeReachable exampleEnv fourValidators (\<lambda>_. replicate 64 0) {} (exampleSystem cap)"
  unfolding exampleSystem_def
  by (rule nodeReachable.start[where cfg = "exampleConfig cap"]) (use example_New in \<open>simp add: exampleConfig_def\<close>)

lemma example_setting:
  "mockSetting exampleEnv (\<lambda>s. s) exampleMock" "clockOK exampleEnv exampleNetwork exampleNow exampleNow" "nv_osOK exampleEnv"
proof -
  have "mockOK exampleMock"
    by (simp add: exampleMock_def mockOK_def NewMock_def ForkOsaka_def isHash32_iff GenesisHash_def normalizeHash_def TrimPrefix_def
        hexVal_def toLowerC_def)
  then show "mockSetting exampleEnv (\<lambda>s. s) exampleMock"
    by (simp add: mockSetting_def exampleEnv_def keysWork_def toyCrypto_def groth16Complete_def exampleGroth_def)
  show "clockOK exampleEnv exampleNetwork exampleNow exampleNow" "nv_osOK exampleEnv"
    by (simp_all add: clockOK_def goodTime_def exampleNow_def unixSeconds_def exampleEnv_def exampleNetwork_def timeTolerance_def)
qed

section \<open>The miners\<close>

lemma easy_nonce: "tk_Difficulty t = 0 \<Longrightarrow> nonceWorks sha256 t 0"
  using MeetsDifficulty_iff[OF length_workDigest, of sha256 "t\<lparr>tk_Nonce := 0\<rparr>" 0] beValue_bound[of "workDigest sha256 (t\<lparr>tk_Nonce := 0\<rparr>)"]
  by (simp add: nonceWorks_def withNonce_def Let_def CalculateWorkHash_eq)

lemma example_mines:
  assumes "i \<noteq> []"
  shows "\<exists>r. Service_Mine toyCrypto exampleGroth True (\<lambda>_. False) (exampleService i) exampleRequest = (exampleService i, Some (Inr r))"
proof -
  have job: "ValidateAIJob (\<lambda>b. b) exampleJob = Inr ()" by (simp add: exampleJob_def NewAIJob_def ValidateAIJob_def)
  have ne: "aj_ID exampleJob \<noteq> []" by (simp add: exampleJob_def NewAIJob_def jobID_def HashJSON_def HashBytes_def)
  then obtain result where run: "Dummy_Run (\<lambda>b. b) [] exampleJob = Inr result"
    by (simp add: Dummy_Run_def Let_def exampleJob_def NewAIJob_def)
  let ?c = "challengeTicket (\<lambda>b. b) (exampleService i) exampleRequest result (ar_AIDigest result) (ar_AIDigest result) []"
  have "Mine (\<lambda>b. b) (\<lambda>_. False) ?c 10 = Some (Inr (withNonce (\<lambda>b. b) ?c 0))"
    using assms ne easy_nonce[of ?c]
    by (simp add: Mine_def mineLoop_step challengeTicket_def exampleRequest_def exampleService_def GenesisHash_def)
  then show ?thesis
    using job run by (simp add: Service_Mine_def Runner_Run_def mineSeal_def mineZKML_def exampleService_def exampleRequest_def
        toyCrypto_def GenesisHash_def Let_def)
qed

lemma example_responses:
  obtains R where "\<And>i. i \<noteq> [] \<Longrightarrow>
    Service_Mine toyCrypto exampleGroth True (\<lambda>_. False) (exampleService i) exampleRequest = (exampleService i, Some (Inr (R i)))"
  using example_mines by metis

definition exampleResponses :: "(string \<Rightarrow> MiningResponse) \<Rightarrow> (unit Service \<times> MiningResponse) list" where
  "exampleResponses R = map (\<lambda>i. (exampleService i, R i)) (vs_ids fourValidators)"

lemma example_round:
  assumes "\<And>i. i \<noteq> [] \<Longrightarrow>
    Service_Mine toyCrypto exampleGroth True (\<lambda>_. False) (exampleService i) exampleRequest = (exampleService i, Some (Inr (R i)))"
  shows "honestRound exampleEnv (exampleNode cap j) exampleRequest (exampleResponses R) (map (mr_Ticket \<circ> snd) (exampleResponses R))
    (map (mr_Attestation \<circ> snd) (exampleResponses R)) (List.map_filter (mr_ZKMLProof \<circ> snd) (exampleResponses R))"
proof -
  have key: "PublicKey fourValidators i = Some (take 32 (replicate 64 0))" if member: "i \<in> set (vs_ids fourValidators)" for i
    using member by (auto simp: four_ids PublicKey_def fourValidators_def fourKeys_def)
  have "honestResponse exampleEnv (exampleNode cap j) exampleRequest (exampleService i, R i)" if member: "i \<in> set (vs_ids fourValidators)" for i
  proof -
    have "i \<noteq> []" using member by (auto simp: four_ids)
    moreover have "configured exampleEnv (exampleNode cap j) (exampleService i)"
      using key[OF member] by (simp add: configured_def exampleNode_def exampleService_def exampleEnv_def toyCrypto_def)
    ultimately show ?thesis using assms[of i] by (auto simp: honestResponse_def exampleEnv_def)
  qed
  moreover have "map (sv_ID \<circ> fst) (exampleResponses R) = vs_ids fourValidators"
    by (simp add: exampleResponses_def comp_def exampleService_def)
  moreover have "distinct (vs_ids fourValidators)" "Quorum fourValidators \<le> length (exampleResponses R)"
    by (simp_all add: fourValidators_def Quorum_def VS_Len_def exampleResponses_def)
  ultimately show ?thesis by (auto simp: honestRound_def exampleResponses_def exampleNode_def)
qed

text \<open>One of the four wins, and the block of the round does not depend on what the stores can hold.\<close>

lemma example_winner:
  assumes "\<And>i. i \<noteq> [] \<Longrightarrow>
    Service_Mine toyCrypto exampleGroth True (\<lambda>_. False) (exampleService i) exampleRequest = (exampleService i, Some (Inr (R i)))"
  obtains winner where "SelectWinner (nv_sha256 exampleEnv) (map (mr_Ticket \<circ> snd) (exampleResponses R)) = Inr winner"
    "tk_MinerID winner \<in> set (vs_ids fourValidators)"
proof -
  have mode: "modeOK (exampleNode 0 [])" "keysWork (nv_crypto exampleEnv)"
    using example_setting(1) by (simp_all add: modeOK_def exampleNode_def mockSetting_def)
  note round = example_round[of R 0 "[]", OF assms]
  have mem: "(exampleService ''a'', R ''a'') \<in> set (exampleResponses R)" by (simp add: exampleResponses_def fourValidators_def)
  obtain w where w: "SelectWinner (nv_sha256 exampleEnv) (map (mr_Ticket \<circ> snd) (exampleResponses R)) = Inr w"
    using round_competition(1)[OF round mode mem] unfolding validateCompetition_ok by blast
  have "w \<in> set (map (mr_Ticket \<circ> snd) (exampleResponses R))"
    using w hd_in_set[of "sortSlice (\<lambda>t. (tk_WorkHash t, tk_MinerID t)) (map (mr_Ticket \<circ> snd) (exampleResponses R))"]
    unfolding SelectWinner_ok by simp
  then obtain i where i: "i \<in> set (vs_ids fourValidators)" "w = mr_Ticket (R i)" by (auto simp: exampleResponses_def)
  have "honestResponse exampleEnv (exampleNode 0 []) exampleRequest (exampleService i, R i)"
    using round i(1) by (simp add: honestRound_def exampleResponses_def)
  from checkTicket_honest(2)[OF this mode] have "tk_MinerID w = i" using i(2) by (simp add: exampleService_def)
  then show thesis using that w i(1) by simp
qed

lemma example_receipt:
  "\<exists>receipt. Execute (nv_sha256 exampleEnv) post decodeRPC [] tip exampleEVM = Inr receipt"
proof -
  have "json_Valid ''[]''" using json_Valid_text[of "JArr []"] by simp
  then show ?thesis by (simp add: Execute_def exampleEVM_def normalizeRequest_def TrimSpace_def Let_def)
qed

section \<open>A turn\<close>

abbreviation exampleBlock where
  "exampleBlock P r ts as zs receipt payload winner \<equiv> roundBlock exampleEnv exampleNetwork exampleNow P exampleRequest
     (submission exampleEnv exampleJob (mr_Result r) exampleEVM ts as zs) receipt payload winner"

lemma example_turn:
  obtains cap P r sv ts as zs winner receipt payload and xs :: "(unit Service \<times> MiningResponse) list" where
    "P \<in> set (vs_ids fourValidators)" "honestRound exampleEnv (exampleNode cap P) exampleRequest xs ts as zs" "(sv, r) \<in> set xs"
    "SelectWinner (nv_sha256 exampleEnv) ts = Inr winner" "tk_MinerID winner = P"
    "Execute (nv_sha256 exampleEnv) (nw_evmPost exampleNetwork) (nw_evmDecode exampleNetwork) [] GenesisHash exampleEVM = Inr receipt"
    "roundPayload exampleEnv exampleMock exampleNow P exampleRequest = Inr payload"
    "int (length (json_marshal (block_json (exampleBlock P r ts as zs receipt payload winner)))) \<le> cap"
proof -
  obtain R where R: "\<And>i. i \<noteq> [] \<Longrightarrow>
    Service_Mine toyCrypto exampleGroth True (\<lambda>_. False) (exampleService i) exampleRequest = (exampleService i, Some (Inr (R i)))"
    by (rule example_responses, rule that)
  obtain winner where w: "SelectWinner (nv_sha256 exampleEnv) (map (mr_Ticket \<circ> snd) (exampleResponses R)) = Inr winner"
    "tk_MinerID winner \<in> set (vs_ids fourValidators)"
    by (rule example_winner[OF R], assumption, rule that)
  obtain receipt where e: "Execute (nv_sha256 exampleEnv) (nw_evmPost exampleNetwork) (nw_evmDecode exampleNetwork) [] GenesisHash exampleEVM
      = Inr receipt" using example_receipt by blast
  have "goodTime exampleNow" using example_setting(2) by (simp add: clockOK_def)
  then obtain payload where p: "roundPayload exampleEnv exampleMock exampleNow (tk_MinerID winner) exampleRequest = Inr payload"
    using roundPayload_ok by blast
  have "(exampleService ''a'', R ''a'') \<in> set (exampleResponses R)" by (simp add: exampleResponses_def fourValidators_def)
  from that[OF w(2) example_round[OF R] this w(1) refl e p order_refl] show thesis by simp
qed

lemma example_peers:
  assumes "int (length (json_marshal (block_json block))) \<le> cap" "P \<in> set (vs_ids fourValidators)"
  shows "\<forall>i \<in> set (vs_ids fourValidators) - {}. peerOf exampleEnv exampleMock (exampleNode cap P) (exampleNode cap i)
    \<and> atTip 0 GenesisHash (nd_replica (exampleNode cap i))
    \<and> int (length (json_marshal (block_json block))) \<le> st_maxBytes (nd_objectStore (exampleNode cap i))"
  using assms by (simp add: peerOf_def samePolicy_def exampleNode_def zkmlInv_def atTip_def fourReplica_def votedFor_def exampleStore_def)

lemma example_keys: "keysMatch (nv_crypto exampleEnv) fourValidators (\<lambda>_. replicate 64 0) (set (vs_ids fourValidators) - {})"
  by (auto simp: keysMatch_def exampleEnv_def fourValidators_def fourKeys_def toyCrypto_def)

lemma example_mode: "modeOK (exampleNode cap P)" "nd_minZKMLProofs (exampleNode cap P) \<le> int n" "nd_id (exampleNode cap P) = P"
  "nd_evm (exampleNode cap P) = []"
  by (simp_all add: modeOK_def exampleNode_def)

lemma example_few: "{} \<subseteq> set (vs_ids fourValidators)" "3 * card ({} :: string set) < length (vs_ids fourValidators)"
  by (simp_all add: fourValidators_def)

text \<open>The hypotheses of the theorems about a round, for the example.\<close>

lemma example_turn_facts:
  assumes "P \<in> set (vs_ids fourValidators)" "honestRound exampleEnv (exampleNode cap P) exampleRequest xs ts as zs"
    and "tk_MinerID winner = P"
    and "Execute (nv_sha256 exampleEnv) (nw_evmPost exampleNetwork) (nw_evmDecode exampleNetwork) [] GenesisHash exampleEVM = Inr receipt"
    and "roundPayload exampleEnv exampleMock exampleNow P exampleRequest = Inr payload"
    and "int (length (json_marshal (block_json block))) \<le> cap"
  shows "P \<in> set (vs_ids fourValidators) - {}" "nd_id (ns_nodes (exampleSystem cap) P) = P"
    "\<forall>i \<in> set (vs_ids fourValidators) - {}. peerOf exampleEnv exampleMock (ns_nodes (exampleSystem cap) P) (ns_nodes (exampleSystem cap) i)
       \<and> atTip 0 GenesisHash (nd_replica (ns_nodes (exampleSystem cap) i))
       \<and> int (length (json_marshal (block_json block))) \<le> st_maxBytes (nd_objectStore (ns_nodes (exampleSystem cap) i))"
    "honestRound exampleEnv (ns_nodes (exampleSystem cap) P) \<lparr>mq_Height = 0 + 1, mq_ParentHash = GenesisHash, mq_Job = exampleJob\<rparr> xs ts as zs"
    "modeOK (ns_nodes (exampleSystem cap) P)" "nd_minZKMLProofs (ns_nodes (exampleSystem cap) P) \<le> int (length xs)"
    "Execute (nv_sha256 exampleEnv) (nw_evmPost exampleNetwork) (nw_evmDecode exampleNetwork) (nd_evm (ns_nodes (exampleSystem cap) P))
       GenesisHash exampleEVM = Inr receipt"
    "roundPayload exampleEnv exampleMock exampleNow P \<lparr>mq_Height = 0 + 1, mq_ParentHash = GenesisHash, mq_Job = exampleJob\<rparr> = Inr payload"
  unfolding exampleRequest_def[symmetric]
  using assms(1,2,4,5) example_peers[OF assms(6,1)] example_mode by (simp_all add: exampleSystem_def)

text \<open>A state in which all four have finalized one block.\<close>

lemma example_finalized:
  obtains t block where "nodeReachable exampleEnv fourValidators (\<lambda>_. replicate 64 0) {} t"
    "\<forall>i \<in> {''a'', ''b'', ''c'', ''d''}. rp_blocks (nd_replica (ns_nodes t i)) = [block]"
proof -
  obtain cap P r sv ts as zs winner receipt payload and xs :: "(unit Service \<times> MiningResponse) list" where
    T: "P \<in> set (vs_ids fourValidators)" "honestRound exampleEnv (exampleNode cap P) exampleRequest xs ts as zs" "(sv, r) \<in> set xs"
    "SelectWinner (nv_sha256 exampleEnv) ts = Inr winner" "tk_MinerID winner = P"
    "Execute (nv_sha256 exampleEnv) (nw_evmPost exampleNetwork) (nw_evmDecode exampleNetwork) [] GenesisHash exampleEVM = Inr receipt"
    "roundPayload exampleEnv exampleMock exampleNow P exampleRequest = Inr payload"
    "int (length (json_marshal (block_json (exampleBlock P r ts as zs receipt payload winner)))) \<le> cap"
    by (rule example_turn, rule that)
  note F = example_turn_facts[OF T(1,2,5-8)]
  have "\<exists>t. nodeReachable exampleEnv fourValidators (\<lambda>_. replicate 64 0) {} t \<and> (\<forall>i \<in> set (vs_ids fourValidators) - {}.
      rp_blocks (nd_replica (ns_nodes t i)) = rp_blocks (nd_replica (ns_nodes (exampleSystem cap) i)) @ [exampleBlock P r ts as zs receipt payload winner]
      \<and> rp_tipHash (nd_replica (ns_nodes t i)) = hashOf (nv_crypto exampleEnv) (exampleBlock P r ts as zs receipt payload winner))"
    unfolding exampleRequest_def
    by (rule conjunct2[OF honest_round_reaches[OF four_set four_distinct example_few example_keys example_start F(1,2)
          F(3)[unfolded exampleRequest_def] F(4,5) T(3) F(6) example_setting T(4,5) F(7,8)]])
  then show thesis using that by (auto simp: four_ids exampleSystem_def exampleNode_def fourReplica_def)
qed

section \<open>A proposal\<close>

lemma example_MakeQC:
  "\<exists>qc. (MakeQC toyCrypto fourValidators phase (heightOf block) (hashOf toyCrypto block) (exampleVotes phase block)
     :: 'e hs_error + QuorumCertificate) = Inr qc \<and> qc_Phase qc = phase"
proof -
  have "voteOK toyCrypto fourValidators phase (heightOf block) (hashOf toyCrypto block) v" if member: "v \<in> set (exampleVotes phase block)" for v
    using member by (auto simp: exampleVotes_def voteOK_def VerifyVote_ok honestVote_def four_ids fourValidators_def fourKeys_def toyCrypto_def)
  moreover have "map vt_VoterID (exampleVotes phase block) = vs_ids fourValidators" "length (exampleVotes phase block) = 4"
    by (simp_all add: exampleVotes_def honestVote_def comp_def fourValidators_def)
  moreover have "distinct (vs_ids fourValidators)" "Quorum fourValidators \<le> 4"
    by (simp_all add: fourValidators_def Quorum_def VS_Len_def)
  ultimately show ?thesis by (simp add: MakeQC_ok)
qed

lemma exampleVotes_phase: "v \<in> set (exampleVotes phase block) \<Longrightarrow> vt_Phase v = phase"
  by (auto simp: exampleVotes_def honestVote_def)

lemma map_filter_Some: "List.map_filter id (map Some xs) = xs" "List.map_filter id (map (\<lambda>x. Some (f x)) xs) = map f xs"
  "List.map_filter fst (map (\<lambda>x. (Some x, b)) xs) = xs"
  by (induction xs) (simp_all add: List.map_filter_simps)

lemma example_broadcasts:
  "broadcastProposal exampleNetwork peers block = exampleVotes PhasePrepare block"
  "qc_Phase qc = PhasePrepare \<Longrightarrow> fst (broadcastQC exampleNetwork peers block qc PhasePreCommit) = exampleVotes PhasePreCommit block"
  "qc_Phase qc = PhasePreCommit \<Longrightarrow> fst (broadcastQC exampleNetwork peers block qc PhaseCommit) = exampleVotes PhaseCommit block"
  "qc_Phase qc = PhaseCommit \<Longrightarrow> snd (broadcastQC exampleNetwork peers block qc []) = 4"
  by (simp_all add: broadcastProposal_def broadcastQC_def exampleNetwork_def map_filter_Some exampleVotes_phase filter_id_conv Let_def
      PhasePrepare_def PhasePreCommit_def PhaseCommit_def fourValidators_def List.map_filter_simps)

lemma example_phases: "\<exists>response. runPhases toyCrypto exampleNetwork fourValidators peers block = Inr response"
proof -
  obtain q1 where q1: "(MakeQC toyCrypto fourValidators PhasePrepare (heightOf block) (hashOf toyCrypto block)
      (exampleVotes PhasePrepare block) :: unit hs_error + QuorumCertificate) = Inr q1" "qc_Phase q1 = PhasePrepare"
    using example_MakeQC by blast
  obtain q2 where q2: "(MakeQC toyCrypto fourValidators PhasePreCommit (heightOf block) (hashOf toyCrypto block)
      (exampleVotes PhasePreCommit block) :: unit hs_error + QuorumCertificate) = Inr q2" "qc_Phase q2 = PhasePreCommit"
    using example_MakeQC by blast
  obtain q3 where q3: "(MakeQC toyCrypto fourValidators PhaseCommit (heightOf block) (hashOf toyCrypto block)
      (exampleVotes PhaseCommit block) :: unit hs_error + QuorumCertificate) = Inr q3" "qc_Phase q3 = PhaseCommit"
    using example_MakeQC by blast
  have "Quorum fourValidators \<le> 4" by (simp add: fourValidators_def Quorum_def VS_Len_def)
  then show ?thesis using q1 q2 q3 by (simp add: runPhases_def example_broadcasts Let_def)
qed

lemma example_proposes:
  obtains cap P n request response where "Propose exampleEnv exampleNetwork exampleNow (exampleNode cap P) request = (n, Inr response)"
proof -
  obtain cap P r sv ts as zs winner receipt payload and xs :: "(unit Service \<times> MiningResponse) list" where
    T: "P \<in> set (vs_ids fourValidators)" "honestRound exampleEnv (exampleNode cap P) exampleRequest xs ts as zs" "(sv, r) \<in> set xs"
    "SelectWinner (nv_sha256 exampleEnv) ts = Inr winner" "tk_MinerID winner = P"
    "Execute (nv_sha256 exampleEnv) (nw_evmPost exampleNetwork) (nw_evmDecode exampleNetwork) [] GenesisHash exampleEVM = Inr receipt"
    "roundPayload exampleEnv exampleMock exampleNow P exampleRequest = Inr payload"
    "int (length (json_marshal (block_json (exampleBlock P r ts as zs receipt payload winner)))) \<le> cap"
    by (rule example_turn, rule that)
  note F = example_turn_facts[OF T(1,2,5-8)]
  obtain p' where p': "proposeBlock exampleEnv exampleNetwork exampleNow (exampleNode cap P)
      (submission exampleEnv exampleJob (mr_Result r) exampleEVM ts as zs) = (p', Inr (exampleBlock P r ts as zs receipt payload winner))"
    using conjunct1[OF honest_round_reaches[OF four_set four_distinct example_few example_keys example_start F(1,2)
          F(3)[unfolded exampleRequest_def] F(4,5) T(3) F(6) example_setting T(4,5) F(7,8)]]
    by (auto simp: exampleRequest_def exampleSystem_def)
  have "nodeInv exampleEnv fourValidators (exampleNode cap P)"
    using nodeReachable_inv[OF example_start, of P cap] T(1) by (simp add: exampleSystem_def)
  then have v: "nd_validators p' = fourValidators" using proposeBlock_inv[OF p'] by (simp add: nodeInv_def)
  have c: "nv_crypto exampleEnv = toyCrypto" by (simp add: exampleEnv_def)
  obtain response where "runPhases toyCrypto exampleNetwork fourValidators (nd_peers p') (exampleBlock P r ts as zs receipt payload winner)
      = Inr response" using example_phases by blast
  then have "Propose exampleEnv exampleNetwork exampleNow (exampleNode cap P)
      (submission exampleEnv exampleJob (mr_Result r) exampleEVM ts as zs) = (p', Inr response)"
    unfolding Propose_def p' by (simp add: v c)
  then show thesis by (rule that)
qed

text \<open>A block that a node has just accepted.\<close>

lemma example_accepted:
  obtains cap P n block where "nodeReachable exampleEnv fourValidators (\<lambda>_. replicate 64 0) {} (exampleSystem cap)"
    "validateBlock exampleEnv exampleNow (exampleNode cap P) block = (n, Inr ())" "nd_execution n = exampleMock"
    "nd_objectStore n = exampleStore cap" "validateLocked (\<lambda>b. b) (\<lambda>s. s) exampleMock (bl_Execution block) = Inr ()"
    "roundPayload exampleEnv exampleMock exampleNow P exampleRequest = Inr (bl_Execution block)"
    "int (length (json_marshal (block_json block))) \<le> cap"
proof -
  obtain cap P r sv ts as zs winner receipt payload and xs :: "(unit Service \<times> MiningResponse) list" where
    T: "P \<in> set (vs_ids fourValidators)" "honestRound exampleEnv (exampleNode cap P) exampleRequest xs ts as zs" "(sv, r) \<in> set xs"
    "SelectWinner (nv_sha256 exampleEnv) ts = Inr winner" "tk_MinerID winner = P"
    "Execute (nv_sha256 exampleEnv) (nw_evmPost exampleNetwork) (nw_evmDecode exampleNetwork) [] GenesisHash exampleEVM = Inr receipt"
    "roundPayload exampleEnv exampleMock exampleNow P exampleRequest = Inr payload"
    "int (length (json_marshal (block_json (exampleBlock P r ts as zs receipt payload winner)))) \<le> cap"
    by (rule example_turn, rule that)
  let ?p = "exampleNode cap P" and ?b = "exampleBlock P r ts as zs receipt payload winner"
  have p: "mq_Height exampleRequest = rp_height (nd_replica ?p) + 1" "mq_ParentHash exampleRequest = rp_tipHash (nd_replica ?p)"
    "nd_execution ?p = exampleMock" "zkmlInv exampleEnv ?p" "nd_objectStore ?p = exampleStore cap" "mq_Job exampleRequest = exampleJob"
    "mq_ParentHash exampleRequest = GenesisHash"
    by (simp_all add: exampleRequest_def exampleNode_def fourReplica_def zkmlInv_def)
  have q: "peerOf exampleEnv exampleMock ?p ?p" by (simp add: peerOf_def samePolicy_def p)
  note H = honest_proposal[OF T(2) example_mode(1) T(3) example_mode(2) p(1,2) example_setting(1) p(3,4) example_setting(2) T(4),
      unfolded example_mode p(6,7), OF T(5-7)]
  obtain n where n: "validateBlock exampleEnv exampleNow ?p ?b = (n, Inr ())" using H(5)[OF q] by blast
  have sha: "nv_sha256 exampleEnv = (\<lambda>b. b)" by (simp add: exampleEnv_def toyCrypto_def)
  have e: "nv_engine exampleEnv = mockEngine (\<lambda>b. b) (\<lambda>s. s)" by (simp add: exampleEnv_def)
  have x: "bl_Execution ?b = payload" by (simp add: roundBlock_def assembled_fields)
  show thesis
    by (rule that[OF example_start n]) (use validateBlock_mock_state[OF n p(4) e] validateBlock_keeps[OF n p(4)] keeps_fields[of ?p n] p(3,5)
        H(4) T(7,8) x sha in simp_all)
qed

text \<open>Its payload moves the head of the engine.\<close>

lemma example_head:
  assumes "roundPayload exampleEnv exampleMock exampleNow P exampleRequest = Inr payload"
  shows "\<not> equalHash (mk_head exampleMock) (ex_BlockHash payload)" "\<not> EqualFold (ex_BlockHash payload) (mk_head exampleMock)"
    "ex_BlockHash payload \<noteq> mk_head exampleMock"
proof -
  have "\<exists>ms. ex_BlockHash payload = HashJSON (\<lambda>b. b) (mapJson ms)"
    using assms by (auto simp: roundPayload_def Mock_Build_def Let_def exampleEnv_def toyCrypto_def split: if_splits)
  moreover have "\<exists>t. HashJSON (\<lambda>b. b) (mapJson ms) = ''0x7b'' @ t" for ms
  proof -
    obtain c where "json_marshal (mapJson ms) = 123 # c" by (auto simp: mapJson_def json_marshal_def bytes_of_def)
    then show ?thesis by (simp add: HashJSON_def HashBytes_def copyN_def hexDigit_def char_eq_of_char)
  qed
  ultimately obtain t where "ex_BlockHash payload = ''0x7b'' @ t" by metis
  then show "\<not> equalHash (mk_head exampleMock) (ex_BlockHash payload)" "\<not> EqualFold (ex_BlockHash payload) (mk_head exampleMock)"
    "ex_BlockHash payload \<noteq> mk_head exampleMock"
    by (auto simp: equalHash_def EqualFold_def exampleMock_def NewMock_def normalizeHash_def GenesisHash_def TrimPrefix_def toLowerC_def)
qed

end
