(* ===== verification/Node_Props.thy ===== *)
theory Node_Props
  imports Example_Network
begin

text \<open>The properties of the network of validator nodes.\<close>

section \<open>Safety\<close>

text \<open>
  C1: The network of nodes implements the consensus. Whatever its honest nodes do, in any order and on
  any input (proposals and certificates received, blocks proposed, rounds coordinated, objects looked up,
  peers reconfigured), their replicas go through a run of the abstract replica network, with the block
  validation of the nodes as its validators; an operation in which a node stops before it reaches its
  replica is no step there.
\<close>

theorem network_refines_consensus:
  assumes "nodeReachable v vs keyOf faulty s"
  shows "reachable (nv_crypto v) vs keyOf faulty (range (\<lambda>now. Some (validateBlock v now)))
    \<lparr>sy_replicas = (\<lambda>i. nd_replica (ns_nodes s i)), sy_signed = ns_signed s\<rparr>"
  using nodes_refine_replicas[OF assms] by (simp add: replicasOf_def nodeValidators_def)

theorem network_refines_consensus_witness:
  "\<exists>s :: Mock NodeSystem. (\<forall>i \<in> {''a'', ''b'', ''c'', ''d''}. rp_blocks (nd_replica (ns_nodes s i)) \<noteq> [])
    \<and> reachable toyCrypto fourValidators (\<lambda>_. replicate 64 0) {} (range (\<lambda>now. Some (validateBlock exampleEnv now)))
        \<lparr>sy_replicas = (\<lambda>i. nd_replica (ns_nodes s i)), sy_signed = ns_signed s\<rparr>"
proof -
  obtain t block where t: "nodeReachable exampleEnv fourValidators (\<lambda>_. replicate 64 0) {} t"
    "\<forall>i \<in> {''a'', ''b'', ''c'', ''d''}. rp_blocks (nd_replica (ns_nodes t i)) = [block]"
    by (rule example_finalized, rule that)
  have "nv_crypto exampleEnv = toyCrypto" by (simp add: exampleEnv_def)
  then show ?thesis using network_refines_consensus[OF t(1)] t(2) by (intro exI[of _ t]) simp
qed

text \<open>
  C2: Nodes agree. With fewer than a third of the validators faulty, the finalized chains of two honest
  nodes have the same block hash at every height that both reached, however the nodes were configured.
\<close>

theorem nodes_agree:
  assumes "NewValidatorSet keys = Inr vs" "distinct (map fst keys)"
    and "faulty \<subseteq> set (vs_ids vs)" "3 * card faulty < length (vs_ids vs)"
    and "nodeReachable v vs keyOf faulty s" "i \<in> set (vs_ids vs) - faulty" "j \<in> set (vs_ids vs) - faulty"
    and "k < length (rp_blocks (nd_replica (ns_nodes s i)))" "k < length (rp_blocks (nd_replica (ns_nodes s j)))"
  shows "Block_Hash (nv_sha256 v) (rp_blocks (nd_replica (ns_nodes s i)) ! k)
    = Block_Hash (nv_sha256 v) (rp_blocks (nd_replica (ns_nodes s j)) ! k)"
  using chains_agree[OF assms(1-4) nodes_refine_replicas[OF assms(5)] assms(6,7)] assms(8,9) by simp

theorem nodes_agree_witness:
  "\<exists>s :: Mock NodeSystem. nodeReachable exampleEnv fourValidators (\<lambda>_. replicate 64 0) {} s
    \<and> length (rp_blocks (nd_replica (ns_nodes s ''a''))) = 1
    \<and> Block_Hash (nv_sha256 exampleEnv) (rp_blocks (nd_replica (ns_nodes s ''a'')) ! 0)
      = Block_Hash (nv_sha256 exampleEnv) (rp_blocks (nd_replica (ns_nodes s ''d'')) ! 0)"
proof -
  obtain t block where t: "nodeReachable exampleEnv fourValidators (\<lambda>_. replicate 64 0) {} t"
    "\<forall>i \<in> {''a'', ''b'', ''c'', ''d''}. rp_blocks (nd_replica (ns_nodes t i)) = [block]"
    by (rule example_finalized, rule that)
  have "Block_Hash (nv_sha256 exampleEnv) (rp_blocks (nd_replica (ns_nodes t ''a'')) ! 0)
      = Block_Hash (nv_sha256 exampleEnv) (rp_blocks (nd_replica (ns_nodes t ''d'')) ! 0)"
    by (rule nodes_agree[OF four_set four_distinct example_few t(1)]) (use t(2) in \<open>simp_all add: four_ids\<close>)
  then show ?thesis using t by (intro exI[of _ t]) simp
qed



section \<open>Progress\<close>



section \<open>Rounds\<close>

lemma MakeQC_subject:
  assumes "(MakeQC cr vs phase height b votes :: unit hs_error + QuorumCertificate) = Inr qc"
  shows "(VerifyQC cr vs qc :: unit hs_error + unit) = Inr () \<and> qc_Phase qc = phase \<and> qc_Height qc = height \<and> qc_BlockHash qc = b"
proof -
  have m: "\<forall>v \<in> set votes. voteOK cr vs phase height b v" "distinct (map vt_VoterID votes)" "Quorum vs \<le> length votes"
    "qc = \<lparr>qc_Phase = phase, qc_Height = height, qc_BlockHash = b, qc_Votes = sortSlice vt_VoterID votes\<rparr>"
    using assms unfolding MakeQC_ok by simp_all
  moreover have "distinct (map vt_VoterID (sortSlice vt_VoterID votes))" using m(2) by (simp add: distinct_map)
  ultimately show ?thesis by (simp add: VerifyQC_ok)
qed

lemma length_reports: "length (filter snd (List.map_filter id answers)) = length (filter (\<lambda>answer. \<exists>vote. answer = Some (vote, True)) answers)"
  by (induction answers) (auto simp: List.map_filter_simps split: option.splits)

lemma runPhases_ok:
  assumes "runPhases cr nw vs peers block = Inr response"
  shows "rr_Block response = block \<and> rr_BlockHash response = Block_Hash (cr_sha256 cr) block
    \<and> (VerifyQC cr vs (rr_CommitQC response) :: unit hs_error + unit) = Inr ()
    \<and> qc_Phase (rr_CommitQC response) = PhaseCommit \<and> qc_BlockHash (rr_CommitQC response) = rr_BlockHash response
    \<and> qc_Height (rr_CommitQC response) = bh_Height (bl_Header block)
    \<and> Quorum vs \<le> length (filter (\<lambda>answer. \<exists>vote. answer = Some (vote, True)) (nw_qc nw (map snd peers) block (rr_CommitQC response)))"
  using assms
  by (auto simp: runPhases_def Let_def broadcastQC_def length_reports not_less dest!: MakeQC_subject split: if_splits)

lemma checkSubmission_winner:
  "checkSubmission v n h tip job result ts ps c zs = (m, Inr winner) \<Longrightarrow> SelectWinner (nv_sha256 v) ts = Inr winner"
  by (auto simp: checkSubmission_def validateCompetition_ok split: sum.splits prod.splits)

lemma proposeBlock_ok:
  assumes "proposeBlock v nw now n request = (n', Inr block)"
  shows "bh_Height (bl_Header block) = rp_height (nd_replica n) + 1 \<and> bh_ParentHash (bl_Header block) = rp_tipHash (nd_replica n)
    \<and> (\<exists>winner. SelectWinner (nv_sha256 v) (elems (pq_Tickets request)) = Inr winner
         \<and> tk_MinerID winner = bh_ProposerID (bl_Header block) \<and> bl_Winner block = winner)
    \<and> bl_Job block = pq_Job request \<and> bl_Result block = pq_Result request \<and> bl_EVMRequest block = pq_EVM request"
  using assms
  by (auto simp: proposeBlock_def HeightAndTip_def assembleBlock_def Let_def dest: checkSubmission_winner
      split: sum.splits prod.splits if_splits)

text \<open>
  C11: A proposal that succeeds is certified. The block of a successful \<open>Propose\<close> extends the proposer's
  tip, names the proposer, who is the miner of the least submitted ticket, and carries the submitted job,
  result and EVM request; the returned certificate is a valid commit certificate for it, and at least
  a quorum of peers reported that they finalized it.
\<close>

theorem proposal_certified:
  assumes "Propose v nw now n request = (n', Inr response)"
  shows "bh_Height (bl_Header (rr_Block response)) = rp_height (nd_replica n) + 1
    \<and> bh_ParentHash (bl_Header (rr_Block response)) = rp_tipHash (nd_replica n)
    \<and> (\<exists>winner. SelectWinner (nv_sha256 v) (elems (pq_Tickets request)) = Inr winner
         \<and> tk_MinerID winner = bh_ProposerID (bl_Header (rr_Block response)) \<and> bl_Winner (rr_Block response) = winner)
    \<and> bl_Job (rr_Block response) = pq_Job request \<and> bl_Result (rr_Block response) = pq_Result request
    \<and> bl_EVMRequest (rr_Block response) = pq_EVM request
    \<and> rr_BlockHash response = Block_Hash (nv_sha256 v) (rr_Block response)
    \<and> (VerifyQC (nv_crypto v) (nd_validators n') (rr_CommitQC response) :: unit hs_error + unit) = Inr ()
    \<and> qc_Phase (rr_CommitQC response) = PhaseCommit \<and> qc_BlockHash (rr_CommitQC response) = rr_BlockHash response
    \<and> qc_Height (rr_CommitQC response) = bh_Height (bl_Header (rr_Block response))
    \<and> Quorum (nd_validators n') \<le> length (filter (\<lambda>answer. \<exists>vote. answer = Some (vote, True))
        (nw_qc nw (map snd (nd_peers n')) (rr_Block response) (rr_CommitQC response)))"
proof -
  obtain block where b: "proposeBlock v nw now n request = (n', Inr block)"
    "runPhases (nv_crypto v) nw (nd_validators n') (nd_peers n') block = Inr response"
    using assms by (auto simp: Propose_def split: prod.splits sum.splits)
  have r: "rr_Block response = block" using runPhases_ok[OF b(2)] by simp
  show ?thesis using runPhases_ok[OF b(2)] proposeBlock_ok[OF b(1)] unfolding r by blast
qed

theorem proposal_certified_witness:
  "\<exists>cap P n request response. Propose exampleEnv exampleNetwork exampleNow (exampleNode cap P) request = (n, Inr response)
    \<and> (VerifyQC (nv_crypto exampleEnv) (nd_validators n) (rr_CommitQC response) :: unit hs_error + unit) = Inr ()
    \<and> qc_BlockHash (rr_CommitQC response) = rr_BlockHash response"
proof -
  obtain cap P n request response where p: "Propose exampleEnv exampleNetwork exampleNow (exampleNode cap P) request = (n, Inr response)"
    by (rule example_proposes, rule that)
  show ?thesis using p proposal_certified[OF p] by blast
qed

section \<open>Finalization before binding\<close>

text \<open>
  C12: On a commit certificate \<open>OnQC\<close> verifies the certificate and the block, finalizes the block's payload
  in the execution engine and stores the block, and only then lets the replica compare the certificate
  with the block. With a valid commit certificate for another block and any block that passes validation,
  the node reports an error and its chain does not change, but its execution head has moved to a payload
  that no certificate covers.
\<close>

theorem execution_finalized_before_binding:
  assumes "qc_Phase qc = PhaseCommit" "qc_BlockHash qc \<noteq> Block_Hash (nv_sha256 v) block"
    and "(VerifyQC (nv_crypto v) (nd_validators n) qc :: node_error hs_error + unit) = Inr ()" "nd_validators n = rp_validators (nd_replica n)"
    and "\<not> equalHash (en_Head (nv_engine v) (nd_execution n)) (ex_BlockHash (bl_Execution block))" "zkmlInv v n"
    and "validateBlock v now n block = (n1, Inr ())"
    and "en_Finalize (nv_engine v) (nd_execution n1) (bl_Execution block) = (x, Inr ())"
    and "Put (nv_sha256 v) (nv_osOK v) (nd_objectStore n1) (json_marshal (block_json block)) = (st, Inr ident)"
  shows "\<exists>n'. Node_OnQC v now n block qc = (n', Inl (HandlerConsensus QCNotForBlock))
    \<and> nd_execution n' = x \<and> nd_objectStore n' = st \<and> nd_replica n' = nd_replica n"
proof -
  have r: "nd_replica n1 = nd_replica n"
    using validateBlock_keeps[OF assms(7,6)] keeps_fields[of n n1] by simp
  have q: "(VerifyQC (nv_crypto v) (rp_validators (nd_replica n)) qc :: node_error hs_error + unit) = Inr ()"
    using assms(3,4) by simp
  have "Node_OnQC v now n block qc = replicaQC v now (n1\<lparr>nd_execution := x, nd_objectStore := st\<rparr>) block qc"
    using assms(1,3,5,7-9) by (simp add: Node_OnQC_def Let_def)
  also have "\<dots> = (n1\<lparr>nd_execution := x, nd_objectStore := st\<rparr>, Inl (HandlerConsensus QCNotForBlock))"
    using assms(2) q r by (simp add: replicaQC_def OnQC_def Let_def)
  finally show ?thesis using r by simp
qed

theorem execution_finalized_before_binding_witness:
  "\<exists>cap P n' block qc. nodeReachable exampleEnv fourValidators (\<lambda>_. replicate 64 0) {} (exampleSystem cap)
    \<and> Node_OnQC exampleEnv exampleNow (exampleNode cap P) block qc = (n', Inl (HandlerConsensus QCNotForBlock))
    \<and> mk_head (nd_execution n') \<noteq> mk_head (nd_execution (exampleNode cap P)) \<and> rp_blocks (nd_replica n') = []"
proof -
  obtain cap P n block where A: "nodeReachable exampleEnv fourValidators (\<lambda>_. replicate 64 0) {} (exampleSystem cap)"
    "validateBlock exampleEnv exampleNow (exampleNode cap P) block = (n, Inr ())" "nd_execution n = exampleMock"
    "nd_objectStore n = exampleStore cap" "validateLocked (\<lambda>b. b) (\<lambda>s. s) exampleMock (bl_Execution block) = Inr ()"
    "roundPayload exampleEnv exampleMock exampleNow P exampleRequest = Inr (bl_Execution block)"
    "int (length (json_marshal (block_json block))) \<le> cap"
    by (rule example_accepted, rule that)
  let ?n = "exampleNode cap P" and ?vote = "\<lambda>i. \<lparr>vt_Phase = PhaseCommit, vt_Height = 1, vt_BlockHash = ''other'', vt_VoterID = i,
      vt_Signature = EncodeToString (VoteSigningBytes PhaseCommit 1 ''other'')\<rparr>"
  let ?qc = "\<lparr>qc_Phase = PhaseCommit, qc_Height = 1, qc_BlockHash = ''other'', qc_Votes = map ?vote (vs_ids fourValidators)\<rparr>"
  have node: "nd_validators ?n = rp_validators (nd_replica ?n)" "zkmlInv exampleEnv ?n" "nd_execution ?n = exampleMock"
    "nd_validators ?n = fourValidators" "rp_blocks (nd_replica ?n) = []"
    by (simp_all add: exampleNode_def fourReplica_def zkmlInv_def)
  have env: "nv_sha256 exampleEnv = (\<lambda>b. b)" "nv_engine exampleEnv = mockEngine (\<lambda>b. b) (\<lambda>s. s)" "nv_osOK exampleEnv"
    by (simp_all add: exampleEnv_def toyCrypto_def)
  have "voteOK toyCrypto fourValidators PhaseCommit 1 ''other'' (?vote i)" if member: "i \<in> set (vs_ids fourValidators)" for i
    using member by (auto simp: voteOK_def VerifyVote_ok four_ids fourValidators_def fourKeys_def toyCrypto_def)
  then have "(VerifyQC (nv_crypto exampleEnv) fourValidators ?qc :: node_error hs_error + unit) = Inr ()"
    by (simp add: VerifyQC_ok comp_def exampleEnv_def) (simp add: fourValidators_def Quorum_def VS_Len_def)
  then have qc: "(VerifyQC (nv_crypto exampleEnv) (nd_validators ?n) ?qc :: node_error hs_error + unit) = Inr ()"
    using node(4) by simp
  have other: "qc_BlockHash ?qc \<noteq> Block_Hash (nv_sha256 exampleEnv) block"
    by (simp add: Block_Hash_def HashJSON_def HashBytes_def)
  have head: "\<not> equalHash (en_Head (nv_engine exampleEnv) (nd_execution ?n)) (ex_BlockHash (bl_Execution block))"
    using example_head(1)[OF A(6)] node(3) env(2) by (simp add: mockEngine_def)
  note fold = example_head(2,3)[OF A(6)]
  obtain num where "parseQuantity (ex_BlockNumber (bl_Execution block)) = Some num"
    using ValidateEnvelope_number validateLocked_envelope[OF A(5)] by blast
  then have fin: "en_Finalize (nv_engine exampleEnv) (nd_execution n) (bl_Execution block) =
      (exampleMock\<lparr>mk_head := ex_BlockHash (bl_Execution block), mk_height := num\<rparr>, Inr ())"
    using A(3,5) env(2) fold(1) by (simp add: mockEngine_def Mock_Finalize_def)
  obtain st where put: "Put (nv_sha256 exampleEnv) (nv_osOK exampleEnv) (nd_objectStore n) (json_marshal (block_json block))
      = (st, Inr (HashBytes (nv_sha256 exampleEnv) (json_marshal (block_json block))))"
    using Put_succeeds[OF env(3) block_text_nonempty] A(4,7) by (fastforce simp: exampleStore_def)
  have phase: "qc_Phase ?qc = PhaseCommit" by simp
  from execution_finalized_before_binding[OF phase other qc node(1) head node(2) A(2) fin put]
  obtain n' where "Node_OnQC exampleEnv exampleNow ?n block ?qc = (n', Inl (HandlerConsensus QCNotForBlock))"
    "nd_execution n' = exampleMock\<lparr>mk_head := ex_BlockHash (bl_Execution block), mk_height := num\<rparr>" "nd_replica n' = nd_replica ?n"
    by blast
  then show ?thesis using A(1) fold(2) node(3,5)
    by (intro exI[of _ cap] exI[of _ P] exI[of _ n'] exI[of _ block] exI[of _ ?qc]) simp
qed

text \<open>
  The cache of validated payloads is keyed by the block hash the envelope claims. Once an envelope was
  accepted, any other envelope that claims the same block hash passes without a call to the engine,
  whatever payload, state root or parent it carries.
\<close>

lemma execution_cache_ignores_payload:
  assumes "checkExecution v n b = (n1, Inr u)" "ex_BlockHash (bl_Execution b') = ex_BlockHash (bl_Execution b)"
  shows "checkExecution v n1 b' = (n1, Inr ())"
  using assms by (auto simp: checkExecution_def split: if_splits prod.splits sum.splits)

section \<open>The selection of a result\<close>

text \<open>One hash is preferred to another: more responses, or as many and a smaller hash.\<close>

definition preferred :: "(string \<Rightarrow> 'r list) \<Rightarrow> string \<Rightarrow> string \<Rightarrow> bool" where
  "preferred members h h' \<longleftrightarrow> length (members h') < length (members h) \<or> length (members h') = length (members h) \<and> h \<le> h'"

lemma preferred_antisym: "preferred members h h' \<Longrightarrow> preferred members h' h \<Longrightarrow> h = h'"
  by (auto simp: preferred_def)

lemma preferred_trans: "preferred members h h' \<Longrightarrow> preferred members h' h'' \<Longrightarrow> preferred members h h''"
  by (auto simp: preferred_def)

lemma preferred_total: "preferred members h h' \<or> preferred members h' h"
  by (auto simp: preferred_def)

lemma selectStep_preferred:
  "h \<noteq> [] \<Longrightarrow> selectStep members (h, members h) x = (if preferred members h x then (h, members h) else (x, members x))"
  by (auto simp: selectStep_def preferred_def)

lemma selectStep_best:
  assumes "\<forall>h \<in> set hs. h \<noteq> [] \<and> members h \<noteq> []" "hs \<noteq> []"
  shows "\<exists>h \<in> set hs. foldl (selectStep members) ([], []) hs = (h, members h) \<and> (\<forall>h' \<in> set hs. preferred members h h')"
  using assms
proof (induction hs rule: rev_induct)
  case (snoc x hs)
  show ?case
  proof (cases "hs = []")
    case True
    then show ?thesis using snoc.prems by (simp add: selectStep_def preferred_def)
  next
    case False
    then obtain h where h: "h \<in> set hs" "foldl (selectStep members) ([], []) hs = (h, members h)"
      "\<forall>h' \<in> set hs. preferred members h h'" using snoc by auto
    have step: "foldl (selectStep members) ([], []) (hs @ [x]) = (if preferred members h x then (h, members h) else (x, members x))"
      using snoc.prems h(1,2) selectStep_preferred by simp
    show ?thesis
    proof (cases "preferred members h x")
      case True
      then show ?thesis using step h(1,3) by auto
    next
      case False
      then have "preferred members x h" using preferred_total by blast
      then have "\<forall>h' \<in> set (hs @ [x]). preferred members x h'" using h(3) preferred_trans preferred_total by fastforce
      then show ?thesis using step False by auto
    qed
  qed
qed simp

lemma selectGroup_best:
  assumes "\<forall>xs. mset (order xs) = mset xs" "responses \<noteq> []"
  shows "\<exists>h \<in> resultHashOf sha256 ` set responses. selectGroup sha256 order responses = (h, filter (\<lambda>r. resultHashOf sha256 r = h) responses)
    \<and> (\<forall>h' \<in> resultHashOf sha256 ` set responses. preferred (\<lambda>h. filter (\<lambda>r. resultHashOf sha256 r = h) responses) h h')"
proof -
  let ?hs = "order (remdups (map (resultHashOf sha256) responses))" and ?members = "\<lambda>h. filter (\<lambda>r. resultHashOf sha256 r = h) responses"
  have set: "set ?hs = resultHashOf sha256 ` set responses"
    using mset_eq_setD[OF spec[OF assms(1)], of "remdups (map (resultHashOf sha256) responses)"] by simp
  have "\<forall>h \<in> set ?hs. h \<noteq> [] \<and> ?members h \<noteq> []"
    unfolding set by (auto simp: filter_empty_conv resultHashOf_def HashJSON_def HashBytes_def)
  moreover have "?hs \<noteq> []" using set assms(2) by auto
  ultimately have "\<exists>h \<in> set ?hs. foldl (selectStep ?members) ([], []) ?hs = (h, ?members h) \<and> (\<forall>h' \<in> set ?hs. preferred ?members h h')"
    by (rule selectStep_best)
  then show ?thesis unfolding set by (simp add: selectGroup_def Let_def)
qed

text \<open>
  C13: The coordinator's choice does not depend on scheduling. Whatever the order in which the miners'
  answers arrive and in which Go iterates over the map of results, the same result hash is selected,
  with the same responses; it has the most responses, and the smallest hash among those with as many.
\<close>

theorem selection_order_independent:
  assumes "\<forall>xs. mset (order xs) = mset xs" "\<forall>xs. mset (order' xs) = mset xs" "mset responses = mset responses'" "responses \<noteq> []"
  shows "fst (selectGroup sha256 order responses) = fst (selectGroup sha256 order' responses')
    \<and> mset (snd (selectGroup sha256 order responses)) = mset (snd (selectGroup sha256 order' responses'))
    \<and> (\<forall>r \<in> set responses. let n = length (filter (\<lambda>r'. resultHashOf sha256 r' = resultHashOf sha256 r) responses) in
         n < length (snd (selectGroup sha256 order responses))
         \<or> n = length (snd (selectGroup sha256 order responses)) \<and> fst (selectGroup sha256 order responses) \<le> resultHashOf sha256 r)"
proof -
  let ?m = "\<lambda>rs h. filter (\<lambda>r. resultHashOf sha256 r = h) rs"
  have set: "set responses' = set responses" using mset_eq_setD[OF assms(3)] by simp
  have m: "mset (?m responses h) = mset (?m responses' h)" for h using assms(3) by simp
  then have len: "length (?m responses h) = length (?m responses' h)" for h by (rule mset_eq_length)
  have p: "preferred (?m responses') = preferred (?m responses)" by (intro ext) (simp add: preferred_def len)
  obtain h where h: "h \<in> resultHashOf sha256 ` set responses" "selectGroup sha256 order responses = (h, ?m responses h)"
    "\<forall>h' \<in> resultHashOf sha256 ` set responses. preferred (?m responses) h h'"
    using selectGroup_best[OF assms(1,4)] by blast
  have "responses' \<noteq> []" using set assms(4) by auto
  then obtain k where k: "k \<in> resultHashOf sha256 ` set responses" "selectGroup sha256 order' responses' = (k, ?m responses' k)"
    "\<forall>h' \<in> resultHashOf sha256 ` set responses. preferred (?m responses) k h'"
    using selectGroup_best[OF assms(2), of responses' sha256] unfolding set p by blast
  have "h = k" using preferred_antisym h(1,3) k(1,3) by metis
  then show ?thesis using h k m by (auto simp: Let_def preferred_def)
qed

theorem selection_order_independent_witness:
  "\<exists>responses. length responses = 2 \<and> fst (selectGroup (\<lambda>b. b) id responses) = fst (selectGroup (\<lambda>b. b) rev (rev responses))"
proof -
  obtain r :: MiningResponse where True by simp
  show ?thesis using selection_order_independent[of id rev "[r, r]" "rev [r, r]" "\<lambda>b. b"] by (intro exI[of _ "[r, r]"]) simp
qed

end
