(* ===== verification/DagPage.thy ===== *)
theory DagPage
  imports Page Manifest
begin

unbundle bit_operations_syntax

text \<open>
  Pages as the generator builds and checks them (\<open>cmd/unifiedDAG/main.go\<close>): the header
  writer and reader, the page hashes, the three kinds of payload (index, model shard,
  deterministic filler), \<open>buildUnifiedPage\<close> and \<open>strictValidateBuiltPage\<close>.

  A destination slice that a Go function fills is the list it holds afterwards;
  \<open>copyInto dst src\<close> is the builtin \<open>copy(dst, src)\<close>.
\<close>

section \<open>Constants and data\<close>

definition domainFileHash :: string where "domainFileHash = ''AIDG_FILE_HASH_V1''"
definition domainFillerBlock :: string where "domainFillerBlock = ''AIDG_FILLER_BLOCK_V1''"
definition domainFillerMask :: string where "domainFillerMask = ''AIDG_FILLER_MASK_V1''"
definition oneGiB :: u64 where "oneGiB = 1024 * 1024 * 1024"
definition hashSize :: nat where "hashSize = 32"

record Config =
  cfg_Mode :: string
  cfg_OutPath :: string
  cfg_DagPath :: string
  cfg_MetaPath :: string
  cfg_SidecarPath :: string
  cfg_ModelPath :: string
  cfg_ExtractTo :: string
  cfg_ProofPath :: string
  cfg_SizeGB :: u64
  cfg_PageSize :: u64
  cfg_Seed :: string
  cfg_Workers :: int
  cfg_ChunkMB :: u64
  cfg_Epoch :: u64
  cfg_Nonce :: u64
  cfg_BlockHash :: string
  cfg_Miner :: string
  cfg_Samples :: int
  cfg_TensorSamples :: int
  cfg_Target :: string
  cfg_Force :: bool
  cfg_Verify :: bool

record Job =
  job_PageIndex :: u64
  job_PageType :: u16
  job_ModelOffset :: u64
  job_ModelSize :: u64
  job_ShardID :: u64
  job_ShardCount :: u64
  job_Data :: bytes

datatype dag_error =
    DagPageTooSmall
  | DagBadMagic
  | DagBadVersion u16
  | DagBadHeaderSize u32
  | DagBadPageSize u64
  | DagBadPayloadSize u32
  | DagPageIndexMismatch u64 u64
  | DagUnknownPageType u16
  | DagBadBuffer u64
  | DagPayloadHashMismatch u64
  | DagPageCommitMismatch u64
  | DagZeroPayloadHash u64
  | DagZeroPageCommit u64
  | DagHeaderHashMismatch u64
  | DagIndexTooLarge nat
  | DagBadModelPayload nat
  | DagSlicePanic

section \<open>Hashes\<close>

definition finalizeHash :: "bytes \<Rightarrow> hash32" where
  "finalizeHash digest = copy32 digest"

definition blake3HashTagged :: "(bytes \<Rightarrow> bytes) \<Rightarrow> string \<Rightarrow> bytes \<Rightarrow> hash32" where
  "blake3HashTagged blake3 domain body = finalizeHash (blake3 (writeString domain @ body))"

definition hashBytes :: "(bytes \<Rightarrow> bytes) \<Rightarrow> bytes \<Rightarrow> hash32" where
  "hashBytes blake3 b = blake3HashTagged blake3 domainHashBytes (writeBytes b)"

definition pageCommitHash :: "(bytes \<Rightarrow> bytes) \<Rightarrow> bytes \<Rightarrow> hash32" where
  "pageCommitHash blake3 page =
     blake3HashTagged blake3 domainPageCommit
       (if length page < pageHashEnd then writeBytes page
        else writeBytes (take pageHashOffset page) @ writeFixed32 zero32 @ writeBytes (drop pageHashEnd page))"

definition dag_merkleLeafHash :: "(bytes \<Rightarrow> bytes) \<Rightarrow> string \<Rightarrow> PageHeader \<Rightarrow> hash32 \<Rightarrow> hash32 \<Rightarrow> hash32" where
  "dag_merkleLeafHash blake3 treeID hdr payloadHash pageCommit =
     blake3HashTagged blake3 domainMerkleLeaf
       (writeString treeID
        @ writeUint16 (hdr_Version hdr) @ writeUint16 (hdr_PageType hdr)
        @ writeUint32 (hdr_HeaderSize hdr) @ writeUint32 (hdr_PageSize hdr)
        @ writeUint32 (hdr_PayloadSize hdr) @ writeUint32 (hdr_Flags hdr)
        @ writeUint64 (hdr_PageIndex hdr)
        @ writeUint64 (hdr_ModelOffset hdr) @ writeUint64 (hdr_ModelSize hdr)
        @ writeUint64 (hdr_ShardID hdr) @ writeUint64 (hdr_ShardCount hdr)
        @ writeUint32 (hdr_TensorID hdr) @ writeUint32 (hdr_LayerID hdr)
        @ writeUint32 (hdr_ShardID2 hdr) @ writeUint32 (hdr_QuantID hdr)
        @ writeFixed32 payloadHash @ writeFixed32 pageCommit)"

section \<open>Headers\<close>

text \<open>\<open>writeHeader(dst, h)\<close> clears \<open>dst\<close> (160 bytes) and writes every field at its offset.\<close>

definition writeHeader :: "PageHeader \<Rightarrow> bytes" where
  "writeHeader h =
     hdr_Magic h
     @ putLE 2 (hdr_Version h) @ putLE 2 (hdr_PageType h)
     @ putLE 4 (hdr_HeaderSize h) @ putLE 4 (hdr_PageSize h)
     @ putLE 4 (hdr_PayloadSize h) @ putLE 4 (hdr_Flags h)
     @ putLE 8 (hdr_PageIndex h)
     @ putLE 8 (hdr_ModelOffset h) @ putLE 8 (hdr_ModelSize h)
     @ putLE 8 (hdr_ShardID h) @ putLE 8 (hdr_ShardCount h)
     @ putLE 4 (hdr_TensorID h) @ putLE 4 (hdr_LayerID h)
     @ putLE 4 (hdr_ShardID2 h) @ putLE 4 (hdr_QuantID h)
     @ hdr_PayloadHash h @ hdr_PageHash h @ hdr_Reserved h"

definition dag_readHeader :: "bytes \<Rightarrow> dag_error + PageHeader" where
  "dag_readHeader src =
     (if length src < unat UnifiedHeaderSize then Inl DagPageTooSmall
      else if sub src 0 4 \<noteq> bytes_of magicAIDG then Inl DagBadMagic
      else Inr \<lparr>
        hdr_Magic = sub src 0 4,
        hdr_Version = getLE (sub src 4 6),
        hdr_PageType = getLE (sub src 6 8),
        hdr_HeaderSize = getLE (sub src 8 12),
        hdr_PageSize = getLE (sub src 12 16),
        hdr_PayloadSize = getLE (sub src 16 20),
        hdr_Flags = getLE (sub src 20 24),
        hdr_PageIndex = getLE (sub src 24 32),
        hdr_ModelOffset = getLE (sub src 32 40),
        hdr_ModelSize = getLE (sub src 40 48),
        hdr_ShardID = getLE (sub src 48 56),
        hdr_ShardCount = getLE (sub src 56 64),
        hdr_TensorID = getLE (sub src 64 68),
        hdr_LayerID = getLE (sub src 68 72),
        hdr_ShardID2 = getLE (sub src 72 76),
        hdr_QuantID = getLE (sub src 76 80),
        hdr_PayloadHash = sub src 80 112,
        hdr_PageHash = sub src 112 144,
        hdr_Reserved = sub src 144 160 \<rparr>)"

definition validatePageHeader :: "PageHeader \<Rightarrow> u64 \<Rightarrow> u64 \<Rightarrow> dag_error + unit" where
  "validatePageHeader h actualPageIndex pageSize =
     (if hdr_Magic h \<noteq> bytes_of magicAIDG then Inl DagBadMagic
      else if hdr_Version h \<noteq> FormatVersion then Inl (DagBadVersion (hdr_Version h))
      else if ucast (hdr_HeaderSize h) \<noteq> UnifiedHeaderSize then Inl (DagBadHeaderSize (hdr_HeaderSize h))
      else if ucast (hdr_PageSize h) \<noteq> pageSize then Inl (DagBadPageSize pageSize)
      else if ucast (hdr_PayloadSize h) \<noteq> pageSize - UnifiedHeaderSize
        then Inl (DagBadPayloadSize (hdr_PayloadSize h))
      else if hdr_PageIndex h \<noteq> actualPageIndex
        then Inl (DagPageIndexMismatch (hdr_PageIndex h) actualPageIndex)
      else if hdr_PageType h = PageTypeIndex \<or> hdr_PageType h = PageTypeModel \<or> hdr_PageType h = PageTypeFiller
        then Inr ()
      else Inl (DagUnknownPageType (hdr_PageType h)))"

definition verifyPageBytes ::
  "(bytes \<Rightarrow> bytes) \<Rightarrow> bytes \<Rightarrow> u64 \<Rightarrow> u64 \<Rightarrow> dag_error + (PageHeader \<times> hash32 \<times> hash32)" where
  "verifyPageBytes blake3 page pageIndex pageSize =
     (if of_nat (length page) \<noteq> pageSize then Inl (DagBadBuffer pageIndex)
      else if pageSize < UnifiedHeaderSize then Inl (DagBadPageSize pageSize)
      else bindE (dag_readHeader (take (unat UnifiedHeaderSize) page)) (\<lambda>hdr.
           bindE (validatePageHeader hdr pageIndex pageSize) (\<lambda>_.
           let payloadHash = hashBytes blake3 (drop (unat UnifiedHeaderSize) page)
           in if payloadHash \<noteq> hdr_PayloadHash hdr then Inl (DagPayloadHashMismatch pageIndex)
              else let pageCommit = pageCommitHash blake3 page
                   in if pageCommit \<noteq> hdr_PageHash hdr then Inl (DagPageCommitMismatch pageIndex)
                      else Inr (hdr, payloadHash, pageCommit))))"

section \<open>Payloads\<close>

definition copyInto :: "bytes \<Rightarrow> bytes \<Rightarrow> bytes" where
  "copyInto dst src = take (length dst) src @ drop (length src) dst"

text \<open>The block loop of \<open>fillDeterministicPayload\<close>: \<open>n\<close> bytes of the destination are left.\<close>

function fillBlocks :: "(bytes \<Rightarrow> bytes) \<Rightarrow> string \<Rightarrow> u64 \<Rightarrow> u64 \<Rightarrow> nat \<Rightarrow> bytes" where
  "fillBlocks blake3 seed pageIndex counter n =
     (if n = 0 then []
      else take n (blake3HashTagged blake3 domainFillerBlock
                     (writeString seed @ writeUint64 pageIndex @ writeUint64 counter))
           @ fillBlocks blake3 seed pageIndex (counter + 1) (n - hashSize))"
  by pat_completeness auto
termination
  by (relation "measure (\<lambda>(_, _, _, _, n). n)") (auto simp: hashSize_def)

declare fillBlocks.simps [simp del]

definition fillDeterministicPayload :: "(bytes \<Rightarrow> bytes) \<Rightarrow> nat \<Rightarrow> string \<Rightarrow> u64 \<Rightarrow> bytes" where
  "fillDeterministicPayload blake3 len seed pageIndex =
     (let dst = fillBlocks blake3 seed pageIndex 0 len;
          mask = blake3HashTagged blake3 domainFillerMask (writeBytes dst)
      in map (\<lambda>i. dst ! i XOR mask ! (i mod hashSize)) [0..<len])"

definition buildIndexPayload :: "Manifest \<Rightarrow> nat \<Rightarrow> dag_error + bytes" where
  "buildIndexPayload manifest maxLen =
     (let b = json_marshal (manifest_json (canonicalManifestForIndex manifest))
      in if length b > maxLen then Inl (DagIndexTooLarge (length b))
         else Inr (copyInto (replicate maxLen 0) b))"

section \<open>Building a page\<close>

definition strictValidateBuiltPage :: "(bytes \<Rightarrow> bytes) \<Rightarrow> bytes \<Rightarrow> u64 \<Rightarrow> u64 \<Rightarrow> dag_error + unit" where
  "strictValidateBuiltPage blake3 page pageIndex pageSize =
     bindE (verifyPageBytes blake3 page pageIndex pageSize) (\<lambda>(hdr, payloadHash, pageCommit).
       if isZeroHash payloadHash then Inl (DagZeroPayloadHash pageIndex)
       else if isZeroHash pageCommit then Inl (DagZeroPageCommit pageIndex)
       else if hdr_PayloadHash hdr \<noteq> payloadHash then Inl (DagHeaderHashMismatch pageIndex)
       else if hdr_PageHash hdr \<noteq> pageCommit then Inl (DagHeaderHashMismatch pageIndex)
       else Inr ())"

text \<open>The \<open>switch job.PageType\<close>: what is copied into the (zeroed) payload area.\<close>

definition buildPayload :: "(bytes \<Rightarrow> bytes) \<Rightarrow> Config \<Rightarrow> Manifest \<Rightarrow> Job \<Rightarrow> nat \<Rightarrow> dag_error + bytes" where
  "buildPayload blake3 cfg manifest job len =
     (if job_PageType job = PageTypeIndex then
        bindE (buildIndexPayload manifest len) (\<lambda>b. Inr (copyInto (replicate len 0) b))
      else if job_PageType job = PageTypeModel then
        (if of_nat (length (job_Data job)) \<noteq> man_PayloadSize manifest
         then Inl (DagBadModelPayload (length (job_Data job)))
         else Inr (copyInto (replicate len 0) (job_Data job)))
      else if job_PageType job = PageTypeFiller then
        Inr (fillDeterministicPayload blake3 len (cfg_Seed cfg) (job_PageIndex job))
      else Inl (DagUnknownPageType (job_PageType job)))"

text \<open>The header before its \<open>PageHash\<close> is known.\<close>

definition unifiedHeader :: "(bytes \<Rightarrow> bytes) \<Rightarrow> Config \<Rightarrow> Job \<Rightarrow> bytes \<Rightarrow> PageHeader" where
  "unifiedHeader blake3 cfg job payload = \<lparr>
     hdr_Magic = bytes_of magicAIDG, hdr_Version = FormatVersion,
     hdr_PageType = job_PageType job, hdr_HeaderSize = ucast UnifiedHeaderSize,
     hdr_PageSize = ucast (cfg_PageSize cfg), hdr_PayloadSize = of_nat (length payload),
     hdr_Flags = 0, hdr_PageIndex = job_PageIndex job,
     hdr_ModelOffset = job_ModelOffset job, hdr_ModelSize = job_ModelSize job,
     hdr_ShardID = job_ShardID job, hdr_ShardCount = job_ShardCount job,
     hdr_TensorID = 0, hdr_LayerID = 0, hdr_ShardID2 = 0, hdr_QuantID = 0,
     hdr_PayloadHash = hashBytes blake3 payload, hdr_PageHash = zero32,
     hdr_Reserved = replicate 16 0 \<rparr>"

definition buildUnifiedPage :: "(bytes \<Rightarrow> bytes) \<Rightarrow> Config \<Rightarrow> Manifest \<Rightarrow> Job \<Rightarrow> dag_error + bytes" where
  "buildUnifiedPage blake3 cfg manifest job =
     (if cfg_PageSize cfg < UnifiedHeaderSize then Inl DagSlicePanic
      else
        let len = unat (cfg_PageSize cfg) - unat UnifiedHeaderSize
        in bindE (buildPayload blake3 cfg manifest job len) (\<lambda>payload.
           let header = unifiedHeader blake3 cfg job payload;
               pageCommit = pageCommitHash blake3 (writeHeader header @ payload);
               page = writeHeader (header\<lparr>hdr_PageHash := pageCommit\<rparr>) @ payload
           in bindE (strictValidateBuiltPage blake3 page (job_PageIndex job) (cfg_PageSize cfg)) (\<lambda>_.
              Inr page)))"

section \<open>Header round trip\<close>

lemma sub_append_ge: "length xs \<le> a \<Longrightarrow> a \<le> b \<Longrightarrow> sub (xs @ ys) a b = sub ys (a - length xs) (b - length xs)"
  by (simp add: sub_def)

lemma sub_append_le: "b \<le> length xs \<Longrightarrow> sub (xs @ ys) a b = sub xs a b"
  by (simp add: sub_def)

lemma sub_all: "length xs = n \<Longrightarrow> sub xs 0 n = xs"
  by (simp add: sub_def)

lemma sub_prefix: "length xs = n \<Longrightarrow> sub (xs @ ys) 0 n = xs"
  by (simp add: sub_def)

lemma length_writeHeader: "wf_header h \<Longrightarrow> length (writeHeader h) = 160"
  by (simp add: writeHeader_def wf_header_def)

lemma getLE_putLE_word [simp]:
  "getLE (putLE 2 (a :: u16)) = a" "getLE (putLE 4 (b :: u32)) = b" "getLE (putLE 8 (c :: u64)) = c"
  by simp_all

lemma header_roundtrip_fields:
  assumes "wf_header h" "hdr_Magic h = bytes_of magicAIDG"
  shows "dag_readHeader (writeHeader h) = Inr h"
proof -
  have len: "length (hdr_Magic h) = 4" "length (hdr_PayloadHash h) = 32" "length (hdr_PageHash h) = 32"
    "length (hdr_Reserved h) = 16" using assms by (simp_all add: wf_header_def)
  show ?thesis
    using assms(2) length_writeHeader[OF assms(1)] unfolding dag_readHeader_def
    by (simp add: writeHeader_def sub_append_ge sub_append_le sub_prefix sub_all len)
qed

section \<open>Agreement with the verifier\<close>

lemma blake3HashTagged_eq [simp]: "blake3HashTagged blake3 d b = taggedHash blake3 d b"
  by (simp add: blake3HashTagged_def finalizeHash_def taggedHash_def)

lemma dag_merkleLeafHash_eq: "dag_merkleLeafHash = merkleLeafHash"
  by (simp add: fun_eq_iff dag_merkleLeafHash_def merkleLeafHash_def)

lemma dag_readHeader_eq: "dag_readHeader src = Inr h \<longleftrightarrow> readHeader src = Inr h"
  by (simp add: dag_readHeader_def readHeader_def)

lemma validatePageHeader_eq:
  "hdr_Magic h = bytes_of magicAIDG \<Longrightarrow> validatePageHeader h i sz = Inr () \<longleftrightarrow> validateHeader h i sz = Inr ()"
  by (simp add: validatePageHeader_def validateHeader_def)

lemma verifyPageBytes_eq: "verifyPageBytes blake3 page i sz = Inr r \<longleftrightarrow> verifyPage blake3 page i sz = Inr r"
proof -
  have commit: "pageCommitHash blake3 page = taggedHash blake3 domainPageCommit
      (writeBytes (take pageHashOffset page) @ writeFixed32 zero32 @ writeBytes (drop pageHashEnd page))"
    if "of_nat (length page) = sz" "160 \<le> sz"
  proof -
    have "unat sz \<le> length page" using that(1) by (metis unat_of_nat mod_less_eq_dividend)
    moreover have "160 \<le> unat sz" using that(2) by (simp add: word_le_nat_alt)
    ultimately show ?thesis by (simp add: pageCommitHash_def pageHashEnd_def)
  qed
  show ?thesis
  proof (cases "readHeader (take 160 page)")
    case (Inl e)
    then show ?thesis by (auto simp: verifyPageBytes_def verifyPage_def dag_readHeader_eq)
  next
    case (Inr h)
    then have dag: "dag_readHeader (take 160 page) = Inr h" by (simp add: dag_readHeader_eq)
    note v = validatePageHeader_eq[OF readHeader_magic[OF Inr], of i sz]
    show ?thesis
      by (cases "160 \<le> sz \<and> of_nat (length page) = sz")
        (auto simp: verifyPageBytes_def verifyPage_def Inr dag v hashBytes_def UnifiedHeaderSize_def not_less commit Let_def)
  qed
qed

section \<open>Built pages\<close>

definition headerPrefix :: "PageHeader \<Rightarrow> bytes" where
  "headerPrefix h = hdr_Magic h
     @ putLE 2 (hdr_Version h) @ putLE 2 (hdr_PageType h)
     @ putLE 4 (hdr_HeaderSize h) @ putLE 4 (hdr_PageSize h)
     @ putLE 4 (hdr_PayloadSize h) @ putLE 4 (hdr_Flags h)
     @ putLE 8 (hdr_PageIndex h)
     @ putLE 8 (hdr_ModelOffset h) @ putLE 8 (hdr_ModelSize h)
     @ putLE 8 (hdr_ShardID h) @ putLE 8 (hdr_ShardCount h)
     @ putLE 4 (hdr_TensorID h) @ putLE 4 (hdr_LayerID h)
     @ putLE 4 (hdr_ShardID2 h) @ putLE 4 (hdr_QuantID h) @ hdr_PayloadHash h"

lemma writeHeader_prefix: "writeHeader h = headerPrefix h @ hdr_PageHash h @ hdr_Reserved h"
  by (simp add: writeHeader_def headerPrefix_def)

lemma length_headerPrefix: "wf_header h \<Longrightarrow> length (headerPrefix h) = 112"
  by (simp add: headerPrefix_def wf_header_def)

text \<open>The commitment does not look at the \<open>PageHash\<close> bytes.\<close>

lemma pageCommitHash_PageHash:
  assumes "wf_header h" "length c = 32"
  shows "pageCommitHash blake3 (writeHeader (h\<lparr>hdr_PageHash := c\<rparr>) @ payload) =
    pageCommitHash blake3 (writeHeader h @ payload)"
proof -
  have h: "length (headerPrefix h) = 112" "length (hdr_PageHash h) = 32"
    using length_headerPrefix[OF assms(1)] assms(1) by (simp_all add: wf_header_def)
  have "headerPrefix (h\<lparr>hdr_PageHash := c\<rparr>) = headerPrefix h" by (simp add: headerPrefix_def)
  then show ?thesis using h assms(2)
    by (simp add: pageCommitHash_def writeHeader_prefix pageHashOffset_def pageHashEnd_def)
qed

lemma length_copyInto [simp]: "length (copyInto dst src) = length dst"
  by (simp add: copyInto_def)

lemma copyInto_full [simp]: "length src = length dst \<Longrightarrow> copyInto dst src = src"
  by (simp add: copyInto_def)

lemma length_buildPayload: "buildPayload blake3 cfg m job len = Inr payload \<Longrightarrow> length payload = len"
  by (auto simp: buildPayload_def buildIndexPayload_def fillDeterministicPayload_def Let_def split: if_splits)

lemma length_hashes [simp]:
  "length (hashBytes blake3 b) = 32" "length (pageCommitHash blake3 p) = 32"
  by (simp_all add: hashBytes_def pageCommitHash_def)

lemma wf_unifiedHeader [simp]: "wf_header (unifiedHeader blake3 cfg job payload)"
  by (simp add: wf_header_def unifiedHeader_def magicAIDG_def)

definition finalHeader :: "(bytes \<Rightarrow> bytes) \<Rightarrow> Config \<Rightarrow> Job \<Rightarrow> bytes \<Rightarrow> PageHeader" where
  "finalHeader blake3 cfg job payload =
     (let h = unifiedHeader blake3 cfg job payload
      in h\<lparr>hdr_PageHash := pageCommitHash blake3 (writeHeader h @ payload)\<rparr>)"

definition finalPage :: "(bytes \<Rightarrow> bytes) \<Rightarrow> Config \<Rightarrow> Job \<Rightarrow> bytes \<Rightarrow> bytes" where
  "finalPage blake3 cfg job payload = writeHeader (finalHeader blake3 cfg job payload) @ payload"

lemma wf_finalHeader [simp]: "wf_header (finalHeader blake3 cfg job payload)"
  using wf_unifiedHeader[of blake3 cfg job payload] by (simp add: finalHeader_def wf_header_def Let_def)

lemma length_finalPage [simp]: "length (finalPage blake3 cfg job payload) = 160 + length payload"
  by (simp add: finalPage_def length_writeHeader)

lemma drop_finalPage [simp]: "drop 160 (finalPage blake3 cfg job payload) = payload"
  by (simp add: finalPage_def length_writeHeader)

lemma take_finalPage: "take 160 (finalPage blake3 cfg job payload) = writeHeader (finalHeader blake3 cfg job payload)"
  by (simp add: finalPage_def length_writeHeader)

lemma pageCommit_finalPage:
  "pageCommitHash blake3 (finalPage blake3 cfg job payload) = hdr_PageHash (finalHeader blake3 cfg job payload)"
  by (simp add: finalPage_def finalHeader_def Let_def pageCommitHash_PageHash)

text \<open>What the generator writes passes its own page check, for every job type.\<close>

lemma verifyPageBytes_finalPage:
  assumes "160 \<le> cfg_PageSize cfg" "cfg_PageSize cfg < 2 ^ 32"
    "length payload = unat (cfg_PageSize cfg) - 160"
    "job_PageType job \<in> {PageTypeIndex, PageTypeModel, PageTypeFiller}"
  shows "verifyPageBytes blake3 (finalPage blake3 cfg job payload) (job_PageIndex job) (cfg_PageSize cfg) =
    Inr (finalHeader blake3 cfg job payload, hashBytes blake3 payload,
         hdr_PageHash (finalHeader blake3 cfg job payload))"
proof -
  let ?h = "finalHeader blake3 cfg job payload"
  have sz: "160 \<le> unat (cfg_PageSize cfg)" "unat (cfg_PageSize cfg) < 2 ^ 32"
    using assms(1,2) by (simp_all add: word_le_nat_alt word_less_nat_alt)
  have len: "of_nat (length (finalPage blake3 cfg job payload)) = cfg_PageSize cfg"
    using assms(3) sz by (simp add: of_nat_diff)
  have magic: "hdr_Magic ?h = bytes_of magicAIDG" by (simp add: finalHeader_def unifiedHeader_def Let_def)
  have rd: "dag_readHeader (writeHeader ?h) = Inr ?h" by (rule header_roundtrip_fields) (simp_all add: magic)
  have psz: "(ucast (hdr_PageSize ?h) :: u64) = cfg_PageSize cfg"
    using sz by (simp add: finalHeader_def unifiedHeader_def Let_def word_unat_eq_iff unsigned_ucast_eq unsigned_take_bit_eq take_bit_nat_eq_self)
  define k where "k = length payload"
  have k: "k < 2 ^ 32" "k = unat (cfg_PageSize cfg - UnifiedHeaderSize)"
    using sz assms(1,3) by (simp_all add: k_def UnifiedHeaderSize_def unat_sub)
  have "unat (of_nat k :: u32) = k" using k(1) by (simp add: unat_of_nat)
  then have pl: "(ucast (hdr_PayloadSize ?h) :: u64) = cfg_PageSize cfg - UnifiedHeaderSize"
    using k by (simp add: finalHeader_def unifiedHeader_def Let_def word_unat_eq_iff unsigned_ucast_eq
        unsigned_take_bit_eq take_bit_nat_eq_self flip: k_def)
  have "validatePageHeader ?h (job_PageIndex job) (cfg_PageSize cfg) = Inr ()"
    using magic psz pl assms(4)
    by (auto simp: validatePageHeader_def finalHeader_def unifiedHeader_def Let_def UnifiedHeaderSize_def)
  moreover have "hdr_PayloadHash ?h = hashBytes blake3 payload" by (simp add: finalHeader_def unifiedHeader_def Let_def)
  ultimately show ?thesis
    using len rd assms(1) by (simp add: verifyPageBytes_def take_finalPage pageCommit_finalPage UnifiedHeaderSize_def not_less Let_def)
qed

lemma buildPayload_type:
  "buildPayload blake3 cfg m job len = Inr payload \<Longrightarrow> job_PageType job \<in> {PageTypeIndex, PageTypeModel, PageTypeFiller}"
  by (auto simp: buildPayload_def split: if_splits)

lemma buildUnifiedPage_ok:
  assumes "160 \<le> cfg_PageSize cfg" "cfg_PageSize cfg < 2 ^ 32"
    "buildPayload blake3 cfg m job (unat (cfg_PageSize cfg) - 160) = Inr payload"
  shows "buildUnifiedPage blake3 cfg m job =
    (if hashBytes blake3 payload = zero32 then Inl (DagZeroPayloadHash (job_PageIndex job))
     else if hdr_PageHash (finalHeader blake3 cfg job payload) = zero32 then Inl (DagZeroPageCommit (job_PageIndex job))
     else Inr (finalPage blake3 cfg job payload))"
proof -
  note v = verifyPageBytes_finalPage[OF assms(1,2) length_buildPayload[OF assms(3)] buildPayload_type[OF assms(3)],
      of blake3]
  have ph: "hdr_PayloadHash (finalHeader blake3 cfg job payload) = hashBytes blake3 payload"
    by (simp add: finalHeader_def unifiedHeader_def Let_def)
  have page: "writeHeader ((unifiedHeader blake3 cfg job payload)\<lparr>hdr_PageHash :=
      pageCommitHash blake3 (writeHeader (unifiedHeader blake3 cfg job payload) @ payload)\<rparr>) @ payload
      = finalPage blake3 cfg job payload"
    by (simp add: finalPage_def finalHeader_def Let_def)
  have "\<not> cfg_PageSize cfg < 160" using assms(1) by (simp add: not_less)
  then show ?thesis
    using assms(3) v ph
    by (simp add: buildUnifiedPage_def Let_def page strictValidateBuiltPage_def isZeroHash_def
        UnifiedHeaderSize_def)
qed

section \<open>Properties\<close>

definition sampleConfig :: Config where
  "sampleConfig = \<lparr>cfg_Mode = ''gen'', cfg_OutPath = ''o'', cfg_DagPath = [], cfg_MetaPath = [], cfg_SidecarPath = [],
     cfg_ModelPath = ''m'', cfg_ExtractTo = [], cfg_ProofPath = [], cfg_SizeGB = 1, cfg_PageSize = 164, cfg_Seed = ''seed'',
     cfg_Workers = 1, cfg_ChunkMB = 64, cfg_Epoch = 0, cfg_Nonce = 0, cfg_BlockHash = [], cfg_Miner = [],
     cfg_Samples = 1, cfg_TensorSamples = 1, cfg_Target = [], cfg_Force = False, cfg_Verify = False\<rparr>"

definition sampleJob :: Job where
  "sampleJob = \<lparr>job_PageIndex = 1, job_PageType = PageTypeModel, job_ModelOffset = 0, job_ModelSize = 4,
     job_ShardID = 0, job_ShardCount = 1, job_Data = [1, 2, 3, 4]\<rparr>"

text \<open>
  Reading back a written page header gives the header, for the generator's reader and for
  the verifier's: every field has its own bytes in the 160-byte layout.
\<close>

theorem header_roundtrip:
  assumes "wf_header h" "hdr_Magic h = bytes_of magicAIDG"
  shows "length (writeHeader h) = 160 \<and> dag_readHeader (writeHeader h) = Inr h
    \<and> readHeader (writeHeader h) = Inr h"
  using header_roundtrip_fields[OF assms] length_writeHeader[OF assms(1)] dag_readHeader_eq by blast

theorem header_roundtrip_witness:
  "length (writeHeader (unifiedHeader (\<lambda>b. b) sampleConfig sampleJob [1, 2, 3])) = 160
   \<and> dag_readHeader (writeHeader (unifiedHeader (\<lambda>b. b) sampleConfig sampleJob [1, 2, 3])) =
      Inr (unifiedHeader (\<lambda>b. b) sampleConfig sampleJob [1, 2, 3])"
proof -
  have "hdr_Magic (unifiedHeader (\<lambda>b. b) sampleConfig sampleJob [1, 2, 3]) = bytes_of magicAIDG"
    by (simp add: unifiedHeader_def)
  from header_roundtrip[OF wf_unifiedHeader this] show ?thesis by blast
qed

text \<open>
  The generator's page check and the verifier's accept the same pages and return the same
  header and hashes.
\<close>

theorem page_checks_agree:
  "verifyPageBytes blake3 page i sz = Inr r \<longleftrightarrow> verifyPage blake3 page i sz = Inr r"
  by (rule verifyPageBytes_eq)

text \<open>
  A page whose payload can be built is built, unless one of its two hashes is the zero hash,
  and the verifier accepts it at its index: it reads back the job's type and shard coordinates,
  and the payload is unchanged.
\<close>

theorem built_page_accepted:
  assumes "160 \<le> cfg_PageSize cfg" "cfg_PageSize cfg < 2 ^ 32"
    "buildPayload blake3 cfg m job (unat (cfg_PageSize cfg) - 160) = Inr payload"
    "hashBytes blake3 payload \<noteq> zero32" "hdr_PageHash (finalHeader blake3 cfg job payload) \<noteq> zero32"
  shows "\<exists>page h. buildUnifiedPage blake3 cfg m job = Inr page
    \<and> verifyPage blake3 page (job_PageIndex job) (cfg_PageSize cfg) = Inr (h, hashBytes blake3 payload, hdr_PageHash h)
    \<and> drop 160 page = payload
    \<and> hdr_PageType h = job_PageType job \<and> hdr_ShardID h = job_ShardID job
    \<and> hdr_ModelOffset h = job_ModelOffset job \<and> hdr_ModelSize h = job_ModelSize job
    \<and> hdr_ShardCount h = job_ShardCount job"
proof -
  note v = verifyPageBytes_finalPage[OF assms(1,2) length_buildPayload[OF assms(3)] buildPayload_type[OF assms(3)],
      of blake3]
  have "buildUnifiedPage blake3 cfg m job = Inr (finalPage blake3 cfg job payload)"
    using buildUnifiedPage_ok[OF assms(1-3)] assms(4,5) by simp
  moreover have "verifyPage blake3 (finalPage blake3 cfg job payload) (job_PageIndex job) (cfg_PageSize cfg) =
      Inr (finalHeader blake3 cfg job payload, hashBytes blake3 payload, hdr_PageHash (finalHeader blake3 cfg job payload))"
    using v verifyPageBytes_eq by blast
  ultimately show ?thesis
    by (intro exI[of _ "finalPage blake3 cfg job payload"] exI[of _ "finalHeader blake3 cfg job payload"])
      (simp add: finalHeader_def unifiedHeader_def Let_def)
qed

theorem built_page_accepted_witness:
  "\<exists>page h. buildUnifiedPage (\<lambda>_. replicate 32 1) sampleConfig sampleManifest sampleJob = Inr page
    \<and> verifyPage (\<lambda>_. replicate 32 1) page 1 164 = Inr (h, hashBytes (\<lambda>_. replicate 32 1) [1, 2, 3, 4], hdr_PageHash h)
    \<and> drop 160 page = [1, 2, 3, 4]"
proof -
  have p: "buildPayload (\<lambda>_. replicate 32 1) sampleConfig sampleManifest sampleJob
      (unat (cfg_PageSize sampleConfig) - 160) = Inr [1, 2, 3, 4]"
    by (simp add: buildPayload_def sampleConfig_def sampleJob_def sampleManifest_def PageTypeIndex_def
        PageTypeModel_def copyInto_def)
  have nz: "hashBytes (\<lambda>_. replicate 32 1) [1, 2, 3, 4] \<noteq> zero32"
    "hdr_PageHash (finalHeader (\<lambda>_. replicate 32 1) sampleConfig sampleJob [1, 2, 3, 4]) \<noteq> zero32"
    using replicate_1_not_zero by (simp_all add: hashBytes_def finalHeader_def pageCommitHash_def taggedHash_def Let_def)
  have "160 \<le> cfg_PageSize sampleConfig" "cfg_PageSize sampleConfig < 2 ^ 32" by (simp_all add: sampleConfig_def)
  from built_page_accepted[OF this p nz] show ?thesis by (auto simp: sampleJob_def sampleConfig_def)
qed

end
