(* ===== verification/DagGen.thy ===== *)
theory DagGen
  imports DagPage
begin

unbundle bit_operations_syntax

text \<open>
  Generating, checking and reading back a DAG file (\<open>cmd/unifiedDAG/main.go\<close>): the layout that
  \<open>runGenerate\<close> computes, the jobs of the producer, the loop that collects the workers'
  results in the order they arrive, the root computation over a file and \<open>extractModel\<close>.

  A file is the list of its bytes. Errors of the operating system (open, read, write, sync,
  rename) are not modelled; short files are. The worker pool delivers the results in an
  arbitrary order: the collecting loop takes the list of results as its argument and the
  theorems quantify over all orders.
\<close>

datatype gen_error =
    MissingOut
  | MissingModel
  | PageSizeTooSmall
  | PageSizeNotMultiple
  | ZeroSize
  | SizeNotDivisible
  | ModelNotFound
  | TooManyPages
  | ModelDoesNotFit
  | ShortModelRead
  | PageError dag_error
  | OutOfRangePage u64
  | DuplicatePage u64
  | MissingPages u64
  | ByteCountMismatch
  | NotPageAligned
  | LeafCountZero
  | RootZero
  | RootIsEmptyHash
  | RootsLeafCountMismatch
  | NoModel
  | BadHeaderSize
  | UnexpectedEOF
  | NotModelPage u64
  | ExtractSizeMismatch
  | ExtractHashMismatch
  | AccumulatorPanic

section \<open>Layout\<close>

definition roundUp :: "u64 \<Rightarrow> u64 \<Rightarrow> u64" where
  "roundUp v align =
     (if align = 0 then v
      else if v mod align = 0 then v
      else v + align - (v mod align))"

definition maxInt :: u64 where "maxInt = 0x7FFFFFFFFFFFFFFF"

definition hashFile :: "(bytes \<Rightarrow> bytes) \<Rightarrow> bytes \<Rightarrow> hash32 \<times> u64" where
  "hashFile blake3 file = (finalizeHash (blake3 (writeString domainFileHash @ file)), of_nat (length file))"

text \<open>\<open>validateGenerateConfig\<close>; the number of CPUs and whether the model exists are inputs.\<close>

definition validateGenerateConfig :: "int \<Rightarrow> bool \<Rightarrow> Config \<Rightarrow> gen_error + Config" where
  "validateGenerateConfig numCPU modelExists cfg =
     (if cfg_OutPath cfg = [] then Inl MissingOut
      else if cfg_ModelPath cfg = [] then Inl MissingModel
      else if cfg_PageSize cfg < 1024 then Inl PageSizeTooSmall
      else if cfg_PageSize cfg mod 64 \<noteq> 0 then Inl PageSizeNotMultiple
      else if cfg_PageSize cfg \<le> UnifiedHeaderSize then Inl PageSizeTooSmall
      else if cfg_SizeGB cfg = 0 then Inl ZeroSize
      else if (cfg_SizeGB cfg * oneGiB) mod cfg_PageSize cfg \<noteq> 0 then Inl SizeNotDivisible
      else
        let cfg = (if cfg_Workers cfg \<le> 0 then cfg\<lparr>cfg_Workers := numCPU\<rparr> else cfg);
            cfg = (if cfg_ChunkMB cfg = 0 then cfg\<lparr>cfg_ChunkMB := 64\<rparr> else cfg)
        in if \<not> modelExists then Inl ModelNotFound else Inr cfg)"

text \<open>The part of \<open>runGenerate\<close> that computes the initial manifest.\<close>

definition layoutManifest :: "Config \<Rightarrow> hash32 \<Rightarrow> u64 \<Rightarrow> gen_error + Manifest" where
  "layoutManifest cfg modelHash modelSize =
     (let totalBytes = cfg_SizeGB cfg * oneGiB;
          totalPages = totalBytes div cfg_PageSize cfg;
          payloadSize = cfg_PageSize cfg - UnifiedHeaderSize;
          modelPageCount = roundUp modelSize payloadSize div payloadSize;
          modelStartPage = 1;
          modelEndPage = modelStartPage + modelPageCount
      in if totalPages > maxInt then Inl TooManyPages
         else if modelEndPage > totalPages then Inl ModelDoesNotFit
         else Inr \<lparr>
           man_Version = ManifestVersion,
           man_Name = ''ColossusX Unified PoW+AI-DAG v1'',
           man_HashAlgorithm = HashAlgorithm,
           man_MerkleVersion = MerkleVersion,
           man_PageCommit = ''BLAKE3-256(page with PageHash bytes 112..144 zeroed)'',
           man_PageSize = cfg_PageSize cfg,
           man_HeaderSize = UnifiedHeaderSize,
           man_PayloadSize = payloadSize,
           man_SizeGB = cfg_SizeGB cfg,
           man_TotalBytes = totalBytes,
           man_TotalPages = totalPages,
           man_Seed = cfg_Seed cfg,
           man_AIDagRoot = [], man_TensorRoot = [], man_PoWCommitRoot = [], man_ManifestRoot = [],
           man_GenerationTime = [],
           man_AIDagLeafCount = totalPages,
           man_TensorLeafCount = modelPageCount,
           man_PoWCommitLeafCount = totalPages,
           man_MerkleSidecar = cfg_SidecarPath cfg,
           man_SidecarVersion = 1,
           man_ModelName = [], man_ModelFormat = [],
           man_ModelSize = modelSize,
           man_ModelHash = ''0x'' @ hexEncode modelHash,
           man_ModelStartPage = modelStartPage,
           man_ModelPageCount = modelPageCount,
           man_ModelEndPage = modelEndPage,
           man_IndexPage = 0,
           man_FillerStart = modelEndPage,
           man_FillerEnd = totalPages,
           man_UnifiedLayout = [] \<rparr>)"

section \<open>Jobs\<close>

text \<open>
  \<open>enqueueModelJobs\<close>: the file position is the number of bytes read so far. With a zero
  payload size the Go loop never ends; that is the value \<^const>\<open>None\<close>.
\<close>

partial_function (option) enqueueModelJobs ::
  "bytes \<Rightarrow> Manifest \<Rightarrow> u64 \<Rightarrow> u64 \<Rightarrow> (gen_error + Job list) option" where
  "enqueueModelJobs model manifest modelOffset shardID =
     (if modelOffset < man_ModelSize manifest then
        let payloadSize = man_PayloadSize manifest;
            remaining = man_ModelSize manifest - modelOffset;
            readSize = (if remaining < payloadSize then remaining else payloadSize);
            got = take (unat readSize) (drop (unat modelOffset) model)
        in if length got \<noteq> unat readSize then Some (Inl ShortModelRead)
           else
             let job = \<lparr>
                   job_PageIndex = man_ModelStartPage manifest + shardID,
                   job_PageType = PageTypeModel,
                   job_ModelOffset = modelOffset,
                   job_ModelSize = readSize,
                   job_ShardID = shardID,
                   job_ShardCount = man_ModelPageCount manifest,
                   job_Data = copyInto (replicate (unat payloadSize) 0) got \<rparr>
             in Option.bind (enqueueModelJobs model manifest (modelOffset + readSize) (shardID + 1))
                  (\<lambda>r. Some (bindE r (\<lambda>jobs. Inr (job # jobs))))
      else Some (Inr []))"

definition indexJob :: Job where
  "indexJob = \<lparr>job_PageIndex = 0, job_PageType = PageTypeIndex, job_ModelOffset = 0, job_ModelSize = 0,
     job_ShardID = 0, job_ShardCount = 0, job_Data = []\<rparr>"

definition fillerJob :: "u64 \<Rightarrow> Job" where
  "fillerJob p = \<lparr>job_PageIndex = p, job_PageType = PageTypeFiller, job_ModelOffset = 0, job_ModelSize = 0,
     job_ShardID = 0, job_ShardCount = 0, job_Data = []\<rparr>"

text \<open>\<open>for p := FillerStart; p < FillerEnd; p++\<close>\<close>

function fillerJobs :: "u64 \<Rightarrow> u64 \<Rightarrow> Job list" where
  "fillerJobs p fillerEnd = (if p < fillerEnd then fillerJob p # fillerJobs (p + 1) fillerEnd else [])"
  by pat_completeness auto
termination
  by (relation "measure (\<lambda>(p, e). unat e - unat p)") (auto simp: unat_suc_less)

declare fillerJobs.simps [simp del]

definition producerJobs :: "bytes \<Rightarrow> Manifest \<Rightarrow> (gen_error + Job list) option" where
  "producerJobs model manifest =
     map_option (\<lambda>r. bindE r (\<lambda>modelJobs.
         Inr (indexJob # modelJobs @ fillerJobs (man_FillerStart manifest) (man_FillerEnd manifest))))
       (enqueueModelJobs model manifest 0 0)"

section \<open>Collecting the results\<close>

record Result =
  res_PageIndex :: u64
  res_Data :: "dag_error + bytes"

definition pageWorker :: "(bytes \<Rightarrow> bytes) \<Rightarrow> Config \<Rightarrow> Manifest \<Rightarrow> Job \<Rightarrow> Result" where
  "pageWorker blake3 cfg manifest job =
     \<lparr>res_PageIndex = job_PageIndex job, res_Data = buildUnifiedPage blake3 cfg manifest job\<rparr>"

record GenState =
  gs_file :: bytes
  gs_seenPages :: "bool list"
  gs_written :: u64
  gs_writtenPages :: u64
  gs_firstErr :: "gen_error option"

definition writeAt :: "bytes \<Rightarrow> nat \<Rightarrow> bytes \<Rightarrow> bytes" where
  "writeAt file off data = take off file @ data @ drop (off + length data) file"

definition noteErr :: "gen_error \<Rightarrow> GenState \<Rightarrow> GenState" where
  "noteErr e st = (if gs_firstErr st = None then st\<lparr>gs_firstErr := Some e\<rparr> else st)"

definition collectResult :: "(bytes \<Rightarrow> bytes) \<Rightarrow> Config \<Rightarrow> u64 \<Rightarrow> GenState \<Rightarrow> Result \<Rightarrow> GenState" where
  "collectResult blake3 cfg totalPages st res =
     (case res_Data res of
        Inl e \<Rightarrow> noteErr (PageError e) st
      | Inr data \<Rightarrow>
          if res_PageIndex res \<ge> totalPages then noteErr (OutOfRangePage (res_PageIndex res)) st
          else if gs_seenPages st ! unat (res_PageIndex res) then noteErr (DuplicatePage (res_PageIndex res)) st
          else case strictValidateBuiltPage blake3 data (res_PageIndex res) (cfg_PageSize cfg) of
                 Inl e \<Rightarrow> noteErr (PageError e) st
               | Inr _ \<Rightarrow>
                   st\<lparr>gs_file := writeAt (gs_file st) (unat (res_PageIndex res * cfg_PageSize cfg)) data,
                      gs_seenPages := (gs_seenPages st)[unat (res_PageIndex res) := True],
                      gs_written := gs_written st + cfg_PageSize cfg,
                      gs_writtenPages := gs_writtenPages st + 1\<rparr>)"

fun firstMissing :: "bool list \<Rightarrow> u64 \<Rightarrow> u64" where
  "firstMissing [] i = - 1"
| "firstMissing (s # seen) i = (if \<not> s then i else firstMissing seen (i + 1))"

definition firstMissingPage :: "bool list \<Rightarrow> u64" where
  "firstMissingPage seen = firstMissing seen 0"

definition collectResults ::
  "(bytes \<Rightarrow> bytes) \<Rightarrow> Config \<Rightarrow> Manifest \<Rightarrow> Result list \<Rightarrow> gen_error + bytes" where
  "collectResults blake3 cfg manifest results =
     (let totalBytes = man_TotalBytes manifest;
          totalPages = man_TotalPages manifest;
          st = foldl (collectResult blake3 cfg totalPages)
                 \<lparr>gs_file = replicate (unat totalBytes) 0, gs_seenPages = replicate (unat totalPages) False,
                  gs_written = 0, gs_writtenPages = 0, gs_firstErr = None\<rparr> results
      in case gs_firstErr st of
           Some e \<Rightarrow> Inl e
         | None \<Rightarrow>
             if gs_writtenPages st \<noteq> totalPages then Inl (MissingPages (firstMissingPage (gs_seenPages st)))
             else if gs_written st \<noteq> totalBytes then Inl ByteCountMismatch
             else Inr (gs_file st))"

section \<open>Roots of a file\<close>

record Roots =
  rt_AIDagRoot :: hash32
  rt_TensorRoot :: hash32
  rt_PoWCommitRoot :: hash32
  rt_AIDagLeafCount :: u64
  rt_TensorLeafCount :: u64
  rt_PoWCommitLeafCount :: u64

definition addOr :: "(bytes \<Rightarrow> bytes) \<Rightarrow> MerkleAccumulator \<Rightarrow> hash32 \<Rightarrow> gen_error + MerkleAccumulator" where
  "addOr blake3 m leaf = ofOption AccumulatorPanic (AddLeaf blake3 m leaf)"

text \<open>One round of the loop: \<open>io.ReadFull\<close>, the page check, and the leaves of the three trees.\<close>

definition addPage ::
  "(bytes \<Rightarrow> bytes) \<Rightarrow> u64 \<Rightarrow> u64 \<Rightarrow> bytes \<Rightarrow> MerkleAccumulator \<times> MerkleAccumulator \<times> MerkleAccumulator
     \<Rightarrow> gen_error + (MerkleAccumulator \<times> MerkleAccumulator \<times> MerkleAccumulator)" where
  "addPage blake3 pageSize pageIndex page accs = (case accs of (aidag, tensor, powc) \<Rightarrow>
     bindE (mapErr PageError (verifyPageBytes blake3 page pageIndex pageSize)) (\<lambda>(hdr, payloadHash, pageCommit).
     bindE (addOr blake3 aidag (dag_merkleLeafHash blake3 treeAIDag hdr payloadHash pageCommit)) (\<lambda>aidag'.
     bindE (if hdr_PageType hdr = PageTypeModel
            then addOr blake3 tensor (dag_merkleLeafHash blake3 treeTensor hdr payloadHash pageCommit)
            else Inr tensor) (\<lambda>tensor'.
     bindE (addOr blake3 powc (dag_merkleLeafHash blake3 treePoW hdr payloadHash pageCommit)) (\<lambda>powc'.
     Inr (aidag', tensor', powc'))))))"

lemma addPage_nonempty: "addPage blake3 pageSize i page accs = Inr r \<Longrightarrow> page \<noteq> []"
  by (cases accs) (auto simp: addPage_def verifyPageBytes_def UnifiedHeaderSize_def)

function rootsLoop ::
  "(bytes \<Rightarrow> bytes) \<Rightarrow> u64 \<Rightarrow> u64 \<Rightarrow> bytes \<Rightarrow> MerkleAccumulator \<times> MerkleAccumulator \<times> MerkleAccumulator
     \<Rightarrow> gen_error + (MerkleAccumulator \<times> MerkleAccumulator \<times> MerkleAccumulator)" where
  "rootsLoop blake3 pageSize pageIndex file accs =
     (if file = [] \<and> pageSize \<noteq> 0 then Inr accs
      else if length file < unat pageSize then Inl NotPageAligned
      else case addPage blake3 pageSize pageIndex (take (unat pageSize) file) accs of
             Inl e \<Rightarrow> Inl e
           | Inr accs' \<Rightarrow> rootsLoop blake3 pageSize (pageIndex + 1) (drop (unat pageSize) file) accs')"
  by pat_completeness auto
termination
  by (relation "measure (\<lambda>(_, _, _, file, _). length file)") (auto dest: addPage_nonempty simp: unat_gt_0)

declare rootsLoop.simps [simp del]

definition computeRootsFromFile :: "(bytes \<Rightarrow> bytes) \<Rightarrow> bytes \<Rightarrow> u64 \<Rightarrow> gen_error + Roots" where
  "computeRootsFromFile blake3 file pageSize =
     bindE (rootsLoop blake3 pageSize 0 file
              (NewMerkleAccumulator treeAIDag, NewMerkleAccumulator treeTensor, NewMerkleAccumulator treePoW))
       (\<lambda>(aidag, tensor, powc). Inr \<lparr>
          rt_AIDagRoot = Accumulator_Root blake3 aidag,
          rt_TensorRoot = Accumulator_Root blake3 tensor,
          rt_PoWCommitRoot = Accumulator_Root blake3 powc,
          rt_AIDagLeafCount = ma_count aidag,
          rt_TensorLeafCount = ma_count tensor,
          rt_PoWCommitLeafCount = ma_count powc \<rparr>)"

definition validateRootsNonEmpty :: "(bytes \<Rightarrow> bytes) \<Rightarrow> Roots \<Rightarrow> Manifest \<Rightarrow> gen_error + unit" where
  "validateRootsNonEmpty blake3 roots manifest =
     bindE (forE (\<lambda>(root, cnt, emptyHash).
         if cnt = 0 then Inl LeafCountZero
         else if isZeroHash root then Inl RootZero
         else if root = emptyHash then Inl RootIsEmptyHash
         else Inr ())
       [(rt_AIDagRoot roots, rt_AIDagLeafCount roots, merkleEmptyHash blake3 treeAIDag),
        (rt_TensorRoot roots, rt_TensorLeafCount roots, merkleEmptyHash blake3 treeTensor),
        (rt_PoWCommitRoot roots, rt_PoWCommitLeafCount roots, merkleEmptyHash blake3 treePoW)])
     (\<lambda>_. if rt_AIDagLeafCount roots \<noteq> man_TotalPages manifest then Inl RootsLeafCountMismatch
          else if rt_PoWCommitLeafCount roots \<noteq> man_TotalPages manifest then Inl RootsLeafCountMismatch
          else if rt_TensorLeafCount roots \<noteq> man_ModelPageCount manifest then Inl RootsLeafCountMismatch
          else Inr ())"

section \<open>Extraction\<close>

text \<open>
  The loop over the model pages; \<open>out\<close> is what has been written to the temporary file. A
  \<open>ReadAt\<close> that does not fill the page returns an error.
\<close>

function extractLoop ::
  "(bytes \<Rightarrow> bytes) \<Rightarrow> bytes \<Rightarrow> Manifest \<Rightarrow> u64 \<Rightarrow> u64 \<Rightarrow> bytes \<Rightarrow> gen_error + (u64 \<times> bytes)" where
  "extractLoop blake3 file manifest p written out =
     (if p < man_ModelEndPage manifest then
        let page = take (unat (man_PageSize manifest)) (drop (unat (p * man_PageSize manifest)) file)
        in if length page \<noteq> unat (man_PageSize manifest) then Inl UnexpectedEOF
           else case verifyPageBytes blake3 page p (man_PageSize manifest) of
                  Inl e \<Rightarrow> Inl (PageError e)
                | Inr (hdr, _, _) \<Rightarrow>
                    if hdr_PageType hdr \<noteq> PageTypeModel then Inl (NotModelPage p)
                    else
                      let payload = drop (unat (man_HeaderSize manifest)) page;
                          left = man_ModelSize manifest - written;
                          toWrite = (if left > of_nat (length payload) then of_nat (length payload) else left)
                      in if toWrite = 0 then Inr (written, out)
                         else extractLoop blake3 file manifest (p + 1) (written + toWrite)
                                (out @ take (unat toWrite) payload)
      else Inr (written, out))"
  by pat_completeness auto
termination
proof (relation "measure (\<lambda>(_, _, m, p, _, _). unat (man_ModelEndPage m) - unat p)", goal_cases)
  case (2 _ _ manifest p)
  then have "p < man_ModelEndPage manifest" by simp
  then show ?case by (simp add: unat_suc_less)
qed simp

declare extractLoop.simps [simp del]

definition extractModel :: "(bytes \<Rightarrow> bytes) \<Rightarrow> bytes \<Rightarrow> Manifest \<Rightarrow> gen_error + bytes" where
  "extractModel blake3 file manifest =
     (if man_ModelSize manifest = 0 \<or> man_ModelPageCount manifest = 0 then Inl NoModel
      else if man_HeaderSize manifest \<noteq> UnifiedHeaderSize then Inl BadHeaderSize
      else bindE (extractLoop blake3 file manifest (man_ModelStartPage manifest) 0 []) (\<lambda>(written, out).
           if written \<noteq> man_ModelSize manifest then Inl ExtractSizeMismatch
           else let (hash, sz) = hashFile blake3 out
                in if sz \<noteq> man_ModelSize manifest then Inl ExtractSizeMismatch
                   else if \<not> equalHex (man_ModelHash manifest) (''0x'' @ hexEncode hash) then Inl ExtractHashMismatch
                   else Inr out))"

end
