(* ===== verification/SidecarBuild.thy ===== *)
theory SidecarBuild
  imports Sidecar DagGen
begin

text \<open>
  The construction of the Merkle sidecar by the generator (\<open>buildMerkleSidecarTempFromDAG\<close>,
  \<open>appendSidecarUpperLevels\<close>, \<open>readSidecarRoot\<close> and \<open>writeSidecarHeader\<close> of
  \<open>cmd/unifiedDAG/main.go\<close>).

  The file under construction is the list of its bytes: it is only appended to, read at offsets and, at
  the end, overwritten in its reserved header. The buffered writers are flushed before anything is read
  back. Writing succeeds; the page reads, the reads of earlier levels and all checks can fail. The clock
  is an argument.
\<close>

datatype build_error =
    BuildManifest manifest_error
  | BuildPanic
  | BuildIO io_error
  | BuildPageRead u64 io_error
  | BuildPage dag_error
  | BuildNotModelPage u64
  | BuildShardMismatch u64
  | BuildLevelBytes int
  | BuildLevelRead
  | BuildNoLevels
  | BuildBadRootLevel int
  | BuildBadHex hex_error
  | BuildPoWRootMismatch
  | BuildTensorRootMismatch
  | BuildHeaderTooLarge nat

definition normalizeHexString :: "string \<Rightarrow> string" where
  "normalizeHexString s =
     (let s = TrimSpace (ToLower s)
      in if s = [] then [] else if HasPrefix s ''0x'' then s else ''0x'' @ s)"

section \<open>The leaves\<close>

definition readPage :: "(bytes \<Rightarrow> bytes) \<Rightarrow> bytes \<Rightarrow> Manifest \<Rightarrow> u64 \<Rightarrow> build_error + (PageHeader \<times> hash32 \<times> hash32)" where
  "readPage blake3 dag m pageIndex =
     bindE (mapErr (BuildPageRead pageIndex) (readAt dag (unat (man_PageSize m)) (pageIndex * man_PageSize m))) (\<lambda>page.
     mapErr BuildPage (verifyPageBytes blake3 page pageIndex (man_PageSize m)))"

function powLeavesFrom :: "(bytes \<Rightarrow> bytes) \<Rightarrow> bytes \<Rightarrow> Manifest \<Rightarrow> u64 \<Rightarrow> build_error + hash32 list" where
  "powLeavesFrom blake3 dag m pageIndex =
     (if pageIndex < man_TotalPages m then
        bindE (readPage blake3 dag m pageIndex) (\<lambda>(hdr, payloadHash, pageCommit).
        bindE (powLeavesFrom blake3 dag m (pageIndex + 1)) (\<lambda>leaves.
        Inr (dag_merkleLeafHash blake3 treePoW hdr payloadHash pageCommit # leaves)))
      else Inr [])"
  by pat_completeness auto
termination
  by (relation "measure (\<lambda>(_, _, m, p). unat (man_TotalPages m) - unat p)") (auto simp: unat_suc_less)

function tensorLeavesFrom :: "(bytes \<Rightarrow> bytes) \<Rightarrow> bytes \<Rightarrow> Manifest \<Rightarrow> u64 \<Rightarrow> build_error + hash32 list" where
  "tensorLeavesFrom blake3 dag m pageIndex =
     (if pageIndex < man_ModelEndPage m then
        bindE (readPage blake3 dag m pageIndex) (\<lambda>(hdr, payloadHash, pageCommit).
        if hdr_PageType hdr \<noteq> PageTypeModel then Inl (BuildNotModelPage pageIndex)
        else if hdr_ShardID hdr \<noteq> pageIndex - man_ModelStartPage m then Inl (BuildShardMismatch pageIndex)
        else bindE (tensorLeavesFrom blake3 dag m (pageIndex + 1)) (\<lambda>leaves.
          Inr (dag_merkleLeafHash blake3 treeTensor hdr payloadHash pageCommit # leaves)))
      else Inr [])"
  by pat_completeness auto
termination
  by (relation "measure (\<lambda>(_, _, m, p). unat (man_ModelEndPage m) - unat p)") (auto simp: unat_suc_less)

declare powLeavesFrom.simps [simp del] tensorLeavesFrom.simps [simp del]

section \<open>The upper levels\<close>

text \<open>\<open>io.NewSectionReader\<close> with the offset and length converted to \<open>int64\<close>; a negative one makes the
  first read fail.\<close>

definition sectionOf :: "bytes \<Rightarrow> u64 \<Rightarrow> u64 \<Rightarrow> bytes" where
  "sectionOf f off n = (if off \<ge> 2 ^ 63 \<or> n \<ge> 2 ^ 63 then [] else take (unat n) (drop (unat off) f))"

definition readHashFromReader :: "bytes \<Rightarrow> build_error + (hash32 \<times> bytes)" where
  "readHashFromReader r = (if length r < 32 then Inl BuildLevelRead else Inr (take 32 r, drop 32 r))"

lemma readHashFromReader_shorter: "readHashFromReader r = Inr (h, r') \<Longrightarrow> length r' < length r"
  by (auto simp: readHashFromReader_def)

text \<open>The loop \<open>for i := 0; i < prev.Count; i += 2\<close> over the section.\<close>

function parentLevel ::
  "(hash32 \<Rightarrow> hash32 \<Rightarrow> hash32) \<Rightarrow> u64 \<Rightarrow> u64 \<Rightarrow> bytes \<Rightarrow> build_error + hash32 list" where
  "parentLevel nodeHash i cnt r =
     (if i < cnt then
        (case readHashFromReader r of
           Inl e \<Rightarrow> Inl e
         | Inr (left, r1) \<Rightarrow>
             (if i + 1 < cnt then
                (case readHashFromReader r1 of
                   Inl e \<Rightarrow> Inl e
                 | Inr (right, r2) \<Rightarrow>
                     bindE (parentLevel nodeHash (i + 2) cnt r2) (\<lambda>ps. Inr (nodeHash left right # ps)))
              else bindE (parentLevel nodeHash (i + 2) cnt r1) (\<lambda>ps. Inr (left # ps))))
      else Inr [])"
  by pat_completeness auto
termination
  by (relation "measure (\<lambda>(_, _, _, r). length r)") (auto dest!: readHashFromReader_shorter)

declare parentLevel.simps [simp del]

function appendSidecarUpperLevels ::
  "(hash32 \<Rightarrow> hash32 \<Rightarrow> hash32) \<Rightarrow> bytes \<Rightarrow> SidecarLevel list \<Rightarrow> build_error + (bytes \<times> SidecarLevel list)" where
  "appendSidecarUpperLevels nodeHash f levels =
     (if lvl_Count (last levels) > 1 then
        (let prev = last levels;
             nextCount = (lvl_Count prev + 1) div 2;
             nxt = \<lparr>lvl_Level = lvl_Level prev + 1, lvl_Count = nextCount, lvl_Offset = of_nat (length f),
                    lvl_Bytes = nextCount * sidecarHashSize\<rparr>
         in if lvl_Bytes prev \<noteq> lvl_Count prev * sidecarHashSize then Inl (BuildLevelBytes (lvl_Level prev))
            else case parentLevel nodeHash 0 (lvl_Count prev) (sectionOf f (lvl_Offset prev) (lvl_Bytes prev)) of
                   Inl e \<Rightarrow> Inl e
                 | Inr parents \<Rightarrow> appendSidecarUpperLevels nodeHash (f @ concat parents) (levels @ [nxt]))
      else Inr (f, levels))"
  by pat_completeness auto
termination
  by (relation "measure (\<lambda>(_, _, levels). unat (lvl_Count (last levels)))") (auto simp: half_up_less)

declare appendSidecarUpperLevels.simps [simp del]

definition readSidecarRoot :: "bytes \<Rightarrow> SidecarLevel list \<Rightarrow> build_error + hash32" where
  "readSidecarRoot f levels =
     (if levels = [] then Inl BuildNoLevels
      else if lvl_Count (last levels) \<noteq> 1 \<or> lvl_Bytes (last levels) \<noteq> sidecarHashSize
        then Inl (BuildBadRootLevel (lvl_Level (last levels)))
      else mapErr BuildIO (readAt f 32 (lvl_Offset (last levels))))"

section \<open>The header and the whole file\<close>

definition writeSidecarHeader :: "bytes \<Rightarrow> SidecarManifest \<Rightarrow> build_error + bytes" where
  "writeSidecarHeader f sm =
     (let b = json_marshal (sidecar_json sm) in
      if of_nat (length b) + 16 > sidecarHeaderReserved then Inl (BuildHeaderTooLarge (length b + 16))
      else let buf = bytes_of sidecarMagic @ putLE 8 (of_nat (length b) :: u64) @ b
           in Inr (writeAt f 0 (buf @ replicate (unat sidecarHeaderReserved - length buf) 0)))"

definition sidecarMeta :: "Manifest \<Rightarrow> string \<Rightarrow> SidecarLevel list \<Rightarrow> SidecarLevel list \<Rightarrow> SidecarManifest" where
  "sidecarMeta m now powLevels tensorLevels =
     \<lparr>sm_Version = sidecarVersion, sm_HashAlgorithm = HashAlgorithm, sm_MerkleVersion = MerkleVersion,
      sm_CreatedAt = now, sm_PageSize = man_PageSize m, sm_HeaderSize = man_HeaderSize m,
      sm_PayloadSize = man_PayloadSize m, sm_TotalPages = man_TotalPages m,
      sm_ModelStartPage = man_ModelStartPage m, sm_ModelPageCount = man_ModelPageCount m,
      sm_ManifestRoot = normalizeHexString (man_ManifestRoot m),
      sm_AIDagRoot = normalizeHexString (man_AIDagRoot m),
      sm_TensorRoot = normalizeHexString (man_TensorRoot m),
      sm_PoWCommitRoot = normalizeHexString (man_PoWCommitRoot m),
      sm_PoWLevels = powLevels, sm_TensorLevels = tensorLevels\<rparr>"

definition level0 :: "u64 \<Rightarrow> u64 \<Rightarrow> SidecarLevel" where
  "level0 cnt off = \<lparr>lvl_Level = 0, lvl_Count = cnt, lvl_Offset = off, lvl_Bytes = cnt * sidecarHashSize\<rparr>"

text \<open>The second half: the roots read back from the file against the manifest, and the header.\<close>

definition finishSidecar ::
  "Manifest \<Rightarrow> string \<Rightarrow> bytes \<Rightarrow> SidecarLevel list \<Rightarrow> SidecarLevel list \<Rightarrow> build_error + (bytes \<times> SidecarManifest)" where
  "finishSidecar m now f powLevels tensorLevels =
     bindE (readSidecarRoot f powLevels) (\<lambda>powRoot.
     bindE (readSidecarRoot f tensorLevels) (\<lambda>tensorRoot.
     bindE (mapErr BuildBadHex (dag_decodeHex32 (man_PoWCommitRoot m))) (\<lambda>manifestPowRoot.
     bindE (mapErr BuildBadHex (dag_decodeHex32 (man_TensorRoot m))) (\<lambda>manifestTensorRoot.
     if powRoot \<noteq> manifestPowRoot then Inl BuildPoWRootMismatch
     else if tensorRoot \<noteq> manifestTensorRoot then Inl BuildTensorRootMismatch
     else let sm = sidecarMeta m now powLevels tensorLevels in
       bindE (writeSidecarHeader f sm) (\<lambda>f'. Inr (f', sm))))))"

definition buildMerkleSidecarTempFromDAG ::
  "(bytes \<Rightarrow> bytes) \<Rightarrow> (string \<rightharpoonup> bytes) \<Rightarrow> string \<Rightarrow> Manifest \<Rightarrow> string \<Rightarrow> build_error + (bytes \<times> SidecarManifest)" where
  "buildMerkleSidecarTempFromDAG blake3 fs dagPath m now =
     bindE (mapErr BuildManifest (validateManifestBasics m)) (\<lambda>_.
     bindE (mapErr BuildIO (openFile fs dagPath)) (\<lambda>dag.
     if man_PageSize m > maxInt then Inl BuildPanic
     else
       let f0 = replicate (unat sidecarHeaderReserved) 0 in
       bindE (powLeavesFrom blake3 dag m 0) (\<lambda>powLeaves.
       let f1 = f0 @ concat powLeaves in
       bindE (tensorLeavesFrom blake3 dag m (man_ModelStartPage m)) (\<lambda>tensorLeaves.
       let f2 = f1 @ concat tensorLeaves in
       bindE (appendSidecarUpperLevels (merkleNodeHash blake3 treePoW) f2
                [level0 (man_TotalPages m) sidecarHeaderReserved]) (\<lambda>(f3, powLevels).
       bindE (appendSidecarUpperLevels (merkleNodeHash blake3 treeTensor) f3
                [level0 (man_ModelPageCount m) (of_nat (length f1))]) (\<lambda>(f4, tensorLevels).
       finishSidecar m now f4 powLevels tensorLevels))))))"

end
