(* ===== verification/DagSeal.thy ===== *)
theory DagSeal
  imports SidecarBuild Codec
begin

text \<open>
  The AISeal part of the generator tool (\<open>cmd/unifiedDAG/main.go\<close>): the sampling of pages, the page
  material read from the DAG or decoded from a proof, the digests and the tool's own verifier
  \<open>verifyAISealProof\<close>. The tool has its own copy of all of it; \<open>DagSeal_Laws\<close> relates it to
  \<open>internal/aiseal\<close>. The types \<open>AISeal\<close>, \<open>AISealProof\<close>, \<open>AIDagPageProof\<close> and
  \<open>pageProofMaterial\<close> have the fields and tags of the ones in \<open>internal/aiseal\<close> and are modelled by them.

  \<^const>\<open>None\<close> is a call that does not return: sampling that never ends or a run-time panic (a slice
  bound outside its slice, a size no slice can have).
\<close>

datatype dag_seal_error =
    DagPoWSamplesNotPositive
  | DagTensorSamplesNegative
  | DagPoWSamplesTooLarge
  | DagTensorSamplesTooLarge
  | DagPageIndexRange u64
  | DagIO io_error
  | DagPage dag_error
  | DagBadPageHex u64 hex_error
  | DagBadPageSize u64
  | DagProofVersion int
  | DagSealVersion u16
  | DagSealMismatch string
  | DagBadRoot string hex_error
  | DagPageCountMismatch nat nat
  | DagDuplicatePage u64
  | DagMissingPage u64
  | DagPoWProof u64 dag_merkle_error
  | DagNotModelPage u64
  | DagMissingTensorPath u64
  | DagShardMismatch u64
  | DagTensorProof u64 dag_merkle_error
  | DagUnexpectedTensorPath u64
  | DagMixDigestMismatch
  | DagAIDigestMismatch
  | DagWorkHashMismatch
  | DagProofHashMismatch
  | DagProofNotJSON

section \<open>Strings\<close>

definition equalHexString :: "string \<Rightarrow> string \<Rightarrow> bool" where
  "equalHexString a b = (normalizeHexString a = normalizeHexString b)"

definition isHexString :: "string \<Rightarrow> bool" where
  "isHexString s = (s \<noteq> [] \<and> list_all (\<lambda>r. hexVal r \<noteq> None) s)"

definition normalizeArbitraryHexOrString :: "string \<Rightarrow> string" where
  "normalizeArbitraryHexOrString s =
     (let s = TrimSpace (ToLower s)
      in if s = [] then []
         else if HasPrefix s ''0x'' \<or> isHexString s then normalizeHexString s
         else s)"

section \<open>Sampling\<close>

definition sampleUniqueIndices ::
  "(bytes \<Rightarrow> bytes) \<Rightarrow> string \<Rightarrow> Manifest \<Rightarrow> string \<Rightarrow> string \<Rightarrow> u64 \<Rightarrow> u64 \<Rightarrow> u64 \<Rightarrow> u64 \<Rightarrow> u64
     \<Rightarrow> u64 list option" where
  "sampleUniqueIndices blake3 domain manifest blockHash miner epoch nonce cnt start span =
     (if cnt = 0 \<or> span = 0 then Some []
      else
        let seed = blake3HashTagged blake3 domain
              (writeString (normalizeArbitraryHexOrString blockHash)
               @ writeString (ToLower (TrimSpace miner))
               @ writeUint64 epoch
               @ writeUint64 nonce
               @ writeString (normalizeHexString (man_ManifestRoot manifest))
               @ writeString (normalizeHexString (man_PoWCommitRoot manifest))
               @ writeString (normalizeHexString (man_TensorRoot manifest))
               @ writeUint64 (man_TotalPages manifest)
               @ writeUint64 (man_ModelStartPage manifest)
               @ writeUint64 (man_ModelPageCount manifest)
               @ writeUint64 cnt
               @ writeUint64 start
               @ writeUint64 span);
            draw = (\<lambda>counter.
              let h = blake3HashTagged blake3 domain (writeFixed32 seed @ writeUint64 counter)
              in start + getLE (take 8 h) mod span)
        in map_option (sortSlice (\<lambda>i. i)) (sampleLoop draw cnt 0 []))"

definition deriveRequiredProofPages ::
  "(bytes \<Rightarrow> bytes) \<Rightarrow> Manifest \<Rightarrow> string \<Rightarrow> string \<Rightarrow> u64 \<Rightarrow> u64 \<Rightarrow> int \<Rightarrow> int
     \<Rightarrow> (dag_seal_error + (u64 list \<times> u64 list \<times> u64 list)) option" where
  "deriveRequiredProofPages blake3 manifest blockHash miner epoch nonce powSamples tensorSamples =
     (if powSamples \<le> 0 then Some (Inl DagPoWSamplesNotPositive)
      else if tensorSamples < 0 then Some (Inl DagTensorSamplesNegative)
      else if of_int powSamples > man_TotalPages manifest then Some (Inl DagPoWSamplesTooLarge)
      else if of_int tensorSamples > man_ModelPageCount manifest then Some (Inl DagTensorSamplesTooLarge)
      else case sampleUniqueIndices blake3 domainSamplePoW manifest blockHash miner epoch nonce
                  (of_int powSamples) 0 (man_TotalPages manifest) of
             None \<Rightarrow> None
           | Some powIndices \<Rightarrow>
               (case sampleUniqueIndices blake3 domainSampleTensor manifest blockHash miner epoch nonce
                       (of_int tensorSamples) (man_ModelStartPage manifest) (man_ModelPageCount manifest) of
                  None \<Rightarrow> None
                | Some tensorIndices \<Rightarrow>
                    Some (Inr (powIndices, tensorIndices, sortSlice (\<lambda>i. i) (remdups (powIndices @ tensorIndices))))))"

definition isTensorRequiredPage :: "u64 \<Rightarrow> u64 list \<Rightarrow> bool" where
  "isTensorRequiredPage pageIndex tensorSamplePages =
     (let i = sortSearch (length tensorSamplePages) (\<lambda>i. tensorSamplePages ! i \<ge> pageIndex)
      in i < length tensorSamplePages \<and> tensorSamplePages ! i = pageIndex)"

section \<open>Page material\<close>

text \<open>The tail that \<open>readProofMaterial\<close> and \<open>materialFromPageProof\<close> share: the payload is copied into a
  fresh slice of \<open>manifest.PayloadSize\<close> bytes.\<close>

definition dag_materialOf ::
  "(bytes \<Rightarrow> bytes) \<Rightarrow> Manifest \<Rightarrow> u64 \<Rightarrow> bytes \<Rightarrow> PageHeader \<Rightarrow> hash32 \<Rightarrow> hash32 \<Rightarrow> pageMaterial option" where
  "dag_materialOf blake3 manifest pageIndex page hdr payloadHash pageCommit =
     (if man_PayloadSize manifest > maxInt \<or> unat (man_HeaderSize manifest) > length page then None
      else Some \<lparr>
        mat_PageIndex = pageIndex, mat_Header = hdr, mat_Page = page,
        mat_Payload = copyInto (replicate (unat (man_PayloadSize manifest)) 0) (drop (unat (man_HeaderSize manifest)) page),
        mat_PayloadHash = payloadHash, mat_PageCommit = pageCommit,
        mat_PoWLeaf = dag_merkleLeafHash blake3 treePoW hdr payloadHash pageCommit,
        mat_TensorLeaf = (if hdr_PageType hdr = PageTypeModel
                          then dag_merkleLeafHash blake3 treeTensor hdr payloadHash pageCommit else zero32)\<rparr>)"

definition readProofMaterial ::
  "(bytes \<Rightarrow> bytes) \<Rightarrow> (string \<rightharpoonup> bytes) \<Rightarrow> string \<Rightarrow> Manifest \<Rightarrow> u64 \<Rightarrow> (dag_seal_error + pageMaterial) option" where
  "readProofMaterial blake3 fs dagPath manifest pageIndex =
     (if pageIndex \<ge> man_TotalPages manifest then Some (Inl (DagPageIndexRange pageIndex))
      else case openFile fs dagPath of
             Inl e \<Rightarrow> Some (Inl (DagIO e))
           | Inr f \<Rightarrow>
               if man_PageSize manifest > maxInt then None
               else case readAt f (unat (man_PageSize manifest)) (pageIndex * man_PageSize manifest) of
                      Inl e \<Rightarrow> Some (Inl (DagIO e))
                    | Inr page \<Rightarrow>
                        (case verifyPageBytes blake3 page pageIndex (man_PageSize manifest) of
                           Inl e \<Rightarrow> Some (Inl (DagPage e))
                         | Inr (hdr, payloadHash, pageCommit) \<Rightarrow>
                             map_option Inr (dag_materialOf blake3 manifest pageIndex page hdr payloadHash pageCommit)))"

definition materialFromPageProof ::
  "(bytes \<Rightarrow> bytes) \<Rightarrow> PageProof \<Rightarrow> Manifest \<Rightarrow> (dag_seal_error + pageMaterial) option" where
  "materialFromPageProof blake3 p manifest =
     (case dag_decodeHexBytes (pp_Page p) of
        Inl e \<Rightarrow> Some (Inl (DagBadPageHex (pp_PageIndex p) e))
      | Inr page \<Rightarrow>
          if of_nat (length page) \<noteq> man_PageSize manifest then Some (Inl (DagBadPageSize (pp_PageIndex p)))
          else case verifyPageBytes blake3 page (pp_PageIndex p) (man_PageSize manifest) of
                 Inl e \<Rightarrow> Some (Inl (DagPage e))
               | Inr (hdr, payloadHash, pageCommit) \<Rightarrow>
                   map_option Inr (dag_materialOf blake3 manifest (pp_PageIndex p) page hdr payloadHash pageCommit))"

section \<open>Digests\<close>

definition writeSealChallengeFields :: "Seal \<Rightarrow> bytes" where
  "writeSealChallengeFields seal =
     writeUint16 (seal_Version seal)
     @ writeUint64 (seal_Epoch seal)
     @ writeString (normalizeArbitraryHexOrString (seal_BlockHash seal))
     @ writeString (ToLower (TrimSpace (seal_Miner seal)))
     @ writeUint64 (seal_Nonce seal)
     @ writeUint64 (of_int (seal_PoWSampleCount seal))
     @ writeUint64 (of_int (seal_TensorSampleCount seal))
     @ writeString (normalizeHexString (seal_ManifestRoot seal))
     @ writeString (normalizeHexString (seal_AIDagRoot seal))
     @ writeString (normalizeHexString (seal_TensorRoot seal))
     @ writeString (normalizeHexString (seal_PoWRoot seal))
     @ writeString (normalizeHexString (seal_ModelHash seal))"

text \<open>\<open>matByIndex\<close>: a later material replaces an earlier one; pages without material are skipped.\<close>

definition matByIndex :: "pageMaterial list \<Rightarrow> u64 \<rightharpoonup> pageMaterial" where
  "matByIndex materials = map_of (rev (map (\<lambda>mat. (mat_PageIndex mat, mat)) materials))"

definition dag_computeMixDigest ::
  "(bytes \<Rightarrow> bytes) \<Rightarrow> Seal \<Rightarrow> Manifest \<Rightarrow> u64 list \<Rightarrow> u64 list \<Rightarrow> pageMaterial list \<Rightarrow> hash32" where
  "dag_computeMixDigest blake3 seal manifest powSampleIndices tensorSamplePages materials =
     blake3HashTagged blake3 domainMixDigest
       (writeSealChallengeFields seal
        @ writeString (normalizeHexString (man_ManifestRoot manifest))
        @ writeUint64 (man_TotalPages manifest)
        @ writeUint64 (man_ModelStartPage manifest)
        @ writeUint64 (man_ModelPageCount manifest)
        @ writeUint64 (of_nat (length powSampleIndices))
        @ concat (map (\<lambda>pageIndex. case matByIndex materials pageIndex of
            None \<Rightarrow> []
          | Some mat \<Rightarrow>
              writeUint64 pageIndex
              @ writeUint16 (hdr_PageType (mat_Header mat))
              @ writeFixed32 (mat_PayloadHash mat)
              @ writeFixed32 (mat_PageCommit mat)
              @ writeFixed32 (mat_PoWLeaf mat)) powSampleIndices)
        @ writeUint64 (of_nat (length tensorSamplePages))
        @ concat (map (\<lambda>pageIndex. case matByIndex materials pageIndex of
            None \<Rightarrow> []
          | Some mat \<Rightarrow>
              writeUint64 pageIndex
              @ writeUint64 (hdr_ShardID (mat_Header mat))
              @ writeUint64 (hdr_ModelOffset (mat_Header mat))
              @ writeUint64 (hdr_ModelSize (mat_Header mat))
              @ writeFixed32 (mat_PayloadHash mat)
              @ writeFixed32 (mat_PageCommit mat)
              @ writeFixed32 (mat_TensorLeaf mat)) tensorSamplePages))"

text \<open>The windows of the payload; \<^const>\<open>challengeWindow\<close> is \<^const>\<open>None\<close> on \<open>payload[:wrap]\<close> out of bounds.\<close>

definition lightweightTensorPageChallenge :: "(bytes \<Rightarrow> bytes) \<Rightarrow> Seal \<Rightarrow> u64 \<Rightarrow> bytes \<Rightarrow> hash32 option" where
  "lightweightTensorPageChallenge blake3 seal pageIndex payload =
     (let seed = blake3HashTagged blake3 domainAIDigest (writeSealChallengeFields seal @ writeUint64 pageIndex);
          window = (\<lambda>i. let h = blake3HashTagged blake3 domainAIDigest (writeFixed32 seed @ writeUint64 (of_nat i));
                            off = unat ((getLE (take 8 h) :: u64) mod of_nat (length payload))
                        in challengeWindow payload off)
      in map_option (\<lambda>windows.
           blake3HashTagged blake3 domainAIDigest
             (writeSealChallengeFields seal
              @ writeUint64 pageIndex
              @ writeUint64 (of_nat (length payload))
              @ concat (map writeBytes windows)))
         (if length payload = 0 then Some [] else those (map window [0..<32])))"

definition dag_computeAIDigest ::
  "(bytes \<Rightarrow> bytes) \<Rightarrow> Seal \<Rightarrow> Manifest \<Rightarrow> u64 list \<Rightarrow> pageMaterial list \<Rightarrow> hash32 option" where
  "dag_computeAIDigest blake3 seal manifest tensorSamplePages materials =
     map_option (\<lambda>parts.
       blake3HashTagged blake3 domainAIDigest
         (writeSealChallengeFields seal
          @ writeString (normalizeHexString (man_ModelHash manifest))
          @ writeUint64 (man_ModelSize manifest)
          @ writeUint64 (man_ModelPageCount manifest)
          @ writeUint64 (of_nat (length tensorSamplePages))
          @ concat parts))
     (those (map (\<lambda>pageIndex. case matByIndex materials pageIndex of
          None \<Rightarrow> Some []
        | Some mat \<Rightarrow>
            map_option (\<lambda>challenge.
              writeUint64 pageIndex
              @ writeUint64 (hdr_ShardID (mat_Header mat))
              @ writeUint64 (hdr_ModelOffset (mat_Header mat))
              @ writeUint64 (hdr_ModelSize (mat_Header mat))
              @ writeFixed32 (mat_PayloadHash mat)
              @ writeFixed32 (mat_PageCommit mat)
              @ writeFixed32 challenge)
            (lightweightTensorPageChallenge blake3 seal pageIndex (mat_Payload mat))) tensorSamplePages))"

definition computeSealWorkHash :: "(bytes \<Rightarrow> bytes) \<Rightarrow> Seal \<Rightarrow> hash32" where
  "computeSealWorkHash blake3 seal =
     blake3HashTagged blake3 domainSealWork
       (writeSealChallengeFields seal
        @ writeString (normalizeHexString (seal_MixDigest seal))
        @ writeString (normalizeHexString (seal_AIDigest seal)))"

definition dag_writeProofPath :: "MerkleProofStep list \<Rightarrow> bytes" where
  "dag_writeProofPath path =
     writeUint64 (of_nat (length path))
     @ concat (map (\<lambda>step. writeString (step_Side step) @ writeString (normalizeHexString (step_Hash step))) path)"

definition canonicalProofPagesForHash :: "PageProof list \<Rightarrow> PageProof list" where
  "canonicalProofPagesForHash pages = sortSlice pp_PageIndex pages"

definition dag_computeProofHash :: "(bytes \<Rightarrow> bytes) \<Rightarrow> Proof \<Rightarrow> hash32" where
  "dag_computeProofHash blake3 proof =
     (let proof = proof\<lparr>prf_Seal := (prf_Seal proof)\<lparr>seal_ProofHash := []\<rparr>\<rparr>;
          proof = proof\<lparr>prf_Pages := canonicalProofPagesForHash (prf_Pages proof)\<rparr>
      in blake3HashTagged blake3 domainProofHash
       (writeUint64 (of_int (prf_Version proof))
        @ writeSealChallengeFields (prf_Seal proof)
        @ writeString (normalizeHexString (seal_MixDigest (prf_Seal proof)))
        @ writeString (normalizeHexString (seal_AIDigest (prf_Seal proof)))
        @ writeString (normalizeHexString (seal_WorkHash (prf_Seal proof)))
        @ writeUint64 (of_nat (length (prf_Pages proof)))
        @ concat (map (\<lambda>p.
            writeUint64 (pp_PageIndex p)
            @ writeString (normalizeHexString (pp_Page p))
            @ dag_writeProofPath (pp_PoWPath p)
            @ dag_writeProofPath (pp_TensorPath p)) (prf_Pages proof))))"

section \<open>The tool's verifier\<close>

definition readAISealProof :: "(string \<rightharpoonup> bytes) \<Rightarrow> string \<Rightarrow> dag_seal_error + Proof" where
  "readAISealProof fs path =
     bindE (mapErr DagIO (openFile fs path)) (\<lambda>b. ofOption DagProofNotJSON (unmarshalProof b))"

definition dag_verifySealMatchesManifest :: "Seal \<Rightarrow> Manifest \<Rightarrow> dag_seal_error + unit" where
  "dag_verifySealMatchesManifest seal manifest =
     forE (\<lambda>(name, got, want). if \<not> equalHexString got want then Inl (DagSealMismatch name) else Inr ())
       [(''ManifestRoot'', seal_ManifestRoot seal, man_ManifestRoot manifest),
        (''AIDagRoot'', seal_AIDagRoot seal, man_AIDagRoot manifest),
        (''TensorRoot'', seal_TensorRoot seal, man_TensorRoot manifest),
        (''PoWCommitRoot'', seal_PoWRoot seal, man_PoWCommitRoot manifest),
        (''ModelHash'', seal_ModelHash seal, man_ModelHash manifest)]"

text \<open>The checks before the samples are drawn, with the two roots they decode.\<close>

definition sealPreamble :: "Manifest \<Rightarrow> Proof \<Rightarrow> dag_seal_error + (hash32 \<times> hash32)" where
  "sealPreamble manifest proof =
     (let seal = prf_Seal proof in
      if prf_Version proof \<noteq> ProofVersion then Inl (DagProofVersion (prf_Version proof))
      else if seal_Version seal \<noteq> SealVersion then Inl (DagSealVersion (seal_Version seal))
      else if seal_PoWSampleCount seal \<le> 0 then Inl DagPoWSamplesNotPositive
      else if seal_TensorSampleCount seal < 0 then Inl DagTensorSamplesNegative
      else bindE (dag_verifySealMatchesManifest seal manifest) (\<lambda>_.
           bindE (mapErr (DagBadRoot ''PoWCommitRoot'') (dag_decodeHex32 (man_PoWCommitRoot manifest))) (\<lambda>powRoot.
           bindE (mapErr (DagBadRoot ''TensorRoot'') (dag_decodeHex32 (man_TensorRoot manifest))) (\<lambda>tensorRoot.
           Inr (powRoot, tensorRoot)))))"

fun pageProofByIndex :: "PageProof list \<Rightarrow> (u64 \<rightharpoonup> PageProof) \<Rightarrow> dag_seal_error + (u64 \<rightharpoonup> PageProof)" where
  "pageProofByIndex [] byIndex = Inr byIndex"
| "pageProofByIndex (p # pages) byIndex =
     (if byIndex (pp_PageIndex p) \<noteq> None then Inl (DagDuplicatePage (pp_PageIndex p))
      else pageProofByIndex pages (byIndex(pp_PageIndex p \<mapsto> p)))"

text \<open>The checks of one required page after its material is known.\<close>

definition checkMaterial ::
  "(bytes \<Rightarrow> bytes) \<Rightarrow> Manifest \<Rightarrow> hash32 \<Rightarrow> hash32 \<Rightarrow> u64 list \<Rightarrow> u64 \<Rightarrow> PageProof \<Rightarrow> pageMaterial
     \<Rightarrow> dag_seal_error + pageMaterial" where
  "checkMaterial blake3 manifest powRoot tensorRoot tensorSamples pageIndex p mat =
     bindE (mapErr (DagPoWProof pageIndex)
              (dag_verifyMerkleProof blake3 treePoW (mat_PoWLeaf mat) pageIndex (man_PoWCommitLeafCount manifest)
                 (pp_PoWPath p) powRoot)) (\<lambda>_.
     if isTensorRequiredPage pageIndex tensorSamples then
       (if hdr_PageType (mat_Header mat) \<noteq> PageTypeModel then Inl (DagNotModelPage pageIndex)
        else if pp_TensorPath p = [] \<and> man_TensorLeafCount manifest > 1 then Inl (DagMissingTensorPath pageIndex)
        else
          let tensorIndex = pageIndex - man_ModelStartPage manifest in
          if hdr_ShardID (mat_Header mat) \<noteq> tensorIndex then Inl (DagShardMismatch pageIndex)
          else bindE (mapErr (DagTensorProof pageIndex)
                 (dag_verifyMerkleProof blake3 treeTensor (mat_TensorLeaf mat) tensorIndex (man_TensorLeafCount manifest)
                    (pp_TensorPath p) tensorRoot)) (\<lambda>_. Inr mat))
     else if pp_TensorPath p \<noteq> [] then Inl (DagUnexpectedTensorPath pageIndex)
     else Inr mat)"

fun requiredMaterials ::
  "(bytes \<Rightarrow> bytes) \<Rightarrow> Manifest \<Rightarrow> hash32 \<Rightarrow> hash32 \<Rightarrow> u64 list \<Rightarrow> (u64 \<rightharpoonup> PageProof) \<Rightarrow> u64 list
     \<Rightarrow> (dag_seal_error + pageMaterial list) option" where
  "requiredMaterials blake3 manifest powRoot tensorRoot tensorSamples byIndex [] = Some (Inr [])"
| "requiredMaterials blake3 manifest powRoot tensorRoot tensorSamples byIndex (pageIndex # required) =
     (case byIndex pageIndex of
        None \<Rightarrow> Some (Inl (DagMissingPage pageIndex))
      | Some p \<Rightarrow>
          (case materialFromPageProof blake3 p manifest of
             None \<Rightarrow> None
           | Some (Inl e) \<Rightarrow> Some (Inl e)
           | Some (Inr mat) \<Rightarrow>
               (case checkMaterial blake3 manifest powRoot tensorRoot tensorSamples pageIndex p mat of
                  Inl e \<Rightarrow> Some (Inl e)
                | Inr mat \<Rightarrow>
                    map_option (\<lambda>r. bindE r (\<lambda>materials. Inr (mat # materials)))
                      (requiredMaterials blake3 manifest powRoot tensorRoot tensorSamples byIndex required))))"

text \<open>The digests of the seal against the material.\<close>

definition checkDigests ::
  "(bytes \<Rightarrow> bytes) \<Rightarrow> Manifest \<Rightarrow> Proof \<Rightarrow> u64 list \<Rightarrow> u64 list \<Rightarrow> pageMaterial list
     \<Rightarrow> (dag_seal_error + (hash32 \<times> hash32)) option" where
  "checkDigests blake3 manifest proof powSamples tensorSamples materials =
     (let seal = prf_Seal proof;
          mixDigest = dag_computeMixDigest blake3 seal manifest powSamples tensorSamples materials
      in if \<not> equalHexString (seal_MixDigest seal) (''0x'' @ hexEncode mixDigest) then Some (Inl DagMixDigestMismatch)
         else case dag_computeAIDigest blake3 seal manifest tensorSamples materials of
                None \<Rightarrow> None
              | Some aiDigest \<Rightarrow> Some (
          let workHash = computeSealWorkHash blake3 seal;
              proofHash = dag_computeProofHash blake3 proof
          in if \<not> equalHexString (seal_AIDigest seal) (''0x'' @ hexEncode aiDigest) then Inl DagAIDigestMismatch
             else if seal_WorkHash seal \<noteq> [] \<and> \<not> equalHexString (seal_WorkHash seal) (''0x'' @ hexEncode workHash)
               then Inl DagWorkHashMismatch
             else if \<not> equalHexString (seal_ProofHash seal) (''0x'' @ hexEncode proofHash) then Inl DagProofHashMismatch
             else Inr (workHash, proofHash)))"

definition verifyAISealProof ::
  "(bytes \<Rightarrow> bytes) \<Rightarrow> Manifest \<Rightarrow> Proof \<Rightarrow> (dag_seal_error + (hash32 \<times> hash32)) option" where
  "verifyAISealProof blake3 manifest proof =
     (case sealPreamble manifest proof of
        Inl e \<Rightarrow> Some (Inl e)
      | Inr (powRoot, tensorRoot) \<Rightarrow>
          (let seal = prf_Seal proof in
           case deriveRequiredProofPages blake3 manifest (seal_BlockHash seal) (seal_Miner seal) (seal_Epoch seal)
                  (seal_Nonce seal) (seal_PoWSampleCount seal) (seal_TensorSampleCount seal) of
             None \<Rightarrow> None
           | Some (Inl e) \<Rightarrow> Some (Inl e)
           | Some (Inr (powSamples, tensorSamples, requiredPages)) \<Rightarrow>
               if length (prf_Pages proof) \<noteq> length requiredPages
               then Some (Inl (DagPageCountMismatch (length (prf_Pages proof)) (length requiredPages)))
               else (case pageProofByIndex (prf_Pages proof) Map.empty of
                  Inl e \<Rightarrow> Some (Inl e)
                | Inr byIndex \<Rightarrow>
                    (case requiredMaterials blake3 manifest powRoot tensorRoot tensorSamples byIndex requiredPages of
                       None \<Rightarrow> None
                     | Some (Inl e) \<Rightarrow> Some (Inl e)
                     | Some (Inr materials) \<Rightarrow> checkDigests blake3 manifest proof powSamples tensorSamples materials))))"

section \<open>Proof trees\<close>

record ProofTrees =
  trees_Sidecar :: "sidecarReader option"

datatype trees_error = TreesSidecar dag_sidecar_error | MissingSidecarTree

definition buildProofTreesFromDAG :: "(string \<rightharpoonup> bytes) \<Rightarrow> string \<Rightarrow> Manifest \<Rightarrow> trees_error + ProofTrees" where
  "buildProofTreesFromDAG fs dagPath manifest =
     bindE (mapErr TreesSidecar (openMerkleSidecar fs (dagPath @ ''.sidecar''))) (\<lambda>sidecar.
     bindE (mapErr TreesSidecar (validateAgainstManifest sidecar manifest)) (\<lambda>_.
     Inr \<lparr>trees_Sidecar = Some sidecar\<rparr>))"

definition compareProofTreeRootsWithManifest :: "ProofTrees \<Rightarrow> Manifest \<Rightarrow> trees_error + unit" where
  "compareProofTreeRootsWithManifest trees manifest =
     (case trees_Sidecar trees of
        None \<Rightarrow> Inl MissingSidecarTree
      | Some sidecar \<Rightarrow> mapErr TreesSidecar (validateAgainstManifest sidecar manifest))"

end
