(* ===== verification/DagGen_Laws.thy ===== *)
theory DagGen_Laws
  imports DagGen
begin

unbundle bit_operations_syntax

text \<open>
  What the generator guarantees: the file does not depend on the order in which the workers
  finish, the streaming root computation returns the Merkle roots of the page leaves, and
  extraction gives back the model that was packed.
\<close>

section \<open>Writing pages at their offsets\<close>

lemma length_concat_const: "\<forall>c \<in> set ch. length c = P \<Longrightarrow> length (concat ch) = length ch * P"
  by (induction ch) auto

lemma concat_upto:
  assumes "\<forall>c \<in> set ch. length c = P" "i \<le> length ch"
  shows "take (i * P) (concat ch) = concat (take i ch)" "drop (i * P) (concat ch) = concat (drop i ch)"
proof -
  have "\<forall>c \<in> set (take i ch). length c = P" using assms(1) by (meson in_set_takeD)
  then have "length (concat (take i ch)) = i * P"
    using assms(2) length_concat_const by (metis length_take min.absorb2)
  moreover have "concat ch = concat (take i ch) @ concat (drop i ch)"
    by (metis append_take_drop_id concat_append)
  ultimately show "take (i * P) (concat ch) = concat (take i ch)" "drop (i * P) (concat ch) = concat (drop i ch)"
    by simp_all
qed

lemma writeAt_concat:
  assumes "\<forall>c \<in> set ch. length c = P" "i < length ch" "length d = P"
  shows "writeAt (concat ch) (i * P) d = concat (ch[i := d])"
proof -
  have "i * P + length d = (Suc i) * P" using assms(3) by simp
  then have "writeAt (concat ch) (i * P) d = concat (take i ch) @ d @ concat (drop (Suc i) ch)"
    using concat_upto[OF assms(1), of i] concat_upto[OF assms(1), of "Suc i"] assms(2)
    by (simp add: writeAt_def add.commute)
  then show ?thesis using assms(2) by (simp add: upd_conv_take_nth_drop)
qed

lemma page_at:
  assumes "\<forall>c \<in> set ch. length c = P" "i < length ch"
  shows "take P (drop (i * P) (concat ch)) = ch ! i"
proof -
  have "drop (i * P) (concat ch) = ch ! i @ concat (drop (Suc i) ch)"
    using concat_upto(2)[OF assms(1), of i] assms(2) by (simp add: Cons_nth_drop_Suc[symmetric])
  then show ?thesis using assms by simp
qed

section \<open>The collecting loop\<close>

lemma pages_bound: "n * P < (2 :: nat) ^ 64 \<Longrightarrow> 0 < P \<Longrightarrow> n < 2 ^ 64"
  by (cases P) auto

text \<open>State of the loop when the pages in \<open>S\<close> have arrived.\<close>

definition collected :: "bytes list \<Rightarrow> nat \<Rightarrow> nat set \<Rightarrow> GenState \<Rightarrow> bool" where
  "collected pages P S st \<longleftrightarrow>
     S \<subseteq> {..<length pages}
     \<and> gs_file st = concat (map (\<lambda>i. if i \<in> S then pages ! i else replicate P 0) [0..<length pages])
     \<and> gs_seenPages st = map (\<lambda>i. i \<in> S) [0..<length pages]
     \<and> gs_written st = of_nat (card S * P)
     \<and> gs_writtenPages st = of_nat (card S)
     \<and> gs_firstErr st = None"

lemma collected_step:
  assumes st: "collected pages P S st" and i: "i < length pages" "i \<notin> S"
    and P: "\<forall>c \<in> set pages. length c = P" "P = unat (cfg_PageSize cfg)" "length pages * P < 2 ^ 64" "0 < P"
    and ok: "strictValidateBuiltPage blake3 (pages ! i) (of_nat i) (cfg_PageSize cfg) = Inr ()"
  shows "collected pages P (insert i S)
    (collectResult blake3 cfg (of_nat (length pages)) st \<lparr>res_PageIndex = of_nat i, res_Data = Inr (pages ! i)\<rparr>)"
proof -
  let ?ch = "map (\<lambda>i. if i \<in> S then pages ! i else replicate P 0) [0..<length pages]"
  note s = st[unfolded collected_def]
  have n: "length pages < 2 ^ 64" by (rule pages_bound[OF P(3,4)])
  have "i * P < 2 ^ 64"
    using i(1) P(3) by (meson le_less_trans less_imp_le_nat mult_le_mono1)
  then have off: "unat (of_nat i * cfg_PageSize cfg) = i * P"
    by (simp add: P(2) unat_word_ariths unat_of_nat mod_mult_left_eq)
  have ui: "unat (of_nat i :: u64) = i" using i n by (simp add: unat_of_nat)
  have lt: "(of_nat i :: u64) < of_nat (length pages)" using i n by (simp add: of_nat_u64_less)
  have ch: "\<forall>c \<in> set ?ch. length c = P" using P(1) by auto
  have "?ch[i := pages ! i] = map (\<lambda>j. if j \<in> insert i S then pages ! j else replicate P 0) [0..<length pages]"
    using i by (intro nth_equalityI) (auto simp: nth_list_update)
  then have f: "writeAt (concat ?ch) (i * P) (pages ! i) =
      concat (map (\<lambda>j. if j \<in> insert i S then pages ! j else replicate P 0) [0..<length pages])"
    using writeAt_concat[OF ch, of i "pages ! i"] P(1) i(1) by simp
  have seen: "(map (\<lambda>i. i \<in> S) [0..<length pages])[i := True] = map (\<lambda>j. j \<in> insert i S) [0..<length pages]"
    using i by (intro nth_equalityI) (auto simp: nth_list_update)
  have "finite S" using s finite_subset by blast
  then have card: "card (insert i S) = card S + 1" using i(2) by simp
  have seen_i: "\<not> gs_seenPages st ! i" using s i by simp
  have "collectResult blake3 cfg (of_nat (length pages)) st \<lparr>res_PageIndex = of_nat i, res_Data = Inr (pages ! i)\<rparr>
    = st\<lparr>gs_file := writeAt (gs_file st) (i * P) (pages ! i), gs_seenPages := (gs_seenPages st)[i := True],
        gs_written := gs_written st + cfg_PageSize cfg, gs_writtenPages := gs_writtenPages st + 1\<rparr>"
    using lt seen_i ok ui off by (simp add: collectResult_def linorder_not_le)
  moreover have "(of_nat (card S * P) :: u64) + cfg_PageSize cfg = of_nat (card (insert i S) * P)"
    by (simp add: card P(2) algebra_simps)
  ultimately show ?thesis
    using s i f seen card by (simp add: collected_def add.commute)
qed

lemma collected_fold:
  assumes "collected pages P S st" "distinct is" "set is \<subseteq> {..<length pages} - S"
    and P: "\<forall>c \<in> set pages. length c = P" "P = unat (cfg_PageSize cfg)" "length pages * P < 2 ^ 64" "0 < P"
    and ok: "\<And>i. i < length pages \<Longrightarrow> strictValidateBuiltPage blake3 (pages ! i) (of_nat i) (cfg_PageSize cfg) = Inr ()"
  shows "collected pages P (S \<union> set is)
    (foldl (collectResult blake3 cfg (of_nat (length pages))) st
      (map (\<lambda>i. \<lparr>res_PageIndex = of_nat i, res_Data = Inr (pages ! i)\<rparr>) is))"
  using assms(1-3)
proof (induction "is" arbitrary: S st)
  case (Cons i js)
  have "collected pages P (insert i S)
      (collectResult blake3 cfg (of_nat (length pages)) st \<lparr>res_PageIndex = of_nat i, res_Data = Inr (pages ! i)\<rparr>)"
    using Cons.prems(2,3) by (intro collected_step[OF Cons.prems(1) _ _ P ok]) auto
  from Cons.IH[OF this] show ?case using Cons.prems by (auto simp: insert_commute)
qed simp

lemma mset_eq_map:
  "mset ys = mset (map f xs) \<Longrightarrow> \<exists>zs. mset zs = mset xs \<and> ys = map f zs"
proof (induction ys arbitrary: xs)
  case (Cons y ys)
  then have "y \<in> set (map f xs)" by (metis list.set_intros(1) mset_eq_setD)
  then obtain x where x: "x \<in> set xs" "y = f x" by auto
  then have "mset (map f xs) = add_mset (f x) (mset (map f (remove1 x xs)))"
  proof -
    have "mset xs = add_mset x (mset xs - {#x#})" using x by simp
    then have "image_mset f (mset xs) = add_mset (f x) (image_mset f (mset xs - {#x#}))"
      by (metis image_mset_add_mset)
    then show ?thesis by simp
  qed
  then have "mset (y # ys) = add_mset (f x) (mset (map f (remove1 x xs)))" using Cons.prems by simp
  then have "mset ys = mset (map f (remove1 x xs))" using x by simp
  then obtain zs where "mset zs = mset (remove1 x xs)" "ys = map f zs" using Cons.IH by blast
  then show ?case using x by (intro exI[of _ "x # zs"]) simp
qed simp

text \<open>Every order of arrival gives the pages in their order.\<close>

lemma collectResults_perm:
  assumes P: "\<forall>c \<in> set pages. length c = P" "P = unat (cfg_PageSize cfg)" "length pages * P < 2 ^ 64" "0 < P"
    and ok: "\<And>i. i < length pages \<Longrightarrow> strictValidateBuiltPage blake3 (pages ! i) (of_nat i) (cfg_PageSize cfg) = Inr ()"
    and m: "man_TotalPages m = of_nat (length pages)" "man_TotalBytes m = of_nat (length pages * P)"
    and results: "mset results = mset (map (\<lambda>i. \<lparr>res_PageIndex = of_nat i, res_Data = Inr (pages ! i)\<rparr>) [0..<length pages])"
  shows "collectResults blake3 cfg m results = Inr (concat pages)"
proof -
  let ?n = "length pages"
  let ?st0 = "\<lparr>gs_file = replicate (?n * P) 0, gs_seenPages = replicate ?n False, gs_written = 0,
      gs_writtenPages = 0, gs_firstErr = None\<rparr>"
  obtain js where js: "mset js = mset [0..<?n]"
    "results = map (\<lambda>i. \<lparr>res_PageIndex = of_nat i, res_Data = Inr (pages ! i)\<rparr>) js"
    using mset_eq_map[OF results] by blast
  have d: "distinct js" "set js = {..<?n}"
    using js(1) by (metis distinct_upt mset_eq_imp_distinct_iff, metis atLeast0LessThan atLeastLessThan_upt mset_eq_setD)
  have n: "?n < 2 ^ 64" by (rule pages_bound[OF P(3,4)])
  have un: "unat (man_TotalPages m) = ?n" "unat (man_TotalBytes m) = ?n * P"
    using n P(3) unfolding m by (simp_all add: unat_of_nat del: of_nat_mult)
  have "concat (map (\<lambda>i. replicate P (0 :: byte)) [0..<k]) = replicate (k * P) 0" for k
    by (induction k) (simp_all add: replicate_add[symmetric] add.commute)
  moreover have "map (\<lambda>i. False) [0..<?n] = replicate ?n False" by (simp add: map_replicate_const)
  ultimately have st0: "collected pages P {} ?st0" by (simp add: collected_def)
  let ?st = "foldl (collectResult blake3 cfg (of_nat ?n)) ?st0 results"
  have fin: "collected pages P {..<?n} ?st"
    using collected_fold[OF st0 d(1) _ P ok] d(2) js(2) by simp
  have "map (\<lambda>i. if i \<in> {..<?n} then pages ! i else replicate P 0) [0..<?n] = pages"
    by (intro nth_equalityI) auto
  then have "gs_file ?st = concat pages" "gs_firstErr ?st = None" "gs_writtenPages ?st = of_nat ?n"
    "gs_written ?st = of_nat (?n * P)"
    using fin unfolding collected_def by simp_all
  then show ?thesis unfolding collectResults_def un Let_def by (simp add: m)
qed

text \<open>An error is remembered: a run that ends without one met only good pages.\<close>

lemma collectResult_err:
  "gs_firstErr st = Some e \<Longrightarrow> gs_firstErr (collectResult blake3 cfg n st r) = Some e"
  by (simp add: collectResult_def noteErr_def split: sum.splits)

lemma collectResult_ok:
  "gs_firstErr (collectResult blake3 cfg n st r) = None \<Longrightarrow>
     \<exists>d. res_Data r = Inr d \<and> strictValidateBuiltPage blake3 d (res_PageIndex r) (cfg_PageSize cfg) = Inr ()"
  by (auto simp: collectResult_def noteErr_def split: sum.splits if_splits)

lemma collect_fold_ok:
  "gs_firstErr (foldl (collectResult blake3 cfg n) st rs) = None \<Longrightarrow>
     gs_firstErr st = None \<and> (\<forall>r \<in> set rs. \<exists>d. res_Data r = Inr d
        \<and> strictValidateBuiltPage blake3 d (res_PageIndex r) (cfg_PageSize cfg) = Inr ())"
proof (induction rs arbitrary: st)
  case (Cons r rs)
  let ?st = "collectResult blake3 cfg n st r"
  have rest: "gs_firstErr ?st = None" "\<forall>r \<in> set rs. \<exists>d. res_Data r = Inr d
        \<and> strictValidateBuiltPage blake3 d (res_PageIndex r) (cfg_PageSize cfg) = Inr ()"
    using Cons.IH[of ?st] Cons.prems by auto
  then have "gs_firstErr st = None" using collectResult_err by (metis option.distinct(1) option.exhaust)
  then show ?case using rest collectResult_ok[OF rest(1)] by simp
qed simp

lemma collectResults_ok:
  "collectResults blake3 cfg m results = Inr f \<Longrightarrow> r \<in> set results \<Longrightarrow>
     \<exists>d. res_Data r = Inr d \<and> strictValidateBuiltPage blake3 d (res_PageIndex r) (cfg_PageSize cfg) = Inr ()"
  using collect_fold_ok[of blake3 cfg "man_TotalPages m" _ results]
  by (auto simp: collectResults_def Let_def split: option.splits)

lemma strict_length:
  assumes "strictValidateBuiltPage blake3 d i sz = Inr ()" "length d < 2 ^ 64"
  shows "length d = unat sz"
proof -
  have "of_nat (length d) = sz"
    using assms(1) by (auto simp: strictValidateBuiltPage_def verifyPageBytes_def)
  moreover have "unat (of_nat (length d) :: u64) = length d" using assms(2) by (simp add: unat_of_nat)
  ultimately show ?thesis by simp
qed

section \<open>The roots of a file\<close>

definition pageLeaf :: "(bytes \<Rightarrow> bytes) \<Rightarrow> string \<Rightarrow> u64 \<Rightarrow> u64 \<Rightarrow> bytes \<Rightarrow> hash32" where
  "pageLeaf blake3 treeID sz i page =
     (case verifyPageBytes blake3 page i sz of
        Inl e \<Rightarrow> zero32
      | Inr (h, ph, pc) \<Rightarrow> merkleLeafHash blake3 treeID h ph pc)"

definition isModelPage :: "(bytes \<Rightarrow> bytes) \<Rightarrow> u64 \<Rightarrow> u64 \<Rightarrow> bytes \<Rightarrow> bool" where
  "isModelPage blake3 sz i page =
     (case verifyPageBytes blake3 page i sz of
        Inl e \<Rightarrow> False
      | Inr (h, ph, pc) \<Rightarrow> hdr_PageType h = PageTypeModel)"

definition fileLeaves :: "(bytes \<Rightarrow> bytes) \<Rightarrow> string \<Rightarrow> u64 \<Rightarrow> bytes list \<Rightarrow> nat list \<Rightarrow> hash32 list" where
  "fileLeaves blake3 treeID sz pages is = map (\<lambda>i. pageLeaf blake3 treeID sz (of_nat i) (pages ! i)) is"

definition modelIndices :: "(bytes \<Rightarrow> bytes) \<Rightarrow> u64 \<Rightarrow> bytes list \<Rightarrow> nat \<Rightarrow> nat list" where
  "modelIndices blake3 sz pages k = filter (\<lambda>i. isModelPage blake3 sz (of_nat i) (pages ! i)) [0..<k]"

lemma addOr_acc_of:
  assumes "acc_of blake3 t xs m" "length xs + 1 < 2 ^ 64"
  shows "\<exists>m'. addOr blake3 m x = Inr m' \<and> acc_of blake3 t (xs @ [x]) m'"
  using AddLeaf_acc_of[OF assms, of x] by (auto simp: addOr_def)

lemma length_modelIndices: "length (modelIndices blake3 sz pages k) \<le> k"
  unfolding modelIndices_def by (metis length_filter_le length_upt minus_nat.diff_0)

definition accs_at where
  "accs_at blake3 sz pages k accs \<longleftrightarrow> (case accs of (a, t, p) \<Rightarrow>
     acc_of blake3 treeAIDag (fileLeaves blake3 treeAIDag sz pages [0..<k]) a
     \<and> acc_of blake3 treeTensor (fileLeaves blake3 treeTensor sz pages (modelIndices blake3 sz pages k)) t
     \<and> acc_of blake3 treePoW (fileLeaves blake3 treePoW sz pages [0..<k]) p)"

lemma addPage_accs:
  assumes "accs_at blake3 sz pages k accs" "k + 1 < 2 ^ 64"
    "verifyPageBytes blake3 (pages ! k) (of_nat k) sz = Inr (h, ph, pc)"
  shows "\<exists>accs'. addPage blake3 sz (of_nat k) (pages ! k) accs = Inr accs' \<and> accs_at blake3 sz pages (Suc k) accs'"
proof -
  obtain a t p where accs: "accs = (a, t, p)" by (cases accs)
  note acc = assms(1)[unfolded accs_at_def accs prod.case]
  have leaf: "pageLeaf blake3 u sz (of_nat k) (pages ! k) = merkleLeafHash blake3 u h ph pc" for u
    using assms(3) by (simp add: pageLeaf_def)
  have lens: "length (fileLeaves blake3 u sz pages [0..<k]) + 1 < 2 ^ 64"
    "length (fileLeaves blake3 u sz pages (modelIndices blake3 sz pages k)) + 1 < 2 ^ 64" for u
    using assms(2) length_modelIndices[of blake3 sz pages k] by (simp_all add: fileLeaves_def)
  obtain a' where a': "addOr blake3 a (merkleLeafHash blake3 treeAIDag h ph pc) = Inr a'"
    "acc_of blake3 treeAIDag (fileLeaves blake3 treeAIDag sz pages [0..<Suc k]) a'"
    using addOr_acc_of[OF conjunct1[OF acc] lens(1), of "merkleLeafHash blake3 treeAIDag h ph pc"] leaf
    by (auto simp: fileLeaves_def)
  obtain p' where p': "addOr blake3 p (merkleLeafHash blake3 treePoW h ph pc) = Inr p'"
    "acc_of blake3 treePoW (fileLeaves blake3 treePoW sz pages [0..<Suc k]) p'"
    using addOr_acc_of[OF conjunct2[OF conjunct2[OF acc]] lens(1), of "merkleLeafHash blake3 treePoW h ph pc"] leaf
    by (auto simp: fileLeaves_def)
  have next_mod: "modelIndices blake3 sz pages (Suc k) =
      modelIndices blake3 sz pages k @ (if hdr_PageType h = PageTypeModel then [k] else [])"
    using assms(3) by (simp add: modelIndices_def isModelPage_def)
  obtain t' where t': "(if hdr_PageType h = PageTypeModel then addOr blake3 t (merkleLeafHash blake3 treeTensor h ph pc)
        else Inr t) = Inr t'"
    "acc_of blake3 treeTensor (fileLeaves blake3 treeTensor sz pages (modelIndices blake3 sz pages (Suc k))) t'"
    using addOr_acc_of[OF conjunct1[OF conjunct2[OF acc]] lens(2), of "merkleLeafHash blake3 treeTensor h ph pc"]
      conjunct1[OF conjunct2[OF acc]] unfolding next_mod
    by (cases "hdr_PageType h = PageTypeModel") (auto simp: fileLeaves_def leaf)
  show ?thesis
    using a' p' t' by (simp add: addPage_def accs assms(3) dag_merkleLeafHash_eq accs_at_def split: if_splits)
qed

lemma rootsLoop_accs:
  assumes "\<And>i. i < length pages \<Longrightarrow> \<exists>h ph pc. verifyPageBytes blake3 (pages ! i) (of_nat i) sz = Inr (h, ph, pc)"
    "\<forall>c \<in> set pages. length c = unat sz" "length pages + 1 < 2 ^ 64" "sz \<noteq> 0"
    "accs_at blake3 sz pages k accs" "k \<le> length pages"
  shows "\<exists>accs'. rootsLoop blake3 sz (of_nat k) (concat (drop k pages)) accs = Inr accs'
    \<and> accs_at blake3 sz pages (length pages) accs'"
  using assms(5,6)
proof (induction "length pages - k" arbitrary: k accs)
  case 0
  then show ?case using assms(4) by (subst rootsLoop.simps) simp
next
  case (Suc n)
  then have k: "k < length pages" by simp
  have len: "length (pages ! k) = unat sz" using assms(2) k by simp
  have cc: "concat (drop k pages) = pages ! k @ concat (drop (Suc k) pages)"
    using k by (simp add: Cons_nth_drop_Suc[symmetric])
  obtain accs' where add: "addPage blake3 sz (of_nat k) (pages ! k) accs = Inr accs'"
    "accs_at blake3 sz pages (Suc k) accs'"
    using addPage_accs[OF Suc.prems(1)] assms(1)[OF k] assms(3) k by fastforce
  have ne: "pages ! k \<noteq> []" by (rule addPage_nonempty[OF add(1)])
  have "rootsLoop blake3 sz (of_nat k) (concat (drop k pages)) accs =
      rootsLoop blake3 sz (of_nat (Suc k)) (concat (drop (Suc k) pages)) accs'"
    using ne len add(1) unfolding cc by (subst rootsLoop.simps) (simp add: add.commute)
  then show ?case using Suc.hyps(1)[of "Suc k" accs'] Suc.hyps(2) add(2) k by simp
qed

text \<open>The Merkle root over the leaves of the listed pages.\<close>

definition leafRoot where
  "leafRoot blake3 treeID sz pages is =
     MerkleTree_Root blake3 (NewMerkleTree blake3 treeID (fileLeaves blake3 treeID sz pages is))"

lemma computeRoots_pages:
  assumes "\<And>i. i < length pages \<Longrightarrow> \<exists>h ph pc. verifyPageBytes blake3 (pages ! i) (of_nat i) sz = Inr (h, ph, pc)"
    "\<forall>c \<in> set pages. length c = unat sz" "length pages + 1 < 2 ^ 64" "sz \<noteq> 0"
  shows "computeRootsFromFile blake3 (concat pages) sz = Inr \<lparr>
     rt_AIDagRoot = leafRoot blake3 treeAIDag sz pages [0..<length pages],
     rt_TensorRoot = leafRoot blake3 treeTensor sz pages (modelIndices blake3 sz pages (length pages)),
     rt_PoWCommitRoot = leafRoot blake3 treePoW sz pages [0..<length pages],
     rt_AIDagLeafCount = of_nat (length pages),
     rt_TensorLeafCount = of_nat (length (modelIndices blake3 sz pages (length pages))),
     rt_PoWCommitLeafCount = of_nat (length pages)\<rparr>"
proof -
  have "accs_at blake3 sz pages 0
      (NewMerkleAccumulator treeAIDag, NewMerkleAccumulator treeTensor, NewMerkleAccumulator treePoW)"
    by (simp add: accs_at_def fileLeaves_def modelIndices_def acc_of_New)
  from rootsLoop_accs[OF assms this] obtain a t p where r:
    "rootsLoop blake3 sz 0 (concat pages)
      (NewMerkleAccumulator treeAIDag, NewMerkleAccumulator treeTensor, NewMerkleAccumulator treePoW) = Inr (a, t, p)"
    "accs_at blake3 sz pages (length pages) (a, t, p)" by auto
  note acc = r(2)[unfolded accs_at_def prod.case]
  have len: "length (fileLeaves blake3 u sz pages [0..<length pages]) < 2 ^ 64"
    "length (fileLeaves blake3 u sz pages (modelIndices blake3 sz pages (length pages))) < 2 ^ 64" for u
    using assms(3) length_modelIndices[of blake3 sz pages "length pages"] by (simp_all add: fileLeaves_def)
  have counts: "ma_count a = of_nat (length pages)" "ma_count p = of_nat (length pages)"
    "ma_count t = of_nat (length (modelIndices blake3 sz pages (length pages)))"
    using acc by (simp_all add: acc_of_def fileLeaves_def)
  show ?thesis
    using r(1) Accumulator_Root_acc_of[OF _ len(1)] Accumulator_Root_acc_of[OF _ len(2)] acc counts
    by (simp add: computeRootsFromFile_def leafRoot_def)
qed

section \<open>The model jobs\<close>

text \<open>The \<open>k\<close>-th shard of a model, zero-padded to \<open>P\<close> bytes.\<close>

definition shard :: "nat \<Rightarrow> bytes \<Rightarrow> nat \<Rightarrow> bytes" where
  "shard P model k = take P (drop (k * P) model)"

definition modelJob :: "Manifest \<Rightarrow> bytes \<Rightarrow> nat \<Rightarrow> Job" where
  "modelJob m model k = (let P = unat (man_PayloadSize m) in \<lparr>
     job_PageIndex = man_ModelStartPage m + of_nat k, job_PageType = PageTypeModel,
     job_ModelOffset = of_nat (k * P), job_ModelSize = of_nat (length (shard P model k)),
     job_ShardID = of_nat k, job_ShardCount = man_ModelPageCount m,
     job_Data = copyInto (replicate P 0) (shard P model k)\<rparr>)"

definition shardCount :: "nat \<Rightarrow> bytes \<Rightarrow> nat" where
  "shardCount P model = (length model + P - 1) div P"

lemma shardCount_less: "0 < P \<Longrightarrow> k < shardCount P model \<longleftrightarrow> k * P < length model"
proof -
  assume P: "0 < P"
  have "k < shardCount P model \<longleftrightarrow> Suc k * P \<le> length model + P - 1"
    using P by (simp add: shardCount_def less_eq_div_iff_mult_less_eq flip: Suc_le_eq)
  also have "\<dots> \<longleftrightarrow> k * P < length model" using P by auto
  finally show ?thesis .
qed

lemma enqueueModelJobs_spec:
  assumes P: "P = unat (man_PayloadSize m)" "0 < P" and L: "unat (man_ModelSize m) = length model"
    and k: "k \<le> shardCount P model"
  shows "enqueueModelJobs model m (of_nat (min (k * P) (length model))) (of_nat k) =
    Some (Inr (map (modelJob m model) [k..<shardCount P model]))"
  using k
proof (induction "shardCount P model - k" arbitrary: k)
  case 0
  then have "length model \<le> k * P" using shardCount_less[OF P(2), of k model] by simp
  then have "min (k * P) (length model) = length model" by simp
  moreover have "of_nat (length model) = man_ModelSize m" by (simp flip: L)
  ultimately show ?case using 0 by (subst enqueueModelJobs.simps) simp
next
  case (Suc n)
  then have kl: "k < shardCount P model" by simp
  then have kP: "k * P < length model" using shardCount_less[OF P(2)] by blast
  have L64: "length model < 2 ^ 64" using unsigned_less[of "man_ModelSize m", where 'a = nat] L by simp
  define off where "off = (of_nat (k * P) :: u64)"
  have off: "unat off = k * P" using kP L64 by (simp add: off_def unat_of_nat del: of_nat_mult)
  have less: "off < man_ModelSize m" using kP by (simp add: word_less_nat_alt off L)
  then have rem: "unat (man_ModelSize m - off) = length model - k * P"
    by (simp add: unat_sub word_less_nat_alt off L order_less_imp_le)
  define rs where "rs = (if man_ModelSize m - off < man_PayloadSize m then man_ModelSize m - off else man_PayloadSize m)"
  have rs: "unat rs = min P (length model - k * P)"
    by (simp add: rs_def P(1) word_less_nat_alt rem min_def)
  have got: "take (unat rs) (drop (unat off) model) = shard P model k"
    by (simp add: shard_def off rs min_def)
  have lgot: "length (shard P model k) = unat rs" by (simp add: shard_def rs min.commute)
  have "k * P + unat rs = min (Suc k * P) (length model)" using kP by (auto simp: rs min_def)
  then have next_off: "off + rs = of_nat (min (Suc k * P) (length model))"
  proof -
    assume "k * P + unat rs = min (Suc k * P) (length model)"
    then have "of_nat (unat off + unat rs) = (of_nat (min (Suc k * P) (length model)) :: u64)"
      by (simp only: off)
    then show ?thesis by simp
  qed
  have mn: "min (length model - unat off) (unat rs) = unat rs" by (simp add: off rs)
  have job: "\<lparr>job_PageIndex = man_ModelStartPage m + of_nat k, job_PageType = PageTypeModel, job_ModelOffset = off,
      job_ModelSize = rs, job_ShardID = of_nat k, job_ShardCount = man_ModelPageCount m,
      job_Data = copyInto (replicate (unat (man_PayloadSize m)) 0) (shard P model k)\<rparr> = modelJob m model k"
    by (simp add: modelJob_def off_def lgot flip: P(1))
  have IH: "enqueueModelJobs model m (off + rs) (of_nat k + 1) =
      Some (Inr (map (modelJob m model) [Suc k..<shardCount P model]))"
    using Suc.hyps(1)[of "Suc k"] Suc.hyps(2) kl next_off by (simp add: add.commute)
  have "enqueueModelJobs model m off (of_nat k) = Some (Inr (map (modelJob m model) [k..<shardCount P model]))"
    using less kl
    by (subst enqueueModelJobs.simps)
      (simp add: Let_def got lgot mn job IH upt_conv_Cons flip: rs_def)
  then show ?case using kP by (simp add: off_def)
qed

lemma concat_shards:
  assumes "0 < P"
  shows "concat (map (shard P model) [0..<k]) = take (k * P) model"
proof (induction k)
  case (Suc k)
  then show ?case using take_add[of "k * P" P model] by (simp add: shard_def add.commute)
qed simp

section \<open>Extraction\<close>

lemma extractLoop_spec:
  assumes pages: "\<forall>c \<in> set pages. length c = unat (man_PageSize m)" "length pages * unat (man_PageSize m) < 2 ^ 64"
    and P: "P = unat (man_PageSize m) - 160" "0 < P" "man_HeaderSize m = UnifiedHeaderSize"
    and L: "unat (man_ModelSize m) = length model"
    and range: "s + shardCount P model \<le> length pages" "man_ModelEndPage m = of_nat (s + shardCount P model)"
    and shards: "\<And>k. k < shardCount P model \<Longrightarrow> \<exists>h ph pc.
        verifyPageBytes blake3 (pages ! (s + k)) (of_nat (s + k)) (man_PageSize m) = Inr (h, ph, pc)
        \<and> hdr_PageType h = PageTypeModel
        \<and> drop 160 (pages ! (s + k)) = copyInto (replicate P 0) (shard P model k)"
    and k: "k \<le> shardCount P model"
  shows "extractLoop blake3 (concat pages) m (of_nat (s + k)) (of_nat (min (k * P) (length model))) (take (k * P) model)
    = Inr (man_ModelSize m, model)"
  using k
proof (induction "shardCount P model - k" arbitrary: k)
  case 0
  then have "length model \<le> k * P" using shardCount_less[OF P(2), of k model] by simp
  then have "min (k * P) (length model) = length model" "take (k * P) model = model" by simp_all
  moreover have "of_nat (length model) = man_ModelSize m" by (simp flip: L)
  ultimately show ?case using 0 range(2) by (subst extractLoop.simps) simp
next
  case (Suc n)
  then have kl: "k < shardCount P model" by simp
  then have kP: "k * P < length model" using shardCount_less[OF P(2)] by blast
  have L64: "length model < 2 ^ 64" using unsigned_less[of "man_ModelSize m", where 'a = nat] L by simp
  have sk: "s + k < length pages" using kl range(1) by simp
  have pos: "0 < unat (man_PageSize m)" using P by simp
  have n64: "length pages < 2 ^ 64" using pages_bound[OF pages(2) pos] .
  have lt: "(of_nat (s + k) :: u64) < man_ModelEndPage m"
    using of_nat_u64_less[of "s + k" "s + shardCount P model"] kl range sk n64 by simp
  have "(s + k) * unat (man_PageSize m) < 2 ^ 64"
    using sk pages(2) by (meson le_less_trans less_imp_le_nat mult_le_mono1)
  then have off: "unat (of_nat (s + k) * man_PageSize m) = (s + k) * unat (man_PageSize m)"
    by (simp add: unat_word_ariths unat_of_nat mod_mult_left_eq del: of_nat_add)
  have page: "take (unat (man_PageSize m)) (drop (unat (of_nat (s + k) * man_PageSize m)) (concat pages)) = pages ! (s + k)"
    using page_at[OF pages(1) sk] by (simp only: off)
  have lenp: "length (pages ! (s + k)) = unat (man_PageSize m)" using pages(1) sk by simp
  obtain h ph pc where v: "verifyPageBytes blake3 (pages ! (s + k)) (of_nat (s + k)) (man_PageSize m) = Inr (h, ph, pc)"
    "hdr_PageType h = PageTypeModel" "drop 160 (pages ! (s + k)) = copyInto (replicate P 0) (shard P model k)"
    using shards[OF kl] by blast
  define w where "w = (of_nat (min (k * P) (length model)) :: u64)"
  have w: "unat w = k * P" using kP L64 by (simp add: w_def unat_of_nat del: of_nat_mult)
  have left: "unat (man_ModelSize m - w) = length model - k * P"
    using kP by (simp add: unat_sub word_le_nat_alt w L)
  have P64: "unat (of_nat P :: u64) = P"
    using P(1) unsigned_less[of "man_PageSize m", where 'a = nat] by (simp add: unat_of_nat)
  define tw where "tw = (if man_ModelSize m - w > of_nat P then of_nat P else man_ModelSize m - w)"
  have tw: "unat tw = min P (length model - k * P)"
    by (auto simp: tw_def word_less_nat_alt left P64 min_def)
  then have tw0: "tw \<noteq> 0" using kP P(2) by (metis min_less_iff_conj unat_0 zero_less_diff less_irrefl)
  have payload: "take (unat tw) (copyInto (replicate P 0) (shard P model k)) = shard P model k"
    by (simp add: tw copyInto_def shard_def min_def)
  have "k * P + unat tw = min (Suc k * P) (length model)" using kP by (auto simp: tw min_def)
  then have "of_nat (unat w + unat tw) = (of_nat (min (Suc k * P) (length model)) :: u64)" by (simp only: w)
  then have next_w: "w + tw = of_nat (min (Suc k * P) (length model))" by simp
  have out: "take (k * P) model @ shard P model k = take (Suc k * P) model"
    using take_add[of "k * P" P model] by (simp add: shard_def add.commute)
  have IH: "extractLoop blake3 (concat pages) m (of_nat (s + k) + 1) (w + tw) (take (Suc k * P) model)
      = Inr (man_ModelSize m, model)"
    using Suc.hyps(1)[of "Suc k"] Suc.hyps(2) kl next_w by (simp add: add.commute)
  have "extractLoop blake3 (concat pages) m (of_nat (s + k)) w (take (k * P) model) = Inr (man_ModelSize m, model)"
    using lt lenp tw0 v IH
    by (subst extractLoop.simps)
      (simp only: Let_def page if_True not_True_eq_False if_False sum.case prod.case P(3) unat_UnifiedHeaderSize
        length_copyInto length_replicate payload out tw_def[symmetric] refl)
  then show ?case by (simp only: w_def)
qed

section \<open>The layout\<close>

lemma roundUp_div:
  assumes "0 < unat p" "unat v + unat p < 2 ^ 64"
  shows "unat (roundUp v p div p) = (unat v + unat p - 1) div unat p"
proof -
  define P V where "P = unat p" and "V = unat v"
  have P: "0 < P" using assms(1) by (simp add: P_def)
  show ?thesis
  proof (cases "V mod P = 0")
    case True
    then have q: "V = (V div P) * P" by (metis add.right_neutral div_mult_mod_eq)
    have "roundUp v p = v" using True by (simp add: roundUp_def word_unat_eq_iff unat_mod V_def P_def)
    moreover have "(V + P - 1) div P = V div P"
    proof (rule div_nat_eqI)
      show "P * (V div P) \<le> V + P - 1" using P by (subst q) (simp add: mult.commute)
      show "V + P - 1 < P * Suc (V div P)" using P q by (simp add: mult.commute)
    qed
    ultimately show ?thesis by (simp add: unat_div flip: V_def P_def)
  next
    case False
    have "p \<noteq> 0" using assms(1) by auto
    moreover have "v mod p \<noteq> 0" using False by (simp add: word_unat_eq_iff unat_mod V_def P_def)
    ultimately have ru: "roundUp v p = v + p - v mod p" by (simp add: roundUp_def)
    have "unat (v + p) = V + P" using assms(2) by (simp add: unat_word_ariths V_def P_def)
    moreover have "unat (v mod p) = V mod P" by (simp add: unat_mod V_def P_def)
    moreover have "V mod P \<le> V + P" by (meson mod_less_eq_dividend trans_le_add1)
    ultimately have "unat (roundUp v p) = V + P - V mod P" unfolding ru by (simp add: unat_sub word_le_nat_alt)
    also have "\<dots> = (V div P + 1) * P"
      by (metis Nat.add_diff_assoc2 add.commute add_diff_cancel_left' div_mult_mod_eq mod_less_eq_dividend mult_Suc plus_1_eq_Suc)
    finally have r: "unat (roundUp v p) = (V div P + 1) * P" .
    have "(V + P - 1) div P = V div P + 1"
    proof -
      have "(V div P + 1) * P = V div P * P + P" by simp
      then have "V + P - 1 = (V div P + 1) * P + (V mod P - 1)"
        using False div_mult_mod_eq[of V P] by linarith
      moreover have "V mod P - 1 < P" using P by (meson less_imp_diff_less mod_less_divisor)
      ultimately show ?thesis using P by (metis Euclidean_Rings.div_eq_0_iff div_mult_self3 add.right_neutral add.commute not_less0)
    qed
    then show ?thesis using r P by (simp add: unat_div flip: V_def P_def)
  qed
qed

lemma filter_upt_range: "a \<le> b \<Longrightarrow> b \<le> n \<Longrightarrow> filter (\<lambda>i. a \<le> i \<and> i < b) [0..<n] = [a..<b]" for a b n :: nat
proof -
  assume "a \<le> b" "b \<le> n"
  then have "[0..<n] = [0..<a] @ [a..<b] @ [b..<n]"
    by (metis append_assoc le_trans upt_add_eq_append zero_le le_add_diff_inverse)
  then show ?thesis by (simp add: filter_empty_conv)
qed

lemma fillerJobs_upt:
  "a \<le> b \<Longrightarrow> b < 2 ^ 64 \<Longrightarrow> fillerJobs (of_nat a) (of_nat b) = map (\<lambda>i. fillerJob (of_nat i)) [a..<b]"
proof (induction "b - a" arbitrary: a)
  case 0
  then show ?case by (subst fillerJobs.simps) simp
next
  case (Suc n)
  then have lt: "a < b" by simp
  then have "(of_nat a :: u64) < of_nat b" using Suc.prems by (simp add: of_nat_u64_less)
  moreover have "fillerJobs (of_nat a + 1) (of_nat b) = map (\<lambda>i. fillerJob (of_nat i)) [Suc a..<b]"
    using Suc.hyps(1)[of "Suc a"] Suc.hyps(2) Suc.prems lt by (simp add: add.commute)
  ultimately show ?case using lt by (subst fillerJobs.simps) (simp add: upt_conv_Cons)
qed

text \<open>A configuration that passed validation, the manifest laid out for a model, and the model.\<close>

definition generation :: "(bytes \<Rightarrow> bytes) \<Rightarrow> Config \<Rightarrow> Manifest \<Rightarrow> bytes \<Rightarrow> bool" where
  "generation blake3 cfg m model \<longleftrightarrow>
     (\<exists>numCPU cfg0. validateGenerateConfig numCPU True cfg0 = Inr cfg)
     \<and> cfg_PageSize cfg < 2 ^ 32
     \<and> layoutManifest cfg (fst (hashFile blake3 model)) (snd (hashFile blake3 model)) = Inr m
     \<and> model \<noteq> [] \<and> length model < 2 ^ 63"

lemma generation_layout:
  assumes "generation blake3 cfg m model"
  defines "P \<equiv> unat (cfg_PageSize cfg) - 160" and "N \<equiv> unat (man_TotalPages m)"
  shows "1024 \<le> unat (cfg_PageSize cfg)" "unat (cfg_PageSize cfg) < 2 ^ 32" "0 < P"
    "man_PageSize m = cfg_PageSize cfg" "man_HeaderSize m = UnifiedHeaderSize" "unat (man_PayloadSize m) = P"
    "unat (man_TotalBytes m) = N * unat (cfg_PageSize cfg)"
    "unat (man_ModelSize m) = length model" "man_ModelStartPage m = 1"
    "unat (man_ModelPageCount m) = shardCount P model"
    "unat (man_ModelEndPage m) = 1 + shardCount P model" "1 + shardCount P model \<le> N"
    "man_FillerStart m = man_ModelEndPage m" "man_FillerEnd m = man_TotalPages m"
    "N * unat (cfg_PageSize cfg) < 2 ^ 64" "0 < shardCount P model"
    "man_ModelHash m = formatHash (fst (hashFile blake3 model))"
proof -
  define w where "w = cfg_PageSize cfg - UnifiedHeaderSize"
  obtain numCPU cfg0 where v: "validateGenerateConfig numCPU True cfg0 = Inr cfg"
    using assms(1) by (auto simp: generation_def)
  have ps32: "cfg_PageSize cfg < 2 ^ 32"
    and lay: "layoutManifest cfg (fst (hashFile blake3 model)) (snd (hashFile blake3 model)) = Inr m"
    and model: "model \<noteq> []" "length model < 2 ^ 63"
    using assms(1) by (auto simp: generation_def)
  have ps: "\<not> cfg_PageSize cfg < 1024" "(cfg_SizeGB cfg * oneGiB) mod cfg_PageSize cfg = 0"
  proof -
    have c: "\<not> cfg_PageSize cfg0 < 1024" "(cfg_SizeGB cfg0 * oneGiB) mod cfg_PageSize cfg0 = 0"
      using v by (simp_all add: validateGenerateConfig_def)
    moreover have "cfg_PageSize cfg = cfg_PageSize cfg0 \<and> cfg_SizeGB cfg = cfg_SizeGB cfg0"
      using v by (auto simp: validateGenerateConfig_def Let_def simp del: if_Inl_eq_Inr split: if_splits)
    ultimately show "\<not> cfg_PageSize cfg < 1024" "(cfg_SizeGB cfg * oneGiB) mod cfg_PageSize cfg = 0" by simp_all
  qed
  show s1: "1024 \<le> unat (cfg_PageSize cfg)" using ps(1) by (simp add: word_less_nat_alt not_less)
  show s2: "unat (cfg_PageSize cfg) < 2 ^ 32" using ps32 by (simp add: word_less_nat_alt)
  show P0: "0 < P" using s1 by (simp add: P_def)
  have w: "unat w = P" using s1 by (simp add: w_def P_def UnifiedHeaderSize_def unat_sub word_le_nat_alt)
  have ms: "unat (snd (hashFile blake3 model)) = length model" using model(2) by (simp add: hashFile_def unat_of_nat)
  let ?cnt = "roundUp (snd (hashFile blake3 model)) w div w"
  have "unat (snd (hashFile blake3 model)) + unat w < 2 ^ 64" using ms w model(2) s2 by (simp add: P_def)
  then have cnt: "unat ?cnt = shardCount P model"
    using roundUp_div[of w "snd (hashFile blake3 model)"] w P0 ms by (simp add: shardCount_def)
  show sc: "0 < shardCount P model" using shardCount_less[OF P0, of 0 model] model(1) by simp
  have "shardCount P model \<le> length model"
    using shardCount_less[OF P0, of "length model" model] P0 by (cases P) auto
  then have end1: "unat (1 + ?cnt) = 1 + shardCount P model" using cnt model(2) by (simp add: unat_word_ariths)
  note m = lay[unfolded layoutManifest_def Let_def w_def[symmetric], simplified]
  show "man_PageSize m = cfg_PageSize cfg" "man_HeaderSize m = UnifiedHeaderSize" "man_ModelStartPage m = 1"
    "man_FillerStart m = man_ModelEndPage m" "man_FillerEnd m = man_TotalPages m"
    "man_ModelHash m = formatHash (fst (hashFile blake3 model))"
    using m by (auto simp: formatHash_def)
  show "unat (man_PayloadSize m) = P" using m w by auto
  show "unat (man_ModelSize m) = length model" using m ms by auto
  show "unat (man_ModelPageCount m) = shardCount P model" using m cnt by auto
  show "unat (man_ModelEndPage m) = 1 + shardCount P model" using m end1 by auto
  show "1 + shardCount P model \<le> N" using m end1 by (auto simp: N_def word_less_nat_alt not_less)
  have tot: "man_TotalBytes m = cfg_SizeGB cfg * oneGiB" "man_TotalPages m = man_TotalBytes m div cfg_PageSize cfg"
    using m by auto
  have "unat (man_TotalBytes m) mod unat (cfg_PageSize cfg) = 0"
    using ps(2) unfolding tot(1)[symmetric] by (metis unat_mod unat_0)
  then show tb: "unat (man_TotalBytes m) = N * unat (cfg_PageSize cfg)"
    unfolding N_def tot(2) by (simp add: unat_div) (metis add.right_neutral div_mult_mod_eq)
  show "N * unat (cfg_PageSize cfg) < 2 ^ 64"
    using unsigned_less[of "man_TotalBytes m", where 'a = nat] tb by simp
qed

section \<open>A generated file\<close>

definition genJobs :: "Config \<Rightarrow> Manifest \<Rightarrow> bytes \<Rightarrow> Job list" where
  "genJobs cfg m model =
     (let K = shardCount (unat (cfg_PageSize cfg) - 160) model
      in indexJob # map (modelJob m model) [0..<K]
         @ map (\<lambda>i. fillerJob (of_nat i)) [1 + K..<unat (man_TotalPages m)])"

lemma producerJobs_spec:
  assumes "generation blake3 cfg m model"
  shows "producerJobs model m = Some (Inr (genJobs cfg m model))"
proof -
  note l = generation_layout[OF assms]
  let ?P = "unat (cfg_PageSize cfg) - 160"
  have mj: "enqueueModelJobs model m 0 0 = Some (Inr (map (modelJob m model) [0..<shardCount ?P model]))"
    using enqueueModelJobs_spec[OF l(6)[symmetric] l(3) l(8), of 0] by simp
  have N: "unat (man_TotalPages m) < 2 ^ 64" using unsigned_less[of "man_TotalPages m", where 'a = nat] by simp
  have "man_ModelEndPage m = of_nat (1 + shardCount ?P model)"
    using arg_cong[OF l(11), of "of_nat :: nat \<Rightarrow> u64"] by simp
  moreover have "man_TotalPages m = of_nat (unat (man_TotalPages m))" by simp
  ultimately have "fillerJobs (man_FillerStart m) (man_FillerEnd m) =
      map (\<lambda>i. fillerJob (of_nat i)) [1 + shardCount ?P model..<unat (man_TotalPages m)]"
    using fillerJobs_upt[OF l(12) N] l(13,14) by metis
  then show ?thesis by (simp add: producerJobs_def mj genJobs_def Let_def)
qed

lemma genJobs_index:
  assumes "generation blake3 cfg m model"
  shows "length (genJobs cfg m model) = unat (man_TotalPages m)"
    "i < unat (man_TotalPages m) \<Longrightarrow> job_PageIndex (genJobs cfg m model ! i) = of_nat i"
    "k < shardCount (unat (cfg_PageSize cfg) - 160) model \<Longrightarrow> genJobs cfg m model ! (1 + k) = modelJob m model k"
    "i < unat (man_TotalPages m) \<Longrightarrow> job_PageType (genJobs cfg m model ! i) = PageTypeModel \<longleftrightarrow>
       1 \<le> i \<and> i < 1 + shardCount (unat (cfg_PageSize cfg) - 160) model"
proof -
  note l = generation_layout[OF assms]
  let ?K = "shardCount (unat (cfg_PageSize cfg) - 160) model"
  show "length (genJobs cfg m model) = unat (man_TotalPages m)"
    using l(12) by (simp add: genJobs_def Let_def)
  show "genJobs cfg m model ! (1 + k) = modelJob m model k" if "k < ?K" for k
    using that by (simp add: genJobs_def Let_def nth_append)
  have cases: "genJobs cfg m model ! i = (if i = 0 then indexJob else if i < 1 + ?K then modelJob m model (i - 1)
      else fillerJob (of_nat i))" if "i < unat (man_TotalPages m)" for i
    using that by (cases i) (auto simp: genJobs_def Let_def nth_append)
  show "job_PageIndex (genJobs cfg m model ! i) = of_nat i" if "i < unat (man_TotalPages m)" for i
    using cases[OF that] l(9)
    by (cases i) (auto simp: indexJob_def modelJob_def fillerJob_def Let_def)
  show "job_PageType (genJobs cfg m model ! i) = PageTypeModel \<longleftrightarrow> 1 \<le> i \<and> i < 1 + ?K"
    if "i < unat (man_TotalPages m)" for i
    using cases[OF that] by (auto simp: indexJob_def modelJob_def fillerJob_def Let_def PageTypeModel_def
        PageTypeIndex_def PageTypeFiller_def)
qed

lemma buildUnifiedPage_inv:
  assumes "buildUnifiedPage blake3 cfg m job = Inr page" "160 \<le> unat (cfg_PageSize cfg)" "unat (cfg_PageSize cfg) < 2 ^ 32"
  obtains payload where "buildPayload blake3 cfg m job (unat (cfg_PageSize cfg) - 160) = Inr payload"
    "page = finalPage blake3 cfg job payload" "length page = unat (cfg_PageSize cfg)"
    "verifyPageBytes blake3 page (job_PageIndex job) (cfg_PageSize cfg) =
       Inr (finalHeader blake3 cfg job payload, hashBytes blake3 payload, hdr_PageHash (finalHeader blake3 cfg job payload))"
    "strictValidateBuiltPage blake3 page (job_PageIndex job) (cfg_PageSize cfg) = Inr ()"
proof -
  have sz: "160 \<le> cfg_PageSize cfg" "cfg_PageSize cfg < 2 ^ 32"
    using assms(2,3) by (simp_all add: word_le_nat_alt word_less_nat_alt)
  have "\<not> cfg_PageSize cfg < 160" using sz(1) by (simp add: not_less)
  then obtain payload where p: "buildPayload blake3 cfg m job (unat (cfg_PageSize cfg) - 160) = Inr payload"
    using assms(1) by (auto simp: buildUnifiedPage_def Let_def UnifiedHeaderSize_def)
  have page: "page = finalPage blake3 cfg job payload"
    using buildUnifiedPage_ok[OF sz p] assms(1) by (auto split: if_splits)
  have "strictValidateBuiltPage blake3 page (job_PageIndex job) (cfg_PageSize cfg) = Inr ()"
    using assms(1) p \<open>\<not> cfg_PageSize cfg < 160\<close> page
    by (simp add: buildUnifiedPage_def Let_def UnifiedHeaderSize_def finalPage_def finalHeader_def)
  moreover have "length page = unat (cfg_PageSize cfg)" using page length_buildPayload[OF p] assms(2) by simp
  ultimately show thesis
    using that p page verifyPageBytes_finalPage[OF sz length_buildPayload[OF p] buildPayload_type[OF p]] by simp
qed

lemma generated_pages:
  assumes gen: "generation blake3 cfg m model"
    and results: "mset results = mset (map (pageWorker blake3 cfg m) (genJobs cfg m model))"
    and ok: "collectResults blake3 cfg m results = Inr file"
  obtains pages where "length pages = unat (man_TotalPages m)" "file = concat pages"
    "\<And>i. i < length pages \<Longrightarrow> buildUnifiedPage blake3 cfg m (genJobs cfg m model ! i) = Inr (pages ! i)"
    "\<forall>c \<in> set pages. length c = unat (cfg_PageSize cfg)"
    "\<And>rs. mset rs = mset results \<Longrightarrow> collectResults blake3 cfg m rs = Inr (concat pages)"
proof -
  note l = generation_layout[OF gen] and gj = genJobs_index[OF gen]
  let ?js = "genJobs cfg m model" and ?w = "pageWorker blake3 cfg m"
  have ps: "160 \<le> unat (cfg_PageSize cfg)" "unat (cfg_PageSize cfg) < 2 ^ 32" using l(1,2) by simp_all
  have "\<exists>d. buildUnifiedPage blake3 cfg m j = Inr d" if "j \<in> set ?js" for j
  proof -
    have "?w j \<in> set results" using that results by (metis imageI list.set_map mset_eq_setD)
    then show ?thesis using collectResults_ok[OF ok, of "?w j"] by (auto simp: pageWorker_def)
  qed
  then obtain pg where pg: "\<And>j. j \<in> set ?js \<Longrightarrow> buildUnifiedPage blake3 cfg m j = Inr (pg j)" by metis
  define pages where "pages = map pg ?js"
  have len: "length pages = unat (man_TotalPages m)" by (simp add: pages_def gj(1))
  have b: "buildUnifiedPage blake3 cfg m (?js ! i) = Inr (pages ! i)" if "i < length pages" for i
    using that pg by (simp add: pages_def)
  have lens: "\<forall>c \<in> set pages. length c = unat (cfg_PageSize cfg)"
    using b buildUnifiedPage_inv[OF _ ps] by (metis in_set_conv_nth)
  have strict: "strictValidateBuiltPage blake3 (pages ! i) (of_nat i) (cfg_PageSize cfg) = Inr ()" if "i < length pages" for i
    using buildUnifiedPage_inv[OF b[OF that] ps] gj(2)[of i] that len by metis
  have "map ?w ?js = map (\<lambda>i. \<lparr>res_PageIndex = of_nat i, res_Data = Inr (pages ! i)\<rparr>) [0..<length pages]"
    using len gj b by (intro nth_equalityI) (auto simp: pageWorker_def)
  then have perm: "mset results = mset (map (\<lambda>i. \<lparr>res_PageIndex = of_nat i, res_Data = Inr (pages ! i)\<rparr>) [0..<length pages])"
    using results by simp
  have tb: "man_TotalPages m = of_nat (length pages)" "man_TotalBytes m = of_nat (length pages * unat (cfg_PageSize cfg))"
    "length pages * unat (cfg_PageSize cfg) < 2 ^ 64"
    using len l(15) by (simp_all flip: l(7))
  have all: "collectResults blake3 cfg m rs = Inr (concat pages)" if "mset rs = mset results" for rs
    using collectResults_perm[OF lens refl tb(3) _ strict tb(1,2), of rs] ps perm that by simp
  show thesis
    by (rule that[of pages]) (use len b lens all ok in auto)
qed

text \<open>Generation succeeds when every page can be built.\<close>

lemma generation_progress:
  assumes gen: "generation blake3 cfg m model"
    and build: "\<And>j. j \<in> set (genJobs cfg m model) \<Longrightarrow> \<exists>d. buildUnifiedPage blake3 cfg m j = Inr d"
  shows "\<exists>file. collectResults blake3 cfg m (map (pageWorker blake3 cfg m) (genJobs cfg m model)) = Inr file"
proof -
  note l = generation_layout[OF gen] and gj = genJobs_index[OF gen]
  let ?js = "genJobs cfg m model"
  have ps: "160 \<le> unat (cfg_PageSize cfg)" "unat (cfg_PageSize cfg) < 2 ^ 32" using l(1,2) by simp_all
  obtain pg where pg: "\<And>j. j \<in> set ?js \<Longrightarrow> buildUnifiedPage blake3 cfg m j = Inr (pg j)" using build by metis
  define pages where "pages = map pg ?js"
  have len: "length pages = unat (man_TotalPages m)" by (simp add: pages_def gj(1))
  have b: "buildUnifiedPage blake3 cfg m (?js ! i) = Inr (pages ! i)" if "i < length pages" for i
    using that pg by (simp add: pages_def)
  have lens: "\<forall>c \<in> set pages. length c = unat (cfg_PageSize cfg)"
    using b buildUnifiedPage_inv[OF _ ps] by (metis in_set_conv_nth)
  have strict: "strictValidateBuiltPage blake3 (pages ! i) (of_nat i) (cfg_PageSize cfg) = Inr ()" if "i < length pages" for i
    using buildUnifiedPage_inv[OF b[OF that] ps] gj(2)[of i] that len by metis
  have "map (pageWorker blake3 cfg m) ?js = map (\<lambda>i. \<lparr>res_PageIndex = of_nat i, res_Data = Inr (pages ! i)\<rparr>) [0..<length pages]"
    using len gj b by (intro nth_equalityI) (auto simp: pageWorker_def)
  moreover have "man_TotalPages m = of_nat (length pages)" "man_TotalBytes m = of_nat (length pages * unat (cfg_PageSize cfg))"
    "length pages * unat (cfg_PageSize cfg) < 2 ^ 64"
    using len l(15) by (simp_all flip: l(7))
  ultimately show ?thesis using collectResults_perm[OF lens refl _ _ strict] ps by fastforce
qed

text \<open>Every page can be built when no hash is zero and the manifest fits the index page.\<close>

lemma generation_builds:
  assumes gen: "generation blake3 cfg m model"
    and nz: "\<And>x. finalizeHash (blake3 x) \<noteq> zero32"
    and idx: "length (json_marshal (manifest_json (canonicalManifestForIndex m))) \<le> unat (cfg_PageSize cfg) - 160"
    and j: "j \<in> set (genJobs cfg m model)"
  shows "\<exists>d. buildUnifiedPage blake3 cfg m j = Inr d"
proof -
  note l = generation_layout[OF gen]
  have ps: "160 \<le> cfg_PageSize cfg" "cfg_PageSize cfg < 2 ^ 32"
    using l(1,2) by (simp_all add: word_le_nat_alt word_less_nat_alt)
  have nz': "hashBytes blake3 p \<noteq> zero32" "hdr_PageHash (finalHeader blake3 cfg j p) \<noteq> zero32" for p
    using nz by (simp_all add: hashBytes_def finalHeader_def pageCommitHash_def blake3HashTagged_def Let_def del: blake3HashTagged_eq)
  have "\<exists>p. buildPayload blake3 cfg m j (unat (cfg_PageSize cfg) - 160) = Inr p"
  proof -
    consider "j = indexJob" | k where "j = modelJob m model k" | i where "j = fillerJob (of_nat i)"
      using j by (auto simp: genJobs_def Let_def)
    then show ?thesis
    proof cases
      case 1
      then show ?thesis using idx by (simp add: indexJob_def buildPayload_def buildIndexPayload_def Let_def)
    next
      case 2
      have "of_nat (unat (man_PayloadSize m)) = man_PayloadSize m" by simp
      then show ?thesis using 2 by (simp add: modelJob_def buildPayload_def Let_def PageTypeModel_def PageTypeIndex_def)
    next
      case 3
      then show ?thesis by (simp add: fillerJob_def buildPayload_def PageTypeModel_def PageTypeIndex_def PageTypeFiller_def)
    qed
  qed
  then obtain p where "buildPayload blake3 cfg m j (unat (cfg_PageSize cfg) - 160) = Inr p" by blast
  from buildUnifiedPage_ok[OF ps this] nz' show ?thesis by simp
qed

text \<open>A two-page DAG: one index page and one model page of 512 MiB.\<close>

definition genConfig :: Config where
  "genConfig = sampleConfig\<lparr>cfg_PageSize := 536870912\<rparr>"

definition genManifest :: Manifest where
  "genManifest = (case layoutManifest genConfig (replicate 32 1) 3 of Inr m \<Rightarrow> m | Inl _ \<Rightarrow> sampleManifest)"

abbreviation ones :: "bytes \<Rightarrow> bytes" where
  "ones \<equiv> \<lambda>_. replicate 32 1"

lemma sample_generation: "generation ones genConfig genManifest [1, 2, 3]"
proof -
  have "validateGenerateConfig 1 True genConfig = Inr genConfig"
    by (simp add: validateGenerateConfig_def genConfig_def sampleConfig_def UnifiedHeaderSize_def oneGiB_def)
  moreover have "hashFile ones [1, 2, 3] = (replicate 32 1, 3)" by (simp add: hashFile_def finalizeHash_def)
  moreover have "layoutManifest genConfig (replicate 32 1) 3 = Inr genManifest"
    by (simp add: genManifest_def layoutManifest_def genConfig_def sampleConfig_def UnifiedHeaderSize_def oneGiB_def
        maxInt_def roundUp_def Let_def)
  ultimately show ?thesis by (auto simp: generation_def genConfig_def intro: exI[of _ 1] exI[of _ genConfig])
qed

lemma genManifest_index_small:
  "length (json_marshal (manifest_json (canonicalManifestForIndex genManifest))) < 100000"
proof -
  let ?m = "canonicalManifestForIndex genManifest"
  note unf = manifest_members_def manifest_model_members_def canonicalManifestForIndex_def omitStr_def omitU64_def
    genManifest_def layoutManifest_def genConfig_def sampleConfig_def UnifiedHeaderSize_def oneGiB_def
    maxInt_def roundUp_def Let_def ManifestVersion_def MerkleVersion_def HashAlgorithm_def
  have "\<forall>(k, v) \<in> set (manifest_members ?m @ manifest_model_members ?m). jsmall v"
    by (simp add: unf)
  from length_jsonText_obj[OF this]
  have "length (jsonText (manifest_json ?m)) \<le>
      2 + sum_list (map (\<lambda>(k, v). 4 + 6 * length k + jbound v) (manifest_members ?m @ manifest_model_members ?m))"
    unfolding manifest_json_def .
  also have "\<dots> < 100000" by (simp add: unf)
  finally show ?thesis by (simp add: json_marshal_def)
qed

lemma sample_build:
  assumes "j \<in> set (genJobs genConfig genManifest [1, 2, 3])"
  shows "\<exists>d. buildUnifiedPage ones genConfig genManifest j = Inr d"
  by (rule generation_builds[OF sample_generation _ _ assms])
    (use genManifest_index_small in \<open>simp_all add: finalizeHash_def replicate_eq_replicate genConfig_def\<close>)

lemma sample_collect:
  "\<exists>file. collectResults ones genConfig genManifest
     (map (pageWorker ones genConfig genManifest) (genJobs genConfig genManifest [1, 2, 3])) = Inr file"
  by (rule generation_progress[OF sample_generation sample_build])

section \<open>Properties\<close>

text \<open>
  C30: Generation does not depend on scheduling. The producer enqueues one job per page; whatever
  the order in which the workers' results arrive, a successful run writes the same file, and if
  one order succeeds every order does.
\<close>

theorem generation_order_independent:
  assumes "generation blake3 cfg m model"
    "mset results = mset (map (pageWorker blake3 cfg m) (genJobs cfg m model))"
    "collectResults blake3 cfg m results = Inr file"
    "mset results' = mset results"
  shows "producerJobs model m = Some (Inr (genJobs cfg m model))
    \<and> collectResults blake3 cfg m results' = Inr file"
  using generated_pages[OF assms(1-3)] assms(4) producerJobs_spec[OF assms(1)] by metis

theorem generation_order_independent_witness:
  "\<exists>file. collectResults ones genConfig genManifest
     (rev (map (pageWorker ones genConfig genManifest) (genJobs genConfig genManifest [1, 2, 3]))) = Inr file"
  using sample_collect generation_order_independent[OF sample_generation refl, of _
      "rev (map (pageWorker ones genConfig genManifest) (genJobs genConfig genManifest [1, 2, 3]))"]
  by fastforce

text \<open>
  The roots computed from a generated file are the Merkle roots over the leaves of its pages
  (the tensor tree over the model pages only), and the leaf counts are the page counts of the
  manifest.
\<close>

lemma generated_roots:
  assumes gen: "generation blake3 cfg m model"
    and results: "mset results = mset (map (pageWorker blake3 cfg m) (genJobs cfg m model))"
    and ok: "collectResults blake3 cfg m results = Inr file"
  shows "\<exists>pages. file = concat pages \<and> length pages = unat (man_TotalPages m)
    \<and> (\<forall>i < length pages. buildUnifiedPage blake3 cfg m (genJobs cfg m model ! i) = Inr (pages ! i))
    \<and> (\<forall>c \<in> set pages. length c = unat (cfg_PageSize cfg))
    \<and> computeRootsFromFile blake3 file (man_PageSize m) = Inr \<lparr>
       rt_AIDagRoot = leafRoot blake3 treeAIDag (man_PageSize m) pages [0..<length pages],
       rt_TensorRoot = leafRoot blake3 treeTensor (man_PageSize m) pages [1..<1 + unat (man_ModelPageCount m)],
       rt_PoWCommitRoot = leafRoot blake3 treePoW (man_PageSize m) pages [0..<length pages],
       rt_AIDagLeafCount = man_TotalPages m, rt_TensorLeafCount = man_ModelPageCount m,
       rt_PoWCommitLeafCount = man_TotalPages m\<rparr>"
proof -
  note l = generation_layout[OF gen] and gj = genJobs_index[OF gen]
  obtain pages where pages: "length pages = unat (man_TotalPages m)" "file = concat pages"
    "\<And>i. i < length pages \<Longrightarrow> buildUnifiedPage blake3 cfg m (genJobs cfg m model ! i) = Inr (pages ! i)"
    "\<forall>c \<in> set pages. length c = unat (cfg_PageSize cfg)"
    using generated_pages[OF assms] by metis
  have ps: "160 \<le> unat (cfg_PageSize cfg)" "unat (cfg_PageSize cfg) < 2 ^ 32" using l(1,2) by simp_all
  have v: "\<exists>h ph pc. verifyPageBytes blake3 (pages ! i) (of_nat i) (cfg_PageSize cfg) = Inr (h, ph, pc)
      \<and> hdr_PageType h = job_PageType (genJobs cfg m model ! i)" if i: "i < length pages" for i
    using buildUnifiedPage_inv[OF pages(3)[OF i] ps] gj(2)[of i] i pages(1)
    by (metis (no_types, lifting) finalHeader_def unifiedHeader_def PageHeader.select_convs(3) PageHeader.update_convs(18))
  then have v': "\<And>i. i < length pages \<Longrightarrow>
      \<exists>h ph pc. verifyPageBytes blake3 (pages ! i) (of_nat i) (cfg_PageSize cfg) = Inr (h, ph, pc)" by blast
  have small: "length pages + 1 < 2 ^ 64"
  proof -
    have "length pages * 1024 \<le> length pages * unat (cfg_PageSize cfg)" using l(1) by (rule mult_le_mono2)
    moreover have "length pages * unat (cfg_PageSize cfg) < 2 ^ 64" using l(15) pages(1) by simp
    ultimately have "length pages * 1024 < 2 ^ 64" by (rule le_less_trans)
    then show ?thesis by simp
  qed
  let ?K = "shardCount (unat (cfg_PageSize cfg) - 160) model"
  have "modelIndices blake3 (cfg_PageSize cfg) pages (length pages) =
      filter (\<lambda>i. 1 \<le> i \<and> i < 1 + ?K) [0..<length pages]"
    unfolding modelIndices_def
  proof (rule filter_cong[OF refl])
    fix i assume "i \<in> set [0..<length pages]"
    then have i: "i < length pages" by simp
    obtain h ph pc where "verifyPageBytes blake3 (pages ! i) (of_nat i) (cfg_PageSize cfg) = Inr (h, ph, pc)"
      "hdr_PageType h = job_PageType (genJobs cfg m model ! i)" using v[OF i] by blast
    then show "isModelPage blake3 (cfg_PageSize cfg) (of_nat i) (pages ! i) = (1 \<le> i \<and> i < 1 + ?K)"
      using gj(4)[of i] i pages(1) by (simp add: isModelPage_def)
  qed
  also have "\<dots> = [1..<1 + ?K]" using l(12) pages(1) by (simp add: filter_upt_range)
  finally have mi: "modelIndices blake3 (cfg_PageSize cfg) pages (length pages) = [1..<1 + ?K]" .
  have "cfg_PageSize cfg \<noteq> 0" using l(1) by auto
  then have "computeRootsFromFile blake3 (concat pages) (cfg_PageSize cfg) = Inr \<lparr>
     rt_AIDagRoot = leafRoot blake3 treeAIDag (cfg_PageSize cfg) pages [0..<length pages],
     rt_TensorRoot = leafRoot blake3 treeTensor (cfg_PageSize cfg) pages [1..<1 + ?K],
     rt_PoWCommitRoot = leafRoot blake3 treePoW (cfg_PageSize cfg) pages [0..<length pages],
     rt_AIDagLeafCount = of_nat (length pages), rt_TensorLeafCount = of_nat ?K,
     rt_PoWCommitLeafCount = of_nat (length pages)\<rparr>"
    using computeRoots_pages[OF v' pages(4) small] unfolding mi by (simp del: upt_Suc)
  moreover have "of_nat ?K = man_ModelPageCount m" by (simp flip: l(10))
  ultimately show ?thesis using pages l(4,10) by (intro exI[of _ pages]) (simp del: upt_Suc)
qed

text \<open>
  Extraction undoes generation: from any successfully generated file, \<open>extractModel\<close>
  returns exactly the bytes of the model that was packed, hash check included.
\<close>

lemma generate_extract_roundtrip:
  assumes gen: "generation blake3 cfg m model"
    and results: "mset results = mset (map (pageWorker blake3 cfg m) (genJobs cfg m model))"
    and ok: "collectResults blake3 cfg m results = Inr file"
  shows "extractModel blake3 file m = Inr model"
proof -
  note l = generation_layout[OF gen] and gj = genJobs_index[OF gen]
  define P where "P = unat (cfg_PageSize cfg) - 160"
  let ?K = "shardCount P model"
  note K = l(10,11,12,16)[folded P_def]
  obtain pages where pages: "length pages = unat (man_TotalPages m)" "file = concat pages"
    "\<And>i. i < length pages \<Longrightarrow> buildUnifiedPage blake3 cfg m (genJobs cfg m model ! i) = Inr (pages ! i)"
    "\<forall>c \<in> set pages. length c = unat (cfg_PageSize cfg)"
    using generated_pages[OF assms] by metis
  have ps: "160 \<le> unat (cfg_PageSize cfg)" "unat (cfg_PageSize cfg) < 2 ^ 32" using l(1,2) by simp_all
  have shards: "\<exists>h ph pc. verifyPageBytes blake3 (pages ! (1 + k)) (of_nat (1 + k)) (man_PageSize m) = Inr (h, ph, pc)
      \<and> hdr_PageType h = PageTypeModel \<and> drop 160 (pages ! (1 + k)) = copyInto (replicate P 0) (shard P model k)"
    if k: "k < ?K" for k
  proof -
    have i: "1 + k < length pages" using k K(3) pages(1) by simp
    have job: "genJobs cfg m model ! (1 + k) = modelJob m model k" using gj(3)[of k] k by (simp add: P_def)
    obtain payload where p: "buildPayload blake3 cfg m (modelJob m model k) P = Inr payload"
      "pages ! (1 + k) = finalPage blake3 cfg (modelJob m model k) payload"
      "verifyPageBytes blake3 (pages ! (1 + k)) (job_PageIndex (modelJob m model k)) (cfg_PageSize cfg) =
         Inr (finalHeader blake3 cfg (modelJob m model k) payload, hashBytes blake3 payload,
              hdr_PageHash (finalHeader blake3 cfg (modelJob m model k) payload))"
      using buildUnifiedPage_inv[OF pages(3)[OF i] ps] unfolding job P_def by metis
    have "job_PageIndex (modelJob m model k) = of_nat (1 + k)" by (simp add: modelJob_def Let_def l(9))
    moreover have "hdr_PageType (finalHeader blake3 cfg (modelJob m model k) payload) = PageTypeModel"
      by (simp add: finalHeader_def unifiedHeader_def modelJob_def Let_def)
    moreover have "payload = copyInto (replicate P 0) (shard P model k)"
      using p(1) l(6) by (simp add: buildPayload_def modelJob_def Let_def PageTypeModel_def PageTypeIndex_def P_def
          split: if_splits)
    ultimately show ?thesis using p(2,3) l(4) by simp
  qed
  have end_eq: "man_ModelEndPage m = of_nat (1 + ?K)"
    using arg_cong[OF K(2), of "of_nat :: nat \<Rightarrow> u64"] by simp
  have "extractLoop blake3 (concat pages) m (of_nat (1 + 0)) (of_nat (min (0 * P) (length model))) (take (0 * P) model)
      = Inr (man_ModelSize m, model)"
    by (rule extractLoop_spec[OF _ _ _ _ l(5) l(8) _ end_eq shards])
      (use pages l K P_def in \<open>auto simp: P_def\<close>)
  then have "extractLoop blake3 file m (man_ModelStartPage m) 0 [] = Inr (man_ModelSize m, model)"
    using pages(2) l(9) by simp
  moreover have "man_ModelSize m = of_nat (length model)" by (simp flip: l(8))
  moreover have "man_ModelSize m \<noteq> 0" using l(8) gen by (auto simp: generation_def)
  moreover have "man_ModelPageCount m \<noteq> 0" using K(1,4) by auto
  ultimately show ?thesis
    using l(5,17) by (simp add: extractModel_def hashFile_def formatHash_eq equalHex_equiv(1))
qed

end
