(* ===== verification/Sidecar_Laws.thy ===== *)
theory Sidecar_Laws
  imports SidecarBuild DagGen_Laws
begin

text \<open>
  The sidecar file as a refinement of the Merkle trees in memory: what \<open>buildMerkleSidecarTempFromDAG\<close>
  writes is opened by both readers, and the proofs read from it are the proofs of the tree.
\<close>

section \<open>The header round trip\<close>

lemma decodeLevel_json: "fitsInt (lvl_Level l) \<Longrightarrow> decodeLevel (level_json l) = Some l"
  by (simp add: decodeLevel_def level_json_def decodeStruct_def levelFields_def fieldFor_def zeroLevel_def decode_simps)

lemma setSlice_levels:
  assumes "\<forall>l \<in> set ls. fitsInt (lvl_Level l)"
  shows "setSlice decodeLevel upd (levels_json ls) x = Some (upd (\<lambda>_. ls) x)"
proof -
  have "those (map (decodeLevel \<circ> level_json) ls) = Some (map id ls)"
    using assms by (intro those_Some) (simp add: decodeLevel_json)
  then show ?thesis by (simp add: levels_json_def decode_simps)
qed

lemma noRaw_sidecar [simp]: "noRaw (sidecar_json s)"
  by (auto simp: sidecar_json_def levels_json_def level_json_def)

lemma jdepth_level [simp]: "jdepth (level_json l) = 1"
  by (simp add: level_json_def jU64_def)

lemma jdepth_levels: "jdepth (levels_json ls) \<le> 2"
  by (auto simp: levels_json_def)

lemma jdepth_sidecar: "jdepth (sidecar_json s) \<le> 10000"
  using jdepth_levels[of "sm_PoWLevels s"] jdepth_levels[of "sm_TensorLevels s"]
  by (simp add: sidecar_json_def jU64_def)

lemma unmarshalSidecar_json:
  assumes "fitsInt (sm_Version s)" "fitsInt (sm_MerkleVersion s)"
    "\<forall>l \<in> set (sm_PoWLevels s) \<union> set (sm_TensorLevels s). fitsInt (lvl_Level l)"
  shows "unmarshalSidecar (json_marshal (sidecar_json s)) = Some s"
proof -
  have "decodeStruct sidecarFields (sidecar_json s) zeroSidecar = Some s"
    using assms
    by (simp add: sidecar_json_def decodeStruct_def sidecarFields_def fieldFor_def zeroSidecar_def decode_simps
        setSlice_levels)
  then show ?thesis by (simp add: unmarshalSidecar_def unmarshal_json jdepth_sidecar)
qed

section \<open>Levels on disk\<close>

text \<open>A level of a file that holds the given hashes, behind the reserved header.\<close>

definition holds :: "bytes \<Rightarrow> SidecarLevel \<Rightarrow> hash32 list \<Rightarrow> bool" where
  "holds f l hs \<longleftrightarrow> lvl_Count l = of_nat (length hs) \<and> lvl_Bytes l = lvl_Count l * sidecarHashSize
     \<and> (\<forall>h \<in> set hs. length h = 32) \<and> length f < 2 ^ 63
     \<and> (\<exists>pre post. f = pre @ concat hs @ post \<and> lvl_Offset l = of_nat (length pre) \<and> 2 ^ 20 \<le> length pre)"

lemma holds_length:
  assumes "holds f l hs"
  shows "32 * length hs < 2 ^ 63" "length hs + 1 < 2 ^ 64"
proof -
  show "32 * length hs < 2 ^ 63"
    using assms length_concat_const[of hs 32] by (auto simp: holds_def)
  then show "length hs + 1 < 2 ^ 64" by simp
qed

lemma holds_readAt:
  assumes "holds f l hs" "i < length hs"
  shows "readAt f 32 (lvl_Offset l + of_nat i * sidecarHashSize) = Inr (hs ! i)"
proof -
  obtain pre post where f: "f = pre @ concat hs @ post" "lvl_Offset l = of_nat (length pre)"
    and hs: "\<forall>h \<in> set hs. length h = 32" and len: "length f < 2 ^ 63"
    using assms(1) by (auto simp: holds_def)
  have "length (concat hs) = length hs * 32" using length_concat_const[OF hs] by simp
  then have end': "length pre + i * 32 + 32 \<le> length f" using assms(2) f(1) by simp
  have off: "lvl_Offset l + of_nat i * sidecarHashSize = of_nat (length pre + i * 32)"
    by (simp add: f(2) sidecarHashSize_def)
  have u: "unat (of_nat (length pre + i * 32) :: u64) = length pre + i * 32"
    using end' len by (simp only: unat_of_nat) (simp add: mod_less)
  have "(of_nat (length pre + i * 32) :: u64) < 2 ^ 63"
    using end' len u by (simp add: word_less_nat_alt del: of_nat_add of_nat_mult)
  moreover have "take 32 (drop (length pre + i * 32) f) = hs ! i"
    using page_at[OF hs assms(2)] f(1) \<open>length (concat hs) = length hs * 32\<close> assms(2) by simp
  ultimately show ?thesis
    using end' unfolding off readAt_eq_Inr u by simp
qed

lemma holds_readHash:
  assumes "holds f l hs" "i < length hs"
  shows "readHash f l (of_nat i) = Inr (hs ! i)" "readLevelHash f l (of_nat i) = Inr (hs ! i)"
proof -
  have "(of_nat i :: u64) < lvl_Count l"
    using assms holds_length[OF assms(1)] by (simp add: holds_def of_nat_u64_less)
  then show "readHash f l (of_nat i) = Inr (hs ! i)" "readLevelHash f l (of_nat i) = Inr (hs ! i)"
    using holds_readAt[OF assms] by (simp_all add: readHash_def readLevelHash_def not_le)
qed

lemma holds_append: "holds f l hs \<Longrightarrow> length (f @ g) < 2 ^ 63 \<Longrightarrow> holds (f @ g) l hs"
  by (fastforce simp: holds_def)

lemma holds_new:
  assumes "\<forall>h \<in> set hs. length h = 32" "length (f @ concat hs) < 2 ^ 63" "2 ^ 20 \<le> length f"
    "lvl_Count l = of_nat (length hs)" "lvl_Bytes l = lvl_Count l * sidecarHashSize" "lvl_Offset l = of_nat (length f)"
  shows "holds (f @ concat hs) l hs"
  using assms unfolding holds_def by (intro conjI exI[of _ f] exI[of _ "[]"]) auto

lemma holds_header:
  assumes "holds f l hs" "length buf = 2 ^ 20"
  shows "holds (writeAt f 0 buf) l hs"
proof -
  obtain pre post where f: "f = pre @ concat hs @ post" "lvl_Offset l = of_nat (length pre)" "2 ^ 20 \<le> length pre"
    using assms(1) by (auto simp: holds_def)
  have "writeAt f 0 buf = (buf @ drop (2 ^ 20) pre) @ concat hs @ post"
    using f(1,3) assms(2) by (simp add: writeAt_def)
  moreover have "length (buf @ drop (2 ^ 20) pre) = length pre" using f(3) assms(2) by simp
  moreover have "length (writeAt f 0 buf) = length f" using f(1,3) assms(2) by (simp add: writeAt_def)
  ultimately show ?thesis using assms(1) f unfolding holds_def by metis
qed

section \<open>Proofs read from the file\<close>

lemma of_nat_u64_odd: "a < 2 ^ 64 \<Longrightarrow> (of_nat a :: u64) mod 2 = 1 \<longleftrightarrow> odd a"
  by (simp add: word_unat_eq_iff unat_mod unat_of_nat odd_iff_mod_2_eq_one)

lemma sidecarSteps_tree:
  assumes "list_all2 (holds f) ls (buildLevels nd xs)" "i < length xs"
  shows "sidecarSteps f ls (of_nat i) = Inr (proofFrom formatHash (buildLevels nd xs) i)
    \<and> dag_sidecarSteps f ls (of_nat i) = Inr (proofFrom formatHash (buildLevels nd xs) i)"
  using assms
proof (induction "length xs" arbitrary: xs i ls rule: less_induct)
  case less
  show ?case
  proof (cases "1 < length xs")
    case False
    then have "buildLevels nd xs = [xs]" by (simp add: buildLevels.simps)
    then obtain l where "ls = [l]" using less.prems(1) by (auto simp: list_all2_Cons2)
    then show ?thesis using False by simp
  next
    case True
    define ys where "ys = nextLevel nd xs"
    have lev: "buildLevels nd xs = xs # buildLevels nd ys" using True by (simp add: buildLevels.simps[of nd xs] ys_def)
    obtain l ls' where ls: "ls = l # ls'" "holds f l xs" "list_all2 (holds f) ls' (buildLevels nd ys)"
      using less.prems(1) unfolding lev by (auto simp: list_all2_Cons2)
    obtain l2 ls2 where ls2: "ls' = l2 # ls2" using ls(3) buildLevels_ne[of nd ys] by (cases ls') auto
    have IH: "sidecarSteps f ls' (of_nat (i div 2)) = Inr (proofFrom formatHash (buildLevels nd ys) (i div 2))
      \<and> dag_sidecarSteps f ls' (of_nat (i div 2)) = Inr (proofFrom formatHash (buildLevels nd ys) (i div 2))"
      using less.hyps[of ys ls' "i div 2"] True less.prems(2) ls(3) by (simp add: ys_def)
    have n: "length xs + 1 < 2 ^ 64" by (rule holds_length(2)[OF ls(2)])
    then have i: "i < 2 ^ 64" "i + 1 < 2 ^ 64" using less.prems(2) by simp_all
    have "(of_nat i :: u64) + 1 = of_nat (i + 1)" by simp
    then have lt: "(of_nat i :: u64) + 1 < lvl_Count l \<longleftrightarrow> i + 1 < length xs"
      using of_nat_u64_less[of "i + 1" "length xs"] i n ls(2) by (simp only: holds_def)
    note ar = of_nat_u64_div2[OF i(1)] of_nat_u64_mod2[OF i(1)] lt of_nat_u64_odd[OF i(1)]
    have right: "readHash f l (of_nat i + 1) = Inr (xs ! (i + 1))" "readLevelHash f l (of_nat i + 1) = Inr (xs ! (i + 1))"
      if "i + 1 < length xs"
      using holds_readHash[OF ls(2) that] by (simp_all add: add.commute)
    have left: "readHash f l (of_nat i - 1) = Inr (xs ! (i - 1))" "readLevelHash f l (of_nat i - 1) = Inr (xs ! (i - 1))"
      if "odd i"
    proof -
      have e: "(of_nat i - 1 :: u64) = of_nat (i - 1)" using that by (cases i) auto
      show "readHash f l (of_nat i - 1) = Inr (xs ! (i - 1))" "readLevelHash f l (of_nat i - 1) = Inr (xs ! (i - 1))"
        unfolding e using holds_readHash[OF ls(2), of "i - 1"] less.prems(2) by simp_all
    qed
    have "proofFrom formatHash (buildLevels nd xs) i =
        (if even i then (if i + 1 < length xs
          then [\<lparr>step_Side = proofSideRight, step_Hash = formatHash (xs ! (i + 1))\<rparr>] else [])
         else [\<lparr>step_Side = proofSideLeft, step_Hash = formatHash (xs ! (i - 1))\<rparr>])
        @ proofFrom formatHash (buildLevels nd ys) (i div 2)"
      using proofFrom_step[OF True, of formatHash nd i] by (simp add: ys_def)
    then show ?thesis
      using IH right left unfolding ls(1) ls2 by (simp add: ar formatHash_def)
  qed
qed

section \<open>Building the upper levels\<close>

lemma parentLevel_nextLevel:
  assumes "\<forall>h \<in> set hs. length h = 32" "i + length hs + 2 < 2 ^ 64"
  shows "parentLevel nd (of_nat i) (of_nat (i + length hs)) (concat hs) = Inr (nextLevel nd hs)"
  using assms
proof (induction nd hs arbitrary: i rule: nextLevel.induct[case_names pair none single])
  case (pair nd a b cur)
  have e: "(of_nat i :: u64) + 1 = of_nat (i + 1)" "(of_nat i :: u64) + 2 = of_nat (i + 2)" by simp_all
  have c: "(of_nat i :: u64) < of_nat (i + length (a # b # cur))" "(of_nat i :: u64) + 1 < of_nat (i + length (a # b # cur))"
    using pair.prems(2) unfolding e by (simp_all add: of_nat_u64_less del: of_nat_add of_nat_Suc)
  have r: "readHashFromReader (concat (a # b # cur)) = Inr (a, b @ concat cur)"
    "readHashFromReader (b @ concat cur) = Inr (b, concat cur)"
    using pair.prems(1) by (simp_all add: readHashFromReader_def)
  have IH: "parentLevel nd (of_nat i + 2) (of_nat (i + length (a # b # cur))) (concat cur) = Inr (nextLevel nd cur)"
  proof -
    have l: "i + 2 + length cur = i + length (a # b # cur)" by simp
    have "\<forall>h \<in> set cur. length h = 32" "i + 2 + length cur + 2 < 2 ^ 64" using pair.prems by simp_all
    from pair.IH[OF this] show ?thesis by (simp only: e(2) l)
  qed
  show ?case by (subst parentLevel.simps) (simp only: c r IH if_True sum.case prod.case bindE_simps nextLevel.simps)
next
  case (none nd)
  then show ?case by (subst parentLevel.simps) simp
next
  case (single nd a)
  have e: "(of_nat i :: u64) + 1 = of_nat (i + 1)" "(of_nat i :: u64) + 2 = of_nat (i + 2)" by simp_all
  have c: "(of_nat i :: u64) < of_nat (i + length [a])" "\<not> (of_nat i :: u64) + 1 < of_nat (i + length [a])"
    "\<not> (of_nat i :: u64) + 2 < of_nat (i + length [a])"
    using single.prems(2) unfolding e by (simp_all add: of_nat_u64_less del: of_nat_add of_nat_Suc)
  have r: "readHashFromReader (concat [a]) = Inr (a, [])" using single.prems(1) by (simp add: readHashFromReader_def)
  have "parentLevel nd (of_nat i + 2) (of_nat (i + length [a])) [] = Inr []"
    using c(3) by (subst parentLevel.simps) simp
  then show ?case by (subst parentLevel.simps) (simp only: c r if_True if_False sum.case prod.case bindE_simps nextLevel.simps)
qed

lemma holds_section:
  assumes "holds f l hs"
  shows "sectionOf f (lvl_Offset l) (lvl_Bytes l) = concat hs"
proof -
  obtain pre post where f: "f = pre @ concat hs @ post" "lvl_Offset l = of_nat (length pre)"
    and hs: "\<forall>h \<in> set hs. length h = 32" and len: "length f < 2 ^ 63"
    and b: "lvl_Bytes l = of_nat (length hs) * sidecarHashSize"
    using assms by (auto simp: holds_def)
  have c: "length (concat hs) = length hs * 32" using length_concat_const[OF hs] by simp
  have b': "lvl_Bytes l = of_nat (length hs * 32)" by (simp add: b sidecarHashSize_def)
  have u: "unat (lvl_Bytes l) = length hs * 32" "unat (lvl_Offset l) = length pre"
    using f(1) len c unfolding b' f(2) by (simp_all only: unat_of_nat) (simp_all add: mod_less)
  then have "lvl_Bytes l < 2 ^ 63" "lvl_Offset l < 2 ^ 63"
    using f(1) len c by (simp_all add: word_less_nat_alt)
  then have "\<not> (lvl_Offset l \<ge> 2 ^ 63 \<or> lvl_Bytes l \<ge> 2 ^ 63)" by (simp add: not_le)
  then show ?thesis using u c f(1) unfolding sectionOf_def by simp
qed

lemma length_buildLevels: "xs \<noteq> [] \<Longrightarrow> length (buildLevels nd xs) \<le> length xs"
proof (induction nd xs rule: buildLevels.induct)
  case (1 nd xs)
  show ?case
  proof (cases "1 < length xs")
    case True
    then have "nextLevel nd xs \<noteq> []" using length_nextLevel[of nd xs] by (cases "nextLevel nd xs") auto
    then show ?thesis using "1.IH"[OF True] True by (simp add: buildLevels.simps[of nd xs])
  next
    case False
    then show ?thesis using "1.prems" by (cases xs) (simp_all add: buildLevels.simps)
  qed
qed

text \<open>The levels a file receives behind level 0, in order.\<close>

definition upperBytes :: "(hash32 \<Rightarrow> hash32 \<Rightarrow> hash32) \<Rightarrow> hash32 list \<Rightarrow> bytes" where
  "upperBytes nd xs = concat (concat (tl (buildLevels nd xs)))"

lemma upperBytes_step:
  "1 < length xs \<Longrightarrow> upperBytes nd xs = concat (nextLevel nd xs) @ upperBytes nd (nextLevel nd xs)"
  "length xs \<le> 1 \<Longrightarrow> upperBytes nd xs = []"
proof -
  show "1 < length xs \<Longrightarrow> upperBytes nd xs = concat (nextLevel nd xs) @ upperBytes nd (nextLevel nd xs)"
    using hd_buildLevels[of nd "nextLevel nd xs"] buildLevels_ne[of nd "nextLevel nd xs"]
    by (cases "buildLevels nd (nextLevel nd xs)") (auto simp: upperBytes_def buildLevels.simps[of nd xs])
qed (simp add: upperBytes_def buildLevels.simps[of nd xs])

text \<open>What the new levels satisfy besides holding their hashes.\<close>

definition linked :: "SidecarLevel \<Rightarrow> SidecarLevel list \<Rightarrow> bool" where
  "linked l new \<longleftrightarrow> (\<forall>name. checkLevels name (Some l) (lvl_Level l + 1) new = Inr ()
       \<and> validateLevelsFrom name (Some l) (lvl_Level l + 1) new = Inr ())
     \<and> (\<forall>x \<in> set new. lvl_Level l < lvl_Level x \<and> lvl_Level x \<le> lvl_Level l + int (length new))"

lemma linked_Nil [simp]: "linked l []"
  by (simp add: linked_def)

lemma linked_Cons:
  assumes "linked n new" "lvl_Level n = lvl_Level l + 1" "lvl_Count n \<noteq> 0" "lvl_Bytes n = lvl_Count n * sidecarHashSize"
    "lvl_Count n = (lvl_Count l + 1) div 2"
  shows "linked l (n # new)"
  using assms by (auto simp: linked_def)

lemma holds_count:
  assumes "holds f l xs" "xs \<noteq> []"
  shows "lvl_Count l \<noteq> 0" "lvl_Count l > 1 \<longleftrightarrow> 1 < length xs" "(lvl_Count l + 1) div 2 = of_nat ((length xs + 1) div 2)"
proof -
  note n = holds_length(2)[OF assms(1)]
  have c: "lvl_Count l = of_nat (length xs)" using assms(1) by (simp add: holds_def)
  show "lvl_Count l \<noteq> 0" using of_nat_u64_eq[of "length xs" 0] n assms(2) by (simp add: c)
  show "lvl_Count l > 1 \<longleftrightarrow> 1 < length xs" using of_nat_u64_less[of 1 "length xs"] n by (simp add: c)
  show "(lvl_Count l + 1) div 2 = of_nat ((length xs + 1) div 2)" using of_nat_u64_half_up[OF n] by (simp add: c)
qed

lemma upperLevels_built:
  assumes "holds f l xs" "xs \<noteq> []" "\<And>a b. length (nd a b) = 32" "length (f @ upperBytes nd xs) < 2 ^ 63"
  shows "\<exists>new. appendSidecarUpperLevels nd f (pre @ [l]) = Inr (f @ upperBytes nd xs, pre @ l # new)
    \<and> list_all2 (holds (f @ upperBytes nd xs)) (l # new) (buildLevels nd xs) \<and> linked l new"
  using assms
proof (induction "length xs" arbitrary: xs f l pre rule: less_induct)
  case less
  note hc = holds_count[OF less.prems(1,2)]
  show ?case
  proof (cases "1 < length xs")
    case False
    then have "appendSidecarUpperLevels nd f (pre @ [l]) = Inr (f, pre @ [l])"
      using hc(2) by (simp add: appendSidecarUpperLevels.simps)
    then show ?thesis using False less.prems(1) upperBytes_step(2)[of xs nd]
      by (intro exI[of _ "[]"]) (simp add: buildLevels.simps)
  next
    case True
    define ys where "ys = nextLevel nd xs"
    define n where "n = \<lparr>lvl_Level = lvl_Level l + 1, lvl_Count = (lvl_Count l + 1) div 2, lvl_Offset = of_nat (length f),
      lvl_Bytes = ((lvl_Count l + 1) div 2) * sidecarHashSize\<rparr>"
    have xs32: "\<forall>h \<in> set xs. length h = 32" using less.prems(1) by (simp add: holds_def)
    have ys32: "\<forall>h \<in> set ys. length h = 32"
      using xs32 less.prems(3) unfolding ys_def by (induction nd xs rule: nextLevel.induct) auto
    have leny: "length ys = (length xs + 1) div 2" by (simp add: ys_def)
    have ysne: "ys \<noteq> []" using True leny by (cases ys) auto
    have ub: "upperBytes nd xs = concat ys @ upperBytes nd ys" using upperBytes_step(1)[OF True] by (simp add: ys_def)
    have l20: "2 ^ 20 \<le> length f" using less.prems(1) by (auto simp: holds_def)
    have nh: "holds (f @ concat ys) n ys"
      using less.prems(4) ub l20 ys32 hc(3) leny by (intro holds_new) (simp_all add: n_def)
    have "length xs + 2 < 2 ^ 64" using holds_length(1)[OF less.prems(1)] by simp
    then have pl: "parentLevel nd 0 (lvl_Count l) (concat xs) = Inr ys"
      using parentLevel_nextLevel[OF xs32, of 0 nd] less.prems(1) by (simp add: holds_def ys_def)
    have step: "appendSidecarUpperLevels nd f (pre @ [l]) = appendSidecarUpperLevels nd (f @ concat ys) ((pre @ [l]) @ [n])"
      using hc(2) True less.prems(1) pl holds_section[OF less.prems(1)]
      by (subst appendSidecarUpperLevels.simps) (simp add: holds_def n_def Let_def)
    have "length ys < length xs" using True leny by simp
    moreover have "length ((f @ concat ys) @ upperBytes nd ys) < 2 ^ 63" using less.prems(4) ub by simp
    ultimately obtain new where new: "appendSidecarUpperLevels nd (f @ concat ys) ((pre @ [l]) @ [n]) =
        Inr ((f @ concat ys) @ upperBytes nd ys, (pre @ [l]) @ n # new)"
      "list_all2 (holds ((f @ concat ys) @ upperBytes nd ys)) (n # new) (buildLevels nd ys)" "linked n new"
      using less.hyps[OF _ nh ysne less.prems(3)] by blast
    have "holds (f @ upperBytes nd xs) l xs" using holds_append[OF less.prems(1) less.prems(4)] .
    moreover have "linked l (n # new)"
      using holds_count(1)[OF nh ysne] by (intro linked_Cons[OF new(3)]) (simp_all add: n_def)
    moreover have "buildLevels nd xs = xs # buildLevels nd ys" using True by (simp add: buildLevels.simps[of nd xs] ys_def)
    ultimately show ?thesis using new(1,2) step ub by (intro exI[of _ "n # new"]) simp
  qed
qed

lemma list_all2_last: "list_all2 P xs ys \<Longrightarrow> xs \<noteq> [] \<Longrightarrow> P (last xs) (last ys)"
  by (induction rule: list_all2_induct) (auto split: if_splits)

lemma level_root:
  assumes "list_all2 (holds f) (l # new) (buildLevels nd xs)" "xs \<noteq> []"
  shows "lvl_Count (last (l # new)) = 1" "readSidecarRoot f (l # new) = Inr (treeRoot nd xs)"
proof -
  have h: "holds f (last (l # new)) [treeRoot nd xs]"
    using list_all2_last[OF assms(1)] last_buildLevels[OF assms(2), of nd] by simp
  then show c: "lvl_Count (last (l # new)) = 1" by (simp add: holds_def)
  have "lvl_Bytes (last (l # new)) = sidecarHashSize" using h by (simp add: holds_def)
  moreover have "readAt f 32 (lvl_Offset (last (l # new))) = Inr (treeRoot nd xs)"
    using holds_readAt[OF h, of 0] by simp
  ultimately show "readSidecarRoot f (l # new) = Inr (treeRoot nd xs)" using c by (simp only: readSidecarRoot_def) simp
qed

section \<open>Trees on disk\<close>

text \<open>The levels \<open>ls\<close> of the file \<open>f\<close> are the Merkle tree over \<open>xs\<close>, and both readers accept them.\<close>

definition diskTree :: "(hash32 \<Rightarrow> hash32 \<Rightarrow> hash32) \<Rightarrow> bytes \<Rightarrow> SidecarLevel list \<Rightarrow> hash32 list \<Rightarrow> bool" where
  "diskTree nd f ls xs \<longleftrightarrow> xs \<noteq> [] \<and> list_all2 (holds f) ls (buildLevels nd xs)
     \<and> (\<forall>name. checkLevels name None 0 ls = Inr () \<and> validateLevelsFrom name None 0 ls = Inr ())
     \<and> (\<forall>l \<in> set ls. fitsInt (lvl_Level l))"

lemma diskTree_levels:
  assumes "diskTree nd f ls xs"
  shows "ls \<noteq> []" "lvl_Count (ls ! 0) = of_nat (length xs)" "lvl_Count (last ls) = 1"
    "readSidecarRoot f ls = Inr (treeRoot nd xs)" "length xs + 1 < 2 ^ 64" "\<forall>h \<in> set xs. length h = 32"
proof -
  obtain l new where ls: "ls = l # new" "list_all2 (holds f) (l # new) (buildLevels nd xs)" "xs \<noteq> []"
    using assms buildLevels_ne[of nd xs] by (cases ls) (auto simp: diskTree_def)
  obtain lv where "buildLevels nd xs = xs # lv" using hd_buildLevels[of nd xs] buildLevels_ne[of nd xs] by (metis list.collapse)
  then have "holds f l xs" using ls(2) by simp
  then show "lvl_Count (ls ! 0) = of_nat (length xs)" "length xs + 1 < 2 ^ 64" "\<forall>h \<in> set xs. length h = 32"
    using holds_length(2)[OF \<open>holds f l xs\<close>] by (simp_all add: holds_def ls(1))
  show "ls \<noteq> []" "lvl_Count (last ls) = 1" "readSidecarRoot f ls = Inr (treeRoot nd xs)"
    using level_root[OF ls(2,3)] by (simp_all only: ls(1)) simp
qed

lemma diskTree_mono: "diskTree nd f ls xs \<Longrightarrow> (\<And>l hs. holds f l hs \<Longrightarrow> holds g l hs) \<Longrightarrow> diskTree nd g ls xs"
  using list_all2_mono[of "holds f" ls "buildLevels nd xs" "holds g"] by (simp add: diskTree_def)

lemma diskTree_append: "diskTree nd f ls xs \<Longrightarrow> length (f @ g) < 2 ^ 63 \<Longrightarrow> diskTree nd (f @ g) ls xs"
  by (erule diskTree_mono) (rule holds_append)

lemma diskTree_header: "diskTree nd f ls xs \<Longrightarrow> length buf = 2 ^ 20 \<Longrightarrow> diskTree nd (writeAt f 0 buf) ls xs"
  by (erule diskTree_mono) (rule holds_header)

lemma diskTree_built:
  assumes "xs \<noteq> []" "\<forall>h \<in> set xs. length h = 32" "\<And>a b. length (nd a b) = 32" "2 ^ 20 \<le> length pre"
    "length (pre @ concat xs @ post @ upperBytes nd xs) < 2 ^ 63"
  shows "\<exists>ls. appendSidecarUpperLevels nd (pre @ concat xs @ post) [level0 (of_nat (length xs)) (of_nat (length pre))]
      = Inr (pre @ concat xs @ post @ upperBytes nd xs, ls)
    \<and> diskTree nd (pre @ concat xs @ post @ upperBytes nd xs) ls xs"
proof -
  let ?f = "pre @ concat xs @ post" and ?l = "level0 (of_nat (length xs)) (of_nat (length pre))"
  have h: "holds ?f ?l xs"
    using assms(2,4,5) by (auto simp: holds_def level0_def)
  obtain new where new: "appendSidecarUpperLevels nd ?f ([] @ [?l]) = Inr (?f @ upperBytes nd xs, [] @ ?l # new)"
    "list_all2 (holds (?f @ upperBytes nd xs)) (?l # new) (buildLevels nd xs)" "linked ?l new"
    using upperLevels_built[where nd = nd and pre = "[]", OF h assms(1,3)] assms(5) by auto
  have "length xs < 2 ^ 58" using holds_length(1)[OF h] by simp
  moreover have "length new < length xs"
    using length_buildLevels[OF assms(1), of nd] list_all2_lengthD[OF new(2)] by simp
  ultimately have "\<forall>x \<in> set (?l # new). fitsInt (lvl_Level x)"
    using new(3) by (fastforce simp: linked_def level0_def fitsInt_def)
  moreover have "checkLevels name None 0 (?l # new) = Inr ()" "validateLevelsFrom name None 0 (?l # new) = Inr ()" for name
    using new(3) holds_count(1)[OF h assms(1)] by (simp_all add: linked_def level0_def)
  ultimately have "diskTree nd (?f @ upperBytes nd xs) (?l # new) xs"
    using new(2) assms(1) by (simp add: diskTree_def)
  then show ?thesis using new(1) by auto
qed

text \<open>The upper levels take no more room than the leaves and one hash for each level.\<close>

lemma length_upperBytes:
  assumes "\<forall>h \<in> set xs. length h = 32" "\<And>a b. length (nd a b) = 32" "length xs \<le> 2 ^ k"
  shows "length (upperBytes nd xs) \<le> 32 * (length xs + k)"
  using assms(1,3)
proof (induction k arbitrary: xs)
  case 0
  then show ?case by (simp add: upperBytes_step(2))
next
  case (Suc k)
  show ?case
  proof (cases "1 < length xs")
    case True
    define ys where "ys = nextLevel nd xs"
    have ys32: "\<forall>h \<in> set ys. length h = 32"
      using Suc.prems(1) assms(2) unfolding ys_def by (induction nd xs rule: nextLevel.induct) auto
    have leny: "length ys = (length xs + 1) div 2" by (simp add: ys_def)
    then have "length ys \<le> 2 ^ k" "2 * length ys \<le> length xs + 1" using Suc.prems(2) by simp_all
    moreover have "length (concat ys) = length ys * 32" by (rule length_concat_const[OF ys32])
    ultimately show ?thesis
      using Suc.IH[OF ys32] upperBytes_step(1)[OF True, of nd] by (simp flip: ys_def)
  qed (simp add: upperBytes_step(2))
qed

section \<open>The header fits into its reserved space\<close>

lemma length_buildLevels_log: "length xs \<le> 2 ^ k \<Longrightarrow> length (buildLevels nd xs) \<le> k + 1"
proof (induction k arbitrary: xs)
  case (Suc k)
  have "length (nextLevel nd xs) \<le> 2 ^ k" using Suc.prems by simp
  from Suc.IH[OF this] show ?case by (simp add: buildLevels.simps[of nd xs])
qed (simp add: buildLevels.simps)

lemma length_jsonText_members:
  "length (jsonText (JObj ms)) \<le> 2 + sum_list (map (\<lambda>(k, v). 4 + 6 * length k + length (jsonText v)) ms)"
proof -
  have "sum_list (map (\<lambda>x. length x + 1) (map (\<lambda>(k, v). jsonString k @ '':'' @ jsonText v) ms))
      \<le> sum_list (map (\<lambda>(k, v). 4 + 6 * length k + length (jsonText v)) ms)"
  proof (induction ms)
    case (Cons a ms)
    then show ?case using length_jsonString[of "fst a"] by (cases a) simp
  qed simp
  then show ?thesis
    using length_intercalate[of "map (\<lambda>(k, v). jsonString k @ '':'' @ jsonText v) ms"] by simp
qed

lemma length_jU64: "length (jsonText (jU64 (w :: u64))) \<le> 20"
  using length_jsonText_small[of "jU64 w"] by simp

lemma length_level_json:
  assumes "0 \<le> lvl_Level l" "lvl_Level l < 2 ^ 63"
  shows "length (jsonText (level_json l)) \<le> 224"
proof -
  have "length (jsonText (JNum (lvl_Level l))) \<le> 20" using length_jsonText_small[of "JNum (lvl_Level l)"] assms by simp
  then show ?thesis
    using length_jsonText_members[of "[(''level'', JNum (lvl_Level l)), (''count'', jU64 (lvl_Count l)),
        (''offset'', jU64 (lvl_Offset l)), (''bytes'', jU64 (lvl_Bytes l))]"]
      length_jU64[of "lvl_Count l"] length_jU64[of "lvl_Offset l"] length_jU64[of "lvl_Bytes l"]
    by (simp add: level_json_def)
qed

lemma length_levels_json:
  assumes "\<forall>l \<in> set ls. 0 \<le> lvl_Level l \<and> lvl_Level l < 2 ^ 63"
  shows "length (jsonText (levels_json ls)) \<le> 4 + 225 * length ls"
proof -
  have "sum_list (map (\<lambda>x. length x + 1) (map (jsonText \<circ> level_json) ls)) \<le> 225 * length ls"
    using assms
  proof (induction ls)
    case (Cons l ls)
    then show ?case using length_level_json[of l] by simp
  qed simp
  then show ?thesis using length_intercalate[of "map (jsonText \<circ> level_json) ls"] by (simp add: levels_json_def)
qed

lemma diskTree_level_range:
  assumes "diskTree nd f ls xs"
  shows "\<forall>l \<in> set ls. 0 \<le> lvl_Level l \<and> lvl_Level l < 2 ^ 63" "length ls \<le> 59"
proof -
  have "0 \<le> lvl_Level l" if "checkLevels name p i ks = Inr ()" "0 \<le> i" "l \<in> set ks" for name p i ks l
    using that by (induction name p i ks rule: checkLevels.induct) (auto split: if_splits)
  then have "\<forall>l \<in> set ls. 0 \<le> lvl_Level l" using assms unfolding diskTree_def by (meson order_refl)
  then show "\<forall>l \<in> set ls. 0 \<le> lvl_Level l \<and> lvl_Level l < 2 ^ 63" using assms by (auto simp: diskTree_def fitsInt_def)
  have l: "list_all2 (holds f) ls (buildLevels nd xs)" using assms by (simp add: diskTree_def)
  obtain lv where "buildLevels nd xs = xs # lv" using hd_buildLevels[of nd xs] buildLevels_ne[of nd xs] by (metis list.collapse)
  then obtain k where "holds f k xs" using l by (auto simp: list_all2_Cons2)
  then have "length xs \<le> 2 ^ 58" using holds_length(1) by fastforce
  then show "length ls \<le> 59" using length_buildLevels_log[of xs 58 nd] list_all2_lengthD[OF l] by simp
qed

lemma length_dropWhile: "length (dropWhile P xs) \<le> length xs"
  by (induction xs) auto

lemma length_normalizeHexString: "dag_decodeHex32 s = Inr h \<Longrightarrow> length (normalizeHexString s) \<le> 68"
proof -
  assume d: "dag_decodeHex32 s = Inr h"
  have "length (TrimSpace s) \<le> 66"
    using d hexDecode_length unfolding dag_decodeHex32_def dag_decodeHexBytes_def Let_def
    by (fastforce split: if_splits)
  moreover have "length (TrimSpace (ToLower s)) = length (TrimSpace s)" by (simp add: TrimSpace_ToLower) (simp add: ToLower_def)
  ultimately show ?thesis by (simp add: normalizeHexString_def Let_def)
qed

lemma length_sidecar_json:
  assumes "diskTree nd f pw xs" "diskTree nd' f' tn ys" "validateManifestBasics m = Inr ()" "length now \<le> 100"
  shows "length (json_marshal (sidecar_json (sidecarMeta m now pw tn))) < 40000"
proof -
  let ?s = "sidecarMeta m now pw tn"
  have roots: "length (normalizeHexString r) \<le> 68"
    if "r \<in> {man_ManifestRoot m, man_AIDagRoot m, man_TensorRoot m, man_PoWCommitRoot m}" for r
    using assms(3) that length_normalizeHexString unfolding validateManifestBasics_iff by blast
  have str: "length (jsonString r) \<le> 2 + 6 * n" if "length r \<le> n" for r n
    using length_jsonString[of r] that by simp
  have "length (jsonText (JNum 1)) = 1" by (simp add: jsonInt_def decimal.simps)
  moreover have "length (jsonString HashAlgorithm) \<le> 100" using str[of HashAlgorithm 11] by (simp add: HashAlgorithm_def)
  moreover have "length (jsonString now) \<le> 602" using str[OF assms(4)] by simp
  moreover have "length (jsonString (normalizeHexString (man_ManifestRoot m))) \<le> 410"
    "length (jsonString (normalizeHexString (man_AIDagRoot m))) \<le> 410"
    "length (jsonString (normalizeHexString (man_TensorRoot m))) \<le> 410"
    "length (jsonString (normalizeHexString (man_PoWCommitRoot m))) \<le> 410"
    using str[OF roots] by simp_all
  moreover have "length (jsonText (levels_json pw)) \<le> 13279" "length (jsonText (levels_json tn)) \<le> 13279"
    using length_levels_json[OF diskTree_level_range(1)] diskTree_level_range(2) assms(1,2) by fastforce+
  moreover note length_jU64[of "man_PageSize m"] length_jU64[of "man_HeaderSize m"] length_jU64[of "man_PayloadSize m"]
    length_jU64[of "man_TotalPages m"] length_jU64[of "man_ModelStartPage m"] length_jU64[of "man_ModelPageCount m"]
  ultimately show ?thesis
    by (simp add: json_marshal_def sidecar_json_def sidecarMeta_def sidecarVersion_def MerkleVersion_def
        del: jsonText.simps(6) jsonText_jU64)
      (rule order.strict_trans1[OF length_jsonText_members], simp del: jsonText_jU64)
qed

section \<open>The leaves\<close>

definition powLeaf :: "(bytes \<Rightarrow> bytes) \<Rightarrow> bytes \<Rightarrow> Manifest \<Rightarrow> nat \<Rightarrow> build_error + hash32" where
  "powLeaf blake3 dag m i =
     bindE (readPage blake3 dag m (of_nat i)) (\<lambda>(h, ph, pc). Inr (merkleLeafHash blake3 treePoW h ph pc))"

definition tensorLeaf :: "(bytes \<Rightarrow> bytes) \<Rightarrow> bytes \<Rightarrow> Manifest \<Rightarrow> nat \<Rightarrow> build_error + hash32" where
  "tensorLeaf blake3 dag m i =
     bindE (readPage blake3 dag m (of_nat i)) (\<lambda>(h, ph, pc).
       if hdr_PageType h \<noteq> PageTypeModel then Inl (BuildNotModelPage (of_nat i))
       else if hdr_ShardID h \<noteq> of_nat i - man_ModelStartPage m then Inl (BuildShardMismatch (of_nat i))
       else Inr (merkleLeafHash blake3 treeTensor h ph pc))"

lemma leavesFrom_eq:
  "p \<le> unat (man_TotalPages m) \<Longrightarrow>
     powLeavesFrom blake3 dag m (of_nat p) = mapE (powLeaf blake3 dag m) [p..<unat (man_TotalPages m)]"
  "p \<le> unat (man_ModelEndPage m) \<Longrightarrow>
     tensorLeavesFrom blake3 dag m (of_nat p) = mapE (tensorLeaf blake3 dag m) [p..<unat (man_ModelEndPage m)]"
proof -
  have less: "(of_nat p :: u64) < w \<longleftrightarrow> p < unat w" if "p \<le> unat w" for p and w :: u64
  proof -
    have "unat w < 2 ^ 64" using unsigned_less[of w] by simp
    then show ?thesis using that by (simp add: word_less_nat_alt unat_of_nat)
  qed
  have suc: "(of_nat p + 1 :: u64) = of_nat (Suc p)" for p by simp
  show "p \<le> unat (man_TotalPages m) \<Longrightarrow>
     powLeavesFrom blake3 dag m (of_nat p) = mapE (powLeaf blake3 dag m) [p..<unat (man_TotalPages m)]"
  proof (induction "unat (man_TotalPages m) - p" arbitrary: p)
    case (Suc k)
    then have p: "p < unat (man_TotalPages m)" "k = unat (man_TotalPages m) - Suc p" "Suc p \<le> unat (man_TotalPages m)" by auto
    have "powLeavesFrom blake3 dag m (of_nat p + 1) = mapE (powLeaf blake3 dag m) [Suc p..<unat (man_TotalPages m)]"
      using Suc.hyps(1)[OF p(2,3)] by (simp only: suc)
    then show ?case using less[OF Suc.prems] p(1)
      by (subst powLeavesFrom.simps)
        (cases "readPage blake3 dag m (of_nat p)", auto simp: upt_conv_Cons powLeaf_def dag_merkleLeafHash_eq)
  qed (simp add: powLeavesFrom.simps less)
  show "p \<le> unat (man_ModelEndPage m) \<Longrightarrow>
     tensorLeavesFrom blake3 dag m (of_nat p) = mapE (tensorLeaf blake3 dag m) [p..<unat (man_ModelEndPage m)]"
  proof (induction "unat (man_ModelEndPage m) - p" arbitrary: p)
    case (Suc k)
    then have p: "p < unat (man_ModelEndPage m)" "k = unat (man_ModelEndPage m) - Suc p" "Suc p \<le> unat (man_ModelEndPage m)" by auto
    have "tensorLeavesFrom blake3 dag m (of_nat p + 1) = mapE (tensorLeaf blake3 dag m) [Suc p..<unat (man_ModelEndPage m)]"
      using Suc.hyps(1)[OF p(2,3)] by (simp only: suc)
    then show ?case using less[OF Suc.prems] p(1)
      by (subst tensorLeavesFrom.simps)
        (cases "readPage blake3 dag m (of_nat p)", auto simp: upt_conv_Cons tensorLeaf_def dag_merkleLeafHash_eq)
  qed (simp add: tensorLeavesFrom.simps less)
qed

lemma list_all2_right: "list_all2 P xs ys \<Longrightarrow> y \<in> set ys \<Longrightarrow> \<exists>x. P x y"
  by (induction rule: list_all2_induct) auto

lemma leaves_lengths:
  assumes "validateManifestBasics m = Inr ()"
    "powLeavesFrom blake3 dag m 0 = Inr pw" "tensorLeavesFrom blake3 dag m (man_ModelStartPage m) = Inr tn"
  shows "list_all2 (\<lambda>i h. powLeaf blake3 dag m i = Inr h) [0..<unat (man_TotalPages m)] pw"
    "list_all2 (\<lambda>i h. tensorLeaf blake3 dag m i = Inr h) [unat (man_ModelStartPage m)..<unat (man_ModelEndPage m)] tn"
    "length pw = unat (man_TotalPages m)" "length tn = unat (man_ModelPageCount m)" "length tn < length pw" "tn \<noteq> []"
    "\<forall>h \<in> set pw. length h = 32" "\<forall>h \<in> set tn. length h = 32"
proof -
  note v = assms(1)[unfolded validateManifestBasics_iff]
  have se: "unat (man_ModelStartPage m) < unat (man_ModelEndPage m)" "unat (man_ModelEndPage m) \<le> unat (man_TotalPages m)"
    "unat (man_ModelPageCount m) = unat (man_ModelEndPage m) - unat (man_ModelStartPage m)" "0 < unat (man_ModelStartPage m)"
    using v by (simp_all add: word_less_nat_alt word_le_nat_alt unat_sub unat_gt_0)
  show a: "list_all2 (\<lambda>i h. powLeaf blake3 dag m i = Inr h) [0..<unat (man_TotalPages m)] pw"
    using assms(2) leavesFrom_eq(1)[of 0 m blake3 dag] by (simp flip: mapE_eq_Inr)
  show b: "list_all2 (\<lambda>i h. tensorLeaf blake3 dag m i = Inr h) [unat (man_ModelStartPage m)..<unat (man_ModelEndPage m)] tn"
    using assms(3) leavesFrom_eq(2)[of "unat (man_ModelStartPage m)" m blake3 dag] se(1) by (simp flip: mapE_eq_Inr)
  show l: "length pw = unat (man_TotalPages m)" "length tn = unat (man_ModelPageCount m)"
    using list_all2_lengthD[OF a] list_all2_lengthD[OF b] se(3) by simp_all
  show "length tn < length pw" "tn \<noteq> []" using l se by auto
  have "length h = 32" if "powLeaf blake3 dag m i = Inr h" for i h
    using that by (auto simp: powLeaf_def)
  then show "\<forall>h \<in> set pw. length h = 32" using list_all2_right[OF a] by blast
  have "length h = 32" if "tensorLeaf blake3 dag m i = Inr h" for i h
    using that by (auto simp: tensorLeaf_def split: if_splits)
  then show "\<forall>h \<in> set tn. length h = 32" using list_all2_right[OF b] by blast
qed

section \<open>The whole file\<close>

lemma build_layout:
  assumes basics: "validateManifestBasics m = Inr ()" and dag: "fs dagPath = Some dag"
    and pw: "powLeavesFrom blake3 dag m 0 = Inr pw"
    and tn: "tensorLeavesFrom blake3 dag m (man_ModelStartPage m) = Inr tn"
    and fits: "unat (man_TotalPages m) * unat (man_PageSize m) < 2 ^ 63"
  shows "\<exists>f pws tns. buildMerkleSidecarTempFromDAG blake3 fs dagPath m now = finishSidecar m now f pws tns
    \<and> diskTree (merkleNodeHash blake3 treePoW) f pws pw \<and> diskTree (merkleNodeHash blake3 treeTensor) f tns tn"
proof -
  note v = basics[unfolded validateManifestBasics_iff]
  note l = leaves_lengths[OF basics pw tn]
  let ?nd = "merkleNodeHash blake3" and ?zeros = "replicate (2 ^ 20) (0 :: byte)"
  have ps: "161 \<le> unat (man_PageSize m)" "1 \<le> unat (man_TotalPages m)"
    using v by (simp_all add: word_less_nat_alt UnifiedHeaderSize_def Suc_le_eq unat_gt_0)
  have n: "length pw * 161 < 2 ^ 63"
    unfolding l(3) using mult_le_mono2[OF ps(1)] fits by (rule le_less_trans)
  have "1 * unat (man_PageSize m) < 2 ^ 63"
    using mult_le_mono1[OF ps(2)] fits by (rule le_less_trans)
  then have "unat (man_PageSize m) < 2 ^ 63" by simp
  then have max: "\<not> man_PageSize m > maxInt" by (simp add: maxInt_def word_less_nat_alt)
  have up: "length (upperBytes (?nd t) xs) \<le> 32 * (length xs + 58)"
    if "\<forall>h \<in> set xs. length h = 32" "length xs \<le> length pw" for t xs
    using length_upperBytes[OF that(1), of "?nd t" 58] that(2) n by (simp add: merkleNodeHash_def)
  have u: "length (upperBytes (?nd treePoW) pw) \<le> 32 * (length pw + 58)"
    "length (upperBytes (?nd treeTensor) tn) \<le> 32 * (length pw + 58)"
    using up[OF l(7), of treePoW] up[OF l(8), of treeTensor] l(5) by simp_all
  have c: "length (concat pw) = length pw * 32" "length (concat tn) = length tn * 32"
    using length_concat_const[OF l(7)] length_concat_const[OF l(8)] by simp_all
  have total: "length (?zeros @ concat pw @ concat tn @ upperBytes (?nd treePoW) pw @ upperBytes (?nd treeTensor) tn) < 2 ^ 63"
    using u c l(5) n by simp
  have pwne: "pw \<noteq> []" using l(5) by auto
  obtain pws where pws: "appendSidecarUpperLevels (?nd treePoW) (?zeros @ concat pw @ concat tn)
      [level0 (of_nat (length pw)) (of_nat (length ?zeros))] = Inr (?zeros @ concat pw @ concat tn @ upperBytes (?nd treePoW) pw, pws)"
    "diskTree (?nd treePoW) (?zeros @ concat pw @ concat tn @ upperBytes (?nd treePoW) pw) pws pw"
    using diskTree_built[where nd = "?nd treePoW" and xs = pw and pre = ?zeros and post = "concat tn"] pwne l(7) total
    by (auto simp: merkleNodeHash_def)
  obtain tns where tns: "appendSidecarUpperLevels (?nd treeTensor) ((?zeros @ concat pw) @ concat tn @ upperBytes (?nd treePoW) pw)
      [level0 (of_nat (length tn)) (of_nat (length (?zeros @ concat pw)))]
      = Inr ((?zeros @ concat pw) @ concat tn @ upperBytes (?nd treePoW) pw @ upperBytes (?nd treeTensor) tn, tns)"
    "diskTree (?nd treeTensor) ((?zeros @ concat pw) @ concat tn @ upperBytes (?nd treePoW) pw @ upperBytes (?nd treeTensor) tn) tns tn"
    using diskTree_built[where nd = "?nd treeTensor" and xs = tn and pre = "?zeros @ concat pw" and post = "upperBytes (?nd treePoW) pw"]
      l(6,8) total by (auto simp: merkleNodeHash_def)
  let ?f = "?zeros @ concat pw @ concat tn @ upperBytes (?nd treePoW) pw @ upperBytes (?nd treeTensor) tn"
  have "diskTree (?nd treePoW) ?f pws pw" using diskTree_append[OF pws(2), of "upperBytes (?nd treeTensor) tn"] total by simp
  moreover have "diskTree (?nd treeTensor) ?f tns tn" using tns(2) by simp
  moreover have "buildMerkleSidecarTempFromDAG blake3 fs dagPath m now = finishSidecar m now ?f pws tns"
  proof -
    have r: "replicate (unat sidecarHeaderReserved) 0 = ?zeros" "sidecarHeaderReserved = of_nat (length ?zeros)"
      by (simp_all add: sidecarHeaderReserved_def)
    have counts: "man_TotalPages m = of_nat (length pw)" "man_ModelPageCount m = of_nat (length tn)"
      using l(3,4) by simp_all
    have A: "appendSidecarUpperLevels (?nd treePoW) ((?zeros @ concat pw) @ concat tn) [level0 (man_TotalPages m) sidecarHeaderReserved]
        = Inr (?zeros @ concat pw @ concat tn @ upperBytes (?nd treePoW) pw, pws)"
      unfolding append_assoc counts r(2) by (rule pws(1))
    have B: "appendSidecarUpperLevels (?nd treeTensor) (?zeros @ concat pw @ concat tn @ upperBytes (?nd treePoW) pw)
        [level0 (man_ModelPageCount m) (of_nat (length (?zeros @ concat pw)))] = Inr (?f, tns)"
      using tns(1) unfolding append_assoc counts .
    show ?thesis
      unfolding buildMerkleSidecarTempFromDAG_def
      by (simp only: basics dag openFile_def ofOption_simps mapErr_simps bindE_simps max if_False Let_def r(1) pw tn A B prod.case)
  qed
  ultimately show ?thesis by blast
qed

text \<open>The reader of a finished file sees the levels that were written.\<close>

lemma finishSidecar_ok:
  assumes basics: "validateManifestBasics m = Inr ()" and now: "length now \<le> 100"
    and pw: "diskTree (merkleNodeHash blake3 treePoW) f pws xs" and tn: "diskTree (merkleNodeHash blake3 treeTensor) f tns ys"
    and roots: "dag_decodeHex32 (man_PoWCommitRoot m) = Inr (treeRoot (merkleNodeHash blake3 treePoW) xs)"
      "dag_decodeHex32 (man_TensorRoot m) = Inr (treeRoot (merkleNodeHash blake3 treeTensor) ys)"
  shows "\<exists>buf. length buf = 2 ^ 20 \<and> writeSidecarHeader f (sidecarMeta m now pws tns) = Inr (writeAt f 0 buf)
    \<and> finishSidecar m now f pws tns = Inr (writeAt f 0 buf, sidecarMeta m now pws tns)
    \<and> (\<exists>pad. buf = bytes_of sidecarMagic
          @ putLE 8 (of_nat (length (json_marshal (sidecar_json (sidecarMeta m now pws tns)))) :: u64)
          @ json_marshal (sidecar_json (sidecarMeta m now pws tns)) @ pad)"
proof -
  let ?b = "json_marshal (sidecar_json (sidecarMeta m now pws tns))"
  let ?buf = "bytes_of sidecarMagic @ putLE 8 (of_nat (length ?b) :: u64) @ ?b"
  let ?pad = "replicate (unat sidecarHeaderReserved - length ?buf) (0 :: byte)"
  have small: "length ?b < 40000" by (rule length_sidecar_json[OF pw tn basics now])
  then have "(of_nat (length ?b) + 16 :: u64) = of_nat (length ?b + 16)" "length ?b + 16 < 2 ^ 64" by simp_all
  then have fits: "\<not> of_nat (length ?b) + 16 > sidecarHeaderReserved"
    using small of_nat_u64_less[of "2 ^ 20" "length ?b + 16"]
    by (simp add: sidecarHeaderReserved_def del: of_nat_add)
  have "length (?buf @ ?pad) = 2 ^ 20"
    using small by (simp add: sidecarMagic_def sidecarHeaderReserved_def)
  moreover have "writeSidecarHeader f (sidecarMeta m now pws tns) = Inr (writeAt f 0 (?buf @ ?pad))"
    using fits by (simp add: writeSidecarHeader_def Let_def)
  ultimately show ?thesis
    using diskTree_levels(4)[OF pw] diskTree_levels(4)[OF tn] roots
    by (intro exI[of _ "?buf @ ?pad"]) (simp add: finishSidecar_def Let_def)
qed

lemma validateSelf_ok:
  assumes "validateManifestBasics m = Inr ()" "diskTree nd f pws xs" "diskTree nd' f' tns ys"
  shows "validateSelf (sidecarMeta m now pws tns) = Inr ()" "dag_validateSelf (sidecarMeta m now pws tns) = Inr ()"
  using assms diskTree_levels(1,3)[OF assms(2)] diskTree_levels(1,3)[OF assms(3)]
  unfolding validateManifestBasics_iff
  by (auto simp: validateSelf_def dag_validateSelf_def validateSidecarLevels_def sidecarMeta_def diskTree_def)

lemma open_finished:
  assumes basics: "validateManifestBasics m = Inr ()" and now: "length now \<le> 100"
    and pw: "diskTree (merkleNodeHash blake3 treePoW) f pws xs" and tn: "diskTree (merkleNodeHash blake3 treeTensor) f tns ys"
    and fin: "finishSidecar m now f pws tns = Inr (f', sm)" and at: "fs path = Some f'"
  shows "openSidecar fs path = Inr \<lparr>sr_file = f', sr_meta = sm\<rparr>" "openMerkleSidecar fs path = Inr \<lparr>sr_file = f', sr_meta = sm\<rparr>"
    "sm = sidecarMeta m now pws tns" "diskTree (merkleNodeHash blake3 treePoW) f' pws xs"
    "diskTree (merkleNodeHash blake3 treeTensor) f' tns ys"
proof -
  have roots: "dag_decodeHex32 (man_PoWCommitRoot m) = Inr (treeRoot (merkleNodeHash blake3 treePoW) xs)"
    "dag_decodeHex32 (man_TensorRoot m) = Inr (treeRoot (merkleNodeHash blake3 treeTensor) ys)"
    using fin diskTree_levels(4)[OF pw] diskTree_levels(4)[OF tn] by (auto simp: finishSidecar_def Let_def)
  let ?b = "json_marshal (sidecar_json (sidecarMeta m now pws tns))"
  obtain buf pad where buf: "length buf = 2 ^ 20" "f' = writeAt f 0 buf" "sm = sidecarMeta m now pws tns"
    "buf = bytes_of sidecarMagic @ putLE 8 (of_nat (length ?b) :: u64) @ ?b @ pad"
    using finishSidecar_ok[OF basics now pw tn roots] fin by auto
  show "sm = sidecarMeta m now pws tns" by (rule buf(3))
  show "diskTree (merkleNodeHash blake3 treePoW) f' pws xs" "diskTree (merkleNodeHash blake3 treeTensor) f' tns ys"
    using diskTree_header[OF pw buf(1)] diskTree_header[OF tn buf(1)] buf(2) by simp_all
  have small: "length ?b < 40000" by (rule length_sidecar_json[OF pw tn basics now])
  have ne: "length ?b \<noteq> 0" by (simp add: json_marshal_def sidecar_json_def)
  have u: "unat (of_nat (length ?b) :: u64) = length ?b" using small by (simp add: unat_of_nat)
  have w: "f' = buf @ drop (2 ^ 20) f" using buf(1,2) by (simp add: writeAt_def)
  have f': "f' = bytes_of sidecarMagic @ putLE 8 (of_nat (length ?b) :: u64) @ ?b @ pad @ drop (2 ^ 20) f"
    unfolding w buf(4) append_assoc ..
  have pre: "readAt f' 16 0 = Inr (bytes_of sidecarMagic @ putLE 8 (of_nat (length ?b) :: u64))"
    by (simp add: readAt_eq_Inr f' sidecarMagic_def)
  have hdr: "readAt f' (length ?b) 16 = Inr ?b"
    by (simp add: readAt_eq_Inr f' sidecarMagic_def)
  have fits: "(of_nat (length ?b) :: u64) \<noteq> 0" "\<not> of_nat (length ?b) + 16 > sidecarHeaderReserved"
  proof -
    show "(of_nat (length ?b) :: u64) \<noteq> 0" using of_nat_u64_eq[of "length ?b" 0] small ne by simp
    have "(of_nat (length ?b) + 16 :: u64) = of_nat (length ?b + 16)" by simp
    then show "\<not> of_nat (length ?b) + 16 > sidecarHeaderReserved"
      using small of_nat_u64_less[of "2 ^ 20" "length ?b + 16"] by (simp add: sidecarHeaderReserved_def del: of_nat_add)
  qed
  have levels: "\<forall>l \<in> set pws \<union> set tns. fitsInt (lvl_Level l)" using pw tn by (auto simp: diskTree_def)
  have dec: "unmarshalSidecar ?b = Some (sidecarMeta m now pws tns)"
    using levels by (intro unmarshalSidecar_json) (simp_all add: sidecarMeta_def sidecarVersion_def MerkleVersion_def)
  note common = openFile_def at pre hdr u fits dec buf(3) sidecarMagic_def
  show "openSidecar fs path = Inr \<lparr>sr_file = f', sr_meta = sm\<rparr>"
    using validateSelf_ok(1)[OF basics pw tn] by (simp add: openSidecar_def common Let_def)
  show "openMerkleSidecar fs path = Inr \<lparr>sr_file = f', sr_meta = sm\<rparr>"
    using validateSelf_ok(2)[OF basics pw tn] by (simp add: openMerkleSidecar_def common Let_def)
qed

section \<open>What a built sidecar is\<close>

lemma normalizeHexString_eq: "normalizeHexString s = normalizeHex s"
  by (simp add: normalizeHexString_def normalizeHex_def TrimSpace_ToLower Let_def)

lemma buildSidecar_inv:
  assumes "buildMerkleSidecarTempFromDAG blake3 fs dagPath m now = Inr (f, sm)"
  obtains dag pw tn where "validateManifestBasics m = Inr ()" "fs dagPath = Some dag"
    "powLeavesFrom blake3 dag m 0 = Inr pw" "tensorLeavesFrom blake3 dag m (man_ModelStartPage m) = Inr tn"
  using assms by (auto simp: buildMerkleSidecarTempFromDAG_def Let_def openFile_def)

text \<open>The DAG and the leaves behind a built sidecar, and what its reader returns.\<close>

definition builtFrom ::
  "(bytes \<Rightarrow> bytes) \<Rightarrow> Manifest \<Rightarrow> bytes \<Rightarrow> hash32 list \<Rightarrow> hash32 list \<Rightarrow> sidecarReader \<Rightarrow> bool" where
  "builtFrom blake3 m dag pw tn r \<longleftrightarrow> validateManifestBasics m = Inr ()
     \<and> list_all2 (\<lambda>i h. powLeaf blake3 dag m i = Inr h) [0..<unat (man_TotalPages m)] pw
     \<and> list_all2 (\<lambda>i h. tensorLeaf blake3 dag m i = Inr h) [unat (man_ModelStartPage m)..<unat (man_ModelEndPage m)] tn
     \<and> (\<exists>now. sr_meta r = sidecarMeta m now (sm_PoWLevels (sr_meta r)) (sm_TensorLevels (sr_meta r)))
     \<and> diskTree (merkleNodeHash blake3 treePoW) (sr_file r) (sm_PoWLevels (sr_meta r)) pw
     \<and> diskTree (merkleNodeHash blake3 treeTensor) (sr_file r) (sm_TensorLevels (sr_meta r)) tn
     \<and> dag_decodeHex32 (man_PoWCommitRoot m) = Inr (treeRoot (merkleNodeHash blake3 treePoW) pw)
     \<and> dag_decodeHex32 (man_TensorRoot m) = Inr (treeRoot (merkleNodeHash blake3 treeTensor) tn)"

lemma built_sidecar:
  assumes build: "buildMerkleSidecarTempFromDAG blake3 fs dagPath m now = Inr (f, sm)" and now: "length now \<le> 100"
    and fits: "unat (man_TotalPages m) * unat (man_PageSize m) < 2 ^ 63" and at: "fs' path = Some f"
  shows "openSidecar fs' path = Inr \<lparr>sr_file = f, sr_meta = sm\<rparr>" "openMerkleSidecar fs' path = Inr \<lparr>sr_file = f, sr_meta = sm\<rparr>"
    "\<exists>dag pw tn. fs dagPath = Some dag \<and> builtFrom blake3 m dag pw tn \<lparr>sr_file = f, sr_meta = sm\<rparr>"
proof -
  obtain dag pw tn where b: "validateManifestBasics m = Inr ()" "fs dagPath = Some dag"
    "powLeavesFrom blake3 dag m 0 = Inr pw" "tensorLeavesFrom blake3 dag m (man_ModelStartPage m) = Inr tn"
    by (rule buildSidecar_inv[OF build])
  obtain g pws tns where g: "buildMerkleSidecarTempFromDAG blake3 fs dagPath m now = finishSidecar m now g pws tns"
    "diskTree (merkleNodeHash blake3 treePoW) g pws pw" "diskTree (merkleNodeHash blake3 treeTensor) g tns tn"
    using build_layout[where fs = fs and dagPath = dagPath, OF b fits] by blast
  have fin: "finishSidecar m now g pws tns = Inr (f, sm)" using g(1) build by simp
  note o = open_finished[where fs = fs' and path = path, OF b(1) now g(2,3) fin at]
  show "openSidecar fs' path = Inr \<lparr>sr_file = f, sr_meta = sm\<rparr>" "openMerkleSidecar fs' path = Inr \<lparr>sr_file = f, sr_meta = sm\<rparr>"
    by (rule o(1), rule o(2))
  have "dag_decodeHex32 (man_PoWCommitRoot m) = Inr (treeRoot (merkleNodeHash blake3 treePoW) pw)"
    "dag_decodeHex32 (man_TensorRoot m) = Inr (treeRoot (merkleNodeHash blake3 treeTensor) tn)"
    using fin diskTree_levels(4)[OF g(2)] diskTree_levels(4)[OF g(3)] by (auto simp: finishSidecar_def Let_def)
  moreover have "sm_PoWLevels sm = pws" "sm_TensorLevels sm = tns" using o(3) by (simp_all add: sidecarMeta_def)
  ultimately have "builtFrom blake3 m dag pw tn \<lparr>sr_file = f, sr_meta = sm\<rparr>"
    using b(1) leaves_lengths(1,2)[OF b(1,3,4)] o(3,4,5) by (auto simp: builtFrom_def)
  then show "\<exists>dag pw tn. fs dagPath = Some dag \<and> builtFrom blake3 m dag pw tn \<lparr>sr_file = f, sr_meta = sm\<rparr>"
    using b(2) by blast
qed

lemma built_validates:
  assumes "builtFrom blake3 m dag pw tn r"
  shows "validateManifest r m = Inr ()" "validateAgainstManifest r m = Inr ()"
    "length pw = unat (man_TotalPages m)" "length tn = unat (man_ModelPageCount m)"
proof -
  obtain now where meta: "sr_meta r = sidecarMeta m now (sm_PoWLevels (sr_meta r)) (sm_TensorLevels (sr_meta r))"
    using assms by (auto simp: builtFrom_def)
  have basics: "validateManifestBasics m = Inr ()" using assms by (simp add: builtFrom_def)
  note v = basics[unfolded validateManifestBasics_iff]
  have "unat (man_ModelPageCount m) = unat (man_ModelEndPage m) - unat (man_ModelStartPage m)"
    using v by (simp add: unat_sub word_less_nat_alt word_le_nat_alt)
  then show l: "length pw = unat (man_TotalPages m)" "length tn = unat (man_ModelPageCount m)"
    using assms by (auto simp: builtFrom_def dest!: list_all2_lengthD)
  have counts: "lvl_Count (sm_PoWLevels (sr_meta r) ! 0) = man_TotalPages m" "sm_PoWLevels (sr_meta r) \<noteq> []"
    "lvl_Count (sm_TensorLevels (sr_meta r) ! 0) = man_ModelPageCount m" "sm_TensorLevels (sr_meta r) \<noteq> []"
  proof -
    have "diskTree (merkleNodeHash blake3 treePoW) (sr_file r) (sm_PoWLevels (sr_meta r)) pw"
      "diskTree (merkleNodeHash blake3 treeTensor) (sr_file r) (sm_TensorLevels (sr_meta r)) tn"
      using assms by (simp_all add: builtFrom_def)
    from diskTree_levels(1,2)[OF this(1)] diskTree_levels(1,2)[OF this(2)] show
      "lvl_Count (sm_PoWLevels (sr_meta r) ! 0) = man_TotalPages m" "sm_PoWLevels (sr_meta r) \<noteq> []"
      "lvl_Count (sm_TensorLevels (sr_meta r) ! 0) = man_ModelPageCount m" "sm_TensorLevels (sr_meta r) \<noteq> []"
      by (simp_all add: l)
  qed
  have f: "sm_PageSize (sr_meta r) = man_PageSize m" "sm_HeaderSize (sr_meta r) = man_HeaderSize m"
    "sm_PayloadSize (sr_meta r) = man_PayloadSize m" "sm_TotalPages (sr_meta r) = man_TotalPages m"
    "sm_ModelStartPage (sr_meta r) = man_ModelStartPage m" "sm_ModelPageCount (sr_meta r) = man_ModelPageCount m"
    "sm_ManifestRoot (sr_meta r) = normalizeHex (man_ManifestRoot m)" "sm_AIDagRoot (sr_meta r) = normalizeHex (man_AIDagRoot m)"
    "sm_TensorRoot (sr_meta r) = normalizeHex (man_TensorRoot m)" "sm_PoWCommitRoot (sr_meta r) = normalizeHex (man_PoWCommitRoot m)"
    by (subst meta, simp add: sidecarMeta_def normalizeHexString_eq)+
  show "validateManifest r m = Inr ()" "validateAgainstManifest r m = Inr ()"
    using v f counts by (simp_all add: validateManifest_def validateAgainstManifest_def Let_def equalHex_normalizeHex equalHex_def)
qed

text \<open>The proof of a leaf is the one the tree in memory gives.\<close>

lemma built_Proof:
  assumes "builtFrom blake3 m dag pw tn r"
  shows "i < length pw \<Longrightarrow>
      sidecarReader_Proof r treePoW (of_nat i) = Inr (proofFrom formatHash (buildLevels (merkleNodeHash blake3 treePoW) pw) i)
      \<and> MerkleSidecarReader_Proof r treePoW (of_nat i) = Inr (proofFrom formatHash (buildLevels (merkleNodeHash blake3 treePoW) pw) i)"
    "i < length tn \<Longrightarrow>
      sidecarReader_Proof r treeTensor (of_nat i) = Inr (proofFrom formatHash (buildLevels (merkleNodeHash blake3 treeTensor) tn) i)
      \<and> MerkleSidecarReader_Proof r treeTensor (of_nat i) = Inr (proofFrom formatHash (buildLevels (merkleNodeHash blake3 treeTensor) tn) i)"
proof -
  have p: "diskTree (merkleNodeHash blake3 treePoW) (sr_file r) (sm_PoWLevels (sr_meta r)) pw"
    and t: "diskTree (merkleNodeHash blake3 treeTensor) (sr_file r) (sm_TensorLevels (sr_meta r)) tn"
    using assms by (simp_all add: builtFrom_def)
  have ids: "treeTensor \<noteq> treePoW" by (simp add: treeTensor_def treePoW_def)
  have less: "\<not> (of_nat i :: u64) \<ge> lvl_Count (ls ! 0)" if "diskTree nd g ls xs" "i < length xs" for nd g ls xs
    using diskTree_levels(2,5)[OF that(1)] that(2) by (simp add: not_le of_nat_u64_less)
  show "i < length pw \<Longrightarrow>
      sidecarReader_Proof r treePoW (of_nat i) = Inr (proofFrom formatHash (buildLevels (merkleNodeHash blake3 treePoW) pw) i)
      \<and> MerkleSidecarReader_Proof r treePoW (of_nat i) = Inr (proofFrom formatHash (buildLevels (merkleNodeHash blake3 treePoW) pw) i)"
    using less[OF p] sidecarSteps_tree[of "sr_file r" _ "merkleNodeHash blake3 treePoW" pw i] p diskTree_levels(1)[OF p]
    by (simp add: sidecarReader_Proof_def MerkleSidecarReader_Proof_def sidecarLevels_def diskTree_def)
  show "i < length tn \<Longrightarrow>
      sidecarReader_Proof r treeTensor (of_nat i) = Inr (proofFrom formatHash (buildLevels (merkleNodeHash blake3 treeTensor) tn) i)
      \<and> MerkleSidecarReader_Proof r treeTensor (of_nat i) = Inr (proofFrom formatHash (buildLevels (merkleNodeHash blake3 treeTensor) tn) i)"
    using less[OF t] sidecarSteps_tree[of "sr_file r" _ "merkleNodeHash blake3 treeTensor" tn i] t diskTree_levels(1)[OF t] ids
    by (simp add: sidecarReader_Proof_def MerkleSidecarReader_Proof_def sidecarLevels_def diskTree_def)
qed

end
