(* ===== verification/Seal_Laws.thy ===== *)
theory Seal_Laws
  imports Seal DagGen_Laws
begin

unbundle bit_operations_syntax

text \<open>
  What the AISeal verifier guarantees: the samples are distinct pages in range, an accepted
  proof carries pages of the committed DAG, meets its target, and does not depend on the order
  in which its pages are listed.
\<close>

section \<open>Sampling\<close>

lemma sampleLoop_result:
  assumes "sampleLoop draw cnt counter out = Some r" "distinct out \<and> length out \<le> unat cnt"
  shows "distinct r \<and> length r = unat cnt \<and> set r \<subseteq> set out \<union> range draw"
proof -
  have "distinct out \<and> length out \<le> unat cnt \<longrightarrow>
      distinct r \<and> length r = unat cnt \<and> set r \<subseteq> set out \<union> range draw"
  proof (rule sampleLoop.raw_induct[where P = "\<lambda>draw cnt counter out r. distinct out \<and> length out \<le> unat cnt \<longrightarrow>
      distinct r \<and> length r = unat cnt \<and> set r \<subseteq> set out \<union> range draw", OF _ assms(1)])
    fix loop :: "(u64 \<Rightarrow> u64) \<Rightarrow> u64 \<Rightarrow> u64 \<Rightarrow> u64 list \<Rightarrow> u64 list option" and draw cnt counter out r
    assume IH: "\<And>draw cnt counter out r. loop draw cnt counter out = Some r \<Longrightarrow> distinct out \<and> length out \<le> unat cnt \<longrightarrow>
        distinct r \<and> length r = unat cnt \<and> set r \<subseteq> set out \<union> range draw"
      and eq: "(if of_nat (length out) < cnt
        then if draw counter \<in> set out then loop draw cnt (counter + 1) out
             else loop draw cnt (counter + 1) (out @ [draw counter])
        else Some out) = Some r"
    show "distinct out \<and> length out \<le> unat cnt \<longrightarrow>
        distinct r \<and> length r = unat cnt \<and> set r \<subseteq> set out \<union> range draw"
    proof
      assume out: "distinct out \<and> length out \<le> unat cnt"
      then have "length out < 2 ^ 64" using unsigned_less[of cnt, where 'a = nat] by simp
      then have lt: "(of_nat (length out) :: u64) < cnt \<longleftrightarrow> length out < unat cnt"
        by (simp add: word_less_nat_alt unat_of_nat)
      show "distinct r \<and> length r = unat cnt \<and> set r \<subseteq> set out \<union> range draw"
        using eq IH[of draw cnt "counter + 1" out r] IH[of draw cnt "counter + 1" "out @ [draw counter]" r] out lt
        by (auto split: if_splits)
    qed
  qed
  then show ?thesis using assms(2) by blast
qed

text \<open>The loop returns once enough different indices have been drawn.\<close>

lemma sampleLoop_returns:
  "distinct out \<Longrightarrow> length out \<le> unat cnt \<Longrightarrow>
   unat cnt \<le> card (set out \<union> (\<lambda>j. draw (counter + of_nat j)) ` {..<n}) \<Longrightarrow>
     \<exists>r. sampleLoop draw cnt counter out = Some r"
proof (induction n arbitrary: counter out)
  case 0
  then have "length out = unat cnt" by (simp add: distinct_card)
  then have "of_nat (length out) = cnt" by simp
  then show ?case by (subst sampleLoop.simps) simp
next
  case (Suc n)
  show ?case
  proof (cases "of_nat (length out) < cnt")
    case True
    have "length out < 2 ^ 64" using Suc.prems unsigned_less[of cnt, where 'a = nat] by simp
    then have len: "length out < unat cnt" using True by (simp add: word_less_nat_alt unat_of_nat)
    have split: "(\<lambda>j. draw (counter + of_nat j)) ` {..<Suc n} =
        insert (draw counter) ((\<lambda>j. draw (counter + 1 + of_nat j)) ` {..<n})"
      unfolding lessThan_Suc_eq_insert_0 by (auto simp: image_iff add.assoc)
    show ?thesis
    proof (cases "draw counter \<in> set out")
      case seen: True
      then show ?thesis using Suc.IH[of out "counter + 1"] Suc.prems True
        by (subst sampleLoop.simps) (simp add: split insert_absorb)
    next
      case fresh: False
      then show ?thesis using Suc.IH[of "out @ [draw counter]" "counter + 1"] Suc.prems True len
        by (subst sampleLoop.simps) (simp add: split)
    qed
  next
    case False
    then show ?thesis by (subst sampleLoop.simps) simp
  qed
qed

lemma sampleIndex_range:
  assumes "span \<noteq> 0" "unat start + unat span \<le> 2 ^ 64"
  shows "start \<le> sampleIndex blake3 domain seed start span c
    \<and> unat (sampleIndex blake3 domain seed start span c) < unat start + unat span"
proof -
  define r where "r = (getLE (take 8 (taggedHash blake3 domain (writeFixed32 seed @ writeUint64 c))) :: u64) mod span"
  have "unat r < unat span" unfolding r_def using assms(1) by (simp add: unat_mod unat_gt_0)
  moreover from this assms(2) have "unat (start + r) = unat start + unat r" by (simp add: unat_word_ariths)
  ultimately show ?thesis by (simp add: sampleIndex_def word_le_nat_alt flip: r_def)
qed

lemma sampleUnique_spec:
  assumes "sampleUnique blake3 domain m seal cnt start span = Some xs" "span \<noteq> 0" "unat start + unat span \<le> 2 ^ 64"
  shows "sorted xs \<and> distinct xs \<and> length xs = unat cnt
    \<and> (\<forall>x \<in> set xs. start \<le> x \<and> unat x < unat start + unat span)"
proof (cases "cnt = 0")
  case True
  then show ?thesis using assms(1) by (simp add: sampleUnique_def)
next
  case False
  let ?draw = "sampleIndex blake3 domain (sampleSeed blake3 domain m seal cnt start span) start span"
  obtain ys where ys: "sampleLoop ?draw cnt 0 [] = Some ys" "xs = sortSlice (\<lambda>i. i) ys"
    using assms(1,2) False by (auto simp: sampleUnique_def Let_def)
  have "distinct ys \<and> length ys = unat cnt \<and> set ys \<subseteq> range ?draw"
    using sampleLoop_result[OF ys(1)] by simp
  then show ?thesis
    using ys(2) sortSlice_laws(4)[of "\<lambda>i. i" ys] sampleIndex_range[OF assms(2,3)] by auto
qed

lemma containsSorted_iff: "sorted xs \<Longrightarrow> containsSorted xs x \<longleftrightarrow> x \<in> set xs"
  using sortSearch_member[of xs x] by (simp add: containsSorted_def)

lemma sampleUnique_sorted:
  assumes "sampleUnique blake3 domain m seal cnt start span = Some xs"
  shows "sorted xs \<and> distinct xs"
proof (cases "cnt = 0 \<or> span = 0")
  case False
  then obtain draw ys where ys: "sampleLoop draw cnt 0 [] = Some ys" "xs = sortSlice (\<lambda>i. i) ys"
    using assms by (auto simp: sampleUnique_def Let_def)
  show ?thesis using sampleLoop_result[OF ys(1)] ys(2) sortSlice_laws(4)[of "\<lambda>i. i" ys] by simp
qed (use assms in \<open>simp add: sampleUnique_def\<close>)

lemma deriveRequiredPages_spec:
  assumes "deriveRequiredPages blake3 m seal = Some (Inr (pow, tensor, required))"
  shows "sorted pow \<and> distinct pow" "sorted tensor \<and> distinct tensor" "sorted required \<and> distinct required"
    "set required = set pow \<union> set tensor"
    "sampleUnique blake3 domainSamplePoW m seal (of_int (seal_PoWSampleCount seal)) 0 (man_TotalPages m) = Some pow"
    "sampleUnique blake3 domainSampleTensor m seal (of_int (seal_TensorSampleCount seal))
       (man_ModelStartPage m) (man_ModelPageCount m) = Some tensor"
proof -
  show p: "sampleUnique blake3 domainSamplePoW m seal (of_int (seal_PoWSampleCount seal)) 0 (man_TotalPages m) = Some pow"
    and t: "sampleUnique blake3 domainSampleTensor m seal (of_int (seal_TensorSampleCount seal))
       (man_ModelStartPage m) (man_ModelPageCount m) = Some tensor"
    using assms by (auto simp: deriveRequiredPages_def split: if_splits option.splits)
  have r: "required = sortSlice (\<lambda>i. i) (remdups (pow @ tensor))"
    using assms by (auto simp: deriveRequiredPages_def split: if_splits option.splits)
  show "sorted pow \<and> distinct pow" "sorted tensor \<and> distinct tensor"
    using sampleUnique_sorted p t by blast+
  show "sorted required \<and> distinct required" "set required = set pow \<union> set tensor"
    using r sortSlice_laws(4)[of "\<lambda>i. i" "remdups (pow @ tensor)"] by simp_all
qed

section \<open>What acceptance means\<close>

lemma indexPages_iff:
  "indexPages pages m = Inr m' \<longleftrightarrow>
     distinct (map pp_PageIndex pages) \<and> (\<forall>p \<in> set pages. m (pp_PageIndex p) = None)
     \<and> m' = m ++ map_of (map (\<lambda>p. (pp_PageIndex p, p)) pages)"
proof (induction pages arbitrary: m)
  case (Cons p pages)
  have dom: "m(pp_PageIndex p \<mapsto> p) ++ map_of (map (\<lambda>p. (pp_PageIndex p, p)) pages) =
      m ++ map_of (map (\<lambda>p. (pp_PageIndex p, p)) (p # pages))" if "pp_PageIndex p \<notin> pp_PageIndex ` set pages"
  proof -
    have "map_of (map (\<lambda>p. (pp_PageIndex p, p)) pages) (pp_PageIndex p) = None"
      using that by (force simp: map_of_eq_None_iff)
    then show ?thesis by (auto simp: map_add_def fun_eq_iff split: option.splits)
  qed
  have upd: "(\<forall>q \<in> set pages. (m(pp_PageIndex p \<mapsto> p)) (pp_PageIndex q) = None) \<longleftrightarrow>
      pp_PageIndex p \<notin> pp_PageIndex ` set pages \<and> (\<forall>q \<in> set pages. m (pp_PageIndex q) = None)"
  proof -
    have "(m(pp_PageIndex p \<mapsto> p)) (pp_PageIndex q) = None \<longleftrightarrow>
        pp_PageIndex q \<noteq> pp_PageIndex p \<and> m (pp_PageIndex q) = None" for q by simp
    then show ?thesis by (metis (no_types, lifting) imageE imageI)
  qed
  have step: "indexPages (p # pages) m = Inr m' \<longleftrightarrow>
      m (pp_PageIndex p) = None \<and> indexPages pages (m(pp_PageIndex p \<mapsto> p)) = Inr m'" by simp
  show ?case unfolding step Cons.IH upd
    using dom by (cases "pp_PageIndex p \<in> pp_PageIndex ` set pages") (simp_all del: fun_upd_apply, blast)
qed auto

lemma indexPages_lookup:
  assumes "indexPages pages Map.empty = Inr byIndex"
  shows "byIndex i = Some p \<longleftrightarrow> p \<in> set pages \<and> pp_PageIndex p = i"
proof -
  have d: "distinct (map fst (map (\<lambda>p. (pp_PageIndex p, p)) pages))"
    and b: "byIndex = map_of (map (\<lambda>p. (pp_PageIndex p, p)) pages)"
    using assms by (simp_all add: indexPages_iff comp_def)
  show ?thesis unfolding b using map_of_eq_Some_iff[OF d] by auto
qed

text \<open>The parts of an accepting run.\<close>

lemma Verify_accepts:
  assumes "Verify blake3 m prf target limits = Some (Inr res)"
  obtains powRoot tensorRoot pow tensor required byIndex materials where
    "verifyPreamble blake3 m prf limits = Inr (powRoot, tensorRoot)"
    "deriveRequiredPages blake3 m (prf_Seal prf) = Some (Inr (pow, tensor, required))"
    "length (prf_Pages prf) = length required"
    "indexPages (prf_Pages prf) Map.empty = Inr byIndex"
    "list_all2 (\<lambda>i mat. verifyRequired blake3 m powRoot tensorRoot tensor byIndex i = Inr mat) required materials"
    "verifyDigests blake3 m prf target pow tensor materials = Some (Inr res)"
  using assms
  by (auto simp: Verify_def verifyPages_def mapE_eq_Inr split: sum.splits option.splits prod.splits if_splits)

lemma verifyPreamble_accepts:
  assumes "verifyPreamble blake3 m prf limits = Inr (powRoot, tensorRoot)"
  shows "ValidateManifest blake3 m = Inr ()" "decodeHex32 (man_PoWCommitRoot m) = Inr powRoot"
    "decodeHex32 (man_TensorRoot m) = Inr tensorRoot" "prf_Version prf = ProofVersion"
    "seal_Version (prf_Seal prf) = SealVersion" "seal_PoWSampleCount (prf_Seal prf) > 0"
    "seal_TensorSampleCount (prf_Seal prf) \<ge> 0"
    "verifySealMatchesManifest (prf_Seal prf) m = Inr ()"
  using assms by (auto simp: verifyPreamble_def Let_def)

text \<open>Every page of an accepted proof is one of the required pages and passed the page loop.\<close>

lemma Verify_page_checked:
  assumes "Verify blake3 m prf target limits = Some (Inr res)" "pp \<in> set (prf_Pages prf)"
  obtains powRoot tensorRoot pow tensor required byIndex mat where
    "verifyPreamble blake3 m prf limits = Inr (powRoot, tensorRoot)"
    "deriveRequiredPages blake3 m (prf_Seal prf) = Some (Inr (pow, tensor, required))"
    "pp_PageIndex pp \<in> set required" "byIndex (pp_PageIndex pp) = Some pp"
    "verifyRequired blake3 m powRoot tensorRoot tensor byIndex (pp_PageIndex pp) = Inr mat"
proof -
  obtain powRoot tensorRoot pow tensor required byIndex materials where v:
    "verifyPreamble blake3 m prf limits = Inr (powRoot, tensorRoot)"
    "deriveRequiredPages blake3 m (prf_Seal prf) = Some (Inr (pow, tensor, required))"
    "length (prf_Pages prf) = length required"
    "indexPages (prf_Pages prf) Map.empty = Inr byIndex"
    "list_all2 (\<lambda>i mat. verifyRequired blake3 m powRoot tensorRoot tensor byIndex i = Inr mat) required materials"
    by (rule Verify_accepts[OF assms(1)], rule that)
  note look = indexPages_lookup[OF v(4)]
  have ok: "\<exists>mat. verifyRequired blake3 m powRoot tensorRoot tensor byIndex i = Inr mat" if "i \<in> set required" for i
    using v(5) that by (auto simp: list_all2_conv_all_nth in_set_conv_nth)
  have "byIndex i \<noteq> None" if "i \<in> set required" for i
    using ok[OF that] by (auto simp: verifyRequired_def split: option.splits)
  then have sub: "set required \<subseteq> pp_PageIndex ` set (prf_Pages prf)" using look by fastforce
  have "distinct required" using deriveRequiredPages_spec(3)[OF v(2)] by simp
  then have "card (set required) = length (prf_Pages prf)" using v(3) by (simp add: distinct_card)
  moreover have "card (pp_PageIndex ` set (prf_Pages prf)) \<le> length (prf_Pages prf)"
    by (meson card_image_le card_length finite_set order_trans)
  ultimately have "set required = pp_PageIndex ` set (prf_Pages prf)"
    using sub by (metis card_seteq finite_imageI finite_set)
  then have req: "pp_PageIndex pp \<in> set required" using assms(2) by simp
  obtain mat where mat: "verifyRequired blake3 m powRoot tensorRoot tensor byIndex (pp_PageIndex pp) = Inr mat"
    using ok[OF req] by blast
  have "byIndex (pp_PageIndex pp) = Some pp" using look assms(2) by simp
  from that[OF v(1,2) req this mat] show thesis .
qed

section \<open>Pages are bound to the DAG\<close>

definition leafInput :: "string \<Rightarrow> PageHeader \<Rightarrow> hash32 \<Rightarrow> hash32 \<Rightarrow> bytes" where
  "leafInput treeID h payloadHash pageCommit =
     writeString domainMerkleLeaf @ writeString treeID
     @ writeUint16 (hdr_Version h) @ writeUint16 (hdr_PageType h)
     @ writeUint32 (hdr_HeaderSize h) @ writeUint32 (hdr_PageSize h)
     @ writeUint32 (hdr_PayloadSize h) @ writeUint32 (hdr_Flags h)
     @ writeUint64 (hdr_PageIndex h) @ writeUint64 (hdr_ModelOffset h)
     @ writeUint64 (hdr_ModelSize h) @ writeUint64 (hdr_ShardID h)
     @ writeUint64 (hdr_ShardCount h) @ writeUint32 (hdr_TensorID h)
     @ writeUint32 (hdr_LayerID h) @ writeUint32 (hdr_ShardID2 h)
     @ writeUint32 (hdr_QuantID h) @ payloadHash @ pageCommit"

lemma merkleLeafHash_input: "merkleLeafHash blake3 t h ph pc = copy32 (blake3 (leafInput t h ph pc))"
  by (simp add: merkleLeafHash_def taggedHash_def leafInput_def writeFixed32_def)

lemma leafInput_commit: "leafInput t h ph pc = leafInput t h' ph' pc' \<Longrightarrow> length ph = length ph' \<Longrightarrow> pc = pc'"
  by (simp add: leafInput_def append_eq_append_conv)

definition commitInput :: "bytes \<Rightarrow> bytes" where
  "commitInput page = writeString domainPageCommit @ writeBytes (take 112 page) @ zero32 @ writeBytes (drop 144 page)"

lemma verifyPage_commit:
  assumes "verifyPage blake3 page i sz = Inr (h, ph, pc)"
  shows "pc = copy32 (blake3 (commitInput page))" "page = take 112 page @ pc @ drop 144 page" "160 \<le> length page"
    "length ph = 32" "length pc = 32"
proof -
  note v = verifyPage_accepts[OF assms]
  have "unat sz \<le> length page" using v(1) by (metis unat_of_nat mod_less_eq_dividend)
  moreover have "160 \<le> unat sz" using v(2) by (simp add: word_le_nat_alt)
  ultimately show len: "160 \<le> length page" by simp
  show "length ph = 32" "length pc = 32" using v by simp_all
  show "pc = copy32 (blake3 (commitInput page))"
    using assms by (auto simp: verifyPage_def commitInput_def taggedHash_def writeFixed32_def Let_def
        pageHashOffset_def pageHashEnd_def)
  have "pc = sub (take 160 page) 112 144"
    using v(4,10) by (auto simp: readHeader_def)
  also have "\<dots> = take 32 (drop 112 page)" using len by (simp add: sub_def drop_take)
  finally have "pc = take 32 (drop 112 page)" .
  then show "page = take 112 page @ pc @ drop 144 page"
    using append_take_drop_id[of 112 page] append_take_drop_id[of 32 "drop 112 page"] by simp
qed

lemma commitInput_inj:
  assumes "verifyPage blake3 p i sz = Inr (h, ph, pc)" "verifyPage blake3 q i sz = Inr (h', ph', pc)"
    "commitInput p = commitInput q"
  shows "p = q"
proof -
  note vp = verifyPage_commit[OF assms(1)] and vq = verifyPage_commit[OF assms(2)]
  have len: "length (take 112 p) = length (take 112 q)" using vp(3) vq(3) by simp
  then have "take 112 p = take 112 q" "drop 144 p = drop 144 q"
    using assms(3) by (simp_all add: commitInput_def writeBytes_def append_eq_append_conv)
  then show ?thesis using vp(2) vq(2) by metis
qed

text \<open>Everything hashed by the verifier for a proof page, and by the generator for a page.\<close>

definition pageInputs :: "(bytes \<Rightarrow> bytes) \<Rightarrow> u64 \<Rightarrow> u64 \<Rightarrow> bytes \<Rightarrow> bytes list" where
  "pageInputs blake3 sz i page = (case verifyPage blake3 page i sz of
     Inl _ \<Rightarrow> []
   | Inr (h, ph, pc) \<Rightarrow> [leafInput treePoW h ph pc, commitInput page])"

definition proofInputs :: "(bytes \<Rightarrow> bytes) \<Rightarrow> u64 \<Rightarrow> nat \<Rightarrow> PageProof \<Rightarrow> bytes \<Rightarrow> bytes list" where
  "proofInputs blake3 sz n pp page =
     map (nodeInput treePoW) (climbPairs (merkleNodeHash blake3 treePoW) (pp_PoWPath pp)
        (pageLeaf blake3 treePoW sz (pp_PageIndex pp) page) (unat (pp_PageIndex pp)) n 0)
     @ pageInputs blake3 sz (pp_PageIndex pp) page"

definition dagInputs :: "(bytes \<Rightarrow> bytes) \<Rightarrow> u64 \<Rightarrow> bytes list \<Rightarrow> u64 \<Rightarrow> bytes list" where
  "dagInputs blake3 sz pages i =
     map (nodeInput treePoW) (treePairs (merkleNodeHash blake3 treePoW)
        (fileLeaves blake3 treePoW sz pages [0..<length pages]))
     @ pageInputs blake3 sz i (pages ! unat i)"

lemma verifyRequired_pow:
  assumes "verifyRequired blake3 m powRoot tensorRoot tensor byIndex i = Inr mat" "byIndex i = Some pp" "pp_PageIndex pp = i"
  obtains page h ph pc where "decodeHexBytes (pp_Page pp) = Inr page"
    "verifyPage blake3 page i (man_PageSize m) = Inr (h, ph, pc)"
    "mat = materialOf blake3 m i page h ph pc"
    "verifyMerkleProof blake3 treePoW (merkleLeafHash blake3 treePoW h ph pc) i (man_PoWCommitLeafCount m)
       (pp_PoWPath pp) powRoot = Inr ()"
    "containsSorted tensor i \<Longrightarrow> hdr_PageType h = PageTypeModel \<and> hdr_ShardID h = i - man_ModelStartPage m
       \<and> verifyMerkleProof blake3 treeTensor (merkleLeafHash blake3 treeTensor h ph pc) (i - man_ModelStartPage m)
          (man_TensorLeafCount m) (pp_TensorPath pp) tensorRoot = Inr ()"
    "\<not> containsSorted tensor i \<Longrightarrow> pp_TensorPath pp = []"
proof -
  obtain page h ph pc where p: "decodeHexBytes (pp_Page pp) = Inr page"
    "verifyPage blake3 page i (man_PageSize m) = Inr (h, ph, pc)" "mat = materialOf blake3 m i page h ph pc"
    using assms by (auto simp: verifyRequired_def materialFromProof_def Let_def split: if_splits)
  show thesis
    by (rule that[OF p]) (use assms p in \<open>auto simp: verifyRequired_def materialFromProof_def materialOf_def Let_def split: if_splits\<close>)
qed

section \<open>A small accepted proof\<close>

text \<open>
  A three-page DAG under a constant hash, one sampled page (index 2) and no tensor sample: a
  concrete input on which the verifier accepts.
\<close>

lemma taggedHash_ones [simp]: "taggedHash ones d b = replicate 32 1"
  by (simp add: taggedHash_def)

lemma sampleManifest_valid: "ValidateManifest ones sampleManifest = Inr ()"
  using replicate_1_not_zero
  by (simp add: ValidateManifest_iff sampleManifest_def UnifiedHeaderSize_def ManifestVersion_def MerkleVersion_def
      good_root_def)

definition dagPage :: "nat \<Rightarrow> bytes" where
  "dagPage i = finalPage ones sampleConfig (fillerJob (of_nat i)) [7, 7, 7, 7]"

definition sampleProofPage :: PageProof where
  "sampleProofPage = \<lparr>pp_PageIndex = 2, pp_Page = ''0x'' @ hexEncode (dagPage 2),
     pp_PoWPath = [\<lparr>step_Side = proofSideLeft, step_Hash = formatHash (replicate 32 1)\<rparr>], pp_TensorPath = []\<rparr>"

definition sampleProof :: Proof where
  "sampleProof = (let r = formatHash (replicate 32 1) in \<lparr>prf_Version = 1,
     prf_Seal = \<lparr>seal_Version = 1, seal_Epoch = 5, seal_BlockHash = ''0xab'', seal_Miner = ''alice'', seal_Nonce = 9,
       seal_PoWSampleCount = 1, seal_TensorSampleCount = 0, seal_ManifestRoot = r, seal_AIDagRoot = r,
       seal_TensorRoot = r, seal_PoWRoot = r, seal_ModelHash = r, seal_MixDigest = r, seal_AIDigest = r,
       seal_ProofHash = r, seal_WorkHash = r\<rparr>,
     prf_Pages = [sampleProofPage]\<rparr>)"

lemma dagPage_verifies:
  "verifyPage ones (dagPage i) (of_nat i) 164 =
     Inr (finalHeader ones sampleConfig (fillerJob (of_nat i)) [7, 7, 7, 7], replicate 32 1, replicate 32 1)"
proof -
  have h: "hashBytes ones p = replicate 32 1" "pageCommitHash ones q = replicate 32 1" for p q
    by (simp_all add: hashBytes_def pageCommitHash_def)
  have "verifyPageBytes ones (dagPage i) (job_PageIndex (fillerJob (of_nat i))) (cfg_PageSize sampleConfig) =
     Inr (finalHeader ones sampleConfig (fillerJob (of_nat i)) [7, 7, 7, 7], hashBytes ones [7, 7, 7, 7],
          hdr_PageHash (finalHeader ones sampleConfig (fillerJob (of_nat i)) [7, 7, 7, 7]))"
    unfolding dagPage_def
    by (rule verifyPageBytes_finalPage) (simp_all add: sampleConfig_def fillerJob_def)
  then show ?thesis
    unfolding verifyPageBytes_eq by (simp add: h fillerJob_def sampleConfig_def finalHeader_def Let_def)
qed

lemma sample_draw: "sampleIndex ones d seed 0 3 c = 2"
proof -
  have "(getLE (replicate 8 1) :: u64) mod 3 = 2" by code_simp
  then show ?thesis by (simp add: sampleIndex_def)
qed

lemma sample_required:
  "deriveRequiredPages ones sampleManifest (prf_Seal sampleProof) = Some (Inr ([2], [], [2]))"
proof -
  have "sampleLoop (sampleIndex ones d seed 0 3) 1 0 [] = Some [2]" for d seed
    by (simp add: sampleLoop.simps sample_draw)
  then show ?thesis
    by (simp add: deriveRequiredPages_def sampleUnique_def sampleProof_def sampleManifest_def Let_def sortSlice_def)
qed

lemma sample_preamble:
  "verifyPreamble ones sampleManifest sampleProof DefaultLimits = Inr (replicate 32 1, replicate 32 1)"
  by (simp add: verifyPreamble_def sampleManifest_valid)
    (simp add: sampleProof_def sampleManifest_def DefaultLimits_def ProofVersion_def SealVersion_def
      verifySealMatchesManifest_def Let_def equalHex_equiv(1))

lemma sample_page_checked:
  "\<exists>mat. verifyRequired ones sampleManifest (replicate 32 1) (replicate 32 1) [] [2 \<mapsto> sampleProofPage] 2 = Inr mat"
proof -
  define h where "h = finalHeader ones sampleConfig (fillerJob 2) [7, 7, 7, 7]"
  have i: "pp_PageIndex sampleProofPage = 2" by (simp add: sampleProofPage_def)
  have d: "decodeHexBytes (pp_Page sampleProofPage) = Inr (dagPage 2)"
    unfolding sampleProofPage_def using decodeHexBytes_format[of "dagPage 2"]
    by (auto simp: dagPage_def finalPage_def writeHeader_def simp flip: length_0_conv)
  have l: "of_nat (length (dagPage 2)) = man_PageSize sampleManifest"
    by (simp add: dagPage_def sampleManifest_def)
  have v: "verifyPage ones (dagPage 2) 2 (man_PageSize sampleManifest) = Inr (h, replicate 32 1, replicate 32 1)"
    using dagPage_verifies[of 2] by (simp add: sampleManifest_def h_def)
  have m: "materialFromProof ones sampleProofPage sampleManifest
      = Inr (materialOf ones sampleManifest 2 (dagPage 2) h (replicate 32 1) (replicate 32 1))"
    unfolding materialFromProof_def by (simp add: d l v i)
  have leaf: "mat_PoWLeaf (materialOf ones sampleManifest 2 (dagPage 2) h (replicate 32 1) (replicate 32 1)) = replicate 32 1"
    by (simp add: materialOf_def merkleLeafHash_def Let_def)
  have c: "verifyMerkleProof ones treePoW (replicate 32 1) 2 (man_PoWCommitLeafCount sampleManifest)
      (pp_PoWPath sampleProofPage) (replicate 32 1) = Inr ()"
    by (simp add: verifyMerkleProof_def sampleManifest_def sampleProofPage_def merkleClimb.simps merkleNodeHash_def)
  have t: "\<not> containsSorted [] 2" "pp_TensorPath sampleProofPage = []"
    by (simp_all add: containsSorted_def sampleProofPage_def)
  show ?thesis unfolding verifyRequired_def by (simp add: m leaf c t)
qed

lemma sample_accepted:
  "\<exists>res. Verify ones sampleManifest sampleProof (formatHash (replicate 32 255)) DefaultLimits = Some (Inr res)"
proof -
  obtain mat where mat: "verifyRequired ones sampleManifest (replicate 32 1) (replicate 32 1) [] [2 \<mapsto> sampleProofPage] 2 = Inr mat"
    using sample_page_checked by blast
  have pages: "prf_Pages sampleProof = [sampleProofPage]" "pp_PageIndex sampleProofPage = 2"
    by (simp_all add: sampleProof_def sampleProofPage_def Let_def)
  have vp: "verifyPages ones sampleManifest sampleProof (replicate 32 1, replicate 32 1) ([2], [], [2]) = Inr [mat]"
    using mat by (simp add: verifyPages_def pages)
  have digests: "computeMixDigest ones (prf_Seal sampleProof) sampleManifest [2] [] [mat] = replicate 32 1"
    "computeAIDigest ones (prf_Seal sampleProof) sampleManifest [] [mat] = Some (replicate 32 1)"
    "computeWorkHash ones (prf_Seal sampleProof) = replicate 32 1" "computeProofHash ones sampleProof = replicate 32 1"
    by (simp_all add: computeMixDigest_def computeAIDigest_def computeWorkHash_def computeProofHash_def Let_def)
  have seal: "seal_MixDigest (prf_Seal sampleProof) = formatHash (replicate 32 1)"
    "seal_AIDigest (prf_Seal sampleProof) = formatHash (replicate 32 1)"
    "seal_WorkHash (prf_Seal sampleProof) = formatHash (replicate 32 1)"
    "seal_ProofHash (prf_Seal sampleProof) = formatHash (replicate 32 1)" by (simp_all add: sampleProof_def Let_def)
  have "hashMeetsTarget (replicate 32 1) (replicate 32 255)" by code_simp
  moreover have "formatHash (replicate 32 255) \<noteq> []" by (simp add: formatHash_eq)
  ultimately have "\<exists>res. verifyDigests ones sampleManifest sampleProof (formatHash (replicate 32 255)) [2] [] [mat] = Some (Inr res)"
    by (simp add: verifyDigests_def digests seal Let_def)
  then show ?thesis by (simp add: Verify_def sample_preamble sample_required vp)
qed

section \<open>Properties\<close>

text \<open>
  C25: A page of an accepted proof is the page of the committed DAG at that index, or the verifier
  and the generator hashed two different inputs to the same digest. The DAG is any list of valid
  pages whose Merkle root is the manifest's PoW commitment root.
\<close>

theorem verified_pages_authentic:
  assumes "Verify blake3 m prf target limits = Some (Inr res)"
    and "length pages = unat (man_TotalPages m)" "length pages + 1 < 2 ^ 64"
    and "\<forall>i < length pages. \<exists>r. verifyPage blake3 (pages ! i) (of_nat i) (man_PageSize m) = Inr r"
    and "decodeHex32 (man_PoWCommitRoot m) = Inr (leafRoot blake3 treePoW (man_PageSize m) pages [0..<length pages])"
    and "pp \<in> set (prf_Pages prf)"
  shows "\<exists>page. decodeHexBytes (pp_Page pp) = Inr page \<and> unat (pp_PageIndex pp) < length pages
    \<and> (page = pages ! unat (pp_PageIndex pp)
       \<or> (\<exists>x \<in> set (proofInputs blake3 (man_PageSize m) (length pages) pp page).
           \<exists>y \<in> set (dagInputs blake3 (man_PageSize m) pages (pp_PageIndex pp)).
             x \<noteq> y \<and> copy32 (blake3 x) = copy32 (blake3 y)))"
proof -
  define i n sz where "i = unat (pp_PageIndex pp)" and "n = length pages" and "sz = man_PageSize m"
  have ui: "pp_PageIndex pp = of_nat i" by (simp add: i_def)
  obtain powRoot tensorRoot tensor byIndex mat where v:
    "verifyPreamble blake3 m prf limits = Inr (powRoot, tensorRoot)" "byIndex (pp_PageIndex pp) = Some pp"
    "verifyRequired blake3 m powRoot tensorRoot tensor byIndex (pp_PageIndex pp) = Inr mat"
    by (rule Verify_page_checked[OF assms(1,6)], rule that)
  obtain page h ph pc where p0: "decodeHexBytes (pp_Page pp) = Inr page"
    "verifyPage blake3 page (pp_PageIndex pp) (man_PageSize m) = Inr (h, ph, pc)"
    "verifyMerkleProof blake3 treePoW (merkleLeafHash blake3 treePoW h ph pc) (pp_PageIndex pp)
       (man_PoWCommitLeafCount m) (pp_PoWPath pp) powRoot = Inr ()"
    by (rule verifyRequired_pow[OF v(3,2) refl], rule that)
  note p = p0[folded sz_def]
  let ?leaves = "fileLeaves blake3 treePoW sz pages [0..<n]"
  have cnt: "man_PoWCommitLeafCount m = of_nat n"
    using verifyPreamble_accepts(1)[OF v(1)] assms(2) by (simp add: ValidateManifest_iff n_def)
  have root: "powRoot = MerkleTree_Root blake3 (NewMerkleTree blake3 treePoW ?leaves)"
    using verifyPreamble_accepts(2)[OF v(1)] assms(5) by (simp add: leafRoot_def n_def sz_def)
  have len: "length ?leaves = n" by (simp add: fileLeaves_def)
  have i: "i < n"
  proof -
    have "pp_PageIndex pp < man_PoWCommitLeafCount m"
      using p(3) by (simp add: verifyMerkleProof_def not_le split: if_splits)
    then show ?thesis using assms(3) by (simp add: i_def cnt word_less_nat_alt unat_of_nat n_def)
  qed
  obtain h' ph' pc' where q: "verifyPage blake3 (pages ! i) (pp_PageIndex pp) sz = Inr (h', ph', pc')"
    using assms(4) i by (metis n_def sz_def ui prod_cases3)
  have leaf: "pageLeaf blake3 treePoW sz (pp_PageIndex pp) page = merkleLeafHash blake3 treePoW h ph pc"
    "?leaves ! i = merkleLeafHash blake3 treePoW h' ph' pc'"
    using iffD2[OF verifyPageBytes_eq p(2)] iffD2[OF verifyPageBytes_eq q] i ui
    by (simp_all add: pageLeaf_def fileLeaves_def)
  have sound: "merkleLeafHash blake3 treePoW h ph pc = ?leaves ! i \<or>
    (\<exists>x \<in> set (climbPairs (merkleNodeHash blake3 treePoW) (pp_PoWPath pp) (merkleLeafHash blake3 treePoW h ph pc) i n 0).
     \<exists>y \<in> set (treePairs (merkleNodeHash blake3 treePoW) ?leaves).
       nodeInput treePoW x \<noteq> nodeInput treePoW y
       \<and> copy32 (blake3 (nodeInput treePoW x)) = copy32 (blake3 (nodeInput treePoW y)))"
    using merkle_sound_collision[of blake3 treePoW "merkleLeafHash blake3 treePoW h ph pc" i ?leaves "pp_PoWPath pp"]
      p(3) i assms(3) len cnt root ui by (auto simp: fileLeaves_def pageLeaf_def n_def split: sum.splits)
  have pin: "pageInputs blake3 sz (pp_PageIndex pp) page = [leafInput treePoW h ph pc, commitInput page]"
    "pageInputs blake3 sz (pp_PageIndex pp) (pages ! i) = [leafInput treePoW h' ph' pc', commitInput (pages ! i)]"
    using p(2) q by (simp_all add: pageInputs_def)
  have "page = pages ! i \<or> (\<exists>x \<in> set (proofInputs blake3 sz n pp page). \<exists>y \<in> set (dagInputs blake3 sz pages (pp_PageIndex pp)).
             x \<noteq> y \<and> copy32 (blake3 x) = copy32 (blake3 y))"
  proof (cases "merkleLeafHash blake3 treePoW h ph pc = ?leaves ! i")
    case False
    then show ?thesis using sound leaf(1) by (auto simp: proofInputs_def dagInputs_def n_def simp flip: i_def)
  next
    case True
    then have eq: "copy32 (blake3 (leafInput treePoW h ph pc)) = copy32 (blake3 (leafInput treePoW h' ph' pc'))"
      using leaf(2) by (simp add: merkleLeafHash_input)
    note c = verifyPage_commit[OF p(2)] and c' = verifyPage_commit[OF q]
    show ?thesis
    proof (cases "leafInput treePoW h ph pc = leafInput treePoW h' ph' pc' \<and> commitInput page \<noteq> commitInput (pages ! i)")
      case True
      then have "pc = pc'" using leafInput_commit c(4) c'(4) by metis
      then show ?thesis using True c(1) c'(1) pin by (auto simp: proofInputs_def dagInputs_def simp flip: i_def)
    next
      case False
      show ?thesis
      proof (cases "leafInput treePoW h ph pc = leafInput treePoW h' ph' pc'")
        case True
        then have "pc = pc'" using leafInput_commit c(4) c'(4) by metis
        then show ?thesis using commitInput_inj[OF p(2)] q False True by blast
      next
        case diff: False
        then show ?thesis using eq pin by (auto simp: proofInputs_def dagInputs_def simp flip: i_def)
      qed
    qed
  qed
  then show ?thesis using p(1) i by (auto simp: i_def n_def sz_def)
qed

lemma sample_dag_root:
  "leafRoot ones treePoW 164 (map dagPage [0..<3]) [0..<3] = replicate 32 1"
proof -
  have "pageLeaf ones treePoW 164 i p = replicate 32 1 \<or> pageLeaf ones treePoW 164 i p = zero32" for i p
    by (auto simp: pageLeaf_def merkleLeafHash_def split: sum.splits)
  have "merkleNodeHash ones treePoW a b = replicate 32 1" for a b by (simp add: merkleNodeHash_def)
  then show ?thesis
    by (simp add: leafRoot_def MerkleTree_Root_eq fileLeaves_def treeRoot_def upt_rec buildLevels.simps)
qed

theorem verified_pages_authentic_witness:
  "\<exists>page. decodeHexBytes (pp_Page sampleProofPage) = Inr page \<and> unat (pp_PageIndex sampleProofPage) < 3
    \<and> (page = dagPage 2
       \<or> (\<exists>x \<in> set (proofInputs ones 164 3 sampleProofPage page).
           \<exists>y \<in> set (dagInputs ones 164 (map dagPage [0..<3]) 2). x \<noteq> y \<and> copy32 (ones x) = copy32 (ones y)))"
proof -
  obtain res where r: "Verify ones sampleManifest sampleProof (formatHash (replicate 32 255)) DefaultLimits = Some (Inr res)"
    using sample_accepted by blast
  have m: "unat (man_TotalPages sampleManifest) = 3" "man_PageSize sampleManifest = 164"
    "man_PoWCommitRoot sampleManifest = formatHash (replicate 32 1)" by (simp_all add: sampleManifest_def)
  have p: "sampleProofPage \<in> set (prf_Pages sampleProof)" "pp_PageIndex sampleProofPage = 2"
    by (simp_all add: sampleProof_def sampleProofPage_def Let_def)
  have "\<forall>i < length (map dagPage [0..<3]). \<exists>r. verifyPage ones (map dagPage [0..<3] ! i) (of_nat i)
      (man_PageSize sampleManifest) = Inr r"
    using dagPage_verifies m(2) by auto
  from verified_pages_authentic[OF r _ _ this _ p(1)] sample_dag_root m p(2)
  show ?thesis by (simp, simp only: numeral_2_eq_2)
qed



text \<open>
  Sampling returns as soon as the hash stream has produced enough different indices: if among
  the first \<open>n\<close> draws there are at least \<open>cnt\<close> different ones, the loop ends with a sample.
\<close>

theorem sampling_returns:
  assumes "unat cnt \<le> card ((\<lambda>j. sampleIndex blake3 domain (sampleSeed blake3 domain m seal cnt start span) start span
      (of_nat j)) ` {..<n})"
  shows "\<exists>xs. sampleUnique blake3 domain m seal cnt start span = Some xs"
  using sampleLoop_returns[of "[]" cnt _ 0 n] assms by (auto simp: sampleUnique_def Let_def)

theorem sampling_returns_witness:
  "\<exists>xs. sampleUnique ones domainSamplePoW sampleManifest (prf_Seal sampleProof) 1 0 3 = Some xs"
  by (rule sampling_returns[where n = 1]) (simp add: sample_draw lessThan_Suc)

text \<open>
  An accepted proof meets the target it was verified against: the work hash it reports is the
  hash of the sealed fields and, read as a 256-bit number, is at most the target.
\<close>

theorem verified_work_meets_target:
  assumes "Verify blake3 m prf target limits = Some (Inr res)" "target \<noteq> []"
  shows "\<exists>t. decodeHex32 target = Inr t
    \<and> vr_WorkHash res = formatHash (computeWorkHash blake3 (prf_Seal prf))
    \<and> beValue (computeWorkHash blake3 (prf_Seal prf)) \<le> beValue t"
proof -
  obtain pow tensor materials where d: "verifyDigests blake3 m prf target pow tensor materials = Some (Inr res)"
    by (rule Verify_accepts[OF assms(1)], rule that)
  then obtain t where t: "decodeHex32 target = Inr t" "hashMeetsTarget (computeWorkHash blake3 (prf_Seal prf)) t"
    "vr_WorkHash res = formatHash (computeWorkHash blake3 (prf_Seal prf))"
    using assms(2) by (auto simp: verifyDigests_def Let_def split: if_splits option.splits)
  moreover have "length (computeWorkHash blake3 (prf_Seal prf)) = length t"
    using decodeHex32_length[OF t(1)] by (simp add: computeWorkHash_def)
  ultimately show ?thesis by (auto simp: hashMeetsTarget_iff)
qed

theorem verified_work_meets_target_witness:
  "\<exists>t. decodeHex32 (formatHash (replicate 32 255)) = Inr t
    \<and> beValue (computeWorkHash ones (prf_Seal sampleProof)) \<le> beValue t"
  using sample_accepted verified_work_meets_target[of ones sampleManifest sampleProof "formatHash (replicate 32 255)" DefaultLimits]
  by (auto simp: formatHash_eq)

text \<open>
  The verdict does not depend on the order in which the proof lists its pages: an accepted
  proof is accepted, with the same result, under every permutation of its pages.
\<close>

theorem verify_page_order_irrelevant:
  assumes "Verify blake3 m prf target limits = Some (Inr res)" "mset pages' = mset (prf_Pages prf)"
  shows "Verify blake3 m (prf\<lparr>prf_Pages := pages'\<rparr>) target limits = Some (Inr res)"
proof -
  obtain powRoot tensorRoot pow tensor required byIndex materials where v:
    "verifyPreamble blake3 m prf limits = Inr (powRoot, tensorRoot)"
    "deriveRequiredPages blake3 m (prf_Seal prf) = Some (Inr (pow, tensor, required))"
    "length (prf_Pages prf) = length required"
    "indexPages (prf_Pages prf) Map.empty = Inr byIndex"
    "list_all2 (\<lambda>i mat. verifyRequired blake3 m powRoot tensorRoot tensor byIndex i = Inr mat) required materials"
    "verifyDigests blake3 m prf target pow tensor materials = Some (Inr res)"
    by (rule Verify_accepts[OF assms(1)], rule that)
  let ?kv = "\<lambda>p. (pp_PageIndex p, p)"
  have len: "length pages' = length (prf_Pages prf)" using assms(2) by (metis size_mset)
  have d: "distinct (map pp_PageIndex (prf_Pages prf))" using v(4) by (simp add: indexPages_iff)
  have "mset (map pp_PageIndex pages') = mset (map pp_PageIndex (prf_Pages prf))" using assms(2) by simp
  then have d': "distinct (map pp_PageIndex pages')" using d by (metis mset_eq_imp_distinct_iff)
  have "set pages' = set (prf_Pages prf)" using assms(2) by (metis mset_eq_setD)
  then have "map_of (map ?kv pages') = map_of (map ?kv (prf_Pages prf))"
    using d d' by (intro map_of_inject_set[THEN iffD2]) (simp_all add: comp_def)
  then have idx: "indexPages pages' Map.empty = Inr byIndex" using v(4) d' by (simp add: indexPages_iff)
  have sort: "sortSlice pp_PageIndex pages' = sortSlice pp_PageIndex (prf_Pages prf)"
    using assms(2) d' by (intro sortSlice_perm_unique) (auto simp: distinct_map)
  have "verifyPreamble blake3 m (prf\<lparr>prf_Pages := pages'\<rparr>) limits = Inr (powRoot, tensorRoot)"
    using v(1) len by (simp add: verifyPreamble_def cong: if_cong)
  moreover have "verifyDigests blake3 m (prf\<lparr>prf_Pages := pages'\<rparr>) target pow tensor materials = Some (Inr res)"
  proof -
    have "computeProofHash blake3 (prf\<lparr>prf_Pages := pages'\<rparr>) = computeProofHash blake3 prf"
      using sort by (simp add: computeProofHash_def)
    moreover have "prf_Seal (prf\<lparr>prf_Pages := pages'\<rparr>) = prf_Seal prf" "prf_Pages (prf\<lparr>prf_Pages := pages'\<rparr>) = pages'"
      by simp_all
    ultimately have "verifyDigests blake3 m (prf\<lparr>prf_Pages := pages'\<rparr>) target pow tensor materials =
        verifyDigests blake3 m prf target pow tensor materials"
      unfolding verifyDigests_def Let_def by (simp only: len)
    then show ?thesis using v(6) by simp
  qed
  ultimately show ?thesis
    using v(2,3,5) idx len by (simp add: Verify_def verifyPages_def mapE_eq_Inr[symmetric])
qed

theorem verify_page_order_irrelevant_witness:
  "\<exists>res. Verify ones sampleManifest (sampleProof\<lparr>prf_Pages := rev (prf_Pages sampleProof)\<rparr>)
     (formatHash (replicate 32 255)) DefaultLimits = Some (Inr res)"
  using sample_accepted verify_page_order_irrelevant[of ones sampleManifest sampleProof "formatHash (replicate 32 255)"
      DefaultLimits _ "rev (prf_Pages sampleProof)"] by auto

text \<open>
  The tensor part of an accepted proof: each sampled tensor page in it is a model page carrying
  the shard of its position, and its own path verifies against the tensor root; a page that is not
  a tensor sample carries no tensor path.
\<close>

theorem verified_tensor_pages:
  assumes "Verify blake3 m prf target limits = Some (Inr res)" "pp \<in> set (prf_Pages prf)"
  shows "\<exists>pow tensor required tensorRoot page h ph pc.
    deriveRequiredPages blake3 m (prf_Seal prf) = Some (Inr (pow, tensor, required))
    \<and> decodeHex32 (man_TensorRoot m) = Inr tensorRoot
    \<and> decodeHexBytes (pp_Page pp) = Inr page
    \<and> verifyPage blake3 page (pp_PageIndex pp) (man_PageSize m) = Inr (h, ph, pc)
    \<and> (if pp_PageIndex pp \<in> set tensor
        then hdr_PageType h = PageTypeModel \<and> hdr_ShardID h = pp_PageIndex pp - man_ModelStartPage m
          \<and> verifyMerkleProof blake3 treeTensor (merkleLeafHash blake3 treeTensor h ph pc)
              (pp_PageIndex pp - man_ModelStartPage m) (man_TensorLeafCount m) (pp_TensorPath pp) tensorRoot = Inr ()
        else pp_TensorPath pp = [])"
proof -
  obtain powRoot tensorRoot pow tensor required byIndex mat where v:
    "verifyPreamble blake3 m prf limits = Inr (powRoot, tensorRoot)"
    "deriveRequiredPages blake3 m (prf_Seal prf) = Some (Inr (pow, tensor, required))"
    "byIndex (pp_PageIndex pp) = Some pp"
    "verifyRequired blake3 m powRoot tensorRoot tensor byIndex (pp_PageIndex pp) = Inr mat"
    by (rule Verify_page_checked[OF assms], rule that)
  have mem: "containsSorted tensor (pp_PageIndex pp) \<longleftrightarrow> pp_PageIndex pp \<in> set tensor"
    using deriveRequiredPages_spec(2)[OF v(2)] by (simp add: containsSorted_iff)
  show ?thesis
  proof (rule verifyRequired_pow[OF v(4,3) refl])
    fix page h ph pc
    assume p: "decodeHexBytes (pp_Page pp) = Inr page"
        "verifyPage blake3 page (pp_PageIndex pp) (man_PageSize m) = Inr (h, ph, pc)"
      and t: "containsSorted tensor (pp_PageIndex pp) \<Longrightarrow>
        hdr_PageType h = PageTypeModel \<and> hdr_ShardID h = pp_PageIndex pp - man_ModelStartPage m
        \<and> verifyMerkleProof blake3 treeTensor (merkleLeafHash blake3 treeTensor h ph pc)
            (pp_PageIndex pp - man_ModelStartPage m) (man_TensorLeafCount m) (pp_TensorPath pp) tensorRoot = Inr ()"
      and n: "\<not> containsSorted tensor (pp_PageIndex pp) \<Longrightarrow> pp_TensorPath pp = []"
    have tn: "if pp_PageIndex pp \<in> set tensor
        then hdr_PageType h = PageTypeModel \<and> hdr_ShardID h = pp_PageIndex pp - man_ModelStartPage m
          \<and> verifyMerkleProof blake3 treeTensor (merkleLeafHash blake3 treeTensor h ph pc)
              (pp_PageIndex pp - man_ModelStartPage m) (man_TensorLeafCount m) (pp_TensorPath pp) tensorRoot = Inr ()
        else pp_TensorPath pp = []"
      using t n mem by presburger
    show ?thesis
      by (intro exI conjI) (rule v(2), rule verifyPreamble_accepts(3)[OF v(1)], rule p(1), rule p(2), rule tn)
  qed
qed

theorem verified_tensor_pages_witness:
  "\<exists>pow tensor required. deriveRequiredPages ones sampleManifest (prf_Seal sampleProof) = Some (Inr (pow, tensor, required))
    \<and> (pp_PageIndex sampleProofPage \<in> set tensor \<or> pp_TensorPath sampleProofPage = [])"
proof -
  obtain res where r: "Verify ones sampleManifest sampleProof (formatHash (replicate 32 255)) DefaultLimits = Some (Inr res)"
    using sample_accepted by blast
  have p: "sampleProofPage \<in> set (prf_Pages sampleProof)" by (simp add: sampleProof_def Let_def)
  from verified_tensor_pages[OF r p] show ?thesis by (metis (no_types, lifting))
qed

end
