(* ===== verification/Prover_Laws.thy ===== *)
theory Prover_Laws
  imports Prover Sidecar_Laws Seal_Laws
begin

text \<open>
  The prover against the verifier: with a sidecar that was built from the DAG, \<open>ProveFiles\<close> finds every
  page and path a challenge asks for, and what it returns passes \<open>Verify\<close> and \<open>VerifyExpected\<close>.
\<close>

section \<open>Reading a page\<close>

lemma material_read:
  assumes leaf: "powLeaf blake3 dag m i = Inr h" and i: "i < unat (man_TotalPages m)"
    and size: "160 < man_PageSize m" "man_PageSize m < 2 ^ 63"
  obtains mat where "readMaterialAt blake3 dag m (of_nat i) = Some (Inr mat)" "mat_PoWLeaf mat = h" "mat_PageIndex mat = of_nat i"
    "length (mat_Payload mat) = unat (man_PageSize m) - unat (man_HeaderSize m)"
    "\<And>pp. pp_PageIndex pp = of_nat i \<Longrightarrow> pp_Page pp = ''0x'' @ hexEncode (mat_Page mat) \<Longrightarrow>
       materialFromProof blake3 pp m = Inr mat"
    "\<And>t. tensorLeaf blake3 dag m i = Inr t \<Longrightarrow> hdr_PageType (mat_Header mat) = PageTypeModel
       \<and> hdr_ShardID (mat_Header mat) = of_nat i - man_ModelStartPage m \<and> mat_TensorLeaf mat = t"
proof -
  obtain page hd' ph pc where p: "readAt dag (unat (man_PageSize m)) (of_nat i * man_PageSize m) = Inr page"
    "verifyPageBytes blake3 page (of_nat i) (man_PageSize m) = Inr (hd', ph, pc)"
    "h = merkleLeafHash blake3 treePoW hd' ph pc"
    using leaf by (auto simp: powLeaf_def readPage_def)
  have v: "verifyPage blake3 page (of_nat i) (man_PageSize m) = Inr (hd', ph, pc)"
    using p(2) by (simp only: verifyPageBytes_eq)
  have len: "length page = unat (man_PageSize m)" by (rule length_readAt[OF p(1)])
  then have ne: "page \<noteq> []" using size(1) by (auto simp: word_less_nat_alt)
  have in': "\<not> (of_nat i :: u64) \<ge> man_TotalPages m"
    using i unsigned_less[of "man_TotalPages m"] by (simp add: not_le word_less_nat_alt unat_of_nat)
  let ?mat = "materialOf blake3 m (of_nat i) page hd' ph pc"
  have r1: "readMaterialAt blake3 dag m (of_nat i) = Some (Inr ?mat)"
    using in' size(2) p(1) v by (simp add: readMaterialAt_def not_le)
  have r2: "materialFromProof blake3 pp m = Inr ?mat"
    if "pp_PageIndex pp = of_nat i" "pp_Page pp = ''0x'' @ hexEncode (mat_Page ?mat)" for pp
    using that v len ne decodeHexBytes_format[of page] by (simp add: materialFromProof_def materialOf_def)
  have r3: "hdr_PageType (mat_Header ?mat) = PageTypeModel
       \<and> hdr_ShardID (mat_Header ?mat) = of_nat i - man_ModelStartPage m \<and> mat_TensorLeaf ?mat = t"
    if "tensorLeaf blake3 dag m i = Inr t" for t
    using that p(1,2) by (auto simp: tensorLeaf_def readPage_def materialOf_def split: if_splits)
  show thesis by (rule that[OF r1 _ _ _ r2 r3]) (simp_all add: materialOf_def p(3) len)
qed

section \<open>The pages of a proof\<close>

lemma provePages_all:
  assumes "\<And>i. i \<in> set required \<Longrightarrow> \<not> ctxDone i \<and> readMaterialAt blake3 dag m i = Some (Inr (mat i))
      \<and> provePage r m tensor i (mat i) = Inr (page i)"
  shows "provePages blake3 ctxDone dag r m tensor required = Some (Inr (map (\<lambda>i. (page i, mat i)) required))"
  using assms by (induction required) simp_all

text \<open>The verifier accepts the page the prover made.\<close>

lemma proved_page:
  assumes built: "builtFrom blake3 m dag pw tn r" and size: "man_PageSize m < 2 ^ 63"
    and index: "index < man_TotalPages m"
    and tensor: "sorted tensor" "index \<in> set tensor \<Longrightarrow> man_ModelStartPage m \<le> index \<and> index < man_ModelEndPage m"
  shows "\<exists>mat page. readMaterialAt blake3 dag m index = Some (Inr mat) \<and> provePage r m tensor index mat = Inr page
    \<and> mat_PageIndex mat = index \<and> pp_PageIndex page = index
    \<and> length (mat_Payload mat) = unat (man_PageSize m) - unat (man_HeaderSize m)
    \<and> (\<forall>byIndex. byIndex index = Some page \<longrightarrow>
        verifyRequired blake3 m (treeRoot (merkleNodeHash blake3 treePoW) pw)
          (treeRoot (merkleNodeHash blake3 treeTensor) tn) tensor byIndex index = Inr mat)"
proof -
  have basics: "validateManifestBasics m = Inr ()" using built by (simp add: builtFrom_def)
  note v = basics[unfolded validateManifestBasics_iff]
  note bl = built_validates(3,4)[OF built]
  have pd: "diskTree (merkleNodeHash blake3 treePoW) (sr_file r) (sm_PoWLevels (sr_meta r)) pw"
    and td: "diskTree (merkleNodeHash blake3 treeTensor) (sr_file r) (sm_TensorLevels (sr_meta r)) tn"
    using built by (simp_all add: builtFrom_def)
  define i where "i = unat index"
  have ii: "index = of_nat i" by (simp add: i_def)
  have i: "i < length pw" using index by (simp add: i_def bl word_less_nat_alt)
  have leaf: "powLeaf blake3 dag m i = Inr (pw ! i)"
    using built i bl(1) by (auto simp: builtFrom_def list_all2_conv_all_nth)
  obtain mat where mat: "readMaterialAt blake3 dag m index = Some (Inr mat)" "mat_PoWLeaf mat = pw ! i" "mat_PageIndex mat = index"
    "length (mat_Payload mat) = unat (man_PageSize m) - unat (man_HeaderSize m)"
    "\<And>pp. pp_PageIndex pp = index \<Longrightarrow> pp_Page pp = ''0x'' @ hexEncode (mat_Page mat) \<Longrightarrow>
       materialFromProof blake3 pp m = Inr mat"
    "\<And>t. tensorLeaf blake3 dag m i = Inr t \<Longrightarrow> hdr_PageType (mat_Header mat) = PageTypeModel
       \<and> hdr_ShardID (mat_Header mat) = index - man_ModelStartPage m \<and> mat_TensorLeaf mat = t"
    using material_read[OF leaf, of thesis] i bl(1) v size unfolding ii UnifiedHeaderSize_def by simp
  have pow: "sidecarReader_Proof r treePoW index = Inr (proofFrom formatHash (buildLevels (merkleNodeHash blake3 treePoW) pw) i)"
    using built_Proof(1)[OF built i] by (simp add: ii)
  have okpow: "verifyMerkleProof blake3 treePoW (mat_PoWLeaf mat) index (man_PoWCommitLeafCount m)
      (proofFrom formatHash (buildLevels (merkleNodeHash blake3 treePoW) pw) i) (treeRoot (merkleNodeHash blake3 treePoW) pw) = Inr ()"
    using node.climb_complete[of pw i blake3 treePoW "[]"] diskTree_levels(5,6)[OF pd] i index bl(1) v
    by (simp add: verifyMerkleProof_def mat(2) ii not_le)
  show ?thesis
  proof (cases "index \<in> set tensor")
    case False
    define page where "page = \<lparr>pp_PageIndex = index, pp_Page = ''0x'' @ hexEncode (mat_Page mat),
      pp_PoWPath = proofFrom formatHash (buildLevels (merkleNodeHash blake3 treePoW) pw) i, pp_TensorPath = []\<rparr>"
    have "provePage r m tensor index mat = Inr page"
      using pow False by (simp add: provePage_def page_def containsSorted_iff[OF tensor(1)])
    moreover have "verifyRequired blake3 m (treeRoot (merkleNodeHash blake3 treePoW) pw)
        (treeRoot (merkleNodeHash blake3 treeTensor) tn) tensor byIndex index = Inr mat" if "byIndex index = Some page" for byIndex
      using that False mat(5)[of page] okpow by (simp add: verifyRequired_def page_def containsSorted_iff[OF tensor(1)])
    ultimately show ?thesis using mat(1,3,4) by (auto simp: page_def)
  next
    case True
    have ie: "unat (man_ModelStartPage m) \<le> i" "i < unat (man_ModelEndPage m)"
      using tensor(2)[OF True] by (simp_all add: i_def word_le_nat_alt word_less_nat_alt)
    define j where "j = i - unat (man_ModelStartPage m)"
    have iis: "i = unat (man_ModelStartPage m) + j" using ie(1) by (simp add: j_def)
    have tl: "tensorLeaf blake3 dag m i = Inr (tn ! j)" "j < length tn"
      using built ie(2) unfolding iis builtFrom_def by (auto simp: list_all2_conv_all_nth)
    have jj: "index - man_ModelStartPage m = of_nat j"
      using tensor(2)[OF True] unfolding j_def i_def by (simp add: word_unat_eq_iff unat_sub word_le_nat_alt unat_of_nat)
    have ten: "sidecarReader_Proof r treeTensor (index - man_ModelStartPage m)
        = Inr (proofFrom formatHash (buildLevels (merkleNodeHash blake3 treeTensor) tn) j)"
      using built_Proof(2)[OF built tl(2)] by (simp add: jj)
    note tm = mat(6)[OF tl(1)]
    have tc: "man_TensorLeafCount m = of_nat (length tn)" using bl(2) v by simp
    have "tn \<noteq> []" using tl(2) by auto
    then have okten: "verifyMerkleProof blake3 treeTensor (mat_TensorLeaf mat) (index - man_ModelStartPage m) (man_TensorLeafCount m)
        (proofFrom formatHash (buildLevels (merkleNodeHash blake3 treeTensor) tn) j) (treeRoot (merkleNodeHash blake3 treeTensor) tn) = Inr ()"
      using node.climb_complete[of tn j blake3 treeTensor "[]"] diskTree_levels(5,6)[OF td] tl(2) tm
        of_nat_u64_less[of j "length tn"] of_nat_u64_eq[of "length tn" 0]
      unfolding verifyMerkleProof_def jj tc by (simp add: not_le)
    define page where "page = \<lparr>pp_PageIndex = index, pp_Page = ''0x'' @ hexEncode (mat_Page mat),
      pp_PoWPath = proofFrom formatHash (buildLevels (merkleNodeHash blake3 treePoW) pw) i,
      pp_TensorPath = proofFrom formatHash (buildLevels (merkleNodeHash blake3 treeTensor) tn) j\<rparr>"
    have "provePage r m tensor index mat = Inr page"
      using pow ten True by (simp add: provePage_def page_def containsSorted_iff[OF tensor(1)])
    moreover have "verifyRequired blake3 m (treeRoot (merkleNodeHash blake3 treePoW) pw)
        (treeRoot (merkleNodeHash blake3 treeTensor) tn) tensor byIndex index = Inr mat" if "byIndex index = Some page" for byIndex
      using that True mat(5)[of page] okpow okten tm
      by (simp add: verifyRequired_def page_def containsSorted_iff[OF tensor(1)] Let_def)
    ultimately show ?thesis using mat(1,3,4) by (auto simp: page_def)
  qed
qed

section \<open>The digests\<close>

text \<open>Two seals with the same challenge: everything but the digests agrees.\<close>

definition sameChallenge :: "Seal \<Rightarrow> Seal \<Rightarrow> bool" where
  "sameChallenge s t \<longleftrightarrow> s\<lparr>seal_MixDigest := [], seal_AIDigest := [], seal_ProofHash := [], seal_WorkHash := []\<rparr>
     = t\<lparr>seal_MixDigest := [], seal_AIDigest := [], seal_ProofHash := [], seal_WorkHash := []\<rparr>"

lemma sameChallenge_fields:
  assumes "sameChallenge s t"
  shows "deriveRequiredPages blake3 m s = deriveRequiredPages blake3 m t" "writeSealFields s = writeSealFields t"
proof -
  have f: "seal_Version s = seal_Version t" "seal_Epoch s = seal_Epoch t" "seal_BlockHash s = seal_BlockHash t"
    "seal_Miner s = seal_Miner t" "seal_Nonce s = seal_Nonce t" "seal_PoWSampleCount s = seal_PoWSampleCount t"
    "seal_TensorSampleCount s = seal_TensorSampleCount t" "seal_ManifestRoot s = seal_ManifestRoot t"
    "seal_AIDagRoot s = seal_AIDagRoot t" "seal_TensorRoot s = seal_TensorRoot t" "seal_PoWRoot s = seal_PoWRoot t"
    "seal_ModelHash s = seal_ModelHash t"
    using assms by (cases s; cases t; simp add: sameChallenge_def)+
  show "writeSealFields s = writeSealFields t" by (simp add: writeSealFields_def f)
  have su: "sampleUnique blake3 d m s = sampleUnique blake3 d m t" for d
    by (intro ext) (simp add: sampleUnique_def sampleSeed_def f)
  show "deriveRequiredPages blake3 m s = deriveRequiredPages blake3 m t"
    unfolding deriveRequiredPages_def f su ..
qed

lemma sameChallenge_digests:
  assumes "sameChallenge s t"
  shows "computeMixDigest blake3 s m pw tn mats = computeMixDigest blake3 t m pw tn mats"
    "computeAIDigest blake3 s m tn mats = computeAIDigest blake3 t m tn mats"
proof -
  note w = sameChallenge_fields(2)[OF assms]
  show "computeMixDigest blake3 s m pw tn mats = computeMixDigest blake3 t m pw tn mats" by (simp add: computeMixDigest_def w)
  have "tensorChallenge blake3 s = tensorChallenge blake3 t" by (intro ext) (simp add: tensorChallenge_def w)
  then show "computeAIDigest blake3 s m tn mats = computeAIDigest blake3 t m tn mats" by (simp add: computeAIDigest_def w)
qed

lemma those_total: "(\<And>x. x \<in> set xs \<Longrightarrow> \<exists>y. f x = Some y) \<Longrightarrow> \<exists>ys. those (map f xs) = Some ys"
  by (induction xs) fastforce+

text \<open>Payloads of at least 32 bytes never make the tensor challenge panic.\<close>

lemma tensorChallenge_total:
  assumes "payload = [] \<or> 32 \<le> length payload" "length payload < 2 ^ 64"
  shows "\<exists>h. tensorChallenge blake3 seal index payload = Some h"
proof (cases "payload = []")
  case False
  have "\<exists>w. challengeWindow payload (challengeOffset blake3 s (length payload) i) = Some w" for s i
  proof -
    have "(of_nat (length payload) :: u64) \<noteq> 0" using of_nat_u64_eq[of "length payload" 0] assms(2) False by simp
    then have "(getLE h :: u64) mod of_nat (length payload) < of_nat (length payload)" for h
      by (simp add: word_mod_less_divisor word_neq_0_conv)
    then have "challengeOffset blake3 s (length payload) i < length payload"
      using assms(2) unfolding challengeOffset_def Let_def by (simp add: word_less_nat_alt unat_of_nat)
    then show ?thesis using assms(1) False by (auto simp: challengeWindow_def Let_def)
  qed
  then have "\<exists>ws. those (map (\<lambda>i. challengeWindow payload (challengeOffset blake3 s (length payload) i)) xs) = Some ws" for s and xs :: "nat list"
    by (intro those_total) auto
  then show ?thesis using False by (simp add: tensorChallenge_def Let_def)
qed (simp add: tensorChallenge_def)

lemma computeAIDigest_total:
  assumes "\<forall>mat \<in> set mats. 32 \<le> length (mat_Payload mat) \<and> length (mat_Payload mat) < 2 ^ 64"
  shows "\<exists>h. computeAIDigest blake3 seal m tn mats = Some h"
proof -
  have p: "mat_Payload (materialByIndex mats i) = [] \<or> 32 \<le> length (mat_Payload (materialByIndex mats i))"
    "length (mat_Payload (materialByIndex mats i)) < 2 ^ 64" for i
    using assms unfolding materialByIndex_def
    by (auto simp: zeroMaterial_def split: option.splits dest!: map_of_SomeD)
  have "\<exists>w. (let material = materialByIndex mats index in map_option (f index material)
      (tensorChallenge blake3 seal index (mat_Payload material))) = Some w" for f :: "u64 \<Rightarrow> pageMaterial \<Rightarrow> hash32 \<Rightarrow> bytes" and index
    using tensorChallenge_total[OF p] by (simp add: Let_def)
  then have "\<exists>ws. those (map (\<lambda>index. let material = materialByIndex mats index in map_option (f index material)
      (tensorChallenge blake3 seal index (mat_Payload material))) xs) = Some ws" for f :: "u64 \<Rightarrow> pageMaterial \<Rightarrow> hash32 \<Rightarrow> bytes" and xs
    by (intro those_total)
  then show ?thesis by (simp add: computeAIDigest_def Let_def)
qed

section \<open>The prover's result is accepted\<close>

lemma normalizeArbitrary_fix:
  assumes "TrimSpace v = v" "ToLower v = v"
    "HasPrefix v ''0x'' \<or> \<not> (hexDecode v \<noteq> None \<and> length v mod 2 = 0)"
  shows "normalizeArbitrary v = v"
proof (cases "HasPrefix v ''0x''")
  case True
  then obtain t where t: "v = ''0x'' @ t" by (auto simp: HasPrefix_append)
  have raw: "TrimPrefix v ''0x'' = t" unfolding t by (rule TrimPrefix_self)
  show ?thesis unfolding normalizeArbitrary_def Let_def assms(1,2) raw by (simp add: t)
next
  case False
  then have raw: "TrimPrefix v ''0x'' = v" by (simp add: TrimPrefix_def)
  show ?thesis unfolding normalizeArbitrary_def Let_def assms(1,2) raw using assms(3) False by auto
qed

lemma normalizeArbitrary_idem: "normalizeArbitrary (normalizeArbitrary s) = normalizeArbitrary s"
proof -
  define v where "v = ToLower (TrimSpace s)"
  have v: "ToLower v = v" "TrimSpace v = v" by (simp_all add: v_def TrimSpace_ToLower)
  let ?raw = "TrimPrefix v ''0x''"
  show ?thesis
  proof (cases "v \<noteq> [] \<and> hexDecode ?raw \<noteq> None \<and> length ?raw mod 2 = 0")
    case True
    then have n: "normalizeArbitrary s = ''0x'' @ ?raw" by (simp add: normalizeArbitrary_def Let_def flip: v_def)
    have "TrimSpace (''0x'' @ ?raw) = ''0x'' @ ?raw \<and> ToLower (''0x'' @ ?raw) = ''0x'' @ ?raw"
    proof (cases "HasPrefix v ''0x''")
      case True
      then obtain t where t: "v = ''0x'' @ t" by (auto simp: HasPrefix_append)
      have "?raw = t" unfolding t by (rule TrimPrefix_self)
      then show ?thesis using v t by simp
    next
      case False
      then have "?raw = v" by (simp add: TrimPrefix_def)
      moreover have "TrimSpace (''0x'' @ v) = ''0x'' @ v" using True v(2) TrimSpace_prefix[of v "CHR ''0''" "CHR ''x''"] by (simp add: isSpaceC_def)
      moreover have "ToLower (''0x'' @ v) = ''0x'' @ v" using v(1) by (simp add: toLowerC_def)
      ultimately show ?thesis by simp
    qed
    then show ?thesis unfolding n using HasPrefix_self[of "''0x''" ?raw] by (intro normalizeArbitrary_fix) blast+
  next
    case False
    then have n: "normalizeArbitrary s = v" by (auto simp: normalizeArbitrary_def Let_def simp flip: v_def)
    have "HasPrefix v ''0x'' \<or> \<not> (hexDecode v \<noteq> None \<and> length v mod 2 = 0)" if "v \<noteq> []"
      using False that by (cases "HasPrefix v ''0x''") (auto simp: TrimPrefix_def)
    then show ?thesis unfolding n using v normalizeArbitrary_fix[of v] by (cases "v = []") (auto simp: normalizeArbitrary_def)
  qed
qed

lemma computeWorkHash_cong:
  "writeSealFields s = writeSealFields t \<Longrightarrow> seal_MixDigest s = seal_MixDigest t \<Longrightarrow> seal_AIDigest s = seal_AIDigest t \<Longrightarrow>
     computeWorkHash blake3 s = computeWorkHash blake3 t"
  by (simp add: computeWorkHash_def)

text \<open>The seal \<open>sealProof\<close> fills in.\<close>

lemma sealProof_result:
  assumes ai: "computeAIDigest blake3 s m tn mats = Some h" and m: "m = pc_Manifest cfg"
  shows "(\<exists>proof. sealProof blake3 cfg s pw tn pages mats = Some (Inr (proof, json_marshal (proof_json proof)))
      \<and> prf_Version proof = ProofVersion \<and> prf_Pages proof = pages \<and> sameChallenge (prf_Seal proof) s
      \<and> seal_MixDigest (prf_Seal proof) = formatHash (computeMixDigest blake3 s m pw tn mats)
      \<and> seal_AIDigest (prf_Seal proof) = formatHash h
      \<and> seal_WorkHash (prf_Seal proof) = formatHash (computeWorkHash blake3 (prf_Seal proof))
      \<and> seal_ProofHash (prf_Seal proof) = formatHash (computeProofHash blake3 proof)
      \<and> (pc_Target cfg \<noteq> [] \<longrightarrow> (\<exists>t. decodeHex32 (pc_Target cfg) = Inr t
           \<and> hashMeetsTarget (computeWorkHash blake3 (prf_Seal proof)) t)))
    \<or> sealProof blake3 cfg s pw tn pages mats = Some (Inl ProveTargetNotMet) \<and> pc_Target cfg \<noteq> []"
proof -
  define s1 where "s1 = s\<lparr>seal_MixDigest := formatHash (computeMixDigest blake3 s m pw tn mats)\<rparr>"
  define s2 where "s2 = s1\<lparr>seal_AIDigest := formatHash h\<rparr>"
  define s3 where "s3 = s2\<lparr>seal_WorkHash := formatHash (computeWorkHash blake3 s2)\<rparr>"
  define p where "p = \<lparr>prf_Version = ProofVersion, prf_Seal = s3, prf_Pages = pages\<rparr>"
  define p' where "p' = p\<lparr>prf_Seal := s3\<lparr>seal_ProofHash := formatHash (computeProofHash blake3 p)\<rparr>\<rparr>"
  have c1: "sameChallenge s1 s" by (simp add: sameChallenge_def s1_def)
  have c: "sameChallenge (prf_Seal p') s"
    by (simp add: sameChallenge_def p'_def s3_def s2_def s1_def)
  have c2: "sameChallenge (prf_Seal p') s2" by (simp add: sameChallenge_def p'_def s3_def)
  have w: "computeWorkHash blake3 (prf_Seal p') = computeWorkHash blake3 s2"
    by (rule computeWorkHash_cong[OF sameChallenge_fields(2)[OF c2]]) (simp_all add: p'_def s3_def)
  have ph: "computeProofHash blake3 p' = computeProofHash blake3 p"
    by (simp add: computeProofHash_def p'_def p_def Let_def)
  have ai': "computeAIDigest blake3 s1 m tn mats = Some h" using ai sameChallenge_digests(2)[OF c1] by simp
  have f: "prf_Version p' = ProofVersion" "prf_Pages p' = pages"
    "seal_MixDigest (prf_Seal p') = formatHash (computeMixDigest blake3 s m pw tn mats)"
    "seal_AIDigest (prf_Seal p') = formatHash h"
    "seal_WorkHash (prf_Seal p') = formatHash (computeWorkHash blake3 s2)"
    "seal_ProofHash (prf_Seal p') = formatHash (computeProofHash blake3 p)"
    by (simp_all add: p'_def p_def s3_def s2_def s1_def)
  have eq: "sealProof blake3 cfg s pw tn pages mats =
      Some (if pc_Target cfg \<noteq> [] \<and> (case decodeHex32 (pc_Target cfg) of
              Inl _ \<Rightarrow> True | Inr target \<Rightarrow> \<not> hashMeetsTarget (computeWorkHash blake3 s2) target)
            then Inl ProveTargetNotMet else Inr (p', json_marshal (proof_json p')))"
    unfolding sealProof_def Let_def m[symmetric] s1_def[symmetric] ai' option.case s2_def[symmetric]
      s3_def[symmetric] p_def[symmetric] p'_def[symmetric] by (rule refl)
  show ?thesis
  proof (cases "pc_Target cfg \<noteq> [] \<and> (case decodeHex32 (pc_Target cfg) of
              Inl _ \<Rightarrow> True | Inr target \<Rightarrow> \<not> hashMeetsTarget (computeWorkHash blake3 s2) target)")
    case False
    then show ?thesis using eq c f w ph by (intro disjI1 exI[of _ p']) (auto split: sum.splits)
  qed (use eq in auto)
qed

lemma verifyDigests_sealed:
  assumes ai: "computeAIDigest blake3 s m tn mats = Some h" and same: "sameChallenge (prf_Seal proof) s"
    and seal: "seal_MixDigest (prf_Seal proof) = formatHash (computeMixDigest blake3 s m pw tn mats)"
      "seal_AIDigest (prf_Seal proof) = formatHash h"
      "seal_WorkHash (prf_Seal proof) = formatHash (computeWorkHash blake3 (prf_Seal proof))"
      "seal_ProofHash (prf_Seal proof) = formatHash (computeProofHash blake3 proof)"
    and target: "target \<noteq> [] \<longrightarrow> (\<exists>t. decodeHex32 target = Inr t \<and> hashMeetsTarget (computeWorkHash blake3 (prf_Seal proof)) t)"
  shows "verifyDigests blake3 m proof target pw tn mats = Some (Inr
    \<lparr>vr_WorkHash = seal_WorkHash (prf_Seal proof), vr_ProofHash = seal_ProofHash (prf_Seal proof),
     vr_AIDigest = seal_AIDigest (prf_Seal proof), vr_MixDigest = seal_MixDigest (prf_Seal proof),
     vr_PageCount = int (length (prf_Pages proof))\<rparr>)"
proof -
  note d = sameChallenge_digests[OF same]
  have "computeAIDigest blake3 (prf_Seal proof) m tn mats = Some h" using ai d(2) by simp
  then show ?thesis using target seal d(1) by (auto simp: verifyDigests_def Let_def)
qed

text \<open>What the challenge asks of a proof, as the node checks it.\<close>

definition challengeOf :: "ProveConfig \<Rightarrow> ExpectedChallenge" where
  "challengeOf cfg = \<lparr>exp_BlockHash = pc_BlockHash cfg, exp_Miner = pc_Miner cfg, exp_Epoch = pc_Epoch cfg,
     exp_ManifestRoot = man_ManifestRoot (pc_Manifest cfg), exp_MinPoWSamples = pc_PoWSamples cfg,
     exp_MinTensorSamples = pc_TensorSamples cfg\<rparr>"

lemma required_range:
  assumes basics: "validateManifestBasics m = Inr ()"
    and req: "deriveRequiredPages blake3 m seal = Some (Inr (pw, tn, required))"
  shows "i \<in> set required \<Longrightarrow> i < man_TotalPages m"
    "i \<in> set tn \<Longrightarrow> man_ModelStartPage m \<le> i \<and> i < man_ModelEndPage m"
proof -
  note v = basics[unfolded validateManifestBasics_iff]
  note d = deriveRequiredPages_spec[OF req]
  have se: "unat (man_ModelStartPage m) + unat (man_ModelPageCount m) = unat (man_ModelEndPage m)"
    using v by (simp add: unat_sub word_le_nat_alt word_less_nat_alt)
  have lt: "unat w < 2 ^ 64" for w :: u64 using unsigned_less[of w] by simp
  have t: "unat (man_ModelStartPage m) + unat (man_ModelPageCount m) \<le> 2 ^ 64"
    unfolding se using lt by (rule less_imp_le)
  have "unat (man_TotalPages m) \<le> 2 ^ 64" using lt by (rule less_imp_le)
  then have p: "\<forall>x \<in> set pw. unat x < unat (man_TotalPages m)" using sampleUnique_spec[OF d(5)] v by simp
  have q: "\<forall>x \<in> set tn. man_ModelStartPage m \<le> x \<and> unat x < unat (man_ModelEndPage m)"
    using sampleUnique_spec[OF d(6) _ t] v unfolding se by blast
  show tr: "i \<in> set tn \<Longrightarrow> man_ModelStartPage m \<le> i \<and> i < man_ModelEndPage m" for i
    using q by (simp add: word_less_nat_alt)
  show "i \<in> set required \<Longrightarrow> i < man_TotalPages m"
    using p tr[of i] d(4) v by (auto simp: word_less_nat_alt word_le_nat_alt intro: less_le_trans)
qed

text \<open>The part after the inputs are open.\<close>

lemma proved_verifies:
  assumes valid: "ValidateManifest blake3 m = Inr ()" and m: "m = pc_Manifest cfg"
    and built: "builtFrom blake3 m dag pws tns r" and size: "man_PageSize m < 2 ^ 63"
    and samples: "pc_PoWSamples cfg > 0" "pc_TensorSamples cfg \<ge> 0" "pc_TensorSamples cfg = 0 \<or> 192 \<le> man_PageSize m"
    and req: "deriveRequiredPages blake3 m (challengeSeal cfg) = Some (Inr (pw, tn, required))"
    and ctx: "\<forall>i \<in> set required. \<not> ctxDone i"
    and limits: "0 < lim_MaxPages limits" "int (length required) \<le> lim_MaxPages limits" "man_PageSize m \<le> lim_MaxPageSize limits"
  shows "\<exists>ps. provePages blake3 ctxDone dag r m tn required = Some (Inr ps)
    \<and> (sealProof blake3 cfg (challengeSeal cfg) pw tn (map fst ps) (map snd ps) = Some (Inl ProveTargetNotMet) \<and> pc_Target cfg \<noteq> []
      \<or> (\<exists>pro result. sealProof blake3 cfg (challengeSeal cfg) pw tn (map fst ps) (map snd ps)
              = Some (Inr (pro, json_marshal (proof_json pro)))
          \<and> prf_Version pro = ProofVersion \<and> sameChallenge (prf_Seal pro) (challengeSeal cfg)
          \<and> Verify blake3 m pro (pc_Target cfg) limits = Some (Inr result)
          \<and> VerifyExpected pro result (challengeOf cfg) = Inr ()))"
proof -
  have basics: "validateManifestBasics m = Inr ()" using built by (simp add: builtFrom_def)
  note v = basics[unfolded validateManifestBasics_iff]
  note d = deriveRequiredPages_spec[OF req] and rng = required_range[OF basics req]
  let ?pr = "treeRoot (merkleNodeHash blake3 treePoW) pws" and ?tr = "treeRoot (merkleNodeHash blake3 treeTensor) tns"
  have "\<forall>i \<in> set required. \<exists>mp. readMaterialAt blake3 dag m i = Some (Inr (fst mp)) \<and> provePage r m tn i (fst mp) = Inr (snd mp)
      \<and> mat_PageIndex (fst mp) = i \<and> pp_PageIndex (snd mp) = i
      \<and> length (mat_Payload (fst mp)) = unat (man_PageSize m) - unat (man_HeaderSize m)
      \<and> (\<forall>byIndex. byIndex i = Some (snd mp) \<longrightarrow> verifyRequired blake3 m ?pr ?tr tn byIndex i = Inr (fst mp))"
  proof
    fix i assume "i \<in> set required"
    from proved_page[OF built size rng(1)[OF this] conjunct1[OF d(2)] rng(2)] obtain mat page where
      "readMaterialAt blake3 dag m i = Some (Inr mat)" "provePage r m tn i mat = Inr page"
      "mat_PageIndex mat = i" "pp_PageIndex page = i"
      "length (mat_Payload mat) = unat (man_PageSize m) - unat (man_HeaderSize m)"
      "\<forall>byIndex. byIndex i = Some page \<longrightarrow> verifyRequired blake3 m ?pr ?tr tn byIndex i = Inr mat" by blast
    then show "\<exists>mp. readMaterialAt blake3 dag m i = Some (Inr (fst mp)) \<and> provePage r m tn i (fst mp) = Inr (snd mp)
      \<and> mat_PageIndex (fst mp) = i \<and> pp_PageIndex (snd mp) = i
      \<and> length (mat_Payload (fst mp)) = unat (man_PageSize m) - unat (man_HeaderSize m)
      \<and> (\<forall>byIndex. byIndex i = Some (snd mp) \<longrightarrow> verifyRequired blake3 m ?pr ?tr tn byIndex i = Inr (fst mp))"
      by (intro exI[of _ "(mat, page)"]) simp
  qed
  from bchoice[OF this] obtain mp where mp: "\<forall>i \<in> set required. readMaterialAt blake3 dag m i = Some (Inr (fst (mp i)))
      \<and> provePage r m tn i (fst (mp i)) = Inr (snd (mp i)) \<and> mat_PageIndex (fst (mp i)) = i \<and> pp_PageIndex (snd (mp i)) = i
      \<and> length (mat_Payload (fst (mp i))) = unat (man_PageSize m) - unat (man_HeaderSize m)
      \<and> (\<forall>byIndex. byIndex i = Some (snd (mp i)) \<longrightarrow> verifyRequired blake3 m ?pr ?tr tn byIndex i = Inr (fst (mp i)))"
    by (rule exE)
  define ps where "ps = map (\<lambda>i. (snd (mp i), fst (mp i))) required"
  define pages where "pages = map (\<lambda>i. snd (mp i)) required"
  define mats where "mats = map (\<lambda>i. fst (mp i)) required"
  have maps: "map fst ps = pages" "map snd ps = mats" by (simp_all add: ps_def pages_def mats_def comp_def)
  have pp: "provePages blake3 ctxDone dag r m tn required = Some (Inr ps)"
    unfolding ps_def using mp ctx by (intro provePages_all) blast
  obtain h where h: "computeAIDigest blake3 (challengeSeal cfg) m tn mats = Some h"
  proof (cases "pc_TensorSamples cfg = 0")
    case True
    then have "tn = []" using d(6) by (simp add: challengeSeal_def sampleUnique_def Let_def)
    then show thesis using that by (simp add: computeAIDigest_def)
  next
    case False
    then have "192 \<le> unat (man_PageSize m)" using samples(3) by (simp add: word_le_nat_alt)
    then have "\<forall>mat \<in> set mats. 32 \<le> length (mat_Payload mat) \<and> length (mat_Payload mat) < 2 ^ 64"
      using mp v size by (auto simp: mats_def word_less_nat_alt)
    then show thesis using computeAIDigest_total that by blast
  qed
  have pi: "map pp_PageIndex pages = required" using mp by (simp add: pages_def map_idI)
  have req': "deriveRequiredPages blake3 m (prf_Seal pro) = Some (Inr (pw, tn, required))"
    if "sameChallenge (prf_Seal pro) (challengeSeal cfg)" for pro
    using sameChallenge_fields(1)[OF that] req by simp
  have vp: "verifyPages blake3 m pro (?pr, ?tr) (pw, tn, required) = Inr mats" if "prf_Pages pro = pages" for pro
  proof -
    obtain byIndex where b: "indexPages pages Map.empty = Inr byIndex"
      using indexPages_iff[of pages Map.empty] d(3) pi by auto
    have "byIndex i = Some (snd (mp i))" if "i \<in> set required" for i
      using that mp indexPages_lookup[OF b] by (auto simp: pages_def)
    then have "mapE (verifyRequired blake3 m ?pr ?tr tn byIndex) required = Inr mats"
      unfolding mats_def using mp by (intro mapE_all_ok) blast
    then show ?thesis using b that pi by (auto simp: verifyPages_def pages_def)
  qed
  have roots: "decodeHex32 (man_PoWCommitRoot m) = Inr ?pr" "decodeHex32 (man_TensorRoot m) = Inr ?tr"
    using built dag_decodeHex32_sound by (auto simp: builtFrom_def)
  have pre: "verifyPreamble blake3 m pro limits = Inr (?pr, ?tr)"
    if "prf_Version pro = ProofVersion" "prf_Pages pro = pages" "sameChallenge (prf_Seal pro) (challengeSeal cfg)" for pro
  proof -
    have f: "seal_Version (prf_Seal pro) = SealVersion" "seal_PoWSampleCount (prf_Seal pro) = pc_PoWSamples cfg"
      "seal_TensorSampleCount (prf_Seal pro) = pc_TensorSamples cfg"
      "verifySealMatchesManifest (prf_Seal pro) m = Inr ()"
      using that(3) m by (cases "prf_Seal pro"; simp add: sameChallenge_def challengeSeal_def Let_def
          verifySealMatchesManifest_def equalHex_def)+
    have "length pages = length required" by (simp add: pages_def)
    then show ?thesis using valid limits samples roots that(1,2) f by (simp add: verifyPreamble_def Let_def)
  qed
  from sealProof_result[OF h m, of pw pages] show ?thesis
  proof (elim disjE exE conjE)
    fix pro
    assume p: "sealProof blake3 cfg (challengeSeal cfg) pw tn pages mats = Some (Inr (pro, json_marshal (proof_json pro)))"
      "prf_Version pro = ProofVersion" "prf_Pages pro = pages" "sameChallenge (prf_Seal pro) (challengeSeal cfg)"
      "seal_MixDigest (prf_Seal pro) = formatHash (computeMixDigest blake3 (challengeSeal cfg) m pw tn mats)"
      "seal_AIDigest (prf_Seal pro) = formatHash h"
      "seal_WorkHash (prf_Seal pro) = formatHash (computeWorkHash blake3 (prf_Seal pro))"
      "seal_ProofHash (prf_Seal pro) = formatHash (computeProofHash blake3 pro)"
      "pc_Target cfg \<noteq> [] \<longrightarrow> (\<exists>t. decodeHex32 (pc_Target cfg) = Inr t \<and> hashMeetsTarget (computeWorkHash blake3 (prf_Seal pro)) t)"
    note dg = verifyDigests_sealed[OF h p(4-9)]
    define result where "result = \<lparr>vr_WorkHash = seal_WorkHash (prf_Seal pro), vr_ProofHash = seal_ProofHash (prf_Seal pro),
     vr_AIDigest = seal_AIDigest (prf_Seal pro), vr_MixDigest = seal_MixDigest (prf_Seal pro),
     vr_PageCount = int (length (prf_Pages pro))\<rparr>"
    have "Verify blake3 m pro (pc_Target cfg) limits = Some (Inr result)"
      using dg by (simp add: Verify_def pre[OF p(2,3,4)] req'[OF p(4)] vp[OF p(3)] result_def)
    moreover have "VerifyExpected pro result (challengeOf cfg) = Inr ()"
      using p(4) m by (cases "prf_Seal pro")
        (simp add: VerifyExpected_def challengeOf_def sameChallenge_def challengeSeal_def result_def Let_def
          normalizeArbitrary_idem TrimSpace_ToLower equalHex_def)
    ultimately show ?thesis using pp p(1,2,4) maps by auto
  qed (use pp maps in auto)
qed

section \<open>The whole prover\<close>

definition sidecarPathOf :: "ProveConfig \<Rightarrow> string" where
  "sidecarPathOf cfg = (if pc_SidecarPath cfg = [] then pc_DAGPath cfg @ ''.sidecar'' else pc_SidecarPath cfg)"

lemma ProveFiles_built:
  assumes valid: "ValidateManifest blake3 m = Inr ()" and m: "m = pc_Manifest cfg"
    and build: "buildMerkleSidecarTempFromDAG blake3 fs0 dagPath m now = Inr (f, sm)" "fs0 dagPath = Some dag" "length now \<le> 100"
    and fits: "unat (man_TotalPages m) * unat (man_PageSize m) < 2 ^ 63"
    and files: "fs (sidecarPathOf cfg) = Some f" "fs (pc_DAGPath cfg) = Some dag" "of_nat (length dag) = man_TotalBytes m"
    and cfg: "pc_DAGPath cfg \<noteq> []" "pc_BlockHash cfg \<noteq> []" "pc_Miner cfg \<noteq> []"
    and samples: "pc_PoWSamples cfg > 0" "pc_TensorSamples cfg \<ge> 0" "pc_TensorSamples cfg = 0 \<or> 192 \<le> man_PageSize m"
    and req: "deriveRequiredPages blake3 m (challengeSeal cfg) = Some (Inr (pw, tn, required))"
    and ctx: "\<forall>i \<in> set required. \<not> ctxDone i"
    and limits: "0 < lim_MaxPages limits" "int (length required) \<le> lim_MaxPages limits" "man_PageSize m \<le> lim_MaxPageSize limits"
  shows "ProveFiles blake3 ctxDone fs cfg = Some (Inl ProveTargetNotMet) \<and> pc_Target cfg \<noteq> []
    \<or> (\<exists>pro result. ProveFiles blake3 ctxDone fs cfg = Some (Inr (pro, json_marshal (proof_json pro)))
        \<and> prf_Version pro = ProofVersion \<and> sameChallenge (prf_Seal pro) (challengeSeal cfg)
        \<and> Verify blake3 m pro (pc_Target cfg) limits = Some (Inr result)
        \<and> VerifyExpected pro result (challengeOf cfg) = Inr ())"
proof -
  note b = built_sidecar[where fs' = fs and path = "sidecarPathOf cfg", OF build(1,3) fits files(1)]
  obtain pws tns where built: "builtFrom blake3 m dag pws tns \<lparr>sr_file = f, sr_meta = sm\<rparr>"
    using b(3) build(2) by auto
  have basics: "validateManifestBasics m = Inr ()" using built by (simp add: builtFrom_def)
  have pos: "1 \<le> unat (man_TotalPages m)"
    using basics unfolding validateManifestBasics_iff by (simp add: unat_gt_0 Suc_le_eq)
  have "1 * unat (man_PageSize m) < 2 ^ 63" by (rule le_less_trans[OF mult_le_mono1[OF pos] fits])
  then have size: "man_PageSize m < 2 ^ 63" by (simp add: word_less_nat_alt)
  have open': "openInputs fs cfg = Inr (\<lparr>sr_file = f, sr_meta = sm\<rparr>, dag)"
    using b(1) built_validates(1)[OF built] files(2,3) m
    by (simp add: openInputs_def sidecarPathOf_def openFile_def Let_def)
  obtain ps where ps: "provePages blake3 ctxDone dag \<lparr>sr_file = f, sr_meta = sm\<rparr> m tn required = Some (Inr ps)"
    "sealProof blake3 cfg (challengeSeal cfg) pw tn (map fst ps) (map snd ps) = Some (Inl ProveTargetNotMet) \<and> pc_Target cfg \<noteq> []
      \<or> (\<exists>pro result. sealProof blake3 cfg (challengeSeal cfg) pw tn (map fst ps) (map snd ps)
              = Some (Inr (pro, json_marshal (proof_json pro)))
          \<and> prf_Version pro = ProofVersion \<and> sameChallenge (prf_Seal pro) (challengeSeal cfg)
          \<and> Verify blake3 m pro (pc_Target cfg) limits = Some (Inr result)
          \<and> VerifyExpected pro result (challengeOf cfg) = Inr ())"
    using proved_verifies[OF valid m built size samples req ctx limits] by blast
  have "ProveFiles blake3 ctxDone fs cfg = sealProof blake3 cfg (challengeSeal cfg) pw tn (map fst ps) (map snd ps)"
    using cfg samples valid open' req ps(1) m by (simp add: ProveFiles_def)
  then show ?thesis using ps(2) by presburger
qed

end
