(* ===== verification/DagSeal_Laws.thy ===== *)
theory DagSeal_Laws
  imports DagSeal Prover_Laws
begin

text \<open>
  The generator tool's copy of the seal code against \<open>internal/aiseal\<close>: they compute the same samples,
  materials and digests, except on a block hash that is an odd number of hex digits without \<open>0x\<close>
  (the tool prefixes it, the package does not). Whatever the tool's verifier accepts, the package's
  verifier accepts.
\<close>

section \<open>Strings\<close>

lemma equalHexString_eq [simp]: "equalHexString a b = equalHex a b"
  by (simp add: equalHexString_def equalHex_def normalizeHexString_eq)

definition oddHex :: "string \<Rightarrow> bool" where
  "oddHex s = (let v = ToLower (TrimSpace s) in \<not> HasPrefix v ''0x'' \<and> isHexString v \<and> odd (length v))"

lemma hexDecode_iff: "hexDecode s \<noteq> None \<longleftrightarrow> even (length s) \<and> list_all (\<lambda>r. hexVal r \<noteq> None) s"
  by (induction s rule: hexDecode.induct) (auto split: option.splits)

text \<open>The two normal forms differ exactly on those strings.\<close>

lemma normalizeArbitrary_differ:
  "normalizeArbitraryHexOrString s = normalizeArbitrary s \<longleftrightarrow> \<not> oddHex s"
proof -
  define v where "v = ToLower (TrimSpace s)"
  have v: "TrimSpace v = v" "ToLower v = v" by (simp_all add: v_def TrimSpace_ToLower)
  have a: "normalizeArbitraryHexOrString s = (if v = [] then [] else if HasPrefix v ''0x'' \<or> isHexString v then normalizeHex v else v)"
    by (simp add: normalizeArbitraryHexOrString_def normalizeHexString_eq TrimSpace_ToLower Let_def v_def)
  have n: "normalizeHex v = (if v = [] \<or> HasPrefix v ''0x'' then v else ''0x'' @ v)"
    by (simp add: normalizeHex_def v Let_def)
  let ?raw = "TrimPrefix v ''0x''"
  have b: "normalizeArbitrary s = (if v = [] then [] else if hexDecode ?raw \<noteq> None \<and> length ?raw mod 2 = 0 then ''0x'' @ ?raw else v)"
    by (simp add: normalizeArbitrary_def Let_def v_def)
  show ?thesis
  proof (cases "HasPrefix v ''0x''")
    case True
    then obtain t where t: "v = ''0x'' @ t" by (auto simp: HasPrefix_append)
    have "?raw = t" unfolding t by (rule TrimPrefix_self)
    then show ?thesis using True t unfolding a b n by (simp add: oddHex_def Let_def flip: v_def)
  next
    case False
    then have raw: "?raw = v" by (simp add: TrimPrefix_def)
    have odd: "oddHex s \<longleftrightarrow> isHexString v \<and> odd (length v)" using False by (simp add: oddHex_def Let_def flip: v_def)
    have dec: "hexDecode v \<noteq> None \<longleftrightarrow> even (length v) \<and> (v = [] \<or> isHexString v)"
      unfolding hexDecode_iff by (auto simp: isHexString_def)
    have "\<not> (''0x'' @ v = v)" by simp
    then show ?thesis using False dec unfolding a b n raw odd
      by (cases "v = []"; cases "isHexString v"; cases "even (length v)") (auto simp: isHexString_def even_iff_mod_2_eq_zero)
  qed
qed

lemma normalizeArbitraryHexOrString_normal:
  "\<not> oddHex (normalizeArbitraryHexOrString s)"
  "normalizeArbitraryHexOrString (normalizeArbitraryHexOrString s) = normalizeArbitraryHexOrString s"
proof -
  define v where "v = ToLower (TrimSpace s)"
  have v: "TrimSpace v = v" "ToLower v = v" by (simp_all add: v_def TrimSpace_ToLower)
  define w where "w = normalizeArbitraryHexOrString s"
  have a: "w = (if v = [] then [] else if HasPrefix v ''0x'' \<or> isHexString v then normalizeHex v else v)"
    by (simp add: w_def normalizeArbitraryHexOrString_def normalizeHexString_eq TrimSpace_ToLower Let_def v_def)
  have n: "normalizeHex v = (if v = [] \<or> HasPrefix v ''0x'' then v else ''0x'' @ v)"
    by (simp add: normalizeHex_def v Let_def)
  have w: "TrimSpace w = w \<and> ToLower w = w \<and> (w = [] \<or> HasPrefix w ''0x'' \<or> \<not> isHexString w)"
  proof (cases "v \<noteq> [] \<and> \<not> HasPrefix v ''0x'' \<and> isHexString v")
    case True
    then have "w = ''0x'' @ v" unfolding a n by simp
    moreover have "TrimSpace (''0x'' @ v) = ''0x'' @ v" using True v(1) TrimSpace_prefix[of v "CHR ''0''" "CHR ''x''"] by (simp add: isSpaceC_def)
    moreover have "ToLower (''0x'' @ v) = ''0x'' @ v" using v(2) by (simp add: toLowerC_def)
    ultimately show ?thesis using HasPrefix_self[of "''0x''" v] by metis
  next
    case False
    then have "w = v \<and> (v = [] \<or> HasPrefix v ''0x'' \<or> \<not> isHexString v)" unfolding a n by auto
    then show ?thesis using v by simp
  qed
  then show "\<not> oddHex (normalizeArbitraryHexOrString s)"
    by (auto simp: oddHex_def Let_def isHexString_def simp flip: w_def)
  show "normalizeArbitraryHexOrString (normalizeArbitraryHexOrString s) = normalizeArbitraryHexOrString s"
    using w by (auto simp: normalizeArbitraryHexOrString_def[of w] normalizeHexString_eq normalizeHex_def Let_def simp flip: w_def)
qed

section \<open>The two sidecar readers\<close>

lemma checkLevels_agree: "checkLevels name prev i ls = Inr () \<longleftrightarrow> validateLevelsFrom name prev i ls = Inr ()"
  by (induction ls arbitrary: prev i) (auto split: option.splits)

lemma validateSelf_agree: "dag_validateSelf sm = Inr () \<longleftrightarrow> validateSelf sm = Inr () \<and> sm_PageSize sm > UnifiedHeaderSize"
  by (auto simp: dag_validateSelf_def validateSelf_def validateSidecarLevels_def checkLevels_agree not_le)

lemma validateSelf_levels: "validateSelf sm = Inr () \<Longrightarrow> sm_PoWLevels sm \<noteq> [] \<and> sm_TensorLevels sm \<noteq> []"
  by (auto simp: validateSelf_def split: if_splits)

lemma open_agree:
  "openMerkleSidecar fs path = Inr r \<longleftrightarrow> openSidecar fs path = Inr r \<and> sm_PageSize (sr_meta r) > UnifiedHeaderSize"
  by (auto simp: openMerkleSidecar_def openSidecar_def Let_def validateSelf_agree)

lemma open_levels: "openSidecar fs path = Inr r \<Longrightarrow> sm_PoWLevels (sr_meta r) \<noteq> [] \<and> sm_TensorLevels (sr_meta r) \<noteq> []"
  by (auto simp: openSidecar_def Let_def dest!: validateSelf_levels)

lemma validate_agree:
  assumes "sm_PoWLevels (sr_meta r) \<noteq> []" "sm_TensorLevels (sr_meta r) \<noteq> []"
  shows "validateAgainstManifest r m = Inr () \<longleftrightarrow> validateManifest r m = Inr ()"
  using assms by (auto simp: validateAgainstManifest_def validateManifest_def Let_def)

lemma readHash_agree: "readLevelHash f l i = Inr h \<longleftrightarrow> readHash f l i = Inr h"
  by (simp add: readLevelHash_def readHash_def)

lemma steps_agree: "dag_sidecarSteps f ls i = Inr p \<longleftrightarrow> sidecarSteps f ls i = Inr p"
proof (induction ls arbitrary: i p rule: induct_list012)
  case (3 level l ls)
  have "unat (i mod 2) < 2" by (simp add: unat_mod)
  then have "i mod 2 = 0 \<or> i mod 2 = 1" by (auto simp: less_2_cases_iff word_unat_eq_iff)
  then show ?case by (auto simp: "3.IH"(2) readHash_agree formatHash_def)
qed simp_all

lemma reader_Proof_agree:
  assumes "sm_PoWLevels (sr_meta r) \<noteq> []" "sm_TensorLevels (sr_meta r) \<noteq> []"
  shows "MerkleSidecarReader_Proof r t i = Inr p \<longleftrightarrow> sidecarReader_Proof r t i = Inr p"
  using assms by (auto simp: MerkleSidecarReader_Proof_def sidecarReader_Proof_def sidecarLevels_def steps_agree)

section \<open>Samples\<close>

lemma sampleUniqueIndices_eq:
  assumes "normalizeArbitraryHexOrString blockHash = normalizeArbitrary (seal_BlockHash seal)"
    "ToLower (TrimSpace miner) = ToLower (TrimSpace (seal_Miner seal))" "epoch = seal_Epoch seal" "nonce = seal_Nonce seal"
  shows "sampleUniqueIndices blake3 d m blockHash miner epoch nonce cnt start span = sampleUnique blake3 d m seal cnt start span"
  unfolding sampleUniqueIndices_def sampleUnique_def sampleSeed_def Let_def sampleIndex_def[abs_def]
    assms normalizeHexString_eq blake3HashTagged_eq by (rule refl)

lemma deriveRequiredProofPages_eq:
  assumes "normalizeArbitraryHexOrString blockHash = normalizeArbitrary (seal_BlockHash seal)"
    "ToLower (TrimSpace miner) = ToLower (TrimSpace (seal_Miner seal))" "epoch = seal_Epoch seal" "nonce = seal_Nonce seal"
    "p = seal_PoWSampleCount seal" "t = seal_TensorSampleCount seal"
  shows "deriveRequiredProofPages blake3 m blockHash miner epoch nonce p t = Some (Inr r)
    \<longleftrightarrow> 0 < p \<and> 0 \<le> t \<and> deriveRequiredPages blake3 m seal = Some (Inr r)"
proof -
  have s: "sampleUniqueIndices blake3 d m blockHash miner epoch nonce cnt start span = sampleUnique blake3 d m seal cnt start span"
    for d cnt start span by (rule sampleUniqueIndices_eq[OF assms(1-4)])
  show ?thesis unfolding deriveRequiredProofPages_def deriveRequiredPages_def s assms(5,6)
    by (cases r) (auto split: option.splits)
qed

lemma isTensorRequiredPage_eq: "isTensorRequiredPage i xs = containsSorted xs i"
  by (simp add: isTensorRequiredPage_def containsSorted_def)

section \<open>Material\<close>

lemma dag_materialOf_Some:
  assumes "man_HeaderSize m \<le> man_PageSize m" "man_PayloadSize m = man_PageSize m - man_HeaderSize m"
    "length page = unat (man_PageSize m)"
  shows "dag_materialOf blake3 m i page h ph pc =
    (if man_PayloadSize m > maxInt then None else Some (materialOf blake3 m i page h ph pc))"
proof -
  have p: "unat (man_PayloadSize m) = length page - unat (man_HeaderSize m)"
    using assms by (simp add: unat_sub)
  have "unat (man_HeaderSize m) \<le> length page" using assms(1,3) by (simp add: word_le_nat_alt)
  then show ?thesis using p by (simp add: dag_materialOf_def materialOf_def dag_merkleLeafHash_eq)
qed

section \<open>Digests\<close>

lemma writeSealChallengeFields_eq: "\<not> oddHex (seal_BlockHash s) \<Longrightarrow> writeSealChallengeFields s = writeSealFields s"
  by (simp add: writeSealChallengeFields_def writeSealFields_def normalizeHexString_eq normalizeArbitrary_differ[THEN iffD2])

lemma materialByIndex_eq: "matByIndex mats i = Some mat \<Longrightarrow> materialByIndex mats i = mat"
  by (simp add: matByIndex_def materialByIndex_def)

lemma matByIndex_mem: "i \<in> mat_PageIndex ` set mats \<Longrightarrow> \<exists>mat. matByIndex mats i = Some mat"
  by (cases "matByIndex mats i") (auto simp: matByIndex_def map_of_eq_None_iff image_image)

lemma computeMixDigest_eq:
  assumes "\<not> oddHex (seal_BlockHash s)" "set pw \<union> set tn \<subseteq> mat_PageIndex ` set mats"
  shows "dag_computeMixDigest blake3 s m pw tn mats = computeMixDigest blake3 s m pw tn mats"
proof -
  have c: "map (\<lambda>i. case matByIndex mats i of None \<Rightarrow> [] | Some mat \<Rightarrow> f i mat) xs = map (\<lambda>i. f i (materialByIndex mats i)) xs"
    if "set xs \<subseteq> mat_PageIndex ` set mats" for xs and f :: "u64 \<Rightarrow> pageMaterial \<Rightarrow> bytes"
    using that matByIndex_mem[of _ mats] by (force dest: materialByIndex_eq)
  show ?thesis unfolding dag_computeMixDigest_def computeMixDigest_def Let_def
    using assms by (simp add: c writeSealChallengeFields_eq normalizeHexString_eq)
qed

lemma lightweightTensorPageChallenge_eq:
  "\<not> oddHex (seal_BlockHash s) \<Longrightarrow> lightweightTensorPageChallenge blake3 s i payload = tensorChallenge blake3 s i payload"
  by (simp add: lightweightTensorPageChallenge_def tensorChallenge_def writeSealChallengeFields_eq challengeOffset_def Let_def)

lemma computeAIDigest_eq:
  assumes "\<not> oddHex (seal_BlockHash s)" "set tn \<subseteq> mat_PageIndex ` set mats"
  shows "dag_computeAIDigest blake3 s m tn mats = computeAIDigest blake3 s m tn mats"
proof -
  have c: "map (\<lambda>i. case matByIndex mats i of None \<Rightarrow> Some [] | Some mat \<Rightarrow> f i mat) tn = map (\<lambda>i. f i (materialByIndex mats i)) tn"
    for f :: "u64 \<Rightarrow> pageMaterial \<Rightarrow> bytes option"
    using assms(2) matByIndex_mem[of _ mats] by (force dest: materialByIndex_eq)
  show ?thesis unfolding dag_computeAIDigest_def computeAIDigest_def Let_def c
    using assms(1) by (simp add: writeSealChallengeFields_eq normalizeHexString_eq lightweightTensorPageChallenge_eq)
qed

lemma computeSealWorkHash_eq: "\<not> oddHex (seal_BlockHash s) \<Longrightarrow> computeSealWorkHash blake3 s = computeWorkHash blake3 s"
  by (simp add: computeSealWorkHash_def computeWorkHash_def writeSealChallengeFields_eq normalizeHexString_eq)

lemma dag_writeProofPath_eq: "dag_writeProofPath = writeProofPath"
  by (simp add: fun_eq_iff dag_writeProofPath_def writeProofPath_def normalizeHexString_eq)

lemma computeProofHash_eq: "\<not> oddHex (seal_BlockHash (prf_Seal p)) \<Longrightarrow> dag_computeProofHash blake3 p = computeProofHash blake3 p"
  by (simp add: dag_computeProofHash_def computeProofHash_def canonicalProofPagesForHash_def dag_writeProofPath_eq
      writeSealChallengeFields_eq normalizeHexString_eq Let_def)

section \<open>The verifiers\<close>

lemma dag_verifySealMatchesManifest_eq: "dag_verifySealMatchesManifest s m = Inr () \<longleftrightarrow> verifySealMatchesManifest s m = Inr ()"
  by (simp add: dag_verifySealMatchesManifest_def verifySealMatchesManifest_def)

lemma pageProofByIndex_eq: "pageProofByIndex ps b = Inr b' \<longleftrightarrow> indexPages ps b = Inr b'"
  by (induction ps arbitrary: b) auto

text \<open>A decoded page is no longer than its text.\<close>

lemma length_decoded:
  assumes "dag_decodeHexBytes s = Inr b"
  shows "length b \<le> length s"
proof -
  have hex: "hexDecode t = Some b' \<Longrightarrow> length b' \<le> length t" for t b'
  proof (induction t arbitrary: b' rule: hexDecode.induct)
    case (3 c d t)
    then obtain bs where "hexDecode t = Some bs" "length b' = Suc (length bs)" by (auto split: option.splits)
    then show ?case using 3(1)[of bs] by simp
  qed simp_all
  have "length (dropWhile P t) \<le> length t" for P and t :: string by (rule length_dropWhile_le)
  then have "length (TrimSpace s) \<le> length s"
    unfolding TrimSpace_def by (metis length_rev order_trans)
  then show ?thesis using assms hex
    by (auto simp: dag_decodeHexBytes_def Let_def split: if_splits option.splits sum.splits dest!: hex)
qed

lemma checked_material:
  assumes basics: "man_HeaderSize m \<le> man_PageSize m" "man_PayloadSize m = man_PageSize m - man_HeaderSize m"
    and mat: "materialFromPageProof blake3 p m = Some (Inr mat)" and size: "length (pp_Page p) < 2 ^ 64"
    and check: "checkMaterial blake3 m powRoot tensorRoot tn i p mat = Inr mat'" and at: "byIndex i = Some p"
  shows "mat' = mat" "verifyRequired blake3 m powRoot tensorRoot tn byIndex i = Inr mat"
proof -
  obtain page h ph pc where d: "dag_decodeHexBytes (pp_Page p) = Inr page" "of_nat (length page) = man_PageSize m"
    "verifyPageBytes blake3 page (pp_PageIndex p) (man_PageSize m) = Inr (h, ph, pc)"
    "dag_materialOf blake3 m (pp_PageIndex p) page h ph pc = Some mat"
    using mat by (auto simp: materialFromPageProof_def split: sum.splits if_splits prod.splits)
  have v: "verifyPage blake3 page (pp_PageIndex p) (man_PageSize m) = Inr (h, ph, pc)"
    using d(3) by (simp add: verifyPageBytes_eq)
  have "length page < 2 ^ 64" using length_decoded[OF d(1)] size by (rule le_less_trans)
  then have len: "length page = unat (man_PageSize m)"
    unfolding d(2)[symmetric] by (simp add: unat_of_nat)
  have m: "mat = materialOf blake3 m (pp_PageIndex p) page h ph pc"
    using d(4) dag_materialOf_Some[OF basics len] by (simp split: if_splits)
  have mf: "materialFromProof blake3 p m = Inr mat"
    using dag_decodeHexBytes_sound[OF d(1)] d(2) v m by (simp add: materialFromProof_def)
  show "mat' = mat" using check by (auto simp: checkMaterial_def Let_def split: if_splits)
  show "verifyRequired blake3 m powRoot tensorRoot tn byIndex i = Inr mat"
    using check at mf by (auto simp: verifyRequired_def checkMaterial_def isTensorRequiredPage_eq Let_def
        dest: dag_proof_check_sound split: if_splits)
qed

lemma requiredMaterials_sound:
  assumes basics: "man_HeaderSize m \<le> man_PageSize m" "man_PayloadSize m = man_PageSize m - man_HeaderSize m"
    and run: "requiredMaterials blake3 m powRoot tensorRoot tn byIndex required = Some (Inr mats)"
    and index: "\<And>i p. byIndex i = Some p \<Longrightarrow> pp_PageIndex p = i \<and> length (pp_Page p) < 2 ^ 64"
  shows "mapE (verifyRequired blake3 m powRoot tensorRoot tn byIndex) required = Inr mats \<and> map mat_PageIndex mats = required"
  using run
proof (induction required arbitrary: mats)
  case (Cons i required)
  then obtain p mat mat' rest where r: "byIndex i = Some p" "materialFromPageProof blake3 p m = Some (Inr mat)"
    "checkMaterial blake3 m powRoot tensorRoot tn i p mat = Inr mat'"
    "requiredMaterials blake3 m powRoot tensorRoot tn byIndex required = Some (Inr rest)" "mats = mat' # rest"
    by (auto split: option.splits sum.splits)
  note c = checked_material[where byIndex = byIndex, OF basics r(2) conjunct2[OF index[OF r(1)]] r(3,1)]
  have "mat_PageIndex mat = i"
    using r(1,2) index by (auto simp: materialFromPageProof_def dag_materialOf_def split: sum.splits if_splits prod.splits)
  then show ?case using Cons.IH[OF r(4)] c r(5) by simp
qed simp

text \<open>What the tool's verifier accepts.\<close>

lemma verifyAISealProof_accepts:
  assumes "verifyAISealProof blake3 m p = Some (Inr (w, h))"
  obtains powRoot tensorRoot pw tn required byIndex mats where
    "sealPreamble m p = Inr (powRoot, tensorRoot)"
    "deriveRequiredProofPages blake3 m (seal_BlockHash (prf_Seal p)) (seal_Miner (prf_Seal p)) (seal_Epoch (prf_Seal p))
       (seal_Nonce (prf_Seal p)) (seal_PoWSampleCount (prf_Seal p)) (seal_TensorSampleCount (prf_Seal p))
       = Some (Inr (pw, tn, required))"
    "length (prf_Pages p) = length required"
    "pageProofByIndex (prf_Pages p) Map.empty = Inr byIndex"
    "requiredMaterials blake3 m powRoot tensorRoot tn byIndex required = Some (Inr mats)"
    "checkDigests blake3 m p pw tn mats = Some (Inr (w, h))"
  using assms by (auto simp: verifyAISealProof_def Let_def split: sum.splits option.splits prod.splits if_splits)

lemma checkDigests_sound:
  assumes check: "checkDigests blake3 m p pw tn mats = Some (Inr (w, h))"
    and hex: "\<not> oddHex (seal_BlockHash (prf_Seal p))" and cover: "set pw \<union> set tn \<subseteq> mat_PageIndex ` set mats"
  shows "\<exists>res. verifyDigests blake3 m p [] pw tn mats = Some (Inr res)
    \<and> vr_WorkHash res = formatHash w \<and> vr_ProofHash res = formatHash h \<and> vr_PageCount res = int (length (prf_Pages p))"
proof -
  have "set tn \<subseteq> mat_PageIndex ` set mats" using cover by simp
  note eqs = computeMixDigest_eq[OF hex cover] computeAIDigest_eq[OF hex this] computeSealWorkHash_eq[OF hex] computeProofHash_eq[OF hex]
  show ?thesis using check
    by (auto simp: checkDigests_def verifyDigests_def eqs Let_def formatHash_def split: option.splits if_splits)
qed

end
