(* ===== verification/Seal_Props.thy ===== *)
theory Seal_Props
  imports DagSeal_Laws
begin

text \<open>Properties of the generator tool's seal code, of the sidecar and of the prover.\<close>

section \<open>The tool's verifier\<close>

lemma sample_not_odd: "\<not> oddHex (seal_BlockHash (prf_Seal sampleProof))"
  by (simp add: oddHex_def sampleProof_def Let_def TrimSpace_no_space isSpaceC_def toLowerC_def HasPrefix_append)

lemma sample_dag_accepted:
  "verifyAISealProof ones sampleManifest sampleProof = Some (Inr (replicate 32 1, replicate 32 1))"
proof -
  define h where "h = finalHeader ones sampleConfig (fillerJob 2) [7, 7, 7, 7]"
  have i: "pp_PageIndex sampleProofPage = 2" "pp_TensorPath sampleProofPage = []" by (simp_all add: sampleProofPage_def)
  have d: "dag_decodeHexBytes (pp_Page sampleProofPage) = Inr (dagPage 2)"
    unfolding sampleProofPage_def by (simp add: dag_decodeHexBytes_def HasPrefix_append dagPage_def flip: length_0_conv)
  have l: "of_nat (length (dagPage 2)) = man_PageSize sampleManifest" "length (dagPage 2) = 164"
    by (simp_all add: dagPage_def sampleManifest_def)
  have v: "verifyPageBytes ones (dagPage 2) 2 (man_PageSize sampleManifest) = Inr (h, replicate 32 1, replicate 32 1)"
    unfolding verifyPageBytes_eq using dagPage_verifies[of 2] by (simp add: sampleManifest_def h_def)
  define mat where "mat = materialOf ones sampleManifest 2 (dagPage 2) h (replicate 32 1) (replicate 32 1)"
  have "dag_materialOf ones sampleManifest 2 (dagPage 2) h (replicate 32 1) (replicate 32 1) = Some mat"
    using dag_materialOf_Some[of sampleManifest "dagPage 2"] l(2)
    by (simp add: mat_def sampleManifest_def UnifiedHeaderSize_def maxInt_def)
  then have m: "materialFromPageProof ones sampleProofPage sampleManifest = Some (Inr mat)"
    unfolding materialFromPageProof_def by (simp add: d l(1) v i)
  have leaf: "mat_PoWLeaf mat = replicate 32 1" "mat_PageIndex mat = 2"
    by (simp_all add: mat_def materialOf_def merkleLeafHash_def Let_def)
  have c: "dag_verifyMerkleProof ones treePoW (replicate 32 1) 2 (man_PoWCommitLeafCount sampleManifest)
      (pp_PoWPath sampleProofPage) (replicate 32 1) = Inr ()"
    by (simp add: dag_verifyMerkleProof_def sampleManifest_def sampleProofPage_def dagClimb.simps merkleNodeHash_def)
  have chk: "checkMaterial ones sampleManifest (replicate 32 1) (replicate 32 1) [] 2 sampleProofPage mat = Inr mat"
    by (simp add: checkMaterial_def leaf c i isTensorRequiredPage_def)
  have pre: "sealPreamble sampleManifest sampleProof = Inr (replicate 32 1, replicate 32 1)"
    by (simp add: sealPreamble_def sampleProof_def sampleManifest_def ProofVersion_def SealVersion_def
        dag_verifySealMatchesManifest_def Let_def equalHex_equiv(1))
  let ?s = "prf_Seal sampleProof"
  have req: "deriveRequiredProofPages ones sampleManifest (seal_BlockHash ?s) (seal_Miner ?s) (seal_Epoch ?s)
       (seal_Nonce ?s) (seal_PoWSampleCount ?s) (seal_TensorSampleCount ?s) = Some (Inr ([2], [], [2]))"
    using deriveRequiredProofPages_eq[of "seal_BlockHash ?s" ?s] sample_required sample_not_odd
    by (simp add: normalizeArbitrary_differ) (simp add: sampleProof_def Let_def)
  have digests: "dag_computeMixDigest ones ?s sampleManifest [2] [] [mat] = replicate 32 1"
    "dag_computeAIDigest ones ?s sampleManifest [] [mat] = Some (replicate 32 1)"
    "computeSealWorkHash ones ?s = replicate 32 1" "dag_computeProofHash ones sampleProof = replicate 32 1"
    by (simp_all add: dag_computeMixDigest_def dag_computeAIDigest_def computeSealWorkHash_def dag_computeProofHash_def Let_def)
  have "checkDigests ones sampleManifest sampleProof [2] [] [mat] = Some (Inr (replicate 32 1, replicate 32 1))"
    by (simp add: checkDigests_def digests Let_def) (simp add: sampleProof_def formatHash_def Let_def equalHex_equiv(1))
  moreover have "prf_Pages sampleProof = [sampleProofPage]" by (simp add: sampleProof_def Let_def)
  ultimately show ?thesis by (simp add: verifyAISealProof_def pre req i(1) m chk Let_def)
qed

text \<open>
  C31: The generator tool's verifier refines the package's: a proof that \<open>verifyAISealProof\<close> accepts for a
  manifest \<open>aiseal\<close> accepts is accepted by \<open>aiseal.Verify\<close> within its limits, with the same work hash
  and the same proof hash. The block hash must not be an odd number of hex digits without a prefix: on
  those the two normal forms differ.
\<close>

theorem dag_verifier_refines:
  assumes ok: "verifyAISealProof blake3 m p = Some (Inr (w, h))" and valid: "ValidateManifest blake3 m = Inr ()"
    and hex: "\<not> oddHex (seal_BlockHash (prf_Seal p))"
    and limits: "0 < lim_MaxPages limits" "int (length (prf_Pages p)) \<le> lim_MaxPages limits"
      "man_PageSize m \<le> lim_MaxPageSize limits"
    and pages: "\<forall>pg \<in> set (prf_Pages p). length (pp_Page pg) < 2 ^ 64"
  shows "\<exists>res. Verify blake3 m p [] limits = Some (Inr res)
    \<and> vr_WorkHash res = formatHash w \<and> vr_ProofHash res = formatHash h
    \<and> vr_PageCount res = int (length (prf_Pages p))"
proof -
  obtain powRoot tensorRoot pw tn required byIndex mats where v: "sealPreamble m p = Inr (powRoot, tensorRoot)"
    "deriveRequiredProofPages blake3 m (seal_BlockHash (prf_Seal p)) (seal_Miner (prf_Seal p)) (seal_Epoch (prf_Seal p))
       (seal_Nonce (prf_Seal p)) (seal_PoWSampleCount (prf_Seal p)) (seal_TensorSampleCount (prf_Seal p))
       = Some (Inr (pw, tn, required))"
    "length (prf_Pages p) = length required" "pageProofByIndex (prf_Pages p) Map.empty = Inr byIndex"
    "requiredMaterials blake3 m powRoot tensorRoot tn byIndex required = Some (Inr mats)"
    "checkDigests blake3 m p pw tn mats = Some (Inr (w, h))"
    by (rule verifyAISealProof_accepts[OF ok])
  have req: "deriveRequiredPages blake3 m (prf_Seal p) = Some (Inr (pw, tn, required))"
    using v(2) deriveRequiredProofPages_eq[of "seal_BlockHash (prf_Seal p)" "prf_Seal p"] hex
    by (simp add: normalizeArbitrary_differ)
  have index: "indexPages (prf_Pages p) Map.empty = Inr byIndex" using v(4) by (simp add: pageProofByIndex_eq)
  have basics: "man_HeaderSize m \<le> man_PageSize m" "man_PayloadSize m = man_PageSize m - man_HeaderSize m"
    using valid by (simp_all add: ValidateManifest_iff less_imp_le)
  have at: "pp_PageIndex pg = i \<and> length (pp_Page pg) < 2 ^ 64" if "byIndex i = Some pg" for i pg
    using indexPages_lookup[OF index] that pages by auto
  have mats: "mapE (verifyRequired blake3 m powRoot tensorRoot tn byIndex) required = Inr mats" "map mat_PageIndex mats = required"
    using requiredMaterials_sound[OF basics v(5) at] by simp_all
  have "set pw \<union> set tn \<subseteq> mat_PageIndex ` set mats"
    using mats(2) deriveRequiredPages_spec(4)[OF req] by (metis equalityE set_map)
  from checkDigests_sound[OF v(6) hex this] obtain res where res: "verifyDigests blake3 m p [] pw tn mats = Some (Inr res)"
    "vr_WorkHash res = formatHash w" "vr_ProofHash res = formatHash h" "vr_PageCount res = int (length (prf_Pages p))" by blast
  have "verifyPreamble blake3 m p limits = Inr (powRoot, tensorRoot)"
    using v(1) valid limits
    by (auto simp: sealPreamble_def verifyPreamble_def Let_def dag_verifySealMatchesManifest_eq dest: dag_decodeHex32_sound split: if_splits)
  moreover have "verifyPages blake3 m p (powRoot, tensorRoot) (pw, tn, required) = Inr mats"
    using v(3) index mats(1) by (simp add: verifyPages_def)
  ultimately show ?thesis using req res by (simp add: Verify_def)
qed


theorem dag_verifier_refines_witness:
  "\<exists>res. Verify ones sampleManifest sampleProof [] DefaultLimits = Some (Inr res)
    \<and> vr_WorkHash res = formatHash (replicate 32 1)"
proof -
  have l: "length (prf_Pages sampleProof) = 1" "\<forall>pg \<in> set (prf_Pages sampleProof). length (pp_Page pg) < 2 ^ 64"
    "man_PageSize sampleManifest = 164"
    by (simp_all add: sampleProof_def sampleProofPage_def sampleManifest_def dagPage_def Let_def)
  show ?thesis
    using dag_verifier_refines[OF sample_dag_accepted sampleManifest_valid sample_not_odd _ _ _ l(2), of DefaultLimits] l(1,3)
    by (auto simp: DefaultLimits_def)
qed

end
