(* ===== verification/DagTool.thy ===== *)
theory DagTool
  imports DagSeal Prover
begin

text \<open>
  The commands of the generator tool (\<open>cmd/unifiedDAG/main.go\<close>): \<open>gen\<close>, \<open>verify\<close>, \<open>extract\<close>,
  \<open>info\<close>, \<open>prove\<close> and \<open>verify-proof\<close>, with the atomic replacement of their output files.

  The file system maps paths to contents; directories are not modelled (they can always be created) and
  reads, writes, syncs and renames of files that exist succeed. The name of the temporary file for a path,
  which depends on the process id and the clock, is the function \<open>tmp\<close>; the clock readings, the number of
  CPUs and the order in which the workers' results arrive are arguments too. A command returns the file
  system it leaves behind and its error, if any; \<^const>\<open>None\<close> is a call that does not return.
\<close>

type_synonym fsys = "string \<rightharpoonup> bytes"

datatype tool_error =
    ToolGen gen_error
  | ToolManifest manifest_error
  | ToolIO io_error
  | ToolNotJSON
  | ToolManifestRoot
  | ToolRootMismatch string
  | ToolLeafCount string
  | ToolSidecarRequired
  | ToolSidecar dag_sidecar_error
  | ToolBuild build_error
  | ToolExists string
  | ToolTempExists string
  | ToolTruncate
  | ToolMissing string
  | ToolSeal dag_seal_error
  | ToolTensorNotModel u64
  | ToolBadTarget hex_error
  | ToolTargetNotMet
  | ToolVerify seal_error
  | ToolUnknownMode string
  | ToolPanic

section \<open>Paths and file names\<close>

definition path_Base :: "string \<Rightarrow> string" where
  "path_Base p =
     (if p = [] then ''.''
      else let q = rev (dropWhile (\<lambda>c. c = CHR ''/'') (rev p));
               r = rev (takeWhile (\<lambda>c. c \<noteq> CHR ''/'') (rev q))
           in if r = [] then ''/'' else r)"

definition path_Ext :: "string \<Rightarrow> string" where
  "path_Ext p =
     (let l = takeWhile (\<lambda>c. c \<noteq> CHR ''/'') (rev p)
      in if CHR ''.'' \<in> set l then CHR ''.'' # rev (takeWhile (\<lambda>c. c \<noteq> CHR ''.'') l) else [])"

definition guessModelFormat :: "string \<Rightarrow> string" where
  "guessModelFormat path =
     (let e = ToLower (path_Ext path)
      in if e = ''.gguf'' then ''gguf''
         else if e = ''.safetensors'' then ''safetensors''
         else if e = ''.bin'' then ''bin''
         else ''unknown'')"

definition defaultSidecarExt :: string where "defaultSidecarExt = ''.sidecar''"

section \<open>Output files\<close>

definition preflightAtomicTargets :: "fsys \<Rightarrow> bool \<Rightarrow> string list \<Rightarrow> tool_error + unit" where
  "preflightAtomicTargets fs force paths =
     (if force then Inr ()
      else forE (\<lambda>p. if p = [] then Inr () else if fs p \<noteq> None then Inl (ToolExists p) else Inr ()) paths)"

definition commitAtomicPath :: "fsys \<Rightarrow> string \<Rightarrow> string \<Rightarrow> bool \<Rightarrow> fsys \<times> (tool_error + unit)" where
  "commitAtomicPath fs tmpPath finalPath force =
     (if \<not> force \<and> fs finalPath \<noteq> None then (fs, Inl (ToolExists finalPath))
      else let fs = (if force then fs(finalPath := None) else fs)
           in case fs tmpPath of
                None \<Rightarrow> (fs, Inl (ToolIO NoSuchFile))
              | Some data \<Rightarrow> ((fs(tmpPath := None))(finalPath \<mapsto> data), Inr ()))"

text \<open>The deferred removal of the temporary file runs on every return after its name is chosen.\<close>

definition writeFileAtomic ::
  "(string \<Rightarrow> string) \<Rightarrow> fsys \<Rightarrow> string \<Rightarrow> bytes \<Rightarrow> bool \<Rightarrow> fsys \<times> (tool_error + unit)" where
  "writeFileAtomic tmp fs path data force =
     (if \<not> force \<and> fs path \<noteq> None then (fs, Inl (ToolExists path))
      else let t = tmp path
           in if fs t \<noteq> None then (fs(t := None), Inl (ToolTempExists t))
              else let (fs, r) = commitAtomicPath (fs(t \<mapsto> data)) t path force
                   in (fs(t := None), r))"

definition readManifest :: "fsys \<Rightarrow> string \<Rightarrow> tool_error + Manifest" where
  "readManifest fs path =
     bindE (mapErr ToolIO (openFile fs path)) (\<lambda>b. ofOption ToolNotJSON (unmarshalManifest b))"

definition writeManifest :: "(string \<Rightarrow> string) \<Rightarrow> fsys \<Rightarrow> string \<Rightarrow> Manifest \<Rightarrow> fsys \<times> (tool_error + unit)" where
  "writeManifest tmp fs path manifest = writeFileAtomic tmp fs path (json_marshalIndent (manifest_json manifest)) True"

section \<open>verify\<close>

definition verifyDagAgainstManifest ::
  "(bytes \<Rightarrow> bytes) \<Rightarrow> fsys \<Rightarrow> string \<Rightarrow> string \<Rightarrow> string \<Rightarrow> tool_error + unit" where
  "verifyDagAgainstManifest blake3 fs dagPath metaPath sidecarPath =
     bindE (readManifest fs metaPath) (\<lambda>manifest.
     bindE (mapErr ToolManifest (validateManifestBasics manifest)) (\<lambda>_.
     let gotManifestRoot = ''0x'' @ hexEncode (hashManifestRoot blake3 manifest) in
     if \<not> equalHexString (man_ManifestRoot manifest) gotManifestRoot then Inl ToolManifestRoot
     else
     bindE (mapErr ToolIO (openFile fs dagPath)) (\<lambda>dag.
     if man_PageSize manifest > maxInt then Inl ToolPanic
     else
     bindE (mapErr ToolGen (computeRootsFromFile blake3 dag (man_PageSize manifest))) (\<lambda>roots.
     bindE (mapErr ToolGen (validateRootsNonEmpty blake3 roots manifest)) (\<lambda>_.
     bindE (forE (\<lambda>(name, want, got). if \<not> equalHexString want got then Inl (ToolRootMismatch name) else Inr ())
              [(''AIDagRoot'', man_AIDagRoot manifest, ''0x'' @ hexEncode (rt_AIDagRoot roots)),
               (''TensorRoot'', man_TensorRoot manifest, ''0x'' @ hexEncode (rt_TensorRoot roots)),
               (''PoWCommitRoot'', man_PoWCommitRoot manifest, ''0x'' @ hexEncode (rt_PoWCommitRoot roots))]) (\<lambda>_.
     bindE (forE (\<lambda>(name, want, got). if want \<noteq> got then Inl (ToolLeafCount name) else Inr ())
              [(''AIDagLeafCount'', man_AIDagLeafCount manifest, rt_AIDagLeafCount roots),
               (''TensorLeafCount'', man_TensorLeafCount manifest, rt_TensorLeafCount roots),
               (''PoWCommitLeafCount'', man_PoWCommitLeafCount manifest, rt_PoWCommitLeafCount roots)]) (\<lambda>_.
     if sidecarPath = [] then Inl ToolSidecarRequired
     else bindE (mapErr ToolSidecar (openMerkleSidecar fs sidecarPath)) (\<lambda>sidecar.
          mapErr ToolSidecar (validateAgainstManifest sidecar manifest)))))))))"

definition runVerify :: "(bytes \<Rightarrow> bytes) \<Rightarrow> fsys \<Rightarrow> Config \<Rightarrow> tool_error + unit" where
  "runVerify blake3 fs cfg =
     (let dag = (if cfg_DagPath cfg = [] then cfg_OutPath cfg else cfg_DagPath cfg);
          meta = (if cfg_MetaPath cfg = [] then dag @ ''.meta'' else cfg_MetaPath cfg);
          sidecar = (if cfg_SidecarPath cfg = [] then dag @ defaultSidecarExt else cfg_SidecarPath cfg)
      in verifyDagAgainstManifest blake3 fs dag meta sidecar)"

section \<open>gen\<close>

definition genDefaults :: "Config \<Rightarrow> Config" where
  "genDefaults cfg =
     (let cfg = (if cfg_MetaPath cfg = [] then cfg\<lparr>cfg_MetaPath := cfg_OutPath cfg @ ''.meta''\<rparr> else cfg)
      in if cfg_SidecarPath cfg = [] then cfg\<lparr>cfg_SidecarPath := cfg_OutPath cfg @ defaultSidecarExt\<rparr> else cfg)"

text \<open>The roots and counts of the generated file go into the manifest, then its own root, then the local
  metadata.\<close>

definition finalManifest :: "(bytes \<Rightarrow> bytes) \<Rightarrow> Config \<Rightarrow> Manifest \<Rightarrow> Roots \<Rightarrow> string \<Rightarrow> Manifest" where
  "finalManifest blake3 cfg manifest roots now =
     (let manifest = manifest\<lparr>
            man_AIDagRoot := ''0x'' @ hexEncode (rt_AIDagRoot roots),
            man_TensorRoot := ''0x'' @ hexEncode (rt_TensorRoot roots),
            man_PoWCommitRoot := ''0x'' @ hexEncode (rt_PoWCommitRoot roots),
            man_AIDagLeafCount := rt_AIDagLeafCount roots,
            man_TensorLeafCount := rt_TensorLeafCount roots,
            man_PoWCommitLeafCount := rt_PoWCommitLeafCount roots\<rparr>;
          manifest = manifest\<lparr>man_ManifestRoot := ''0x'' @ hexEncode (hashManifestRoot blake3 manifest)\<rparr>
      in manifest\<lparr>
            man_GenerationTime := now,
            man_ModelName := path_Base (cfg_ModelPath cfg),
            man_ModelFormat := guessModelFormat (cfg_ModelPath cfg),
            man_UnifiedLayout := ''page0=index; page1..modelEnd=model shards; remaining pages=deterministic filler; every page is PoW-mixable; roots are BLAKE3 Merkle roots; PoW/Tensor proof paths are stored in mandatory Merkle sidecar''\<rparr>)"

definition sealManifest ::
  "(bytes \<Rightarrow> bytes) \<Rightarrow> Config \<Rightarrow> Manifest \<Rightarrow> bytes \<Rightarrow> string \<Rightarrow> tool_error + Manifest" where
  "sealManifest blake3 cfg manifest file now =
     bindE (mapErr ToolGen (computeRootsFromFile blake3 file (cfg_PageSize cfg))) (\<lambda>roots.
     bindE (mapErr ToolGen (validateRootsNonEmpty blake3 roots manifest)) (\<lambda>_.
     let manifest = finalManifest blake3 cfg manifest roots now in
     bindE (mapErr ToolManifest (validateManifestBasics manifest)) (\<lambda>_.
     Inr manifest)))"

definition commitOutputs ::
  "(string \<Rightarrow> string) \<Rightarrow> Config \<Rightarrow> fsys \<Rightarrow> bytes \<Rightarrow> fsys \<times> (tool_error + unit)" where
  "commitOutputs tmp cfg fs manifestBytes =
     (case commitAtomicPath fs (tmp (cfg_OutPath cfg)) (cfg_OutPath cfg) (cfg_Force cfg) of
        (fs, Inl e) \<Rightarrow> (fs, Inl e)
      | (fs, Inr _) \<Rightarrow>
          (case commitAtomicPath fs (tmp (cfg_SidecarPath cfg)) (cfg_SidecarPath cfg) (cfg_Force cfg) of
             (fs, Inl e) \<Rightarrow> (fs, Inl e)
           | (fs, Inr _) \<Rightarrow> writeFileAtomic tmp fs (cfg_MetaPath cfg) manifestBytes (cfg_Force cfg)))"

text \<open>The part of \<open>runGenerate\<close> between the temporary DAG being complete and the return.\<close>

definition finishGenerate ::
  "(bytes \<Rightarrow> bytes) \<Rightarrow> (string \<Rightarrow> string) \<Rightarrow> string \<Rightarrow> string \<Rightarrow> fsys \<Rightarrow> Config \<Rightarrow> Manifest \<Rightarrow> bytes
     \<Rightarrow> fsys \<times> (tool_error + unit)" where
  "finishGenerate blake3 tmp now createdAt fs cfg manifest file =
     (case sealManifest blake3 cfg manifest file now of
        Inl e \<Rightarrow> (fs, Inl e)
      | Inr manifest \<Rightarrow>
          let tmpSidecar = tmp (cfg_SidecarPath cfg) in
          if fs tmpSidecar \<noteq> None then (fs, Inl (ToolTempExists tmpSidecar))
          else case buildMerkleSidecarTempFromDAG blake3 fs (tmp (cfg_OutPath cfg)) manifest createdAt of
                 Inl e \<Rightarrow> (fs, Inl (ToolBuild e))
               | Inr (sidecar, _) \<Rightarrow>
                   let (fs, r) = commitOutputs tmp cfg (fs(tmpSidecar \<mapsto> sidecar)) (json_marshalIndent (manifest_json manifest))
                   in (fs, bindE r (\<lambda>_.
                        if cfg_Verify cfg
                        then verifyDagAgainstManifest blake3 fs (cfg_OutPath cfg) (cfg_MetaPath cfg) (cfg_SidecarPath cfg)
                        else Inr ())))"

text \<open>\<open>schedule\<close> puts the results of the workers in the order in which they arrive.\<close>

definition runGenerate ::
  "(bytes \<Rightarrow> bytes) \<Rightarrow> int \<Rightarrow> (string \<Rightarrow> string) \<Rightarrow> (Result list \<Rightarrow> Result list) \<Rightarrow> string \<Rightarrow> string \<Rightarrow> fsys \<Rightarrow> Config
     \<Rightarrow> (fsys \<times> (tool_error + unit)) option" where
  "runGenerate blake3 numCPU tmp schedule now createdAt fs cfg =
     (case validateGenerateConfig numCPU (fs (cfg_ModelPath cfg) \<noteq> None) cfg of
        Inl e \<Rightarrow> Some (fs, Inl (ToolGen e))
      | Inr cfg \<Rightarrow>
          let cfg = genDefaults cfg in
          case fs (cfg_ModelPath cfg) of
            None \<Rightarrow> Some (fs, Inl (ToolIO NoSuchFile))
          | Some model \<Rightarrow>
              let (modelHash, modelSize) = hashFile blake3 model in
              case layoutManifest cfg modelHash modelSize of
                Inl e \<Rightarrow> Some (fs, Inl (ToolGen e))
              | Inr manifest \<Rightarrow>
                  (case preflightAtomicTargets fs (cfg_Force cfg) [cfg_OutPath cfg, cfg_MetaPath cfg, cfg_SidecarPath cfg] of
                     Inl e \<Rightarrow> Some (fs, Inl e)
                   | Inr _ \<Rightarrow>
                       let tmpDag = tmp (cfg_OutPath cfg);
                           cleanup = (\<lambda>(fs', r). (fs'(tmpDag := None, tmp (cfg_SidecarPath cfg) := None), r))
                       in if fs tmpDag \<noteq> None then Some (cleanup (fs, Inl (ToolTempExists tmpDag)))
                          else if man_TotalBytes manifest \<ge> 2 ^ 63 then Some (cleanup (fs, Inl ToolTruncate))
                          else case producerJobs model manifest of
                                 None \<Rightarrow> None
                               | Some (Inl e) \<Rightarrow> Some (cleanup (fs, Inl (ToolGen e)))
                               | Some (Inr jobs) \<Rightarrow>
                                   (case collectResults blake3 cfg manifest (schedule (map (pageWorker blake3 cfg manifest) jobs)) of
                                      Inl e \<Rightarrow> Some (cleanup (fs, Inl (ToolGen e)))
                                    | Inr file \<Rightarrow>
                                        Some (cleanup (finishGenerate blake3 tmp now createdAt (fs(tmpDag \<mapsto> file)) cfg manifest file)))))"

section \<open>extract and info\<close>

definition extractTo :: "(bytes \<Rightarrow> bytes) \<Rightarrow> (string \<Rightarrow> string) \<Rightarrow> fsys \<Rightarrow> string \<Rightarrow> string \<Rightarrow> Manifest \<Rightarrow> fsys \<times> (tool_error + unit)" where
  "extractTo blake3 tmp fs dagPath outPath manifest =
     (if man_ModelSize manifest = 0 \<or> man_ModelPageCount manifest = 0 then (fs, Inl (ToolGen NoModel))
      else if man_HeaderSize manifest \<noteq> UnifiedHeaderSize then (fs, Inl (ToolGen BadHeaderSize))
      else case openFile fs dagPath of
        Inl e \<Rightarrow> (fs, Inl (ToolIO e))
      | Inr dag \<Rightarrow>
          let tmpOut = tmp outPath in
          if fs tmpOut \<noteq> None then (fs(tmpOut := None), Inl (ToolTempExists tmpOut))
          else if man_PageSize manifest > maxInt then (fs(tmpOut := None), Inl ToolPanic)
          else case extractModel blake3 dag manifest of
                 Inl e \<Rightarrow> (fs(tmpOut := None), Inl (ToolGen e))
               | Inr out \<Rightarrow>
                   let (fs, r) = commitAtomicPath (fs(tmpOut \<mapsto> out)) tmpOut outPath True
                   in (fs(tmpOut := None), r))"

definition runExtract :: "(bytes \<Rightarrow> bytes) \<Rightarrow> (string \<Rightarrow> string) \<Rightarrow> fsys \<Rightarrow> Config \<Rightarrow> fsys \<times> (tool_error + unit)" where
  "runExtract blake3 tmp fs cfg =
     (let dag = cfg_DagPath cfg in
      if dag = [] then (fs, Inl (ToolMissing ''dag''))
      else let meta = (if cfg_MetaPath cfg = [] then dag @ ''.meta'' else cfg_MetaPath cfg)
           in case bindE (readManifest fs meta) (\<lambda>manifest.
                     bindE (mapErr ToolManifest (validateManifestBasics manifest)) (\<lambda>_. Inr manifest)) of
                Inl e \<Rightarrow> (fs, Inl e)
              | Inr manifest \<Rightarrow> extractTo blake3 tmp fs dag (cfg_ExtractTo cfg) manifest)"

text \<open>What \<open>info\<close> prints.\<close>

definition runInfo :: "fsys \<Rightarrow> Config \<Rightarrow> tool_error + bytes" where
  "runInfo fs cfg =
     (let dag = (if cfg_DagPath cfg = [] then cfg_OutPath cfg else cfg_DagPath cfg);
          meta = (if cfg_MetaPath cfg = [] then dag @ ''.meta'' else cfg_MetaPath cfg)
      in bindE (readManifest fs meta) (\<lambda>manifest. Inr (json_marshalIndent (manifest_json manifest))))"

section \<open>prove\<close>

text \<open>The body of the loop over the required pages.\<close>

definition proofPage ::
  "(bytes \<Rightarrow> bytes) \<Rightarrow> fsys \<Rightarrow> string \<Rightarrow> Manifest \<Rightarrow> sidecarReader \<Rightarrow> u64 list \<Rightarrow> u64
     \<Rightarrow> (tool_error + (PageProof \<times> pageMaterial)) option" where
  "proofPage blake3 fs dagPath manifest sidecar tensorSamplePages pageIndex =
     map_option (\<lambda>r.
       bindE (mapErr ToolSeal r) (\<lambda>mat.
       bindE (mapErr ToolSidecar (MerkleSidecarReader_Proof sidecar treePoW pageIndex)) (\<lambda>powPath.
       let pageProof = \<lparr>pp_PageIndex = pageIndex, pp_Page = ''0x'' @ hexEncode (mat_Page mat),
                        pp_PoWPath = powPath, pp_TensorPath = []\<rparr> in
       if isTensorRequiredPage pageIndex tensorSamplePages then
         (if hdr_PageType (mat_Header mat) \<noteq> PageTypeModel then Inl (ToolTensorNotModel pageIndex)
          else let tensorIndex = pageIndex - man_ModelStartPage manifest in
               bindE (mapErr ToolSidecar (MerkleSidecarReader_Proof sidecar treeTensor tensorIndex)) (\<lambda>tensorPath.
               Inr (pageProof\<lparr>pp_TensorPath := tensorPath\<rparr>, mat)))
       else Inr (pageProof, mat))))
     (readProofMaterial blake3 fs dagPath manifest pageIndex)"

fun proofPages ::
  "(bytes \<Rightarrow> bytes) \<Rightarrow> fsys \<Rightarrow> string \<Rightarrow> Manifest \<Rightarrow> sidecarReader \<Rightarrow> u64 list \<Rightarrow> u64 list
     \<Rightarrow> (tool_error + (PageProof \<times> pageMaterial) list) option" where
  "proofPages blake3 fs dagPath manifest sidecar tensorSamplePages [] = Some (Inr [])"
| "proofPages blake3 fs dagPath manifest sidecar tensorSamplePages (pageIndex # required) =
     (case proofPage blake3 fs dagPath manifest sidecar tensorSamplePages pageIndex of
        None \<Rightarrow> None
      | Some (Inl e) \<Rightarrow> Some (Inl e)
      | Some (Inr pm) \<Rightarrow>
          map_option (\<lambda>r. bindE r (\<lambda>rest. Inr (pm # rest)))
            (proofPages blake3 fs dagPath manifest sidecar tensorSamplePages required))"

definition sealFor :: "Config \<Rightarrow> Manifest \<Rightarrow> Seal" where
  "sealFor cfg manifest =
     \<lparr>seal_Version = SealVersion, seal_Epoch = cfg_Epoch cfg,
      seal_BlockHash = normalizeArbitraryHexOrString (cfg_BlockHash cfg),
      seal_Miner = ToLower (TrimSpace (cfg_Miner cfg)), seal_Nonce = cfg_Nonce cfg,
      seal_PoWSampleCount = cfg_Samples cfg, seal_TensorSampleCount = cfg_TensorSamples cfg,
      seal_ManifestRoot = normalizeHexString (man_ManifestRoot manifest),
      seal_AIDagRoot = normalizeHexString (man_AIDagRoot manifest),
      seal_TensorRoot = normalizeHexString (man_TensorRoot manifest),
      seal_PoWRoot = normalizeHexString (man_PoWCommitRoot manifest),
      seal_ModelHash = normalizeHexString (man_ModelHash manifest),
      seal_MixDigest = [], seal_AIDigest = [], seal_ProofHash = [], seal_WorkHash = []\<rparr>"

text \<open>The digests, the proof hash and the target.\<close>

definition finishProof ::
  "(bytes \<Rightarrow> bytes) \<Rightarrow> Config \<Rightarrow> Manifest \<Rightarrow> u64 list \<Rightarrow> u64 list \<Rightarrow> PageProof list \<Rightarrow> pageMaterial list
     \<Rightarrow> (tool_error + Proof) option" where
  "finishProof blake3 cfg manifest powSampleIndices tensorSamplePages pages materials =
     (let seal = sealFor cfg manifest;
          mixDigest = dag_computeMixDigest blake3 seal manifest powSampleIndices tensorSamplePages materials
      in case dag_computeAIDigest blake3 seal manifest tensorSamplePages materials of
           None \<Rightarrow> None
         | Some aiDigest \<Rightarrow> Some (
             let seal = seal\<lparr>seal_MixDigest := ''0x'' @ hexEncode mixDigest, seal_AIDigest := ''0x'' @ hexEncode aiDigest\<rparr>;
                 workHash = computeSealWorkHash blake3 seal;
                 seal = seal\<lparr>seal_WorkHash := ''0x'' @ hexEncode workHash\<rparr>;
                 proof = \<lparr>prf_Version = ProofVersion, prf_Seal = seal, prf_Pages = pages\<rparr>;
                 proof = proof\<lparr>prf_Seal := seal\<lparr>seal_ProofHash := ''0x'' @ hexEncode (dag_computeProofHash blake3 proof)\<rparr>\<rparr>
             in bindE (if cfg_Target cfg = [] then Inr ()
                       else bindE (mapErr ToolBadTarget (dag_decodeHex32 (cfg_Target cfg))) (\<lambda>target.
                            if \<not> hashMeetsTarget workHash target then Inl ToolTargetNotMet else Inr ())) (\<lambda>_.
                Inr proof)))"

definition metaPathFor :: "Config \<Rightarrow> string" where
  "metaPathFor cfg = (if cfg_MetaPath cfg = [] then cfg_DagPath cfg @ ''.meta'' else cfg_MetaPath cfg)"

text \<open>The inputs of \<open>prove\<close>: the manifest and the open sidecar.\<close>

definition proveInputs :: "(bytes \<Rightarrow> bytes) \<Rightarrow> fsys \<Rightarrow> Config \<Rightarrow> tool_error + (Manifest \<times> sidecarReader)" where
  "proveInputs blake3 fs cfg =
     (if cfg_DagPath cfg = [] then Inl (ToolMissing ''dag'')
      else if cfg_ProofPath cfg = [] then Inl (ToolMissing ''proof'')
      else if cfg_BlockHash cfg = [] then Inl (ToolMissing ''block-hash'')
      else if cfg_Miner cfg = [] then Inl (ToolMissing ''miner'')
      else if cfg_Samples cfg \<le> 0 then Inl (ToolMissing ''samples'')
      else if cfg_TensorSamples cfg < 0 then Inl (ToolMissing ''tensor-samples'')
      else
        let sidecarPath = (if cfg_SidecarPath cfg = [] then cfg_DagPath cfg @ defaultSidecarExt else cfg_SidecarPath cfg) in
        bindE (readManifest fs (metaPathFor cfg)) (\<lambda>manifest.
        bindE (mapErr ToolManifest (validateManifestBasics manifest)) (\<lambda>_.
        let gotManifestRoot = ''0x'' @ hexEncode (hashManifestRoot blake3 manifest) in
        if \<not> equalHexString (man_ManifestRoot manifest) gotManifestRoot then Inl ToolManifestRoot
        else
        bindE (mapErr ToolSidecar (openMerkleSidecar fs sidecarPath)) (\<lambda>sidecar.
        bindE (mapErr ToolSidecar (validateAgainstManifest sidecar manifest)) (\<lambda>_.
        Inr (manifest, sidecar))))))"

definition proveWith :: "(bytes \<Rightarrow> bytes) \<Rightarrow> fsys \<Rightarrow> Config \<Rightarrow> Manifest \<Rightarrow> sidecarReader \<Rightarrow> (tool_error + Proof) option" where
  "proveWith blake3 fs cfg manifest sidecar =
     (case deriveRequiredProofPages blake3 manifest (cfg_BlockHash cfg) (cfg_Miner cfg) (cfg_Epoch cfg) (cfg_Nonce cfg)
             (cfg_Samples cfg) (cfg_TensorSamples cfg) of
        None \<Rightarrow> None
      | Some (Inl e) \<Rightarrow> Some (Inl (ToolSeal e))
      | Some (Inr (powSampleIndices, tensorSamplePages, requiredPages)) \<Rightarrow>
          (case proofPages blake3 fs (cfg_DagPath cfg) manifest sidecar tensorSamplePages requiredPages of
             None \<Rightarrow> None
           | Some (Inl e) \<Rightarrow> Some (Inl e)
           | Some (Inr ps) \<Rightarrow>
               finishProof blake3 cfg manifest powSampleIndices tensorSamplePages (map fst ps) (map snd ps)))"

definition runProve ::
  "(bytes \<Rightarrow> bytes) \<Rightarrow> (string \<Rightarrow> string) \<Rightarrow> fsys \<Rightarrow> Config \<Rightarrow> (fsys \<times> (tool_error + unit)) option" where
  "runProve blake3 tmp fs cfg =
     (case proveInputs blake3 fs cfg of
        Inl e \<Rightarrow> Some (fs, Inl e)
      | Inr (manifest, sidecar) \<Rightarrow>
          (case proveWith blake3 fs cfg manifest sidecar of
             None \<Rightarrow> None
           | Some (Inl e) \<Rightarrow> Some (fs, Inl e)
           | Some (Inr proof) \<Rightarrow>
               Some (writeFileAtomic tmp fs (cfg_ProofPath cfg) (json_marshalIndent (proof_json proof)) (cfg_Force cfg))))"

section \<open>verify-proof\<close>

text \<open>The verified proof and its result, which the command prints.\<close>

definition runVerifyProof ::
  "(bytes \<Rightarrow> bytes) \<Rightarrow> fsys \<Rightarrow> Config \<Rightarrow> (tool_error + (VerificationResult \<times> Proof)) option" where
  "runVerifyProof blake3 fs cfg =
     (if cfg_ProofPath cfg = [] then Some (Inl (ToolMissing ''proof''))
      else if cfg_MetaPath cfg = [] \<and> cfg_DagPath cfg = [] then Some (Inl (ToolMissing ''meta''))
      else case bindE (mapErr ToolIO (openFile fs (metaPathFor cfg))) (\<lambda>manifestBytes.
                bindE (mapErr ToolManifest (LoadManifestBytes blake3 unmarshalManifest manifestBytes)) (\<lambda>manifest.
                bindE (mapErr ToolIO (openFile fs (cfg_ProofPath cfg))) (\<lambda>proofBytes.
                Inr (manifest, proofBytes)))) of
             Inl e \<Rightarrow> Some (Inl e)
           | Inr (manifest, proofBytes) \<Rightarrow>
               map_option (mapErr ToolVerify)
                 (VerifyBytes blake3 unmarshalProof manifest proofBytes (cfg_Target cfg) DefaultLimits))"

section \<open>The dispatcher\<close>

definition run ::
  "(bytes \<Rightarrow> bytes) \<Rightarrow> int \<Rightarrow> (string \<Rightarrow> string) \<Rightarrow> (Result list \<Rightarrow> Result list) \<Rightarrow> string \<Rightarrow> string \<Rightarrow> fsys \<Rightarrow> Config
     \<Rightarrow> (fsys \<times> (tool_error + unit)) option" where
  "run blake3 numCPU tmp schedule now createdAt fs cfg =
     (if cfg_Mode cfg = ''gen'' then runGenerate blake3 numCPU tmp schedule now createdAt fs cfg
      else if cfg_Mode cfg = ''verify'' then Some (fs, runVerify blake3 fs cfg)
      else if cfg_Mode cfg = ''extract'' then Some (runExtract blake3 tmp fs cfg)
      else if cfg_Mode cfg = ''info'' then Some (fs, bindE (runInfo fs cfg) (\<lambda>_. Inr ()))
      else if cfg_Mode cfg = ''prove'' then runProve blake3 tmp fs cfg
      else if cfg_Mode cfg = ''verify-proof''
        then map_option (\<lambda>r. (fs, bindE r (\<lambda>_. Inr ()))) (runVerifyProof blake3 fs cfg)
      else Some (fs, Inl (ToolUnknownMode (cfg_Mode cfg))))"

end
