(* ===== verification/DagTool_Laws.thy ===== *)
theory DagTool_Laws
  imports DagTool DagSeal_Laws
begin

text \<open>
  What the commands of the generator tool leave on disk and how they fit together: the files of a
  successful \<open>gen\<close>, the manifest it writes and reads back, and \<open>prove\<close> against the prover of
  \<open>internal/aiseal\<close>.
\<close>

section \<open>What holds of all leaves and all nodes holds of the root\<close>

lemma nextLevel_closed: "(\<And>a b. P (nd a b)) \<Longrightarrow> \<forall>x \<in> set xs. P x \<Longrightarrow> \<forall>x \<in> set (nextLevel nd xs). P x"
  by (induction nd xs rule: nextLevel.induct) auto

lemma treeRoot_closed:
  assumes nd: "\<And>a b. P (nd a b)"
  shows "xs \<noteq> [] \<Longrightarrow> \<forall>x \<in> set xs. P x \<Longrightarrow> P (treeRoot nd xs)"
proof (induction xs rule: measure_induct_rule[of length])
  case (less xs)
  show ?case
  proof (cases "1 < length xs")
    case True
    then have "length (nextLevel nd xs) < length xs" "nextLevel nd xs \<noteq> []" by (auto simp flip: length_0_conv)
    then have "P (treeRoot nd (nextLevel nd xs))" using less.IH nextLevel_closed[of P nd xs] nd less.prems(2) by blast
    then show ?thesis by (simp add: treeRoot_nextLevel)
  next
    case False
    then obtain x where "xs = [x]" using less.prems(1) by (cases xs; cases "tl xs") auto
    then show ?thesis using less.prems(2) by simp
  qed
qed

section \<open>Files\<close>

lemma commitAtomicPath_ok:
  assumes "commitAtomicPath fs tmpPath finalPath force = (fs', Inr ())"
  shows "\<exists>data. fs tmpPath = Some data \<and> fs' finalPath = Some data
    \<and> (\<forall>p. p \<noteq> finalPath \<and> p \<noteq> tmpPath \<longrightarrow> fs' p = fs p) \<and> (tmpPath \<noteq> finalPath \<longrightarrow> fs' tmpPath = None)"
  using assms by (auto simp: commitAtomicPath_def Let_def split: if_splits option.splits)

lemma writeFileAtomic_ok:
  assumes "writeFileAtomic tmp fs path data force = (fs', Inr ())" "tmp path \<noteq> path"
  shows "fs' path = Some data" "\<And>p. p \<noteq> path \<Longrightarrow> p \<noteq> tmp path \<Longrightarrow> fs' p = fs p"
proof -
  obtain fs'' where c: "commitAtomicPath (fs(tmp path \<mapsto> data)) (tmp path) path force = (fs'', Inr ())"
    "fs' = fs''(tmp path := None)"
    using assms(1) by (auto simp: writeFileAtomic_def Let_def split: if_splits prod.splits)
  from commitAtomicPath_ok[OF c(1)] show "fs' path = Some data" "\<And>p. p \<noteq> path \<Longrightarrow> p \<noteq> tmp path \<Longrightarrow> fs' p = fs p"
    using assms(2) c(2) by auto
qed

text \<open>The three outputs and their temporary names do not get in each other's way.\<close>

definition tidy :: "(string \<Rightarrow> string) \<Rightarrow> Config \<Rightarrow> bool" where
  "tidy tmp cfg \<longleftrightarrow> distinct [cfg_OutPath cfg, cfg_SidecarPath cfg, cfg_MetaPath cfg]
     \<and> tmp (cfg_OutPath cfg) \<noteq> tmp (cfg_SidecarPath cfg)
     \<and> (\<forall>p \<in> {cfg_OutPath cfg, cfg_SidecarPath cfg, cfg_MetaPath cfg}.
          tmp p \<notin> {cfg_OutPath cfg, cfg_SidecarPath cfg, cfg_MetaPath cfg})"

definition outputs :: "(string \<Rightarrow> string) \<Rightarrow> Config \<Rightarrow> string set" where
  "outputs tmp cfg = (let ps = {cfg_OutPath cfg, cfg_SidecarPath cfg, cfg_MetaPath cfg} in ps \<union> tmp ` ps)"

lemma commitOutputs_ok:
  assumes "commitOutputs tmp cfg fs b = (fs', Inr ())" and tidy: "tidy tmp cfg"
  shows "fs' (cfg_OutPath cfg) = fs (tmp (cfg_OutPath cfg))" "fs' (cfg_SidecarPath cfg) = fs (tmp (cfg_SidecarPath cfg))"
    "fs' (cfg_MetaPath cfg) = Some b" "\<And>p. p \<notin> outputs tmp cfg \<Longrightarrow> fs' p = fs p"
proof -
  obtain fs1 fs2 where c: "commitAtomicPath fs (tmp (cfg_OutPath cfg)) (cfg_OutPath cfg) (cfg_Force cfg) = (fs1, Inr ())"
    "commitAtomicPath fs1 (tmp (cfg_SidecarPath cfg)) (cfg_SidecarPath cfg) (cfg_Force cfg) = (fs2, Inr ())"
    "writeFileAtomic tmp fs2 (cfg_MetaPath cfg) b (cfg_Force cfg) = (fs', Inr ())"
    using assms(1) by (auto simp: commitOutputs_def split: prod.splits sum.splits)
  have t: "tmp (cfg_MetaPath cfg) \<noteq> cfg_MetaPath cfg" using tidy by (auto simp: tidy_def)
  note w = writeFileAtomic_ok[OF c(3) t]
  show "fs' (cfg_OutPath cfg) = fs (tmp (cfg_OutPath cfg))" "fs' (cfg_SidecarPath cfg) = fs (tmp (cfg_SidecarPath cfg))"
    "fs' (cfg_MetaPath cfg) = Some b" "\<And>p. p \<notin> outputs tmp cfg \<Longrightarrow> fs' p = fs p"
    using commitAtomicPath_ok[OF c(1)] commitAtomicPath_ok[OF c(2)] w tidy by (auto simp: tidy_def outputs_def)
qed

section \<open>The manifest of a generated DAG\<close>

lemma sealManifest_ok:
  assumes "sealManifest blake3 cfg m file now = Inr fm"
  obtains roots where "computeRootsFromFile blake3 file (cfg_PageSize cfg) = Inr roots"
    "validateRootsNonEmpty blake3 roots m = Inr ()" "fm = finalManifest blake3 cfg m roots now"
    "validateManifestBasics fm = Inr ()"
  using assms by (auto simp: sealManifest_def Let_def)

lemma finalManifest_layout:
  "man_PageSize (finalManifest blake3 cfg m roots now) = man_PageSize m"
  "man_TotalPages (finalManifest blake3 cfg m roots now) = man_TotalPages m"
  "man_TotalBytes (finalManifest blake3 cfg m roots now) = man_TotalBytes m"
  "man_HeaderSize (finalManifest blake3 cfg m roots now) = man_HeaderSize m"
  "man_PayloadSize (finalManifest blake3 cfg m roots now) = man_PayloadSize m"
  "man_ModelSize (finalManifest blake3 cfg m roots now) = man_ModelSize m"
  "man_ModelHash (finalManifest blake3 cfg m roots now) = man_ModelHash m"
  "man_ModelStartPage (finalManifest blake3 cfg m roots now) = man_ModelStartPage m"
  "man_ModelEndPage (finalManifest blake3 cfg m roots now) = man_ModelEndPage m"
  "man_ModelPageCount (finalManifest blake3 cfg m roots now) = man_ModelPageCount m"
  "man_AIDagRoot (finalManifest blake3 cfg m roots now) = formatHash (rt_AIDagRoot roots)"
  "man_TensorRoot (finalManifest blake3 cfg m roots now) = formatHash (rt_TensorRoot roots)"
  "man_PoWCommitRoot (finalManifest blake3 cfg m roots now) = formatHash (rt_PoWCommitRoot roots)"
  "man_AIDagLeafCount (finalManifest blake3 cfg m roots now) = rt_AIDagLeafCount roots"
  "man_TensorLeafCount (finalManifest blake3 cfg m roots now) = rt_TensorLeafCount roots"
  "man_PoWCommitLeafCount (finalManifest blake3 cfg m roots now) = rt_PoWCommitLeafCount roots"
  "man_Version (finalManifest blake3 cfg m roots now) = man_Version m"
  "man_MerkleVersion (finalManifest blake3 cfg m roots now) = man_MerkleVersion m"
  "man_SidecarVersion (finalManifest blake3 cfg m roots now) = man_SidecarVersion m"
  by (simp_all add: finalManifest_def Let_def formatHash_def)

text \<open>The root is taken before the local metadata is filled in, which it does not depend on.\<close>

lemma finalManifest_root:
  "man_ManifestRoot (finalManifest blake3 cfg m roots now) =
     formatHash (hashManifestRoot blake3 (finalManifest blake3 cfg m roots now))"
proof -
  define m1 where "m1 = m\<lparr>
            man_AIDagRoot := ''0x'' @ hexEncode (rt_AIDagRoot roots),
            man_TensorRoot := ''0x'' @ hexEncode (rt_TensorRoot roots),
            man_PoWCommitRoot := ''0x'' @ hexEncode (rt_PoWCommitRoot roots),
            man_AIDagLeafCount := rt_AIDagLeafCount roots,
            man_TensorLeafCount := rt_TensorLeafCount roots,
            man_PoWCommitLeafCount := rt_PoWCommitLeafCount roots\<rparr>"
  have "canonicalManifestForRoot (finalManifest blake3 cfg m roots now) = canonicalManifestForRoot m1"
    by (simp add: finalManifest_def canonicalManifestForRoot_def Let_def m1_def)
  then have "ManifestHash blake3 (finalManifest blake3 cfg m roots now) = ManifestHash blake3 m1" by (rule ManifestHash_cong)
  moreover have "man_ManifestRoot (finalManifest blake3 cfg m roots now) = formatHash (hashManifestRoot blake3 m1)"
    unfolding finalManifest_def Let_def m1_def[symmetric] by (simp add: formatHash_def)
  ultimately show ?thesis by (simp add: hashManifestRoot_eq)
qed

lemma finalManifest_valid:
  assumes "validateManifestBasics (finalManifest blake3 cfg m roots now) = Inr ()"
  shows "ValidateManifest blake3 (finalManifest blake3 cfg m roots now) = Inr ()"
  by (rule generator_manifest_accepted[OF assms]) (simp add: finalManifest_root equalHex_equiv(1))

lemma readManifest_written:
  assumes "fs path = Some (json_marshalIndent (manifest_json m))"
    "fitsInt (man_Version m)" "fitsInt (man_MerkleVersion m)" "fitsInt (man_SidecarVersion m)"
  shows "readManifest fs path = Inr m"
    "unmarshalManifest (json_marshalIndent (manifest_json m)) = Some m"
proof -
  show "unmarshalManifest (json_marshalIndent (manifest_json m)) = Some m"
    using unmarshalManifest_json[OF assms(2-4)] by (simp add: unmarshalManifest_def unmarshal_indent jdepth_manifest)
  then show "readManifest fs path = Inr m" using assms(1) by (simp add: readManifest_def openFile_def)
qed

section \<open>What a successful generation leaves behind\<close>

text \<open>The DAG of a model on disk, with its manifest and its sidecar.\<close>

definition generatedOn ::
  "(bytes \<Rightarrow> bytes) \<Rightarrow> fsys \<Rightarrow> string \<Rightarrow> string \<Rightarrow> string \<Rightarrow> bytes \<Rightarrow> bool" where
  "generatedOn blake3 fs dagPath metaPath sidecarPath model \<longleftrightarrow>
     (\<exists>cfg m results file roots now createdAt fsb tmpDag sidecar sm.
        generation blake3 cfg m model
      \<and> mset results = mset (map (pageWorker blake3 cfg m) (genJobs cfg m model))
      \<and> collectResults blake3 cfg m results = Inr file
      \<and> man_TotalBytes m < 2 ^ 63 \<and> length createdAt \<le> 100
      \<and> computeRootsFromFile blake3 file (man_PageSize m) = Inr roots
      \<and> validateRootsNonEmpty blake3 roots m = Inr ()
      \<and> validateManifestBasics (finalManifest blake3 cfg m roots now) = Inr ()
      \<and> buildMerkleSidecarTempFromDAG blake3 fsb tmpDag (finalManifest blake3 cfg m roots now) createdAt = Inr (sidecar, sm)
      \<and> fsb tmpDag = Some file
      \<and> fs dagPath = Some file \<and> fs sidecarPath = Some sidecar
      \<and> fs metaPath = Some (json_marshalIndent (manifest_json (finalManifest blake3 cfg m roots now))))"

lemma genDefaults_simps:
  "cfg_OutPath (genDefaults cfg) = cfg_OutPath cfg" "cfg_ModelPath (genDefaults cfg) = cfg_ModelPath cfg"
  "cfg_PageSize (genDefaults cfg) = cfg_PageSize cfg" "cfg_SizeGB (genDefaults cfg) = cfg_SizeGB cfg"
  "cfg_Workers (genDefaults cfg) = cfg_Workers cfg" "cfg_ChunkMB (genDefaults cfg) = cfg_ChunkMB cfg"
  "genDefaults (cfg\<lparr>cfg_Workers := w\<rparr>) = (genDefaults cfg)\<lparr>cfg_Workers := w\<rparr>"
  "genDefaults (cfg\<lparr>cfg_ChunkMB := c\<rparr>) = (genDefaults cfg)\<lparr>cfg_ChunkMB := c\<rparr>"
  by (simp_all add: genDefaults_def Let_def)

lemma validateGenerateConfig_defaults:
  "validateGenerateConfig n b cfg = Inr v \<Longrightarrow> validateGenerateConfig n b (genDefaults cfg) = Inr (genDefaults v)"
  by (auto simp: validateGenerateConfig_def genDefaults_simps Let_def)

lemma validateGenerateConfig_same:
  assumes "validateGenerateConfig n b cfg = Inr v"
  shows "cfg_OutPath v = cfg_OutPath cfg" "cfg_ModelPath v = cfg_ModelPath cfg" "cfg_PageSize v = cfg_PageSize cfg"
    "cfg_SidecarPath (genDefaults v) = cfg_SidecarPath (genDefaults cfg)" "cfg_MetaPath (genDefaults v) = cfg_MetaPath (genDefaults cfg)"
    "cfg_Force v = cfg_Force cfg" "b"
  using assms by (auto simp: validateGenerateConfig_def genDefaults_def Let_def simp del: if_Inl_eq_Inr split: if_splits)

lemma tidy_genDefaults:
  "validateGenerateConfig n b cfg = Inr v \<Longrightarrow> tidy tmp (genDefaults v) = tidy tmp (genDefaults cfg)"
  using validateGenerateConfig_same(1,4,5)[of n b cfg v] by (simp add: tidy_def genDefaults_simps)

lemma generation_versions:
  "generation blake3 cfg m model \<Longrightarrow> man_Version m = ManifestVersion \<and> man_MerkleVersion m = MerkleVersion \<and> man_SidecarVersion m = 1"
  by (auto simp: generation_def layoutManifest_def Let_def split: if_splits)

lemma generated_files:
  assumes run: "runGenerate blake3 numCPU tmp schedule now createdAt fs cfg = Some (fs', Inr ())"
    and schedule: "\<And>rs. mset (schedule rs) = mset rs"
    and small: "cfg_PageSize cfg < 2 ^ 32" "length createdAt \<le> 100" "\<forall>b \<in> ran fs. length b < 2 ^ 63"
    and tidy: "tidy tmp (genDefaults cfg)"
  obtains model fm where "fs (cfg_ModelPath cfg) = Some model"
    "generatedOn blake3 fs' (cfg_OutPath cfg) (cfg_MetaPath (genDefaults cfg)) (cfg_SidecarPath (genDefaults cfg)) model"
    "readManifest fs' (cfg_MetaPath (genDefaults cfg)) = Inr fm" "man_PageSize fm = cfg_PageSize cfg"
    "\<And>p. p \<notin> outputs tmp (genDefaults cfg) \<Longrightarrow> fs' p = fs p"
proof -
  obtain v where v: "validateGenerateConfig numCPU (fs (cfg_ModelPath cfg) \<noteq> None) cfg = Inr v"
    using run by (auto simp: runGenerate_def split: sum.splits)
  note same = validateGenerateConfig_same[OF v]
  define c where "c = genDefaults v"
  have c: "cfg_OutPath c = cfg_OutPath cfg" "cfg_ModelPath c = cfg_ModelPath cfg" "cfg_PageSize c = cfg_PageSize cfg"
    "cfg_SidecarPath c = cfg_SidecarPath (genDefaults cfg)" "cfg_MetaPath c = cfg_MetaPath (genDefaults cfg)"
    using same by (simp_all add: c_def genDefaults_simps)
  obtain model where model: "fs (cfg_ModelPath cfg) = Some model" using same(7) by auto
  have v': "validateGenerateConfig numCPU True cfg = Inr v" using v model by simp
  obtain mh ms where hash: "hashFile blake3 model = (mh, ms)" by (cases "hashFile blake3 model")
  define t1 where "t1 = tmp (cfg_OutPath c)"
  define t2 where "t2 = tmp (cfg_SidecarPath c)"
  define clean where "clean = (\<lambda>(fs' :: fsys, r :: tool_error + unit). (fs'(t1 := None, t2 := None), r))"
  have noErr: "clean (g, Inl e) \<noteq> (fs', Inr ())" for g e by (simp add: clean_def)
  obtain m jobs dagf where r: "layoutManifest c mh ms = Inr m" "\<not> man_TotalBytes m \<ge> 2 ^ 63"
    "producerJobs model m = Some (Inr jobs)" "collectResults blake3 c m (schedule (map (pageWorker blake3 c m) jobs)) = Inr dagf"
    "clean (finishGenerate blake3 tmp now createdAt (fs(t1 \<mapsto> dagf)) c m dagf) = (fs', Inr ())"
    using run v c(2) model hash noErr
    by (auto simp: runGenerate_def Let_def simp flip: c_def t1_def t2_def clean_def
        split: sum.splits option.splits if_splits)
  obtain gs where fin: "finishGenerate blake3 tmp now createdAt (fs(t1 \<mapsto> dagf)) c m dagf = (gs, Inr ())"
    "fs' = gs(t1 := None, t2 := None)"
    using r(5) by (cases "finishGenerate blake3 tmp now createdAt (fs(t1 \<mapsto> dagf)) c m dagf") (auto simp: clean_def)
  obtain fm side sm gs' where s: "sealManifest blake3 c m dagf now = Inr fm"
    "buildMerkleSidecarTempFromDAG blake3 (fs(t1 \<mapsto> dagf)) t1 fm createdAt = Inr (side, sm)"
    "commitOutputs tmp c ((fs(t1 \<mapsto> dagf))(t2 \<mapsto> side)) (json_marshalIndent (manifest_json fm)) = (gs, Inr ())"
    using fin(1) by (auto simp: finishGenerate_def Let_def bindE_eq_Inr simp flip: t1_def t2_def split: sum.splits if_splits prod.splits)
  have tc: "tidy tmp c" using tidy tidy_genDefaults[OF v] by (simp add: c_def)
  note out = commitOutputs_ok[OF s(3) tc]
  have files: "fs' (cfg_OutPath c) = Some dagf" "fs' (cfg_SidecarPath c) = Some side"
    "fs' (cfg_MetaPath c) = Some (json_marshalIndent (manifest_json fm))"
    using out tc fin(2) by (auto simp: tidy_def t1_def t2_def)
  obtain roots where roots: "computeRootsFromFile blake3 dagf (cfg_PageSize c) = Inr roots"
    "validateRootsNonEmpty blake3 roots m = Inr ()" "fm = finalManifest blake3 c m roots now" "validateManifestBasics fm = Inr ()"
    by (rule sealManifest_ok[OF s(1)])
  have ps: "man_PageSize m = cfg_PageSize c" using r(1) by (auto simp: layoutManifest_def Let_def split: if_splits)
  have "model \<noteq> []"
  proof
    assume "model = []"
    then have "ms = 0" using hash by (simp add: hashFile_def)
    then have "man_ModelPageCount m = 0" using r(1) by (auto simp: layoutManifest_def Let_def roundUp_def split: if_splits)
    then show False using roots(3,4) by (simp add: validateManifestBasics_iff finalManifest_layout)
  qed
  then have gen: "generation blake3 c m model"
    using validateGenerateConfig_defaults[OF v'] r(1) hash small(1) small(3)[rule_format, OF ranI[where m = fs, OF model]] c(3)
    by (auto simp: generation_def c_def)
  have jobs: "jobs = genJobs c m model" using producerJobs_spec[OF gen] r(3) by simp
  have "generatedOn blake3 fs' (cfg_OutPath c) (cfg_MetaPath c) (cfg_SidecarPath c) model"
    unfolding generatedOn_def
    using gen schedule[of "map (pageWorker blake3 c m) jobs"] jobs r(2,4) small(2) roots ps s(2) files
    by (intro exI[of _ c] exI[of _ m] exI[of _ "schedule (map (pageWorker blake3 c m) jobs)"] exI[of _ dagf] exI[of _ roots]
        exI[of _ now] exI[of _ createdAt] exI[of _ "fs(t1 \<mapsto> dagf)"] exI[of _ t1] exI[of _ side] exI[of _ sm]) simp
  moreover have "readManifest fs' (cfg_MetaPath c) = Inr fm"
    using readManifest_written[where fs = fs' and path = "cfg_MetaPath c", OF files(3)] generation_versions[OF gen]
    by (simp add: roots(3) finalManifest_layout ManifestVersion_def MerkleVersion_def)
  moreover have "man_PageSize fm = cfg_PageSize cfg" using ps c by (simp add: roots(3) finalManifest_layout)
  moreover have "fs' p = fs p" if "p \<notin> outputs tmp (genDefaults cfg)" for p
  proof -
    have "outputs tmp (genDefaults cfg) = outputs tmp c" by (simp add: outputs_def c genDefaults_simps)
    then have p: "p \<notin> outputs tmp c" "p \<noteq> t1" "p \<noteq> t2" using that by (auto simp: outputs_def t1_def t2_def)
    then show ?thesis using out(4)[OF p(1)] fin(2) by simp
  qed
  ultimately show thesis using that[of model fm] model c by simp
qed

section \<open>A generated DAG is consistent\<close>

lemma extractLoop_cong:
  assumes "man_ModelEndPage a = man_ModelEndPage b" "man_PageSize a = man_PageSize b" "man_HeaderSize a = man_HeaderSize b"
    "man_ModelSize a = man_ModelSize b"
  shows "extractLoop blake3 f a p w out = extractLoop blake3 f b p w out"
proof (induction "unat (man_ModelEndPage a) - unat p" arbitrary: p w out rule: less_induct)
  case less
  have IH: "extractLoop blake3 f a (p + 1) w' o' = extractLoop blake3 f b (p + 1) w' o'"
    if "p < man_ModelEndPage b" for w' o'
    using less[of "p + 1"] that assms(1) by (simp add: unat_suc_less)
  show ?case
    by (subst extractLoop.simps[of _ _ a], subst extractLoop.simps[of _ _ b])
      (simp add: assms IH Let_def cong: if_cong split: sum.split prod.split)
qed

lemma extractModel_final:
  "extractModel blake3 f (finalManifest blake3 cfg m roots now) = extractModel blake3 f m"
proof -
  have "extractLoop blake3 f (finalManifest blake3 cfg m roots now) p w out = extractLoop blake3 f m p w out" for p w out
    by (rule extractLoop_cong) (simp_all add: finalManifest_layout)
  then show ?thesis unfolding extractModel_def finalManifest_layout by simp
qed

lemma generated_length:
  assumes gen: "generation blake3 cfg m model"
    and results: "mset results = mset (map (pageWorker blake3 cfg m) (genJobs cfg m model))"
    and ok: "collectResults blake3 cfg m results = Inr f"
  shows "of_nat (length f) = man_TotalBytes m"
proof -
  note l = generation_layout[OF gen]
  obtain pages where pages: "length pages = unat (man_TotalPages m)" "f = concat pages"
    "\<forall>c \<in> set pages. length c = unat (cfg_PageSize cfg)"
    using generated_pages[OF assms] by metis
  then have "length f = unat (man_TotalBytes m)" using length_concat_const[OF pages(3)] l(7) by simp
  then show ?thesis by simp
qed

text \<open>The sidecar of a generated DAG can always be built.\<close>

lemma sidecar_of_generated:
  assumes gen: "generation blake3 cfg m model"
    and results: "mset results = mset (map (pageWorker blake3 cfg m) (genJobs cfg m model))"
    and ok: "collectResults blake3 cfg m results = Inr f"
    and roots: "computeRootsFromFile blake3 f (man_PageSize m) = Inr roots"
    and basics: "validateManifestBasics (finalManifest blake3 cfg m roots now) = Inr ()"
    and fits: "man_TotalBytes m < 2 ^ 63" and at: "fs dagPath = Some f" and created: "length createdAt \<le> 100"
  shows "\<exists>sidecar sm. buildMerkleSidecarTempFromDAG blake3 fs dagPath (finalManifest blake3 cfg m roots now) createdAt = Inr (sidecar, sm)"
proof -
  note l = generation_layout[OF gen] and gj = genJobs_index[OF gen]
  let ?fm = "finalManifest blake3 cfg m roots now" and ?sz = "cfg_PageSize cfg"
  let ?K = "shardCount (unat ?sz - 160) model"
  note fl = finalManifest_layout[of blake3 cfg m roots now]
  obtain pages where pg: "f = concat pages" "length pages = unat (man_TotalPages m)"
    "\<And>i. i < length pages \<Longrightarrow> buildUnifiedPage blake3 cfg m (genJobs cfg m model ! i) = Inr (pages ! i)"
    "\<forall>c \<in> set pages. length c = unat ?sz"
    and rt: "roots = \<lparr>rt_AIDagRoot = leafRoot blake3 treeAIDag (man_PageSize m) pages [0..<length pages],
       rt_TensorRoot = leafRoot blake3 treeTensor (man_PageSize m) pages [1..<1 + unat (man_ModelPageCount m)],
       rt_PoWCommitRoot = leafRoot blake3 treePoW (man_PageSize m) pages [0..<length pages],
       rt_AIDagLeafCount = man_TotalPages m, rt_TensorLeafCount = man_ModelPageCount m,
       rt_PoWCommitLeafCount = man_TotalPages m\<rparr>"
    using generated_roots[OF gen results ok] roots by (auto simp del: upt_Suc)
  have ps: "160 \<le> unat ?sz" "unat ?sz < 2 ^ 32" using l(1,2) by simp_all
  have total: "length pages * unat ?sz < 2 ^ 63" using fits l(7) pg(2) by (simp add: word_less_nat_alt)
  have rd: "readPage blake3 f ?fm (of_nat i) = Inr (finalHeader blake3 cfg (genJobs cfg m model ! i) payload, ph, pc)
      \<and> verifyPageBytes blake3 (pages ! i) (of_nat i) ?sz = Inr (finalHeader blake3 cfg (genJobs cfg m model ! i) payload, ph, pc)"
    if "i < length pages" "verifyPageBytes blake3 (pages ! i) (of_nat i) ?sz = Inr (finalHeader blake3 cfg (genJobs cfg m model ! i) payload, ph, pc)"
    for i payload ph pc
  proof -
    have "i * unat ?sz + unat ?sz \<le> length pages * unat ?sz"
      using that(1) mult_le_mono1[of "Suc i" "length pages" "unat ?sz"] by simp
    then have b: "i * unat ?sz < 2 ^ 63" using total ps(1) by linarith
    have u: "(of_nat i * ?sz :: u64) = of_nat (i * unat ?sz)" by simp
    have "readAt f (unat ?sz) (of_nat i * ?sz) = Inr (take (unat ?sz) (drop (i * unat ?sz) f))"
      unfolding readAt_eq_Inr u using b that(1) pg(1,4) length_concat_const[OF pg(4)]
        \<open>i * unat ?sz + unat ?sz \<le> length pages * unat ?sz\<close> of_nat_u64_less[of "i * unat ?sz" "2 ^ 63"]
      by (simp add: unat_of_nat del: of_nat_mult)
    moreover have "take (unat ?sz) (drop (i * unat ?sz) f) = pages ! i"
      unfolding pg(1) by (rule page_at[OF pg(4) that(1)])
    ultimately show ?thesis using that(2) by (simp add: readPage_def fl l(4))
  qed
  have page: "\<exists>payload ph pc. verifyPageBytes blake3 (pages ! i) (of_nat i) ?sz
      = Inr (finalHeader blake3 cfg (genJobs cfg m model ! i) payload, ph, pc)" if "i < length pages" for i
    using buildUnifiedPage_inv[OF pg(3)[OF that] ps] gj(2)[of i] that pg(2) by metis
  have pw: "powLeaf blake3 f ?fm i = Inr (pageLeaf blake3 treePoW (man_PageSize m) (of_nat i) (pages ! i))" if "i < length pages" for i
    using page[OF that] rd[OF that] by (auto simp: powLeaf_def pageLeaf_def l(4))
  have tn: "tensorLeaf blake3 f ?fm i = Inr (pageLeaf blake3 treeTensor (man_PageSize m) (of_nat i) (pages ! i))"
    if i: "i \<in> {1..<1 + ?K}" for i
  proof -
    have len: "i < length pages" using i l(12) pg(2) by auto
    obtain payload ph pc where v: "verifyPageBytes blake3 (pages ! i) (of_nat i) ?sz
      = Inr (finalHeader blake3 cfg (genJobs cfg m model ! i) payload, ph, pc)" using page[OF len] by blast
    have job: "genJobs cfg m model ! i = modelJob m model (i - 1)" using gj(3)[of "i - 1"] i by auto
    have "hdr_PageType (finalHeader blake3 cfg (genJobs cfg m model ! i) payload) = PageTypeModel"
      "hdr_ShardID (finalHeader blake3 cfg (genJobs cfg m model ! i) payload) = of_nat i - man_ModelStartPage ?fm"
      using i by (simp_all add: job finalHeader_def unifiedHeader_def modelJob_def Let_def fl l(9) of_nat_diff)
    then show ?thesis using rd[OF len v] by (simp add: tensorLeaf_def pageLeaf_def l(4))
  qed
  let ?pw = "map (\<lambda>i. pageLeaf blake3 treePoW (man_PageSize m) (of_nat i) (pages ! i)) [0..<length pages]"
  let ?tn = "map (\<lambda>i. pageLeaf blake3 treeTensor (man_PageSize m) (of_nat i) (pages ! i)) [1..<1 + ?K]"
  have a: "powLeavesFrom blake3 f ?fm 0 = Inr ?pw"
  proof -
    have "mapE (powLeaf blake3 f ?fm) [0..<length pages] = Inr ?pw" by (rule mapE_all_ok) (rule pw, simp)
    then show ?thesis using leavesFrom_eq(1)[of 0 ?fm blake3 f] pg(2) by (simp add: fl)
  qed
  have end1: "unat (man_ModelStartPage ?fm) = 1" "unat (man_ModelEndPage ?fm) = 1 + ?K" using l(9,11) by (simp_all add: fl)
  have b: "tensorLeavesFrom blake3 f ?fm (man_ModelStartPage ?fm) = Inr ?tn"
  proof -
    have "mapE (tensorLeaf blake3 f ?fm) [1..<1 + ?K] = Inr ?tn" by (rule mapE_all_ok) (rule tn, simp del: upt_Suc)
    moreover have "(of_nat 1 :: u64) = man_ModelStartPage ?fm" using l(9) by (simp add: fl)
    ultimately show ?thesis using leavesFrom_eq(2)[of 1 ?fm blake3 f] unfolding end1(2) by simp
  qed
  have fits': "unat (man_TotalPages ?fm) * unat (man_PageSize ?fm) < 2 ^ 63"
    using total pg(2) by (simp add: fl l(4))
  from build_layout[where fs = fs and dagPath = dagPath and now = createdAt, OF basics at a b fits'] obtain g pws tns where
    g: "buildMerkleSidecarTempFromDAG blake3 fs dagPath ?fm createdAt = finishSidecar ?fm createdAt g pws tns"
    "diskTree (merkleNodeHash blake3 treePoW) g pws ?pw" "diskTree (merkleNodeHash blake3 treeTensor) g tns ?tn" by blast
  have ne: "?pw \<noteq> []" "?tn \<noteq> []" using l(12,16) pg(2) by simp_all
  have leaf32: "length (pageLeaf blake3 t z i p) = 32" for t z i p
    by (simp add: pageLeaf_def split: sum.split)
  have root32: "length (treeRoot (merkleNodeHash blake3 t) xs) = 32" if "xs \<noteq> []" "\<forall>x \<in> set xs. length x = 32" for t xs
    using that by (intro treeRoot_closed[where P = "\<lambda>x. length x = 32"]) (simp add: merkleNodeHash_def)
  have "\<forall>x \<in> set ?pw. length x = 32" "\<forall>x \<in> set ?tn. length x = 32"
    using leaf32 by (auto simp del: upt_Suc)
  note l32 = root32[OF ne(1) this(1)] root32[OF ne(2) this(2)]
  have "rt_PoWCommitRoot roots = treeRoot (merkleNodeHash blake3 treePoW) ?pw"
    "rt_TensorRoot roots = treeRoot (merkleNodeHash blake3 treeTensor) ?tn"
    using ne l(10) by (simp_all add: rt leafRoot_def MerkleTree_Root_eq fileLeaves_def del: upt_Suc)
  then have "dag_decodeHex32 (man_PoWCommitRoot ?fm) = Inr (treeRoot (merkleNodeHash blake3 treePoW) ?pw)"
    "dag_decodeHex32 (man_TensorRoot ?fm) = Inr (treeRoot (merkleNodeHash blake3 treeTensor) ?tn)"
    using l32 by (simp_all add: fl del: upt_Suc)
  from finishSidecar_ok[OF basics created g(2,3) this] g(1) show ?thesis by auto
qed

lemma generatedOn_parts:
  assumes "generatedOn blake3 fs dagPath metaPath sidecarPath model"
  obtains fm f roots sidecar sm pws tns fsb tmpDag createdAt where
    "fs dagPath = Some f" "fs sidecarPath = Some sidecar" "fs metaPath = Some (json_marshalIndent (manifest_json fm))"
    "readManifest fs metaPath = Inr fm" "unmarshalManifest (json_marshalIndent (manifest_json fm)) = Some fm"
    "validateManifestBasics fm = Inr ()" "ValidateManifest blake3 fm = Inr ()"
    "man_ManifestRoot fm = formatHash (hashManifestRoot blake3 fm)"
    "computeRootsFromFile blake3 f (man_PageSize fm) = Inr roots" "validateRootsNonEmpty blake3 roots fm = Inr ()"
    "man_AIDagRoot fm = formatHash (rt_AIDagRoot roots)" "man_TensorRoot fm = formatHash (rt_TensorRoot roots)"
    "man_PoWCommitRoot fm = formatHash (rt_PoWCommitRoot roots)"
    "man_AIDagLeafCount fm = rt_AIDagLeafCount roots" "man_TensorLeafCount fm = rt_TensorLeafCount roots"
    "man_PoWCommitLeafCount fm = rt_PoWCommitLeafCount roots"
    "buildMerkleSidecarTempFromDAG blake3 fsb tmpDag fm createdAt = Inr (sidecar, sm)" "fsb tmpDag = Some f"
    "length createdAt \<le> 100"
    "builtFrom blake3 fm f pws tns \<lparr>sr_file = sidecar, sr_meta = sm\<rparr>"
    "openMerkleSidecar fs sidecarPath = Inr \<lparr>sr_file = sidecar, sr_meta = sm\<rparr>"
    "unat (man_TotalPages fm) * unat (man_PageSize fm) < 2 ^ 63" "192 \<le> man_PageSize fm" "man_PageSize fm < 2 ^ 32"
    "of_nat (length f) = man_TotalBytes fm" "extractModel blake3 f fm = Inr model"
proof -
  obtain cfg m results f roots now createdAt fsb tmpDag sidecar sm where
    g: "generation blake3 cfg m model" "mset results = mset (map (pageWorker blake3 cfg m) (genJobs cfg m model))"
      "collectResults blake3 cfg m results = Inr f" and b: "man_TotalBytes m < 2 ^ 63" "length createdAt \<le> 100"
    and r: "computeRootsFromFile blake3 f (man_PageSize m) = Inr roots" "validateRootsNonEmpty blake3 roots m = Inr ()"
      "validateManifestBasics (finalManifest blake3 cfg m roots now) = Inr ()"
    and s: "buildMerkleSidecarTempFromDAG blake3 fsb tmpDag (finalManifest blake3 cfg m roots now) createdAt = Inr (sidecar, sm)"
      "fsb tmpDag = Some f"
    and d: "fs dagPath = Some f" "fs sidecarPath = Some sidecar"
      "fs metaPath = Some (json_marshalIndent (manifest_json (finalManifest blake3 cfg m roots now)))"
    using assms unfolding generatedOn_def by blast
  define fm where "fm = finalManifest blake3 cfg m roots now"
  note fl = finalManifest_layout[of blake3 cfg m roots now, folded fm_def]
  note l = generation_layout[OF g(1)]
  have "fitsInt (man_Version fm)" "fitsInt (man_MerkleVersion fm)" "fitsInt (man_SidecarVersion fm)"
    using generation_versions[OF g(1)] by (simp_all add: fl ManifestVersion_def MerkleVersion_def)
  note rd = readManifest_written[where fs = fs and path = metaPath, OF d(3)[folded fm_def] this]
  have fits: "unat (man_TotalPages fm) * unat (man_PageSize fm) < 2 ^ 63"
    using b(1) l(4,7) by (simp add: fl word_less_nat_alt)
  note bs = built_sidecar[where fs' = fs and path = sidecarPath, OF s(1)[folded fm_def] b(2) fits d(2)]
  obtain pws tns where built: "builtFrom blake3 fm f pws tns \<lparr>sr_file = sidecar, sr_meta = sm\<rparr>" using bs(3) s(2) by auto
  have ex: "extractModel blake3 f fm = Inr model"
    unfolding fm_def extractModel_final by (rule generate_extract_roundtrip[OF g])
  have len: "of_nat (length f) = man_TotalBytes fm" using generated_length[OF g] by (simp add: fl)
  have ps: "192 \<le> man_PageSize fm" "man_PageSize fm < 2 ^ 32"
    using l(1,2,4) by (simp_all add: fl word_le_nat_alt word_less_nat_alt)
  have roots: "computeRootsFromFile blake3 f (man_PageSize fm) = Inr roots" "validateRootsNonEmpty blake3 roots fm = Inr ()"
    using r(1,2) by (auto simp: fl validateRootsNonEmpty_def)
  show thesis
    by (rule that[of f sidecar fm roots fsb tmpDag createdAt sm pws tns])
      (use d rd r(3) s b(2) built bs fits ps len ex roots finalManifest_valid[OF r(3)] finalManifest_root[of blake3 cfg m roots now]
        in \<open>simp_all add: fl flip: fm_def\<close>)
qed

lemma generated_verifies:
  assumes "generatedOn blake3 fs dagPath metaPath sidecarPath model" "sidecarPath \<noteq> []"
  shows "verifyDagAgainstManifest blake3 fs dagPath metaPath sidecarPath = Inr ()"
proof (rule generatedOn_parts[OF assms(1)])
  fix fm f roots sidecar sm pws tns fsb tmpDag createdAt
  assume a: "fs dagPath = Some f" "readManifest fs metaPath = Inr fm" "validateManifestBasics fm = Inr ()"
    "man_ManifestRoot fm = formatHash (hashManifestRoot blake3 fm)"
    "computeRootsFromFile blake3 f (man_PageSize fm) = Inr roots" "validateRootsNonEmpty blake3 roots fm = Inr ()"
    "man_AIDagRoot fm = formatHash (rt_AIDagRoot roots)" "man_TensorRoot fm = formatHash (rt_TensorRoot roots)"
    "man_PoWCommitRoot fm = formatHash (rt_PoWCommitRoot roots)"
    "man_AIDagLeafCount fm = rt_AIDagLeafCount roots" "man_TensorLeafCount fm = rt_TensorLeafCount roots"
    "man_PoWCommitLeafCount fm = rt_PoWCommitLeafCount roots"
    "builtFrom blake3 fm f pws tns \<lparr>sr_file = sidecar, sr_meta = sm\<rparr>"
    "openMerkleSidecar fs sidecarPath = Inr \<lparr>sr_file = sidecar, sr_meta = sm\<rparr>" "man_PageSize fm < 2 ^ 32"
  have "\<not> man_PageSize fm > maxInt"
    using a(15) by (simp add: not_less maxInt_def word_le_nat_alt word_less_nat_alt)
  then show ?thesis using a assms(2) built_validates(2)[OF a(13)]
    by (simp add: verifyDagAgainstManifest_def Let_def openFile_def equalHex_equiv(1) formatHash_def)
qed

section \<open>The tool's prover is the package's\<close>

text \<open>The page the tool puts into a proof, from what the package's prover reads.\<close>

lemma proofPage_agree:
  assumes basics: "man_HeaderSize m \<le> man_PageSize m" "man_PayloadSize m = man_PageSize m - man_HeaderSize m"
      "man_PageSize m < 2 ^ 63"
    and levels: "sm_PoWLevels (sr_meta r) \<noteq> []" "sm_TensorLevels (sr_meta r) \<noteq> []"
    and dag: "fs dagPath = Some dag"
    and mat: "readMaterialAt blake3 dag m i = Some (Inr mat)" and page: "provePage r m tn i mat = Inr page"
    and model: "containsSorted tn i \<Longrightarrow> hdr_PageType (mat_Header mat) = PageTypeModel"
  shows "proofPage blake3 fs dagPath m r tn i = Some (Inr (page, mat))"
proof -
  obtain b h ph pc where r: "i < man_TotalPages m" "readAt dag (unat (man_PageSize m)) (i * man_PageSize m) = Inr b"
    "verifyPage blake3 b i (man_PageSize m) = Inr (h, ph, pc)" "mat = materialOf blake3 m i b h ph pc"
    using mat by (auto simp: readMaterialAt_def split: if_splits)
  have sz: "\<not> man_PageSize m > maxInt"
    using basics(3) by (simp add: not_less maxInt_def word_le_nat_alt word_less_nat_alt)
  have "man_PayloadSize m \<le> man_PageSize m"
    using basics(1,2) by (simp add: word_le_nat_alt unat_sub)
  then have "\<not> man_PayloadSize m > maxInt" using sz by (meson le_less_trans not_less)
  then have mo: "dag_materialOf blake3 m i b h ph pc = Some mat"
    using dag_materialOf_Some[OF basics(1,2) length_readAt[OF r(2)]] r(4) by simp
  have rd: "readProofMaterial blake3 fs dagPath m i = Some (Inr mat)"
    using r(1,2) r(3)[folded verifyPageBytes_eq] dag sz mo by (simp add: readProofMaterial_def openFile_def not_le)
  show ?thesis
    using page model
    by (auto simp: proofPage_def rd provePage_def isTensorRequiredPage_eq reader_Proof_agree[OF levels] Let_def split: if_splits)
qed

lemma proofPages_all:
  assumes "\<And>i. i \<in> set required \<Longrightarrow> proofPage blake3 fs dagPath m r tn i = Some (Inr (page i, mat i))"
  shows "proofPages blake3 fs dagPath m r tn required = Some (Inr (map (\<lambda>i. (page i, mat i)) required))"
  using assms by (induction required) simp_all

text \<open>The configuration of the package's prover that asks for the same proof.\<close>

definition proveConfigOf :: "Config \<Rightarrow> Manifest \<Rightarrow> ProveConfig" where
  "proveConfigOf cfg m =
     \<lparr>pc_DAGPath = cfg_DagPath cfg, pc_SidecarPath = cfg_SidecarPath cfg, pc_Manifest = m,
      pc_BlockHash = normalizeArbitraryHexOrString (cfg_BlockHash cfg), pc_Miner = cfg_Miner cfg,
      pc_Epoch = cfg_Epoch cfg, pc_Nonce = cfg_Nonce cfg, pc_PoWSamples = cfg_Samples cfg,
      pc_TensorSamples = cfg_TensorSamples cfg, pc_Target = cfg_Target cfg\<rparr>"

lemma normalizeArbitrary_tool: "normalizeArbitrary (normalizeArbitraryHexOrString s) = normalizeArbitraryHexOrString s"
  using normalizeArbitraryHexOrString_normal[of s] normalizeArbitrary_differ[of "normalizeArbitraryHexOrString s"] by simp

lemma challengeSeal_tool: "challengeSeal (proveConfigOf cfg m) = sealFor cfg m"
  by (simp add: challengeSeal_def sealFor_def proveConfigOf_def normalizeArbitrary_tool normalizeHexString_eq Let_def)

lemma finishProof_agree:
  assumes target: "cfg_Target cfg = [] \<or> dag_decodeHex32 (cfg_Target cfg) = Inr t"
    and cover: "set pw \<union> set tn \<subseteq> mat_PageIndex ` set mats"
  shows "sealProof blake3 (proveConfigOf cfg m) (challengeSeal (proveConfigOf cfg m)) pw tn pages mats = Some (Inr (pro, b))
      \<Longrightarrow> finishProof blake3 cfg m pw tn pages mats = Some (Inr pro)"
    "sealProof blake3 (proveConfigOf cfg m) (challengeSeal (proveConfigOf cfg m)) pw tn pages mats = Some (Inl ProveTargetNotMet)
      \<Longrightarrow> finishProof blake3 cfg m pw tn pages mats = Some (Inl ToolTargetNotMet)"
proof -
  have odd: "\<not> oddHex (normalizeArbitraryHexOrString (cfg_BlockHash cfg))" by (rule normalizeArbitraryHexOrString_normal(1))
  have bh: "seal_BlockHash (sealFor cfg m) = normalizeArbitraryHexOrString (cfg_BlockHash cfg)" by (simp add: sealFor_def)
  have tn: "set tn \<subseteq> mat_PageIndex ` set mats" using cover by simp
  have mix: "dag_computeMixDigest blake3 (sealFor cfg m) m pw tn mats = computeMixDigest blake3 (sealFor cfg m) m pw tn mats"
    using computeMixDigest_eq[OF _ cover] odd bh by simp
  have ai: "dag_computeAIDigest blake3 (sealFor cfg m) m tn mats = computeAIDigest blake3 (sealFor cfg m) m tn mats"
    using computeAIDigest_eq[OF _ tn] odd bh by simp
  have ai': "computeAIDigest blake3 (sealFor cfg m\<lparr>seal_MixDigest := x\<rparr>) m tn mats = computeAIDigest blake3 (sealFor cfg m) m tn mats" for x
    by (rule sameChallenge_digests(2)) (simp add: sameChallenge_def)
  have w: "computeSealWorkHash blake3 s = computeWorkHash blake3 s" if "seal_BlockHash s = normalizeArbitraryHexOrString (cfg_BlockHash cfg)" for s
    using computeSealWorkHash_eq odd that by simp
  have ph: "dag_computeProofHash blake3 p = computeProofHash blake3 p"
    if "seal_BlockHash (prf_Seal p) = normalizeArbitraryHexOrString (cfg_BlockHash cfg)" for p
    using computeProofHash_eq odd that by simp
  have pc: "pc_Manifest (proveConfigOf cfg m) = m" "pc_Target (proveConfigOf cfg m) = cfg_Target cfg" by (simp_all add: proveConfigOf_def)
  have dec: "cfg_Target cfg \<noteq> [] \<Longrightarrow> decodeHex32 (cfg_Target cfg) = Inr t \<and> dag_decodeHex32 (cfg_Target cfg) = Inr t"
    using target dag_decodeHex32_sound by auto
  show "sealProof blake3 (proveConfigOf cfg m) (challengeSeal (proveConfigOf cfg m)) pw tn pages mats = Some (Inr (pro, b))
      \<Longrightarrow> finishProof blake3 cfg m pw tn pages mats = Some (Inr pro)"
    "sealProof blake3 (proveConfigOf cfg m) (challengeSeal (proveConfigOf cfg m)) pw tn pages mats = Some (Inl ProveTargetNotMet)
      \<Longrightarrow> finishProof blake3 cfg m pw tn pages mats = Some (Inl ToolTargetNotMet)"
    unfolding sealProof_def finishProof_def challengeSeal_tool pc Let_def mix ai ai'
    using dec by (auto simp: bh w ph formatHash_def split: option.splits if_splits)
qed

text \<open>With the inputs open, the tool's prover ends with the proof of the package's prover, which verifies, or
  with the target not met.\<close>

lemma proveWith_verifies:
  assumes valid: "ValidateManifest blake3 m = Inr ()"
    and built: "builtFrom blake3 m dag pws tns r" and opened: "openMerkleSidecar fs sidecarPath = Inr r"
    and size: "man_PageSize m < 2 ^ 63" and dag: "fs (cfg_DagPath cfg) = Some dag"
    and samples: "cfg_TensorSamples cfg = 0 \<or> 192 \<le> man_PageSize m"
    and req: "deriveRequiredProofPages blake3 m (cfg_BlockHash cfg) (cfg_Miner cfg) (cfg_Epoch cfg) (cfg_Nonce cfg)
      (cfg_Samples cfg) (cfg_TensorSamples cfg) = Some (Inr (pw, tn, required))"
    and target: "cfg_Target cfg = [] \<or> dag_decodeHex32 (cfg_Target cfg) = Inr t"
    and limits: "0 < lim_MaxPages limits" "int (length required) \<le> lim_MaxPages limits" "man_PageSize m \<le> lim_MaxPageSize limits"
  shows "proveWith blake3 fs cfg m r = Some (Inl ToolTargetNotMet) \<and> cfg_Target cfg \<noteq> []
    \<or> (\<exists>pro result. proveWith blake3 fs cfg m r = Some (Inr pro)
        \<and> prf_Version pro = ProofVersion \<and> sameChallenge (prf_Seal pro) (sealFor cfg m)
        \<and> Verify blake3 m pro (cfg_Target cfg) limits = Some (Inr result))"
proof -
  let ?pc = "proveConfigOf cfg m"
  have pc: "pc_Manifest ?pc = m" "pc_PoWSamples ?pc = cfg_Samples cfg" "pc_TensorSamples ?pc = cfg_TensorSamples cfg"
    "pc_Target ?pc = cfg_Target cfg" by (simp_all add: proveConfigOf_def)
  have r: "0 < cfg_Samples cfg \<and> 0 \<le> cfg_TensorSamples cfg
      \<and> deriveRequiredPages blake3 m (challengeSeal ?pc) = Some (Inr (pw, tn, required))"
  proof -
    have "normalizeArbitraryHexOrString (cfg_BlockHash cfg) = normalizeArbitrary (seal_BlockHash (sealFor cfg m))"
      by (simp add: sealFor_def normalizeArbitrary_tool)
    from deriveRequiredProofPages_eq[OF this, where miner = "cfg_Miner cfg"] req show ?thesis
      by (simp add: challengeSeal_tool) (simp add: sealFor_def TrimSpace_ToLower)
  qed
  have basics: "validateManifestBasics m = Inr ()" using built by (simp add: builtFrom_def)
  note v = basics[unfolded validateManifestBasics_iff] and d = deriveRequiredPages_spec[OF conjunct2[OF conjunct2[OF r]]]
    and rng = required_range[OF basics conjunct2[OF conjunct2[OF r]]]
  have levels: "sm_PoWLevels (sr_meta r) \<noteq> []" "sm_TensorLevels (sr_meta r) \<noteq> []"
    using opened open_agree open_levels by blast+
  obtain ps where ps: "provePages blake3 (\<lambda>_. False) dag r m tn required = Some (Inr ps)"
    "sealProof blake3 ?pc (challengeSeal ?pc) pw tn (map fst ps) (map snd ps) = Some (Inl ProveTargetNotMet) \<and> cfg_Target cfg \<noteq> []
      \<or> (\<exists>pro result. sealProof blake3 ?pc (challengeSeal ?pc) pw tn (map fst ps) (map snd ps)
              = Some (Inr (pro, json_marshal (proof_json pro)))
          \<and> prf_Version pro = ProofVersion \<and> sameChallenge (prf_Seal pro) (challengeSeal ?pc)
          \<and> Verify blake3 m pro (cfg_Target cfg) limits = Some (Inr result))"
    using proved_verifies[where cfg = ?pc and ctxDone = "\<lambda>_. False", OF valid pc(1)[symmetric] built size _ _ _ conjunct2[OF conjunct2[OF r]] _ limits]
      r samples unfolding pc by blast
  obtain page mat where pm: "\<And>i. i \<in> set required \<Longrightarrow> readMaterialAt blake3 dag m i = Some (Inr (mat i))
      \<and> provePage r m tn i (mat i) = Inr (page i) \<and> mat_PageIndex (mat i) = i
      \<and> verifyRequired blake3 m (treeRoot (merkleNodeHash blake3 treePoW) pws) (treeRoot (merkleNodeHash blake3 treeTensor) tns)
          tn [i \<mapsto> page i] i = Inr (mat i)"
  proof -
    have "\<forall>i \<in> set required. \<exists>pm. readMaterialAt blake3 dag m i = Some (Inr (snd pm))
      \<and> provePage r m tn i (snd pm) = Inr (fst pm) \<and> mat_PageIndex (snd pm) = i
      \<and> verifyRequired blake3 m (treeRoot (merkleNodeHash blake3 treePoW) pws) (treeRoot (merkleNodeHash blake3 treeTensor) tns)
          tn [i \<mapsto> fst pm] i = Inr (snd pm)"
    proof
      fix i assume "i \<in> set required"
      from proved_page[OF built size rng(1)[OF this] conjunct1[OF d(2)] rng(2)] obtain mat page where
        p: "readMaterialAt blake3 dag m i = Some (Inr mat)" "provePage r m tn i mat = Inr page" "mat_PageIndex mat = i"
        and q: "\<forall>byIndex. byIndex i = Some page \<longrightarrow> verifyRequired blake3 m (treeRoot (merkleNodeHash blake3 treePoW) pws)
          (treeRoot (merkleNodeHash blake3 treeTensor) tns) tn byIndex i = Inr mat" by blast
      from q have "verifyRequired blake3 m (treeRoot (merkleNodeHash blake3 treePoW) pws)
          (treeRoot (merkleNodeHash blake3 treeTensor) tns) tn [i \<mapsto> page] i = Inr mat" by simp
      with p show "\<exists>pm. readMaterialAt blake3 dag m i = Some (Inr (snd pm))
      \<and> provePage r m tn i (snd pm) = Inr (fst pm) \<and> mat_PageIndex (snd pm) = i
      \<and> verifyRequired blake3 m (treeRoot (merkleNodeHash blake3 treePoW) pws) (treeRoot (merkleNodeHash blake3 treeTensor) tns)
          tn [i \<mapsto> fst pm] i = Inr (snd pm)" by (intro exI[of _ "(page, mat)"]) simp
    qed
    from bchoice[OF this] show thesis by (elim exE) (rule that, blast)
  qed
  have psd: "ps = map (\<lambda>i. (page i, mat i)) required"
    using provePages_all[of required "\<lambda>_. False" blake3 dag m mat r tn page] pm ps(1) by simp
  have "proofPage blake3 fs (cfg_DagPath cfg) m r tn i = Some (Inr (page i, mat i))" if i: "i \<in> set required" for i
  proof (rule proofPage_agree[where fs = fs, OF _ _ size levels dag])
    show "man_HeaderSize m \<le> man_PageSize m" "man_PayloadSize m = man_PageSize m - man_HeaderSize m"
      using v by (simp_all add: less_imp_le)
    show "readMaterialAt blake3 dag m i = Some (Inr (mat i))" "provePage r m tn i (mat i) = Inr (page i)" using pm[OF i] by simp_all
    show "hdr_PageType (mat_Header (mat i)) = PageTypeModel" if "containsSorted tn i"
      using pm[OF i] that by (auto simp: verifyRequired_def Let_def split: if_splits)
  qed
  then have pp: "proofPages blake3 fs (cfg_DagPath cfg) m r tn required = Some (Inr ps)"
    unfolding psd by (rule proofPages_all)
  have "map mat_PageIndex (map snd ps) = required" using pm by (simp add: psd map_idI)
  then have "set pw \<union> set tn \<subseteq> mat_PageIndex ` set (map snd ps)" using d(4) by (metis equalityE set_map)
  note fin = finishProof_agree[OF target this]
  have pw: "proveWith blake3 fs cfg m r = finishProof blake3 cfg m pw tn (map fst ps) (map snd ps)"
    by (simp add: proveWith_def req pp)
  from ps(2) show ?thesis
  proof (elim disjE conjE exE)
    assume "sealProof blake3 ?pc (challengeSeal ?pc) pw tn (map fst ps) (map snd ps) = Some (Inl ProveTargetNotMet)"
      "cfg_Target cfg \<noteq> []"
    then show ?thesis using fin(2) pw by simp
  next
    fix pro result
    assume a: "sealProof blake3 ?pc (challengeSeal ?pc) pw tn (map fst ps) (map snd ps)
              = Some (Inr (pro, json_marshal (proof_json pro)))"
      "prf_Version pro = ProofVersion" "sameChallenge (prf_Seal pro) (challengeSeal ?pc)"
      "Verify blake3 m pro (cfg_Target cfg) limits = Some (Inr result)"
    then show ?thesis using fin(1)[OF a(1)] pw unfolding challengeSeal_tool by simp
  qed
qed

end
