(* ===== verification/Tool_Live.thy ===== *)
theory Tool_Live
  imports DagTool_Laws
begin

text \<open>
  A generation whose pages can be built and whose roots pass the tool's own checks always completes: the
  file is laid out, the sidecar is built, the three outputs are committed and the final verification passes.
  The last section runs the tool on a concrete configuration.
\<close>

section \<open>Committing\<close>

lemma commitAtomicPath_free:
  assumes "fs t = Some data" "force \<or> fs p = None" "t \<noteq> p"
  shows "commitAtomicPath fs t p force = ((fs(t := None))(p \<mapsto> data), Inr ())"
  using assms by (auto simp: commitAtomicPath_def Let_def fun_upd_twist)

lemma writeFileAtomic_free:
  assumes "fs (tmp path) = None" "force \<or> fs path = None" "tmp path \<noteq> path"
  shows "writeFileAtomic tmp fs path data force = ((fs(tmp path := None))(path \<mapsto> data), Inr ())"
proof -
  have "commitAtomicPath (fs(tmp path \<mapsto> data)) (tmp path) path force
      = ((fs(tmp path \<mapsto> data, tmp path := None))(path \<mapsto> data), Inr ())"
    by (rule commitAtomicPath_free) (use assms in auto)
  then show ?thesis using assms by (auto simp: writeFileAtomic_def fun_upd_twist)
qed

lemma commitOutputs_free:
  assumes tidy: "tidy tmp cfg"
    and temps: "fs (tmp (cfg_OutPath cfg)) = Some dag" "fs (tmp (cfg_SidecarPath cfg)) = Some sidecar"
    and meta: "fs (tmp (cfg_MetaPath cfg)) = None \<or> tmp (cfg_MetaPath cfg) \<in> {tmp (cfg_OutPath cfg), tmp (cfg_SidecarPath cfg)}"
    and free: "cfg_Force cfg \<or> (\<forall>p \<in> {cfg_OutPath cfg, cfg_SidecarPath cfg, cfg_MetaPath cfg}. fs p = None)"
  shows "\<exists>fs'. commitOutputs tmp cfg fs b = (fs', Inr ())"
proof -
  note t = tidy[unfolded tidy_def]
  let ?fs1 = "(fs(tmp (cfg_OutPath cfg) := None))(cfg_OutPath cfg \<mapsto> dag)"
  let ?fs2 = "(?fs1(tmp (cfg_SidecarPath cfg) := None))(cfg_SidecarPath cfg \<mapsto> sidecar)"
  have "commitAtomicPath fs (tmp (cfg_OutPath cfg)) (cfg_OutPath cfg) (cfg_Force cfg) = (?fs1, Inr ())"
    by (rule commitAtomicPath_free) (use temps free t in auto)
  moreover have "commitAtomicPath ?fs1 (tmp (cfg_SidecarPath cfg)) (cfg_SidecarPath cfg) (cfg_Force cfg) = (?fs2, Inr ())"
    by (rule commitAtomicPath_free) (use temps free t in auto)
  moreover have "writeFileAtomic tmp ?fs2 (cfg_MetaPath cfg) b (cfg_Force cfg)
      = ((?fs2(tmp (cfg_MetaPath cfg) := None))(cfg_MetaPath cfg \<mapsto> b), Inr ())"
    by (rule writeFileAtomic_free) (use meta free t in auto)
  ultimately show ?thesis by (simp add: commitOutputs_def)
qed

section \<open>The whole command\<close>

lemma runGenerate_completes:
  assumes v: "validateGenerateConfig numCPU True cfg = Inr v"
    and model: "fs (cfg_ModelPath cfg) = Some model" "model \<noteq> []" "length model < 2 ^ 63"
    and size: "cfg_PageSize cfg < 2 ^ 32"
    and lay: "layoutManifest (genDefaults v) (fst (hashFile blake3 model)) (snd (hashFile blake3 model)) = Inr m"
      "man_TotalBytes m < 2 ^ 63"
    and build: "\<forall>j \<in> set (genJobs (genDefaults v) m model). \<exists>d. buildUnifiedPage blake3 (genDefaults v) m j = Inr d"
    and seal: "\<forall>f. collectResults blake3 (genDefaults v) m (map (pageWorker blake3 (genDefaults v) m) (genJobs (genDefaults v) m model)) = Inr f
      \<longrightarrow> (\<exists>fm. sealManifest blake3 (genDefaults v) m f now = Inr fm)"
    and tidy: "tidy tmp (genDefaults cfg)" and created: "length createdAt \<le> 100"
    and schedule: "\<And>rs. mset (schedule rs) = mset rs"
    and paths: "cfg_Force cfg \<or> (\<forall>p \<in> {cfg_OutPath cfg, cfg_SidecarPath (genDefaults cfg), cfg_MetaPath (genDefaults cfg)}. fs p = None)"
      "\<forall>p \<in> {cfg_OutPath cfg, cfg_SidecarPath (genDefaults cfg), cfg_MetaPath (genDefaults cfg)}. fs (tmp p) = None"
  shows "\<exists>fs'. runGenerate blake3 numCPU tmp schedule now createdAt fs cfg = Some (fs', Inr ())"
proof -
  note same = validateGenerateConfig_same[OF v]
  define c where "c = genDefaults v"
  have c: "cfg_OutPath c = cfg_OutPath cfg" "cfg_ModelPath c = cfg_ModelPath cfg" "cfg_PageSize c = cfg_PageSize cfg"
    "cfg_SidecarPath c = cfg_SidecarPath (genDefaults cfg)" "cfg_MetaPath c = cfg_MetaPath (genDefaults cfg)" "cfg_Force c = cfg_Force cfg"
    using same by (simp_all add: c_def genDefaults_simps genDefaults_def Let_def)
  obtain mh ms where hash: "hashFile blake3 model = (mh, ms)" by (cases "hashFile blake3 model")
  have gen: "generation blake3 c m model"
    using validateGenerateConfig_defaults[OF v] model size lay(1) c(3) by (auto simp: generation_def c_def)
  let ?w = "map (pageWorker blake3 c m) (genJobs c m model)"
  obtain f where f: "collectResults blake3 c m ?w = Inr f"
    using generation_progress[OF gen] build by (auto simp: c_def)
  have f': "collectResults blake3 c m (schedule ?w) = Inr f"
    using generated_pages[OF gen refl f] schedule f by metis
  obtain fm where fm: "sealManifest blake3 c m f now = Inr fm" using seal f by (auto simp: c_def)
  obtain roots where roots: "computeRootsFromFile blake3 f (cfg_PageSize c) = Inr roots"
    "validateRootsNonEmpty blake3 roots m = Inr ()" "fm = finalManifest blake3 c m roots now" "validateManifestBasics fm = Inr ()"
    by (rule sealManifest_ok[OF fm])
  have ps: "man_PageSize m = cfg_PageSize c" using lay(1) by (auto simp: c_def layoutManifest_def Let_def split: if_splits)
  define t1 where "t1 = tmp (cfg_OutPath c)"
  define t2 where "t2 = tmp (cfg_SidecarPath c)"
  let ?fs1 = "fs(t1 \<mapsto> f)"
  obtain sidecar sm where side: "buildMerkleSidecarTempFromDAG blake3 ?fs1 t1 fm createdAt = Inr (sidecar, sm)"
    using sidecar_of_generated[where fs = ?fs1 and dagPath = t1, OF gen refl f _ _ _ _ created, of roots now]
      roots ps lay(2) by auto
  let ?fs2 = "?fs1(t2 \<mapsto> sidecar)" and ?b = "json_marshalIndent (manifest_json fm)"
  have tc: "tidy tmp c" using tidy tidy_genDefaults[OF v] by (simp add: c_def)
  have t12: "t1 \<noteq> t2" "fs t1 = None" "fs t2 = None" using tc paths(2) by (auto simp: tidy_def t1_def t2_def c)
  obtain gs where gs: "commitOutputs tmp c ?fs2 ?b = (gs, Inr ())"
  proof -
    have "\<exists>gs. commitOutputs tmp c ?fs2 ?b = (gs, Inr ())"
      by (rule commitOutputs_free[OF tc, where dag = f and sidecar = sidecar])
        (use t12 paths tc in \<open>auto simp: t1_def t2_def c tidy_def\<close>)
    then show thesis using that by blast
  qed
  note out = commitOutputs_ok[OF gs tc]
  have on: "generatedOn blake3 gs (cfg_OutPath c) (cfg_MetaPath c) (cfg_SidecarPath c) model"
    unfolding generatedOn_def
    using gen f lay(2) created roots ps side out t12
    by (intro exI[of _ c] exI[of _ m] exI[of _ ?w] exI[of _ f] exI[of _ roots] exI[of _ now] exI[of _ createdAt]
        exI[of _ ?fs1] exI[of _ t1] exI[of _ sidecar] exI[of _ sm]) (simp add: t1_def t2_def)
  have "cfg_SidecarPath c \<noteq> []" by (simp add: c(4) genDefaults_def defaultSidecarExt_def Let_def)
  note ver = generated_verifies[OF on this]
  have fin: "finishGenerate blake3 tmp now createdAt ?fs1 c m f = (gs, Inr ())"
    using t12 by (simp add: finishGenerate_def fm side gs ver flip: t1_def t2_def)
  have pre: "preflightAtomicTargets fs (cfg_Force c) [cfg_OutPath c, cfg_MetaPath c, cfg_SidecarPath c] = Inr ()"
    using paths(1) by (auto simp: preflightAtomicTargets_def c)
  have "runGenerate blake3 numCPU tmp schedule now createdAt fs cfg = Some (gs(t1 := None, t2 := None), Inr ())"
    using v model(1) lay t12 pre producerJobs_spec[OF gen] f' fin c(2) hash
    by (simp add: runGenerate_def Let_def not_le flip: c_def t1_def t2_def)
  then show ?thesis by blast
qed

end
