(* ===== verification/Example_Dag.thy ===== *)
theory Example_Dag
  imports Tool_Live
begin

text \<open>
  A concrete run of the generator: a model of three bytes in a DAG of 1 GiB in pages of 1 MiB, on a file
  system that holds nothing but the model. The hash is constant but for the inputs whose domain has twenty
  characters, such as the one of the empty tree, so that no root is the hash of an empty tree.
\<close>

definition hashE :: "bytes \<Rightarrow> bytes" where
  "hashE x = (if x \<noteq> [] \<and> hd x = 20 then replicate 32 2 else replicate 32 1)"

definition exConfig :: Config where
  "exConfig = sampleConfig\<lparr>cfg_PageSize := 1048576, cfg_ExtractTo := ''e'', cfg_ProofPath := ''p'',
     cfg_BlockHash := ''aa'', cfg_Miner := ''m'', cfg_Verify := True\<rparr>"

definition exManifest :: Manifest where
  "exManifest = (case layoutManifest (genDefaults exConfig) (fst (hashFile hashE [1, 2, 3])) 3 of Inr m \<Rightarrow> m | Inl _ \<Rightarrow> sampleManifest)"

definition exTmp :: "string \<Rightarrow> string" where "exTmp p = CHR ''.'' # p"

abbreviation exFs :: fsys where "exFs \<equiv> [''m'' \<mapsto> [1, 2, 3]]"

lemma hashE_not_zero: "copy32 (hashE x) \<noteq> zero32" "finalizeHash (hashE x) \<noteq> zero32"
  by (simp_all add: hashE_def finalizeHash_def replicate_eq_replicate)

lemma hd_writeString: "writeString s @ r \<noteq> []" "hd (writeString s @ r) = of_nat (length s)"
proof -
  have "writeUint64 w = ucast w # map (\<lambda>i. ucast (drop_bit (8 * i) w)) [1..<8]" for w
    unfolding writeUint64_def putLE_def by (subst upt_conv_Cons) simp_all
  moreover have "ucast (of_nat n :: u64) = (of_nat n :: byte)" for n
    by (auto intro!: bit_word_eqI simp: unsigned_of_nat bit_simps)
  ultimately show "writeString s @ r \<noteq> []" "hd (writeString s @ r) = of_nat (length s)"
    by (simp_all add: writeString_def writeBytes_def)
qed

lemma hashE_tagged: "taggedHash hashE d b = (if (of_nat (length d) :: byte) = 20 then replicate 32 2 else replicate 32 1)"
  unfolding taggedHash_def hashE_def hd_writeString(2) using hd_writeString(1)[of d b] by (simp del: append_is_Nil_conv)

lemma hashE_tree:
  "merkleNodeHash hashE t a b = replicate 32 1" "merkleLeafHash hashE t h ph pc = replicate 32 1"
  "merkleEmptyHash hashE t = replicate 32 2"
  by (simp_all add: merkleNodeHash_def merkleLeafHash_def merkleEmptyHash_def hashE_tagged
      domainMerkleNode_def domainMerkleLeaf_def domainMerkleEmpty_def)

lemma exConfig_simps:
  "cfg_OutPath exConfig = ''o''" "cfg_MetaPath exConfig = []" "cfg_SidecarPath exConfig = []" "cfg_ModelPath exConfig = ''m''"
  "cfg_PageSize exConfig = 1048576" "cfg_SizeGB exConfig = 1" "cfg_Force exConfig = False" "cfg_Target exConfig = []"
  "cfg_ExtractTo exConfig = ''e''" "cfg_ProofPath exConfig = ''p''" "cfg_BlockHash exConfig = ''aa''" "cfg_Miner exConfig = ''m''"
  "cfg_Samples exConfig = 1" "cfg_TensorSamples exConfig = 1" "cfg_Workers exConfig = 1" "cfg_ChunkMB exConfig = 64"
  "cfg_Epoch exConfig = 0" "cfg_Nonce exConfig = 0" "cfg_Seed exConfig = ''seed''"
  by (simp_all add: exConfig_def sampleConfig_def)

lemma exConfig_valid: "validateGenerateConfig 1 True exConfig = Inr exConfig"
  by (simp add: validateGenerateConfig_def exConfig_simps UnifiedHeaderSize_def oneGiB_def)

lemma exDefaults: "genDefaults exConfig = exConfig\<lparr>cfg_MetaPath := ''o.meta'', cfg_SidecarPath := ''o.sidecar''\<rparr>"
  by (simp add: genDefaults_def exConfig_simps defaultSidecarExt_def)

lemma exManifest_layout: "layoutManifest (genDefaults exConfig) (fst (hashFile hashE [1, 2, 3])) (snd (hashFile hashE [1, 2, 3])) = Inr exManifest"
  by (simp add: exManifest_def layoutManifest_def exDefaults exConfig_simps UnifiedHeaderSize_def oneGiB_def
      maxInt_def roundUp_def Let_def hashFile_def)

lemma ex_tidy: "tidy exTmp (genDefaults exConfig)"
  by (simp add: tidy_def exDefaults exConfig_simps exTmp_def)

lemma ex_generation: "generation hashE (genDefaults exConfig) exManifest [1, 2, 3]"
  using exManifest_layout validateGenerateConfig_defaults[OF exConfig_valid]
  by (auto simp: generation_def genDefaults_simps exConfig_simps)

lemma exManifest_eq:
  "exManifest = \<lparr>
     man_Version = ManifestVersion, man_Name = ''ColossusX Unified PoW+AI-DAG v1'', man_HashAlgorithm = HashAlgorithm,
     man_MerkleVersion = MerkleVersion, man_PageCommit = ''BLAKE3-256(page with PageHash bytes 112..144 zeroed)'',
     man_PageSize = 1048576, man_HeaderSize = UnifiedHeaderSize, man_PayloadSize = 1048416, man_SizeGB = 1,
     man_TotalBytes = 1073741824, man_TotalPages = 1024, man_Seed = ''seed'',
     man_AIDagRoot = [], man_TensorRoot = [], man_PoWCommitRoot = [], man_ManifestRoot = [], man_GenerationTime = [],
     man_AIDagLeafCount = 1024, man_TensorLeafCount = 1, man_PoWCommitLeafCount = 1024,
     man_MerkleSidecar = ''o.sidecar'', man_SidecarVersion = 1, man_ModelName = [], man_ModelFormat = [],
     man_ModelSize = 3, man_ModelHash = formatHash (fst (hashFile hashE [1, 2, 3])), man_ModelStartPage = 1,
     man_ModelPageCount = 1, man_ModelEndPage = 2, man_IndexPage = 0, man_FillerStart = 2, man_FillerEnd = 1024,
     man_UnifiedLayout = [] \<rparr>"
  by (simp add: exManifest_def layoutManifest_def exDefaults exConfig_simps UnifiedHeaderSize_def oneGiB_def
      maxInt_def roundUp_def Let_def formatHash_def)

lemma exManifest_index_small:
  "length (json_marshal (manifest_json (canonicalManifestForIndex exManifest))) < 100000"
proof -
  let ?m = "canonicalManifestForIndex exManifest"
  have mh: "length (fst (hashFile hashE [1, 2, 3])) = 32" by (simp add: hashFile_def finalizeHash_def)
  note unf = manifest_members_def manifest_model_members_def canonicalManifestForIndex_def omitStr_def omitU64_def
    exManifest_eq UnifiedHeaderSize_def ManifestVersion_def MerkleVersion_def HashAlgorithm_def
  have "\<forall>(k, v) \<in> set (manifest_members ?m @ manifest_model_members ?m). jsmall v"
    by (simp add: unf)
  from length_jsonText_obj[OF this]
  have "length (jsonText (manifest_json ?m)) \<le>
      2 + sum_list (map (\<lambda>(k, v). 4 + 6 * length k + jbound v) (manifest_members ?m @ manifest_model_members ?m))"
    unfolding manifest_json_def .
  also have "\<dots> < 100000" using mh by (simp add: unf formatHash_def)
  finally show ?thesis by (simp add: json_marshal_def)
qed

lemma ex_builds:
  "\<forall>j \<in> set (genJobs (genDefaults exConfig) exManifest [1, 2, 3]). \<exists>d. buildUnifiedPage hashE (genDefaults exConfig) exManifest j = Inr d"
proof
  fix j assume "j \<in> set (genJobs (genDefaults exConfig) exManifest [1, 2, 3])"
  from generation_builds[OF ex_generation hashE_not_zero(2) _ this] exManifest_index_small
  show "\<exists>d. buildUnifiedPage hashE (genDefaults exConfig) exManifest j = Inr d"
    by (simp add: exDefaults exConfig_simps)
qed

text \<open>All leaves and all nodes hash to the same value, and so do the roots.\<close>

lemma ex_leafRoot:
  assumes "ix \<noteq> []" "\<And>i. i \<in> set ix \<Longrightarrow> \<exists>h ph pc. verifyPageBytes hashE (pages ! i) (of_nat i) sz = Inr (h, ph, pc)"
  shows "leafRoot hashE t sz pages ix = replicate 32 1"
proof -
  let ?xs = "fileLeaves hashE t sz pages ix"
  have "pageLeaf hashE t sz (of_nat i) (pages ! i) = replicate 32 1" if "i \<in> set ix" for i
    using assms(2)[OF that] by (elim exE) (simp add: pageLeaf_def hashE_tree)
  then have "?xs \<noteq> []" "\<forall>x \<in> set ?xs. replicate 32 1 = x"
    using assms(1) by (simp_all add: fileLeaves_def)
  then have "replicate 32 1 = treeRoot (merkleNodeHash hashE t) ?xs"
    by (intro treeRoot_closed[where P = "(=) (replicate 32 1)"]) (simp_all add: hashE_tree)
  with \<open>?xs \<noteq> []\<close> show ?thesis by (simp add: leafRoot_def MerkleTree_Root_eq)
qed

lemma ex_seal:
  assumes "collectResults hashE (genDefaults exConfig) exManifest
    (map (pageWorker hashE (genDefaults exConfig) exManifest) (genJobs (genDefaults exConfig) exManifest [1, 2, 3])) = Inr f"
  shows "\<exists>fm. sealManifest hashE (genDefaults exConfig) exManifest f now = Inr fm"
proof -
  let ?c = "genDefaults exConfig" and ?m = exManifest
  note l = generation_layout[OF ex_generation] and gj = genJobs_index[OF ex_generation]
  have ps: "160 \<le> unat (cfg_PageSize ?c)" "unat (cfg_PageSize ?c) < 2 ^ 32" using l(1,2) by simp_all
  have m: "man_PageSize ?m = 1048576" "man_TotalPages ?m = 1024" "man_ModelPageCount ?m = 1" by (simp_all add: exManifest_eq)
  obtain pages where len: "length pages = unat (man_TotalPages ?m)"
    and pg: "\<forall>i < length pages. buildUnifiedPage hashE ?c ?m (genJobs ?c ?m [1, 2, 3] ! i) = Inr (pages ! i)"
    and rt: "computeRootsFromFile hashE f (man_PageSize ?m) = Inr \<lparr>
       rt_AIDagRoot = leafRoot hashE treeAIDag (man_PageSize ?m) pages [0..<length pages],
       rt_TensorRoot = leafRoot hashE treeTensor (man_PageSize ?m) pages [1..<1 + unat (man_ModelPageCount ?m)],
       rt_PoWCommitRoot = leafRoot hashE treePoW (man_PageSize ?m) pages [0..<length pages],
       rt_AIDagLeafCount = man_TotalPages ?m, rt_TensorLeafCount = man_ModelPageCount ?m,
       rt_PoWCommitLeafCount = man_TotalPages ?m\<rparr>"
    using generated_roots[OF ex_generation refl assms] by (elim exE conjE) (rule that)
  have v: "\<exists>h ph pc. verifyPageBytes hashE (pages ! i) (of_nat i) (man_PageSize ?m) = Inr (h, ph, pc)" if i: "i < length pages" for i
  proof -
    obtain payload where "verifyPageBytes hashE (pages ! i) (job_PageIndex (genJobs ?c ?m [1, 2, 3] ! i)) (cfg_PageSize ?c) =
       Inr (finalHeader hashE ?c (genJobs ?c ?m [1, 2, 3] ! i) payload, hashBytes hashE payload,
         hdr_PageHash (finalHeader hashE ?c (genJobs ?c ?m [1, 2, 3] ! i) payload))"
      by (rule buildUnifiedPage_inv[OF pg[rule_format, OF i] ps])
    then show ?thesis using gj(2)[of i] i len l(4) by auto
  qed
  have ne: "[0..<length pages] \<noteq> []" "[1..<1 + unat (man_ModelPageCount ?m)] \<noteq> []"
    unfolding len m by (simp_all only: upt_eq_Nil_conv) simp_all
  define roots where "roots = \<lparr>rt_AIDagRoot = replicate 32 1, rt_TensorRoot = replicate 32 1, rt_PoWCommitRoot = replicate 32 1,
    rt_AIDagLeafCount = 1024, rt_TensorLeafCount = 1, rt_PoWCommitLeafCount = 1024\<rparr>"
  have ones: "leafRoot hashE t (man_PageSize ?m) pages [0..<length pages] = replicate 32 1"
    "leafRoot hashE t (man_PageSize ?m) pages [1..<1 + unat (man_ModelPageCount ?m)] = replicate 32 1" for t
    by (rule ex_leafRoot[OF ne(1)], rule v, simp only: set_upt, simp)
      (rule ex_leafRoot[OF ne(2)], rule v, simp add: len m)
  have r: "computeRootsFromFile hashE f (cfg_PageSize ?c) = Inr roots"
    using rt ones unfolding roots_def l(4)[symmetric] m(2,3) by simp
  have ne: "validateRootsNonEmpty hashE roots ?m = Inr ()"
    by (simp add: validateRootsNonEmpty_def roots_def hashE_tree isZeroHash_def replicate_eq_replicate exManifest_eq)
  let ?fm = "finalManifest hashE ?c ?m roots now"
  have nz: "replicate 32 (1 :: byte) \<noteq> zero32" "fst (hashFile hashE [1, 2, 3]) \<noteq> zero32" "hashManifestRoot hashE ?fm \<noteq> zero32"
    using hashE_not_zero by (simp_all add: hashFile_def hashManifestRoot_def taggedHash_def replicate_eq_replicate)
  have len: "length (fst (hashFile hashE [1, 2, 3])) = 32" by (simp add: hashFile_def finalizeHash_def)
  have good: "\<exists>k. dag_decodeHex32 (formatHash h) = Inr k \<and> k \<noteq> zero32" if "length h = 32" "h \<noteq> zero32" for h
    using that by simp
  define fm where "fm = ?fm"
  note fl = finalManifest_layout[of hashE ?c ?m roots now, folded fm_def]
  have alg: "man_HashAlgorithm fm = HashAlgorithm" unfolding fm_def by (simp add: finalManifest_def Let_def exManifest_eq)
  have ml: "man_Version ?m = ManifestVersion" "man_MerkleVersion ?m = MerkleVersion" "man_HeaderSize ?m = UnifiedHeaderSize"
    "man_PayloadSize ?m = 1048416" "man_TotalBytes ?m = 1073741824" "man_ModelStartPage ?m = 1" "man_ModelEndPage ?m = 2"
    "man_ModelHash ?m = formatHash (fst (hashFile hashE [1, 2, 3]))" by (simp_all add: exManifest_eq)
  have "\<exists>k. dag_decodeHex32 (man_ManifestRoot fm) = Inr k \<and> k \<noteq> zero32"
    unfolding fm_def finalManifest_root by (rule good) (use nz(3) in \<open>simp_all add: hashManifestRoot_def\<close>)
  moreover have "\<exists>k. dag_decodeHex32 (man_ModelHash fm) = Inr k \<and> k \<noteq> zero32"
    unfolding fl ml by (rule good[OF len nz(2)])
  moreover have "\<exists>k. dag_decodeHex32 (formatHash (replicate 32 1)) = Inr k \<and> k \<noteq> zero32" by (rule good) (simp_all add: nz(1))
  ultimately have "validateManifestBasics fm = Inr ()"
    unfolding validateManifestBasics_iff
    by (simp add: fl(1-6) fl(8-) ml(1-7) m alg roots_def UnifiedHeaderSize_def)
  then have "validateManifestBasics ?fm = Inr ()" by (simp add: fm_def)
  then show ?thesis using r ne by (simp add: sealManifest_def)
qed

text \<open>The run, and what it leaves behind.\<close>

lemma ex_run:
  "\<exists>fs'. runGenerate hashE 1 exTmp rev ''now'' ''then'' exFs exConfig = Some (fs', Inr ())"
proof (rule runGenerate_completes[OF exConfig_valid, where model = "[1, 2, 3]" and m = exManifest])
  show "tidy exTmp (genDefaults exConfig)" by (rule ex_tidy)
qed (use exManifest_layout ex_builds ex_seal in \<open>simp_all add: exConfig_simps exManifest_eq exDefaults exTmp_def\<close>)

lemma ex_small: "cfg_PageSize exConfig < 2 ^ 32" "length ''then'' \<le> 100" "\<forall>b \<in> ran exFs. length b < 2 ^ 63"
  by (simp_all add: exConfig_simps)

end
