(* ===== verification/Tool_Props.thy ===== *)
theory Tool_Props
  imports Example_Dag
begin

text \<open>
  The commands of the generator tool together: what \<open>gen\<close> writes, \<open>verify\<close> accepts, \<open>extract\<close> turns back
  into the model, and \<open>prove\<close> turns into proofs that \<open>verify-proof\<close> accepts.
\<close>

section \<open>After a generation\<close>

text \<open>The configuration with which the other commands are called on the output of \<open>gen\<close>.\<close>

abbreviation onOutput :: "Config \<Rightarrow> Config" where
  "onOutput cfg \<equiv> cfg\<lparr>cfg_DagPath := cfg_OutPath cfg\<rparr>"

lemma generated_nonempty:
  assumes "runGenerate blake3 numCPU tmp schedule now createdAt fs cfg = Some (fs', Inr ())"
  shows "cfg_OutPath cfg \<noteq> []"
  using assms by (auto simp: runGenerate_def validateGenerateConfig_def split: if_splits)

lemma genDefaults_paths:
  "cfg_MetaPath (genDefaults cfg) = (if cfg_MetaPath cfg = [] then cfg_OutPath cfg @ ''.meta'' else cfg_MetaPath cfg)"
  "cfg_SidecarPath (genDefaults cfg) = (if cfg_SidecarPath cfg = [] then cfg_OutPath cfg @ defaultSidecarExt else cfg_SidecarPath cfg)"
  by (simp_all add: genDefaults_def Let_def)

lemma extractTo_generated:
  assumes on: "generatedOn blake3 fs dagPath metaPath sidecarPath model"
    and free: "fs (tmp out) = None" "tmp out \<noteq> out"
  obtains fm where "readManifest fs metaPath = Inr fm" "validateManifestBasics fm = Inr ()"
    "extractTo blake3 tmp fs dagPath out fm = (fs(out \<mapsto> model), Inr ())"
proof (rule generatedOn_parts[OF on])
  fix fm f
  assume a: "fs dagPath = Some f" "readManifest fs metaPath = Inr fm" "validateManifestBasics fm = Inr ()"
    "man_PageSize fm < 2 ^ 32" "extractModel blake3 f fm = Inr model"
  have sz: "\<not> man_PageSize fm > maxInt" "\<not> man_PageSize fm \<ge> 2 ^ 32"
    using a(4) by (simp_all add: not_less not_le maxInt_def word_le_nat_alt word_less_nat_alt)
  have ex: "\<not> (man_ModelSize fm = 0 \<or> man_ModelPageCount fm = 0)" "man_HeaderSize fm = UnifiedHeaderSize"
    using a(5) by (auto simp: extractModel_def split: if_splits)
  have "extractTo blake3 tmp fs dagPath out fm = (fs(out \<mapsto> model), Inr ())"
    using ex free a(1,5) sz(1) by (auto simp: extractTo_def openFile_def commitAtomicPath_def fun_upd_idem_iff fun_upd_twist)
  with a(2,3) show thesis by (rule that)
qed

lemma runProve_generated:
  assumes on: "generatedOn blake3 fs (cfg_DagPath x) (metaPathFor x) (if cfg_SidecarPath x = [] then cfg_DagPath x @ defaultSidecarExt else cfg_SidecarPath x) model"
    and read: "readManifest fs (metaPathFor x) = Inr m"
    and args: "cfg_DagPath x \<noteq> []" "cfg_ProofPath x \<noteq> []" "cfg_BlockHash x \<noteq> []" "cfg_Miner x \<noteq> []"
      "0 < cfg_Samples x" "0 \<le> cfg_TensorSamples x" "fitsInt (cfg_Samples x)" "fitsInt (cfg_TensorSamples x)"
    and req: "deriveRequiredProofPages blake3 m (cfg_BlockHash x) (cfg_Miner x) (cfg_Epoch x) (cfg_Nonce x)
      (cfg_Samples x) (cfg_TensorSamples x) = Some (Inr (pw, tn, required))"
    and target: "cfg_Target x = [] \<or> dag_decodeHex32 (cfg_Target x) = Inr t"
    and limits: "length required \<le> 256" "man_PageSize m \<le> 2 ^ 20"
    and out: "cfg_Force x \<or> fs (cfg_ProofPath x) = None" "fs (tmp (cfg_ProofPath x)) = None"
      "tmp (cfg_ProofPath x) \<noteq> cfg_ProofPath x" "metaPathFor x \<notin> {cfg_ProofPath x, tmp (cfg_ProofPath x)}"
  shows "runProve blake3 tmp fs x = Some (fs, Inl ToolTargetNotMet) \<and> cfg_Target x \<noteq> []
    \<or> (\<exists>pro result. let text = json_marshalIndent (proof_json pro); fs' = fs(cfg_ProofPath x \<mapsto> text) in
         runProve blake3 tmp fs x = Some (fs', Inr ()) \<and>
         runVerifyProof blake3 fs' x =
           (if length text \<le> 8388608 then Some (Inr (result, pro)) else Some (Inl (ToolVerify (ProofTooLarge (length text))))))"
proof (rule generatedOn_parts[OF on])
  fix fm f roots sidecar sm pws tns fsb tmpDag createdAt
  assume a: "fs (cfg_DagPath x) = Some f"
    "fs (metaPathFor x) = Some (json_marshalIndent (manifest_json fm))"
    "readManifest fs (metaPathFor x) = Inr fm" "unmarshalManifest (json_marshalIndent (manifest_json fm)) = Some fm"
    "validateManifestBasics fm = Inr ()" "ValidateManifest blake3 fm = Inr ()"
    "man_ManifestRoot fm = formatHash (hashManifestRoot blake3 fm)"
    "builtFrom blake3 fm f pws tns \<lparr>sr_file = sidecar, sr_meta = sm\<rparr>"
    "openMerkleSidecar fs (if cfg_SidecarPath x = [] then cfg_DagPath x @ defaultSidecarExt else cfg_SidecarPath x) = Inr \<lparr>sr_file = sidecar, sr_meta = sm\<rparr>"
    "192 \<le> man_PageSize fm" "man_PageSize fm < 2 ^ 32"
  have m: "m = fm" using read a(3) by simp
  let ?r = "\<lparr>sr_file = sidecar, sr_meta = sm\<rparr>"
  have inputs: "proveInputs blake3 fs x = Inr (fm, ?r)"
    using args(1-6) a(3,5,7,9) built_validates(2)[OF a(8)]
    by (simp add: proveInputs_def Let_def equalHex_equiv(1) formatHash_def not_le not_less)
  have ps: "man_PageSize fm < 2 ^ 63" using a(11) by (simp add: word_less_nat_alt)
  have lim: "0 < lim_MaxPages DefaultLimits" "int (length required) \<le> lim_MaxPages DefaultLimits"
    "man_PageSize fm \<le> lim_MaxPageSize DefaultLimits"
    using limits by (simp_all add: DefaultLimits_def m)
  from proveWith_verifies[OF a(6,8,9) ps a(1) disjI2[OF a(10)] req[unfolded m] target lim]
  show ?thesis
  proof (elim disjE conjE exE)
    assume "proveWith blake3 fs x fm ?r = Some (Inl ToolTargetNotMet)" "cfg_Target x \<noteq> []"
    then show ?thesis by (simp add: runProve_def inputs)
  next
    fix pro result
    assume p: "proveWith blake3 fs x fm ?r = Some (Inr pro)" "prf_Version pro = ProofVersion"
      "sameChallenge (prf_Seal pro) (sealFor x fm)" "Verify blake3 fm pro (cfg_Target x) DefaultLimits = Some (Inr result)"
    let ?text = "json_marshalIndent (proof_json pro)" and ?fs' = "fs(cfg_ProofPath x \<mapsto> json_marshalIndent (proof_json pro))"
    have run: "runProve blake3 tmp fs x = Some (?fs', Inr ())"
      using writeFileAtomic_free[where fs = fs and tmp = tmp and path = "cfg_ProofPath x", OF out(2,1,3)]
        fun_upd_idem[where f = fs, OF out(2)] by (simp add: runProve_def inputs p(1))
    have "seal_PoWSampleCount (prf_Seal pro) = cfg_Samples x" "seal_TensorSampleCount (prf_Seal pro) = cfg_TensorSamples x"
      using p(3) by (cases "prf_Seal pro"; simp add: sameChallenge_def sealFor_def)+
    then have "unmarshalProof (json_marshal (proof_json pro)) = Some pro"
      using unmarshalProof_json[of pro] p(2) args(7,8) by (simp add: ProofVersion_def)
    then have um: "unmarshalProof ?text = Some pro"
      by (simp add: unmarshalProof_def unmarshal_indent unmarshal_json jdepth_proof)
    have "runVerifyProof blake3 ?fs' x =
        (if length ?text \<le> 8388608 then Some (Inr (result, pro)) else Some (Inl (ToolVerify (ProofTooLarge (length ?text)))))"
      using args(1,2) a(2,4,6) um p(4) out(4)
      by (simp add: runVerifyProof_def openFile_def LoadManifestBytes_def VerifyBytes_def DefaultLimits_def Let_def not_le)
    with run show ?thesis by (auto simp: Let_def)
  qed
qed

section \<open>The sidecar against the tree\<close>

lemma built_tree_proofs:
  assumes "builtFrom blake3 m dag pw tn r"
  shows "i < length pw \<Longrightarrow> \<exists>p. MerkleTree_Proof (NewMerkleTree blake3 treePoW pw) (of_nat i) = Inr p
      \<and> sidecarReader_Proof r treePoW (of_nat i) = Inr p \<and> MerkleSidecarReader_Proof r treePoW (of_nat i) = Inr p"
    "i < length tn \<Longrightarrow> \<exists>p. MerkleTree_Proof (NewMerkleTree blake3 treeTensor tn) (of_nat i) = Inr p
      \<and> sidecarReader_Proof r treeTensor (of_nat i) = Inr p \<and> MerkleSidecarReader_Proof r treeTensor (of_nat i) = Inr p"
proof -
  have tree: "MerkleTree_Proof (NewMerkleTree blake3 t xs) (of_nat j) = Inr (proofFrom formatHash (buildLevels (merkleNodeHash blake3 t) xs) j)"
    if "j < length xs" "length xs + 1 < 2 ^ 64" for t xs and j
  proof -
    have "\<not> (of_nat j :: u64) \<ge> of_nat (length xs)" "unat (of_nat j :: u64) = j"
      using that by (simp_all add: not_le of_nat_u64_less word_less_nat_alt unat_of_nat)
    moreover have "xs \<noteq> []" using that(1) by auto
    ultimately show ?thesis
      using buildLevels_ne[of "merkleNodeHash blake3 t" xs] hd_buildLevels[of "merkleNodeHash blake3 t" xs]
      by (simp add: MerkleTree_Proof_def NewMerkleTree_def)
  qed
  have "length pw + 1 < 2 ^ 64" "length tn + 1 < 2 ^ 64"
    using assms diskTree_levels(5) by (auto simp: builtFrom_def)
  then show "i < length pw \<Longrightarrow> \<exists>p. MerkleTree_Proof (NewMerkleTree blake3 treePoW pw) (of_nat i) = Inr p
      \<and> sidecarReader_Proof r treePoW (of_nat i) = Inr p \<and> MerkleSidecarReader_Proof r treePoW (of_nat i) = Inr p"
    "i < length tn \<Longrightarrow> \<exists>p. MerkleTree_Proof (NewMerkleTree blake3 treeTensor tn) (of_nat i) = Inr p
      \<and> sidecarReader_Proof r treeTensor (of_nat i) = Inr p \<and> MerkleSidecarReader_Proof r treeTensor (of_nat i) = Inr p"
    using tree built_Proof[OF assms] by metis+
qed

section \<open>The concrete run\<close>

lemma derive_single:
  assumes "man_TotalPages m \<noteq> 0" "man_ModelPageCount m \<noteq> 0"
  shows "\<exists>pw tn req. deriveRequiredProofPages blake3 m blockHash miner epoch nonce 1 1 = Some (Inr (pw, tn, req)) \<and> length req \<le> 2"
proof -
  have one: "\<exists>x. sampleUniqueIndices blake3 d m blockHash miner epoch nonce 1 start span = Some [x]" if "span \<noteq> 0" for d start span
    using that by (simp add: sampleUniqueIndices_def sampleLoop.simps Let_def sortSlice_def)
  obtain x y where "sampleUniqueIndices blake3 domainSamplePoW m blockHash miner epoch nonce 1 0 (man_TotalPages m) = Some [x]"
    "sampleUniqueIndices blake3 domainSampleTensor m blockHash miner epoch nonce 1 (man_ModelStartPage m) (man_ModelPageCount m) = Some [y]"
    using one assms by blast
  moreover have "\<not> 1 > man_TotalPages m" "\<not> 1 > man_ModelPageCount m"
    using assms by (simp_all add: word_less_nat_alt not_less unat_gt_0 Suc_le_eq)
  ultimately show ?thesis by (auto simp: deriveRequiredProofPages_def sortSlice_def)
qed

lemma ex_generated:
  obtains fs' model fm where "runGenerate hashE 1 exTmp rev ''now'' ''then'' exFs exConfig = Some (fs', Inr ())"
    "generatedOn hashE fs' ''o'' ''o.meta'' ''o.sidecar'' model" "readManifest fs' ''o.meta'' = Inr fm"
    "fs' ''e'' = None" "fs' ''.e'' = None" "fs' ''p'' = None" "fs' ''.p'' = None" "man_PageSize fm = 1048576"
proof -
  obtain fs' where run: "runGenerate hashE 1 exTmp rev ''now'' ''then'' exFs exConfig = Some (fs', Inr ())"
    using ex_run by blast
  have rv: "mset (rev rs) = mset rs" for rs :: "Result list" by simp
  show thesis
  proof (rule generated_files[OF run rv ex_small ex_tidy])
    fix model fm
    assume g: "generatedOn hashE fs' (cfg_OutPath exConfig) (cfg_MetaPath (genDefaults exConfig)) (cfg_SidecarPath (genDefaults exConfig)) model"
      "readManifest fs' (cfg_MetaPath (genDefaults exConfig)) = Inr fm" "man_PageSize fm = cfg_PageSize exConfig"
      and frame: "\<And>p. p \<notin> outputs exTmp (genDefaults exConfig) \<Longrightarrow> fs' p = exFs p"
    show thesis
      by (rule that[OF run]) (use g in \<open>simp_all add: frame outputs_def exDefaults exConfig_simps exTmp_def\<close>)
  qed
qed

section \<open>Properties\<close>

text \<open>
  C32: What \<open>gen\<close> writes, \<open>verify\<close> accepts. After a successful generation, with the workers' results
  arriving in any order, \<open>verify\<close> with the same paths finds the manifest, the roots recomputed from the
  file, the leaf counts and the sidecar consistent, whether the file is named as output or as DAG.
\<close>

theorem gen_then_verify:
  assumes run: "runGenerate blake3 numCPU tmp schedule now createdAt fs cfg = Some (fs', Inr ())"
    and schedule: "\<And>rs. mset (schedule rs) = mset rs"
    and small: "cfg_PageSize cfg < 2 ^ 32" "length createdAt \<le> 100" "\<forall>b \<in> ran fs. length b < 2 ^ 63"
    and tidy: "tidy tmp (genDefaults cfg)"
  shows "runVerify blake3 fs' (onOutput cfg) = Inr () \<and> runVerify blake3 fs' (cfg\<lparr>cfg_DagPath := []\<rparr>) = Inr ()"
proof (rule generated_files[OF run schedule small tidy])
  fix model
  assume on: "generatedOn blake3 fs' (cfg_OutPath cfg) (cfg_MetaPath (genDefaults cfg)) (cfg_SidecarPath (genDefaults cfg)) model"
  have "cfg_SidecarPath (genDefaults cfg) \<noteq> []" by (simp add: genDefaults_paths defaultSidecarExt_def)
  from generated_verifies[OF on this] generated_nonempty[OF run] show ?thesis
    by (simp add: runVerify_def genDefaults_paths Let_def split: if_splits)
qed

theorem gen_then_verify_witness:
  "\<exists>fs'. runGenerate hashE 1 exTmp rev ''now'' ''then'' exFs exConfig = Some (fs', Inr ())
    \<and> runVerify hashE fs' (onOutput exConfig) = Inr ()"
proof (rule exE[OF ex_run])
  fix fs' assume run: "runGenerate hashE 1 exTmp rev ''now'' ''then'' exFs exConfig = Some (fs', Inr ())"
  have "runVerify hashE fs' (onOutput exConfig) = Inr ()"
    by (rule conjunct1[OF gen_then_verify[OF run _ ex_small ex_tidy]]) simp
  with run show ?thesis by blast
qed

text \<open>
  C33: \<open>extract\<close> undoes \<open>gen\<close> on disk. After a successful generation, \<open>extract\<close> writes a file with exactly
  the bytes of the model that was packed, and changes no other file.
\<close>

theorem gen_extract_roundtrip:
  assumes run: "runGenerate blake3 numCPU tmp schedule now createdAt fs cfg = Some (fs', Inr ())"
    and schedule: "\<And>rs. mset (schedule rs) = mset rs"
    and small: "cfg_PageSize cfg < 2 ^ 32" "length createdAt \<le> 100" "\<forall>b \<in> ran fs. length b < 2 ^ 63"
    and tidy: "tidy tmp (genDefaults cfg)"
    and out: "fs' (tmp (cfg_ExtractTo cfg)) = None" "tmp (cfg_ExtractTo cfg) \<noteq> cfg_ExtractTo cfg"
  shows "\<exists>model. fs (cfg_ModelPath cfg) = Some model
    \<and> runExtract blake3 tmp fs' (onOutput cfg) = (fs'(cfg_ExtractTo cfg \<mapsto> model), Inr ())"
proof (rule generated_files[OF run schedule small tidy])
  fix model
  assume model: "fs (cfg_ModelPath cfg) = Some model"
    and on: "generatedOn blake3 fs' (cfg_OutPath cfg) (cfg_MetaPath (genDefaults cfg)) (cfg_SidecarPath (genDefaults cfg)) model"
  obtain fm where "readManifest fs' (cfg_MetaPath (genDefaults cfg)) = Inr fm" "validateManifestBasics fm = Inr ()"
    "extractTo blake3 tmp fs' (cfg_OutPath cfg) (cfg_ExtractTo cfg) fm = (fs'(cfg_ExtractTo cfg \<mapsto> model), Inr ())"
    by (rule extractTo_generated[where fs = fs' and tmp = tmp and out = "cfg_ExtractTo cfg", OF on out])
  with model generated_nonempty[OF run] show ?thesis
    by (simp add: runExtract_def genDefaults_paths Let_def split: if_splits)
qed

theorem gen_extract_roundtrip_witness:
  "\<exists>fs' model. runGenerate hashE 1 exTmp rev ''now'' ''then'' exFs exConfig = Some (fs', Inr ())
    \<and> exFs ''m'' = Some model \<and> runExtract hashE exTmp fs' (onOutput exConfig) = (fs'(''e'' \<mapsto> model), Inr ())"
proof (rule ex_generated)
  fix fs' assume run: "runGenerate hashE 1 exTmp rev ''now'' ''then'' exFs exConfig = Some (fs', Inr ())"
    and free: "fs' ''.e'' = None"
  have rv: "mset (rev rs) = mset rs" for rs :: "Result list" by simp
  have "fs' (exTmp (cfg_ExtractTo exConfig)) = None" "exTmp (cfg_ExtractTo exConfig) \<noteq> cfg_ExtractTo exConfig"
    using free by (simp_all add: exConfig_simps exTmp_def)
  from gen_extract_roundtrip[OF run rv ex_small ex_tidy this] run show ?thesis by (auto simp: exConfig_simps)
qed

text \<open>
  C34: \<open>prove\<close> is complete for generated DAGs. After a successful generation, once the sampling returns
  with at most 256 pages of at most 1 MiB and the target (if one is given) is well formed, \<open>prove\<close> either
  reports that the target is not met, or writes a proof that \<open>verify-proof\<close> accepts against the same
  manifest and target, unless the text is larger than the 8 MiB that \<open>verify-proof\<close> reads.
\<close>

theorem gen_prove_verify:
  assumes run: "runGenerate blake3 numCPU tmp schedule now createdAt fs cfg = Some (fs', Inr ())"
    and schedule: "\<And>rs. mset (schedule rs) = mset rs"
    and small: "cfg_PageSize cfg < 2 ^ 32" "length createdAt \<le> 100" "\<forall>b \<in> ran fs. length b < 2 ^ 63"
    and tidy: "tidy tmp (genDefaults cfg)"
    and args: "cfg_ProofPath cfg \<noteq> []" "cfg_BlockHash cfg \<noteq> []" "cfg_Miner cfg \<noteq> []"
      "0 < cfg_Samples cfg" "0 \<le> cfg_TensorSamples cfg" "fitsInt (cfg_Samples cfg)" "fitsInt (cfg_TensorSamples cfg)"
    and read: "readManifest fs' (cfg_MetaPath (genDefaults cfg)) = Inr m"
    and req: "deriveRequiredProofPages blake3 m (cfg_BlockHash cfg) (cfg_Miner cfg) (cfg_Epoch cfg) (cfg_Nonce cfg)
      (cfg_Samples cfg) (cfg_TensorSamples cfg) = Some (Inr (pw, tn, required))"
    and target: "cfg_Target cfg = [] \<or> dag_decodeHex32 (cfg_Target cfg) = Inr t"
    and limits: "length required \<le> 256" "cfg_PageSize cfg \<le> 2 ^ 20"
    and out: "cfg_Force cfg \<or> fs' (cfg_ProofPath cfg) = None" "fs' (tmp (cfg_ProofPath cfg)) = None"
      "tmp (cfg_ProofPath cfg) \<noteq> cfg_ProofPath cfg"
      "cfg_MetaPath (genDefaults cfg) \<notin> {cfg_ProofPath cfg, tmp (cfg_ProofPath cfg)}"
  shows "runProve blake3 tmp fs' (onOutput cfg) = Some (fs', Inl ToolTargetNotMet) \<and> cfg_Target cfg \<noteq> []
    \<or> (\<exists>pro result. let text = json_marshalIndent (proof_json pro); fs2 = fs'(cfg_ProofPath cfg \<mapsto> text) in
         runProve blake3 tmp fs' (onOutput cfg) = Some (fs2, Inr ()) \<and>
         runVerifyProof blake3 fs2 (onOutput cfg) =
           (if length text \<le> 8388608 then Some (Inr (result, pro)) else Some (Inl (ToolVerify (ProofTooLarge (length text))))))"
proof (rule generated_files[OF run schedule small tidy])
  fix model fm
  assume on: "generatedOn blake3 fs' (cfg_OutPath cfg) (cfg_MetaPath (genDefaults cfg)) (cfg_SidecarPath (genDefaults cfg)) model"
    and fm: "readManifest fs' (cfg_MetaPath (genDefaults cfg)) = Inr fm" "man_PageSize fm = cfg_PageSize cfg"
  have size: "man_PageSize m \<le> 2 ^ 20" using fm read limits(2) by simp
  have meta: "metaPathFor (onOutput cfg) = cfg_MetaPath (genDefaults cfg)" by (simp add: metaPathFor_def genDefaults_paths)
  have sel: "cfg_DagPath (onOutput cfg) = cfg_OutPath cfg" "cfg_SidecarPath (onOutput cfg) = cfg_SidecarPath cfg"
    "cfg_ProofPath (onOutput cfg) = cfg_ProofPath cfg" "cfg_BlockHash (onOutput cfg) = cfg_BlockHash cfg"
    "cfg_Miner (onOutput cfg) = cfg_Miner cfg" "cfg_Epoch (onOutput cfg) = cfg_Epoch cfg" "cfg_Nonce (onOutput cfg) = cfg_Nonce cfg"
    "cfg_Samples (onOutput cfg) = cfg_Samples cfg" "cfg_TensorSamples (onOutput cfg) = cfg_TensorSamples cfg"
    "cfg_Target (onOutput cfg) = cfg_Target cfg" "cfg_Force (onOutput cfg) = cfg_Force cfg" by simp_all
  show ?thesis
    by (rule runProve_generated[where x = "onOutput cfg" and tmp = tmp and fs = fs', unfolded meta sel,
          OF on[unfolded genDefaults_paths(2)] read generated_nonempty[OF run] args req target limits(1) size out])
qed

theorem gen_prove_verify_witness:
  "\<exists>fs' fs2. runGenerate hashE 1 exTmp rev ''now'' ''then'' exFs exConfig = Some (fs', Inr ())
    \<and> runProve hashE exTmp fs' (onOutput exConfig) = Some (fs2, Inr ())"
proof (rule ex_generated)
  fix fs' model fm assume run: "runGenerate hashE 1 exTmp rev ''now'' ''then'' exFs exConfig = Some (fs', Inr ())"
    and on: "generatedOn hashE fs' ''o'' ''o.meta'' ''o.sidecar'' model" and read: "readManifest fs' ''o.meta'' = Inr fm"
    and free: "fs' ''p'' = None" "fs' ''.p'' = None"
  have rv: "mset (rev rs) = mset rs" for rs :: "Result list" by simp
  have "man_TotalPages fm \<noteq> 0 \<and> man_ModelPageCount fm \<noteq> 0"
  proof (rule generatedOn_parts[OF on])
    fix m assume "readManifest fs' ''o.meta'' = Inr m" "validateManifestBasics m = Inr ()"
    then have "m = fm" "man_TotalPages m \<noteq> 0" "man_ModelPageCount m \<noteq> 0"
      using read unfolding validateManifestBasics_iff by (simp, blast+)
    then show ?thesis by simp
  qed
  then have "man_TotalPages fm \<noteq> 0" "man_ModelPageCount fm \<noteq> 0" by simp_all
  from derive_single[OF this, of hashE "''aa''" "''m''" 0 0] obtain pw tn req where req:
    "deriveRequiredProofPages hashE fm (cfg_BlockHash exConfig) (cfg_Miner exConfig) (cfg_Epoch exConfig) (cfg_Nonce exConfig)
      (cfg_Samples exConfig) (cfg_TensorSamples exConfig) = Some (Inr (pw, tn, req))" "length req \<le> 2"
    by (auto simp: exConfig_simps)
  have "readManifest fs' (cfg_MetaPath (genDefaults exConfig)) = Inr fm" using read by (simp add: exDefaults)
  note pre = this
  have t: "cfg_Target exConfig = []" by (simp add: exConfig_simps)
  have args: "cfg_ProofPath exConfig \<noteq> []" "cfg_BlockHash exConfig \<noteq> []" "cfg_Miner exConfig \<noteq> []"
    "0 < cfg_Samples exConfig" "0 \<le> cfg_TensorSamples exConfig" "fitsInt (cfg_Samples exConfig)" "fitsInt (cfg_TensorSamples exConfig)"
    "length req \<le> 256" "cfg_PageSize exConfig \<le> 2 ^ 20"
    using req(2) by (simp_all add: exConfig_simps)
  have out: "cfg_Force exConfig \<or> fs' (cfg_ProofPath exConfig) = None" "fs' (exTmp (cfg_ProofPath exConfig)) = None"
    "exTmp (cfg_ProofPath exConfig) \<noteq> cfg_ProofPath exConfig"
    "cfg_MetaPath (genDefaults exConfig) \<notin> {cfg_ProofPath exConfig, exTmp (cfg_ProofPath exConfig)}"
    using free by (simp_all add: exConfig_simps exDefaults exTmp_def)
  from gen_prove_verify[OF run rv ex_small ex_tidy args(1-7) pre req(1) disjI1[OF t] args(8,9) out]
  obtain fs2 where "runProve hashE exTmp fs' (onOutput exConfig) = Some (fs2, Inr ())"
    unfolding Let_def using t by blast
  with run show ?thesis by blast
qed

text \<open>
  C35: A sidecar file refines the Merkle trees. The sidecar built for a DAG, wherever it is stored later, is
  opened by both readers and validates against the manifest, and for every PoW leaf and every tensor leaf
  both return the path that the in-memory tree over the leaves of the DAG returns.
\<close>

theorem sidecar_refines_tree:
  assumes build: "buildMerkleSidecarTempFromDAG blake3 fs dagPath m now = Inr (f, sm)" and now: "length now \<le> 100"
    and fits: "unat (man_TotalPages m) * unat (man_PageSize m) < 2 ^ 63" and at: "fs' path = Some f"
  shows "\<exists>dag pw tn r. fs dagPath = Some dag
    \<and> mapE (powLeaf blake3 dag m) [0..<unat (man_TotalPages m)] = Inr pw
    \<and> mapE (tensorLeaf blake3 dag m) [unat (man_ModelStartPage m)..<unat (man_ModelEndPage m)] = Inr tn
    \<and> openSidecar fs' path = Inr r \<and> validateManifest r m = Inr ()
    \<and> openMerkleSidecar fs' path = Inr r \<and> validateAgainstManifest r m = Inr ()
    \<and> (\<forall>i < length pw. \<exists>p. MerkleTree_Proof (NewMerkleTree blake3 treePoW pw) (of_nat i) = Inr p
        \<and> sidecarReader_Proof r treePoW (of_nat i) = Inr p \<and> MerkleSidecarReader_Proof r treePoW (of_nat i) = Inr p)
    \<and> (\<forall>i < length tn. \<exists>p. MerkleTree_Proof (NewMerkleTree blake3 treeTensor tn) (of_nat i) = Inr p
        \<and> sidecarReader_Proof r treeTensor (of_nat i) = Inr p \<and> MerkleSidecarReader_Proof r treeTensor (of_nat i) = Inr p)"
proof -
  note b = built_sidecar[where fs' = fs' and path = path, OF build now fits at]
  obtain dag pw tn where d: "fs dagPath = Some dag" "builtFrom blake3 m dag pw tn \<lparr>sr_file = f, sr_meta = sm\<rparr>" using b(3) by blast
  have "mapE (powLeaf blake3 dag m) [0..<unat (man_TotalPages m)] = Inr pw"
    "mapE (tensorLeaf blake3 dag m) [unat (man_ModelStartPage m)..<unat (man_ModelEndPage m)] = Inr tn"
    using d(2) by (simp_all add: builtFrom_def mapE_eq_Inr)
  note facts = d(1) this b(1) built_validates(1)[OF d(2)] b(2) built_validates(2)[OF d(2)]
  show ?thesis
    by (rule exI[of _ dag], rule exI[of _ pw], rule exI[of _ tn], rule exI[of _ "\<lparr>sr_file = f, sr_meta = sm\<rparr>"])
      (intro conjI facts allI impI built_tree_proofs[OF d(2)])
qed

theorem sidecar_refines_tree_witness:
  "\<exists>fs' fm r. runGenerate hashE 1 exTmp rev ''now'' ''then'' exFs exConfig = Some (fs', Inr ())
    \<and> readManifest fs' ''o.meta'' = Inr fm \<and> openSidecar fs' ''o.sidecar'' = Inr r \<and> validateManifest r fm = Inr ()"
proof (rule ex_generated)
  fix fs' model assume run: "runGenerate hashE 1 exTmp rev ''now'' ''then'' exFs exConfig = Some (fs', Inr ())"
    and on: "generatedOn hashE fs' ''o'' ''o.meta'' ''o.sidecar'' model"
  show ?thesis
  proof (rule generatedOn_parts[OF on])
    fix fm f sidecar sm fsb tmpDag createdAt
    assume a: "fs' ''o.sidecar'' = Some sidecar" "readManifest fs' ''o.meta'' = Inr fm"
      "buildMerkleSidecarTempFromDAG hashE fsb tmpDag fm createdAt = Inr (sidecar, sm)" "length createdAt \<le> 100"
      "unat (man_TotalPages fm) * unat (man_PageSize fm) < 2 ^ 63"
    from sidecar_refines_tree[where fs' = fs' and path = "''o.sidecar''", OF a(3,4,5,1)] a(2) run show ?thesis by blast
  qed
qed

text \<open>
  The prover of the mining process is complete. With the DAG and its sidecar on disk and the sampling
  returning within the verifier's limits, \<open>ProveFiles\<close> either reports that the target is not met, or returns a
  proof and its text; the verifier decodes the text into the proof and accepts it for the target, and the
  proof answers the challenge of the configuration.
\<close>

theorem prover_complete:
  assumes valid: "ValidateManifest blake3 (pc_Manifest cfg) = Inr ()"
    and build: "buildMerkleSidecarTempFromDAG blake3 fs0 dagPath (pc_Manifest cfg) now = Inr (f, sm)" "fs0 dagPath = Some dag"
      "length now \<le> 100"
    and fits: "unat (man_TotalPages (pc_Manifest cfg)) * unat (man_PageSize (pc_Manifest cfg)) < 2 ^ 63"
    and files: "fs (sidecarPathOf cfg) = Some f" "fs (pc_DAGPath cfg) = Some dag"
      "of_nat (length dag) = man_TotalBytes (pc_Manifest cfg)"
    and cfg: "pc_DAGPath cfg \<noteq> []" "pc_BlockHash cfg \<noteq> []" "pc_Miner cfg \<noteq> []"
    and samples: "pc_PoWSamples cfg > 0" "pc_TensorSamples cfg \<ge> 0"
      "pc_TensorSamples cfg = 0 \<or> 192 \<le> man_PageSize (pc_Manifest cfg)"
      "fitsInt (pc_PoWSamples cfg)" "fitsInt (pc_TensorSamples cfg)"
    and req: "deriveRequiredPages blake3 (pc_Manifest cfg) (challengeSeal cfg) = Some (Inr (pw, tn, required))"
    and ctx: "\<forall>i \<in> set required. \<not> ctxDone i"
    and limits: "0 < lim_MaxPages limits" "int (length required) \<le> lim_MaxPages limits"
      "man_PageSize (pc_Manifest cfg) \<le> lim_MaxPageSize limits"
  shows "ProveFiles blake3 ctxDone fs cfg = Some (Inl ProveTargetNotMet) \<and> pc_Target cfg \<noteq> []
    \<or> (\<exists>pro text result. ProveFiles blake3 ctxDone fs cfg = Some (Inr (pro, text))
        \<and> unmarshalProof text = Some pro
        \<and> Verify blake3 (pc_Manifest cfg) pro (pc_Target cfg) limits = Some (Inr result)
        \<and> VerifyExpected pro result (challengeOf cfg) = Inr ())"
proof -
  have um: "unmarshalProof (json_marshal (proof_json pro)) = Some pro"
    if "prf_Version pro = ProofVersion" "sameChallenge (prf_Seal pro) (challengeSeal cfg)" for pro
  proof -
    have "seal_PoWSampleCount (prf_Seal pro) = pc_PoWSamples cfg" "seal_TensorSampleCount (prf_Seal pro) = pc_TensorSamples cfg"
      using that(2) by (cases "prf_Seal pro"; simp add: sameChallenge_def challengeSeal_def Let_def)+
    then show ?thesis using unmarshalProof_json[of pro] that(1) samples(4,5) by (simp add: ProofVersion_def)
  qed
  from ProveFiles_built[OF valid refl build fits files cfg samples(1-3) req ctx limits] show ?thesis
    using um by blast
qed

theorem prover_complete_witness:
  "\<exists>fs' cfg pro text. ProveFiles hashE (\<lambda>_. False) fs' cfg = Some (Inr (pro, text)) \<and> unmarshalProof text = Some pro"
proof (rule ex_generated)
  fix fs' model assume on: "generatedOn hashE fs' ''o'' ''o.meta'' ''o.sidecar'' model"
  show ?thesis
  proof (rule generatedOn_parts[OF on])
    fix fm f sidecar sm fsb tmpDag createdAt
    assume a: "fs' ''o'' = Some f" "fs' ''o.sidecar'' = Some sidecar" "validateManifestBasics fm = Inr ()" "ValidateManifest hashE fm = Inr ()"
      "buildMerkleSidecarTempFromDAG hashE fsb tmpDag fm createdAt = Inr (sidecar, sm)" "fsb tmpDag = Some f" "length createdAt \<le> 100"
      "unat (man_TotalPages fm) * unat (man_PageSize fm) < 2 ^ 63" "192 \<le> man_PageSize fm" "of_nat (length f) = man_TotalBytes fm"
    define cfg where "cfg = proveConfigOf (onOutput exConfig) fm"
    have c: "pc_Manifest cfg = fm" "pc_DAGPath cfg = ''o''" "pc_SidecarPath cfg = []" "pc_Miner cfg = ''m''" "pc_PoWSamples cfg = 1"
      "pc_TensorSamples cfg = 1" "pc_Target cfg = []" "pc_BlockHash cfg = normalizeArbitraryHexOrString ''aa''"
      by (simp_all add: cfg_def proveConfigOf_def exConfig_simps exConfig_def sampleConfig_def)
    have bh: "pc_BlockHash cfg \<noteq> []" unfolding c(8) by code_simp
    have "man_TotalPages fm \<noteq> 0" "man_ModelPageCount fm \<noteq> 0"
      using a(3) unfolding validateManifestBasics_iff by blast+
    from derive_single[OF this, of hashE "''aa''" "''m''" 0 0] obtain pw tn req
      where r: "deriveRequiredProofPages hashE fm ''aa'' ''m'' 0 0 1 1 = Some (Inr (pw, tn, req))" "length req \<le> 2" by blast
    have "deriveRequiredPages hashE (pc_Manifest cfg) (challengeSeal cfg) = Some (Inr (pw, tn, req))"
    proof -
      have "normalizeArbitraryHexOrString ''aa'' = normalizeArbitrary (seal_BlockHash (challengeSeal cfg))"
        unfolding cfg_def challengeSeal_tool by (simp add: sealFor_def normalizeArbitrary_tool exConfig_simps)
      from deriveRequiredProofPages_eq[OF this, where miner = "''m''"] r(1) show ?thesis
        unfolding cfg_def challengeSeal_tool by (simp add: sealFor_def exConfig_simps proveConfigOf_def TrimSpace_ToLower)
    qed
    note req = this
    have files: "fs' (sidecarPathOf cfg) = Some sidecar" "fs' (pc_DAGPath cfg) = Some f"
      using a(1,2) by (simp_all add: sidecarPathOf_def c)
    define limits where "limits = \<lparr>lim_MaxProofBytes = 1, lim_MaxPages = 256, lim_MaxPageSize = - 1\<rparr>"
    have l: "0 < lim_MaxPages limits" "int (length req) \<le> lim_MaxPages limits" "man_PageSize (pc_Manifest cfg) \<le> lim_MaxPageSize limits"
      using r(2) by (simp_all add: limits_def word_order.extremum)
    have s: "pc_PoWSamples cfg > 0" "pc_TensorSamples cfg \<ge> 0" "pc_TensorSamples cfg = 0 \<or> 192 \<le> man_PageSize (pc_Manifest cfg)"
      "fitsInt (pc_PoWSamples cfg)" "fitsInt (pc_TensorSamples cfg)" "pc_DAGPath cfg \<noteq> []" "pc_Miner cfg \<noteq> []"
      using a(9) by (simp_all add: c)
    have ctx: "\<forall>i \<in> set req. \<not> (\<lambda>_. False) i" by simp
    note p = prover_complete[where fs = fs' and cfg = cfg, unfolded c(1), OF a(4,5,6,7,8) files a(10) s(6) bh s(7)
        s(1,2) s(3)[unfolded c(1)] s(4,5) req[unfolded c(1)] ctx l(1,2) l(3)[unfolded c(1)]]
    from p c(7) show ?thesis by blast
  qed
qed

end
