(* ===== verification/EngineClient.thy ===== *)
theory EngineClient
  imports Engine Evm Decode
begin

text \<open>
  The Engine API client (\<open>internal/engine/client.go\<close>): an execution engine behind JSON-RPC over HTTP with
  a JWT, whose only state in this process is the request counter and the head.

  What is on the other side of the connection is the record \<open>'s world\<close>: an HTTP exchange on the state
  \<open>'s\<close> of the endpoint, which takes the URL, the bearer token and the body and returns the status and the body of
  the answer (\<^const>\<open>None\<close> when the request cannot be made or the connection fails), and the clock in seconds.
  Strings are ASCII where the code folds their case.
\<close>

section \<open>Raw messages inside an object\<close>

text \<open>The members of an object after its opening bracket, each with the text of its value and the value.\<close>

fun rawMembers :: "nat \<Rightarrow> string \<Rightarrow> (string \<times> string \<times> jval) list option" where
  "rawMembers 0 s = None"
| "rawMembers (Suc n) s =
     (if \<not> HasPrefix (skipWs s) [quoteC] then None
      else case parseStr (tl (skipWs s)) of
        None \<Rightarrow> None
      | Some (k, q) \<Rightarrow>
          if \<not> HasPrefix (skipWs q) '':'' then None
          else let t = skipWs (tl (skipWs q)) in
            case parseValue goLiteral n t of
              None \<Rightarrow> None
            | Some (v, r) \<Rightarrow>
                let m = (k, take (length t - length r) t, v) in
                if HasPrefix (skipWs r) ''}'' then Some [m]
                else if HasPrefix (skipWs r) '','' then map_option (\<lambda>ms. m # ms) (rawMembers n (tl (skipWs r)))
                else None)"

text \<open>\<open>json.Unmarshal\<close> into a struct with the given fields of type \<open>json.RawMessage\<close>.\<close>

definition decodeRaw :: "string list \<Rightarrow> (string \<times> 'a setter) list \<Rightarrow> 'a \<Rightarrow> string \<Rightarrow> 'a option" where
  "decodeRaw rawNames tbl zero s =
     (case parseJson goLiteral s of
        Some JNull \<Rightarrow> Some zero
      | Some (JObj []) \<Rightarrow> Some zero
      | Some (JObj _) \<Rightarrow>
          Option.bind (rawMembers (2 * length s + 2) (tl (skipWs s))) (\<lambda>ms.
            decodeMembers tbl
              (map (\<lambda>(k, t, v). (k, if ToLower k \<in> set (map ToLower rawNames) then JRaw t else v)) ms) zero)
      | _ \<Rightarrow> None)"

definition setRaw :: "((string \<Rightarrow> string) \<Rightarrow> 'a \<Rightarrow> 'a) \<Rightarrow> 'a setter" where
  "setRaw upd v x = (case v of JRaw t \<Rightarrow> Some (upd (\<lambda>_. t) x) | _ \<Rightarrow> None)"

text \<open>A pointer to a string, and a slice of strings.\<close>

definition setStrPtr :: "((string option \<Rightarrow> string option) \<Rightarrow> 'a \<Rightarrow> 'a) \<Rightarrow> 'a setter" where
  "setStrPtr upd v x =
     (case v of JNull \<Rightarrow> Some (upd (\<lambda>_. None) x) | JStr s \<Rightarrow> Some (upd (\<lambda>_. Some s) x) | _ \<Rightarrow> None)"

definition setStrings :: "((string slice \<Rightarrow> string slice) \<Rightarrow> 'a \<Rightarrow> 'a) \<Rightarrow> 'a setter" where
  "setStrings upd v x =
     (case v of
        JNull \<Rightarrow> Some (upd (\<lambda>_. None) x)
      | JArr vs \<Rightarrow>
          map_option (\<lambda>ss. upd (\<lambda>_. Some ss) x)
            (those (map (\<lambda>e. case e of JStr s \<Rightarrow> Some s | JNull \<Rightarrow> Some [] | _ \<Rightarrow> None) vs))
      | _ \<Rightarrow> None)"

section \<open>The wire types\<close>

record forkchoiceState =
  fc_Head :: string
  fc_Safe :: string
  fc_Finalized :: string

definition forkchoiceState_json :: "forkchoiceState \<Rightarrow> jval" where
  "forkchoiceState_json s =
     JObj [(''headBlockHash'', JStr (fc_Head s)), (''safeBlockHash'', JStr (fc_Safe s)),
       (''finalizedBlockHash'', JStr (fc_Finalized s))]"

definition allAt :: "string \<Rightarrow> forkchoiceState" where
  "allAt h = \<lparr>fc_Head = h, fc_Safe = h, fc_Finalized = h\<rparr>"

text \<open>\<open>Withdrawals\<close> is always the empty list and has no field here.\<close>

record payloadAttributes =
  pa_Timestamp :: string
  pa_PrevRandao :: string
  pa_SuggestedFeeRecipient :: string
  pa_ParentBeaconBlockRoot :: string
  pa_SlotNumber :: string
  pa_TargetGasLimit :: string

definition payloadAttributes_json :: "payloadAttributes \<Rightarrow> jval" where
  "payloadAttributes_json a =
     JObj ([(''timestamp'', JStr (pa_Timestamp a)), (''prevRandao'', JStr (pa_PrevRandao a)),
       (''suggestedFeeRecipient'', JStr (pa_SuggestedFeeRecipient a)), (''withdrawals'', JArr []),
       (''parentBeaconBlockRoot'', JStr (pa_ParentBeaconBlockRoot a))]
       @ omitStr ''slotNumber'' (pa_SlotNumber a) @ omitStr ''targetGasLimit'' (pa_TargetGasLimit a))"

record payloadStatus =
  ps_Status :: string
  ps_LatestValidHash :: "string option"
  ps_ValidationError :: "string option"

definition zeroStatus :: payloadStatus where
  "zeroStatus = \<lparr>ps_Status = [], ps_LatestValidHash = None, ps_ValidationError = None\<rparr>"

definition payloadStatusFields :: "(string \<times> payloadStatus setter) list" where
  "payloadStatusFields =
     [(''status'', setStr ps_Status_update), (''latestValidHash'', setStrPtr ps_LatestValidHash_update),
      (''validationError'', setStrPtr ps_ValidationError_update)]"

record forkchoiceResponse =
  fr_PayloadStatus :: payloadStatus
  fr_PayloadID :: "string option"

definition forkchoiceResponseFields :: "(string \<times> forkchoiceResponse setter) list" where
  "forkchoiceResponseFields =
     [(''payloadStatus'', setStruct payloadStatusFields fr_PayloadStatus fr_PayloadStatus_update),
      (''payloadId'', setStrPtr fr_PayloadID_update)]"

record getPayloadResponse =
  gp_ExecutionPayload :: RawMessage
  gp_BlockValue :: string
  gp_ExecutionRequests :: "string slice"

definition getPayloadResponseFields :: "(string \<times> getPayloadResponse setter) list" where
  "getPayloadResponseFields =
     [(''executionPayload'', setRaw gp_ExecutionPayload_update), (''blockValue'', setStr gp_BlockValue_update),
      (''executionRequests'', setStrings gp_ExecutionRequests_update)]"

definition decodeStatus :: "string \<Rightarrow> payloadStatus option" where
  "decodeStatus s = decodeRaw [] payloadStatusFields zeroStatus s"

definition decodeForkchoice :: "string \<Rightarrow> forkchoiceResponse option" where
  "decodeForkchoice s =
     decodeRaw [] forkchoiceResponseFields \<lparr>fr_PayloadStatus = zeroStatus, fr_PayloadID = None\<rparr> s"

definition decodeGetPayload :: "string \<Rightarrow> getPayloadResponse option" where
  "decodeGetPayload s =
     decodeRaw [''executionPayload''] getPayloadResponseFields
       \<lparr>gp_ExecutionPayload = [], gp_BlockValue = [], gp_ExecutionRequests = None\<rparr> s"

text \<open>The answer of the endpoint: the result and the error.\<close>

definition setRPCError :: "rpcResponse setter" where
  "setRPCError v x =
     (case v of
        JNull \<Rightarrow> Some (apsnd (\<lambda>_. None) x)
      | _ \<Rightarrow>
          map_option (\<lambda>e. apsnd (\<lambda>_. Some e) x)
            (decodeStruct [(''code'', setInt apfst), (''message'', setStr apsnd)] v
               (case snd x of None \<Rightarrow> (0, []) | Some e \<Rightarrow> e)))"

definition unmarshalRPC :: "bytes \<Rightarrow> rpcResponse option" where
  "unmarshalRPC body = decodeRaw [''result''] [(''result'', setRaw apfst), (''error'', setRPCError)] ([], None) (string_of body)"

section \<open>The token\<close>

text \<open>\<open>crypto/hmac\<close> over a hash with blocks of 64 bytes.\<close>

definition hmac :: "(bytes \<Rightarrow> bytes) \<Rightarrow> bytes \<Rightarrow> bytes \<Rightarrow> bytes" where
  "hmac sha256 key msg =
     (let key = (if length key > 64 then sha256 key else key);
          block = key @ replicate (64 - length key) 0
      in sha256 (map (\<lambda>b. xor b 0x5c) block @ sha256 (map (\<lambda>b. xor b 0x36) block @ msg)))"

definition RawURLEncode :: "bytes \<Rightarrow> string" where
  "RawURLEncode b =
     map (\<lambda>c. if c = CHR ''+'' then CHR ''-'' else if c = CHR ''/'' then CHR ''_'' else c)
       (filter (\<lambda>c. c \<noteq> CHR ''='') (EncodeToString b))"

definition jwt :: "(bytes \<Rightarrow> bytes) \<Rightarrow> bytes \<Rightarrow> int \<Rightarrow> string" where
  "jwt sha256 secret now =
     (let header = RawURLEncode (bytes_of (jsonText (JObj [(''alg'', JStr ''HS256''), (''typ'', JStr ''JWT'')])));
          claims = json_marshal (JObj [(''iat'', JNum now)]);
          unsigned = header @ ''.'' @ RawURLEncode claims
      in unsigned @ ''.'' @ RawURLEncode (hmac sha256 secret (bytes_of unsigned)))"

section \<open>Construction\<close>

datatype client_error =
    URLRequired
  | ClientFork string
  | JWTSecretLength
  | GenesisHashInvalid
  | JWTSecretRequired
  | JWTSecretInvalid

record ClientConfig =
  cc_URL :: string
  cc_Fork :: string
  cc_GenesisHash :: string
  cc_JWTSecret :: bytes

record Client =
  cl_url :: string
  cl_fork :: string
  cl_jwtSecret :: bytes
  cl_id :: u64
  cl_head :: string

definition EngineClient_New :: "ClientConfig \<Rightarrow> client_error + Client" where
  "EngineClient_New cfg =
     (if TrimSpace (cc_URL cfg) = [] then Inl URLRequired
      else
        let cfg = (if cc_Fork cfg = [] then cfg\<lparr>cc_Fork := ForkOsaka\<rparr> else cfg)
        in if cc_Fork cfg \<noteq> ForkOsaka \<and> cc_Fork cfg \<noteq> ForkAmsterdam then Inl (ClientFork (cc_Fork cfg))
           else if length (cc_JWTSecret cfg) \<noteq> 32 then Inl JWTSecretLength
           else if \<not> isHash32 (normalizeHash (cc_GenesisHash cfg)) then Inl GenesisHashInvalid
           else Inr \<lparr>cl_url = TrimRightSlash (cc_URL cfg), cl_fork = cc_Fork cfg, cl_jwtSecret = cc_JWTSecret cfg,
                     cl_id = 0, cl_head = normalizeHash (cc_GenesisHash cfg)\<rparr>)"

text \<open>The argument is the name of a file with the secret, or the secret.\<close>

definition LoadJWTSecret :: "(string \<rightharpoonup> bytes) \<Rightarrow> string \<Rightarrow> client_error + bytes" where
  "LoadJWTSecret fs pathOrHex =
     (let v = TrimSpace pathOrHex in
      if v = [] then Inl JWTSecretRequired
      else
        let v = (case fs v of Some data \<Rightarrow> TrimSpace (string_of data) | None \<Rightarrow> v);
            v = TrimPrefix v ''0x''
        in case hexDecode v of
             None \<Rightarrow> Inl JWTSecretInvalid
           | Some secret \<Rightarrow> if length secret \<noteq> 32 then Inl JWTSecretInvalid else Inr secret)"

section \<open>Calls\<close>

record 's world =
  wd_post :: "'s \<Rightarrow> string \<Rightarrow> string \<Rightarrow> bytes \<Rightarrow> 's \<times> (nat \<times> bytes) option"
  wd_now :: "'s \<Rightarrow> int"

text \<open>The encoder refuses raw messages that are not JSON.\<close>

fun rawsOK :: "jval \<Rightarrow> bool" where
  "rawsOK (JRaw t) = (t = [] \<or> json_Valid t)"
| "rawsOK (JArr vs) = list_all rawsOK vs"
| "rawsOK (JObj ms) = list_all (\<lambda>(k, v). rawsOK v) ms"
| "rawsOK _ = True"

definition rpcCall_json :: "u64 \<Rightarrow> string \<Rightarrow> jval list \<Rightarrow> jval" where
  "rpcCall_json n method params =
     JObj [(''jsonrpc'', JStr ''2.0''), (''id'', jU64 n), (''method'', JStr method), (''params'', JArr params)]"

definition call ::
  "(bytes \<Rightarrow> bytes) \<Rightarrow> 's world \<Rightarrow> (string \<Rightarrow> 'r option) \<Rightarrow> Client \<times> 's \<Rightarrow> string \<Rightarrow> jval list
     \<Rightarrow> (Client \<times> 's) \<times> (engine_error + 'r)" where
  "call sha256 w decode cs method params =
     (let (c, s) = cs;
          c = c\<lparr>cl_id := cl_id c + 1\<rparr>;
          request = rpcCall_json (cl_id c) method params
      in if \<not> rawsOK request then ((c, s), Inl (EngineCall CallMarshal))
         else case wd_post w s (cl_url c) (jwt sha256 (cl_jwtSecret c) (wd_now w s)) (json_marshal request) of
           (s, None) \<Rightarrow> ((c, s), Inl (EngineCall CallHTTP))
         | (s, Some (status, body)) \<Rightarrow>
             ((c, s),
              let body = take 33554432 body in
              if status < 200 \<or> status \<ge> 300 then Inl (EngineCall (CallStatus status))
              else case unmarshalRPC body of
                None \<Rightarrow> Inl (EngineCall CallNotJSON)
              | Some (_, Some (code, message)) \<Rightarrow> Inl (EngineCall (CallRPC code message))
              | Some (result, None) \<Rightarrow>
                  if result = [] then Inl (EngineCall CallNoResult)
                  else ofOption (EngineCall CallBadResult) (decode result)))"

definition toUpperC :: "char \<Rightarrow> char" where
  "toUpperC c = (if 97 \<le> (of_char c :: nat) \<and> (of_char c :: nat) \<le> 122 then char_of ((of_char c :: nat) - 32) else c)"

definition requireValidStatus :: "payloadStatus \<Rightarrow> engine_error + unit" where
  "requireValidStatus status =
     (if map toUpperC (ps_Status status) \<noteq> ''VALID''
      then Inl (StatusNotValid (ps_Status status @ (case ps_ValidationError status of None \<Rightarrow> [] | Some e \<Rightarrow> '': '' @ e)))
      else Inr ())"

section \<open>The engine\<close>

record payloadView =
  pv_ParentHash :: string
  pv_StateRoot :: string
  pv_BlockNumber :: string
  pv_Timestamp :: string
  pv_BlockHash :: string
  pv_BlobGasUsed :: string

definition payloadViewFields :: "(string \<times> payloadView setter) list" where
  "payloadViewFields =
     [(''parentHash'', setStr pv_ParentHash_update), (''stateRoot'', setStr pv_StateRoot_update),
      (''blockNumber'', setStr pv_BlockNumber_update), (''timestamp'', setStr pv_Timestamp_update),
      (''blockHash'', setStr pv_BlockHash_update), (''blobGasUsed'', setStr pv_BlobGasUsed_update)]"

definition decodeView :: "string \<Rightarrow> payloadView option" where
  "decodeView s =
     decodeRaw [] payloadViewFields
       \<lparr>pv_ParentHash = [], pv_StateRoot = [], pv_BlockNumber = [], pv_Timestamp = [], pv_BlockHash = [], pv_BlobGasUsed = []\<rparr> s"

definition envelopeFromPayload ::
  "string \<Rightarrow> RawMessage \<Rightarrow> string \<Rightarrow> string slice \<Rightarrow> string \<Rightarrow> engine_error + ExecutionPayloadEnvelope" where
  "envelopeFromPayload fork payload beaconRoot requests blockValue =
     bindE (ofOption PayloadUndecodable (decodeView payload)) (\<lambda>view.
       if pv_BlobGasUsed view \<noteq> [] \<and> pv_BlobGasUsed view \<noteq> ''0x0'' then Inl BlobsUnsupported
       else
         let envelope = \<lparr>ex_Fork = fork, ex_Payload = payload, ex_BlockHash = pv_BlockHash view,
               ex_ParentHash = pv_ParentHash view, ex_StateRoot = pv_StateRoot view, ex_BlockNumber = pv_BlockNumber view,
               ex_Timestamp = pv_Timestamp view, ex_ParentBeaconBlockRoot = beaconRoot,
               ex_ExpectedBlobVersionedHashes = Some [], ex_ExecutionRequests = requests, ex_BlockValue = blockValue\<rparr>
         in bindE (ValidateEnvelope envelope) (\<lambda>_. Inr envelope))"

definition attributesFor :: "string \<Rightarrow> BuildInput \<Rightarrow> payloadAttributes" where
  "attributesFor fork input =
     (let a = \<lparr>pa_Timestamp = quantity (bi_Timestamp input), pa_PrevRandao = normalizeHash (bi_PrevRandao input),
            pa_SuggestedFeeRecipient = bi_SuggestedFeeRecipient input,
            pa_ParentBeaconBlockRoot = normalizeHash (bi_ParentBeaconBlockRoot input),
            pa_SlotNumber = [], pa_TargetGasLimit = []\<rparr>
      in if fork = ForkAmsterdam
         then a\<lparr>pa_SlotNumber := quantity (bi_SlotNumber input), pa_TargetGasLimit := quantity (bi_TargetGasLimit input)\<rparr>
         else a)"

definition Client_Build ::
  "(bytes \<Rightarrow> bytes) \<Rightarrow> 's world \<Rightarrow> Client \<times> 's \<Rightarrow> BuildInput \<Rightarrow> (Client \<times> 's) \<times> (engine_error + ExecutionPayloadEnvelope)" where
  "Client_Build sha256 w cs input =
     (let fork = cl_fork (fst cs);
          state = forkchoiceState_json (allAt (cl_head (fst cs)));
          attributes = attributesFor fork input;
          (method, params) =
            (if fork = ForkAmsterdam
             then (''engine_forkchoiceUpdatedV4'', [state, payloadAttributes_json attributes, JNull])
             else (''engine_forkchoiceUpdatedV3'', [state, payloadAttributes_json attributes]))
      in case call sha256 w decodeForkchoice cs method params of
           (cs, Inl e) \<Rightarrow> (cs, Inl e)
         | (cs, Inr update) \<Rightarrow>
             (case requireValidStatus (fr_PayloadStatus update) of
                Inl e \<Rightarrow> (cs, Inl e)
              | Inr _ \<Rightarrow>
                  (case fr_PayloadID update of
                     None \<Rightarrow> (cs, Inl NoPayloadID)
                   | Some payloadID \<Rightarrow>
                       if payloadID = [] then (cs, Inl NoPayloadID)
                       else
                         let getMethod = (if fork = ForkAmsterdam then ''engine_getPayloadV6'' else ''engine_getPayloadV5'')
                         in case call sha256 w decodeGetPayload cs getMethod [JStr payloadID] of
                              (cs, Inl e) \<Rightarrow> (cs, Inl e)
                            | (cs, Inr built) \<Rightarrow>
                                (cs, envelopeFromPayload fork (gp_ExecutionPayload built)
                                       (pa_ParentBeaconBlockRoot attributes) (gp_ExecutionRequests built) (gp_BlockValue built)))))"

definition newPayloadParams :: "ExecutionPayloadEnvelope \<Rightarrow> jval list" where
  "newPayloadParams envelope =
     [JRaw (ex_Payload envelope), jSlice JStr (ex_ExpectedBlobVersionedHashes envelope),
      JStr (ex_ParentBeaconBlockRoot envelope), jSlice JStr (ex_ExecutionRequests envelope)]"

definition Client_Validate ::
  "(bytes \<Rightarrow> bytes) \<Rightarrow> 's world \<Rightarrow> Client \<times> 's \<Rightarrow> ExecutionPayloadEnvelope \<Rightarrow> (Client \<times> 's) \<times> (engine_error + unit)" where
  "Client_Validate sha256 w cs envelope =
     (case ValidateEnvelope envelope of
        Inl e \<Rightarrow> (cs, Inl e)
      | Inr _ \<Rightarrow>
          let method = (if cl_fork (fst cs) = ForkAmsterdam then ''engine_newPayloadV5'' else ''engine_newPayloadV4'')
          in case call sha256 w decodeStatus cs method (newPayloadParams envelope) of
               (cs, Inl e) \<Rightarrow> (cs, Inl e)
             | (cs, Inr status) \<Rightarrow> (cs, requireValidStatus status))"

definition Client_Finalize ::
  "(bytes \<Rightarrow> bytes) \<Rightarrow> 's world \<Rightarrow> Client \<times> 's \<Rightarrow> ExecutionPayloadEnvelope \<Rightarrow> (Client \<times> 's) \<times> (engine_error + unit)" where
  "Client_Finalize sha256 w cs envelope =
     (if EqualFold (cl_head (fst cs)) (ex_BlockHash envelope) then (cs, Inr ())
      else case Client_Validate sha256 w cs envelope of
        (cs, Inl e) \<Rightarrow> (cs, Inl e)
      | (cs, Inr _) \<Rightarrow>
          let state = forkchoiceState_json (allAt (ex_BlockHash envelope));
              (method, params) =
                (if cl_fork (fst cs) = ForkAmsterdam then (''engine_forkchoiceUpdatedV4'', [state, JNull, JNull])
                 else (''engine_forkchoiceUpdatedV3'', [state, JNull]))
          in case call sha256 w decodeForkchoice cs method params of
               (cs, Inl e) \<Rightarrow> (cs, Inl e)
             | (cs, Inr update) \<Rightarrow>
                 (case requireValidStatus (fr_PayloadStatus update) of
                    Inl e \<Rightarrow> (cs, Inl e)
                  | Inr _ \<Rightarrow> (apfst (cl_head_update (\<lambda>_. ex_BlockHash envelope)) cs, Inr ())))"

definition clientEngine :: "(bytes \<Rightarrow> bytes) \<Rightarrow> 's world \<Rightarrow> (Client \<times> 's) engine" where
  "clientEngine sha256 w =
     \<lparr>en_Build = Client_Build sha256 w, en_Validate = Client_Validate sha256 w,
      en_Finalize = Client_Finalize sha256 w, en_Head = (\<lambda>(c, s). cl_head c)\<rparr>"

end
