(* ===== verification/EngineClient_Laws.thy ===== *)
theory EngineClient_Laws
  imports EngineClient Engine_Laws
begin

text \<open>
  Laws of the Engine API client. The endpoint is arbitrary: what the client keeps (its fork, its secret, its head) does not
  depend on the honesty of what answers. The client interprets the locale \<open>engine_head\<close>, like the mock.
\<close>

section \<open>Calls\<close>

lemma call_client: "call sha256 w decode (c, s) method params = (cs, r) \<Longrightarrow> fst cs = c\<lparr>cl_id := cl_id c + 1\<rparr>"
  by (auto simp: call_def Let_def split: if_splits prod.splits option.splits)

text \<open>A call reads the address, the secret and the counter of the client, and nothing else of it.\<close>

lemma call_cong:
  assumes "cl_url c = cl_url d" "cl_jwtSecret c = cl_jwtSecret d" "cl_id c = cl_id d"
  shows "snd (call sha256 w decode (c, s) method params) = snd (call sha256 w decode (d, s) method params)"
    and "snd (fst (call sha256 w decode (c, s) method params)) = snd (fst (call sha256 w decode (d, s) method params))"
  using assms by (simp_all add: call_def Let_def split: prod.splits option.splits)

lemma requireValidStatus_ok: "requireValidStatus status = Inr () \<longleftrightarrow> map toUpperC (ps_Status status) = ''VALID''"
  by (simp add: requireValidStatus_def)

lemma Client_Validate_client:
  "Client_Validate sha256 w (c, s) env = (cs, r) \<Longrightarrow> fst cs = c \<or> fst cs = c\<lparr>cl_id := cl_id c + 1\<rparr>"
  by (auto simp: Client_Validate_def Let_def split: sum.splits prod.splits if_splits dest!: call_client)

text \<open>A validation that succeeds: one exchange with a VALID answer.\<close>

lemma Client_Validate_ok:
  assumes "Client_Validate sha256 w (c, s) env = (cs, Inr ())"
  shows "ValidateEnvelope env = Inr () \<and> fst cs = c\<lparr>cl_id := cl_id c + 1\<rparr> \<and>
     (\<exists>status. call sha256 w decodeStatus (c, s)
         (if cl_fork c = ForkAmsterdam then ''engine_newPayloadV5'' else ''engine_newPayloadV4'') (newPayloadParams env)
       = (cs, Inr status) \<and> map toUpperC (ps_Status status) = ''VALID'')"
  using assms by (auto simp: Client_Validate_def requireValidStatus_ok Let_def split: sum.splits prod.splits dest: call_client)

definition finalizeMethod :: "string \<Rightarrow> string" where
  "finalizeMethod fork = (if fork = ForkAmsterdam then ''engine_forkchoiceUpdatedV4'' else ''engine_forkchoiceUpdatedV3'')"

definition finalizeParams :: "string \<Rightarrow> string \<Rightarrow> jval list" where
  "finalizeParams fork h =
     forkchoiceState_json (allAt h) # (if fork = ForkAmsterdam then [JNull, JNull] else [JNull])"

lemma Client_Finalize_ok:
  assumes "Client_Finalize sha256 w (c, s) env = ((c', s'), Inr ())" "\<not> EqualFold (cl_head c) (ex_BlockHash env)"
  shows "\<exists>s1 update. Client_Validate sha256 w (c, s) env = ((c\<lparr>cl_id := cl_id c + 1\<rparr>, s1), Inr ())
     \<and> call sha256 w decodeForkchoice (c\<lparr>cl_id := cl_id c + 1\<rparr>, s1) (finalizeMethod (cl_fork c)) (finalizeParams (cl_fork c) (ex_BlockHash env))
       = ((c\<lparr>cl_id := cl_id c + 2\<rparr>, s'), Inr update)
     \<and> map toUpperC (ps_Status (fr_PayloadStatus update)) = ''VALID''
     \<and> c' = c\<lparr>cl_id := cl_id c + 2, cl_head := ex_BlockHash env\<rparr>"
proof -
  obtain c1 s1 where v: "Client_Validate sha256 w (c, s) env = ((c1, s1), Inr ())"
    using assms by (auto simp: Client_Finalize_def split: prod.splits sum.splits)
  then have c1: "c1 = c\<lparr>cl_id := cl_id c + 1\<rparr>" using Client_Validate_ok[OF v] by simp
  obtain c2 s2 update where u: "call sha256 w decodeForkchoice (c1, s1) (finalizeMethod (cl_fork c))
      (finalizeParams (cl_fork c) (ex_BlockHash env)) = ((c2, s2), Inr update)"
      "requireValidStatus (fr_PayloadStatus update) = Inr ()" "c' = c2\<lparr>cl_head := ex_BlockHash env\<rparr>" "s' = s2"
    using assms v c1
    by (auto simp: Client_Finalize_def Let_def finalizeMethod_def finalizeParams_def split: prod.splits sum.splits if_splits)
  have "c2 = c\<lparr>cl_id := cl_id c + 2\<rparr>" using call_client[OF u(1)] c1 by simp
  then show ?thesis using v u c1 by (auto simp: requireValidStatus_ok)
qed

text \<open>The client up to its request counter.\<close>

definition kept :: "Client \<Rightarrow> Client \<Rightarrow> bool" where
  "kept c c' \<longleftrightarrow> cl_url c' = cl_url c \<and> cl_fork c' = cl_fork c \<and> cl_jwtSecret c' = cl_jwtSecret c \<and> cl_head c' = cl_head c"

lemma kept_simps [simp]: "kept c c" "kept c (c\<lparr>cl_id := k\<rparr>)" "kept (c\<lparr>cl_id := k\<rparr>) c' = kept c c'"
  by (simp_all add: kept_def)

lemma call_kept: "call sha256 w decode cs method params = (cs', r) \<Longrightarrow> kept (fst cs) (fst cs')"
  using call_client[of sha256 w decode "fst cs" "snd cs"] by simp

lemma Client_Validate_kept: "Client_Validate sha256 w cs env = (cs', r) \<Longrightarrow> kept (fst cs) (fst cs')"
  using Client_Validate_client[of sha256 w "fst cs" "snd cs" env cs' r] by auto

lemma kept_trans: "kept a b \<Longrightarrow> kept b c \<Longrightarrow> kept a c"
  by (simp add: kept_def)

lemma Client_Finalize_error:
  assumes "Client_Finalize sha256 w cs env = (cs', Inl e)"
  shows "kept (fst cs) (fst cs')"
proof -
  obtain cs1 r where v: "Client_Validate sha256 w cs env = (cs1, r)" by fastforce
  note k1 = Client_Validate_kept[OF v]
  show ?thesis
  proof (cases r)
    case (Inl e')
    then show ?thesis using assms v k1 by (simp add: Client_Finalize_def split: if_splits)
  next
    case (Inr u)
    let ?call = "call sha256 w decodeForkchoice cs1 (finalizeMethod (cl_fork (fst cs1))) (finalizeParams (cl_fork (fst cs1)) (ex_BlockHash env))"
    obtain cs2 q where u: "?call = (cs2, q)" by fastforce
    then have "cs' = cs2"
      using assms v Inr
      by (cases q) (simp_all add: Client_Finalize_def Let_def finalizeMethod_def finalizeParams_def split: sum.splits if_splits)
    then have "kept (fst cs1) (fst cs')" using call_kept[OF u] by simp
    then show ?thesis using k1 kept_trans by blast
  qed
qed

text \<open>A payload that was built: the envelope is checked, on the client's fork, with the beacon root of the request.\<close>

lemma envelopeFromPayload_ok:
  "envelopeFromPayload fork payload root requests v = Inr env \<Longrightarrow>
     ValidateEnvelope env = Inr () \<and> ex_Fork env = fork \<and> ex_Payload env = payload \<and> ex_ParentBeaconBlockRoot env = root
     \<and> ex_ExecutionRequests env = requests \<and> ex_BlockValue env = v \<and> ex_ExpectedBlobVersionedHashes env = Some []
     \<and> (\<exists>view. decodeView payload = Some view \<and> ex_BlockHash env = pv_BlockHash view \<and> ex_ParentHash env = pv_ParentHash view
         \<and> ex_StateRoot env = pv_StateRoot view \<and> pv_BlobGasUsed view \<in> {[], ''0x0''})"
  by (auto simp: envelopeFromPayload_def Let_def bindE_def ofOption_def split: option.splits if_splits sum.splits)

lemma Client_Build_client: "Client_Build sha256 w cs input = (cs', r) \<Longrightarrow> kept (fst cs) (fst cs')"
  by (auto simp: Client_Build_def Let_def split: prod.splits sum.splits option.splits if_splits
      dest!: call_kept intro: kept_trans)

lemma Client_Build_ok:
  assumes "Client_Build sha256 w (c, s) input = ((c', s'), Inr env)"
  shows "ValidateEnvelope env = Inr () \<and> ex_Fork env = cl_fork c
     \<and> ex_ParentBeaconBlockRoot env = normalizeHash (bi_ParentBeaconBlockRoot input)
     \<and> ex_ExpectedBlobVersionedHashes env = Some []
     \<and> (\<exists>view. decodeView (ex_Payload env) = Some view \<and> ex_BlockHash env = pv_BlockHash view
          \<and> ex_ParentHash env = pv_ParentHash view \<and> ex_StateRoot env = pv_StateRoot view)
     \<and> c' = c\<lparr>cl_id := cl_id c + 2\<rparr>"
proof -
  have root: "pa_ParentBeaconBlockRoot (attributesFor fork input) = normalizeHash (bi_ParentBeaconBlockRoot input)" for fork
    by (simp add: attributesFor_def Let_def)
  show ?thesis using assms root
    by (auto simp: Client_Build_def Let_def split: prod.splits sum.splits option.splits if_splits
        dest!: call_client envelopeFromPayload_ok)
qed

section \<open>The contract\<close>

interpretation client: engine_head "clientEngine sha256 w"
  for sha256 :: "bytes \<Rightarrow> bytes" and w :: "'s world"
proof unfold_locales
  fix x :: "Client \<times> 's" and input
  show "en_Head (clientEngine sha256 w) (fst (en_Build (clientEngine sha256 w) x input)) = en_Head (clientEngine sha256 w) x"
    using Client_Build_client[of sha256 w x input]
    by (cases "Client_Build sha256 w x input") (auto simp: clientEngine_def kept_def split: prod.splits)
next
  fix x :: "Client \<times> 's" and env
  show "en_Head (clientEngine sha256 w) (fst (en_Validate (clientEngine sha256 w) x env)) = en_Head (clientEngine sha256 w) x"
    using Client_Validate_kept[of sha256 w x env]
    by (cases "Client_Validate sha256 w x env") (auto simp: clientEngine_def kept_def split: prod.splits)
next
  fix x x' :: "Client \<times> 's" and env
  assume f: "en_Finalize (clientEngine sha256 w) x env = (x', Inr ())"
  show "EqualFold (en_Head (clientEngine sha256 w) x') (ex_BlockHash env)"
  proof (cases "EqualFold (cl_head (fst x)) (ex_BlockHash env)")
    case True
    then show ?thesis using f by (auto simp: clientEngine_def Client_Finalize_def split: prod.splits)
  next
    case False
    then show ?thesis
      using f Client_Finalize_ok[of sha256 w "fst x" "snd x" env "fst x'" "snd x'"]
      by (cases x; cases x') (auto simp: clientEngine_def)
  qed
next
  fix x x' :: "Client \<times> 's" and env e
  assume "en_Finalize (clientEngine sha256 w) x env = (x', Inl e)"
  then show "en_Head (clientEngine sha256 w) x' = en_Head (clientEngine sha256 w) x"
    using Client_Finalize_error[of sha256 w x env x' e]
    by (auto simp: clientEngine_def kept_def split: prod.splits)
qed

section \<open>The state of the client\<close>

definition clientOK :: "Client \<Rightarrow> bool" where
  "clientOK c \<longleftrightarrow> cl_fork c \<in> {ForkOsaka, ForkAmsterdam} \<and> length (cl_jwtSecret c) = 32 \<and> isHash32 (cl_head c)"

lemma EngineClient_New_ok:
  "EngineClient_New cfg = Inr c \<Longrightarrow> clientOK c \<and> cl_head c = normalizeHash (cc_GenesisHash cfg) \<and> cl_id c = 0"
  by (auto simp: EngineClient_New_def clientOK_def Let_def split: if_splits)

lemma kept_clientOK: "kept c c' \<Longrightarrow> clientOK c' \<longleftrightarrow> clientOK c"
  by (simp add: kept_def clientOK_def)

lemma ValidateEnvelope_hash: "ValidateEnvelope env = Inr () \<Longrightarrow> isHash32 (ex_BlockHash env)"
  by (auto simp: ValidateEnvelope_def split: if_splits)

lemma Client_Finalize_clientOK:
  assumes "Client_Finalize sha256 w cs env = (cs', Inr ())" "clientOK (fst cs)"
  shows "clientOK (fst cs') \<and> cl_fork (fst cs') = cl_fork (fst cs)"
proof (cases "EqualFold (cl_head (fst cs)) (ex_BlockHash env)")
  case True
  then show ?thesis using assms by (simp add: Client_Finalize_def)
next
  case False
  then obtain s1 where v: "Client_Validate sha256 w (fst cs, snd cs) env = ((fst cs\<lparr>cl_id := cl_id (fst cs) + 1\<rparr>, s1), Inr ())"
      and c': "fst cs' = (fst cs)\<lparr>cl_id := cl_id (fst cs) + 2, cl_head := ex_BlockHash env\<rparr>"
    using Client_Finalize_ok[of sha256 w "fst cs" "snd cs" env "fst cs'" "snd cs'"] assms(1) by auto
  have "isHash32 (ex_BlockHash env)" using Client_Validate_ok[OF v] ValidateEnvelope_hash by simp
  then show ?thesis using c' assms(2) by (simp add: clientOK_def)
qed

lemma step_clientOK:
  assumes "engine_step (clientEngine sha256 w) op cs = (cs', fs)" "clientOK (fst cs)"
  shows "clientOK (fst cs') \<and> cl_fork (fst cs') = cl_fork (fst cs)"
proof -
  have same: "clientOK d \<and> cl_fork d = cl_fork (fst cs)" if "kept (fst cs) d" for d
    using that assms(2) kept_clientOK[OF that] by (simp add: kept_def)
  show ?thesis
  proof (cases op)
    case (DoBuild input)
    have "kept (fst cs) (fst cs')"
      using assms(1) DoBuild Client_Build_client[of sha256 w cs input] by (metis clientEngine_def engine.simps(1) engine_step.simps(1) fst_conv prod.collapse)
    then show ?thesis by (rule same)
  next
    case (DoValidate env)
    have "kept (fst cs) (fst cs')"
      using assms(1) DoValidate Client_Validate_kept[of sha256 w cs env] by (metis clientEngine_def engine.simps(2) engine_step.simps(2) fst_conv prod.collapse)
    then show ?thesis by (rule same)
  next
    case (DoFinalize env)
    obtain x r where f: "Client_Finalize sha256 w cs env = (x, r)" by fastforce
    have x: "x = cs'" using assms(1) DoFinalize f by (simp add: clientEngine_def split: sum.splits)
    show ?thesis
    proof (cases r)
      case (Inl e)
      show ?thesis by (rule same) (use f x Inl Client_Finalize_error in blast)
    next
      case (Inr u)
      then show ?thesis using Client_Finalize_clientOK[of sha256 w cs env cs'] f x assms(2) by simp
    qed
  qed
qed

lemma trace_clientOK:
  "engine_trace (clientEngine sha256 w) ops cs = (cs', fs) \<Longrightarrow> clientOK (fst cs)
     \<Longrightarrow> clientOK (fst cs') \<and> cl_fork (fst cs') = cl_fork (fst cs)"
proof (induction ops arbitrary: cs fs)
  case (Cons op ops)
  obtain cs1 f1 cs2 f2 where t: "engine_step (clientEngine sha256 w) op cs = (cs1, f1)"
      "engine_trace (clientEngine sha256 w) ops cs1 = (cs2, f2)" "cs' = cs2"
    using Cons.prems by (auto simp: Let_def split: prod.splits)
  then show ?case using step_clientOK[OF t(1) Cons.prems(2)] Cons.IH[of cs1 f2] by auto
qed simp

section \<open>A scripted endpoint\<close>

text \<open>An endpoint that gives prepared answers, one for each exchange.\<close>

definition scripted :: "string list world" where
  "scripted = \<lparr>wd_post = (\<lambda>s _ _ _. (tl s, case s of [] \<Rightarrow> None | a # _ \<Rightarrow> Some (200, bytes_of a))), wd_now = (\<lambda>_. 1700000000)\<rparr>"

definition validAnswer :: string where
  "validAnswer = ''{\"result\":{\"status\":\"VALID\"}}''"

definition updatedAnswer :: string where
  "updatedAnswer = ''{\"result\":{\"payloadStatus\":{\"status\":\"VALID\"},\"payloadId\":\"0x1\"}}''"

definition exClient :: Client where
  "exClient = \<lparr>cl_url = ''http://engine'', cl_fork = ForkOsaka, cl_jwtSecret = replicate 32 7, cl_id = 0, cl_head = GenesisHash\<rparr>"

definition exEnvelope :: ExecutionPayloadEnvelope where
  "exEnvelope =
     \<lparr>ex_Fork = ForkOsaka, ex_Payload = ''{}'', ex_BlockHash = zeroHash, ex_ParentHash = zeroHash, ex_StateRoot = zeroHash,
      ex_BlockNumber = quantity 1, ex_Timestamp = quantity 1, ex_ParentBeaconBlockRoot = zeroHash,
      ex_ExpectedBlobVersionedHashes = Some [], ex_ExecutionRequests = Some [], ex_BlockValue = []\<rparr>"

lemma ex_envelope: "ValidateEnvelope exEnvelope = Inr ()"
  by (simp add: ValidateEnvelope_def exEnvelope_def)

lemma answers1:
  "unmarshalRPC (bytes_of validAnswer) = Some (''{\"status\":\"VALID\"}'', None)"
  by code_simp
lemma answers2:
  "unmarshalRPC (bytes_of updatedAnswer) = Some (''{\"payloadStatus\":{\"status\":\"VALID\"},\"payloadId\":\"0x1\"}'', None)"
  by code_simp
lemma answers3:
  "decodeStatus ''{\"status\":\"VALID\"}'' = Some \<lparr>ps_Status = ''VALID'', ps_LatestValidHash = None, ps_ValidationError = None\<rparr>"
  by code_simp
lemma answers4:
  "decodeForkchoice ''{\"payloadStatus\":{\"status\":\"VALID\"},\"payloadId\":\"0x1\"}'' =
     Some \<lparr>fr_PayloadStatus = \<lparr>ps_Status = ''VALID'', ps_LatestValidHash = None, ps_ValidationError = None\<rparr>, fr_PayloadID = Some ''0x1''\<rparr>"
  by code_simp
lemmas answers = answers1 answers2 answers3 answers4

lemma json_Valid_empty: "json_Valid ''{}''" by code_simp

lemma ex_validate:
  "call sha256 scripted decodeStatus (exClient, validAnswer # s) method (newPayloadParams exEnvelope)
     = ((exClient\<lparr>cl_id := 1\<rparr>, s), Inr \<lparr>ps_Status = ''VALID'', ps_LatestValidHash = None, ps_ValidationError = None\<rparr>)"
proof -
  have "rawsOK (rpcCall_json 1 method (newPayloadParams exEnvelope))" 
    by (simp add: rpcCall_json_def newPayloadParams_def exEnvelope_def json_Valid_empty jU64_def jSlice_def)
  moreover have "length (bytes_of validAnswer) \<le> 33554432" by (simp add: validAnswer_def bytes_of_def)
  ultimately show ?thesis using answers1 answers3 by (simp add: call_def Let_def scripted_def exClient_def)
qed
lemma ex_finalize:
  "call sha256 scripted decodeForkchoice (exClient\<lparr>cl_id := 1\<rparr>, updatedAnswer # s) method (finalizeParams ForkOsaka h)
     = ((exClient\<lparr>cl_id := 2\<rparr>, s), Inr \<lparr>fr_PayloadStatus = \<lparr>ps_Status = ''VALID'', ps_LatestValidHash = None, ps_ValidationError = None\<rparr>, fr_PayloadID = Some ''0x1''\<rparr>)"
proof -
  have "rawsOK (rpcCall_json 2 method (finalizeParams ForkOsaka h))" 
    by (simp add: rpcCall_json_def finalizeParams_def forkchoiceState_json_def jU64_def)
  moreover have "length (bytes_of updatedAnswer) \<le> 33554432" by (simp add: updatedAnswer_def bytes_of_def)
  ultimately show ?thesis using answers2 answers4 by (simp add: call_def Let_def scripted_def exClient_def)
qed

lemma ex_genesis: "isHash32 GenesisHash"
  by (simp add: isHash32_iff GenesisHash_def TrimPrefix_def hexVal_def)

lemma ex_head: "\<not> EqualFold (cl_head exClient) (ex_BlockHash exEnvelope)"
  by code_simp

lemma ex_valid: "requireValidStatus \<lparr>ps_Status = ''VALID'', ps_LatestValidHash = None, ps_ValidationError = None\<rparr> = Inr ()"
  by (simp add: requireValidStatus_def toUpperC_def)

lemma ex_fork: "cl_fork exClient = ForkOsaka" "ForkOsaka \<noteq> ForkAmsterdam" "ex_BlockHash exEnvelope = zeroHash"
  by (simp_all add: exClient_def ForkOsaka_def ForkAmsterdam_def exEnvelope_def)

section \<open>Properties\<close>

text \<open>
  C36: The state of the Engine API client and the history of its head, whatever the endpoint answers. A client that
  \<open>NewClient\<close> returns has a known fork, a secret of 32 bytes and a hash as its head; every sequence of builds,
  validations and finalizations keeps this and the fork; and its head is, up to the case of the digits, the block hash of
  the last envelope whose finalization succeeded, or the configured genesis hash when there was none: no build, no
  validation and no failed finalization moves it.
\<close>

theorem client_head_history:
  assumes "EngineClient_New cfg = Inr c" "engine_trace (clientEngine sha256 w) ops (c, s) = ((c', s'), finalized)"
  shows "cl_fork c' \<in> {ForkOsaka, ForkAmsterdam} \<and> cl_fork c' = cl_fork c \<and> length (cl_jwtSecret c') = 32 \<and> isHash32 (cl_head c')
    \<and> EqualFold (cl_head c') (if finalized = [] then normalizeHash (cc_GenesisHash cfg) else ex_BlockHash (last finalized))"
  using EngineClient_New_ok[OF assms(1)] trace_clientOK[OF assms(2)] client.trace_head[OF assms(2)]
  by (simp add: clientOK_def clientEngine_def split: if_splits)

theorem client_head_history_witness:
  "\<exists>c. EngineClient_New \<lparr>cc_URL = ''http://engine/'', cc_Fork = [], cc_GenesisHash = [], cc_JWTSecret = replicate 32 7\<rparr> = Inr c
    \<and> isHash32 (cl_head (fst (fst (engine_trace (clientEngine (\<lambda>_. replicate 32 3) scripted)
        [DoFinalize exEnvelope, DoValidate exEnvelope] (c, [validAnswer])))))"
proof -
  let ?cfg = "\<lparr>cc_URL = ''http://engine/'', cc_Fork = [], cc_GenesisHash = [], cc_JWTSecret = replicate 32 7\<rparr>"
  have z: "isHash32 (normalizeHash [])"
    by (simp add: normalizeHash_def)
  obtain c where c: "EngineClient_New ?cfg = Inr c"
    using z by (simp add: EngineClient_New_def TrimSpace_def isSpaceC_def)
  obtain c' s' fs where t: "engine_trace (clientEngine (\<lambda>_. replicate 32 3) scripted)
      [DoFinalize exEnvelope, DoValidate exEnvelope] (c, [validAnswer]) = ((c', s'), fs)"
    by (metis prod.collapse)
  show ?thesis using client_head_history[OF c t] c t by simp
qed

text \<open>
  What a successful \<open>Finalize\<close> of the client means, when the envelope is not the head already: the envelope passed the
  envelope check, the endpoint answered the \<open>newPayload\<close> call with a status that is VALID up to case, then answered the
  \<open>forkchoiceUpdated\<close> call that names the block hash as head, safe and finalized with a VALID status too; both calls had
  ids of their own, the head is the block hash, and nothing else of the client changed.
\<close>

theorem client_finalize_confirmed:
  assumes "Client_Finalize sha256 w (c, s) env = ((c', s'), Inr ())" "\<not> EqualFold (cl_head c) (ex_BlockHash env)"
  shows "ValidateEnvelope env = Inr () \<and> c' = c\<lparr>cl_id := cl_id c + 2, cl_head := ex_BlockHash env\<rparr> \<and>
    (\<exists>s1 status update.
       call sha256 w decodeStatus (c, s)
           (if cl_fork c = ForkAmsterdam then ''engine_newPayloadV5'' else ''engine_newPayloadV4'') (newPayloadParams env)
         = ((c\<lparr>cl_id := cl_id c + 1\<rparr>, s1), Inr status)
       \<and> map toUpperC (ps_Status status) = ''VALID''
       \<and> call sha256 w decodeForkchoice (c\<lparr>cl_id := cl_id c + 1\<rparr>, s1) (finalizeMethod (cl_fork c))
           (finalizeParams (cl_fork c) (ex_BlockHash env)) = ((c\<lparr>cl_id := cl_id c + 2\<rparr>, s'), Inr update)
       \<and> map toUpperC (ps_Status (fr_PayloadStatus update)) = ''VALID'')"
proof -
  obtain s1 update where f: "Client_Validate sha256 w (c, s) env = ((c\<lparr>cl_id := cl_id c + 1\<rparr>, s1), Inr ())"
      "call sha256 w decodeForkchoice (c\<lparr>cl_id := cl_id c + 1\<rparr>, s1) (finalizeMethod (cl_fork c))
         (finalizeParams (cl_fork c) (ex_BlockHash env)) = ((c\<lparr>cl_id := cl_id c + 2\<rparr>, s'), Inr update)"
      "map toUpperC (ps_Status (fr_PayloadStatus update)) = ''VALID''" "c' = c\<lparr>cl_id := cl_id c + 2, cl_head := ex_BlockHash env\<rparr>"
    using Client_Finalize_ok[OF assms] by (elim exE conjE) (rule that)
  show ?thesis using Client_Validate_ok[OF f(1)] f(2-4) by auto
qed

theorem client_finalize_confirmed_witness:
  "isHash32 (ex_BlockHash exEnvelope)
   \<and> (\<exists>c' s'. Client_Finalize (\<lambda>_. replicate 32 3) scripted (exClient, [validAnswer, updatedAnswer]) exEnvelope = ((c', s'), Inr ())
        \<and> cl_head c' = zeroHash)"
proof -
  have f: "Client_Finalize (\<lambda>_. replicate 32 3) scripted (exClient, [validAnswer, updatedAnswer]) exEnvelope
      = ((exClient\<lparr>cl_id := 2, cl_head := zeroHash\<rparr>, []), Inr ())"
    using ex_envelope ex_validate ex_head ex_fork ex_valid
      ex_finalize[of "\<lambda>_. replicate 32 3" "[]" "finalizeMethod ForkOsaka" zeroHash]
    by (simp add: Client_Finalize_def Client_Validate_def finalizeMethod_def finalizeParams_def)
  then show ?thesis
    using client_finalize_confirmed[OF f ex_head] ValidateEnvelope_hash[of exEnvelope] by (simp add: f ex_fork(3))
qed



end
