(* ===== verification/Provider_Props.thy ===== *)
theory Provider_Props
  imports Tool_Props Miner_Laws
begin

text \<open>
  The file proof provider of the miner: what its nonce search hands to the miner is a proof that the verifier of the
  package accepts for the target, and that answers the challenge of the request.
\<close>

section \<open>The target of a proof\<close>

lemma sealProof_work:
  assumes "sealProof blake3 cfg s pw tn pages mats = Some (Inr (pro, text))"
  shows "seal_WorkHash (prf_Seal pro) = formatHash (computeWorkHash blake3 (prf_Seal pro))"
proof -
  have "computeAIDigest blake3 (s\<lparr>seal_MixDigest := d\<rparr>) (pc_Manifest cfg) tn mats = computeAIDigest blake3 s (pc_Manifest cfg) tn mats" for d
    by (rule sameChallenge_digests(2)) (simp add: sameChallenge_def)
  then obtain h where "computeAIDigest blake3 s (pc_Manifest cfg) tn mats = Some h"
    using assms by (cases "computeAIDigest blake3 s (pc_Manifest cfg) tn mats") (auto simp: sealProof_def Let_def)
  from sealProof_result[OF this refl, of pw pages] assms show ?thesis by auto
qed

lemma ProveFiles_work:
  assumes "ProveFiles blake3 ctxDone fs cfg = Some (Inr (pro, text))"
  shows "seal_WorkHash (prf_Seal pro) = formatHash (computeWorkHash blake3 (prf_Seal pro))"
  using assms sealProof_work by (fastforce simp: ProveFiles_def split: if_splits sum.splits option.splits prod.splits)

lemma length_computeWorkHash [simp]: "length (computeWorkHash blake3 s) = 32"
  by (simp add: computeWorkHash_def)

text \<open>A proof that verifies without a target and meets a target verifies for it.\<close>

lemma Verify_target:
  assumes "Verify blake3 m pro [] limits = Some (Inr r)" "decodeHex32 target = Inr t"
    "hashMeetsTarget (computeWorkHash blake3 (prf_Seal pro)) t"
  shows "Verify blake3 m pro target limits = Some (Inr r)"
  using assms by (auto simp: Verify_def verifyDigests_def Let_def split: sum.splits option.splits if_splits)

lemma WorkMeetsTarget_formatHash:
  "length h = 32 \<Longrightarrow> WorkMeetsTarget (formatHash h) target = bindE (decodeHex32 target) (\<lambda>t. Inr (hashMeetsTarget h t))"
  by (simp add: WorkMeetsTarget_def)

text \<open>The digests of a proof that was made, and of a result.\<close>

lemma sealProof_hashes:
  assumes "sealProof blake3 cfg s pw tn pages mats = Some (Inr (pro, text))"
  shows "(\<exists>a. seal_AIDigest (prf_Seal pro) = formatHash a) \<and> (\<exists>b. seal_ProofHash (prf_Seal pro) = formatHash b)"
proof -
  have "computeAIDigest blake3 (s\<lparr>seal_MixDigest := d\<rparr>) (pc_Manifest cfg) tn mats = computeAIDigest blake3 s (pc_Manifest cfg) tn mats" for d
    by (rule sameChallenge_digests(2)) (simp add: sameChallenge_def)
  then obtain h where "computeAIDigest blake3 s (pc_Manifest cfg) tn mats = Some h"
    using assms by (cases "computeAIDigest blake3 s (pc_Manifest cfg) tn mats") (auto simp: sealProof_def Let_def)
  from sealProof_result[OF this refl, of pw pages] assms show ?thesis by auto
qed

lemma Verify_result_hashes:
  assumes "Verify blake3 m pro target limits = Some (Inr r)"
  shows "(\<exists>a. vr_AIDigest r = formatHash a) \<and> (\<exists>b. vr_ProofHash r = formatHash b)"
proof -
  obtain pow tensor materials where "verifyDigests blake3 m pro target pow tensor materials = Some (Inr r)"
    by (rule Verify_accepts[OF assms], rule that)
  then show ?thesis by (auto simp: verifyDigests_def Let_def split: if_splits option.splits)
qed

text \<open>What \<open>ProveFiles\<close> went through when it returned a proof.\<close>

lemma provePages_ctx:
  "provePages blake3 ctxDone dag r m tn required = Some (Inr ps) \<Longrightarrow> \<forall>i \<in> set required. \<not> ctxDone i"
  by (induction required arbitrary: ps) (auto split: if_splits option.splits sum.splits)

lemma ProveFiles_parts:
  assumes "ProveFiles blake3 ctxDone fs cfg = Some (Inr (pro, data))"
  obtains pw tn required pages mats where
    "pc_DAGPath cfg \<noteq> []" "pc_BlockHash cfg \<noteq> []" "pc_Miner cfg \<noteq> []" "0 < pc_PoWSamples cfg" "0 \<le> pc_TensorSamples cfg"
    "deriveRequiredPages blake3 (pc_Manifest cfg) (challengeSeal cfg) = Some (Inr (pw, tn, required))"
    "\<forall>i \<in> set required. \<not> ctxDone i"
    "sealProof blake3 cfg (challengeSeal cfg) pw tn pages mats = Some (Inr (pro, data))"
proof -
  have g: "pc_DAGPath cfg \<noteq> []" "pc_BlockHash cfg \<noteq> []" "pc_Miner cfg \<noteq> []" "0 < pc_PoWSamples cfg" "0 \<le> pc_TensorSamples cfg"
    using assms by (auto simp: ProveFiles_def split: if_splits)
  obtain sidecar dag pw tn required ps where
      "deriveRequiredPages blake3 (pc_Manifest cfg) (challengeSeal cfg) = Some (Inr (pw, tn, required))"
      "provePages blake3 ctxDone dag sidecar (pc_Manifest cfg) tn required = Some (Inr ps)"
      "sealProof blake3 cfg (challengeSeal cfg) pw tn (map fst ps) (map snd ps) = Some (Inr (pro, data))"
    using assms by (auto simp: ProveFiles_def split: if_splits sum.splits option.splits prod.splits)
  then show thesis using that[OF g] provePages_ctx by blast
qed

lemma ProveFiles_nonempty: "ProveFiles blake3 ctxDone fs cfg = Some (Inr (pro, data)) \<Longrightarrow> data \<noteq> []"
  by (erule ProveFiles_parts) (auto simp: sealProof_def Let_def json_marshal_def proof_json_def split: option.splits if_splits)

lemma required_length:
  assumes "validateManifestBasics m = Inr ()" "deriveRequiredPages blake3 m s = Some (Inr (pw, tn, required))"
    "0 \<le> seal_PoWSampleCount s" "0 \<le> seal_TensorSampleCount s"
  shows "int (length required) \<le> seal_PoWSampleCount s + seal_TensorSampleCount s"
proof -
  note d = deriveRequiredPages_spec[OF assms(2)] and v = assms(1)[unfolded validateManifestBasics_iff]
  have lt: "unat x < 2 ^ 64" for x :: u64 using unsigned_less[of x] by simp
  have count: "length xs \<le> nat n" if "length xs = unat (of_int n :: u64)" "0 \<le> n" for n :: int and xs :: "u64 list"
  proof -
    have "uint (of_int n :: u64) = n mod 2 ^ 64" by (simp add: unsigned_of_int take_bit_eq_mod)
    then have "uint (of_int n :: u64) \<le> n" using that(2) by (simp add: zmod_le_nonneg_dividend)
    then show ?thesis unfolding that(1) unat_eq_nat_uint by (rule nat_mono)
  qed
  have "length pw = unat (of_int (seal_PoWSampleCount s) :: u64)"
    using sampleUnique_spec[OF d(5)] v lt[of "man_TotalPages m"] by simp
  moreover have "unat (man_ModelStartPage m) + unat (man_ModelPageCount m) = unat (man_ModelEndPage m)"
    using v by (simp add: unat_sub word_le_nat_alt word_less_nat_alt)
  then have "unat (man_ModelStartPage m) + unat (man_ModelPageCount m) \<le> 2 ^ 64" using lt by (simp add: less_imp_le)
  then have "length tn = unat (of_int (seal_TensorSampleCount s) :: u64)"
    using sampleUnique_spec[OF d(6)] v by blast
  ultimately have l: "length pw \<le> nat (seal_PoWSampleCount s)" "length tn \<le> nat (seal_TensorSampleCount s)"
    using count assms(3,4) by blast+
  have "length required = card (set pw \<union> set tn)" using d(3,4) distinct_card by metis
  also have "\<dots> \<le> length pw + length tn" by (meson add_mono card_Un_le card_length order_trans)
  finally show ?thesis using l assms(3,4) by linarith
qed

section \<open>The nonce search\<close>

lemma createLoop_returns:
  "createLoop blake3 ctxDone fs p others k nonce request minerID = (nonce', Some (Inr (pro, data))) \<Longrightarrow>
     \<exists>n. ProveFiles blake3 ctxDone fs (attemptConfig p request minerID n) = Some (Inr (pro, data))
       \<and> (fp_Target p = [] \<or> WorkMeetsTarget (seal_WorkHash (prf_Seal pro)) (fp_Target p) = Inr True)"
  by (induction k arbitrary: nonce) (auto simp: Let_def split: option.splits sum.splits prod.splits if_splits)

text \<open>The files of a provider: the DAG of its manifest and the sidecar that was built for it.\<close>

definition filesOK :: "(bytes \<Rightarrow> bytes) \<Rightarrow> (string \<rightharpoonup> bytes) \<Rightarrow> FileProofProvider \<Rightarrow> bool" where
  "filesOK blake3 fs p \<longleftrightarrow>
     (let m = fp_Manifest p in
      ValidateManifest blake3 m = Inr () \<and> validateManifestBasics m = Inr ()
      \<and> unat (man_TotalPages m) * unat (man_PageSize m) < 2 ^ 63
      \<and> (\<exists>fs0 dagPath now f sm dag. buildMerkleSidecarTempFromDAG blake3 fs0 dagPath m now = Inr (f, sm)
          \<and> fs0 dagPath = Some dag \<and> length now \<le> 100 \<and> of_nat (length dag) = man_TotalBytes m
          \<and> fs (fp_DAGPath p) = Some dag
          \<and> fs (if fp_SidecarPath p = [] then fp_DAGPath p @ ''.sidecar'' else fp_SidecarPath p) = Some f))"

text \<open>Its sample counts and page size are within the limits of the verifier.\<close>

definition samplesOK :: "FileProofProvider \<Rightarrow> bool" where
  "samplesOK p \<longleftrightarrow> fp_PoWSamples p + fp_TensorSamples p \<le> 256 \<and> man_PageSize (fp_Manifest p) \<le> 1048576
     \<and> (fp_TensorSamples p = 0 \<or> 192 \<le> man_PageSize (fp_Manifest p))"

lemma attempt_sound:
  assumes prove: "ProveFiles blake3 ctxDone fs (attemptConfig p request minerID n) = Some (Inr (pro, data))"
    and files: "filesOK blake3 fs p" and samples: "samplesOK p"
  shows "unmarshalProof data = Some pro
    \<and> (\<exists>r. Verify blake3 (fp_Manifest p) pro [] DefaultLimits = Some (Inr r)
        \<and> vr_ProofHash r = seal_ProofHash (prf_Seal pro) \<and> vr_AIDigest r = seal_AIDigest (prf_Seal pro)
        \<and> VerifyExpected pro r (challengeOf (attemptConfig p request minerID n)) = Inr ())"
proof -
  let ?cfg = "attemptConfig p request minerID n"
  have c: "pc_Manifest ?cfg = fp_Manifest p" "pc_Target ?cfg = []" "pc_DAGPath ?cfg = fp_DAGPath p"
    "pc_PoWSamples ?cfg = fp_PoWSamples p" "pc_TensorSamples ?cfg = fp_TensorSamples p" "pc_SidecarPath ?cfg = fp_SidecarPath p"
    by (simp_all add: attemptConfig_def)
  have path: "sidecarPathOf ?cfg = (if fp_SidecarPath p = [] then fp_DAGPath p @ ''.sidecar'' else fp_SidecarPath p)"
    by (simp add: sidecarPathOf_def c)
  obtain fs0 dagPath now f sm dag where d: "ValidateManifest blake3 (fp_Manifest p) = Inr ()" "validateManifestBasics (fp_Manifest p) = Inr ()"
      "unat (man_TotalPages (fp_Manifest p)) * unat (man_PageSize (fp_Manifest p)) < 2 ^ 63"
      "buildMerkleSidecarTempFromDAG blake3 fs0 dagPath (fp_Manifest p) now = Inr (f, sm)" "fs0 dagPath = Some dag" "length now \<le> 100"
      "of_nat (length dag) = man_TotalBytes (fp_Manifest p)" "fs (fp_DAGPath p) = Some dag" "fs (sidecarPathOf ?cfg) = Some f"
    using files unfolding filesOK_def Let_def path by blast
  show ?thesis
  proof (rule ProveFiles_parts[OF prove])
    fix pw tn required pages mats
    assume a: "pc_DAGPath ?cfg \<noteq> []" "pc_BlockHash ?cfg \<noteq> []" "pc_Miner ?cfg \<noteq> []" "0 < pc_PoWSamples ?cfg" "0 \<le> pc_TensorSamples ?cfg"
      "deriveRequiredPages blake3 (pc_Manifest ?cfg) (challengeSeal ?cfg) = Some (Inr (pw, tn, required))"
      "\<forall>i \<in> set required. \<not> ctxDone i"
      "sealProof blake3 ?cfg (challengeSeal ?cfg) pw tn pages mats = Some (Inr (pro, data))"
    have counts: "seal_PoWSampleCount (challengeSeal ?cfg) = fp_PoWSamples p" "seal_TensorSampleCount (challengeSeal ?cfg) = fp_TensorSamples p"
      by (simp_all add: challengeSeal_def c Let_def)
    have limits: "0 < lim_MaxPages DefaultLimits" "int (length required) \<le> lim_MaxPages DefaultLimits"
      "man_PageSize (fp_Manifest p) \<le> lim_MaxPageSize DefaultLimits"
      using required_length[OF d(2) a(6)[unfolded c]] a(4,5) samples by (simp_all add: counts c DefaultLimits_def samplesOK_def)
    have t: "pc_TensorSamples ?cfg = 0 \<or> 192 \<le> man_PageSize (fp_Manifest p)" using samples by (simp add: c samplesOK_def)
    obtain result where r: "data = json_marshal (proof_json pro)" "prf_Version pro = ProofVersion"
        "sameChallenge (prf_Seal pro) (challengeSeal ?cfg)" "Verify blake3 (fp_Manifest p) pro [] DefaultLimits = Some (Inr result)"
        "VerifyExpected pro result (challengeOf ?cfg) = Inr ()"
      using ProveFiles_built[OF d(1) c(1)[symmetric] d(4-6,3) d(9) d(8)[folded c(3)] d(7) a(1-5) t a(6)[unfolded c(1)] a(7) limits] prove
      by (auto simp: c(2))
    have "seal_PoWSampleCount (prf_Seal pro) = fp_PoWSamples p" "seal_TensorSampleCount (prf_Seal pro) = fp_TensorSamples p"
      using r(3) counts by (cases "prf_Seal pro"; simp add: sameChallenge_def challengeSeal_def Let_def)+
    moreover have "fitsInt (fp_PoWSamples p)" "fitsInt (fp_TensorSamples p)"
      using samples a(4,5) by (auto simp: samplesOK_def c fitsInt_def)
    ultimately have "unmarshalProof data = Some pro" using unmarshalProof_json[of pro] r(1,2) by (simp add: ProofVersion_def)
    moreover have "vr_ProofHash result = seal_ProofHash (prf_Seal pro) \<and> vr_AIDigest result = seal_AIDigest (prf_Seal pro)"
      using sealProof_hashes[OF a(8)] Verify_result_hashes[OF r(4)] r(5) by (auto simp: VerifyExpected_def Let_def split: if_splits)
    ultimately show ?thesis using r(4,5) by blast
  qed
qed

end
