(* ===== verification/Mining_Props.thy ===== *)
theory Mining_Props
  imports Provider_Props Example_Network
begin

text \<open>
  Mining with AISeal proofs, from the files of the miner to the check of the validator: the ticket and the proof bundle
  of a miner with the file proof provider pass the competition check of a node that holds the manifest only.
\<close>

section \<open>The response of a miner with a provider\<close>

lemma Service_Mine_sealed:
  assumes mine: "Service_Mine cr g osOK ctxDone s request = (s', Some (Inr r))" and provider: "sv_ProofProvider s = Some create"
  obtains q pro data zh t where
    "mq_Height request \<noteq> 0" "mq_ParentHash request \<noteq> []"
    "Runner_Run (cr_sha256 cr) (sv_Runner s) (mq_Job request) = Inr (mr_Result r)"
    "create (sv_providerState s) request (sv_ID s) = (q, Some (Inr (pro, data)))"
    "mr_AIProof r = Some \<lparr>ab_MinerID = sv_ID s, ab_ProofHash = seal_ProofHash (prf_Seal pro),
       ab_ContentHash = HashBytes (cr_sha256 cr) data, ab_Proof = string_of data\<rparr>"
    "mr_Ticket r = t\<lparr>tk_Signature := EncodeToString (cr_sign cr (sv_PrivateKey s) (TicketSigningBytes t))\<rparr>"
    "Ticket_Verify (cr_sha256 cr) t = Inr ()"
    "t\<lparr>tk_Nonce := 0, tk_WorkHash := []\<rparr> = challengeTicket (cr_sha256 cr) s request (mr_Result r)
       (seal_AIDigest (prf_Seal pro)) (seal_ProofHash (prf_Seal pro)) zh"
proof -
  let ?sha = "cr_sha256 cr" and ?job = "mq_Job request"
  have guard: "mq_Height request \<noteq> 0" "mq_ParentHash request \<noteq> []"
    using mine by (auto simp: Service_Mine_def split: if_splits)
  obtain result where res: "ValidateAIJob ?sha ?job = Inr ()" "Runner_Run ?sha (sv_Runner s) ?job = Inr result"
    using mine guard by (cases "ValidateAIJob ?sha ?job"; cases "Runner_Run ?sha (sv_Runner s) ?job") (auto simp: Service_Mine_def Let_def)
  have run: "bindE (mapErr MinerJob (ValidateAIJob ?sha ?job)) (\<lambda>_. mapErr MinerRun (Runner_Run ?sha (sv_Runner s) ?job)) = Inr result"
    using res by simp
  obtain s1 dg ph bn where seal: "mineSeal cr osOK s request result = (s1, Some (Inr (dg, ph, bn)))"
    using mine guard run by (auto simp: Service_Mine_def Let_def split: prod.splits option.splits sum.splits)
  obtain q pro data store where c: "create (sv_providerState s) request (sv_ID s) = (q, Some (Inr (pro, data)))"
      and put: "Put ?sha osOK (sv_proofStore s) data = (store, Inr (HashBytes ?sha data))"
      and out: "s1 = s\<lparr>sv_providerState := q, sv_proofStore := store\<rparr>" "dg = seal_AIDigest (prf_Seal pro)" "ph = seal_ProofHash (prf_Seal pro)"
        "bn = Some \<lparr>ab_MinerID = sv_ID s, ab_ProofHash = seal_ProofHash (prf_Seal pro), ab_ContentHash = HashBytes ?sha data,
           ab_Proof = string_of data\<rparr>"
    using seal provider
    by (auto simp: mineSeal_def Let_def Put_simp split: prod.splits option.splits sum.splits if_splits)
  obtain zh zb where z: "mineZKML cr g s1 request result = Inr (zh, zb)"
    using mine guard run seal by (auto simp: Service_Mine_def Let_def split: sum.splits prod.splits)
  let ?c = "challengeTicket ?sha s1 request result dg ph zh"
  obtain t where t: "Mine ?sha ctxDone ?c (sv_MaxNonce s1) = Some (Inr t)"
      "mr_Ticket r = t\<lparr>tk_Signature := EncodeToString (cr_sign cr (sv_PrivateKey s1) (TicketSigningBytes t))\<rparr>"
      "mr_Result r = result" "mr_AIProof r = bn"
    using mine guard run seal z by (auto simp: Service_Mine_def Let_def )
  have "?c = challengeTicket ?sha s request result dg ph zh" by (simp add: challengeTicket_def out(1))
  moreover have "tk_Nonce ?c = 0" "tk_WorkHash ?c = []" by (simp_all add: challengeTicket_def)
  ultimately have "t\<lparr>tk_Nonce := 0, tk_WorkHash := []\<rparr> = challengeTicket ?sha s request result dg ph zh" using Mine_found[OF t(1)] by simp
  then show thesis
    using that[of q pro data t zh] guard res(2) c t(2-4) out Mine_found[OF t(1)] by simp
qed

section \<open>Acceptance\<close>

lemma VerifyExpected_mono:
  assumes "VerifyExpected pro r e = Inr ()" "exp_BlockHash e' = exp_BlockHash e" "exp_Miner e' = exp_Miner e" "exp_Epoch e' = exp_Epoch e"
    "exp_ManifestRoot e' = exp_ManifestRoot e" "exp_MinPoWSamples e' \<le> exp_MinPoWSamples e" "exp_MinTensorSamples e' \<le> exp_MinTensorSamples e"
  shows "VerifyExpected pro r e' = Inr ()"
  using assms by (auto simp: VerifyExpected_def Let_def split: if_splits)

text \<open>A node that holds the manifest of the provider's DAG and asks for no more samples than the provider takes.\<close>

definition sealPolicy :: "'x Node \<Rightarrow> FileProofProvider \<Rightarrow> bool" where
  "sealPolicy n p \<longleftrightarrow> nd_aiSealManifest n = Some (fp_Manifest p) \<and> nd_aiSealTarget n = fp_Target p
     \<and> nd_manifestRoot n = man_ManifestRoot (fp_Manifest p)
     \<and> nd_minPoWSamples n \<le> fp_PoWSamples p \<and> nd_minTensorSamples n \<le> fp_TensorSamples p"

lemma verifySeal_accepts:
  assumes create: "FileProofProvider_Create (nv_blake3 v) sealDone fs p others q0 request minerID = (q, Some (Inr (pro, data)))"
    and files: "filesOK (nv_blake3 v) fs p" "samplesOK p" and policy: "sealPolicy n p" "nv_unmarshalProof v = unmarshalProof"
    and bn: "pm minerID = Some \<lparr>ab_MinerID = minerID, ab_ProofHash = seal_ProofHash (prf_Seal pro),
      ab_ContentHash = HashBytes (nv_sha256 v) data, ab_Proof = string_of data\<rparr>"
    and ticket: "tk_MinerID t = minerID" "tk_AIProofHash t = seal_ProofHash (prf_Seal pro)" "tk_AIDigest t = seal_AIDigest (prf_Seal pro)"
  shows "verifySeal v n (fp_Manifest p) (mq_Height request) (mq_ParentHash request) pm t =
    (if length data \<le> 8388608 then Inr () else Inl (SealInvalid minerID (ProofTooLarge (length data))))"
proof -
  obtain k where k: "ProveFiles (nv_blake3 v) sealDone fs (attemptConfig p request minerID k) = Some (Inr (pro, data))"
      "fp_Target p = [] \<or> WorkMeetsTarget (seal_WorkHash (prf_Seal pro)) (fp_Target p) = Inr True"
    using create createLoop_returns by (force simp: FileProofProvider_Create_def Let_def)
  obtain r where r: "unmarshalProof data = Some pro" "Verify (nv_blake3 v) (fp_Manifest p) pro [] DefaultLimits = Some (Inr r)"
      "vr_ProofHash r = seal_ProofHash (prf_Seal pro)" "vr_AIDigest r = seal_AIDigest (prf_Seal pro)"
      "VerifyExpected pro r (challengeOf (attemptConfig p request minerID k)) = Inr ()"
    using attempt_sound[OF k(1) files] by blast
  have verified: "Verify (nv_blake3 v) (fp_Manifest p) pro (fp_Target p) DefaultLimits = Some (Inr r)"
  proof (cases "fp_Target p = []")
    case False
    then obtain w where "decodeHex32 (fp_Target p) = Inr w" "hashMeetsTarget (computeWorkHash (nv_blake3 v) (prf_Seal pro)) w"
      using k(2) ProveFiles_work[OF k(1)] by (auto simp: WorkMeetsTarget_formatHash)
    then show ?thesis using Verify_target[OF r(2)] by blast
  qed (use r(2) in simp)
  have "VerifyExpected pro r \<lparr>exp_BlockHash = mq_ParentHash request, exp_Miner = minerID, exp_Epoch = mq_Height request,
      exp_ManifestRoot = nd_manifestRoot n, exp_MinPoWSamples = nd_minPoWSamples n, exp_MinTensorSamples = nd_minTensorSamples n\<rparr> = Inr ()"
    by (rule VerifyExpected_mono[OF r(5)]) (use policy(1) in \<open>simp_all add: challengeOf_def attemptConfig_def sealPolicy_def\<close>)
  then show ?thesis
    using bn ticket verified r(1,3,4) policy
    by (simp add: verifySeal_def VerifyBytes_def DefaultLimits_def Let_def sealPolicy_def equalHash_def)
qed

section \<open>A concrete miner\<close>

text \<open>One sample of each kind is always drawn.\<close>

lemma derive_one:
  assumes "man_TotalPages m \<noteq> 0" "man_ModelPageCount m \<noteq> 0" "seal_PoWSampleCount s = 1" "seal_TensorSampleCount s = 1"
  shows "\<exists>pw tn req. deriveRequiredPages blake3 m s = Some (Inr (pw, tn, req)) \<and> length req \<le> 2"
proof -
  have one: "\<exists>x. sampleUnique blake3 d m s 1 start span = Some [x]" if "span \<noteq> 0" for d start span
    using that by (simp add: sampleUnique_def sampleLoop.simps Let_def sortSlice_def)
  obtain x y where "sampleUnique blake3 domainSamplePoW m s 1 0 (man_TotalPages m) = Some [x]"
    "sampleUnique blake3 domainSampleTensor m s 1 (man_ModelStartPage m) (man_ModelPageCount m) = Some [y]"
    using one assms(1,2) by blast
  moreover have "\<not> 1 > man_TotalPages m" "\<not> 1 > man_ModelPageCount m"
    using assms(1,2) by (simp_all add: word_less_nat_alt not_less unat_gt_0 Suc_le_eq)
  ultimately show ?thesis using assms(3,4) by (auto simp: deriveRequiredPages_def sortSlice_def)
qed

text \<open>The provider on the files of the generated DAG, its node and its miner.\<close>

definition exProvider :: "Manifest \<Rightarrow> FileProofProvider" where
  "exProvider m = \<lparr>fp_DAGPath = ''o'', fp_SidecarPath = [], fp_Manifest = m, fp_PoWSamples = 1, fp_TensorSamples = 1,
     fp_Target = [], fp_MaxSealAttempts = 1\<rparr>"

definition sealEnv :: "Mock env" where
  "sealEnv = exampleEnv\<lparr>nv_blake3 := hashE, nv_unmarshalProof := unmarshalProof\<rparr>"

definition sealNode :: "Manifest \<Rightarrow> Mock Node" where
  "sealNode m = (exampleNode 1 ''b'')\<lparr>nd_aiSealManifest := Some m, nd_manifestRoot := man_ManifestRoot m, nd_minPoWSamples := 1,
     nd_minTensorSamples := 1\<rparr>"

definition sealService :: "(string \<rightharpoonup> bytes) \<Rightarrow> Manifest \<Rightarrow> int \<Rightarrow> u64 Service" where
  "sealService fs m cap = \<lparr>sv_ID = ''a'', sv_PrivateKey = replicate 64 0, sv_Difficulty = 0, sv_MaxNonce = 10,
     sv_ManifestRoot = man_ManifestRoot m, sv_Runner = DummyRunner [], sv_ZKMLProver = None,
     sv_ProofProvider = Some (FileProofProvider_Create hashE (\<lambda>_. False) fs (exProvider m) (\<lambda>_. 0)), sv_providerState = 0,
     sv_proofStore = exampleStore cap\<rparr>"

lemma ex_files:
  obtains fs m pro data where "filesOK hashE fs (exProvider m)" "samplesOK (exProvider m)"
    "FileProofProvider_Create hashE (\<lambda>_. False) fs (exProvider m) (\<lambda>_. 0) 0 exampleRequest ''a'' = (1, Some (Inr (pro, data)))"
proof (rule ex_generated)
  fix fs' model fm0 assume on: "generatedOn hashE fs' ''o'' ''o.meta'' ''o.sidecar'' model"
    and rd: "readManifest fs' ''o.meta'' = Inr fm0" "man_PageSize fm0 = 1048576"
  show thesis
  proof (rule generatedOn_parts[OF on])
    fix fm f sidecar sm fsb tmpDag createdAt
    assume a: "fs' ''o'' = Some f" "fs' ''o.sidecar'' = Some sidecar" "validateManifestBasics fm = Inr ()" "ValidateManifest hashE fm = Inr ()"
      "buildMerkleSidecarTempFromDAG hashE fsb tmpDag fm createdAt = Inr (sidecar, sm)" "fsb tmpDag = Some f" "length createdAt \<le> 100"
      "unat (man_TotalPages fm) * unat (man_PageSize fm) < 2 ^ 63" "192 \<le> man_PageSize fm" "of_nat (length f) = man_TotalBytes fm"
      "readManifest fs' ''o.meta'' = Inr fm"
    let ?p = "exProvider fm"
    have files: "filesOK hashE fs' ?p"
      using a(1-8,10) by (auto simp: filesOK_def exProvider_def Let_def)
    have samples: "samplesOK ?p" using a(11) rd by (simp add: samplesOK_def exProvider_def)
    let ?cfg = "attemptConfig ?p exampleRequest ''a'' 0"
    have c: "pc_Manifest ?cfg = fm" "pc_DAGPath ?cfg = ''o''" "pc_SidecarPath ?cfg = []" "pc_Miner ?cfg = ''a''" "pc_PoWSamples ?cfg = 1"
      "pc_TensorSamples ?cfg = 1" "pc_Target ?cfg = []" "pc_BlockHash ?cfg = GenesisHash"
      by (simp_all add: attemptConfig_def exProvider_def exampleRequest_def)
    have one: "seal_PoWSampleCount (challengeSeal ?cfg) = 1" "seal_TensorSampleCount (challengeSeal ?cfg) = 1"
      by (simp_all add: challengeSeal_def c Let_def)
    have ne: "man_TotalPages fm \<noteq> 0" "man_ModelPageCount fm \<noteq> 0" using a(3) unfolding validateManifestBasics_iff by blast+
    obtain pw tn req where r: "deriveRequiredPages hashE fm (challengeSeal ?cfg) = Some (Inr (pw, tn, req))" "length req \<le> 2"
      using derive_one[OF ne one, of hashE] by blast
    have ctx: "\<forall>i \<in> set req. \<not> (\<lambda>_. False) i" by simp
    have disk: "fs' (sidecarPathOf ?cfg) = Some sidecar" "fs' (pc_DAGPath ?cfg) = Some f"
      using a(1,2) by (simp_all add: sidecarPathOf_def c)
    have g: "pc_DAGPath ?cfg \<noteq> []" "pc_BlockHash ?cfg \<noteq> []" "pc_Miner ?cfg \<noteq> []" "0 < pc_PoWSamples ?cfg" "0 \<le> pc_TensorSamples ?cfg"
      "pc_TensorSamples ?cfg = 0 \<or> 192 \<le> man_PageSize fm"
      using a(9) by (simp_all add: c GenesisHash_def)
    have l: "0 < lim_MaxPages DefaultLimits" "int (length req) \<le> lim_MaxPages DefaultLimits" "man_PageSize fm \<le> lim_MaxPageSize DefaultLimits"
      using r(2) a(11) rd by (simp_all add: DefaultLimits_def)
    obtain pro data where "ProveFiles hashE (\<lambda>_. False) fs' ?cfg = Some (Inr (pro, data))"
      using ProveFiles_built[where fs = fs', OF a(4) c(1)[symmetric] a(5-8) disk a(10) g(1-5) g(6) r(1) ctx l] c(7) by blast
    then have "FileProofProvider_Create hashE (\<lambda>_. False) fs' ?p (\<lambda>_. 0) 0 exampleRequest ''a'' = (1, Some (Inr (pro, data)))"
      by (simp add: FileProofProvider_Create_def exProvider_def Let_def)
    then show thesis by (rule that[OF files samples])
  qed
qed

lemma seal_mines:
  assumes create: "FileProofProvider_Create hashE (\<lambda>_. False) fs (exProvider m) (\<lambda>_. 0) 0 exampleRequest ''a'' = (1, Some (Inr (pro, data)))"
  shows "\<exists>s' r. Service_Mine (nv_crypto sealEnv) (nv_groth16 sealEnv) True (\<lambda>_. False)
      (sealService fs m (int (length data))) exampleRequest = (s', Some (Inr r))"
proof -
  have job: "ValidateAIJob (\<lambda>b. b) exampleJob = Inr ()" by (simp add: exampleJob_def NewAIJob_def ValidateAIJob_def)
  have ne: "aj_ID exampleJob \<noteq> []" by (simp add: exampleJob_def NewAIJob_def jobID_def HashJSON_def HashBytes_def)
  then obtain result where run: "Dummy_Run (\<lambda>b. b) [] exampleJob = Inr result"
    by (simp add: Dummy_Run_def Let_def exampleJob_def NewAIJob_def)
  have d: "data \<noteq> []" using create by (auto simp: FileProofProvider_Create_def exProvider_def Let_def split: option.splits sum.splits
        dest!: ProveFiles_nonempty)
  obtain store where put: "Put (\<lambda>b. b) True (exampleStore (int (length data))) data = (store, Inr (HashBytes (\<lambda>b. b) data))"
    using Put_succeeds[OF _ d] by (fastforce simp: exampleStore_def)
  let ?s = "sealService fs m (int (length data))" and ?dg = "seal_AIDigest (prf_Seal pro)" and ?ph = "seal_ProofHash (prf_Seal pro)"
  let ?s1 = "?s\<lparr>sv_providerState := 1, sv_proofStore := store\<rparr>"
  let ?c = "challengeTicket (\<lambda>b. b) ?s1 exampleRequest result ?dg ?ph []"
  have seal: "\<exists>bn. mineSeal toyCrypto True ?s exampleRequest result = (?s1, Some (Inr (?dg, ?ph, bn)))"
    using create put by (simp add: mineSeal_def sealService_def toyCrypto_def Let_def)
  have "Mine (\<lambda>b. b) (\<lambda>_. False) ?c 10 = Some (Inr (withNonce (\<lambda>b. b) ?c 0))"
    using ne easy_nonce[of ?c]
    by (simp add: Mine_def mineLoop_step challengeTicket_def exampleRequest_def sealService_def GenesisHash_def)
  then show ?thesis
    using job run seal by (fastforce simp: Service_Mine_def Runner_Run_def mineZKML_def sealEnv_def exampleEnv_def exampleRequest_def
        toyCrypto_def GenesisHash_def Let_def sealService_def)
qed

text \<open>
  C5: A miner that proves possession of the DAG is accepted by a node that holds the manifest only. With the DAG and the
  sidecar built for it on the miner's disk and samples within the limits of the verifier, whenever \<open>Mine\<close> with the file
  proof provider returns a response, its proof bundle and its ticket pass every check that a node with the same policy makes
  of a ticket, unless the proof is larger than the 8 MiB a node reads, which is the error it then gets: the bundle is
  stored under its content hash, the proof decodes, is for this block, miner and height, verifies against the manifest for
  the target and binds the digests of the ticket, the work meets the difficulty, and the signature is that of the miner.
\<close>

theorem sealed_ticket_accepted:
  assumes mine: "Service_Mine (nv_crypto v) (nv_groth16 v) osOK ctxDone s request = (s', Some (Inr r))"
    and provider: "sv_ProofProvider s = Some (FileProofProvider_Create (nv_blake3 v) sealDone fs p others)"
    and files: "filesOK (nv_blake3 v) fs p" "samplesOK p"
    and policy: "sealPolicy n p" "sv_Difficulty s = nd_difficulty n" "sv_ManifestRoot s = nd_manifestRoot n"
      "PublicKey (nd_validators n) (sv_ID s) = Some (cr_public (nv_crypto v) (sv_PrivateKey s))"
    and libraries: "keysWork (nv_crypto v)" "nv_unmarshalProof v = unmarshalProof"
  shows "\<exists>b. mr_AIProof r = Some b \<and> ab_MinerID b = sv_ID s \<and> tk_MinerID (mr_Ticket r) = sv_ID s
    \<and> (\<forall>pm. pm (sv_ID s) = Some b \<longrightarrow>
         checkTicket v n (mq_Height request) (mq_ParentHash request) (mq_Job request) (mr_Result r) pm (mr_Ticket r) =
           (if length (ab_Proof b) \<le> 8388608 then Inr ()
            else Inl (SealInvalid (sv_ID s) (ProofTooLarge (length (ab_Proof b))))))"
proof (rule Service_Mine_sealed[OF mine provider])
  fix q pro data zh t
  assume create: "FileProofProvider_Create (nv_blake3 v) sealDone fs p others (sv_providerState s) request (sv_ID s) = (q, Some (Inr (pro, data)))"
    and b: "mr_AIProof r = Some \<lparr>ab_MinerID = sv_ID s, ab_ProofHash = seal_ProofHash (prf_Seal pro),
       ab_ContentHash = HashBytes (nv_sha256 v) data, ab_Proof = string_of data\<rparr>"
    and t: "mr_Ticket r = t\<lparr>tk_Signature := EncodeToString (cr_sign (nv_crypto v) (sv_PrivateKey s) (TicketSigningBytes t))\<rparr>"
      "Ticket_Verify (nv_sha256 v) t = Inr ()"
      "t\<lparr>tk_Nonce := 0, tk_WorkHash := []\<rparr> = challengeTicket (nv_sha256 v) s request (mr_Result r)
       (seal_AIDigest (prf_Seal pro)) (seal_ProofHash (prf_Seal pro)) zh"
  have fields: "tk_Height t = mq_Height request" "tk_ParentHash t = mq_ParentHash request" "tk_JobID t = aj_ID (mq_Job request)"
    "tk_ResultHash t = HashJSON (nv_sha256 v) (result_json (mr_Result r))" "tk_AIDigest t = seal_AIDigest (prf_Seal pro)"
    "tk_MinerID t = sv_ID s" "tk_Difficulty t = sv_Difficulty s" "tk_ManifestRoot t = sv_ManifestRoot s"
    "tk_AIProofHash t = seal_ProofHash (prf_Seal pro)"
    using t(3) by (cases t; simp add: challengeTicket_def)+
  let ?verdict = "if length data \<le> 8388608 then Inr () else Inl (SealInvalid (sv_ID s) (ProofTooLarge (length data)))"
  have seal: "verifySeal v n (fp_Manifest p) (mq_Height request) (mq_ParentHash request) pm (mr_Ticket r) = ?verdict"
    if "pm (sv_ID s) = mr_AIProof r" for pm
    using that b t(1) fields by (intro verifySeal_accepts[OF create files policy(1) libraries(2)]) simp_all
  have ok: "ticketOK v n (mq_Height request) (mq_ParentHash request) (mq_Job request) (mr_Result r) (mr_Ticket r)"
    using t(1,2) fields policy(2-4) libraries(1) by (auto simp: ticketOK_def keysWork_def)
  have "checkTicket v n (mq_Height request) (mq_ParentHash request) (mq_Job request) (mr_Result r) pm (mr_Ticket r) = ?verdict"
    if "pm (sv_ID s) = mr_AIProof r" for pm
    using seal[of pm, OF that] policy(1) ok by (auto simp: checkTicket_def ticketOK_def sealPolicy_def Let_def split: option.splits)
  then show ?thesis using b t(1) fields(6) by (simp add: string_of_def)
qed

theorem sealed_ticket_accepted_witness:
  "\<exists>fs m cap s' r b. Service_Mine (nv_crypto sealEnv) (nv_groth16 sealEnv) True (\<lambda>_. False) (sealService fs m cap) exampleRequest
      = (s', Some (Inr r)) \<and> mr_AIProof r = Some b
    \<and> checkTicket sealEnv (sealNode m) (mq_Height exampleRequest) (mq_ParentHash exampleRequest) (mq_Job exampleRequest) (mr_Result r)
        (\<lambda>_. Some b) (mr_Ticket r) =
      (if length (ab_Proof b) \<le> 8388608 then Inr () else Inl (SealInvalid ''a'' (ProofTooLarge (length (ab_Proof b)))))"
proof (rule ex_files)
  fix fs m pro data
  assume f: "filesOK hashE fs (exProvider m)" "samplesOK (exProvider m)"
    and create: "FileProofProvider_Create hashE (\<lambda>_. False) fs (exProvider m) (\<lambda>_. 0) 0 exampleRequest ''a'' = (1, Some (Inr (pro, data)))"
  obtain s' r where mine: "Service_Mine (nv_crypto sealEnv) (nv_groth16 sealEnv) True (\<lambda>_. False)
      (sealService fs m (int (length data))) exampleRequest = (s', Some (Inr r))"
    using seal_mines[OF create] by blast
  have policy: "sealPolicy (sealNode m) (exProvider m)"
    by (simp add: sealPolicy_def sealNode_def exProvider_def exampleNode_def)
  have key: "PublicKey (nd_validators (sealNode m)) (sv_ID (sealService fs m c)) =
      Some (cr_public (nv_crypto sealEnv) (sv_PrivateKey (sealService fs m c)))" for c
    by (simp add: sealNode_def sealService_def sealEnv_def exampleNode_def exampleEnv_def toyCrypto_def PublicKey_def fourValidators_def fourKeys_def)
  have works: "keysWork (nv_crypto sealEnv)" by (simp add: sealEnv_def exampleEnv_def keysWork_def toyCrypto_def)
  have e: "sv_ProofProvider (sealService fs m c) = Some (FileProofProvider_Create (nv_blake3 sealEnv) (\<lambda>_. False) fs (exProvider m) (\<lambda>_. 0))"
    "sv_Difficulty (sealService fs m c) = nd_difficulty (sealNode m)" "sv_ManifestRoot (sealService fs m c) = nd_manifestRoot (sealNode m)"
    "filesOK (nv_blake3 sealEnv) fs (exProvider m)" "nv_unmarshalProof sealEnv = unmarshalProof" "sv_ID (sealService fs m c) = ''a''" for c
    using f(1) by (simp_all add: sealService_def sealEnv_def sealNode_def exampleNode_def)
  from sealed_ticket_accepted[OF mine e(1) e(4) f(2) policy e(2,3) key works e(5)] mine e(6) show ?thesis by fastforce
qed

end
