(* ===== verification/ZkmlKeys.thy ===== *)
theory ZkmlKeys
  imports Zkml JsonIndent Decode
begin

text \<open>
  The key files of the zkML prover (\<open>internal/zkml/zkml.go\<close>: \<open>Setup\<close>, \<open>Save\<close>, \<open>LoadProver\<close>, \<open>LoadVerifier\<close>).

  Constraint systems and keys are objects of the gnark library: the record \<open>gnark\<close> holds what the code calls of it,
  compilation, the setup, and the writer and reader of each kind of object. The directory maps file names to contents;
  what the operating system does with each file that is opened for writing is the argument \<open>os\<close>.
\<close>

record ('ccs, 'pk, 'vk) gnark =
  gn_Compile :: "'ccs option"
  gn_Setup :: "'ccs \<Rightarrow> ('pk \<times> 'vk) option"
  gn_WriteCS :: "'ccs \<Rightarrow> bytes"
  gn_ReadCS :: "bytes \<Rightarrow> 'ccs option"
  gn_WritePK :: "'pk \<Rightarrow> bytes"
  gn_ReadPK :: "bytes \<Rightarrow> 'pk option"
  gn_WriteVK :: "'vk \<Rightarrow> bytes"
  gn_ReadVK :: "bytes \<Rightarrow> 'vk option"

datatype keys_error = CompileFailed | SetupFailed | MkdirFailed | KeyOpenFailed string | KeyWriteFailed string | KeyReadFailed string

record ('ccs, 'pk, 'vk) zkml_Prover =
  pv_ccs :: 'ccs
  pv_pk :: 'pk
  pv_vk :: 'vk
  pv_circuitID :: string

record 'vk zkml_Verifier =
  ver_vk :: 'vk
  ver_circuitID :: string

definition verifyingKeyID :: "(bytes \<Rightarrow> bytes) \<Rightarrow> ('ccs, 'pk, 'vk) gnark \<Rightarrow> 'vk \<Rightarrow> string" where
  "verifyingKeyID sha256 g vk =
     (let encoded = gn_WriteVK g vk;
          hash = copy32 (sha256 (bytes_of (Scheme @ ''|'') @ encoded))
      in ''0x'' @ hexEncode hash)"

definition zkml_Setup ::
  "(bytes \<Rightarrow> bytes) \<Rightarrow> ('ccs, 'pk, 'vk) gnark \<Rightarrow> keys_error + ('ccs, 'pk, 'vk) zkml_Prover \<times> 'vk zkml_Verifier" where
  "zkml_Setup sha256 g =
     bindE (ofOption CompileFailed (gn_Compile g)) (\<lambda>ccs.
     bindE (ofOption SetupFailed (gn_Setup g ccs)) (\<lambda>(pk, vk).
       let ident = verifyingKeyID sha256 g vk
       in Inr (\<lparr>pv_ccs = ccs, pv_pk = pk, pv_vk = vk, pv_circuitID = ident\<rparr>, \<lparr>ver_vk = vk, ver_circuitID = ident\<rparr>)))"

section \<open>Writing\<close>

text \<open>
  What happens to a file opened for writing: opening fails and changes nothing; the write, the flush or the close fails
  and leaves some contents; or all goes through.
\<close>

datatype write_outcome = OpenFails | WriteFails bytes | Written

definition writeObject ::
  "(string \<Rightarrow> write_outcome) \<Rightarrow> string \<Rightarrow> bytes \<Rightarrow> (string \<rightharpoonup> bytes) \<Rightarrow> (string \<rightharpoonup> bytes) \<times> (keys_error + unit)" where
  "writeObject os path contents dir =
     (case os path of
        OpenFails \<Rightarrow> (dir, Inl (KeyOpenFailed path))
      | WriteFails left \<Rightarrow> (dir(path \<mapsto> left), Inl (KeyWriteFailed path))
      | Written \<Rightarrow> (dir(path \<mapsto> contents), Inr ()))"

fun writeAll ::
  "(string \<Rightarrow> write_outcome) \<Rightarrow> (string \<times> bytes) list \<Rightarrow> (string \<rightharpoonup> bytes) \<Rightarrow> (string \<rightharpoonup> bytes) \<times> (keys_error + unit)" where
  "writeAll os [] dir = (dir, Inr ())"
| "writeAll os ((path, contents) # files) dir =
     (case writeObject os path contents dir of
        (dir, Inl e) \<Rightarrow> (dir, Inl e)
      | (dir, Inr _) \<Rightarrow> writeAll os files dir)"

definition artifactManifest_json :: "string \<Rightarrow> jval" where
  "artifactManifest_json circuitID =
     JObj [(''scheme'', JStr Scheme), (''circuitId'', JStr circuitID), (''curve'', JStr ''BN254'')]"

text \<open>The four files in the order they are written.\<close>

definition artifacts :: "('ccs, 'pk, 'vk) gnark \<Rightarrow> ('ccs, 'pk, 'vk) zkml_Prover \<Rightarrow> (string \<times> bytes) list" where
  "artifacts g p =
     [(''circuit.r1cs'', gn_WriteCS g (pv_ccs p)), (''proving.key'', gn_WritePK g (pv_pk p)),
      (''verifying.key'', gn_WriteVK g (pv_vk p)),
      (''manifest.json'', json_marshalIndent (artifactManifest_json (pv_circuitID p)))]"

definition Prover_Save ::
  "('ccs, 'pk, 'vk) gnark \<Rightarrow> bool \<Rightarrow> (string \<Rightarrow> write_outcome) \<Rightarrow> ('ccs, 'pk, 'vk) zkml_Prover \<Rightarrow> (string \<rightharpoonup> bytes)
     \<Rightarrow> (string \<rightharpoonup> bytes) \<times> (keys_error + unit)" where
  "Prover_Save g mkdirOK os p dir =
     (if \<not> mkdirOK then (dir, Inl MkdirFailed) else writeAll os (artifacts g p) dir)"

section \<open>Reading\<close>

definition readObject :: "(bytes \<Rightarrow> 'a option) \<Rightarrow> (string \<rightharpoonup> bytes) \<Rightarrow> string \<Rightarrow> keys_error + 'a" where
  "readObject readFrom dir path =
     bindE (ofOption (KeyOpenFailed path) (dir path)) (\<lambda>contents.
     ofOption (KeyReadFailed path) (readFrom contents))"

definition loadVerifyingKey ::
  "(bytes \<Rightarrow> bytes) \<Rightarrow> ('ccs, 'pk, 'vk) gnark \<Rightarrow> (string \<rightharpoonup> bytes) \<Rightarrow> keys_error + 'vk \<times> string" where
  "loadVerifyingKey sha256 g dir =
     bindE (readObject (gn_ReadVK g) dir ''verifying.key'') (\<lambda>vk. Inr (vk, verifyingKeyID sha256 g vk))"

definition LoadVerifier ::
  "(bytes \<Rightarrow> bytes) \<Rightarrow> ('ccs, 'pk, 'vk) gnark \<Rightarrow> (string \<rightharpoonup> bytes) \<Rightarrow> keys_error + 'vk zkml_Verifier" where
  "LoadVerifier sha256 g dir =
     bindE (loadVerifyingKey sha256 g dir) (\<lambda>(vk, ident). Inr \<lparr>ver_vk = vk, ver_circuitID = ident\<rparr>)"

definition LoadProver ::
  "(bytes \<Rightarrow> bytes) \<Rightarrow> ('ccs, 'pk, 'vk) gnark \<Rightarrow> (string \<rightharpoonup> bytes)
     \<Rightarrow> keys_error + ('ccs, 'pk, 'vk) zkml_Prover \<times> 'vk zkml_Verifier" where
  "LoadProver sha256 g dir =
     bindE (readObject (gn_ReadCS g) dir ''circuit.r1cs'') (\<lambda>ccs.
     bindE (readObject (gn_ReadPK g) dir ''proving.key'') (\<lambda>pk.
     bindE (loadVerifyingKey sha256 g dir) (\<lambda>(vk, ident).
       Inr (\<lparr>pv_ccs = ccs, pv_pk = pk, pv_vk = vk, pv_circuitID = ident\<rparr>, \<lparr>ver_vk = vk, ver_circuitID = ident\<rparr>))))"

section \<open>Laws\<close>

text \<open>What the library documents: an object that was written is read back, and a setup makes a pair of keys.\<close>

definition readsBack :: "('ccs, 'pk, 'vk) gnark \<Rightarrow> bool" where
  "readsBack g \<longleftrightarrow> (\<forall>x. gn_ReadCS g (gn_WriteCS g x) = Some x) \<and> (\<forall>x. gn_ReadPK g (gn_WritePK g x) = Some x)
     \<and> (\<forall>x. gn_ReadVK g (gn_WriteVK g x) = Some x)"

lemma writeAll_ok:
  "writeAll os files dir = (dir', Inr ()) \<Longrightarrow> distinct (map fst files) \<Longrightarrow>
     (\<forall>(n, c) \<in> set files. dir' n = Some c) \<and> (\<forall>n. n \<notin> fst ` set files \<longrightarrow> dir' n = dir n)"
proof (induction files arbitrary: dir)
  case (Cons f files)
  obtain n c where f: "f = (n, c)" by (cases f)
  then have "writeAll os files (dir(n \<mapsto> c)) = (dir', Inr ())"
    using Cons.prems(1) by (auto simp: writeObject_def split: write_outcome.splits)
  from Cons.IH[OF this] Cons.prems(2) show ?case by (auto simp: f)
qed simp

lemma artifacts_names: "map fst (artifacts g p) = [''circuit.r1cs'', ''proving.key'', ''verifying.key'', ''manifest.json'']"
  by (simp add: artifacts_def)

section \<open>Properties\<close>

text \<open>
  C38: The key files are read back. When \<open>Save\<close> of the prover that \<open>Setup\<close> made succeeds, \<open>LoadProver\<close> on the directory
  gives the same prover and the same verifier, \<open>LoadVerifier\<close> the verifier alone, both with the circuit id of the setup, and
  nothing else in the directory has changed; this is so whatever is in \<open>manifest.json\<close> afterwards, which nobody reads: the
  circuit id is computed from the verifying key.
\<close>

theorem zkml_keys_roundtrip:
  assumes "readsBack g" "zkml_Setup sha256 g = Inr (p, v)" "Prover_Save g mkdirOK os p dir = (dir', Inr ())"
  shows "LoadProver sha256 g (dir'(''manifest.json'' := x)) = Inr (p, v) \<and> LoadVerifier sha256 g (dir'(''manifest.json'' := x)) = Inr v
    \<and> pv_circuitID p = ver_circuitID v
    \<and> (\<forall>n. n \<notin> fst ` set (artifacts g p) \<longrightarrow> dir' n = dir n)"
proof -
  have w: "writeAll os (artifacts g p) dir = (dir', Inr ())" using assms(3) by (auto simp: Prover_Save_def split: if_splits)
  have d: "distinct (map fst (artifacts g p))" by (simp add: artifacts_names)
  note files = writeAll_ok[OF w d]
  have "dir' ''circuit.r1cs'' = Some (gn_WriteCS g (pv_ccs p))" "dir' ''proving.key'' = Some (gn_WritePK g (pv_pk p))"
    "dir' ''verifying.key'' = Some (gn_WriteVK g (pv_vk p))"
    using files by (auto simp: artifacts_def)
  moreover have "pv_circuitID p = verifyingKeyID sha256 g (pv_vk p)" "ver_vk v = pv_vk p" "ver_circuitID v = pv_circuitID p"
    using assms(2) by (auto simp: zkml_Setup_def Let_def split: prod.splits)
  ultimately show ?thesis
    using assms(1) files by (cases p; cases v)
      (simp add: LoadProver_def LoadVerifier_def loadVerifyingKey_def readObject_def readsBack_def)
qed

definition toyKeys :: "(nat, nat, nat) gnark" where
  "toyKeys = \<lparr>gn_Compile = Some 1, gn_Setup = (\<lambda>n. Some (n + 1, n + 2)),
     gn_WriteCS = (\<lambda>n. replicate n 0), gn_ReadCS = (\<lambda>b. Some (length b)),
     gn_WritePK = (\<lambda>n. replicate n 0), gn_ReadPK = (\<lambda>b. Some (length b)),
     gn_WriteVK = (\<lambda>n. replicate n 0), gn_ReadVK = (\<lambda>b. Some (length b))\<rparr>"

lemma toyKeys_ok: "readsBack toyKeys"
  by (simp add: readsBack_def toyKeys_def)

theorem zkml_keys_roundtrip_witness:
  "\<exists>p v. zkml_Setup (\<lambda>b. b) toyKeys = Inr (p, v)
    \<and> LoadProver (\<lambda>b. b) toyKeys ((fst (Prover_Save toyKeys True (\<lambda>_. Written) p Map.empty))(''manifest.json'' := None)) = Inr (p, v)"
proof -
  obtain p v where s: "zkml_Setup (\<lambda>b. b) toyKeys = Inr (p, v)"
    by (simp add: zkml_Setup_def toyKeys_def Let_def)
  obtain dir' where w: "Prover_Save toyKeys True (\<lambda>_. Written) p Map.empty = (dir', Inr ())"
    by (simp add: Prover_Save_def artifacts_def writeObject_def)
  show ?thesis using s w zkml_keys_roundtrip[OF toyKeys_ok s w, of None] by auto
qed

text \<open>
  A \<open>Save\<close> that fails half way leaves files of two setups. When a directory holds the keys of one setup, and saving the
  prover of another replaces the constraint system and the proving key but cannot open the file of the verifying key, the
  call reports the error; but \<open>LoadProver\<close> on what is there then succeeds, with the new proving key under the old
  verifying key and the old circuit id: nothing compares the keys with each other.
\<close>

theorem zkml_keys_mixed:
  assumes "readsBack g" "dir ''verifying.key'' = Some (gn_WriteVK g vk)"
    and "os ''circuit.r1cs'' = Written" "os ''proving.key'' = Written" "os ''verifying.key'' = OpenFails"
  shows "\<exists>dir'. Prover_Save g True os p dir = (dir', Inl (KeyOpenFailed ''verifying.key''))
    \<and> LoadProver sha256 g dir' = Inr (p\<lparr>pv_vk := vk, pv_circuitID := verifyingKeyID sha256 g vk\<rparr>,
        \<lparr>ver_vk = vk, ver_circuitID = verifyingKeyID sha256 g vk\<rparr>)"
  using assms
  by (cases p) (simp add: Prover_Save_def artifacts_def writeObject_def LoadProver_def loadVerifyingKey_def readObject_def readsBack_def)

theorem zkml_keys_mixed_witness:
  "\<exists>dir'. Prover_Save toyKeys True (\<lambda>n. if n = ''verifying.key'' then OpenFails else Written)
      \<lparr>pv_ccs = 5, pv_pk = 6, pv_vk = 7, pv_circuitID = []\<rparr> [''verifying.key'' \<mapsto> replicate 3 0]
      = (dir', Inl (KeyOpenFailed ''verifying.key''))
    \<and> map_sum (\<lambda>_. ()) (\<lambda>(p, _). (pv_pk p, pv_vk p)) (LoadProver (\<lambda>b. b) toyKeys dir') = Inr (6, 3)"
proof -
  have "[''verifying.key'' \<mapsto> replicate 3 0] ''verifying.key'' = Some (gn_WriteVK toyKeys 3)" by (simp add: toyKeys_def)
  from zkml_keys_mixed[where dir = "[''verifying.key'' \<mapsto> replicate 3 0]", OF toyKeys_ok this,
      of "\<lambda>n. if n = ''verifying.key'' then OpenFails else Written" "\<lparr>pv_ccs = 5, pv_pk = 6, pv_vk = 7, pv_circuitID = []\<rparr>" "\<lambda>b. b"]
  show ?thesis by auto
qed

end
