(* ===== verification/Daemon.thy ===== *)
theory Daemon
  imports Network EngineClient_Laws ZkmlKeys
begin

text \<open>
  The processes of the chain (\<open>cmd/aidchaind/main.go\<close>): how \<open>node\<close> and \<open>miner\<close> turn their flags into a validator
  and a miner service, how \<open>demo\<close> sets up four of each, and the request of \<open>submit\<close>.

  The flags are records of their parsed values. What a process finds on its machine is the record \<open>host\<close>: the files by
  path, the directories of key files and object stores by path, whether directories can be created, and the endpoint behind a
  URL. Strings are ASCII
  where the code folds their case. The processes are modelled up to the start of their HTTP servers.
\<close>

section \<open>The engine of a process\<close>

text \<open>The interface value \<open>executionEngine\<close>: the mock, or a client with the endpoint it talks to.\<close>

type_synonym 's procEngine = "Mock + (Client \<times> 's)"

definition liftEngine :: "'a engine \<Rightarrow> 'b engine \<Rightarrow> ('a + 'b) engine" where
  "liftEngine E F =
     \<lparr>en_Build = (\<lambda>x input. case x of Inl a \<Rightarrow> apfst Inl (en_Build E a input) | Inr b \<Rightarrow> apfst Inr (en_Build F b input)),
      en_Validate = (\<lambda>x env. case x of Inl a \<Rightarrow> apfst Inl (en_Validate E a env) | Inr b \<Rightarrow> apfst Inr (en_Validate F b env)),
      en_Finalize = (\<lambda>x env. case x of Inl a \<Rightarrow> apfst Inl (en_Finalize E a env) | Inr b \<Rightarrow> apfst Inr (en_Finalize F b env)),
      en_Head = (\<lambda>x. case x of Inl a \<Rightarrow> en_Head E a | Inr b \<Rightarrow> en_Head F b)\<rparr>"

definition processEngine :: "(bytes \<Rightarrow> bytes) \<Rightarrow> (string \<Rightarrow> string) \<Rightarrow> 's world \<Rightarrow> 's procEngine engine" where
  "processEngine sha256 floatText w = liftEngine (mockEngine sha256 floatText) (clientEngine sha256 w)"

section \<open>Flags\<close>

datatype daemon_error =
    InvalidPeer string
  | TooFewPeers
  | NotAmongPeers
  | MinersFlag daemon_error
  | EngineURLsFlag daemon_error
  | DifficultyRange
  | IDRequired
  | DAGRequired
  | RoundsRange
  | NoListen string
  | EngineFork string
  | ProcValidators "unit hs_error"
  | ProcManifest prove_error
  | ProcKeys keys_error
  | ProcEngine client_error
  | ProcStore store_error
  | ProcNode node_error
  | ProcMiner miner_error
  | ParamsNotJSON

text \<open>\<open>strings.Split\<close> at a character, and \<open>strings.SplitN(s, "=", 2)\<close>.\<close>

fun splitAt :: "char \<Rightarrow> string \<Rightarrow> string list" where
  "splitAt c [] = [[]]"
| "splitAt c (x # s) =
     (if x = c then [] # splitAt c s
      else case splitAt c s of [] \<Rightarrow> [[x]] | part # parts \<Rightarrow> (x # part) # parts)"

definition splitPair :: "string \<Rightarrow> (string \<times> string) option" where
  "splitPair s =
     (case dropWhile (\<lambda>c. c \<noteq> CHR ''='') s of
        [] \<Rightarrow> None
      | _ # rest \<Rightarrow> Some (takeWhile (\<lambda>c. c \<noteq> CHR ''='') s, rest))"

text \<open>The Go map is an association list; a later entry replaces the address of an earlier one.\<close>

fun parseItems :: "string list \<Rightarrow> (string \<times> string) list \<Rightarrow> daemon_error + (string \<times> string) list" where
  "parseItems [] peers = Inr peers"
| "parseItems (item # items) peers =
     (let item = TrimSpace item in
      if item = [] then parseItems items peers
      else case splitPair item of
             None \<Rightarrow> Inl (InvalidPeer item)
           | Some (name, url) \<Rightarrow>
               if TrimSpace name = [] \<or> TrimSpace url = [] then Inl (InvalidPeer item)
               else parseItems items (AList.update (TrimSpace name) (TrimRightSlash (TrimSpace url)) peers))"

definition parsePeers :: "string \<Rightarrow> daemon_error + (string \<times> string) list" where
  "parsePeers spec =
     bindE (parseItems (splitAt CHR '','' spec) []) (\<lambda>peers.
       if length peers < 4 then Inl TooFewPeers else Inr peers)"

definition parseEngineFork :: "string \<Rightarrow> daemon_error + string" where
  "parseEngineFork val =
     (let v = ToLower (TrimSpace val) in
      if v = ForkOsaka then Inr ForkOsaka
      else if v = ForkAmsterdam then Inr ForkAmsterdam
      else Inl (EngineFork val))"

definition short :: "string \<Rightarrow> string" where
  "short hash = (if length hash \<le> 14 then hash else take 14 hash)"

section \<open>The machine\<close>

record ('ccs, 'pk, 'vk, 's) host =
  ho_fs :: "string \<rightharpoonup> bytes"
  ho_keys :: "string \<Rightarrow> string \<rightharpoonup> bytes"
  ho_stores :: "string \<Rightarrow> string \<rightharpoonup> bytes"
  ho_mkdirOK :: bool
  ho_gnark :: "('ccs, 'pk, 'vk) gnark"
  ho_endpoint :: "string \<Rightarrow> 's"
  ho_sealDone :: "u64 \<Rightarrow> bool"
  ho_nonces :: "nat \<Rightarrow> u64"

section \<open>A validator\<close>

record nodeFlags =
  nf_id :: string
  nf_peers :: string
  nf_miners :: string
  nf_difficulty :: int
  nf_evmURL :: string
  nf_manifestRoot :: string
  nf_aidagMeta :: string
  nf_powSamples :: int
  nf_tensorSamples :: int
  nf_aisealTarget :: string
  nf_objectDir :: string
  nf_engineURL :: string
  nf_engineJWT :: string
  nf_engineGenesis :: string
  nf_engineFork :: string
  nf_zkmlArtifacts :: string
  nf_minZKMLProofs :: int

definition loadManifest ::
  "(bytes \<Rightarrow> bytes) \<Rightarrow> (string \<rightharpoonup> bytes) \<Rightarrow> string \<Rightarrow> string \<Rightarrow> daemon_error + (Manifest option \<times> string)" where
  "loadManifest blake3 fs meta manifestRoot =
     (if meta = [] then Inr (None, manifestRoot)
      else bindE (mapErr ProcManifest (LoadManifestFile blake3 fs meta)) (\<lambda>m. Inr (Some m, man_ManifestRoot m)))"

definition engineFor ::
  "(string \<rightharpoonup> bytes) \<Rightarrow> 's \<Rightarrow> string \<Rightarrow> string \<Rightarrow> string \<Rightarrow> string \<Rightarrow> daemon_error + 's procEngine" where
  "engineFor fs endpoint fork url token genesis =
     (if url = [] then Inr (Inl (NewMock fork genesis))
      else
        bindE (mapErr ProcEngine (LoadJWTSecret fs token)) (\<lambda>secret.
        bindE (mapErr ProcEngine (EngineClient_New \<lparr>cc_URL = url, cc_Fork = fork, cc_GenesisHash = genesis, cc_JWTSecret = secret\<rparr>))
          (\<lambda>c. Inr (Inr (c, endpoint)))))"

definition runnerFor :: "string \<Rightarrow> bool \<Rightarrow> Runner" where
  "runnerFor manifestRoot zk = (if zk then QuantizedRunner manifestRoot else DummyRunner manifestRoot)"

text \<open>\<open>runNode\<close> up to the call of \<open>node.New\<close>.\<close>

definition nodeConfig ::
  "'s procEngine env \<Rightarrow> ('ccs, 'pk, 'vk, 's) host \<Rightarrow> nodeFlags \<Rightarrow> daemon_error + 's procEngine Config" where
  "nodeConfig v h f =
     bindE (parsePeers (nf_peers f)) (\<lambda>peers.
     if nf_id f \<notin> fst ` set peers then Inl NotAmongPeers
     else bindE (mapErr MinersFlag (parsePeers (nf_miners f))) (\<lambda>miners.
     if nf_difficulty f < 0 \<or> nf_difficulty f > 255 then Inl DifficultyRange
     else
       let (validatorSet, privateKeys) = DevnetValidatorSet (nv_crypto v) (sort (map fst peers)) in
     bindE (mapErr ProcValidators validatorSet) (\<lambda>validators.
     bindE (loadManifest (nv_blake3 v) (ho_fs h) (nf_aidagMeta f) (nf_manifestRoot f)) (\<lambda>(manifest, manifestRoot).
     bindE (if nf_zkmlArtifacts f = [] then Inr None
            else mapErr ProcKeys (bindE (LoadVerifier (nv_sha256 v) (ho_gnark h) (ho_keys h (nf_zkmlArtifacts f)))
                   (\<lambda>zk. Inr (Some (ver_circuitID zk))))) (\<lambda>zkVerifier.
     bindE (parseEngineFork (nf_engineFork f)) (\<lambda>fork.
     bindE (engineFor (ho_fs h) (ho_endpoint h (nf_engineURL f)) fork (nf_engineURL f) (nf_engineJWT f) (nf_engineGenesis f)) (\<lambda>executionEngine.
     bindE (if nf_objectDir f = [] then Inr None
            else bindE (mapErr ProcStore (Store_New (ho_mkdirOK h) (nf_objectDir f) 33554432 (ho_stores h (nf_objectDir f))))
                   (\<lambda>s. Inr (Some s))) (\<lambda>objectStore.
     Inr \<lparr>cf_ID = nf_id f, cf_PrivateKey = the (map_of privateKeys (nf_id f)), cf_Validators = Some validators,
          cf_Peers = peers, cf_Miners = miners, cf_Difficulty = word_of_int (nf_difficulty f), cf_ManifestRoot = manifestRoot,
          cf_AISealManifest = manifest, cf_AISealTarget = nf_aisealTarget f, cf_MinPoWSamples = nf_powSamples f,
          cf_MinTensorSamples = nf_tensorSamples f, cf_EVMURL = nf_evmURL f, cf_ExecutionEngine = executionEngine,
          cf_ObjectStore = objectStore, cf_AIRunner = Some (runnerFor manifestRoot (zkVerifier \<noteq> None)),
          cf_ZKMLVerifier = zkVerifier, cf_MinZKMLProofs = nf_minZKMLProofs f\<rparr>))))))))"

definition runNode ::
  "'s procEngine env \<Rightarrow> ('ccs, 'pk, 'vk, 's) host \<Rightarrow> nodeFlags \<Rightarrow> daemon_error + 's procEngine Node" where
  "runNode v h f = bindE (nodeConfig v h f) (\<lambda>cfg. mapErr ProcNode (Node_New v cfg))"

section \<open>A miner\<close>

record minerFlags =
  mf_id :: string
  mf_difficulty :: int
  mf_maxNonce :: u64
  mf_manifestRoot :: string
  mf_aidagPath :: string
  mf_aidagMeta :: string
  mf_aidagSidecar :: string
  mf_powSamples :: int
  mf_tensorSamples :: int
  mf_aisealTarget :: string
  mf_storageDir :: string
  mf_maxSealAttempts :: u64
  mf_zkmlArtifacts :: string

definition providerFor :: "minerFlags \<Rightarrow> Manifest \<Rightarrow> FileProofProvider" where
  "providerFor f m =
     \<lparr>fp_DAGPath = mf_aidagPath f, fp_SidecarPath = mf_aidagSidecar f, fp_Manifest = m, fp_PoWSamples = mf_powSamples f,
      fp_TensorSamples = mf_tensorSamples f, fp_Target = mf_aisealTarget f, fp_MaxSealAttempts = mf_maxSealAttempts f\<rparr>"

definition runMiner ::
  "crypto \<Rightarrow> (bytes \<Rightarrow> bytes) \<Rightarrow> ('ccs, 'pk, 'vk, 's) host \<Rightarrow> minerFlags \<Rightarrow> daemon_error + u64 Service" where
  "runMiner cr blake3 h f =
     (if mf_id f = [] \<or> mf_difficulty f < 0 \<or> mf_difficulty f > 255 then Inl IDRequired
      else
     bindE (loadManifest blake3 (ho_fs h) (mf_aidagMeta f) (mf_manifestRoot f)) (\<lambda>(manifest, manifestRoot).
     if manifest \<noteq> None \<and> mf_aidagPath f = [] then Inl DAGRequired
     else
     bindE (mapErr ProcMiner (Service_New 0 (mf_id f) (DevnetPrivateKey cr (mf_id f)) (word_of_int (mf_difficulty f))
              (mf_maxNonce f) manifestRoot)) (\<lambda>service.
     bindE (if mf_storageDir f = [] then Inr service
            else bindE (mapErr ProcStore (Store_New (ho_mkdirOK h) (mf_storageDir f) 16777216 (ho_stores h (mf_storageDir f))))
                   (\<lambda>s. Inr (SetProofStore service (Some s)))) (\<lambda>service.
     let service = (case manifest of
           None \<Rightarrow> service
         | Some m \<Rightarrow> SetProofProvider service
             (Some (FileProofProvider_Create blake3 (ho_sealDone h) (ho_fs h) (providerFor f m) (ho_nonces h))) 0)
     in if mf_zkmlArtifacts f = [] then Inr service
        else bindE (mapErr ProcKeys (LoadProver (cr_sha256 cr) (ho_gnark h) (ho_keys h (mf_zkmlArtifacts f)))) (\<lambda>(prover, _).
          Inr (SetZKMLProver (SetRunner service (Some (QuantizedRunner manifestRoot))) (Some (pv_circuitID prover))))))))"

section \<open>The demo network\<close>

text \<open>\<open>runDemo\<close> up to the first round. \<open>listen\<close> is the URL of a server that is started at an address.\<close>

record demoFlags =
  df_rounds :: int
  df_basePort :: int
  df_difficulty :: int
  df_maxNonce :: u64
  df_evmURL :: string
  df_manifestRoot :: string
  df_aidagPath :: string
  df_aidagMeta :: string
  df_aidagSidecar :: string
  df_powSamples :: int
  df_tensorSamples :: int
  df_aisealTarget :: string
  df_maxSealAttempts :: u64
  df_engineURLs :: string
  df_engineJWT :: string
  df_engineGenesis :: string
  df_engineFork :: string
  df_zkml :: bool
  df_zkmlArtifacts :: string

text \<open>What the four nodes and miners share.\<close>

record demoSetup =
  ds_validators :: ValidatorSet
  ds_privateKeys :: "(string \<times> bytes) list"
  ds_manifest :: "Manifest option"
  ds_manifestRoot :: string
  ds_circuitIDs :: "(string \<times> string) option"
  ds_fork :: string
  ds_engines :: "((string \<times> string) list \<times> bytes) option"

record 'x demoPart =
  dp_id :: string
  dp_node :: "'x Node"
  dp_url :: string
  dp_miner :: "u64 Service"
  dp_minerURL :: string

definition demoIDs :: "string list" where
  "demoIDs = [''node0'', ''node1'', ''node2'', ''node3'']"

text \<open>The circuit identifiers of the prover and the verifier: keys that are made now, or read.\<close>

definition demoKeys ::
  "(bytes \<Rightarrow> bytes) \<Rightarrow> ('ccs, 'pk, 'vk, 's) host \<Rightarrow> demoFlags \<Rightarrow> daemon_error + (string \<times> string) option" where
  "demoKeys sha256 h f =
     (if \<not> df_zkml f \<and> df_zkmlArtifacts f = [] then Inr None
      else bindE (mapErr ProcKeys (if df_zkmlArtifacts f = [] then zkml_Setup sha256 (ho_gnark h)
                  else LoadProver sha256 (ho_gnark h) (ho_keys h (df_zkmlArtifacts f)))) (\<lambda>(p, ver).
        Inr (Some (pv_circuitID p, ver_circuitID ver))))"

definition demoPrepare ::
  "'s procEngine env \<Rightarrow> ('ccs, 'pk, 'vk, 's) host \<Rightarrow> demoFlags \<Rightarrow> daemon_error + demoSetup" where
  "demoPrepare v h f =
     (if df_rounds f \<le> 0 \<or> df_difficulty f < 0 \<or> df_difficulty f > 255 then Inl RoundsRange
      else
        let (validatorSet, privateKeys) = DevnetValidatorSet (nv_crypto v) demoIDs in
      bindE (mapErr ProcValidators validatorSet) (\<lambda>validators.
      bindE (loadManifest (nv_blake3 v) (ho_fs h) (df_aidagMeta f) (df_manifestRoot f)) (\<lambda>(manifest, manifestRoot).
      if manifest \<noteq> None \<and> df_aidagPath f = [] then Inl DAGRequired
      else bindE (demoKeys (nv_sha256 v) h f) (\<lambda>circuitIDs.
      bindE (parseEngineFork (df_engineFork f)) (\<lambda>fork.
      bindE (if df_engineURLs f = [] then Inr None
             else bindE (mapErr EngineURLsFlag (parsePeers (df_engineURLs f))) (\<lambda>urls.
                  bindE (mapErr ProcEngine (LoadJWTSecret (ho_fs h) (df_engineJWT f))) (\<lambda>secret. Inr (Some (urls, secret)))))
        (\<lambda>engines.
      Inr \<lparr>ds_validators = validators, ds_privateKeys = privateKeys, ds_manifest = manifest, ds_manifestRoot = manifestRoot,
           ds_circuitIDs = circuitIDs, ds_fork = fork, ds_engines = engines\<rparr>))))))"

definition demoEngine ::
  "(string \<Rightarrow> 's) \<Rightarrow> demoFlags \<Rightarrow> demoSetup \<Rightarrow> string \<Rightarrow> daemon_error + 's procEngine" where
  "demoEngine endpoint f d ident =
     (case ds_engines d of
        None \<Rightarrow> Inr (Inl (NewMock (ds_fork d) (df_engineGenesis f)))
      | Some (urls, secret) \<Rightarrow>
          let url = (case map_of urls ident of None \<Rightarrow> [] | Some url \<Rightarrow> url) in
          bindE (mapErr ProcEngine (EngineClient_New
              \<lparr>cc_URL = url, cc_Fork = ds_fork d, cc_GenesisHash = df_engineGenesis f, cc_JWTSecret = secret\<rparr>))
            (\<lambda>c. Inr (Inr (c, endpoint url))))"

definition demoNode ::
  "'s procEngine env \<Rightarrow> demoFlags \<Rightarrow> demoSetup \<Rightarrow> string \<Rightarrow> 's procEngine \<Rightarrow> daemon_error + 's procEngine Node" where
  "demoNode v f d ident executionEngine =
     mapErr ProcNode (Node_New v
       \<lparr>cf_ID = ident, cf_PrivateKey = the (map_of (ds_privateKeys d) ident), cf_Validators = Some (ds_validators d), cf_Peers = [],
        cf_Miners = [], cf_Difficulty = word_of_int (df_difficulty f), cf_ManifestRoot = ds_manifestRoot d,
        cf_AISealManifest = ds_manifest d, cf_AISealTarget = df_aisealTarget f, cf_MinPoWSamples = df_powSamples f,
        cf_MinTensorSamples = df_tensorSamples f, cf_EVMURL = df_evmURL f, cf_ExecutionEngine = executionEngine,
        cf_ObjectStore = None, cf_AIRunner = Some (runnerFor (ds_manifestRoot d) (ds_circuitIDs d \<noteq> None)),
        cf_ZKMLVerifier = map_option snd (ds_circuitIDs d), cf_MinZKMLProofs = 0\<rparr>)"

definition demoProvider :: "demoFlags \<Rightarrow> Manifest \<Rightarrow> FileProofProvider" where
  "demoProvider f m =
     \<lparr>fp_DAGPath = df_aidagPath f, fp_SidecarPath = df_aidagSidecar f, fp_Manifest = m, fp_PoWSamples = df_powSamples f,
      fp_TensorSamples = df_tensorSamples f, fp_Target = df_aisealTarget f, fp_MaxSealAttempts = df_maxSealAttempts f\<rparr>"

definition demoMiner ::
  "(bytes \<Rightarrow> bytes) \<Rightarrow> ('ccs, 'pk, 'vk, 's) host \<Rightarrow> demoFlags \<Rightarrow> demoSetup \<Rightarrow> string \<Rightarrow> daemon_error + u64 Service" where
  "demoMiner blake3 h f d ident =
     bindE (mapErr ProcMiner (Service_New 0 ident (the (map_of (ds_privateKeys d) ident)) (word_of_int (df_difficulty f))
              (df_maxNonce f) (ds_manifestRoot d))) (\<lambda>service.
     let service = (case ds_manifest d of
           None \<Rightarrow> service
         | Some m \<Rightarrow> SetProofProvider service
             (Some (FileProofProvider_Create blake3 (ho_sealDone h) (ho_fs h) (demoProvider f m) (ho_nonces h))) 0)
     in Inr (case ds_circuitIDs d of
               None \<Rightarrow> service
             | Some (circuitID, _) \<Rightarrow>
                 SetZKMLProver (SetRunner service (Some (QuantizedRunner (ds_manifestRoot d)))) (Some circuitID)))"

fun demoLoop ::
  "'s procEngine env \<Rightarrow> ('ccs, 'pk, 'vk, 's) host \<Rightarrow> (string \<rightharpoonup> string) \<Rightarrow> demoFlags \<Rightarrow> demoSetup \<Rightarrow> int \<Rightarrow> string list
     \<Rightarrow> daemon_error + 's procEngine demoPart list" where
  "demoLoop v h listen f d i [] = Inr []"
| "demoLoop v h listen f d i (ident # ids) =
     (let address = ''127.0.0.1:'' @ jsonInt (df_basePort f + i); minerAddress = ''127.0.0.1:'' @ jsonInt (df_basePort f + 100 + i) in
      bindE (demoEngine (ho_endpoint h) f d ident) (\<lambda>executionEngine.
      bindE (demoNode v f d ident executionEngine) (\<lambda>n.
      bindE (ofOption (NoListen address) (listen address)) (\<lambda>url.
      bindE (demoMiner (nv_blake3 v) h f d ident) (\<lambda>s.
      bindE (ofOption (NoListen minerAddress) (listen minerAddress)) (\<lambda>minerURL.
      bindE (demoLoop v h listen f d (i + 1) ids) (\<lambda>parts.
      Inr (\<lparr>dp_id = ident, dp_node = n, dp_url = url, dp_miner = s, dp_minerURL = minerURL\<rparr> # parts))))))))"

definition connect :: "'x demoPart list \<Rightarrow> 'x demoPart list" where
  "connect parts =
     (let peers = map (\<lambda>p. (dp_id p, dp_url p)) parts; miners = map (\<lambda>p. (dp_id p, dp_minerURL p)) parts in
      map (\<lambda>p. p\<lparr>dp_node := SetMiners (SetPeers (dp_node p) peers) miners\<rparr>) parts)"

definition runDemo ::
  "'s procEngine env \<Rightarrow> ('ccs, 'pk, 'vk, 's) host \<Rightarrow> (string \<rightharpoonup> string) \<Rightarrow> demoFlags \<Rightarrow> daemon_error + 's procEngine demoPart list" where
  "runDemo v h listen f =
     bindE (demoPrepare v h f) (\<lambda>d. bindE (demoLoop v h listen f d 0 demoIDs) (\<lambda>parts. Inr (connect parts)))"

section \<open>Key files\<close>

definition runZKMLSetup ::
  "(bytes \<Rightarrow> bytes) \<Rightarrow> ('ccs, 'pk, 'vk) gnark \<Rightarrow> bool \<Rightarrow> (string \<Rightarrow> write_outcome) \<Rightarrow> (string \<rightharpoonup> bytes)
     \<Rightarrow> (string \<rightharpoonup> bytes) \<times> (daemon_error + string)" where
  "runZKMLSetup sha256 g mkdirOK os dir =
     (case zkml_Setup sha256 g of
        Inl e \<Rightarrow> (dir, Inl (ProcKeys e))
      | Inr (prover, verifier) \<Rightarrow>
          (case Prover_Save g mkdirOK os prover dir of
             (dir, Inl e) \<Rightarrow> (dir, Inl (ProcKeys e))
           | (dir, Inr _) \<Rightarrow> (dir, Inr (ver_circuitID verifier))))"

section \<open>Submitting a job\<close>

definition roundRequest_json :: "RoundRequest \<Rightarrow> jval" where
  "roundRequest_json r = JObj [(''job'', job_json (rq_Job r)), (''evm'', evmRequest_json (rq_EVM r))]"

definition runSubmit ::
  "(bytes \<Rightarrow> bytes) \<Rightarrow> string \<Rightarrow> string \<Rightarrow> string \<Rightarrow> string \<Rightarrow> string \<Rightarrow> string \<Rightarrow> daemon_error + (string \<times> bytes)" where
  "runSubmit sha256 created url model prompt evmMethod evmParams =
     (if \<not> json_Valid evmParams then Inl ParamsNotJSON
      else
        let request = \<lparr>rq_Job = NewAIJob sha256 created model prompt, rq_EVM = \<lparr>er_Method = evmMethod, er_Params = evmParams\<rparr>\<rparr>
        in Inr (TrimRightSlash url @ ''/v1/round'', json_marshal (roundRequest_json request)))"

end
