(* ===== verification/Daemon_Props.thy ===== *)
theory Daemon_Props
  imports Daemon Mining_Props
begin

text \<open>
  The processes fit together: nodes started with the same peers in any order have the same validators, and a miner started
  with the flags of the nodes meets the hypotheses under which its responses are accepted. The engine of a process keeps the
  contract of its two implementations.
\<close>

section \<open>The engine of a process\<close>

text \<open>A value of an interface type behaves as the implementation it holds.\<close>

locale two_engines = left: engine_head E + right: engine_head F for E :: "'a engine" and F :: "'b engine"
begin

lemma lift_head: "engine_head (liftEngine E F)"
proof unfold_locales
  fix x :: "'a + 'b" and input
  show "en_Head (liftEngine E F) (fst (en_Build (liftEngine E F) x input)) = en_Head (liftEngine E F) x"
    using left.build_head right.build_head by (cases x) (simp_all add: liftEngine_def)
next
  fix x :: "'a + 'b" and env
  show "en_Head (liftEngine E F) (fst (en_Validate (liftEngine E F) x env)) = en_Head (liftEngine E F) x"
    using left.validate_head right.validate_head by (cases x) (simp_all add: liftEngine_def)
next
  fix x x' :: "'a + 'b" and env
  assume "en_Finalize (liftEngine E F) x env = (x', Inr ())"
  then show "EqualFold (en_Head (liftEngine E F) x') (ex_BlockHash env)"
    using left.finalize_head right.finalize_head
    by (cases x) (auto simp: liftEngine_def apfst_def map_prod_def split: prod.splits)
next
  fix x x' :: "'a + 'b" and env e
  assume "en_Finalize (liftEngine E F) x env = (x', Inl e)"
  then show "en_Head (liftEngine E F) x' = en_Head (liftEngine E F) x"
    using left.finalize_error right.finalize_error
    by (cases x) (auto simp: liftEngine_def apfst_def map_prod_def split: prod.splits)
qed

end

sublocale two_engines \<subseteq> lifted: engine_head "liftEngine E F"
  by (rule lift_head)

interpretation proc: two_engines "mockEngine sha256 floatText" "clientEngine sha256 w"
  for sha256 floatText w
  by unfold_locales

section \<open>Peers\<close>

text \<open>An entry of the list of peers that is written the way it is read.\<close>

definition plainPeer :: "string \<times> string \<Rightarrow> bool" where
  "plainPeer p \<longleftrightarrow>
     (case p of (name, url) \<Rightarrow> name \<noteq> [] \<and> url \<noteq> [] \<and> CHR '','' \<notin> set (name @ url) \<and> CHR ''='' \<notin> set name
        \<and> \<not> isSpaceC (hd name) \<and> \<not> isSpaceC (last name) \<and> \<not> isSpaceC (hd url) \<and> \<not> isSpaceC (last url)
        \<and> last url \<noteq> CHR ''/'')"

definition peerItem :: "string \<times> string \<Rightarrow> string" where
  "peerItem p = fst p @ ''='' @ snd p"

lemma TrimSpace_plain: "s \<noteq> [] \<Longrightarrow> \<not> isSpaceC (hd s) \<Longrightarrow> \<not> isSpaceC (last s) \<Longrightarrow> TrimSpace s = s"
proof -
  assume s: "s \<noteq> []" "\<not> isSpaceC (hd s)" "\<not> isSpaceC (last s)"
  have "dropWhile isSpaceC s = s" using s(1,2) by (cases s) auto
  moreover have "dropWhile isSpaceC (rev s) = rev s" using s(1,3) by (cases "rev s") (auto simp: hd_rev[symmetric])
  ultimately show ?thesis by (simp add: TrimSpace_def)
qed

lemma TrimRightSlash_plain: "s \<noteq> [] \<Longrightarrow> last s \<noteq> CHR ''/'' \<Longrightarrow> TrimRightSlash s = s"
  by (cases "rev s") (auto simp: TrimRightSlash_def hd_rev[symmetric])

lemma splitAt_plain: "c \<notin> set s \<Longrightarrow> splitAt c s = [s]"
  by (induction s) auto

lemma splitAt_cons: "c \<notin> set s \<Longrightarrow> splitAt c (s @ c # r) = s # splitAt c r"
  by (induction s) auto

lemma splitAt_join:
  "xs \<noteq> [] \<Longrightarrow> \<forall>x \<in> set xs. c \<notin> set x \<Longrightarrow> splitAt c (concat (map (\<lambda>x. x @ [c]) (butlast xs)) @ last xs) = xs"
  by (induction xs) (auto simp: splitAt_plain splitAt_cons)

lemma splitPair_plain: "CHR ''='' \<notin> set name \<Longrightarrow> splitPair (name @ CHR ''='' # url) = Some (name, url)"
proof -
  assume n: "CHR ''='' \<notin> set name"
  then have "dropWhile (\<lambda>c. c \<noteq> CHR ''='') (name @ CHR ''='' # url) = CHR ''='' # url"
    "takeWhile (\<lambda>c. c \<noteq> CHR ''='') (name @ CHR ''='' # url) = name"
    by (induction name) auto
  then show ?thesis by (simp add: splitPair_def)
qed

lemma parseItems_plain:
  assumes "\<forall>p \<in> set ps. plainPeer p" "distinct (map fst (acc @ ps))"
  shows "parseItems (map peerItem ps) acc = Inr (acc @ ps)"
  using assms
proof (induction ps arbitrary: acc)
  case (Cons p ps)
  obtain name url where p: "p = (name, url)" by (cases p)
  have plain: "name \<noteq> []" "url \<noteq> []" "CHR ''='' \<notin> set name" "\<not> isSpaceC (hd name)" "\<not> isSpaceC (last name)"
    "\<not> isSpaceC (hd url)" "\<not> isSpaceC (last url)" "last url \<noteq> CHR ''/''"
    using Cons.prems(1) by (auto simp: p plainPeer_def)
  have item: "peerItem p = name @ CHR ''='' # url" by (simp add: p peerItem_def)
  have "TrimSpace (name @ CHR ''='' # url) = name @ CHR ''='' # url"
    by (rule TrimSpace_plain) (use plain in auto)
  moreover have "AList.update name url acc = acc @ [(name, url)]"
    using Cons.prems(2) by (intro update_new) (auto simp: p)
  ultimately have "parseItems (map peerItem (p # ps)) acc = parseItems (map peerItem ps) (acc @ [p])"
    using plain item by (simp add: splitPair_plain TrimSpace_plain TrimRightSlash_plain p)
  also have "\<dots> = Inr (acc @ p # ps)" using Cons.IH[of "acc @ [p]"] Cons.prems by simp
  finally show ?case .
qed simp

text \<open>The list of peers in the form of the flag.\<close>

definition joinPeers :: "(string \<times> string) list \<Rightarrow> string" where
  "joinPeers ps = concat (map (\<lambda>x. x @ '','') (butlast (map peerItem ps))) @ last (map peerItem ps)"

lemma parsePeers_join:
  assumes "\<forall>p \<in> set ps. plainPeer p" "distinct (map fst ps)" "4 \<le> length ps"
  shows "parsePeers (joinPeers ps) = Inr ps"
proof -
  have "\<forall>x \<in> set (map peerItem ps). CHR '','' \<notin> set x" using assms(1) by (fastforce simp: peerItem_def plainPeer_def)
  moreover have "map peerItem ps \<noteq> []" using assms(3) by auto
  ultimately have "splitAt CHR '','' (joinPeers ps) = map peerItem ps" using splitAt_join by (simp add: joinPeers_def)
  then show ?thesis using parseItems_plain[of ps "[]"] assms by (simp add: parsePeers_def)
qed

lemma parseItems_distinct: "parseItems items acc = Inr ps \<Longrightarrow> distinct (map fst acc) \<Longrightarrow> distinct (map fst ps)"
proof (induction items arbitrary: acc)
  case (Cons item items)
  then show ?case
    by (auto simp: Let_def AList.distinct_update split: if_splits option.splits prod.splits)
qed simp

lemma parsePeers_facts: "parsePeers spec = Inr ps \<Longrightarrow> distinct (map fst ps) \<and> 4 \<le> length ps"
  using parseItems_distinct[of "splitAt CHR '','' spec" "[]" ps] by (auto simp: parsePeers_def split: if_splits)

section \<open>Validators\<close>

definition devnetKey :: "crypto \<Rightarrow> string \<Rightarrow> string \<times> bytes" where
  "devnetKey cr i = (i, cr_public cr (DevnetPrivateKey cr i))"

lemma DevnetValidatorSet_distinct:
  "distinct ids \<Longrightarrow> DevnetValidatorSet cr ids = (NewValidatorSet (map (devnetKey cr) ids), map (\<lambda>i. (i, DevnetPrivateKey cr i)) ids)"
  by (simp add: DevnetValidatorSet_def devnetKey_def[abs_def] comp_def Let_def distinct_remdups_id)

lemma sort_names: "distinct (map fst peers) \<Longrightarrow> sort (map fst peers) = sorted_list_of_set (fst ` set peers)"
  by (metis list.set_map sorted_list_of_set_sort_remdups distinct_remdups_id)

lemma NewValidatorSet_key:
  "NewValidatorSet (map (devnetKey cr) ids) = Inr vs \<Longrightarrow> i \<in> set ids \<Longrightarrow> PublicKey vs i = Some (cr_public cr (DevnetPrivateKey cr i))"
  by (auto simp: NewValidatorSet_def PublicKey_def devnetKey_def[abs_def] map_of_map_restrict split: if_splits)

text \<open>What a node got from its flags.\<close>

lemma runNode_fields:
  assumes "runNode v h f = Inr n"
  obtains peers manifest manifestRoot zk where
    "parsePeers (nf_peers f) = Inr peers" "nf_id f \<in> fst ` set peers" "0 \<le> nf_difficulty f" "nf_difficulty f \<le> 255"
    "(NewValidatorSet (map (devnetKey (nv_crypto v)) (sorted_list_of_set (fst ` set peers))) :: unit hs_error + ValidatorSet) = Inr (nd_validators n)"
    "loadManifest (nv_blake3 v) (ho_fs h) (nf_aidagMeta f) (nf_manifestRoot f) = Inr (manifest, manifestRoot)"
    "nf_zkmlArtifacts f = [] \<and> zk = None
     \<or> nf_zkmlArtifacts f \<noteq> [] \<and> (\<exists>ver. LoadVerifier (nv_sha256 v) (ho_gnark h) (ho_keys h (nf_zkmlArtifacts f)) = Inr ver \<and> zk = Some (ver_circuitID ver))"
    "nd_id n = nf_id f" "nd_privateKey n = DevnetPrivateKey (nv_crypto v) (nf_id f)" "nd_difficulty n = word_of_int (nf_difficulty f)"
    "nd_aiSealManifest n = manifest" "nd_manifestRoot n = manifestRoot" "nd_aiSealTarget n = nf_aisealTarget f"
    "nd_minPoWSamples n = nf_powSamples f" "nd_minTensorSamples n = nf_tensorSamples f"
    "nd_runner n = runnerFor manifestRoot (zk \<noteq> None)" "nd_zkmlVerifier n = zk"
proof -
  obtain cfg where c: "nodeConfig v h f = Inr cfg" "Node_New v cfg = Inr n" using assms by (auto simp: runNode_def)
  obtain peers where p1: "parsePeers (nf_peers f) = Inr peers" using c(1) by (cases "parsePeers (nf_peers f)") (auto simp: nodeConfig_def)
  have d: "distinct (map fst peers)" using parsePeers_facts[OF p1] by simp
  then have ds: "distinct (sort (map fst peers))" by simp
  let ?ids = "sort (map fst peers)"
  have p2: "nf_id f \<in> fst ` set peers" using c(1) p1 by (auto simp: nodeConfig_def split: if_splits)
  obtain miners where p3: "parsePeers (nf_miners f) = Inr miners"
    using c(1) p1 p2 by (cases "parsePeers (nf_miners f)") (auto simp: nodeConfig_def)
  have p4: "0 \<le> nf_difficulty f" "nf_difficulty f \<le> 255" using c(1) p1 p2 p3 by (auto simp: nodeConfig_def split: if_splits)
  note step = p1 p2 p3 p4 DevnetValidatorSet_distinct[OF ds]
  obtain validators where p5: "(NewValidatorSet (map (devnetKey (nv_crypto v)) ?ids) :: unit hs_error + ValidatorSet) = Inr validators"
    using c(1) step by (cases "NewValidatorSet (map (devnetKey (nv_crypto v)) ?ids) :: unit hs_error + ValidatorSet") (auto simp: nodeConfig_def not_less)
  obtain man manifestRoot where p6: "loadManifest (nv_blake3 v) (ho_fs h) (nf_aidagMeta f) (nf_manifestRoot f) = Inr (man, manifestRoot)"
    using c(1) step p5 by (cases "loadManifest (nv_blake3 v) (ho_fs h) (nf_aidagMeta f) (nf_manifestRoot f)") (auto simp: nodeConfig_def not_less)
  let ?zk = "if nf_zkmlArtifacts f = [] then Inr None
        else mapErr ProcKeys (bindE (LoadVerifier (nv_sha256 v) (ho_gnark h) (ho_keys h (nf_zkmlArtifacts f)))
               (\<lambda>zk. Inr (Some (ver_circuitID zk))))"
  obtain zk where p7: "?zk = Inr zk" using c(1) step p5 p6 by (cases ?zk) (simp_all add: nodeConfig_def not_less)
  note step = step p5 p6 p7
  obtain fork where p8: "parseEngineFork (nf_engineFork f) = Inr fork"
    using c(1) step by (cases "parseEngineFork (nf_engineFork f)") (simp_all add: nodeConfig_def not_less)
  obtain eng where p9: "engineFor (ho_fs h) (ho_endpoint h (nf_engineURL f)) fork (nf_engineURL f) (nf_engineJWT f) (nf_engineGenesis f) = Inr eng"
    using c(1) step p8 by (cases "engineFor (ho_fs h) (ho_endpoint h (nf_engineURL f)) fork (nf_engineURL f) (nf_engineJWT f) (nf_engineGenesis f)")
      (simp_all add: nodeConfig_def not_less)
  let ?st = "if nf_objectDir f = [] then Inr None
            else bindE (mapErr ProcStore (Store_New (ho_mkdirOK h) (nf_objectDir f) 33554432 (ho_stores h (nf_objectDir f))))
                   (\<lambda>s. Inr (Some s))"
  obtain st where p10: "?st = Inr st" using c(1) step p8 p9 by (cases ?st) (simp_all add: nodeConfig_def not_less)
  have eq: "\<lparr>cf_ID = nf_id f, cf_PrivateKey = the (map_of (map (\<lambda>i. (i, DevnetPrivateKey (nv_crypto v) i)) ?ids) (nf_id f)),
          cf_Validators = Some validators,
          cf_Peers = peers, cf_Miners = miners, cf_Difficulty = word_of_int (nf_difficulty f), cf_ManifestRoot = manifestRoot,
          cf_AISealManifest = man, cf_AISealTarget = nf_aisealTarget f, cf_MinPoWSamples = nf_powSamples f,
          cf_MinTensorSamples = nf_tensorSamples f, cf_EVMURL = nf_evmURL f, cf_ExecutionEngine = eng,
          cf_ObjectStore = st, cf_AIRunner = Some (runnerFor manifestRoot (zk \<noteq> None)),
          cf_ZKMLVerifier = zk, cf_MinZKMLProofs = nf_minZKMLProofs f\<rparr> = cfg"
    using c(1) step p8 p9 p10 by (simp add: nodeConfig_def not_less)
  have cfg: "cf_ID cfg = nf_id f" "cf_Validators cfg = Some validators" "cf_Difficulty cfg = word_of_int (nf_difficulty f)"
      "cf_PrivateKey cfg = the (map_of (snd (DevnetValidatorSet (nv_crypto v) ?ids)) (nf_id f))"
      "cf_ManifestRoot cfg = manifestRoot" "cf_AISealManifest cfg = man" "cf_AISealTarget cfg = nf_aisealTarget f"
      "cf_MinPoWSamples cfg = nf_powSamples f" "cf_MinTensorSamples cfg = nf_tensorSamples f"
      "cf_AIRunner cfg = Some (runnerFor manifestRoot (zk \<noteq> None))" "cf_ZKMLVerifier cfg = zk"
    unfolding eq[symmetric] by (simp_all add: DevnetValidatorSet_distinct[OF ds])
  have "map_of (map (\<lambda>i. (i, DevnetPrivateKey (nv_crypto v) i)) (sort (map fst peers))) (nf_id f) = Some (DevnetPrivateKey (nv_crypto v) (nf_id f))"
    using p2 by (simp add: map_of_map_restrict)
  then have key: "cf_PrivateKey cfg = DevnetPrivateKey (nv_crypto v) (nf_id f)"
    using cfg(4) unfolding DevnetValidatorSet_distinct[OF ds] by simp
  have vs: "(NewValidatorSet (map (devnetKey (nv_crypto v)) (sorted_list_of_set (fst ` set peers))) :: unit hs_error + ValidatorSet) = Inr validators"
    using p5 unfolding sort_names[OF d] .
  have root: "man = Some m \<Longrightarrow> manifestRoot = man_ManifestRoot m" for m
    using p6 by (auto simp: loadManifest_def split: if_splits)
  have zk: "nf_zkmlArtifacts f = [] \<and> zk = None
     \<or> nf_zkmlArtifacts f \<noteq> [] \<and> (\<exists>ver. LoadVerifier (nv_sha256 v) (ho_gnark h) (ho_keys h (nf_zkmlArtifacts f)) = Inr ver \<and> zk = Some (ver_circuitID ver))"
    using p7 by (auto split: if_splits)
  have n: "nd_id n = nf_id f" "nd_privateKey n = DevnetPrivateKey (nv_crypto v) (nf_id f)" "nd_difficulty n = word_of_int (nf_difficulty f)"
    "nd_aiSealManifest n = man" "nd_manifestRoot n = manifestRoot" "nd_aiSealTarget n = nf_aisealTarget f"
    "nd_minPoWSamples n = nf_powSamples f" "nd_minTensorSamples n = nf_tensorSamples f"
    "nd_runner n = runnerFor manifestRoot (zk \<noteq> None)" "nd_zkmlVerifier n = zk" "nd_validators n = validators"
    using c(2) cfg key root by (auto simp: Node_New_def Let_def split: if_splits option.splits)
  show thesis by (rule that[OF p1 p2 p4 vs[folded n(11)] p6 zk n(1-10)])
qed

text \<open>What a miner got from its flags.\<close>

lemma runMiner_fields:
  assumes "runMiner cr blake3 g k = Inr s"
  obtains man manifestRoot where
    "0 \<le> mf_difficulty k" "mf_difficulty k \<le> 255"
    "loadManifest blake3 (ho_fs g) (mf_aidagMeta k) (mf_manifestRoot k) = Inr (man, manifestRoot)"
    "sv_ID s = mf_id k" "sv_PrivateKey s = DevnetPrivateKey cr (mf_id k)" "sv_Difficulty s = word_of_int (mf_difficulty k)"
    "sv_ManifestRoot s = manifestRoot" "sv_Runner s = runnerFor manifestRoot (mf_zkmlArtifacts k \<noteq> [])"
    "if mf_zkmlArtifacts k = [] then sv_ZKMLProver s = None
     else \<exists>p ver. LoadProver (cr_sha256 cr) (ho_gnark g) (ho_keys g (mf_zkmlArtifacts k)) = Inr (p, ver) \<and> sv_ZKMLProver s = Some (pv_circuitID p)"
    "sv_ProofProvider s = map_option (\<lambda>m. FileProofProvider_Create blake3 (ho_sealDone g) (ho_fs g) (providerFor k m) (ho_nonces g)) man"
proof -
  have d: "mf_id k \<noteq> []" "0 \<le> mf_difficulty k" "mf_difficulty k \<le> 255" using assms by (auto simp: runMiner_def split: if_splits)
  obtain man manifestRoot where l: "loadManifest blake3 (ho_fs g) (mf_aidagMeta k) (mf_manifestRoot k) = Inr (man, manifestRoot)"
    using assms d by (cases "loadManifest blake3 (ho_fs g) (mf_aidagMeta k) (mf_manifestRoot k)") (auto simp: runMiner_def not_less)
  have guard: "\<not> (man \<noteq> None \<and> mf_aidagPath k = [])" using assms d l by (auto simp: runMiner_def not_less split: if_splits)
  let ?new = "Service_New 0 (mf_id k) (DevnetPrivateKey cr (mf_id k)) (word_of_int (mf_difficulty k)) (mf_maxNonce k) manifestRoot
      :: miner_error + u64 Service"
  obtain s0 where n: "?new = Inr s0" using assms d l guard by (cases ?new) (auto simp: runMiner_def not_less)
  have s0: "sv_ID s0 = mf_id k" "sv_PrivateKey s0 = DevnetPrivateKey cr (mf_id k)" "sv_Difficulty s0 = word_of_int (mf_difficulty k)"
    "sv_ManifestRoot s0 = manifestRoot" "sv_Runner s0 = DummyRunner manifestRoot" "sv_ZKMLProver s0 = None" "sv_ProofProvider s0 = None"
    using n by (auto simp: Service_New_def split: if_splits)
  let ?st = "if mf_storageDir k = [] then Inr s0
            else bindE (mapErr ProcStore (Store_New (ho_mkdirOK g) (mf_storageDir k) 16777216 (ho_stores g (mf_storageDir k))))
                   (\<lambda>st. Inr (SetProofStore s0 (Some st)))"
  obtain s1 where t: "?st = Inr s1" using assms d l guard n by (cases ?st) (auto simp: runMiner_def not_less)
  then have s1: "sv_ID s1 = mf_id k" "sv_PrivateKey s1 = DevnetPrivateKey cr (mf_id k)" "sv_Difficulty s1 = word_of_int (mf_difficulty k)"
    "sv_ManifestRoot s1 = manifestRoot" "sv_Runner s1 = DummyRunner manifestRoot" "sv_ZKMLProver s1 = None" "sv_ProofProvider s1 = None"
    using s0 by (auto simp: SetProofStore_def split: if_splits)
  let ?s2 = "case man of None \<Rightarrow> s1
      | Some m \<Rightarrow> SetProofProvider s1 (Some (FileProofProvider_Create blake3 (ho_sealDone g) (ho_fs g) (providerFor k m) (ho_nonces g))) 0"
  have fin: "(if mf_zkmlArtifacts k = [] then Inr ?s2
      else bindE (mapErr ProcKeys (LoadProver (cr_sha256 cr) (ho_gnark g) (ho_keys g (mf_zkmlArtifacts k)))) (\<lambda>(prover, _).
        Inr (SetZKMLProver (SetRunner ?s2 (Some (QuantizedRunner manifestRoot))) (Some (pv_circuitID prover))))) = Inr s"
    using assms d l guard n t by (simp add: runMiner_def not_less Let_def)
  have s2: "sv_ID ?s2 = mf_id k" "sv_PrivateKey ?s2 = DevnetPrivateKey cr (mf_id k)" "sv_Difficulty ?s2 = word_of_int (mf_difficulty k)"
    "sv_ManifestRoot ?s2 = manifestRoot" "sv_Runner ?s2 = DummyRunner manifestRoot" "sv_ZKMLProver ?s2 = None"
    "sv_ProofProvider ?s2 = map_option (\<lambda>m. FileProofProvider_Create blake3 (ho_sealDone g) (ho_fs g) (providerFor k m) (ho_nonces g)) man"
    using s1 by (cases man; simp add: SetProofProvider_def)+
  have "sv_ID s = mf_id k" "sv_PrivateKey s = DevnetPrivateKey cr (mf_id k)" "sv_Difficulty s = word_of_int (mf_difficulty k)"
    "sv_ManifestRoot s = manifestRoot" "sv_Runner s = runnerFor manifestRoot (mf_zkmlArtifacts k \<noteq> [])"
    "sv_ProofProvider s = map_option (\<lambda>m. FileProofProvider_Create blake3 (ho_sealDone g) (ho_fs g) (providerFor k m) (ho_nonces g)) man"
    "if mf_zkmlArtifacts k = [] then sv_ZKMLProver s = None
     else \<exists>p ver. LoadProver (cr_sha256 cr) (ho_gnark g) (ho_keys g (mf_zkmlArtifacts k)) = Inr (p, ver) \<and> sv_ZKMLProver s = Some (pv_circuitID p)"
    using fin s2 by (auto simp: SetZKMLProver_def SetRunner_def runnerFor_def split: if_splits)
  then show thesis using that[OF d(2,3) l] by simp
qed

section \<open>Properties\<close>

text \<open>
  The list of peers that a process is given is read back as it was written: at least four names with their addresses,
  different names, no commas in them and no equals sign in a name, no white space around them and no slash at the end of an
  address, joined with commas, are parsed into the same list.
\<close>

theorem peers_roundtrip:
  assumes "\<forall>p \<in> set ps. plainPeer p" "distinct (map fst ps)" "4 \<le> length ps"
  shows "parsePeers (joinPeers ps) = Inr ps"
  using parsePeers_join[OF assms] .

theorem peers_roundtrip_witness:
  "parsePeers (joinPeers [(''a'', ''u''), (''b'', ''v''), (''c'', ''w''), (''d'', ''x'')])
    = Inr [(''a'', ''u''), (''b'', ''v''), (''c'', ''w''), (''d'', ''x'')]"
  by (rule peers_roundtrip) (simp_all add: plainPeer_def isSpaceC_def)

lemma loadManifest_cong: "fs p = fs' p \<Longrightarrow> loadManifest blake3 fs p r = loadManifest blake3 fs' p r"
  by (simp add: loadManifest_def LoadManifestFile_def openFile_def)

lemma Load_ids:
  "LoadProver sha256 g dir = Inr (p, ver) \<Longrightarrow> LoadVerifier sha256 g dir = Inr ver' \<Longrightarrow> pv_circuitID p = ver_circuitID ver'"
  by (auto simp: LoadProver_def LoadVerifier_def)

text \<open>
  C40: Processes that are started with the same settings fit together. For a node process and a miner process that come up
  with the same difficulty, manifest, key files, samples and target, the miner being one of the node's peers: the node's
  validator set is that of the devnet keys of its peers, whatever the order of their list, and the miner's key is registered
  in it; difficulty, manifest root, runner and circuit agree. Without a manifest the miner is configured for the node, and
  every ticket it mines passes the node's check; with one, the node's AISeal policy is the miner's, and the miner proves
  possession of the DAG of that manifest.
\<close>

theorem devnet_processes_fit:
  assumes node: "runNode v h f = Inr n" and miner: "runMiner (nv_crypto v) (nv_blake3 v) g k = Inr s"
    and peers: "parsePeers (nf_peers f) = Inr peers" "mf_id k \<in> fst ` set peers"
    and same: "mf_difficulty k = nf_difficulty f" "mf_manifestRoot k = nf_manifestRoot f" "mf_aidagMeta k = nf_aidagMeta f"
      "mf_zkmlArtifacts k = nf_zkmlArtifacts f" "mf_powSamples k = nf_powSamples f" "mf_tensorSamples k = nf_tensorSamples f"
      "mf_aisealTarget k = nf_aisealTarget f"
    and machines: "ho_fs g (nf_aidagMeta f) = ho_fs h (nf_aidagMeta f)" "ho_keys g (nf_zkmlArtifacts f) = ho_keys h (nf_zkmlArtifacts f)"
      "ho_gnark g = ho_gnark h"
    and works: "keysWork (nv_crypto v)"
  shows "(NewValidatorSet (map (devnetKey (nv_crypto v)) (sorted_list_of_set (fst ` set peers))) :: unit hs_error + ValidatorSet)
        = Inr (nd_validators n)
    \<and> PublicKey (nd_validators n) (sv_ID s) = Some (cr_public (nv_crypto v) (sv_PrivateKey s))
    \<and> sv_Difficulty s = nd_difficulty n \<and> sv_ManifestRoot s = nd_manifestRoot n \<and> sv_Runner s = nd_runner n
    \<and> sv_ZKMLProver s = nd_zkmlVerifier n
    \<and> (if nf_aidagMeta f = []
       then configured v n s \<and> (\<forall>osOK ctxDone request s' r pm.
           Service_Mine (nv_crypto v) (nv_groth16 v) osOK ctxDone s request = (s', Some (Inr r)) \<longrightarrow>
           checkTicket v n (mq_Height request) (mq_ParentHash request) (mq_Job request) (mr_Result r) pm (mr_Ticket r) = Inr ())
       else \<exists>m. sealPolicy n (providerFor k m) \<and> sv_ProofProvider s =
           Some (FileProofProvider_Create (nv_blake3 v) (ho_sealDone g) (ho_fs g) (providerFor k m) (ho_nonces g)))"
proof (rule runNode_fields[OF node], rule runMiner_fields[OF miner])
  fix peers' man root zk man' root'
  assume n: "parsePeers (nf_peers f) = Inr peers'"
    "(NewValidatorSet (map (devnetKey (nv_crypto v)) (sorted_list_of_set (fst ` set peers'))) :: unit hs_error + ValidatorSet) = Inr (nd_validators n)"
    "loadManifest (nv_blake3 v) (ho_fs h) (nf_aidagMeta f) (nf_manifestRoot f) = Inr (man, root)"
    "nf_zkmlArtifacts f = [] \<and> zk = None
     \<or> nf_zkmlArtifacts f \<noteq> [] \<and> (\<exists>ver. LoadVerifier (nv_sha256 v) (ho_gnark h) (ho_keys h (nf_zkmlArtifacts f)) = Inr ver \<and> zk = Some (ver_circuitID ver))"
    "nd_difficulty n = word_of_int (nf_difficulty f)"
    "nd_aiSealManifest n = man" "nd_manifestRoot n = root" "nd_aiSealTarget n = nf_aisealTarget f"
    "nd_minPoWSamples n = nf_powSamples f" "nd_minTensorSamples n = nf_tensorSamples f"
    "nd_runner n = runnerFor root (zk \<noteq> None)" "nd_zkmlVerifier n = zk"
  assume m: "loadManifest (nv_blake3 v) (ho_fs g) (mf_aidagMeta k) (mf_manifestRoot k) = Inr (man', root')"
    "sv_ID s = mf_id k" "sv_PrivateKey s = DevnetPrivateKey (nv_crypto v) (mf_id k)" "sv_Difficulty s = word_of_int (mf_difficulty k)"
    "sv_ManifestRoot s = root'" "sv_Runner s = runnerFor root' (mf_zkmlArtifacts k \<noteq> [])"
    "if mf_zkmlArtifacts k = [] then sv_ZKMLProver s = None
     else \<exists>p ver. LoadProver (nv_sha256 v) (ho_gnark g) (ho_keys g (mf_zkmlArtifacts k)) = Inr (p, ver) \<and> sv_ZKMLProver s = Some (pv_circuitID p)"
    "sv_ProofProvider s = map_option (\<lambda>m. FileProofProvider_Create (nv_blake3 v) (ho_sealDone g) (ho_fs g) (providerFor k m) (ho_nonces g)) man'"
  have p: "peers' = peers" using n(1) peers(1) by simp
  have l: "man' = man" "root' = root"
    using n(3) m(1) loadManifest_cong[where fs = "ho_fs g" and fs' = "ho_fs h" and p = "nf_aidagMeta f", OF machines(1)] same(2,3) by simp_all
  have manifest: "nf_aidagMeta f = [] \<Longrightarrow> man = None" "nf_aidagMeta f \<noteq> [] \<Longrightarrow> \<exists>m. man = Some m \<and> root = man_ManifestRoot m"
    using n(3) by (auto simp: loadManifest_def)
  have vs: "(NewValidatorSet (map (devnetKey (nv_crypto v)) (sorted_list_of_set (fst ` set peers))) :: unit hs_error + ValidatorSet)
      = Inr (nd_validators n)" using n(2) p by simp
  have key: "PublicKey (nd_validators n) (sv_ID s) = Some (cr_public (nv_crypto v) (sv_PrivateKey s))"
    using NewValidatorSet_key[OF vs, of "mf_id k"] peers(2) m(2,3) by simp
  have zk: "sv_ZKMLProver s = nd_zkmlVerifier n" "sv_Runner s = nd_runner n"
    using n(4,11,12) m(6,7) same(4) machines(2,3) l Load_ids by (auto split: if_splits)
  have diff: "sv_Difficulty s = nd_difficulty n" "sv_ManifestRoot s = nd_manifestRoot n" using n(5,7) m(4,5) same(1) l by simp_all
  have "configured v n s \<and> modeOK n" if e: "nf_aidagMeta f = []"
  proof -
    have "sv_ProofProvider s = None" "nd_aiSealManifest n = None" using manifest(1)[OF e] m(8) n(6) l by simp_all
    then show ?thesis using key zk diff n(7,11,12) by (auto simp: configured_def modeOK_def runnerFor_def)
  qed
  moreover have "checkTicket v n (mq_Height request) (mq_ParentHash request) (mq_Job request) (mr_Result r) pm (mr_Ticket r) = Inr ()"
    if "configured v n s \<and> modeOK n" "Service_Mine (nv_crypto v) (nv_groth16 v) osOK ctxDone s request = (s', Some (Inr r))"
    for osOK ctxDone request s' r pm
    using checkTicket_honest(1)[of v n request s r pm] that works by (auto simp: honestResponse_def)
  moreover have "\<exists>m. sealPolicy n (providerFor k m) \<and> sv_ProofProvider s =
      Some (FileProofProvider_Create (nv_blake3 v) (ho_sealDone g) (ho_fs g) (providerFor k m) (ho_nonces g))" if e: "nf_aidagMeta f \<noteq> []"
    using manifest(2)[OF e] n(6-10) m(8) l same(5-7) by (auto simp: sealPolicy_def providerFor_def)
  ultimately show ?thesis using vs key zk diff by auto
qed

text \<open>Four processes on machines without files, with the mock engine.\<close>

definition procCrypto :: crypto where
  "procCrypto = toyCrypto\<lparr>cr_keyFromSeed := (\<lambda>s. s @ s)\<rparr>"

definition procEnv :: "unit procEngine env" where
  "procEnv = \<lparr>nv_crypto = procCrypto, nv_blake3 = (\<lambda>b. b), nv_unmarshalProof = unmarshalProof, nv_groth16 = exampleGroth,
     nv_engine = processEngine (\<lambda>b. b) (\<lambda>s. s) \<lparr>wd_post = (\<lambda>s _ _ _. (s, None)), wd_now = (\<lambda>_. 0)\<rparr>, nv_parseTime = (\<lambda>_. None),
     nv_osOK = True\<rparr>"

definition procHost :: "(nat, nat, nat, unit) host" where
  "procHost = \<lparr>ho_fs = Map.empty, ho_keys = (\<lambda>_. Map.empty), ho_stores = (\<lambda>_. Map.empty), ho_mkdirOK = True, ho_gnark = toyKeys,
     ho_endpoint = (\<lambda>_. ()), ho_sealDone = (\<lambda>_. False), ho_nonces = (\<lambda>_. 0)\<rparr>"

definition procPeers :: "(string \<times> string) list" where
  "procPeers = [(''a'', ''u''), (''b'', ''v''), (''c'', ''w''), (''d'', ''x'')]"

definition procFlags :: nodeFlags where
  "procFlags = \<lparr>nf_id = ''a'', nf_peers = joinPeers procPeers, nf_miners = joinPeers procPeers, nf_difficulty = 10, nf_evmURL = [],
     nf_manifestRoot = [], nf_aidagMeta = [], nf_powSamples = 16, nf_tensorSamples = 4, nf_aisealTarget = [], nf_objectDir = [],
     nf_engineURL = [], nf_engineJWT = [], nf_engineGenesis = GenesisHash, nf_engineFork = ForkOsaka, nf_zkmlArtifacts = [],
     nf_minZKMLProofs = 0\<rparr>"

definition procMiner :: minerFlags where
  "procMiner = \<lparr>mf_id = ''b'', mf_difficulty = 10, mf_maxNonce = 0, mf_manifestRoot = [], mf_aidagPath = [], mf_aidagMeta = [],
     mf_aidagSidecar = [], mf_powSamples = 16, mf_tensorSamples = 4, mf_aisealTarget = [], mf_storageDir = [],
     mf_maxSealAttempts = 1024, mf_zkmlArtifacts = []\<rparr>"

lemma proc_parse: "parsePeers (joinPeers procPeers) = Inr procPeers"
  by (rule parsePeers_join) (simp_all add: procPeers_def plainPeer_def isSpaceC_def)

lemma proc_keys: "length (cr_public procCrypto (DevnetPrivateKey procCrypto i)) = 32" "length (DevnetPrivateKey procCrypto i) = 64"
  by (simp_all add: procCrypto_def toyCrypto_def DevnetPrivateKey_def)

lemma proc_node: "\<exists>n. runNode procEnv procHost procFlags = Inr n"
proof -
  let ?ids = "sort (map fst procPeers)"
  have ids: "set ?ids = {''a'', ''b'', ''c'', ''d''}" "distinct ?ids" "length ?ids = 4" by (auto simp: procPeers_def)
  obtain vs where vs: "(NewValidatorSet (map (devnetKey procCrypto) ?ids) :: unit hs_error + ValidatorSet) = Inr vs"
    using ids proc_keys by (force simp: NewValidatorSet_def devnetKey_def)
  have key: "vs_keys vs ''a'' = Some (cr_public procCrypto (DevnetPrivateKey procCrypto ''a''))"
    using NewValidatorSet_key[OF vs, of "''a''"] ids by (simp add: PublicKey_def)
  have priv: "map_of (map (\<lambda>i. (i, DevnetPrivateKey procCrypto i)) ?ids) ''a'' = Some (DevnetPrivateKey procCrypto ''a'')"
    using ids by (simp add: map_of_map_restrict)
  have fork: "parseEngineFork ForkOsaka = Inr ForkOsaka" by code_simp
  have "''a'' \<in> fst ` set procPeers" by (simp add: procPeers_def)
  then show ?thesis
    using key priv vs proc_keys proc_parse fork DevnetValidatorSet_distinct[OF ids(2), of procCrypto]
    by (simp add: runNode_def nodeConfig_def procFlags_def procEnv_def loadManifest_def engineFor_def Node_New_def NewReplica_def Let_def)
qed

lemma proc_miner: "\<exists>s. runMiner procCrypto (\<lambda>b. b) procHost procMiner = Inr s"
  using proc_keys by (simp add: runMiner_def procMiner_def loadManifest_def Service_New_def Store_New_def Let_def)

theorem devnet_processes_fit_witness:
  "\<exists>n s. runNode procEnv procHost procFlags = Inr n \<and> runMiner procCrypto (\<lambda>b. b) procHost procMiner = Inr s
    \<and> configured procEnv n s \<and> PublicKey (nd_validators n) ''b'' = Some (cr_public procCrypto (sv_PrivateKey s))"
proof -
  obtain n s where p: "runNode procEnv procHost procFlags = Inr n" "runMiner procCrypto (\<lambda>b. b) procHost procMiner = Inr s"
    using proc_node proc_miner by blast
  have m: "runMiner (nv_crypto procEnv) (nv_blake3 procEnv) procHost procMiner = Inr s" using p(2) by (simp add: procEnv_def)
  have peers: "parsePeers (nf_peers procFlags) = Inr procPeers" "mf_id procMiner \<in> fst ` set procPeers"
    using proc_parse by (simp_all add: procFlags_def procMiner_def procPeers_def)
  have works: "keysWork (nv_crypto procEnv)" by (simp add: keysWork_def procEnv_def procCrypto_def toyCrypto_def)
  have id: "sv_ID s = ''b''" using m by (rule runMiner_fields) (simp add: procMiner_def)
  have "configured procEnv n s \<and> PublicKey (nd_validators n) (sv_ID s) = Some (cr_public procCrypto (sv_PrivateKey s))"
    using devnet_processes_fit[OF p(1) m peers _ _ _ _ _ _ _ _ _ _ works] by (simp add: procFlags_def procMiner_def procEnv_def)
  then show ?thesis using p id by auto
qed

end
