(* ===== verification/Demo_Props.thy ===== *)
theory Demo_Props
  imports Daemon_Props
begin

text \<open>
  The demo of \<open>cmd/aidchaind/main.go\<close>: what it sets up is a start of the network of nodes, whose miners fit all of them.
\<close>

section \<open>The parts\<close>

lemma demoKeys_ids: "demoKeys sha256 h f = Inr (Some (a, b)) \<Longrightarrow> a = b"
  by (auto simp: demoKeys_def zkml_Setup_def LoadProver_def Let_def split: if_splits)

lemma demo_distinct: "distinct demoIDs" "length demoIDs = 4"
  by (simp_all add: demoIDs_def)

lemma demoPrepare_facts:
  assumes "demoPrepare v h f = Inr d"
  shows "(NewValidatorSet (map (devnetKey (nv_crypto v)) demoIDs) :: unit hs_error + ValidatorSet) = Inr (ds_validators d)"
    and "ds_privateKeys d = map (\<lambda>i. (i, DevnetPrivateKey (nv_crypto v) i)) demoIDs"
    and "if df_aidagMeta f = [] then ds_manifest d = None
         else \<exists>m. ds_manifest d = Some m \<and> ds_manifestRoot d = man_ManifestRoot m"
    and "ds_circuitIDs d = Some (a, b) \<Longrightarrow> a = b"
  using assms demo_distinct(1) demoKeys_ids
  by (auto simp: demoPrepare_def Let_def DevnetValidatorSet_distinct loadManifest_def split: if_splits)

lemma demoNode_fields:
  assumes "demoNode v f d i e = Inr n"
  shows "nd_id n = i" "nd_validators n = ds_validators d" "nd_difficulty n = word_of_int (df_difficulty f)"
    "nd_manifestRoot n = (case ds_manifest d of None \<Rightarrow> ds_manifestRoot d | Some m \<Rightarrow> man_ManifestRoot m)"
    "nd_aiSealManifest n = ds_manifest d" "nd_aiSealTarget n = df_aisealTarget f"
    "nd_minPoWSamples n = df_powSamples f" "nd_minTensorSamples n = df_tensorSamples f"
    "nd_runner n = runnerFor (ds_manifestRoot d) (ds_circuitIDs d \<noteq> None)" "nd_zkmlVerifier n = map_option snd (ds_circuitIDs d)"
    "nd_minZKMLProofs n = (if ds_circuitIDs d = None then 0 else int (Quorum (ds_validators d)))"
    "rp_height (nd_replica n) = 0" "rp_tipHash (nd_replica n) = GenesisHash" "rp_voted (nd_replica n) = Map.empty"
    "rp_lockedHeight (nd_replica n) = 0"
  using assms by (auto simp: demoNode_def Node_New_def NewReplica_def Let_def split: if_splits option.splits)

lemma demoMiner_fields:
  assumes "demoMiner blake3 h f d i = Inr s"
  shows "sv_ID s = i" "sv_PrivateKey s = the (map_of (ds_privateKeys d) i)" "sv_Difficulty s = word_of_int (df_difficulty f)"
    "sv_ManifestRoot s = ds_manifestRoot d" "sv_Runner s = runnerFor (ds_manifestRoot d) (ds_circuitIDs d \<noteq> None)"
    "sv_ZKMLProver s = map_option fst (ds_circuitIDs d)"
    "sv_ProofProvider s = map_option (\<lambda>m. FileProofProvider_Create blake3 (ho_sealDone h) (ho_fs h) (demoProvider f m) (ho_nonces h)) (ds_manifest d)"
  using assms
  by (cases "ds_circuitIDs d"; auto simp: demoMiner_def Service_New_def Let_def SetProofProvider_def SetRunner_def SetZKMLProver_def runnerFor_def
      split: if_splits option.splits)+

lemma demoLoop_parts:
  assumes "demoLoop v h listen f d i ids = Inr parts"
  shows "map dp_id parts = ids \<and> (\<forall>p \<in> set parts. \<exists>e. demoNode v f d (dp_id p) e = Inr (dp_node p)
    \<and> demoMiner (nv_blake3 v) h f d (dp_id p) = Inr (dp_miner p))"
  using assms
proof (induction ids arbitrary: i parts)
  case (Cons ident ids)
  then show ?case by (fastforce simp: Let_def)
qed simp

section \<open>The network\<close>

text \<open>The nodes of the demo as a state of the network.\<close>

definition nodeOf :: "'x demoPart list \<Rightarrow> string \<Rightarrow> 'x Node" where
  "nodeOf parts i = dp_node (the (find (\<lambda>p. dp_id p = i) parts))"

lemma nodeOf_part: "p \<in> set parts \<Longrightarrow> distinct (map dp_id parts) \<Longrightarrow> nodeOf parts (dp_id p) = dp_node p"
  by (induction parts) (auto simp: nodeOf_def)

lemma configure_all:
  assumes "nodeReachable v vs keyOf faulty s" "set is \<subseteq> honest vs faulty" "distinct is"
  shows "nodeReachable v vs keyOf faulty
    (s\<lparr>ns_nodes := (\<lambda>i. if i \<in> set is then SetMiners (SetPeers (ns_nodes s i) peers) miners else ns_nodes s i)\<rparr>)"
  using assms
proof (induction "is")
  case (Cons j js)
  let ?s = "s\<lparr>ns_nodes := (\<lambda>i. if i \<in> set js then SetMiners (SetPeers (ns_nodes s i) peers) miners else ns_nodes s i)\<rparr>"
  have "nodeReachable v vs keyOf faulty (?s\<lparr>ns_nodes := (ns_nodes ?s)(j := SetMiners (SetPeers (ns_nodes ?s j) peers) miners)\<rparr>)"
    using Cons by (intro nodeReachable.configure) auto
  moreover have "(ns_nodes ?s)(j := SetMiners (SetPeers (ns_nodes ?s j) peers) miners)
      = (\<lambda>i. if i \<in> set (j # js) then SetMiners (SetPeers (ns_nodes s i) peers) miners else ns_nodes s i)"
    using Cons.prems(3) by (auto simp: fun_eq_iff)
  ultimately show ?case by simp
qed simp

lemma demo_reachable:
  assumes d: "demoPrepare v h f = Inr d" and l: "demoLoop v h listen f d 0 demoIDs = Inr parts"
  shows "nodeReachable v (ds_validators d) (DevnetPrivateKey (nv_crypto v)) {} \<lparr>ns_nodes = nodeOf (connect parts), ns_signed = {}\<rparr>"
proof -
  note names = demoLoop_parts[OF l, THEN conjunct1] and each = demoLoop_parts[OF l, THEN conjunct2]
  let ?key = "DevnetPrivateKey (nv_crypto v)" and ?h = "honest (ds_validators d) {}"
  let ?peers = "map (\<lambda>p. (dp_id p, dp_url p)) parts" and ?miners = "map (\<lambda>p. (dp_id p, dp_minerURL p)) parts"
  let ?N = "\<lambda>i. if i \<in> set demoIDs then nodeOf parts i else nodeOf (connect parts) i"
  have ids: "set (vs_ids (ds_validators d)) = set demoIDs"
    using demoPrepare_facts(1)[OF d]
    by (auto simp: NewValidatorSet_def devnetKey_def[abs_def] comp_def dest!: sym[of _ "ds_validators d"] split: if_splits)
  have h: "?h = set demoIDs" by (simp add: ids)
  have dist: "distinct (map dp_id parts)" unfolding names by (rule demo_distinct)
  have conn: "nodeOf (connect parts) i = SetMiners (SetPeers (nodeOf parts i) ?peers) ?miners" if i: "i \<in> set demoIDs" for i
  proof -
    obtain p where p: "p \<in> set parts" "dp_id p = i" using i unfolding names[symmetric] by auto
    let ?c = "p\<lparr>dp_node := SetMiners (SetPeers (dp_node p) ?peers) ?miners\<rparr>"
    have "?c \<in> set (connect parts)" using p by (auto simp: connect_def Let_def)
    moreover have "distinct (map dp_id (connect parts))" using dist by (simp add: connect_def Let_def comp_def)
    ultimately have "nodeOf (connect parts) (dp_id ?c) = dp_node ?c" by (rule nodeOf_part)
    then show ?thesis using nodeOf_part[OF p(1) dist] p(2) by simp
  qed
  have "\<exists>c. cf_ID c = i \<and> cf_Validators c = Some (ds_validators d) \<and> cf_PrivateKey c = ?key i \<and> Node_New v c = Inr (?N i)"
    if i: "i \<in> set demoIDs" for i
  proof -
    obtain p where p: "p \<in> set parts" "dp_id p = i" using i unfolding names[symmetric] by auto
    then obtain e where e: "demoNode v f d i e = Inr (nodeOf parts i)" using each nodeOf_part[OF p(1) dist] by metis
    moreover have "the (map_of (ds_privateKeys d) i) = ?key i"
      using i by (simp add: demoPrepare_facts(2)[OF d] map_of_map_restrict)
    ultimately show ?thesis using i unfolding demoNode_def mapErr_eq_Inr by (intro exI conjI; (assumption)?) auto
  qed
  then obtain cfg where "\<forall>i \<in> ?h. cf_ID (cfg i) = i \<and> cf_Validators (cfg i) = Some (ds_validators d)
      \<and> cf_PrivateKey (cfg i) = ?key i \<and> Node_New v (cfg i) = Inr (?N i)"
    unfolding h by metis
  then have "nodeReachable v (ds_validators d) ?key {} \<lparr>ns_nodes = ?N, ns_signed = {}\<rparr>" by (rule nodeReachable.start)
  from configure_all[OF this _ demo_distinct(1), of ?peers ?miners]
  have "nodeReachable v (ds_validators d) ?key {} \<lparr>ns_nodes = (\<lambda>i. if i \<in> set demoIDs
      then SetMiners (SetPeers (?N i) ?peers) ?miners else ?N i), ns_signed = {}\<rparr>" using h by (simp cong: if_cong)
  moreover have "(\<lambda>i. if i \<in> set demoIDs then SetMiners (SetPeers (?N i) ?peers) ?miners else ?N i) = nodeOf (connect parts)"
    using conn by (auto simp: fun_eq_iff)
  ultimately show ?thesis by simp
qed

section \<open>Properties\<close>

text \<open>
  C39: The demo starts a network that fits together. Once the four nodes and miners have come up, the nodes are a reachable
  state of the network of nodes with the devnet keys as its validators and no faulty one, so that its safety theorems apply to
  whatever happens in the rounds; all nodes have the same policy, are at height zero on the genesis block, and know the
  addresses of all four nodes and miners, which are enough for a quorum; every miner's key is registered. Without a manifest
  every miner is configured for every node; with one, every miner proves possession of the DAG that every node demands.
\<close>

theorem demo_network_ready:
  assumes run: "runDemo v h listen f = Inr parts"
  shows "\<exists>vs. (NewValidatorSet (map (devnetKey (nv_crypto v)) demoIDs) :: unit hs_error + ValidatorSet) = Inr vs
    \<and> map dp_id parts = demoIDs
    \<and> nodeReachable v vs (DevnetPrivateKey (nv_crypto v)) {} \<lparr>ns_nodes = nodeOf parts, ns_signed = {}\<rparr>
    \<and> (\<forall>p \<in> set parts. nd_validators (dp_node p) = vs \<and> atTip 0 GenesisHash (nd_replica (dp_node p))
      \<and> nd_peers (dp_node p) = map (\<lambda>q. (dp_id q, dp_url q)) parts \<and> Quorum vs \<le> length (nd_peers (dp_node p))
      \<and> nd_miners (dp_node p) = map (\<lambda>q. (dp_id q, dp_minerURL q)) parts \<and> Quorum vs \<le> length (nd_miners (dp_node p))
      \<and> (\<forall>q \<in> set parts. samePolicy (dp_node p) (dp_node q)
        \<and> PublicKey vs (sv_ID (dp_miner q)) = Some (cr_public (nv_crypto v) (sv_PrivateKey (dp_miner q)))
        \<and> (if df_aidagMeta f = [] then configured v (dp_node p) (dp_miner q) \<and> modeOK (dp_node p)
           else \<exists>m. sealPolicy (dp_node p) (demoProvider f m) \<and> sv_ProofProvider (dp_miner q) =
             Some (FileProofProvider_Create (nv_blake3 v) (ho_sealDone h) (ho_fs h) (demoProvider f m) (ho_nonces h)))))"
proof -
  obtain d parts' where r: "demoPrepare v h f = Inr d" "demoLoop v h listen f d 0 demoIDs = Inr parts'" "parts = connect parts'"
    using run by (auto simp: runDemo_def)
  note F = demoPrepare_facts[OF r(1)]
  have names: "map dp_id parts = demoIDs" using demoLoop_parts[OF r(2)] by (auto simp: r(3) connect_def Let_def comp_def)
  have each: "\<exists>n e. demoNode v f d (dp_id p) e = Inr n \<and> demoMiner (nv_blake3 v) h f d (dp_id p) = Inr (dp_miner p)
      \<and> dp_node p = SetMiners (SetPeers n (map (\<lambda>q. (dp_id q, dp_url q)) parts)) (map (\<lambda>q. (dp_id q, dp_minerURL q)) parts)"
    if "p \<in> set parts" for p
    using that demoLoop_parts[OF r(2)] by (fastforce simp: r(3) connect_def Let_def comp_def)
  have size: "length parts = 4" "Quorum (ds_validators d) = 3"
    using arg_cong[OF names, of length] F(1) demo_distinct(2)
    by (auto simp: NewValidatorSet_def Quorum_def VS_Len_def dest!: sym[of _ "ds_validators d"] split: if_splits)
  have pub: "PublicKey (ds_validators d) i = Some (cr_public (nv_crypto v) (the (map_of (ds_privateKeys d) i)))" if "i \<in> set demoIDs" for i
    using NewValidatorSet_key[OF F(1) that] that by (simp add: F(2) map_of_map_restrict)
  have node: "nd_validators (dp_node p) = ds_validators d \<and> atTip 0 GenesisHash (nd_replica (dp_node p))
      \<and> nd_peers (dp_node p) = map (\<lambda>q. (dp_id q, dp_url q)) parts \<and> nd_miners (dp_node p) = map (\<lambda>q. (dp_id q, dp_minerURL q)) parts"
    if p: "p \<in> set parts" for p
    using each[OF p] by (auto simp: SetMiners_def SetPeers_def demoNode_fields atTip_def votedFor_def)
  have pair: "samePolicy (dp_node p) (dp_node q)
      \<and> PublicKey (ds_validators d) (sv_ID (dp_miner q)) = Some (cr_public (nv_crypto v) (sv_PrivateKey (dp_miner q)))
      \<and> (if df_aidagMeta f = [] then configured v (dp_node p) (dp_miner q) \<and> modeOK (dp_node p)
         else \<exists>m. sealPolicy (dp_node p) (demoProvider f m) \<and> sv_ProofProvider (dp_miner q) =
             Some (FileProofProvider_Create (nv_blake3 v) (ho_sealDone h) (ho_fs h) (demoProvider f m) (ho_nonces h)))"
    if pq: "p \<in> set parts" "q \<in> set parts" for p q
  proof -
    obtain n e n' e' where n: "demoNode v f d (dp_id p) e = Inr n" "demoNode v f d (dp_id q) e' = Inr n'"
      "demoMiner (nv_blake3 v) h f d (dp_id q) = Inr (dp_miner q)"
      "dp_node p = SetMiners (SetPeers n (map (\<lambda>q. (dp_id q, dp_url q)) parts)) (map (\<lambda>q. (dp_id q, dp_minerURL q)) parts)"
      "dp_node q = SetMiners (SetPeers n' (map (\<lambda>q. (dp_id q, dp_url q)) parts)) (map (\<lambda>q. (dp_id q, dp_minerURL q)) parts)"
      using each[OF pq(1)] each[OF pq(2)] by blast
    note fields = demoNode_fields[OF n(1)] demoNode_fields[OF n(2)] demoMiner_fields[OF n(3)]
    have q: "dp_id q \<in> set demoIDs" using pq(2) unfolding names[symmetric] by simp
    have same: "samePolicy (dp_node p) (dp_node q)" by (simp add: samePolicy_def n(4,5) SetMiners_def SetPeers_def fields)
    have key: "PublicKey (ds_validators d) (sv_ID (dp_miner q)) = Some (cr_public (nv_crypto v) (sv_PrivateKey (dp_miner q)))"
      using pub[OF q] by (simp add: fields)
    have zk: "map_option fst (ds_circuitIDs d) = map_option snd (ds_circuitIDs d)"
      using F(4) by (cases "ds_circuitIDs d") auto
    have conf: "configured v (dp_node p) (dp_miner q) \<and> modeOK (dp_node p)" if "df_aidagMeta f = []"
      using F(3) that key zk
      by (simp add: configured_def modeOK_def n(4) SetMiners_def SetPeers_def fields runnerFor_def)
    moreover have "\<exists>m. sealPolicy (dp_node p) (demoProvider f m) \<and> sv_ProofProvider (dp_miner q) =
             Some (FileProofProvider_Create (nv_blake3 v) (ho_sealDone h) (ho_fs h) (demoProvider f m) (ho_nonces h))"
      if "df_aidagMeta f \<noteq> []"
      using F(3) that by (auto simp: sealPolicy_def demoProvider_def n(4) SetMiners_def SetPeers_def fields)
    ultimately show ?thesis using same key by auto
  qed
  have reach: "nodeReachable v (ds_validators d) (DevnetPrivateKey (nv_crypto v)) {} \<lparr>ns_nodes = nodeOf parts, ns_signed = {}\<rparr>"
    using demo_reachable[OF r(1,2)] unfolding r(3) .
  show ?thesis
    by (rule exI[of _ "ds_validators d"]) (use F(1) names reach node pair size in simp)
qed

text \<open>The demo on a machine without files, with the mock engine.\<close>

definition exampleDemo :: demoFlags where
  "exampleDemo = \<lparr>df_rounds = 3, df_basePort = 19000, df_difficulty = 10, df_maxNonce = 5000000, df_evmURL = [],
     df_manifestRoot = [], df_aidagPath = [], df_aidagMeta = [], df_aidagSidecar = [], df_powSamples = 16, df_tensorSamples = 4,
     df_aisealTarget = [], df_maxSealAttempts = 1024, df_engineURLs = [], df_engineJWT = [], df_engineGenesis = GenesisHash,
     df_engineFork = ForkOsaka, df_zkml = False, df_zkmlArtifacts = []\<rparr>"

lemma example_prepare: "\<exists>d. demoPrepare procEnv procHost exampleDemo = Inr d \<and> ds_engines d = None \<and> ds_manifest d = None \<and> ds_circuitIDs d = None"
proof -
  obtain vs where vs: "(NewValidatorSet (map (devnetKey procCrypto) demoIDs) :: unit hs_error + ValidatorSet) = Inr vs"
    using proc_keys by (force simp: NewValidatorSet_def devnetKey_def demoIDs_def)
  have fork: "parseEngineFork ForkOsaka = Inr ForkOsaka" by code_simp
  show ?thesis
    using vs fork by (simp add: demoPrepare_def exampleDemo_def procEnv_def DevnetValidatorSet_distinct demo_distinct loadManifest_def demoKeys_def)
qed

lemma example_loop:
  assumes d: "demoPrepare procEnv procHost exampleDemo = Inr d" "ds_engines d = None" "ds_manifest d = None" "ds_circuitIDs d = None"
    and "set ids \<subseteq> set demoIDs"
  shows "\<exists>parts. demoLoop procEnv procHost Some exampleDemo d i ids = Inr parts"
  using assms(5)
proof (induction ids arbitrary: i)
  case (Cons j ids)
  then obtain parts where parts: "demoLoop procEnv procHost Some exampleDemo d (i + 1) ids = Inr parts" by auto
  have j: "j \<in> set demoIDs" "j \<noteq> []" using Cons.prems by (auto simp: demoIDs_def)
  have key: "vs_keys (ds_validators d) j \<noteq> None" "map_of (ds_privateKeys d) j = Some (DevnetPrivateKey procCrypto j)"
    using NewValidatorSet_key[OF demoPrepare_facts(1)[OF d(1)] j(1)] j demoPrepare_facts(2)[OF d(1)]
    by (simp_all add: PublicKey_def map_of_map_restrict procEnv_def)
  have "\<exists>n. demoNode procEnv exampleDemo d j e = Inr n" for e
    using key j d proc_keys by (auto simp: demoNode_def Node_New_def NewReplica_def Let_def)
  moreover have "\<exists>s. demoMiner (nv_blake3 procEnv) procHost exampleDemo d j = Inr s"
    using key j d proc_keys by (simp add: demoMiner_def Service_New_def Store_New_def Let_def)
  ultimately show ?case using parts d by (auto simp: demoEngine_def Let_def) 
qed simp

theorem demo_network_ready_witness:
  "\<exists>parts. runDemo procEnv procHost Some exampleDemo = Inr parts \<and> map dp_id parts = demoIDs
    \<and> (\<forall>p \<in> set parts. \<forall>q \<in> set parts. configured procEnv (dp_node p) (dp_miner q))"
proof -
  obtain d where d: "demoPrepare procEnv procHost exampleDemo = Inr d" "ds_engines d = None" "ds_manifest d = None" "ds_circuitIDs d = None"
    using example_prepare by blast
  obtain parts where "demoLoop procEnv procHost Some exampleDemo d 0 demoIDs = Inr parts" using example_loop[OF d] by blast
  then have run: "runDemo procEnv procHost Some exampleDemo = Inr (connect parts)" using d by (simp add: runDemo_def)
  have "df_aidagMeta exampleDemo = []" by (simp add: exampleDemo_def)
  then show ?thesis using demo_network_ready[OF run] run by (intro exI[of _ "connect parts"]) auto
qed

end
