(* ===== verification/Spec2Isabelle.thy ===== *)
theory Spec2Isabelle
  imports Node_Props Merkle_Laws Seal_Props Tool_Props Example_Dag EngineClient_Laws Mining_Props ZkmlKeys Demo_Props
begin

text \<open>
  \<^bold>\<open>The program.\<close> AI-PoW unified DAG: validators that agree on blocks by HotStuff, miners that run an AI job and prove
  possession of a large file, the unified AI-DAG, and a tool that generates, checks and opens such files. The sources are the
  packages under \<open>internal/\<close> and the commands \<open>cmd/unifiedDAG\<close> (the tool) and \<open>cmd/aidchaind\<close> (node and miner processes).

  \<^bold>\<open>How the parts interact.\<close> The tool's \<open>gen\<close> packs a model file into pages of fixed size (an index page, model pages, filler
  pages), hashes every page into Merkle trees, and writes the DAG, its manifest and a sidecar with all tree levels. A miner
  holds DAG and sidecar; for a block it draws pages by hashing the challenge, reads them with their paths and makes an AISeal
  proof. A validator holds the manifest only and checks the proof. A round of the chain: a node sends the job to the miners,
  selects the largest group of equal results, hands the tickets to the winner; the winner builds a payload with the
  execution engine, an EVM receipt and a block, and collects votes in three phases; every validator checks the block before it
  votes and finalizes the execution payload when it sees the commit certificate. Finalized blocks go to the object store.

  \<^bold>\<open>Theories and sources.\<close>
  \<^item> \<open>Prelude\<close>, \<open>GoLib\<close>, \<open>Base64\<close>, \<open>Json\<close>, \<open>JsonParse\<close>, \<open>JsonIndent\<close>, \<open>Decode\<close>: machine words, the result type (a sum, the
    error left), and the parts of the Go standard library the sources use: \<open>binary\<close>, \<open>hex\<close>, \<open>strings\<close>, \<open>sort.Slice\<close>,
    \<open>base64\<close>, \<open>encoding/json\<close> in both directions. Strings are lists of bytes.
  \<^item> \<open>Wire\<close>, \<open>Page\<close>, \<open>Merkle\<close>, \<open>Manifest\<close>, \<open>Seal\<close>, \<open>Codec\<close>: \<open>internal/aiseal/hash.go\<close>, \<open>types.go\<close>, \<open>verify.go\<close>.
    \<open>Verify\<close> is split into the preamble, the derivation of the required pages, the pages and the digests, in this order.
  \<^item> \<open>Sidecar\<close>, \<open>Prover\<close>: \<open>internal/aiseal/prover.go\<close> and the tool's own reader of sidecars.
  \<^item> \<open>DagPage\<close>, \<open>DagGen\<close>, \<open>SidecarBuild\<close>, \<open>DagSeal\<close>, \<open>DagTool\<close>: \<open>cmd/unifiedDAG/main.go\<close>, from the page builder up to the
    commands \<open>gen\<close>, \<open>verify\<close>, \<open>extract\<close>, \<open>info\<close>, \<open>prove\<close>, \<open>verify-proof\<close> on a file system (a map from paths to contents).
  \<^item> \<open>Protocol\<close>: \<open>internal/protocol/types.go\<close>. \<open>HotStuff\<close>: \<open>internal/hotstuff\<close>, the replica as a record and its two handlers.
  \<^item> \<open>AIPoW\<close>: \<open>internal/aipow\<close>. \<open>Zkml\<close>, \<open>ZkmlKeys\<close>: \<open>internal/zkml\<close>. \<open>Storage\<close>: \<open>internal/storage\<close>. \<open>Evm\<close>: \<open>internal/evm\<close>.
  \<^item> \<open>Engine\<close>, \<open>EngineClient\<close>: \<open>internal/engine\<close>, the mock and the JSON-RPC client, two implementations of the record
    \<open>engine\<close>, which is the Go interface \<open>Engine\<close>.
  \<^item> \<open>Miner\<close>: \<open>internal/miner/miner.go\<close>, the service, \<open>Mine\<close> and the file proof provider.
  \<^item> \<open>Node\<close>, \<open>Network\<close>: \<open>internal/node\<close>, the validation of blocks with its caches, the handlers, the proposer and the
    coordinator.
  \<^item> \<open>Daemon\<close>: \<open>cmd/aidchaind\<close>, from the parsed flags to the node, the miner, the four nodes and miners of \<open>demo\<close>, the key
    files of \<open>zkml-setup\<close> and the request of \<open>submit\<close>. The engine of a process is a mock or a client (\<open>processEngine\<close>).
  A struct is a record with the fields of the struct, an error a constructor of the component's error type, a handler a function
  from the state to the new state and a result; the state that a failing handler leaves behind is kept, as in the code.

  \<^bold>\<open>What the lemmas show.\<close>
  \<^item> Consensus (\<open>HotStuff_Laws\<close>, \<open>HotStuff_Safety\<close>, \<open>HotStuff_Live\<close>, \<open>HotStuff_Props\<close>): replicas, an unreliable network and
    Byzantine validators are a step relation; its invariant gives agreement of the finalized chains; rounds can complete. The
    counting argument is the locale \<open>quorum_system\<close>, interpreted on the threshold of \<open>Quorum\<close>.
  \<^item> Nodes (\<open>Node_Laws\<close>, \<open>Node_Safety\<close>, \<open>Node_Live\<close>, \<open>Node_Rounds\<close>, \<open>Node_Props\<close>): the network of nodes refines the network of
    replicas, whatever is finalized was validated, and a round of honest miners and nodes goes through.
  \<^item> Mining (\<open>AIPoW_Laws\<close>, \<open>Miner_Laws\<close>, \<open>Provider_Props\<close>, \<open>Mining_Props\<close>): the runners meet the contract of the interface
    \<open>Runner\<close>, the nonce search, the winner; what a miner sends passes the checks of a node, also with AISeal proofs.
  \<^item> AISeal (\<open>Merkle_Laws\<close>, \<open>Seal_Laws\<close>, \<open>Sidecar_Laws\<close>, \<open>Prover_Laws\<close>, \<open>Seal_Props\<close>, \<open>DagSeal_Laws\<close>): Merkle proofs are complete
    and sound up to a collision, accepted pages are pages of the committed DAG, samples are distinct and in range, the
    prover's proofs verify, and the two verifiers of the repository relate by refinement.
  \<^item> The tool (\<open>DagGen_Laws\<close>, \<open>DagTool_Laws\<close>, \<open>Tool_Live\<close>, \<open>Tool_Props\<close>): generation does not depend on the order of the workers,
    what it writes is accepted by \<open>verify\<close>, \<open>extract\<close> and \<open>prove\<close>, and a generation whose pages can be built completes.
  \<^item> Engine, store, EVM and key files (\<open>Engine_Laws\<close>, \<open>EngineClient_Laws\<close>, \<open>Storage\<close>, \<open>Evm\<close>, \<open>ZkmlKeys\<close>): contracts, histories,
    round trips, and what goes wrong. The locale \<open>engine_head\<close> is interpreted on mock and client.
  \<^item> Processes (\<open>Daemon_Props\<close>, \<open>Demo_Props\<close>): lists of peers are read back, processes started with the same settings fit
    together, and what \<open>demo\<close> sets up is a start of the network of nodes. The locale \<open>two_engines\<close> lifts the contract of the
    engine to the interface value of a process.
  \<^item> \<open>Example_Dag\<close> and \<open>Example_Network\<close> hold the concrete DAG, nodes and miners on which the properties are applied.

  \<^bold>\<open>Bounds and fuel.\<close> The JSON reader is mutually recursive on a fuel of twice the length of the text plus two, and every call
  consumes a character or moves to a callee that does, so the fuel is not exhausted on any text; nesting is limited to 10000
  as in Go. Sampling and the nonce search are partial functions, because the Go loops need not end; \<^const>\<open>None\<close> is a call that
  does not return, and theorems say when it is \<^const>\<open>Some\<close>. Integers of the code are words of their width; Go's \<open>int\<close> is
  \<open>int\<close> with the bound written out where a decoder checks it. Fields of the DAG layout below \<open>2^63\<close> are hypotheses where
  the code multiplies without a check.

  \<^bold>\<open>Parameters.\<close> BLAKE3, SHA-256, Ed25519 come in as functions (\<open>blake3\<close>, the record \<open>crypto\<close>); no law
  of the hashes is assumed, results about binding exhibit a collision instead. Groth16 and MiMC are the records \<open>groth16\<close> and
  \<open>gnark\<close>; their completeness and the fact that a written key is read back are named hypotheses, as are correct signatures
  (\<open>keysWork\<close>). HTTP exchanges (\<open>network\<close>, \<open>world\<close>), the clock, the parser of time stamps, the order of map iteration, the
  arrival order of workers and answers, cancellation, and the success of system calls are arguments over which the theorems
  quantify. Each hypothesis has an instance in the witness of its theorem.

  \<^bold>\<open>Not modelled.\<close> Flag parsing, usage texts and progress output of the commands; the HTTP servers around the handlers
  of node and miner (routing and the decoding of request bodies); in \<open>cmd/aidchaind\<close> the loop of rounds of \<open>demo\<close>, which calls \<open>RunRound\<close> in
  turn, and the answer of \<open>submit\<close>; TCP, timeouts and the shutdown of servers; permissions and directories. The Solidity contract \<open>contracts/AIMarketplace.sol\<close> is not
  Go. Locks are not modelled as such: a handler under a mutex is one step, which is what the mutex guarantees.
\<close>

end
